(* ===== verification/Prelude.thy ===== *)
theory Prelude
  imports Complex_Main "HOL-Library.AList" "HOL-Library.Multiset"
    "HOL-Library.List_Lexorder" "HOL-Library.Char_ord"
begin

text \<open>
  Shared vocabulary of the development: the exceptions the program raises and the
  result type of code that may raise, insertion ordered dictionaries, the slices and
  stable sorts of the Python list library, and the two contracts that several
  components fulfil: a \<^emph>\<open>rolling log\<close> (a list that keeps its newest entries)
  and a \<^emph>\<open>keyed table with ages\<close> (peers that are dropped when silent).
\<close>

named_theorems pysimps \<open>rewriting rules for the Python primitives\<close>
named_theorems inv_intros \<open>preservation lemmas of component invariants\<close>

section \<open>Exceptions as values\<close>

datatype pyexc =
    KeyError string
  | TypeError
  | ValueError string
  | AttributeError
  | IndexError
  | ZeroDivisionError
  | OverflowError
  | ConnectionError
  | OSError
  | JSONDecodeError
  | DatabaseError
  | RuntimeError string
  | InvalidTag
  | ProofValidationError string
  | NotImplementedError
  | DidWbaError string nat
  | ExpiredSignatureError
  | InvalidTokenError
  | HTTPException nat string
  | HandleError string
  | HandleMovedError string

type_synonym 'a result = "pyexc + 'a"

definition bindE :: "'a result \<Rightarrow> ('a \<Rightarrow> 'b result) \<Rightarrow> 'b result" where
  "bindE r f = (case r of Inl e \<Rightarrow> Inl e | Inr x \<Rightarrow> f x)"

lemma bindE_simps [simp]:
  "bindE (Inl e) f = Inl e"
  "bindE (Inr x) f = f x"
  by (simp_all add: bindE_def)

lemma bindE_Inr_iff: "bindE r f = Inr y \<longleftrightarrow> (\<exists>x. r = Inr x \<and> f x = Inr y)"
  by (cases r) auto

fun mapE :: "('a \<Rightarrow> 'b result) \<Rightarrow> 'a list \<Rightarrow> 'b list result" where
  "mapE f [] = Inr []"
| "mapE f (x # xs) = bindE (f x) (\<lambda>y. bindE (mapE f xs) (\<lambda>ys. Inr (y # ys)))"

fun foldE :: "('a \<Rightarrow> 's \<Rightarrow> 's result) \<Rightarrow> 'a list \<Rightarrow> 's \<Rightarrow> 's result" where
  "foldE f [] s = Inr s"
| "foldE f (x # xs) s = bindE (f x s) (foldE f xs)"

lemma mapE_Inr_map: "(\<And>x. x \<in> set xs \<Longrightarrow> f x = Inr (g x)) \<Longrightarrow> mapE f xs = Inr (map g xs)"
  by (induction xs) auto

lemma foldE_Inr_fold:
  "(\<And>x s. x \<in> set xs \<Longrightarrow> f x s = Inr (g x s)) \<Longrightarrow> foldE f xs s = Inr (fold g xs s)"
  by (induction xs arbitrary: s) auto

section \<open>Handlers: state, and exceptions that keep it\<close>

text \<open>
  A method that changes the object's state and may raise half-way leaves the changes made
  so far in place.  \<open>sx\<close> is the type of such methods: the state after the call comes with
  the value or with the exception.
\<close>

type_synonym ('s, 'a) sx = "'s \<Rightarrow> 'a result \<times> 's"

definition sx_return :: "'a \<Rightarrow> ('s, 'a) sx" where "sx_return x s = (Inr x, s)"
definition sx_lift :: "'a result \<Rightarrow> ('s, 'a) sx" where "sx_lift r s = (r, s)"
definition sx_raise :: "pyexc \<Rightarrow> ('s, 'a) sx" where "sx_raise e s = (Inl e, s)"
definition sx_get :: "('s \<Rightarrow> 'a) \<Rightarrow> ('s, 'a) sx" where "sx_get f s = (Inr (f s), s)"
definition sx_modify :: "('s \<Rightarrow> 's) \<Rightarrow> ('s, unit) sx" where "sx_modify g s = (Inr (), g s)"

definition sx_bind :: "('s, 'a) sx \<Rightarrow> ('a \<Rightarrow> ('s, 'b) sx) \<Rightarrow> ('s, 'b) sx" where
  "sx_bind m f s = (case m s of (Inl e, t) \<Rightarrow> (Inl e, t) | (Inr x, t) \<Rightarrow> f x t)"

definition sx_then :: "('s, 'a) sx \<Rightarrow> ('s, 'b) sx \<Rightarrow> ('s, 'b) sx" where
  "sx_then m n = sx_bind m (\<lambda>_. n)"

definition sx_when :: "bool \<Rightarrow> ('s, unit) sx \<Rightarrow> ('s, unit) sx" where
  "sx_when b m = (if b then m else sx_return ())"

fun sx_iter :: "('a \<Rightarrow> ('s, unit) sx) \<Rightarrow> 'a list \<Rightarrow> ('s, unit) sx" where
  "sx_iter f [] = sx_return ()"
| "sx_iter f (x # xs) = sx_then (f x) (sx_iter f xs)"

lemmas sx_defs = sx_return_def sx_lift_def sx_raise_def sx_get_def sx_modify_def sx_bind_def
  sx_then_def sx_when_def

text \<open>A method keeps an invariant whether it returns or raises.\<close>

definition sx_keeps :: "('s \<Rightarrow> bool) \<Rightarrow> ('s, 'a) sx \<Rightarrow> bool" where
  "sx_keeps P m \<longleftrightarrow> (\<forall>s. P s \<longrightarrow> P (snd (m s)))"

lemma sx_keepsD: "sx_keeps P m \<Longrightarrow> P s \<Longrightarrow> P (snd (m s))"
  by (simp add: sx_keeps_def)

lemma sx_keeps_basic [inv_intros]:
  "sx_keeps P (sx_return x)" "sx_keeps P (sx_lift r)" "sx_keeps P (sx_raise e)" "sx_keeps P (sx_get f)"
  by (simp_all add: sx_keeps_def sx_defs)

lemma sx_keeps_modify [inv_intros]: "(\<And>s. P s \<Longrightarrow> P (g s)) \<Longrightarrow> sx_keeps P (sx_modify g)"
  by (simp add: sx_keeps_def sx_modify_def)

lemma sx_keeps_bind [inv_intros]:
  "sx_keeps P m \<Longrightarrow> (\<And>x. sx_keeps P (f x)) \<Longrightarrow> sx_keeps P (sx_bind m f)"
  by (fastforce simp: sx_keeps_def sx_bind_def split: prod.splits sum.splits)

lemma sx_keeps_then [inv_intros]: "sx_keeps P m \<Longrightarrow> sx_keeps P n \<Longrightarrow> sx_keeps P (sx_then m n)"
  by (simp add: sx_then_def sx_keeps_bind)

lemma sx_keeps_when [inv_intros]: "sx_keeps P m \<Longrightarrow> sx_keeps P (sx_when b m)"
  by (simp add: sx_when_def sx_keeps_basic)

lemma sx_keeps_if [inv_intros]:
  "sx_keeps P m \<Longrightarrow> sx_keeps P n \<Longrightarrow> sx_keeps P (if b then m else n)"
  by simp

lemma sx_keeps_iter [inv_intros]: "(\<And>x. sx_keeps P (f x)) \<Longrightarrow> sx_keeps P (sx_iter f xs)"
  by (induction xs) (simp_all add: sx_keeps_basic sx_keeps_then)

lemma sx_keeps_iter_set:
  "(\<And>x. x \<in> set xs \<Longrightarrow> sx_keeps P (f x)) \<Longrightarrow> sx_keeps P (sx_iter f xs)"
  by (induction xs) (simp_all add: sx_keeps_basic sx_keeps_then)

lemma sx_keeps_get_bind:
  "(\<And>s. P s \<Longrightarrow> sx_keeps P (f (g s))) \<Longrightarrow> sx_keeps P (sx_bind (sx_get g) f)"
  by (simp add: sx_keeps_def sx_bind_def sx_get_def)

lemma sx_keeps_lift_bind: "(\<And>x. r = Inr x \<Longrightarrow> sx_keeps P (f x)) \<Longrightarrow> sx_keeps P (sx_bind (sx_lift r) f)"
  by (cases r) (simp_all add: sx_keeps_def sx_defs)

text \<open>
  The triple: from states of \<open>P\<close> the method returns in \<open>Q\<close> or raises in \<open>E\<close>.
\<close>

definition sx_triple :: "('s \<Rightarrow> bool) \<Rightarrow> ('s, 'a) sx \<Rightarrow> ('a \<Rightarrow> 's \<Rightarrow> bool) \<Rightarrow> ('s \<Rightarrow> bool) \<Rightarrow> bool" where
  "sx_triple P m Q E \<longleftrightarrow> (\<forall>s. P s \<longrightarrow> (case m s of (Inl e, t) \<Rightarrow> E t | (Inr x, t) \<Rightarrow> Q x t))"

lemma sx_triple_bind:
  "sx_triple P m R E \<Longrightarrow> (\<And>x. sx_triple (R x) (f x) Q E) \<Longrightarrow> sx_triple P (sx_bind m f) Q E"
  unfolding sx_triple_def sx_bind_def by (fastforce split: prod.splits sum.splits)

lemma sx_triple_then:
  "sx_triple P m (\<lambda>_. R) E \<Longrightarrow> sx_triple R n Q E \<Longrightarrow> sx_triple P (sx_then m n) Q E"
  unfolding sx_then_def by (rule sx_triple_bind) simp_all

lemma sx_triple_return: "(\<And>s. P s \<Longrightarrow> Q x s) \<Longrightarrow> sx_triple P (sx_return x) Q E"
  by (simp add: sx_triple_def sx_return_def)

lemma sx_triple_lift:
  "(\<And>s x. P s \<Longrightarrow> r = Inr x \<Longrightarrow> Q x s) \<Longrightarrow> (\<And>s. P s \<Longrightarrow> E s) \<Longrightarrow> sx_triple P (sx_lift r) Q E"
  by (cases r) (simp_all add: sx_triple_def sx_lift_def)

lemma sx_triple_get: "(\<And>s. P s \<Longrightarrow> Q (f s) s) \<Longrightarrow> sx_triple P (sx_get f) Q E"
  by (simp add: sx_triple_def sx_get_def)

lemma sx_triple_modify: "(\<And>s. P s \<Longrightarrow> Q () (g s)) \<Longrightarrow> sx_triple P (sx_modify g) Q E"
  by (simp add: sx_triple_def sx_modify_def)

lemma sx_triple_when:
  "(b \<Longrightarrow> sx_triple P m Q E) \<Longrightarrow> (\<And>s. \<not> b \<Longrightarrow> P s \<Longrightarrow> Q () s) \<Longrightarrow> sx_triple P (sx_when b m) Q E"
  by (simp add: sx_triple_def sx_when_def sx_return_def)

lemma sx_triple_if:
  "(b \<Longrightarrow> sx_triple P m Q E) \<Longrightarrow> (\<not> b \<Longrightarrow> sx_triple P n Q E) \<Longrightarrow> sx_triple P (if b then m else n) Q E"
  by simp

lemma sx_triple_conseq:
  "sx_triple P' m Q' E' \<Longrightarrow> (\<And>s. P s \<Longrightarrow> P' s) \<Longrightarrow> (\<And>x s. Q' x s \<Longrightarrow> Q x s) \<Longrightarrow>
    (\<And>s. E' s \<Longrightarrow> E s) \<Longrightarrow> sx_triple P m Q E"
  unfolding sx_triple_def by (fastforce split: prod.splits sum.splits)

lemma sx_triple_lift_bind:
  "(\<And>s. P s \<Longrightarrow> E s) \<Longrightarrow> (\<And>x. r = Inr x \<Longrightarrow> sx_triple P (f x) Q E) \<Longrightarrow>
    sx_triple P (sx_bind (sx_lift r) f) Q E"
  by (cases r) (simp_all add: sx_triple_def sx_defs)

lemma sx_triple_get_bind: "(\<And>x. sx_triple P (f x) Q E) \<Longrightarrow> sx_triple P (sx_bind (sx_get g) f) Q E"
  by (simp add: sx_triple_def sx_defs)

lemma sx_triple_keeps: "sx_triple P m (\<lambda>_. P) P \<longleftrightarrow> sx_keeps P m"
  unfolding sx_triple_def sx_keeps_def
  by (intro iff_allI imp_cong refl) (auto split: prod.splits sum.splits)

lemma sx_triple_snd: "sx_triple P m (\<lambda>_. Q) Q \<Longrightarrow> P s \<Longrightarrow> Q (snd (m s))"
  unfolding sx_triple_def by (cases "m s") (auto split: sum.splits)

section \<open>Dictionaries\<close>

text \<open>
  A Python dictionary keeps the insertion order of its keys, and storing under an
  existing key keeps the key's place: that is \<open>AList.update\<close> on an association
  list.  \<open>d.pop(k, None)\<close> and \<open>del d[k]\<close> are \<open>AList.delete\<close>.
\<close>

type_synonym ('k, 'v) pydict = "('k \<times> 'v) list"

abbreviation dget :: "('k, 'v) pydict \<Rightarrow> 'k \<Rightarrow> 'v option" where
  "dget d k \<equiv> map_of d k"

abbreviation dset :: "'k \<Rightarrow> 'v \<Rightarrow> ('k, 'v) pydict \<Rightarrow> ('k, 'v) pydict" where
  "dset k v d \<equiv> AList.update k v d"

abbreviation ddel :: "'k \<Rightarrow> ('k, 'v) pydict \<Rightarrow> ('k, 'v) pydict" where
  "ddel k d \<equiv> AList.delete k d"

abbreviation dkeys :: "('k, 'v) pydict \<Rightarrow> 'k list" where
  "dkeys d \<equiv> map fst d"

abbreviation dvals :: "('k, 'v) pydict \<Rightarrow> 'v list" where
  "dvals d \<equiv> map snd d"

definition dgetd :: "('k, 'v) pydict \<Rightarrow> 'k \<Rightarrow> 'v \<Rightarrow> 'v" where
  "dgetd d k x = (case dget d k of None \<Rightarrow> x | Some v \<Rightarrow> v)"

definition din :: "'k \<Rightarrow> ('k, 'v) pydict \<Rightarrow> bool" where
  "din k d = (dget d k \<noteq> None)"

definition dsetdefault :: "'k \<Rightarrow> 'v \<Rightarrow> ('k, 'v) pydict \<Rightarrow> ('k, 'v) pydict" where
  "dsetdefault k v d = (if din k d then d else d @ [(k, v)])"

definition dfilter :: "('k \<Rightarrow> 'v \<Rightarrow> bool) \<Rightarrow> ('k, 'v) pydict \<Rightarrow> ('k, 'v) pydict" where
  "dfilter P d = filter (\<lambda>(k, v). P k v) d"

lemma din_iff [pysimps]: "din k d \<longleftrightarrow> k \<in> set (dkeys d)"
  by (simp add: din_def map_of_eq_None_iff)

lemma dget_dset [simp]: "dget (dset k v d) k' = (if k' = k then Some v else dget d k')"
  by (simp add: update_conv')

lemma dget_ddel [simp]: "dget (ddel k d) k' = (if k' = k then None else dget d k')"
  by (simp add: delete_conv')

lemma dget_dsetdefault [simp]:
  "dget (dsetdefault k v d) k' = (if k' = k \<and> \<not> din k d then Some v else dget d k')"
  by (auto simp: dsetdefault_def din_def map_add_def split: option.splits)

lemma dgetd_dset [simp]: "dgetd (dset k v d) k' x = (if k' = k then v else dgetd d k' x)"
  by (simp add: dgetd_def)

lemma dgetd_Some: "dget d k = Some v \<Longrightarrow> dgetd d k x = v"
  by (simp add: dgetd_def)

lemma dgetd_None: "dget d k = None \<Longrightarrow> dgetd d k x = x"
  by (simp add: dgetd_def)

lemma dget_append: "dget (d @ d') k = (case dget d k of None \<Rightarrow> dget d' k | Some v \<Rightarrow> Some v)"
  by (auto simp: map_add_def split: option.splits)

lemma dkeys_dset: "dkeys (dset k v d) = (if k \<in> set (dkeys d) then dkeys d else dkeys d @ [k])"
  by (rule update_keys)

lemma dget_dfilter:
  "distinct (dkeys d) \<Longrightarrow>
    dget (dfilter P d) k = (case dget d k of None \<Rightarrow> None | Some v \<Rightarrow> if P k v then Some v else None)"
proof (induction d)
  case Nil
  then show ?case by (simp add: dfilter_def)
next
  case (Cons kv d)
  obtain k1 v1 where kv: "kv = (k1, v1)" by (cases kv)
  show ?case
  proof (cases "k = k1")
    case True
    with Cons.prems kv have "dget d k = None" by (simp add: map_of_eq_None_iff)
    then have "dget (dfilter P d) k = None"
      using Cons.IH Cons.prems kv by simp
    with True kv show ?thesis by (simp add: dfilter_def)
  next
    case False
    with Cons kv show ?thesis by (simp add: dfilter_def)
  qed
qed

lemma distinct_dkeys_dfilter: "distinct (dkeys d) \<Longrightarrow> distinct (dkeys (dfilter P d))"
  by (simp add: dfilter_def distinct_map_filter)

lemma distinct_dkeys_dset: "distinct (dkeys d) \<Longrightarrow> distinct (dkeys (dset k v d))"
  by (rule distinct_update)

lemma distinct_dkeys_ddel: "distinct (dkeys d) \<Longrightarrow> distinct (dkeys (ddel k d))"
  by (rule distinct_delete)

lemma distinct_dkeys_dsetdefault:
  "distinct (dkeys d) \<Longrightarrow> distinct (dkeys (dsetdefault k v d))"
  by (auto simp: dsetdefault_def pysimps)

lemmas dict_inv = distinct_dkeys_dset distinct_dkeys_ddel distinct_dkeys_dfilter
  distinct_dkeys_dsetdefault

section \<open>Lists\<close>

text \<open>\<open>xs[-n:]\<close>: the last \<open>n\<close> elements, and the whole list for \<open>n = 0\<close>.\<close>

definition last_slice :: "nat \<Rightarrow> 'a list \<Rightarrow> 'a list" where
  "last_slice n xs = (if n = 0 then xs else drop (length xs - n) xs)"

text \<open>\<open>xs[:n]\<close> for an integer that may be negative.\<close>

definition py_take :: "int \<Rightarrow> 'a list \<Rightarrow> 'a list" where
  "py_take n xs = (if 0 \<le> n then take (nat n) xs else take (length xs - nat (- n)) xs)"

lemma set_py_take: "set (py_take n xs) \<subseteq> set xs"
  by (auto simp: py_take_def dest: in_set_takeD)

lemma length_py_take: "0 \<le> n \<Longrightarrow> length (py_take n xs) = min (nat n) (length xs)"
  by (simp add: py_take_def min.commute)

text \<open>
  The idiom of the bounded logs: append, and when the list is too long keep the slice
  of the newest entries.
\<close>

definition append_capped :: "nat \<Rightarrow> 'a \<Rightarrow> 'a list \<Rightarrow> 'a list" where
  "append_capped n x xs =
     (let ys = xs @ [x] in if length ys > n then last_slice n ys else ys)"

lemma length_last_slice: "0 < n \<Longrightarrow> length (last_slice n xs) = min n (length xs)"
  by (simp add: last_slice_def min_def)

lemma set_last_slice: "set (last_slice n xs) \<subseteq> set xs"
  by (auto simp: last_slice_def dest: in_set_dropD)

lemma last_slice_id: "length xs \<le> n \<Longrightarrow> last_slice n xs = xs"
  by (simp add: last_slice_def)

lemma map_last_slice: "map f (last_slice n xs) = last_slice n (map f xs)"
  by (simp add: last_slice_def drop_map)

lemma append_capped_eq: "0 < n \<Longrightarrow> append_capped n x xs = last_slice n (xs @ [x])"
  by (simp add: append_capped_def Let_def last_slice_id)

lemma last_slice_append:
  assumes "0 < n"
  shows "last_slice n (last_slice n xs @ ys) = last_slice n (xs @ ys)"
proof (cases "length xs \<le> n")
  case True
  then show ?thesis by (simp add: last_slice_id)
next
  case False
  then obtain k where k: "length xs = k + n" by (metis add.commute le_Suc_ex linear)
  with assms show ?thesis by (simp add: last_slice_def add.commute)
qed

text \<open>
  \<open>sorted(xs, key=f)\<close> is the library's stable \<open>sort_key\<close>; with
  \<open>reverse=True\<close> Python keeps the order of equal elements, which is sorting the
  reversed list and reversing the result.
\<close>

definition sort_key_desc :: "('a \<Rightarrow> 'k::linorder) \<Rightarrow> 'a list \<Rightarrow> 'a list" where
  "sort_key_desc f xs = rev (sort_key f (rev xs))"

lemma mset_sort_key_desc [simp]: "mset (sort_key_desc f xs) = mset xs"
  by (simp add: sort_key_desc_def)

lemma set_sort_key_desc [simp]: "set (sort_key_desc f xs) = set xs"
  by (simp add: sort_key_desc_def)

lemma length_sort_key_desc [simp]: "length (sort_key_desc f xs) = length xs"
  by (simp add: sort_key_desc_def)

lemma sorted_sort_key_desc: "sorted_wrt (\<lambda>x y. f y \<le> f x) (sort_key_desc f xs)"
proof -
  have "sorted_wrt (\<lambda>x y. f x \<le> f y) (sort_key f (rev xs))"
    using sorted_sort_key[of f "rev xs"] by (simp add: sorted_map)
  then show ?thesis by (simp add: sort_key_desc_def sorted_wrt_rev)
qed

text \<open>
  \<open>sorted\<close> with a key function that may raise: Python computes every key first, so one
  key that raises makes the whole call raise.
\<close>

definition sortE :: "('a \<Rightarrow> 'k::linorder result) \<Rightarrow> 'a list \<Rightarrow> 'a list result" where
  "sortE f xs = bindE (mapE (\<lambda>x. bindE (f x) (\<lambda>k. Inr (k, x))) xs)
                      (\<lambda>ps. Inr (map snd (sort_key fst ps)))"

lemma map_insort_key: "map h (insort_key (\<lambda>y. f (h y)) x xs) = insort_key f (h x) (map h xs)"
  by (induction xs) auto

lemma map_sort_key: "map h (sort_key (\<lambda>y. f (h y)) xs) = sort_key f (map h xs)"
  by (induction xs) (simp_all add: map_insort_key)

lemma insort_key_cong:
  "(\<And>y. y \<in> insert x (set xs) \<Longrightarrow> f y = g y) \<Longrightarrow> insort_key f x xs = insort_key g x xs"
  by (induction xs) auto

lemma sort_key_cong: "(\<And>x. x \<in> set xs \<Longrightarrow> f x = g x) \<Longrightarrow> sort_key f xs = sort_key g xs"
proof (induction xs)
  case Nil
  then show ?case by simp
next
  case (Cons x xs)
  then have "sort_key f xs = sort_key g xs" by simp
  with Cons.prems show ?case by (auto intro: insort_key_cong)
qed

lemma sortE_Inr:
  assumes "\<And>x. x \<in> set xs \<Longrightarrow> f x = Inr (g x)"
  shows "sortE f xs = Inr (sort_key g xs)"
proof -
  let ?h = "\<lambda>x. (g x, x)"
  have "mapE (\<lambda>x. bindE (f x) (\<lambda>k. Inr (k, x))) xs = Inr (map ?h xs)"
    by (rule mapE_Inr_map) (simp add: assms)
  moreover have "sort_key fst (map ?h xs) = map ?h (sort_key (\<lambda>y. fst (?h y)) xs)"
    by (rule map_sort_key [symmetric])
  ultimately show ?thesis by (simp add: sortE_def comp_def)
qed

text \<open>\<open>max(xs, key=f)\<close>: the first of the largest elements; an empty list raises.\<close>

fun max_by :: "('a \<Rightarrow> 'k::linorder) \<Rightarrow> 'a \<Rightarrow> 'a list \<Rightarrow> 'a" where
  "max_by f b [] = b"
| "max_by f b (x # xs) = max_by f (if f b < f x then x else b) xs"

definition py_max :: "('a \<Rightarrow> 'k::linorder) \<Rightarrow> 'a list \<Rightarrow> 'a result" where
  "py_max f xs = (case xs of [] \<Rightarrow> Inl (ValueError ''max() arg is an empty sequence'')
                  | x # ys \<Rightarrow> Inr (max_by f x ys))"

lemma max_by_in: "max_by f b xs \<in> insert b (set xs)"
proof (induction xs arbitrary: b)
  case Nil
  then show ?case by simp
next
  case (Cons x xs)
  show ?case using Cons.IH[of "if f b < f x then x else b"] by (auto split: if_splits)
qed

lemma max_by_ge_start: "f b \<le> f (max_by f b xs)"
proof (induction xs arbitrary: b)
  case Nil
  then show ?case by simp
next
  case (Cons x xs)
  have "f b \<le> f (if f b < f x then x else b)" by (auto simp: less_imp_le)
  also have "\<dots> \<le> f (max_by f (if f b < f x then x else b) xs)" by (rule Cons.IH)
  finally show ?case by simp
qed

lemma max_by_ge: "y \<in> insert b (set xs) \<Longrightarrow> f y \<le> f (max_by f b xs)"
proof (induction xs arbitrary: b)
  case Nil
  then show ?case by simp
next
  case (Cons x xs)
  let ?b = "if f b < f x then x else b"
  show ?case
  proof (cases "y \<in> set xs")
    case True
    then show ?thesis using Cons.IH[of ?b] by simp
  next
    case False
    with Cons.prems have "f y \<le> f ?b" by auto
    also have "f ?b \<le> f (max_by f ?b xs)" by (rule max_by_ge_start)
    finally show ?thesis by simp
  qed
qed

lemma py_max_Inr: "py_max f xs = Inr m \<Longrightarrow> m \<in> set xs \<and> (\<forall>y \<in> set xs. f y \<le> f m)"
  using max_by_in[of f] max_by_ge[of _ _ _ f] by (cases xs) (auto simp: py_max_def)

lemma py_max_nonempty: "xs \<noteq> [] \<Longrightarrow> \<exists>m. py_max f xs = Inr m"
  by (cases xs) (auto simp: py_max_def)

section \<open>Contract: a rolling log\<close>

text \<open>
  The program keeps five lists of the most recent things: the sensor window, the event
  log, the context window, the decision history and the state changes of a node.  Each
  is written by one operation; the contract says what that operation does to the list.
\<close>

locale rolling_log =
  fixes push :: "'e \<Rightarrow> 's \<Rightarrow> 's"
    and items :: "'s \<Rightarrow> 'e list"
    and cap :: nat
  assumes cap_pos: "0 < cap"
    and items_push: "items (push e s) = last_slice cap (items s @ [e])"
begin

lemma push_bounded: "length (items (push e s)) \<le> cap"
  using cap_pos by (simp add: items_push length_last_slice)

lemma newest_kept: "items (push e s) \<noteq> [] \<and> last (items (push e s)) = e"
proof -
  have "length (items s @ [e]) - cap < length (items s @ [e])" using cap_pos by simp
  then show ?thesis using cap_pos by (simp add: items_push last_slice_def last_drop)
qed

lemma pushes:
  assumes "length (items s) \<le> cap"
  shows "items (fold push es s) = last_slice cap (items s @ es)"
proof (induction es rule: rev_induct)
  case Nil
  then show ?case using assms by (simp add: last_slice_id)
next
  case (snoc e es)
  then show ?case using cap_pos by (simp add: items_push last_slice_append)
qed

text \<open>A run of operations of which some push an entry and the others leave the log alone.\<close>

lemma run_items:
  assumes step: "\<And>op s. items (step op s) = (case emit op of None \<Rightarrow> items s | Some e \<Rightarrow> items (push e s))"
    and start: "length (items s) \<le> cap"
  shows "items (fold step ops s) = last_slice cap (items s @ List.map_filter emit ops)"
proof (induction ops rule: rev_induct)
  case Nil
  then show ?case using start by (simp add: last_slice_id map_filter_def)
next
  case (snoc op ops)
  then show ?case
    using cap_pos
    by (cases "emit op") (simp_all add: step items_push last_slice_append map_filter_def)
qed

lemma fold_bounded: "length (items s) \<le> cap \<Longrightarrow> length (items (fold push es s)) \<le> cap"
  using cap_pos by (simp add: pushes length_last_slice)

end

section \<open>Contract: a table of peers with ages\<close>

text \<open>
  Every discovery channel keeps a table from a node id to an entry with the time the
  node was last heard of, and drops the entries that have been silent for too long.
\<close>

locale aged_table =
  fixes look :: "'t \<Rightarrow> 'k \<Rightarrow> 'v option"
    and seen :: "'v \<Rightarrow> real"
    and evict :: "real \<Rightarrow> real \<Rightarrow> 't \<Rightarrow> 't"
    and wf :: "'t \<Rightarrow> bool"
  assumes look_evict: "wf t \<Longrightarrow> look (evict age now t) k =
      (case look t k of None \<Rightarrow> None
       | Some v \<Rightarrow> if now - seen v > age then None else Some v)"
    and wf_evict: "wf t \<Longrightarrow> wf (evict age now t)"
begin

lemma evict_fresh: "wf t \<Longrightarrow> look (evict age now t) k = Some v \<Longrightarrow> now - seen v \<le> age"
  by (auto simp: look_evict split: option.splits if_splits)

lemma evict_keeps: "wf t \<Longrightarrow> look t k = Some v \<Longrightarrow> now - seen v \<le> age \<Longrightarrow>
    look (evict age now t) k = Some v"
  by (simp add: look_evict)

lemma evict_twice:
  "wf t \<Longrightarrow> n1 \<le> n2 \<Longrightarrow>
    look (evict age n2 (evict age n1 t)) k = look (evict age n2 t) k"
  by (auto simp: look_evict wf_evict split: option.splits)

end

end
