(* ===== verification/PyValue.thy ===== *)
theory PyValue
  imports Prelude
begin

text \<open>
  The dynamic values the program passes around: what \<open>json.loads\<close> returns and what the
  dictionaries of readings, capabilities, records and messages hold.  Integers are
  unbounded; floats are modelled by exact real numbers, so the rounding of IEEE doubles,
  infinities and NaN are outside the model.  The operations raise where Python raises.
\<close>

datatype pyval =
    PNone
  | PBool bool
  | PInt int
  | PFloat real
  | PStr string
  | PList "pyval list"
  | PDict "(string \<times> pyval) list"

type_synonym pyobj = "(string, pyval) pydict"

section \<open>Type tests, truth and numbers\<close>

fun truthy :: "pyval \<Rightarrow> bool" where
  "truthy PNone = False"
| "truthy (PBool b) = b"
| "truthy (PInt i) = (i \<noteq> 0)"
| "truthy (PFloat r) = (r \<noteq> 0)"
| "truthy (PStr s) = (s \<noteq> [])"
| "truthy (PList xs) = (xs \<noteq> [])"
| "truthy (PDict d) = (d \<noteq> [])"

text \<open>
  \<open>isinstance(v, (int, float))\<close> holds for booleans as well, because \<open>bool\<close> is a
  subclass of \<open>int\<close>; \<open>float(v)\<close> of such a value never raises.
\<close>

fun num_of :: "pyval \<Rightarrow> real option" where
  "num_of (PBool b) = Some (if b then 1 else 0)"
| "num_of (PInt i) = Some (of_int i)"
| "num_of (PFloat r) = Some r"
| "num_of _ = None"

definition is_num :: "pyval \<Rightarrow> bool" where
  "is_num v = (num_of v \<noteq> None)"

fun is_str :: "pyval \<Rightarrow> bool" where
  "is_str (PStr s) = True"
| "is_str _ = False"

fun is_dict :: "pyval \<Rightarrow> bool" where
  "is_dict (PDict d) = True"
| "is_dict _ = False"

fun is_list :: "pyval \<Rightarrow> bool" where
  "is_list (PList xs) = True"
| "is_list _ = False"

definition to_num :: "pyval \<Rightarrow> real result" where
  "to_num v = (case num_of v of Some r \<Rightarrow> Inr r | None \<Rightarrow> Inl TypeError)"

text \<open>
  \<open>==\<close> on scalars: numbers compare by value whatever their type, strings by their
  characters, \<open>None\<close> only with itself.  The program compares no lists or dictionaries,
  so those compare structurally here.
\<close>

definition py_eq :: "pyval \<Rightarrow> pyval \<Rightarrow> bool" where
  "py_eq a b = (case (num_of a, num_of b) of
      (Some x, Some y) \<Rightarrow> x = y
    | (None, None) \<Rightarrow> a = b
    | _ \<Rightarrow> False)"

definition py_or :: "pyval \<Rightarrow> pyval \<Rightarrow> pyval" where
  "py_or a b = (if truthy a then a else b)"

lemma py_eq_refl [simp]: "py_eq a a"
  by (cases "num_of a") (simp_all add: py_eq_def)

lemma py_eq_sym: "py_eq a b = py_eq b a"
  by (auto simp: py_eq_def split: option.splits)

lemma py_eq_trans: "py_eq a b \<Longrightarrow> py_eq b c \<Longrightarrow> py_eq a c"
  by (auto simp: py_eq_def split: option.splits)

lemma py_eq_str [simp]: "py_eq (PStr a) v \<longleftrightarrow> v = PStr a" "py_eq v (PStr a) \<longleftrightarrow> v = PStr a"
  by (cases v; auto simp: py_eq_def)+

lemma py_eq_none [simp]: "py_eq PNone v \<longleftrightarrow> v = PNone" "py_eq v PNone \<longleftrightarrow> v = PNone"
  by (cases v; auto simp: py_eq_def)+

lemma truthy_por [simp]: "truthy (py_or a b) \<longleftrightarrow> truthy a \<or> truthy b"
  by (simp add: py_or_def)

text \<open>
  \<open><\<close>: numbers by value, strings and lists lexicographically, everything else raises
  \<open>TypeError\<close>.
\<close>

fun py_lt :: "pyval \<Rightarrow> pyval \<Rightarrow> bool result" and py_lt_list :: "pyval list \<Rightarrow> pyval list \<Rightarrow> bool result" where
  "py_lt a b = (case a of
      PStr s \<Rightarrow> (case b of PStr t \<Rightarrow> Inr (s < t) | _ \<Rightarrow> Inl TypeError)
    | PList xs \<Rightarrow> (case b of PList ys \<Rightarrow> py_lt_list xs ys | _ \<Rightarrow> Inl TypeError)
    | _ \<Rightarrow> (case (num_of a, num_of b) of (Some x, Some y) \<Rightarrow> Inr (x < y) | _ \<Rightarrow> Inl TypeError))"
| "py_lt_list [] ys = Inr (ys \<noteq> [])"
| "py_lt_list (x # xs) [] = Inr False"
| "py_lt_list (x # xs) (y # ys) = (if py_eq x y then py_lt_list xs ys else py_lt x y)"

declare py_lt.simps [simp del]

lemma py_lt_int [simp]: "py_lt (PInt a) (PInt b) = Inr (a < b)"
  by (simp add: py_lt.simps)

text \<open>\<open>v += n\<close> for an integer literal.\<close>

fun py_add_int :: "pyval \<Rightarrow> int \<Rightarrow> pyval result" where
  "py_add_int (PInt a) n = Inr (PInt (a + n))"
| "py_add_int (PBool b) n = Inr (PInt ((if b then 1 else 0) + n))"
| "py_add_int (PFloat r) n = Inr (PFloat (r + of_int n))"
| "py_add_int _ n = Inl TypeError"

section \<open>Attribute access on values that may not be dictionaries\<close>

text \<open>
  \<open>d.get(k, x)\<close> on a plain dictionary is \<open>dgetd\<close>; on a value of unknown type the
  attribute lookup raises when the value is no dictionary, and \<open>d[k]\<close> raises
  \<open>KeyError\<close> when the key is missing.
\<close>

fun pget :: "pyval \<Rightarrow> string \<Rightarrow> pyval \<Rightarrow> pyval result" where
  "pget (PDict d) k x = Inr (dgetd d k x)"
| "pget _ k x = Inl AttributeError"

fun pindex :: "pyval \<Rightarrow> string \<Rightarrow> pyval result" where
  "pindex (PDict d) k = (case dget d k of None \<Rightarrow> Inl (KeyError k) | Some v \<Rightarrow> Inr v)"
| "pindex _ k = Inl TypeError"

definition oget :: "pyobj \<Rightarrow> string \<Rightarrow> pyval" where
  "oget d k = dgetd d k PNone"

definition oindex :: "pyobj \<Rightarrow> string \<Rightarrow> pyval result" where
  "oindex d k = (case dget d k of None \<Rightarrow> Inl (KeyError k) | Some v \<Rightarrow> Inr v)"

text \<open>\<open>v in xs\<close> for a string \<open>v\<close>: membership in a list, substring in a string, key of a dictionary.\<close>

definition substring :: "string \<Rightarrow> string \<Rightarrow> bool" where
  "substring w s = list_ex (\<lambda>i. take (length w) (drop i s) = w) [0..<Suc (length s)]"

fun py_in :: "string \<Rightarrow> pyval \<Rightarrow> bool result" where
  "py_in w (PList xs) = Inr (PStr w \<in> set xs)"
| "py_in w (PStr s) = Inr (substring w s)"
| "py_in w (PDict d) = Inr (din w d)"
| "py_in w _ = Inl TypeError"

lemma substring_iff: "substring w s \<longleftrightarrow> (\<exists>a b. s = a @ w @ b)"
proof
  assume "substring w s"
  then obtain i where i: "take (length w) (drop i s) = w"
    by (auto simp: substring_def list_ex_iff)
  have "s = take i s @ drop i s" by simp
  also have "drop i s = take (length w) (drop i s) @ drop (length w) (drop i s)"
    by (simp only: append_take_drop_id)
  finally show "\<exists>a b. s = a @ w @ b" using i by metis
next
  assume "\<exists>a b. s = a @ w @ b"
  then obtain a b where s: "s = a @ w @ b" by blast
  then have "take (length w) (drop (length a) s) = w" "length a \<in> set [0..<Suc (length s)]"
    by auto
  then show "substring w s" unfolding substring_def list_ex_iff by blast
qed

section \<open>Iteration, lengths, hashing and int()\<close>

fun py_iter :: "pyval \<Rightarrow> pyval list result" where
  "py_iter (PList xs) = Inr xs"
| "py_iter (PStr s) = Inr (map (\<lambda>c. PStr [c]) s)"
| "py_iter (PDict d) = Inr (map PStr (dkeys d))"
| "py_iter _ = Inl TypeError"

fun py_len :: "pyval \<Rightarrow> nat result" where
  "py_len (PList xs) = Inr (length xs)"
| "py_len (PStr s) = Inr (length s)"
| "py_len (PDict d) = Inr (length d)"
| "py_len _ = Inl TypeError"

fun py_nth :: "pyval \<Rightarrow> nat \<Rightarrow> pyval result" where
  "py_nth (PList xs) i = (if i < length xs then Inr (xs ! i) else Inl IndexError)"
| "py_nth (PStr s) i = (if i < length s then Inr (PStr [s ! i]) else Inl IndexError)"
| "py_nth (PDict d) i = Inl (KeyError [])"
| "py_nth _ i = Inl TypeError"

text \<open>
  A dictionary key must be hashable, and keys that compare equal (\<open>1\<close>, \<open>1.0\<close>,
  \<open>True\<close>) are one key: \<open>hkey\<close> is the representative.
\<close>

definition hkey :: "pyval \<Rightarrow> pyval result" where
  "hkey v = (if is_list v \<or> is_dict v then Inl TypeError
             else Inr (case num_of v of Some r \<Rightarrow> PFloat r | None \<Rightarrow> v))"

lemma hkey_str [simp]: "hkey (PStr s) = Inr (PStr s)"
  by (simp add: hkey_def)

definition is_space :: "char \<Rightarrow> bool" where
  "is_space c = (let n = of_char c :: nat in (9 \<le> n \<and> n \<le> 13) \<or> (28 \<le> n \<and> n \<le> 32))"

definition py_strip :: "string \<Rightarrow> string" where
  "py_strip s = rev (dropWhile is_space (rev (dropWhile is_space s)))"

fun dec_digits :: "nat \<Rightarrow> bool \<Rightarrow> string \<Rightarrow> nat option" where
  "dec_digits acc gap [] = (if gap then None else Some acc)"
| "dec_digits acc gap (c # cs) =
     (if c = CHR ''_'' then (if gap then None else dec_digits acc True cs)
      else let n = of_char c :: nat in
        if 48 \<le> n \<and> n \<le> 57 then dec_digits (10 * acc + (n - 48)) False cs else None)"

definition int10 :: "string \<Rightarrow> int result" where
  "int10 s =
     (let t = py_strip s;
          neg = (take 1 t = ''-'');
          body = (if neg \<or> take 1 t = ''+'' then drop 1 t else t)
      in case dec_digits 0 True body of
           None \<Rightarrow> Inl (ValueError s)
         | Some n \<Rightarrow> Inr (if neg then - int n else int n))"

text \<open>\<open>int(x)\<close> of a float truncates towards zero.\<close>

definition trunc :: "real \<Rightarrow> int" where
  "trunc r = (if 0 \<le> r then \<lfloor>r\<rfloor> else \<lceil>r\<rceil>)"

fun py_int :: "pyval \<Rightarrow> int result" where
  "py_int (PInt i) = Inr i"
| "py_int (PBool b) = Inr (if b then 1 else 0)"
| "py_int (PFloat r) = Inr (trunc r)"
| "py_int (PStr s) = int10 s"
| "py_int _ = Inl TypeError"

section \<open>Rendering\<close>

definition digit_char :: "nat \<Rightarrow> char" where
  "digit_char n = char_of (n + 48)"

fun show_nat :: "nat \<Rightarrow> string" where
  "show_nat n = (if n < 10 then [digit_char n] else show_nat (n div 10) @ [digit_char (n mod 10)])"

declare show_nat.simps [simp del]

definition show_int :: "int \<Rightarrow> string" where
  "show_int i = (if i < 0 then CHR ''-'' # show_nat (nat (- i)) else show_nat (nat i))"

text \<open>
  \<open>round(x, n)\<close>: to \<open>n\<close> decimal places, ties to the even neighbour, on exact values.
\<close>

definition round_half_even :: "real \<Rightarrow> int" where
  "round_half_even x =
     (let f = \<lfloor>x\<rfloor>; d = x - of_int f
      in if d < 1/2 then f else if d > 1/2 then f + 1 else if even f then f else f + 1)"

definition pyround :: "real \<Rightarrow> nat \<Rightarrow> real" where
  "pyround x n = of_int (round_half_even (x * 10 ^ n)) / 10 ^ n"

lemma round_half_even_bounds: "\<bar>of_int (round_half_even x) - x\<bar> \<le> 1/2"
proof -
  have "of_int \<lfloor>x\<rfloor> \<le> x" "x < of_int \<lfloor>x\<rfloor> + 1" by linarith+
  then show ?thesis by (auto simp: round_half_even_def Let_def)
qed

lemma round_half_even_mono: "x \<le> y \<Longrightarrow> round_half_even x \<le> round_half_even y"
proof -
  assume le: "x \<le> y"
  show ?thesis
  proof (cases "\<lfloor>x\<rfloor> = \<lfloor>y\<rfloor>")
    case True
    with le show ?thesis by (auto simp: round_half_even_def Let_def)
  next
    case False
    with le have "\<lfloor>x\<rfloor> + 1 \<le> \<lfloor>y\<rfloor>" using floor_mono[OF le] by simp
    moreover have "round_half_even x \<le> \<lfloor>x\<rfloor> + 1" "\<lfloor>y\<rfloor> \<le> round_half_even y"
      by (auto simp: round_half_even_def Let_def)
    ultimately show ?thesis by simp
  qed
qed

lemma round_half_even_of_int [simp]: "round_half_even (of_int i) = i"
  by (simp add: round_half_even_def Let_def)

lemma pyround_mono: "x \<le> y \<Longrightarrow> pyround x n \<le> pyround y n"
  by (simp add: pyround_def round_half_even_mono divide_right_mono mult_right_mono)

lemma pyround_of_int [simp]: "pyround (of_int i) n = of_int i"
proof -
  have "round_half_even (of_int i * 10 ^ n) = i * 10 ^ n"
    using round_half_even_of_int[of "i * 10 ^ n"] by simp
  then show ?thesis by (simp add: pyround_def)
qed

lemma pyround_0_1 [simp]: "pyround 0 n = 0" "pyround 1 n = 1"
  using pyround_of_int[of 0 n] pyround_of_int[of 1 n] by simp_all

lemma pyround_unit: "0 \<le> x \<Longrightarrow> x \<le> 1 \<Longrightarrow> 0 \<le> pyround x n \<and> pyround x n \<le> 1"
  using pyround_mono[of 0 x n] pyround_mono[of x 1 n] by simp

lemma pyround_error: "\<bar>pyround x n - x\<bar> \<le> 1 / (2 * 10 ^ n)"
proof -
  have "\<bar>of_int (round_half_even (x * 10 ^ n)) - x * 10 ^ n\<bar> / 10 ^ n \<le> (1/2) / (10::real) ^ n"
    by (rule divide_right_mono) (use round_half_even_bounds in auto)
  moreover have "pyround x n - x = (of_int (round_half_even (x * 10 ^ n)) - x * 10 ^ n) / 10 ^ n"
    by (simp add: pyround_def diff_divide_distrib)
  ultimately show ?thesis by (simp add: abs_divide)
qed

text \<open>
  \<open>str(v)\<close> and the braces of an f-string: a string is itself; \<open>tostr\<close> renders the others.
\<close>

definition py_str :: "(pyval \<Rightarrow> string) \<Rightarrow> pyval \<Rightarrow> string" where
  "py_str tostr v = (case v of PStr s \<Rightarrow> s | _ \<Rightarrow> tostr v)"

text \<open>
  \<open>s[s.find(x) : s.rfind(y) + 1]\<close>: the part from the first \<open>x\<close> to the last \<open>y\<close>, or nothing when
  there is no \<open>x\<close>.
\<close>

definition brace_slice :: "char \<Rightarrow> char \<Rightarrow> string \<Rightarrow> string option" where
  "brace_slice x y s =
     (if x \<in> set s then
        let start = length (takeWhile (\<lambda>c. c \<noteq> x) s);
            stop = (if y \<in> set s then length s - length (takeWhile (\<lambda>c. c \<noteq> y) (rev s)) else 0)
        in Some (take (stop - start) (drop start s))
      else None)"

text \<open>\<open>s[:n]\<close> of a string or a list; other values raise.\<close>

fun py_prefix :: "nat \<Rightarrow> pyval \<Rightarrow> pyval result" where
  "py_prefix n (PStr s) = Inr (PStr (take n s))"
| "py_prefix n (PList xs) = Inr (PList (take n xs))"
| "py_prefix n _ = Inl TypeError"

end
