(* ===== verification/Framing.thy ===== *)
theory Framing
  imports PyValue "HOL-Library.Word"
begin

text \<open>
  Messages over TCP: a four byte big endian length and the body, the loop \<open>_recv_exact\<close> of
  \<open>ml/parallel_executor.py\<close> and \<open>ml/inference_server.py\<close>, and the reader of \<open>db/db_agent.py\<close>,
  \<open>db/sync.py\<close> and \<open>api/socket_server.py\<close>, which reads the length with one \<open>recv(4)\<close>.
  The peer's side of a connection is the list of segments that arrive, none of them empty, in
  order; after the last one the peer has closed the connection.
\<close>

type_synonym byte = "8 word"
type_synonym segments = "byte list list"

abbreviation wf_segments :: "segments \<Rightarrow> bool" where
  "wf_segments cs \<equiv> [] \<notin> set cs"

section \<open>Lengths\<close>

text \<open>\<open>n.to_bytes(4, "big")\<close> and \<open>int.from_bytes(bs, "big")\<close>.\<close>

definition to_bytes4 :: "nat \<Rightarrow> byte list result" where
  "to_bytes4 n = (if n < 2 ^ 32
     then Inr [word_of_nat (n div 2 ^ 24), word_of_nat (n div 2 ^ 16), word_of_nat (n div 2 ^ 8), word_of_nat n]
     else Inl OverflowError)"

definition from_bytes :: "byte list \<Rightarrow> nat" where
  "from_bytes bs = foldl (\<lambda>acc b. acc * 256 + unat b) 0 bs"

definition frame :: "byte list \<Rightarrow> byte list result" where
  "frame body = bindE (to_bytes4 (length body)) (\<lambda>h. Inr (h @ body))"

section \<open>Reading\<close>

text \<open>\<open>recv(k)\<close>: at most \<open>k\<close> bytes of the segment at hand, nothing once the peer has closed.\<close>

fun sock_recv :: "nat \<Rightarrow> segments \<Rightarrow> byte list \<times> segments" where
  "sock_recv k [] = ([], [])"
| "sock_recv k (c # cs) = (take k c, if length c \<le> k then cs else drop k c # cs)"

function recv_loop :: "nat \<Rightarrow> segments \<Rightarrow> byte list \<Rightarrow> (byte list \<times> segments) result" where
  "recv_loop n cs buf =
     (if n \<le> length buf then Inr (buf, cs)
      else let (chunk, cs') = sock_recv (n - length buf) cs in
        if chunk = [] then Inl ConnectionError else recv_loop n cs' (buf @ chunk))"
  by pat_completeness auto
termination
  by (relation "measure (\<lambda>(n, cs, buf). n - length buf)") (auto intro!: diff_less_mono2)

declare recv_loop.simps [simp del]

definition recv_exact :: "nat \<Rightarrow> segments \<Rightarrow> nat \<Rightarrow> (byte list \<times> segments) result" where
  "recv_exact limit cs n = (if n > limit then Inl (ValueError ''Incoming message too large'') else recv_loop n cs [])"

text \<open>The reader with a single \<open>recv(4)\<close>: what it does with a connection.\<close>

datatype received = Closed | Oversized nat | Body "byte list"

function recv_some :: "nat \<Rightarrow> segments \<Rightarrow> byte list \<Rightarrow> byte list" where
  "recv_some n cs buf =
     (if n \<le> length buf then buf
      else let (chunk, cs') = sock_recv 4096 cs in
        if chunk = [] then buf else recv_some n cs' (buf @ chunk))"
  by pat_completeness auto
termination
  by (relation "measure (\<lambda>(n, cs, buf). n - length buf)") (auto intro!: diff_less_mono2)

declare recv_some.simps [simp del]

definition recv_message :: "nat \<Rightarrow> segments \<Rightarrow> received" where
  "recv_message limit cs =
     (let (raw, cs') = sock_recv 4 cs in
      if raw = [] then Closed
      else let n = from_bytes raw in
        if n > limit then Oversized n else Body (recv_some n cs' []))"

section \<open>Lemmas\<close>

lemma from_to_bytes4:
  assumes "to_bytes4 n = Inr h"
  shows "from_bytes h = n" "length h = 4"
proof -
  have n: "n < 2 ^ 32" and h: "h = [word_of_nat (n div 2 ^ 24), word_of_nat (n div 2 ^ 16), word_of_nat (n div 2 ^ 8), word_of_nat n]"
    using assms by (simp_all add: to_bytes4_def split: if_splits)
  have u: "unat (word_of_nat m :: byte) = m mod 256" for m by (simp add: unat_of_nat)
  have d: "n div 2 ^ 24 = n div 256 div 256 div 256" "n div 2 ^ 16 = n div 256 div 256" "n div 2 ^ 8 = n div 256"
    by (simp_all flip: div_mult2_eq)
  have top: "n div 256 div 256 div 256 mod 256 = n div 256 div 256 div 256"
    using n by (simp add: less_mult_imp_div_less flip: div_mult2_eq)
  have "from_bytes h = ((n div 2 ^ 24 mod 256 * 256 + n div 2 ^ 16 mod 256) * 256 + n div 2 ^ 8 mod 256) * 256 + n mod 256"
    by (simp add: h from_bytes_def u)
  then show "from_bytes h = n" unfolding d top div_mult_mod_eq .
  show "length h = 4" by (simp add: h)
qed

lemma sock_recv_spec:
  assumes "wf_segments cs" and "0 < k" and "sock_recv k cs = (chunk, cs')"
  shows "chunk @ concat cs' = concat cs" "wf_segments cs'" "length chunk \<le> k" "chunk = [] \<longleftrightarrow> cs = []"
  using assms by (cases cs; auto split: if_splits)+

lemma recv_loop_spec:
  "wf_segments cs \<Longrightarrow> length buf \<le> n \<Longrightarrow>
    (case recv_loop n cs buf of
       Inr (out, cs') \<Rightarrow> out @ concat cs' = buf @ concat cs \<and> length out = n \<and> wf_segments cs'
     | Inl e \<Rightarrow> e = ConnectionError \<and> length (buf @ concat cs) < n)"
proof (induction n cs buf rule: recv_loop.induct)
  case (1 n cs buf)
  show ?case
  proof (cases "n \<le> length buf")
    case True
    with 1(3) show ?thesis by (simp add: recv_loop.simps 1(2))
  next
    case False
    obtain chunk cs' where r: "sock_recv (n - length buf) cs = (chunk, cs')" by fastforce
    note sp = sock_recv_spec[OF 1(2) _ r]
    show ?thesis
    proof (cases "chunk = []")
      case True
      then have "cs = []" using sp False by auto
      with True False r show ?thesis by (simp add: recv_loop.simps)
    next
      case c: False
      have "recv_loop n cs buf = recv_loop n cs' (buf @ chunk)"
        using False c r by (subst recv_loop.simps) simp
      moreover have "length (buf @ chunk) \<le> n" using sp(3) False by simp
      moreover have "(buf @ chunk) @ concat cs' = buf @ concat cs" using sp(1) False by simp
      moreover have "wf_segments cs'" using sp(2) False by simp
      note 1(1)[OF False r[symmetric] refl c this]
      ultimately show ?thesis by (simp only: simp_thms)
    qed
  qed
qed

lemma recv_exact_Inr:
  assumes "wf_segments cs" and "n \<le> limit" and "concat cs = bs @ rest" and "length bs = n"
  shows "\<exists>cs'. recv_exact limit cs n = Inr (bs, cs') \<and> concat cs' = rest \<and> wf_segments cs'"
  using recv_loop_spec[OF assms(1), of "[]" n] assms(2-4)
  by (auto simp: recv_exact_def split: sum.splits)

lemma recv_exact_short:
  assumes "wf_segments cs" and "n \<le> limit" and "length (concat cs) < n"
  shows "recv_exact limit cs n = Inl ConnectionError"
  using recv_loop_spec[OF assms(1), of "[]" n] assms(2,3)
  by (auto simp: recv_exact_def dest: arg_cong[of _ _ length] split: sum.splits)

text \<open>Reading a length and a body of that length, as both ends of the executor do.\<close>

definition recv_frame :: "nat \<Rightarrow> segments \<Rightarrow> (byte list \<times> segments) result" where
  "recv_frame limit cs = bindE (recv_exact limit cs 4) (\<lambda>(h, cs'). recv_exact limit cs' (from_bytes h))"

lemma recv_frame_frame:
  assumes "wf_segments cs" and "frame body = Inr msg" and "concat cs = msg @ rest"
    and "4 \<le> limit" and "length body \<le> limit"
  shows "\<exists>cs'. recv_frame limit cs = Inr (body, cs') \<and> concat cs' = rest \<and> wf_segments cs'"
proof -
  obtain h where h: "to_bytes4 (length body) = Inr h" and msg: "msg = h @ body"
    using assms(2) by (auto simp: frame_def bindE_Inr_iff)
  from recv_exact_Inr[OF assms(1,4), of h "body @ rest"] from_to_bytes4(2)[OF h] assms(3)
  obtain cs' where c: "recv_exact limit cs 4 = Inr (h, cs')" "concat cs' = body @ rest" "wf_segments cs'"
    by (auto simp: msg)
  from recv_exact_Inr[OF c(3) assms(5) c(2) refl] from_to_bytes4(1)[OF h] c(1)
  show ?thesis by (auto simp: recv_frame_def)
qed

text \<open>
  The other reader gets the body when the length arrives in one piece and nothing follows the
  message on the connection.
\<close>

lemma recv_some_all:
  "wf_segments cs \<Longrightarrow> length (buf @ concat cs) \<le> n \<Longrightarrow> recv_some n cs buf = buf @ concat cs"
proof (induction n cs buf rule: recv_some.induct)
  case (1 n cs buf)
  obtain chunk cs' where r: "sock_recv 4096 cs = (chunk, cs')" by fastforce
  note sp = sock_recv_spec[OF 1(2) _ r, simplified]
  show ?case
  proof (cases "n \<le> length buf \<or> chunk = []")
    case True
    have "concat cs = []" if "n \<le> length buf"
      using that 1(3) by (simp del: concat_eq_Nil_conv flip: length_0_conv)
    with True sp(4) have e: "concat cs = []" by auto
    have "recv_some n cs buf = buf" using True r by (subst recv_some.simps) auto
    with e show ?thesis by simp
  next
    case False
    then have f: "\<not> n \<le> length buf" and c: "chunk \<noteq> []" by simp_all
    have "recv_some n cs buf = recv_some n cs' (buf @ chunk)"
      using f c r by (subst recv_some.simps) simp
    also have "\<dots> = (buf @ chunk) @ concat cs'"
    proof (rule 1(1)[OF f r[symmetric] refl c sp(2)])
      show "length ((buf @ chunk) @ concat cs') \<le> n" using 1(3) by (simp only: append_assoc sp(1))
    qed
    also have "\<dots> = buf @ concat cs" by (simp only: append_assoc sp(1))
    finally show ?thesis .
  qed
qed

lemma recv_message_frame:
  assumes "wf_segments cs" and "frame body = Inr msg" and "concat cs = msg" and "length body \<le> limit"
    and "4 \<le> length (hd cs)"
  shows "recv_message limit cs = Body body"
proof -
  obtain h where h: "to_bytes4 (length body) = Inr h" and msg: "msg = h @ body"
    using assms(2) by (auto simp: frame_def bindE_Inr_iff)
  note h4 = from_to_bytes4[OF h]
  obtain c cs' where cs: "cs = c # cs'" using assms(3) h4(2) msg by (cases cs) auto
  obtain cs'' where r: "sock_recv 4 cs = (h, cs'')"
  proof -
    have "take 4 c = take 4 (c @ concat cs')" using assms(5) by (simp add: cs)
    also have "\<dots> = h" using assms(3) h4(2) by (simp add: cs msg)
    finally show thesis using that by (cases "sock_recv 4 cs") (simp add: cs)
  qed
  have c'': "concat cs'' = body" "wf_segments cs''"
    using sock_recv_spec[OF assms(1) _ r] assms(3) msg by auto
  have "h \<noteq> []" using h4(2) by auto
  then show ?thesis using r h4(1) assms(4) recv_some_all[OF c''(2), of "[]"] c''(1)
    by (simp add: recv_message_def)
qed

end
