(* ===== verification/Bytes.thy ===== *)
theory Bytes
  imports Framing
begin

text \<open>
  Byte strings of the protocol SDK (\<open>src/anp\<close>): what its modules use of Python's \<open>bytes\<close>, \<open>str.encode\<close>,
  \<open>int.to_bytes\<close> and \<open>base64\<close>.  A text is the list of its UTF-8 bytes, so that encoding never fails and decoding checks
  the bytes.
\<close>

type_synonym bytes = "byte list"

section \<open>Texts\<close>

definition encode :: "string \<Rightarrow> bytes" where
  "encode s = map (\<lambda>c. word_of_nat (of_char c)) s"

definition is_cont :: "byte \<Rightarrow> bool" where
  "is_cont b \<longleftrightarrow> 0x80 \<le> b \<and> b \<le> 0xBF"

text \<open>The length of the sequence a byte begins, with the range of the byte after it.\<close>

definition utf8_head :: "byte \<Rightarrow> (nat \<times> byte \<times> byte) option" where
  "utf8_head b =
     (if b < 0x80 then Some (0, 0x80, 0xBF)
      else if 0xC2 \<le> b \<and> b \<le> 0xDF then Some (1, 0x80, 0xBF)
      else if b = 0xE0 then Some (2, 0xA0, 0xBF)
      else if b = 0xED then Some (2, 0x80, 0x9F)
      else if 0xE1 \<le> b \<and> b \<le> 0xEF then Some (2, 0x80, 0xBF)
      else if b = 0xF0 then Some (3, 0x90, 0xBF)
      else if 0xF1 \<le> b \<and> b \<le> 0xF3 then Some (3, 0x80, 0xBF)
      else if b = 0xF4 then Some (3, 0x80, 0x8F)
      else None)"

fun utf8_ok :: "bytes \<Rightarrow> bool" where
  "utf8_ok [] = True"
| "utf8_ok (b # r) = (case utf8_head b of
      None \<Rightarrow> False
    | Some (n, lo, hi) \<Rightarrow>
        n \<le> length r \<and> (0 < n \<longrightarrow> lo \<le> hd r \<and> hd r \<le> hi) \<and> list_all is_cont (take n r) \<and> utf8_ok (drop n r))"

definition utf8_decode :: "bytes \<Rightarrow> string result" where
  "utf8_decode bs = (if utf8_ok bs then Inr (map (\<lambda>b. char_of (unat b)) bs) else Inl (ValueError ''utf-8''))"

lemma unat_char [simp]: "unat (word_of_nat (of_char c) :: byte) = of_char c"
  by (simp add: unat_of_nat of_char_mod_256)

lemma utf8_decode_encode: "utf8_ok (encode s) \<Longrightarrow> utf8_decode (encode s) = Inr s"
  by (simp add: utf8_decode_def encode_def comp_def)

lemma encode_inj [simp]: "encode s = encode t \<longleftrightarrow> s = t"
proof
  assume "encode s = encode t"
  then have "map (\<lambda>b. char_of (unat b) :: char) (encode s) = map (\<lambda>b. char_of (unat b)) (encode t)" by simp
  then show "s = t" by (simp add: encode_def comp_def)
qed simp

lemma encode_append [simp]: "encode (s @ t) = encode s @ encode t"
  by (simp add: encode_def)

lemma length_encode [simp]: "length (encode s) = length s"
  by (simp add: encode_def)

section \<open>Integers\<close>

text \<open>\<open>n.to_bytes(k, "big")\<close>.\<close>

fun be_bytes :: "nat \<Rightarrow> nat \<Rightarrow> bytes" where
  "be_bytes 0 n = []"
| "be_bytes (Suc k) n = be_bytes k (n div 256) @ [word_of_nat n]"

definition to_be :: "nat \<Rightarrow> int \<Rightarrow> bytes result" where
  "to_be k n = (if 0 \<le> n \<and> n < 256 ^ k then Inr (be_bytes k (nat n)) else Inl OverflowError)"

lemma length_be_bytes [simp]: "length (be_bytes k n) = k"
  by (induction k arbitrary: n) simp_all

lemma to_be_nat: "n < 256 ^ k \<Longrightarrow> to_be k (int n) = Inr (be_bytes k n)"
  by (simp add: to_be_def)

lemma from_be_bytes: "n < 256 ^ k \<Longrightarrow> from_bytes (be_bytes k n) = n"
proof (induction k arbitrary: n)
  case (Suc k)
  then have "from_bytes (be_bytes k (n div 256)) = n div 256" by (simp add: less_mult_imp_div_less)
  then show ?case by (simp add: from_bytes_def unat_of_nat)
qed (simp add: from_bytes_def)

lemma be_bytes_inj: "m < 256 ^ k \<Longrightarrow> n < 256 ^ k \<Longrightarrow> be_bytes k m = be_bytes k n \<Longrightarrow> m = n"
  by (metis from_be_bytes)

section \<open>Base64\<close>

definition is_ascii_char :: "char \<Rightarrow> bool" where
  "is_ascii_char c \<longleftrightarrow> (of_char c :: nat) < 128"

definition b64_alphabet :: string where
  "b64_alphabet = ''ABCDEFGHIJKLMNOPQRSTUVWXYZabcdefghijklmnopqrstuvwxyz0123456789+/''"

definition b64_char :: "nat \<Rightarrow> char" where
  "b64_char n = b64_alphabet ! n"

definition b64_val :: "char \<Rightarrow> nat option" where
  "b64_val c = (if c \<in> set b64_alphabet then Some (length (takeWhile (\<lambda>x. x \<noteq> c) b64_alphabet)) else None)"

fun b64encode :: "bytes \<Rightarrow> string" where
  "b64encode [] = []"
| "b64encode [a] = [b64_char (unat a div 4), b64_char (unat a mod 4 * 16), CHR ''='', CHR ''='']"
| "b64encode [a, b] = [b64_char (unat a div 4), b64_char (unat a mod 4 * 16 + unat b div 16), b64_char (unat b mod 16 * 4), CHR ''='']"
| "b64encode (a # b # c # r) = [b64_char (unat a div 4), b64_char (unat a mod 4 * 16 + unat b div 16),
     b64_char (unat b mod 16 * 4 + unat c div 64), b64_char (unat c mod 64)] @ b64encode r"

text \<open>
  The decoder of CPython: characters outside the alphabet are skipped, and padding that completes a group ends the
  text.  \<open>q\<close> is the position in the group of four, \<open>left\<close> the bits left over and \<open>pads\<close> the padding seen.
\<close>

fun b64_loop :: "nat \<Rightarrow> nat \<Rightarrow> nat \<Rightarrow> string \<Rightarrow> bytes result" where
  "b64_loop q left pads [] =
     (if q = 0 then Inr []
      else if q = 1 then Inl (ValueError ''Invalid base64-encoded string'') else Inl (ValueError ''Incorrect padding''))"
| "b64_loop q left pads (c # s) =
     (if c = CHR ''='' then
        (if 2 \<le> q \<and> 4 \<le> q + Suc pads then Inr [] else b64_loop q left (if 2 \<le> q then Suc pads else pads) s)
      else (case b64_val c of
          None \<Rightarrow> b64_loop q left pads s
        | Some v \<Rightarrow>
            if q = 0 then b64_loop 1 v 0 s
            else if q = 1 then bindE (b64_loop 2 (v mod 16) 0 s) (\<lambda>r. Inr (word_of_nat (left * 4 + v div 16) # r))
            else if q = 2 then bindE (b64_loop 3 (v mod 4) 0 s) (\<lambda>r. Inr (word_of_nat (left * 16 + v div 4) # r))
            else bindE (b64_loop 0 0 0 s) (\<lambda>r. Inr (word_of_nat (left * 64 + v) # r))))"

definition b64decode :: "string \<Rightarrow> bytes result" where
  "b64decode s = (if list_all is_ascii_char s then b64_loop 0 0 0 s else Inl (ValueError ''only ASCII characters''))"

lemma b64_alphabet_facts: "distinct b64_alphabet" "CHR ''='' \<notin> set b64_alphabet" "length b64_alphabet = 64" "list_all is_ascii_char b64_alphabet"
  by (simp_all add: b64_alphabet_def is_ascii_char_def)

lemma takeWhile_nth: "distinct xs \<Longrightarrow> n < length xs \<Longrightarrow> length (takeWhile (\<lambda>x. x \<noteq> xs ! n) xs) = n"
proof (induction xs arbitrary: n)
  case (Cons x xs)
  then show ?case by (cases n) auto
qed simp

lemma b64_char_in: "n < 64 \<Longrightarrow> b64_char n \<in> set b64_alphabet"
  by (simp add: b64_char_def b64_alphabet_facts)

lemma b64_val_char [simp]: "n < 64 \<Longrightarrow> b64_val (b64_char n) = Some n"
  using b64_char_in[of n] takeWhile_nth[OF b64_alphabet_facts(1), of n] by (simp add: b64_val_def b64_char_def b64_alphabet_facts(3))

lemma b64_char_pad [simp]: "n < 64 \<Longrightarrow> b64_char n \<noteq> CHR ''=''"
  using b64_char_in b64_alphabet_facts(2) by metis

lemma b64_char_ascii: "n < 64 \<Longrightarrow> is_ascii_char (b64_char n)"
  using b64_char_in b64_alphabet_facts(4) by (simp add: list_all_iff)

lemma byte_bound: "unat (a :: byte) < 256"
proof -
  have "unat a < 2 ^ LENGTH(8)" by (rule unsigned_less)
  then show ?thesis by simp
qed

lemma digit_split:
  "y < 16 \<Longrightarrow> (x * 16 + y) div 16 = x" "y < 16 \<Longrightarrow> (x * 16 + y) mod 16 = (y :: nat)"
  "y < 4 \<Longrightarrow> (x * 4 + y) div 4 = x" "y < 4 \<Longrightarrow> (x * 4 + y) mod 4 = (y :: nat)"
  by simp_all

lemma byte_parts: "unat (a :: byte) div 4 < 64" "unat a div 16 < 16" "unat a div 64 < 4" "unat a mod 4 < 4" "unat a mod 16 < 16" "unat a mod 64 < 64"
  using byte_bound[of a] by (simp_all add: less_mult_imp_div_less)

lemma b64_digits:
  "unat (a :: byte) div 4 < 64" "unat a mod 4 * 16 < 64" "unat a mod 4 * 16 + unat (b :: byte) div 16 < 64"
  "unat b mod 16 * 4 < 64" "unat b mod 16 * 4 + unat (c :: byte) div 64 < 64" "unat c mod 64 < 64"
  using byte_parts[of a] byte_parts[of b] byte_parts[of c] by linarith+

lemma b64_bytes:
  "unat (a :: byte) div 4 * 4 + unat a mod 4 * 16 div 16 = unat a"
  "unat a div 4 * 4 + (unat a mod 4 * 16 + unat (b :: byte) div 16) div 16 = unat a"
  "(unat a mod 4 * 16 + unat b div 16) mod 16 * 16 + unat b mod 16 * 4 div 4 = unat b"
  "(unat a mod 4 * 16 + unat b div 16) mod 16 * 16 + (unat b mod 16 * 4 + unat (c :: byte) div 64) div 4 = unat b"
  "(unat b mod 16 * 4 + unat c div 64) mod 4 * 64 + unat c mod 64 = unat c"
  using byte_parts(2)[of b] byte_parts(3)[of c] by (simp_all only: digit_split div_mult_mod_eq nonzero_mult_div_cancel_right simp_thms)

lemma byte_of_nat: "n = unat (a :: byte) \<Longrightarrow> word_of_nat n = a"
  by simp

lemma b64_words: "word_of_nat (unat (a :: byte) div 4 * 4 + unat a mod 4 * 16 div 16) = a"
  "word_of_nat (unat a div 4 * 4 + (unat a mod 4 * 16 + unat (b :: byte) div 16) div 16) = a"
  "word_of_nat ((unat a mod 4 * 16 + unat b div 16) mod 16 * 16 + unat b mod 16 * 4 div 4) = b"
  "word_of_nat ((unat a mod 4 * 16 + unat b div 16) mod 16 * 16 + (unat b mod 16 * 4 + unat (c :: byte) div 64) div 4) = b"
  "word_of_nat ((unat b mod 16 * 4 + unat c div 64) mod 4 * 64 + unat c mod 64) = c"
  by (intro byte_of_nat b64_bytes)+

lemma b64_ascii: "list_all is_ascii_char (b64encode bs)"
  by (induction bs rule: b64encode.induct) (simp_all add: b64_char_ascii b64_digits is_ascii_char_def[of "CHR ''=''"])

lemma b64_loop_encode: "b64_loop 0 0 0 (b64encode bs) = Inr bs"
  by (induction bs rule: b64encode.induct) 
    (simp_all only: b64encode.simps append.simps b64_loop.simps b64_digits b64_val_char b64_char_pad b64_words if_False if_True option.case bindE_simps
      zero_neq_one one_neq_zero, simp_all)

text \<open>Decoding gives back what was encoded.\<close>

lemma b64_roundtrip [simp]: "b64decode (b64encode bs) = Inr bs"
  using b64_ascii[of bs] by (simp add: b64decode_def b64_loop_encode list_all_iff)

text \<open>The URL alphabet without padding, as the proofs use it.\<close>

definition b64url_encode :: "bytes \<Rightarrow> string" where
  "b64url_encode bs =
     (let s = map (\<lambda>c. if c = CHR ''+'' then CHR ''-'' else if c = CHR ''/'' then CHR ''_'' else c) (b64encode bs)
      in rev (dropWhile (\<lambda>c. c = CHR ''='') (rev s)))"

definition b64url_decode :: "string \<Rightarrow> bytes result" where
  "b64url_decode s =
     b64decode (map (\<lambda>c. if c = CHR ''-'' then CHR ''+'' else if c = CHR ''_'' then CHR ''/'' else c)
       (s @ replicate ((4 - length s mod 4) mod 4) CHR ''=''))"

definition padded :: "string \<Rightarrow> string" where
  "padded core = core @ replicate ((4 - length core mod 4) mod 4) CHR ''=''"

lemma padded_short: "padded [x, y] = [x, y, CHR ''='', CHR ''='']" "padded [x, y, z] = [x, y, z, CHR ''='']" "padded [] = []"
  by (simp_all add: padded_def numeral_2_eq_2)

lemma padded_step: "padded (x # y # z # u # core) = x # y # z # u # padded core"
proof -
  have "length (x # y # z # u # core) = 4 + length core" by simp
  then have "length (x # y # z # u # core) mod 4 = length core mod 4" by (simp only: mod_add_self1)
  then show ?thesis by (simp only: padded_def append_Cons)
qed

lemma b64_core: "\<exists>core. b64encode bs = padded core \<and> set core \<subseteq> set b64_alphabet"
proof (induction bs rule: b64encode.induct)
  case 1
  show ?case using padded_short(3) by (intro exI[of _ "[]"]) simp
next
  case (2 a)
  have "set [b64_char (unat a div 4), b64_char (unat a mod 4 * 16)] \<subseteq> set b64_alphabet"
    by (simp only: list.set insert_subset empty_subsetI simp_thms b64_char_in b64_digits)
  then show ?case unfolding b64encode.simps padded_short(1)[symmetric] by blast
next
  case (3 a b)
  have "set [b64_char (unat a div 4), b64_char (unat a mod 4 * 16 + unat b div 16), b64_char (unat b mod 16 * 4)] \<subseteq> set b64_alphabet"
    by (simp only: list.set insert_subset empty_subsetI simp_thms b64_char_in b64_digits)
  then show ?case unfolding b64encode.simps padded_short(2)[symmetric] by blast
next
  case (4 a b c r)
  then obtain core where core: "b64encode r = padded core" "set core \<subseteq> set b64_alphabet" by blast
  let ?core = "b64_char (unat a div 4) # b64_char (unat a mod 4 * 16 + unat b div 16) # b64_char (unat b mod 16 * 4 + unat c div 64) #
     b64_char (unat c mod 64) # core"
  have "set ?core \<subseteq> set b64_alphabet"
    using core(2) by (simp only: list.set insert_subset simp_thms b64_char_in b64_digits)
  moreover have "b64encode (a # b # c # r) = padded ?core" by (simp only: b64encode.simps core(1) padded_step append.simps)
  ultimately show ?case by blast
qed

lemma dropWhile_pad: "x \<notin> set xs \<Longrightarrow> rev (dropWhile (\<lambda>c. c = x) (rev (xs @ replicate n x))) = xs"
proof -
  assume "x \<notin> set xs"
  then have "dropWhile (\<lambda>c. c = x) (rev xs) = rev xs" by (cases "rev xs") (auto dest: arg_cong[of _ _ set])
  then have "dropWhile (\<lambda>c. c = x) (replicate n x @ rev xs) = rev xs" by (induction n) simp_all
  then show ?thesis by simp
qed

definition url_char :: "char \<Rightarrow> char" where
  "url_char c = (if c = CHR ''+'' then CHR ''-'' else if c = CHR ''/'' then CHR ''_'' else c)"

definition std_char :: "char \<Rightarrow> char" where
  "std_char c = (if c = CHR ''-'' then CHR ''+'' else if c = CHR ''_'' then CHR ''/'' else c)"

lemma url_alphabet: "list_all (\<lambda>c. std_char (url_char c) = c \<and> url_char c \<noteq> CHR ''='') b64_alphabet"
  by (simp add: b64_alphabet_def url_char_def std_char_def)

lemma url_chars:
  assumes "set core \<subseteq> set b64_alphabet"
  shows "map (std_char \<circ> url_char) core = core" "CHR ''='' \<notin> url_char ` set core"
proof -
  have a: "std_char (url_char c) = c \<and> url_char c \<noteq> CHR ''=''" if "c \<in> set core" for c
    using url_alphabet assms that unfolding list_all_iff by blast
  show "map (std_char \<circ> url_char) core = core" by (rule map_idI) (simp add: a)
  show "CHR ''='' \<notin> url_char ` set core"
  proof
    assume "CHR ''='' \<in> url_char ` set core"
    then obtain c where c: "c \<in> set core" "CHR ''='' = url_char c" by (rule imageE)
    from a[OF c(1)] c(2) show False by simp
  qed
qed

lemma url_pad: "url_char CHR ''='' = CHR ''=''" "std_char CHR ''='' = CHR ''=''"
  by (simp_all add: url_char_def std_char_def)

lemma b64url_encode_core: "b64encode bs = core @ replicate n CHR ''='' \<Longrightarrow>
    b64url_encode bs = rev (dropWhile (\<lambda>c. c = CHR ''='') (rev (map url_char core @ replicate n CHR ''='')))"
  by (simp only: b64url_encode_def Let_def url_char_def[symmetric] map_append map_replicate url_pad)

lemma b64url_decode_core:
  "b64url_decode s = b64decode (map std_char (s @ replicate ((4 - length s mod 4) mod 4) CHR ''=''))"
  by (simp only: b64url_decode_def std_char_def[symmetric])

lemma b64url_roundtrip [simp]: "b64url_decode (b64url_encode bs) = Inr bs"
proof -
  obtain core where core: "b64encode bs = padded core" "set core \<subseteq> set b64_alphabet"
    using b64_core by blast
  note p = core(1)[unfolded padded_def]
  let ?n = "(4 - length core mod 4) mod 4"
  note pad = url_pad
  have "b64url_encode bs = rev (dropWhile (\<lambda>c. c = CHR ''='') (rev (map url_char core @ replicate ?n CHR ''='')))"
    by (rule b64url_encode_core[OF p])
  also have "\<dots> = map url_char core"
    by (rule dropWhile_pad) (simp only: list.set_map url_chars(2)[OF core(2)] simp_thms)
  finally have u: "b64url_encode bs = map url_char core" .
  have "b64url_decode (b64url_encode bs) = b64decode (map std_char (map url_char core @ replicate ?n CHR ''=''))"
    by (simp only: u b64url_decode_core length_map)
  also have "map std_char (map url_char core @ replicate ?n CHR ''='') = b64encode bs"
    by (simp only: p map_append map_replicate pad(2) map_map url_chars(1)[OF core(2)])
  finally show ?thesis by (simp only: b64_roundtrip)
qed

lemma b64url_chars: "\<exists>core. b64url_encode bs = map url_char core \<and> set core \<subseteq> set b64_alphabet"
proof -
  obtain core where core: "b64encode bs = padded core" "set core \<subseteq> set b64_alphabet"
    using b64_core by blast
  have "b64url_encode bs = rev (dropWhile (\<lambda>c. c = CHR ''='') (rev (map url_char core @ replicate ((4 - length core mod 4) mod 4) CHR ''='')))"
    by (rule b64url_encode_core[OF core(1)[unfolded padded_def]])
  also have "\<dots> = map url_char core"
    by (rule dropWhile_pad) (simp only: list.set_map url_chars(2)[OF core(2)] simp_thms)
  finally show ?thesis using core(2) by blast
qed

lemma url_alphabet_plain: "list_all (\<lambda>c. url_char c \<notin> {CHR '':'', CHR ''='', CHR 0x22}) b64_alphabet"
  by (simp add: b64_alphabet_def url_char_def)

lemma b64url_plain: "CHR '':'' \<notin> set (b64url_encode bs)" "CHR ''='' \<notin> set (b64url_encode bs)" "CHR 0x22 \<notin> set (b64url_encode bs)"
proof -
  obtain core where core: "b64url_encode bs = map url_char core" "set core \<subseteq> set b64_alphabet" using b64url_chars by blast
  have "url_char c \<notin> {CHR '':'', CHR ''='', CHR 0x22}" if "c \<in> set core" for c
    using url_alphabet_plain core(2) that unfolding list_all_iff by blast
  then show "CHR '':'' \<notin> set (b64url_encode bs)" "CHR ''='' \<notin> set (b64url_encode bs)" "CHR 0x22 \<notin> set (b64url_encode bs)"
    unfolding core(1) list.set_map by (metis imageE insertCI)+
qed

end
