(* ===== verification/KBucket.thy ===== *)
theory KBucket
  imports PyValue
begin

unbundle bit_operations_syntax

text \<open>
  \<open>swarm/kbucket.py\<close>: the XOR metric on hexadecimal node ids, the k-bucket with its
  least-recently-seen eviction, and the routing table of 160 buckets.  The time of a call
  (\<open>time.time()\<close>) is an argument.  Shown: the table invariant (every bucket bounded, its
  ids distinct, every node in the bucket of its distance) is kept by every operation, the
  bucket index is the position of the highest bit of the distance, and the lookup returns
  the nearest nodes.
\<close>

section \<open>int(s, 16) and the XOR distance\<close>

definition K :: nat where "K = 20"

definition ALPHA :: nat where "ALPHA = 3"

fun hexval :: "char \<Rightarrow> nat option" where
  "hexval c = (let n = of_char c :: nat in
     if 48 \<le> n \<and> n \<le> 57 then Some (n - 48)
     else if 97 \<le> n \<and> n \<le> 102 then Some (n - 87)
     else if 65 \<le> n \<and> n \<le> 70 then Some (n - 55)
     else None)"

text \<open>
  The digits, with Python's single underscores between them: the flag says that the
  previous character was no digit, so that neither an underscore nor the end may follow.
\<close>

fun hex_digits :: "nat \<Rightarrow> bool \<Rightarrow> string \<Rightarrow> nat option" where
  "hex_digits acc gap [] = (if gap then None else Some acc)"
| "hex_digits acc gap (c # cs) =
     (if c = CHR ''_'' then (if gap then None else hex_digits acc True cs)
      else case hexval c of None \<Rightarrow> None | Some d \<Rightarrow> hex_digits (16 * acc + d) False cs)"

definition hex_body :: "string \<Rightarrow> nat option" where
  "hex_body s =
     (if take 1 s = ''0'' \<and> (take 1 (drop 1 s) = ''x'' \<or> take 1 (drop 1 s) = ''X'') then
        (if take 1 (drop 2 s) = ''_'' then hex_digits 0 True (drop 3 s)
         else hex_digits 0 True (drop 2 s))
      else hex_digits 0 True s)"

definition int16 :: "string \<Rightarrow> int result" where
  "int16 s =
     (let t = py_strip s;
          neg = (take 1 t = ''-'');
          body = (if neg \<or> take 1 t = ''+'' then drop 1 t else t)
      in case hex_body body of
           None \<Rightarrow> Inl (ValueError s)
         | Some n \<Rightarrow> Inr (if neg then - int n else int n))"

definition xor_distance :: "string \<Rightarrow> string \<Rightarrow> int result" where
  "xor_distance id1 id2 = bindE (int16 id1) (\<lambda>a. bindE (int16 id2) (\<lambda>b. Inr (a XOR b)))"

text \<open>\<open>int.bit_length\<close>, which ignores the sign.\<close>

fun bitlen :: "nat \<Rightarrow> nat" where
  "bitlen n = (if n = 0 then 0 else Suc (bitlen (n div 2)))"

declare bitlen.simps [simp del]

definition bit_length :: "int \<Rightarrow> nat" where
  "bit_length d = bitlen (nat \<bar>d\<bar>)"

lemma bitlen_bounds: "0 < n \<Longrightarrow> 0 < bitlen n \<and> 2 ^ (bitlen n - 1) \<le> n \<and> n < 2 ^ bitlen n"
proof (induction n rule: bitlen.induct)
  case (1 n)
  show ?case
  proof (cases "n div 2 = 0")
    case True
    with "1.prems" have "n = 1" by auto
    then show ?thesis by (simp add: bitlen.simps)
  next
    case False
    with 1 have IH: "0 < bitlen (n div 2)" "2 ^ (bitlen (n div 2) - 1) \<le> n div 2"
      "n div 2 < 2 ^ bitlen (n div 2)" by simp_all
    have eq: "bitlen n = Suc (bitlen (n div 2))"
      using "1.prems" by (subst bitlen.simps) simp
    obtain m where m: "bitlen (n div 2) = Suc m" using IH(1) gr0_conv_Suc by blast
    from IH m have "2 * 2 ^ m \<le> n" "n < 2 * 2 ^ Suc m" by simp_all
    then show ?thesis using eq m by simp
  qed
qed

lemma bitlen_less: "n < 2 ^ k \<Longrightarrow> bitlen n \<le> k"
proof (induction k arbitrary: n)
  case 0
  then show ?case by (simp add: bitlen.simps)
next
  case (Suc k)
  then have "bitlen (n div 2) \<le> k" by simp
  then show ?case by (subst bitlen.simps) simp
qed

section \<open>The bucket\<close>

text \<open>
  A contact is the tuple \<open>(node_id, ip, port, last_seen)\<close>; address and port come
  unchecked from the network, so they are dynamic values.
\<close>

record contact =
  c_id :: string
  c_ip :: pyval
  c_port :: pyval
  c_seen :: real

record kbucket =
  range_min :: int
  range_max :: int
  nodes :: "contact list"

text \<open>\<open>KBucket.add\<close>: refresh moves the node to the tail; a full bucket drops its head.\<close>

fun split_at_id :: "string \<Rightarrow> contact list \<Rightarrow> (contact list \<times> contact list) option" where
  "split_at_id i [] = None"
| "split_at_id i (n # ns) =
     (if c_id n = i then Some ([], ns)
      else case split_at_id i ns of None \<Rightarrow> None | Some (a, b) \<Rightarrow> Some (n # a, b))"

definition bucket_add_nodes :: "real \<Rightarrow> string \<Rightarrow> pyval \<Rightarrow> pyval \<Rightarrow> contact list \<Rightarrow> contact list" where
  "bucket_add_nodes now i ip port ns =
     (let c = \<lparr>c_id = i, c_ip = ip, c_port = port, c_seen = now\<rparr> in
      case split_at_id i ns of
        Some (a, b) \<Rightarrow> a @ b @ [c]
      | None \<Rightarrow> if length ns < K then ns @ [c] else drop 1 ns @ [c])"

definition bucket_add :: "real \<Rightarrow> string \<Rightarrow> pyval \<Rightarrow> pyval \<Rightarrow> kbucket \<Rightarrow> kbucket" where
  "bucket_add now i ip port b = b\<lparr>nodes := bucket_add_nodes now i ip port (nodes b)\<rparr>"

definition bucket_get_closest :: "kbucket \<Rightarrow> string \<Rightarrow> nat \<Rightarrow> contact list result" where
  "bucket_get_closest b target cnt =
     bindE (sortE (\<lambda>n. xor_distance (c_id n) target) (nodes b)) (\<lambda>ns. Inr (take cnt ns))"

definition bucket_evict_stale :: "real \<Rightarrow> real \<Rightarrow> kbucket \<Rightarrow> kbucket" where
  "bucket_evict_stale max_age now b =
     b\<lparr>nodes := filter (\<lambda>n. now - c_seen n \<le> max_age) (nodes b)\<rparr>"

section \<open>The routing table\<close>

record routing_table =
  own_id :: string
  buckets :: "kbucket list"

definition new_table :: "string \<Rightarrow> routing_table" where
  "new_table i = \<lparr>own_id = i,
     buckets = map (\<lambda>j. \<lparr>range_min = int j, range_max = int j + 1, nodes = []\<rparr>) [0..<160]\<rparr>"

definition bucket_index :: "routing_table \<Rightarrow> string \<Rightarrow> nat result" where
  "bucket_index t i = bindE (xor_distance (own_id t) i)
     (\<lambda>d. Inr (if d = 0 then 0 else bit_length d - 1))"

definition add_node :: "real \<Rightarrow> string \<Rightarrow> pyval \<Rightarrow> pyval \<Rightarrow> routing_table \<Rightarrow> routing_table result" where
  "add_node now i ip port t =
     (if i = own_id t then Inr t
      else bindE (bucket_index t i) (\<lambda>idx.
        if idx < length (buckets t)
        then Inr (t\<lparr>buckets := (buckets t)[idx := bucket_add now i ip port (buckets t ! idx)]\<rparr>)
        else Inl IndexError))"

definition all_nodes :: "routing_table \<Rightarrow> contact list" where
  "all_nodes t = concat (map nodes (buckets t))"

definition find_closest :: "routing_table \<Rightarrow> string \<Rightarrow> nat \<Rightarrow> contact list result" where
  "find_closest t target cnt =
     bindE (sortE (\<lambda>n. xor_distance (c_id n) target) (all_nodes t)) (\<lambda>ns. Inr (take cnt ns))"

definition evict_stale :: "real \<Rightarrow> real \<Rightarrow> routing_table \<Rightarrow> routing_table" where
  "evict_stale max_age now t = t\<lparr>buckets := map (bucket_evict_stale max_age now) (buckets t)\<rparr>"

definition rt_size :: "routing_table \<Rightarrow> nat" where
  "rt_size t = sum_list (map (\<lambda>b. length (nodes b)) (buckets t))"


section \<open>Well-formed node ids\<close>

definition node_id_ok :: "string \<Rightarrow> bool" where
  "node_id_ok s = (length s = 40 \<and> list_all (\<lambda>c. hexval c \<noteq> None) s)"

lemma hexval_less: "hexval c = Some d \<Longrightarrow> d < 16"
  by (auto simp: Let_def split: if_splits)

lemma hexval_no_special:
  "hexval c \<noteq> None \<Longrightarrow> \<not> is_space c \<and> c \<noteq> CHR ''_'' \<and> c \<noteq> CHR ''-'' \<and> c \<noteq> CHR ''+''
    \<and> c \<noteq> CHR ''x'' \<and> c \<noteq> CHR ''X''"
  by (auto simp: is_space_def Let_def split: if_splits)

declare hexval.simps [simp del]

lemma hex_digits_all:
  "list_all (\<lambda>c. hexval c \<noteq> None) s \<Longrightarrow> s \<noteq> [] \<or> \<not> gap \<Longrightarrow>
    \<exists>v. hex_digits acc gap s = Some v \<and> v < (acc + 1) * 16 ^ length s"
proof (induction s arbitrary: acc gap)
  case Nil
  then show ?case by simp
next
  case (Cons c s)
  then obtain d where d: "hexval c = Some d" by auto
  from Cons.prems have c: "c \<noteq> CHR ''_''" using hexval_no_special by auto
  from Cons.prems have "list_all (\<lambda>c. hexval c \<noteq> None) s" by simp
  then obtain v where v: "hex_digits (16 * acc + d) False s = Some v"
    "v < (16 * acc + d + 1) * 16 ^ length s"
    using Cons.IH[of False "16 * acc + d"] by blast
  have "(16 * acc + d + 1) * 16 ^ length s \<le> ((acc + 1) * 16) * 16 ^ length s"
    using hexval_less[OF d] by (intro mult_right_mono) simp_all
  also have "\<dots> = (acc + 1) * 16 ^ length (c # s)" by (simp add: algebra_simps)
  finally have "v < (acc + 1) * 16 ^ length (c # s)" using v(2) by (rule order_less_le_trans[rotated])
  with v d c show ?case by simp
qed

lemma py_strip_hex: "list_all (\<lambda>c. hexval c \<noteq> None) s \<Longrightarrow> py_strip s = s"
proof -
  assume "list_all (\<lambda>c. hexval c \<noteq> None) s"
  then have sp: "\<forall>c \<in> set s. \<not> is_space c" using hexval_no_special by (auto simp: list_all_iff)
  then have "dropWhile is_space s = s" by (cases s) auto
  moreover have "dropWhile is_space (rev s) = rev s"
    using sp by (cases s rule: rev_cases) (auto simp: dropWhile_eq_self_iff)
  ultimately show ?thesis by (simp add: py_strip_def)
qed

lemma take1_hex: "list_all (\<lambda>c. hexval c \<noteq> None) s \<Longrightarrow>
    take 1 s \<noteq> ''-'' \<and> take 1 s \<noteq> ''+'' \<and> take 1 s \<noteq> ''x'' \<and> take 1 s \<noteq> ''X''"
  using hexval_no_special by (cases s) auto

lemma hex_body_hex: "list_all (\<lambda>c. hexval c \<noteq> None) s \<Longrightarrow> hex_body s = hex_digits 0 True s"
  using take1_hex[of "drop 1 s"] by (cases s) (auto simp: hex_body_def)

lemma int16_hex:
  assumes "list_all (\<lambda>c. hexval c \<noteq> None) s" and "s \<noteq> []"
  shows "\<exists>v. int16 s = Inr (int v) \<and> v < 16 ^ length s"
proof -
  obtain v where v: "hex_digits 0 True s = Some v" "v < 16 ^ length s"
    using hex_digits_all[of s True 0] assms by auto
  have "int16 s = Inr (int v)"
    using v(1) take1_hex[OF assms(1)]
    by (simp add: int16_def py_strip_hex[OF assms(1)] hex_body_hex[OF assms(1)])
  with v(2) show ?thesis by blast
qed

lemma int16_node_id: "node_id_ok s \<Longrightarrow> \<exists>v. int16 s = Inr (int v) \<and> v < 2 ^ 160"
proof -
  assume ok: "node_id_ok s"
  then have "s \<noteq> []" by (auto simp: node_id_ok_def)
  with ok obtain v where "int16 s = Inr (int v)" "v < 16 ^ 40"
    using int16_hex[of s] by (auto simp: node_id_ok_def)
  moreover have "(16::nat) ^ 40 = 2 ^ 160" by simp
  ultimately show ?thesis by auto
qed


section \<open>Operations of the bucket\<close>

lemma split_at_id_None: "split_at_id i ns = None \<longleftrightarrow> i \<notin> c_id ` set ns"
  by (induction ns) (auto split: option.splits)

lemma split_at_id_Some:
  "split_at_id i ns = Some (a, b) \<Longrightarrow> \<exists>n. c_id n = i \<and> ns = a @ n # b"
proof (induction ns arbitrary: a b)
  case Nil
  then show ?case by simp
next
  case (Cons n ns)
  then show ?case by (fastforce split: option.splits if_splits)
qed

lemma bucket_add_last: "\<exists>ms. bucket_add_nodes now i ip port ns =
    ms @ [\<lparr>c_id = i, c_ip = ip, c_port = port, c_seen = now\<rparr>] \<and>
    set ms \<subseteq> set ns"
  by (auto simp: bucket_add_nodes_def Let_def split: option.splits dest!: split_at_id_Some
      dest: in_set_dropD)

lemma bucket_add_bounded: "length ns \<le> K \<Longrightarrow> length (bucket_add_nodes now i ip port ns) \<le> K"
  by (auto simp: bucket_add_nodes_def Let_def K_def split: option.splits dest!: split_at_id_Some)

lemma bucket_add_distinct:
  assumes "distinct (map c_id ns)"
  shows "distinct (map c_id (bucket_add_nodes now i ip port ns))"
proof (cases "split_at_id i ns")
  case None
  then have "i \<notin> c_id ` set ns" by (simp add: split_at_id_None)
  moreover have "distinct (map c_id (drop 1 ns))"
    using assms by (cases ns) simp_all
  moreover have "i \<notin> c_id ` set (drop 1 ns)" using calculation(1) by (auto dest: in_set_dropD)
  ultimately show ?thesis using assms None
    by (auto simp: bucket_add_nodes_def Let_def)
next
  case (Some ab)
  obtain a b where ab: "ab = (a, b)" by (cases ab)
  with Some obtain n where "c_id n = i" "ns = a @ n # b" using split_at_id_Some by blast
  with assms Some ab show ?thesis by (auto simp: bucket_add_nodes_def Let_def)
qed

text \<open>The ids of the bucket after an insertion, in all three cases of the code.\<close>

lemma bucket_add_ids:
  assumes "distinct (map c_id ns)"
  shows "map c_id (bucket_add_nodes now i ip port ns) =
    (if i \<in> c_id ` set ns then filter (\<lambda>j. j \<noteq> i) (map c_id ns)
     else if length ns < K then map c_id ns else drop 1 (map c_id ns)) @ [i]"
proof (cases "split_at_id i ns")
  case None
  then show ?thesis
    by (auto simp: split_at_id_None [THEN iffD1] bucket_add_nodes_def Let_def drop_map)
next
  case (Some ab)
  obtain a b where ab: "ab = (a, b)" by (cases ab)
  with Some obtain n where n: "c_id n = i" "ns = a @ n # b" using split_at_id_Some by blast
  with assms have "i \<notin> c_id ` set a" "i \<notin> c_id ` set b" by auto
  then have "filter (\<lambda>j. j \<noteq> i) (map c_id a) = map c_id a"
    "filter (\<lambda>j. j \<noteq> i) (map c_id b) = map c_id b"
    by (auto intro!: filter_True)
  then have "filter (\<lambda>j. j \<noteq> i) (map c_id ns) = map c_id (a @ b)"
    using n by simp
  with Some ab n show ?thesis by (simp add: bucket_add_nodes_def Let_def)
qed

section \<open>The table invariant\<close>

definition bucket_ok :: "routing_table \<Rightarrow> nat \<Rightarrow> kbucket \<Rightarrow> bool" where
  "bucket_ok t i b \<longleftrightarrow> length (nodes b) \<le> K \<and> distinct (map c_id (nodes b)) \<and>
     (\<forall>n \<in> set (nodes b). c_id n \<noteq> own_id t \<and> bucket_index t (c_id n) = Inr i)"

definition rt_ok :: "routing_table \<Rightarrow> bool" where
  "rt_ok t \<longleftrightarrow> length (buckets t) = 160 \<and> (\<forall>i < 160. bucket_ok t i (buckets t ! i))"

lemma bucket_index_own [simp]: "bucket_index (t\<lparr>buckets := bs\<rparr>) = bucket_index t"
  by (simp add: bucket_index_def fun_eq_iff)

lemma bucket_ok_own [simp]: "bucket_ok (t\<lparr>buckets := bs\<rparr>) = bucket_ok t"
  by (simp add: bucket_ok_def fun_eq_iff)

lemma rt_ok_new [inv_intros]: "rt_ok (new_table i)"
  by (simp add: rt_ok_def new_table_def bucket_ok_def)

lemma bucket_ok_add:
  assumes "bucket_ok t k b" and "i \<noteq> own_id t" and "bucket_index t i = Inr k"
  shows "bucket_ok t k (bucket_add now i ip port b)"
proof -
  obtain ms where ms: "bucket_add_nodes now i ip port (nodes b) =
      ms @ [\<lparr>c_id = i, c_ip = ip, c_port = port, c_seen = now\<rparr>]" "set ms \<subseteq> set (nodes b)"
    using bucket_add_last by blast
  have "\<forall>n \<in> set (bucket_add_nodes now i ip port (nodes b)).
      c_id n \<noteq> own_id t \<and> bucket_index t (c_id n) = Inr k"
    using assms ms by (auto simp: bucket_ok_def)
  then show ?thesis
    using assms(1) bucket_add_bounded bucket_add_distinct
    by (simp add: bucket_ok_def bucket_add_def)
qed

lemma add_node_ok [inv_intros]:
  "rt_ok t \<Longrightarrow> add_node now i ip port t = Inr t' \<Longrightarrow> rt_ok t' \<and> own_id t' = own_id t"
  by (auto simp: rt_ok_def add_node_def bindE_Inr_iff nth_list_update bucket_ok_add split: if_splits)

lemma evict_stale_ok [inv_intros]: "rt_ok t \<Longrightarrow> rt_ok (evict_stale age now t)"
  using order_trans [OF length_filter_le]
  by (auto simp: rt_ok_def evict_stale_def bucket_ok_def bucket_evict_stale_def distinct_map_filter)

lemma own_id_evict [simp]: "own_id (evict_stale age now t) = own_id t"
  by (simp add: evict_stale_def)

text \<open>With 40-digit ids the index is in range and the insertion cannot raise.\<close>

lemma xor_distance_node_ids:
  assumes "node_id_ok a" and "node_id_ok b"
  shows "\<exists>d. xor_distance a b = Inr d \<and> 0 \<le> d \<and> d < 2 ^ 160"
proof -
  obtain x y where x: "int16 a = Inr (int x)" "x < 2 ^ 160"
    and y: "int16 b = Inr (int y)" "y < 2 ^ 160"
    using int16_node_id assms by blast
  have "int x < 2 ^ 160" "int y < 2 ^ 160" using x y by simp_all
  then have "int x XOR int y < 2 ^ 160" by (intro XOR_upper [where n = 160]) simp_all
  then show ?thesis using x y by (simp add: xor_distance_def)
qed

lemma bit_length_bounds: "0 < d \<Longrightarrow> 2 ^ (bit_length d - 1) \<le> d \<and> d < 2 ^ bit_length d"
proof -
  assume d: "0 < d"
  then have b: "2 ^ (bitlen (nat d) - 1) \<le> nat d \<and> nat d < 2 ^ bitlen (nat d)"
    using bitlen_bounds[of "nat d"] by simp
  have "2 ^ (bitlen (nat d) - 1) \<le> d" using b d by (simp add: nat_le_iff le_nat_iff)
  moreover have "d < 2 ^ bitlen (nat d)" using b d by (simp add: nat_less_iff)
  ultimately show ?thesis using d by (simp add: bit_length_def)
qed

lemma bucket_index_node_ids:
  assumes "node_id_ok (own_id t)" and "node_id_ok i"
  shows "\<exists>d k. xor_distance (own_id t) i = Inr d \<and> bucket_index t i = Inr k \<and> k < 160 \<and>
    0 \<le> d \<and> (d = 0 \<and> k = 0 \<or> 2 ^ k \<le> d \<and> d < 2 ^ Suc k)"
proof -
  obtain d where d: "xor_distance (own_id t) i = Inr d" "0 \<le> d" "d < 2 ^ 160"
    using xor_distance_node_ids assms by blast
  show ?thesis
  proof (cases "d = 0")
    case True
    with d show ?thesis by (simp add: bucket_index_def)
  next
    case False
    with d have b: "2 ^ (bit_length d - 1) \<le> d" "d < 2 ^ bit_length d"
      using bit_length_bounds[of d] by simp_all
    have pos: "0 < bit_length d" using b(2) d(2) False by (cases "bit_length d") auto
    have "bit_length d \<le> 160"
      using bitlen_less[of "nat d" 160] d by (simp add: bit_length_def nat_less_iff)
    then have "bit_length d - 1 < 160" using pos by simp
    moreover have "d < 2 ^ Suc (bit_length d - 1)" using b(2) pos by simp
    ultimately show ?thesis using d b(1) False by (simp add: bucket_index_def)
  qed
qed


section \<open>Lookups\<close>

lemma bucket_ids_disjoint:
  "rt_ok t \<Longrightarrow> i < 160 \<Longrightarrow> j < 160 \<Longrightarrow> i \<noteq> j \<Longrightarrow>
    c_id ` set (nodes (buckets t ! i)) \<inter> c_id ` set (nodes (buckets t ! j)) = {}"
proof (rule ccontr)
  assume ok: "rt_ok t" and ij: "i < 160" "j < 160" "i \<noteq> j"
    and "c_id ` set (nodes (buckets t ! i)) \<inter> c_id ` set (nodes (buckets t ! j)) \<noteq> {}"
  then obtain m n where mn: "m \<in> set (nodes (buckets t ! i))" "n \<in> set (nodes (buckets t ! j))"
    "c_id m = c_id n" by blast
  have "bucket_index t (c_id m) = Inr i" using ok ij(1) mn(1) by (simp add: rt_ok_def bucket_ok_def)
  moreover have "bucket_index t (c_id n) = Inr j"
    using ok ij(2) mn(2) by (simp add: rt_ok_def bucket_ok_def)
  ultimately show False using mn(3) ij(3) by simp
qed

lemma distinct_concat_disjoint:
  assumes "\<And>i. i < length xss \<Longrightarrow> distinct (xss ! i)"
    and "\<And>i j. i < length xss \<Longrightarrow> j < length xss \<Longrightarrow> i \<noteq> j \<Longrightarrow> set (xss ! i) \<inter> set (xss ! j) = {}"
  shows "distinct (concat xss)"
  using assms
proof (induction xss)
  case Nil
  then show ?case by simp
next
  case (Cons xs xss)
  have "distinct (concat xss)"
  proof (rule Cons.IH)
    fix i assume "i < length xss"
    then show "distinct (xss ! i)" using Cons.prems(1)[of "Suc i"] by simp
  next
    fix i j assume "i < length xss" "j < length xss" "i \<noteq> j"
    then show "set (xss ! i) \<inter> set (xss ! j) = {}" using Cons.prems(2)[of "Suc i" "Suc j"] by simp
  qed
  moreover have "set xs \<inter> set (concat xss) = {}"
  proof -
    have "set xs \<inter> set ys = {}" if "ys \<in> set xss" for ys
    proof -
      from that obtain i where "i < length xss" "ys = xss ! i" by (auto simp: in_set_conv_nth)
      then show ?thesis using Cons.prems(2)[of 0 "Suc i"] by simp
    qed
    then show ?thesis by auto
  qed
  moreover have "distinct xs" using Cons.prems(1)[of 0] by simp
  ultimately show ?case by simp
qed

lemma all_nodes_distinct:
  assumes ok: "rt_ok t"
  shows "distinct (map c_id (all_nodes t))"
proof -
  let ?xss = "map (\<lambda>b. map c_id (nodes b)) (buckets t)"
  have len: "length (buckets t) = 160" using ok by (simp add: rt_ok_def)
  have "distinct (concat ?xss)"
  proof (rule distinct_concat_disjoint)
    fix i assume "i < length ?xss"
    then show "distinct (?xss ! i)" using ok by (simp add: rt_ok_def bucket_ok_def)
  next
    fix i j assume "i < length ?xss" "j < length ?xss" "i \<noteq> j"
    then show "set (?xss ! i) \<inter> set (?xss ! j) = {}"
      using bucket_ids_disjoint[OF ok, of i j] len by simp
  qed
  then show ?thesis by (simp add: all_nodes_def map_concat comp_def)
qed

lemma rt_size_all_nodes: "rt_size t = length (all_nodes t)"
  by (simp add: rt_size_def all_nodes_def length_concat comp_def)

lemma rt_size_bound:
  assumes "rt_ok t" shows "rt_size t \<le> 160 * K"
proof -
  have "length (nodes b) \<le> K" if b: "b \<in> set (buckets t)" for b
  proof -
    obtain i where "i < length (buckets t)" "b = buckets t ! i"
      using b by (auto simp: in_set_conv_nth)
    then show ?thesis using assms by (simp add: rt_ok_def bucket_ok_def)
  qed
  then have "rt_size t \<le> sum_list (map (\<lambda>b. K) (buckets t))"
    unfolding rt_size_def by (rule sum_list_mono)
  then show ?thesis using assms by (simp add: rt_ok_def sum_list_triv)
qed

lemma all_nodes_parse:
  assumes "rt_ok t" and "n \<in> set (all_nodes t)"
  shows "\<exists>v. int16 (c_id n) = Inr v"
proof -
  obtain b where b: "b \<in> set (buckets t)" "n \<in> set (nodes b)"
    using assms(2) by (auto simp: all_nodes_def)
  then obtain i where "i < 160" "b = buckets t ! i"
    using assms(1) by (auto simp: rt_ok_def in_set_conv_nth)
  then have "bucket_index t (c_id n) = Inr i" using assms(1) b by (simp add: rt_ok_def bucket_ok_def)
  then show ?thesis by (auto simp: bucket_index_def xor_distance_def bindE_Inr_iff)
qed

definition the_int16 :: "string \<Rightarrow> int" where
  "the_int16 s = (case int16 s of Inr v \<Rightarrow> v | Inl e \<Rightarrow> 0)"

text \<open>Taking the first elements of a sorted list leaves nothing nearer behind.\<close>

lemma take_sorted_nearest:
  assumes "x \<in> set (take n (sort_key f xs))" and "y \<in> set (drop n (sort_key f xs))"
  shows "f x \<le> f y"
proof -
  have "sorted (map f (take n (sort_key f xs) @ drop n (sort_key f xs)))" by simp
  then show ?thesis using assms by (simp only: map_append sorted_append) auto
qed

lemma find_closest_Inr:
  assumes ok: "rt_ok t" and tgt: "int16 target = Inr v"
  shows "find_closest t target cnt =
    Inr (take cnt (sort_key (\<lambda>n. the_int16 (c_id n) XOR v) (all_nodes t)))"
proof -
  have "sortE (\<lambda>n. xor_distance (c_id n) target) (all_nodes t) =
      Inr (sort_key (\<lambda>n. the_int16 (c_id n) XOR v) (all_nodes t))"
  proof (rule sortE_Inr)
    fix n assume "n \<in> set (all_nodes t)"
    then obtain w where "int16 (c_id n) = Inr w" using all_nodes_parse ok by blast
    then show "xor_distance (c_id n) target = Inr (the_int16 (c_id n) XOR v)"
      using tgt by (simp add: xor_distance_def the_int16_def)
  qed
  then show ?thesis by (simp add: find_closest_def)
qed

lemma find_closest_facts:
  assumes "rt_ok t" and "int16 target = Inr v"
  shows "\<exists>ns. find_closest t target cnt = Inr ns \<and> length ns = min cnt (rt_size t) \<and>
    set ns \<subseteq> set (all_nodes t) \<and> sorted (map (\<lambda>n. the_int16 (c_id n) XOR v) ns) \<and>
    (\<forall>x \<in> set ns. \<forall>y \<in> set (all_nodes t) - set ns.
       the_int16 (c_id x) XOR v \<le> the_int16 (c_id y) XOR v)"
proof -
  let ?f = "\<lambda>n. the_int16 (c_id n) XOR v" and ?all = "all_nodes t"
  let ?ns = "take cnt (sort_key ?f ?all)"
  have "sorted (map ?f ?ns)" by (simp add: sorted_wrt_take flip: take_map)
  moreover have "\<forall>x \<in> set ?ns. \<forall>y \<in> set ?all - set ?ns. ?f x \<le> ?f y"
  proof (intro ballI)
    fix x y assume x: "x \<in> set ?ns" and y: "y \<in> set ?all - set ?ns"
    have "set (sort_key ?f ?all) = set ?ns \<union> set (drop cnt (sort_key ?f ?all))"
      by (metis append_take_drop_id set_append)
    with y have "y \<in> set (drop cnt (sort_key ?f ?all))" by auto
    with x show "?f x \<le> ?f y" by (rule take_sorted_nearest)
  qed
  moreover have "length ?ns = min cnt (rt_size t)" by (simp add: rt_size_all_nodes min.commute)
  moreover have "set ?ns \<subseteq> set ?all" using set_take_subset[of cnt "sort_key ?f ?all"] by simp
  ultimately show ?thesis using find_closest_Inr[OF assms] by metis
qed

lemma add_node_member:
  assumes "rt_ok t" and "add_node now i ip port t = Inr t'" and "i \<noteq> own_id t"
  shows "i \<in> c_id ` set (all_nodes t')"
proof -
  obtain k where k: "k < length (buckets t)"
    "t' = t\<lparr>buckets := (buckets t)[k := bucket_add now i ip port (buckets t ! k)]\<rparr>"
    using assms(2,3) by (auto simp: add_node_def bindE_Inr_iff split: if_splits)
  let ?b = "bucket_add now i ip port (buckets t ! k)"
  have "i \<in> c_id ` set (nodes ?b)"
    using bucket_add_last[of now i ip port "nodes (buckets t ! k)"] by (auto simp: bucket_add_def)
  moreover have "?b \<in> set (buckets t')" using k by (simp add: set_update_memI)
  ultimately show ?thesis by (auto simp: all_nodes_def)
qed

section \<open>Ages: the bucket as a table of peers\<close>

definition look_contact :: "kbucket \<Rightarrow> string \<Rightarrow> contact option" where
  "look_contact b i = find (\<lambda>n. c_id n = i) (nodes b)"

lemma find_filter_distinct:
  "distinct (map c_id ns) \<Longrightarrow> find (\<lambda>n. c_id n = i) (filter P ns) =
    (case find (\<lambda>n. c_id n = i) ns of None \<Rightarrow> None | Some n \<Rightarrow> if P n then Some n else None)"
proof (induction ns)
  case Nil
  then show ?case by simp
next
  case (Cons n ns)
  then have "find (\<lambda>m. c_id m = i) ns = None" if "c_id n = i"
    using that by (auto simp: find_None_iff rev_image_eqI)
  with Cons show ?case by (auto split: option.splits)
qed

interpretation kb: aged_table look_contact c_seen bucket_evict_stale
  "\<lambda>b. distinct (map c_id (nodes b))"
proof unfold_locales
  fix t :: kbucket and age now :: real and k
  assume "distinct (map c_id (nodes t))"
  then show "look_contact (bucket_evict_stale age now t) k =
      (case look_contact t k of None \<Rightarrow> None
       | Some v \<Rightarrow> if now - c_seen v > age then None else Some v)"
    by (auto simp: look_contact_def bucket_evict_stale_def find_filter_distinct split: option.splits)
qed (simp add: bucket_evict_stale_def distinct_map_filter)


section \<open>Properties\<close>

text \<open>
  A run of the table: insertions and evictions in any order.  An insertion that raises
  (an id that is not hexadecimal, or too long) leaves the table as it was.
\<close>

datatype rt_op = RtAdd real string pyval pyval | RtEvict real real

fun rt_step :: "rt_op \<Rightarrow> routing_table \<Rightarrow> routing_table" where
  "rt_step (RtAdd now i ip port) t = (case add_node now i ip port t of Inl e \<Rightarrow> t | Inr t' \<Rightarrow> t')"
| "rt_step (RtEvict age now) t = evict_stale age now t"

definition rt_run :: "rt_op list \<Rightarrow> routing_table \<Rightarrow> routing_table" where
  "rt_run ops t = fold rt_step ops t"

lemma rt_step_ok: "rt_ok t \<Longrightarrow> rt_ok (rt_step op t) \<and> own_id (rt_step op t) = own_id t"
  by (cases op) (auto intro: inv_intros split: sum.splits dest: add_node_ok)

lemma rt_run_ok: "rt_ok t \<Longrightarrow> rt_ok (rt_run ops t) \<and> own_id (rt_run ops t) = own_id t"
  unfolding rt_run_def by (induction ops arbitrary: t) (simp_all add: rt_step_ok)

lemma all_nodes_not_own: "rt_ok t \<Longrightarrow> own_id t \<notin> c_id ` set (all_nodes t)"
  by (fastforce simp: rt_ok_def bucket_ok_def all_nodes_def in_set_conv_nth)

text \<open>
  C1. After any sequence of insertions and evictions on a fresh table, every bucket holds
  at most \<open>K = 20\<close> nodes, each in the bucket of its distance, no node id occurs twice in
  the whole table, the own id never occurs, and the table has at most 3200 entries.
\<close>
theorem routing_table_invariant:
  fixes ops :: "rt_op list" and me :: string
  defines "t \<equiv> rt_run ops (new_table me)"
  shows "rt_ok t \<and> distinct (map c_id (all_nodes t)) \<and> me \<notin> c_id ` set (all_nodes t) \<and>
    rt_size t \<le> 3200"
proof -
  have ok: "rt_ok t" "own_id t = me"
    using rt_run_ok[OF rt_ok_new] by (simp_all add: t_def new_table_def)
  then show ?thesis
    using all_nodes_distinct all_nodes_not_own rt_size_bound by (fastforce simp: K_def)
qed

text \<open>
  C2. \<open>RoutingTable.find_closest\<close> on a well-formed table returns the nearest nodes: as
  many as asked for when there are that many, sorted by XOR distance, all from the table,
  and no node left out is nearer than one returned.
\<close>
theorem find_closest_nearest:
  assumes "rt_ok t" and "int16 target = Inr v"
  shows "\<exists>ns. find_closest t target cnt = Inr ns \<and> length ns = min cnt (rt_size t) \<and>
    set ns \<subseteq> set (all_nodes t) \<and> sorted (map (\<lambda>n. the_int16 (c_id n) XOR v) ns) \<and>
    (\<forall>x \<in> set ns. \<forall>y \<in> set (all_nodes t) - set ns.
       the_int16 (c_id x) XOR v \<le> the_int16 (c_id y) XOR v)"
  using assms by (rule find_closest_facts)

theorem find_closest_nearest_witness:
  "\<exists>ns. find_closest (rt_run [RtAdd 1 ''0f'' PNone PNone, RtAdd 2 ''a0'' PNone PNone]
     (new_table ''01'')) ''a1'' 1 = Inr ns \<and> length ns \<le> 1"
proof -
  have "int16 ''a1'' = Inr 161" by code_simp
  from find_closest_nearest[OF conjunct1[OF rt_run_ok[OF rt_ok_new]] this]
  show ?thesis by (metis min.cobounded1)
qed

text \<open>
  For node ids as \<open>node_identity.get_node_id\<close> makes them (40 hexadecimal digits) an
  insertion never raises: the bucket index \<open>k\<close> is below 160 and is the position of the
  highest bit of the distance, \<open>2 ^ k \<le> d < 2 ^ (k + 1)\<close> unless the ids denote the same
  number.
\<close>
theorem add_node_total:
  assumes "node_id_ok (own_id t)" and "node_id_ok i" and "length (buckets t) = 160"
  shows "(\<exists>t'. add_node now i ip port t = Inr t') \<and>
    (\<exists>d k. xor_distance (own_id t) i = Inr d \<and> bucket_index t i = Inr k \<and> k < 160 \<and>
      (d = 0 \<and> k = 0 \<or> 2 ^ k \<le> d \<and> d < 2 ^ Suc k))"
  using bucket_index_node_ids[OF assms(1,2)] assms(3) by (auto simp: add_node_def)

theorem add_node_total_witness:
  "\<exists>t'. add_node 7 ''00000000000000000000000000000000000000aB'' (PStr ''10.0.0.2'') (PInt 6881)
     (new_table ''0000000000000000000000000000000000000001'') = Inr t'"
proof -
  let ?t = "new_table ''0000000000000000000000000000000000000001''"
  have "node_id_ok (own_id ?t)" "node_id_ok ''00000000000000000000000000000000000000aB''"
    by (simp_all add: new_table_def node_id_ok_def hexval.simps)
  then show ?thesis
    using add_node_total[of ?t "''00000000000000000000000000000000000000aB''" 7
        "PStr ''10.0.0.2''" "PInt 6881"] by (simp add: new_table_def)
qed

text \<open>
  The replacement policy of \<open>KBucket.add\<close>: a known id moves to the tail with the new
  address and time, a new id is appended while there is room, and a full bucket drops
  exactly its head, the node unheard of for longest.
\<close>
theorem bucket_add_policy:
  assumes "distinct (map c_id (nodes b))"
  shows "map c_id (nodes (bucket_add now i ip port b)) =
      (if i \<in> c_id ` set (nodes b) then filter (\<lambda>j. j \<noteq> i) (map c_id (nodes b))
       else if length (nodes b) < K then map c_id (nodes b) else drop 1 (map c_id (nodes b))) @ [i]
    \<and> last (nodes (bucket_add now i ip port b)) = \<lparr>c_id = i, c_ip = ip, c_port = port, c_seen = now\<rparr>
    \<and> set (butlast (nodes (bucket_add now i ip port b))) \<subseteq> set (nodes b)"
  using bucket_add_ids[OF assms] bucket_add_last[of now i ip port "nodes b"]
  by (auto simp: bucket_add_def)

theorem bucket_add_policy_witness:
  "map c_id (nodes (bucket_add 5 ''a'' PNone PNone
     \<lparr>range_min = 0, range_max = 1,
      nodes = [\<lparr>c_id = ''a'', c_ip = PNone, c_port = PNone, c_seen = 1\<rparr>,
               \<lparr>c_id = ''b'', c_ip = PNone, c_port = PNone, c_seen = 2\<rparr>]\<rparr>)) = [''b'', ''a'']"
  using bucket_add_policy[of "\<lparr>range_min = 0, range_max = 1,
      nodes = [\<lparr>c_id = ''a'', c_ip = PNone, c_port = PNone, c_seen = 1\<rparr>,
               \<lparr>c_id = ''b'', c_ip = PNone, c_port = PNone, c_seen = 2\<rparr>]\<rparr>" 5 "''a''" PNone PNone]
  by simp

end
