(* ===== verification/Streams.thy ===== *)
theory Streams
  imports PyValue
begin

text \<open>
  The in-process channels: \<open>bus/message_bus.py\<close> (a queue per agent), \<open>bus/event_bus.py\<close>
  (publish and subscribe with a bounded log), \<open>ml/stream_buffer.py\<close> (the sliding window of
  sensor readings and its statistics) and \<open>ml/context_manager.py\<close> (the rolling context of
  the LLM prompts).  Threads and locks are outside the model: an operation is one step, and
  the thread a subscriber runs in is an entry of the list of deliveries.
\<close>

section \<open>The message bus\<close>

record bus_entry =
  be_from :: string
  be_to :: string
  be_message :: pyval
  be_ts :: real

record msgbus =
  mb_queues :: "(string, bus_entry list) pydict"
  mb_log :: "bus_entry list"

definition new_bus :: msgbus where "new_bus = \<lparr>mb_queues = [], mb_log = []\<rparr>"

definition mb_subscribe :: "string \<Rightarrow> msgbus \<Rightarrow> msgbus" where
  "mb_subscribe i b = (if din i (mb_queues b) then b else b\<lparr>mb_queues := dset i [] (mb_queues b)\<rparr>)"

definition mb_publish :: "real \<Rightarrow> string \<Rightarrow> pyval \<Rightarrow> string \<Rightarrow> msgbus \<Rightarrow> bool \<times> msgbus" where
  "mb_publish now to msg sender b = (case dget (mb_queues b) to of
       None \<Rightarrow> (False, b)
     | Some q \<Rightarrow>
        let e = \<lparr>be_from = sender, be_to = to, be_message = msg, be_ts = now\<rparr> in
        (True, b\<lparr>mb_queues := dset to (q @ [e]) (mb_queues b), mb_log := mb_log b @ [e]\<rparr>))"

text \<open>\<open>q.get(timeout=...)\<close>: the head, or \<open>None\<close> when nothing arrives in time.\<close>

definition mb_receive :: "string \<Rightarrow> msgbus \<Rightarrow> bus_entry option \<times> msgbus" where
  "mb_receive i b = (case dget (mb_queues b) i of
       None \<Rightarrow> (None, b)
     | Some [] \<Rightarrow> (None, b)
     | Some (e # q) \<Rightarrow> (Some e, b\<lparr>mb_queues := dset i q (mb_queues b)\<rparr>))"

definition mb_get_log :: "msgbus \<Rightarrow> bus_entry list" where "mb_get_log b = mb_log b"

section \<open>The event bus\<close>

record subscriber =
  sub_cb :: nat
  sub_agent :: string
  sub_at :: real

record event =
  ev_id :: string
  ev_type :: string
  ev_data :: pyval
  ev_sender :: string
  ev_priority :: string
  ev_time :: real
  ev_delivered :: "string list"

record evbus =
  eb_subs :: "(string, subscriber list) pydict"
  eb_log :: "event list"
  eb_runs :: "(nat \<times> event) list"

definition MAX_LOG :: nat where "MAX_LOG = 1000"

definition new_evbus :: evbus where "new_evbus = \<lparr>eb_subs = [], eb_log = [], eb_runs = []\<rparr>"

text \<open>\<open>agent_id or str(uuid.uuid4())[:8]\<close>, with the fresh uuid as an argument.\<close>

definition eb_subscribe :: "real \<Rightarrow> string \<Rightarrow> string \<Rightarrow> nat \<Rightarrow> string option \<Rightarrow> evbus \<Rightarrow> evbus" where
  "eb_subscribe now uid ty cb agent b =
     (let aid = (case agent of Some a \<Rightarrow> if a = [] then take 8 uid else a | None \<Rightarrow> take 8 uid)
      in b\<lparr>eb_subs := dset ty (dgetd (eb_subs b) ty [] @ [\<lparr>sub_cb = cb, sub_agent = aid, sub_at = now\<rparr>]) (eb_subs b)\<rparr>)"

definition eb_unsubscribe :: "string \<Rightarrow> string \<Rightarrow> evbus \<Rightarrow> evbus" where
  "eb_unsubscribe ty aid b =
     b\<lparr>eb_subs := dset ty (filter (\<lambda>s. sub_agent s \<noteq> aid) (dgetd (eb_subs b) ty [])) (eb_subs b)\<rparr>"

text \<open>
  The event object is shared by the log and the subscriber threads, and gets the agent ids
  appended while the threads are started: after the call its \<open>delivered_to\<close> is complete.
\<close>

definition eb_publish :: "real \<Rightarrow> string \<Rightarrow> string \<Rightarrow> pyval \<Rightarrow> string \<Rightarrow> string \<Rightarrow> evbus \<Rightarrow> evbus" where
  "eb_publish now uid ty data sender priority b =
     (let subs = dgetd (eb_subs b) ty [] @ dgetd (eb_subs b) ''*'' [];
          e = \<lparr>ev_id = uid, ev_type = ty, ev_data = data, ev_sender = sender, ev_priority = priority,
               ev_time = now, ev_delivered = map sub_agent subs\<rparr>
      in b\<lparr>eb_log := append_capped MAX_LOG e (eb_log b),
           eb_runs := eb_runs b @ map (\<lambda>s. (sub_cb s, e)) subs\<rparr>)"

definition eb_get_events :: "string option \<Rightarrow> real \<Rightarrow> int \<Rightarrow> evbus \<Rightarrow> event list" where
  "eb_get_events ty since limit b =
     (let es = eb_log b;
          es1 = (case ty of None \<Rightarrow> es | Some t \<Rightarrow> if t = [] then es else filter (\<lambda>e. ev_type e = t) es);
          es2 = (if since > 0 then filter (\<lambda>e. ev_time e > since) es1 else es1)
      in py_take limit (sort_key_desc ev_time es2))"

record bus_stats =
  total_events :: nat
  event_types :: "string list"
  subscriber_count :: nat
  recent_events :: nat

definition eb_get_stats :: "real \<Rightarrow> evbus \<Rightarrow> bus_stats" where
  "eb_get_stats now b = \<lparr>total_events = length (eb_log b), event_types = dkeys (eb_subs b),
     subscriber_count = sum_list (map length (dvals (eb_subs b))),
     recent_events = length (filter (\<lambda>e. now - ev_time e < 60) (eb_log b))\<rparr>"

section \<open>The stream buffer\<close>

text \<open>\<open>deque(maxlen=n).append\<close>\<close>

definition sb_add :: "nat \<Rightarrow> pyobj \<Rightarrow> pyobj list \<Rightarrow> pyobj list" where
  "sb_add maxlen r w = drop (length w + 1 - maxlen) (w @ [r])"

definition sb_is_ready :: "pyobj list \<Rightarrow> bool" where "sb_is_ready w = (length w \<ge> 3)"

definition add_field :: "string \<times> pyval \<Rightarrow> (string, real list) pydict \<Rightarrow> (string, real list) pydict" where
  "add_field kv fs = (case num_of (snd kv) of
       None \<Rightarrow> fs
     | Some x \<Rightarrow> dset (fst kv) (dgetd fs (fst kv) [] @ [x]) fs)"

definition field_values :: "pyobj list \<Rightarrow> (string, real list) pydict" where
  "field_values w = fold (\<lambda>reading. fold add_field reading) w []"

record fstats =
  st_mean :: real
  st_std :: real
  st_min :: real
  st_max :: real
  st_count :: nat

definition mean_of :: "real list \<Rightarrow> real" where "mean_of xs = sum_list xs / real (length xs)"

definition field_stats :: "real list \<Rightarrow> fstats" where
  "field_stats xs =
     (let n = length xs; mean = mean_of xs;
          variance = (if n > 1 then sum_list (map (\<lambda>v. (v - mean)\<^sup>2) xs) / real n else 0)
      in \<lparr>st_mean = mean, st_std = sqrt variance, st_min = Min (set xs), st_max = Max (set xs), st_count = n\<rparr>)"

definition sb_get_stats :: "pyobj list \<Rightarrow> (string, fstats) pydict" where
  "sb_get_stats w = map (\<lambda>(k, xs). (k, field_stats xs)) (field_values w)"

section \<open>The context manager\<close>

record ctx_task =
  ct_type :: string
  ct_node :: string
  ct_status :: string
  ct_started :: real
  ct_result :: "pyobj option"
  ct_completed :: "real option"

record ctx_event =
  ce_type :: string
  ce_data :: pyobj
  ce_time :: real

record ctxman =
  cm_goal :: string
  cm_tasks :: "(string, ctx_task) pydict"
  cm_window :: "ctx_event list"
  cm_max :: nat
  cm_created :: real

definition new_ctx :: "real \<Rightarrow> nat \<Rightarrow> ctxman" where
  "new_ctx now n = \<lparr>cm_goal = '''', cm_tasks = [], cm_window = [], cm_max = n, cm_created = now\<rparr>"

definition add_context :: "ctx_event \<Rightarrow> ctxman \<Rightarrow> ctxman" where
  "add_context e c = c\<lparr>cm_window := append_capped (cm_max c) e (cm_window c)\<rparr>"

definition set_global_goal :: "real \<Rightarrow> string \<Rightarrow> ctxman \<Rightarrow> ctxman" where
  "set_global_goal now g c =
     add_context \<lparr>ce_type = ''GOAL_SET'', ce_data = [(''goal'', PStr g)], ce_time = now\<rparr> (c\<lparr>cm_goal := g\<rparr>)"

definition add_local_task :: "real \<Rightarrow> string \<Rightarrow> string \<Rightarrow> string \<Rightarrow> ctxman \<Rightarrow> ctxman" where
  "add_local_task now tid ty node c =
     add_context \<lparr>ce_type = ''TASK_START'',
         ce_data = [(''task_type'', PStr ty), (''node'', PStr (take 12 node))], ce_time = now\<rparr>
       (c\<lparr>cm_tasks := dset tid \<lparr>ct_type = ty, ct_node = node, ct_status = ''active'', ct_started = now,
            ct_result = None, ct_completed = None\<rparr> (cm_tasks c)\<rparr>)"

definition complete_task :: "real \<Rightarrow> string \<Rightarrow> pyobj \<Rightarrow> ctxman \<Rightarrow> ctxman" where
  "complete_task now tid res c =
     (let c' = (case dget (cm_tasks c) tid of
           None \<Rightarrow> c
         | Some t \<Rightarrow> c\<lparr>cm_tasks := dset tid (t\<lparr>ct_status := ''complete'', ct_result := Some res,
                        ct_completed := Some now\<rparr>) (cm_tasks c)\<rparr>)
      in add_context \<lparr>ce_type = ''TASK_COMPLETE'',
           ce_data = [(''task_id'', PStr (take 8 tid)), (''status'', dgetd res ''status'' (PStr ''OK''))],
           ce_time = now\<rparr> c')"

definition tasks_with :: "string \<Rightarrow> ctxman \<Rightarrow> nat" where
  "tasks_with st c = length (filter (\<lambda>t. ct_status t = st) (dvals (cm_tasks c)))"

definition nl :: string where "nl = [char_of (10::nat)]"

definition get_context_summary :: "real \<Rightarrow> ctxman \<Rightarrow> string" where
  "get_context_summary now c =
     ''Global goal: '' @ cm_goal c @ nl @
     ''Active tasks: '' @ show_nat (tasks_with ''active'' c) @ '', Complete: '' @
       show_nat (tasks_with ''complete'' c) @ nl @
     ''Uptime: '' @ show_int (trunc (now - cm_created c)) @ ''s'' @ nl @
     ''Recent events: '' @ show_nat (length (cm_window c))"

text \<open>The prompt prefix, with \<open>json.dumps\<close> as an argument.\<close>

definition build_llm_context :: "(pyobj \<Rightarrow> string) \<Rightarrow> ctxman \<Rightarrow> string" where
  "build_llm_context dumps c =
     (let recent = last_slice 10 (cm_window c) in
      ''SYSTEM CONTEXT:'' @ nl @ ''Goal: '' @ cm_goal c @ nl @
      ''Active tasks: '' @ show_nat (tasks_with ''active'' c) @ nl @
      (if recent = [] then '''' else ''Recent events:'' @ nl @
        concat (map (\<lambda>e. ''  ['' @ ce_type e @ ''] '' @ dumps (ce_data e) @ nl) recent)))"

record ctx_status =
  cs_goal :: string
  cs_active :: nat
  cs_complete :: nat
  cs_size :: nat
  cs_uptime :: int

definition cm_get_status :: "real \<Rightarrow> ctxman \<Rightarrow> ctx_status" where
  "cm_get_status now c = \<lparr>cs_goal = cm_goal c, cs_active = tasks_with ''active'' c,
     cs_complete = tasks_with ''complete'' c, cs_size = length (cm_window c),
     cs_uptime = trunc (now - cm_created c)\<rparr>"

section \<open>The bounded logs fulfil the contract\<close>

type_synonym ev_args = "real \<times> string \<times> string \<times> pyval \<times> string \<times> string"

definition ev_head :: "event \<Rightarrow> ev_args" where
  "ev_head e = (ev_time e, ev_id e, ev_type e, ev_data e, ev_sender e, ev_priority e)"

fun eb_push :: "ev_args \<Rightarrow> evbus \<Rightarrow> evbus" where
  "eb_push (now, uid, ty, data, sender, prio) b = eb_publish now uid ty data sender prio b"

interpretation eb: rolling_log eb_push "\<lambda>b. map ev_head (eb_log b)" MAX_LOG
proof
  show "0 < MAX_LOG" by (simp add: MAX_LOG_def)
  fix e s show "map ev_head (eb_log (eb_push e s)) = last_slice MAX_LOG (map ev_head (eb_log s) @ [e])"
    by (cases e) (simp add: eb_publish_def Let_def append_capped_eq MAX_LOG_def map_last_slice ev_head_def)
qed

interpretation sb: rolling_log "sb_add (Suc n)" "\<lambda>w. w" "Suc n" for n
  by unfold_locales (simp_all add: sb_add_def last_slice_def)

text \<open>The context window of a manager constructed with \<open>max_context = n + 1\<close>.\<close>

interpretation cm: rolling_log "\<lambda>e c. add_context e (c\<lparr>cm_max := Suc n\<rparr>)" cm_window "Suc n" for n
  by unfold_locales (simp_all add: add_context_def append_capped_eq)

section \<open>Runs of the message bus\<close>

datatype bus_op = Subscribe string | Publish real string pyval string | Receive string

fun bus_step :: "bus_op \<Rightarrow> msgbus \<times> (string \<times> bus_entry) list \<Rightarrow> msgbus \<times> (string \<times> bus_entry) list" where
  "bus_step (Subscribe i) (b, got) = (mb_subscribe i b, got)"
| "bus_step (Publish now to m sender) (b, got) = (snd (mb_publish now to m sender b), got)"
| "bus_step (Receive i) (b, got) = (case mb_receive i b of
      (None, b') \<Rightarrow> (b', got) | (Some e, b') \<Rightarrow> (b', got @ [(i, e)]))"

definition bus_inv :: "msgbus \<times> (string \<times> bus_entry) list \<Rightarrow> bool" where
  "bus_inv s = (\<forall>i. filter (\<lambda>e. be_to e = i) (mb_log (fst s)) =
     map snd (filter (\<lambda>p. fst p = i) (snd s)) @ dgetd (mb_queues (fst s)) i [])"

lemma bus_inv_step: "bus_inv s \<Longrightarrow> bus_inv (bus_step op s)"
  by (cases s; cases op)
    (auto simp: bus_inv_def mb_subscribe_def mb_publish_def mb_receive_def din_def Let_def
      dgetd_Some dgetd_None split: option.splits list.splits)

lemma bus_inv_run: "bus_inv s \<Longrightarrow> bus_inv (fold bus_step ops s)"
  by (induction ops arbitrary: s) (simp_all add: bus_inv_step)

section \<open>Runs of the event bus\<close>

datatype ev_op =
    EvSubscribe real string string nat "string option"
  | EvUnsubscribe string string
  | EvPublish ev_args

fun eb_step :: "ev_op \<Rightarrow> evbus \<Rightarrow> evbus" where
  "eb_step (EvSubscribe now uid ty cb agent) b = eb_subscribe now uid ty cb agent b"
| "eb_step (EvUnsubscribe ty aid) b = eb_unsubscribe ty aid b"
| "eb_step (EvPublish a) b = eb_push a b"

fun ev_emitted :: "ev_op \<Rightarrow> ev_args option" where
  "ev_emitted (EvPublish a) = Some a"
| "ev_emitted _ = None"

text \<open>The subscribers a publication of type \<open>ty\<close> reaches, in order.\<close>

definition ev_targets :: "string \<Rightarrow> evbus \<Rightarrow> subscriber list" where
  "ev_targets ty b = dgetd (eb_subs b) ty [] @ dgetd (eb_subs b) ''*'' []"

lemma eb_publish_last: "last (eb_log (eb_publish now uid ty data sender prio b)) =
    \<lparr>ev_id = uid, ev_type = ty, ev_data = data, ev_sender = sender, ev_priority = prio, ev_time = now,
     ev_delivered = map sub_agent (ev_targets ty b)\<rparr>"
  by (simp add: eb_publish_def ev_targets_def Let_def append_capped_eq MAX_LOG_def last_slice_def last_drop)

lemma eb_publish_runs: "eb_runs (eb_publish now uid ty data sender prio b) = eb_runs b @
    map (\<lambda>s. (sub_cb s, last (eb_log (eb_publish now uid ty data sender prio b)))) (ev_targets ty b)"
  unfolding eb_publish_last by (simp add: eb_publish_def ev_targets_def Let_def)

lemma eb_run_log:
  "map ev_head (eb_log (fold eb_step ops new_evbus)) = last_slice MAX_LOG (List.map_filter ev_emitted ops)"
proof -
  have "map ev_head (eb_log (eb_step op b)) = (case ev_emitted op of
      None \<Rightarrow> map ev_head (eb_log b) | Some e \<Rightarrow> map ev_head (eb_log (eb_push e b)))" for op b
    by (cases op) (simp_all add: eb_subscribe_def eb_unsubscribe_def Let_def)
  from eb.run_items[OF this, where s = new_evbus and ops = ops] show ?thesis by (simp add: new_evbus_def)
qed

section \<open>The statistics\<close>

definition numeric_values :: "string \<Rightarrow> pyobj list \<Rightarrow> real list" where
  "numeric_values k w = List.map_filter (\<lambda>r. Option.bind (dget r k) num_of) w"

lemma add_field_get:
  "dgetd (add_field (k', v) fs) k [] = dgetd fs k [] @ (if k' = k then case num_of v of None \<Rightarrow> [] | Some x \<Rightarrow> [x] else [])"
  by (auto simp: add_field_def split: option.splits)

lemma add_reading_get:
  "distinct (dkeys r) \<Longrightarrow> dgetd (fold add_field r fs) k [] =
    dgetd fs k [] @ (case Option.bind (dget r k) num_of of None \<Rightarrow> [] | Some x \<Rightarrow> [x])"
proof (induction r arbitrary: fs)
  case Nil
  then show ?case by simp
next
  case (Cons kv r)
  obtain k' v where kv: "kv = (k', v)" by (cases kv)
  have "dget r k' = None" using Cons.prems kv by (simp add: map_of_eq_None_iff)
  then show ?case using Cons kv by (cases "k' = k") (simp_all add: add_field_get)
qed

lemma field_values_get:
  assumes "list_all (\<lambda>r. distinct (dkeys r)) w"
  shows "dgetd (field_values w) k [] = numeric_values k w"
proof -
  have "dgetd (fold (\<lambda>r. fold add_field r) w fs) k [] = dgetd fs k [] @ numeric_values k w" for fs
    using assms
    by (induction w arbitrary: fs) (auto simp: numeric_values_def map_filter_def add_reading_get split: option.splits)
  then show ?thesis by (simp add: field_values_def dgetd_def)
qed

definition all_nonempty :: "(string, real list) pydict \<Rightarrow> bool" where
  "all_nonempty fs = (\<forall>k xs. dget fs k = Some xs \<longrightarrow> xs \<noteq> [])"

lemma add_field_nonempty: "all_nonempty fs \<Longrightarrow> all_nonempty (add_field kv fs)"
  by (auto simp: all_nonempty_def add_field_def split: option.splits)

lemma add_reading_nonempty: "all_nonempty fs \<Longrightarrow> all_nonempty (fold add_field r fs)"
  by (induction r arbitrary: fs) (simp_all add: add_field_nonempty)

lemma field_values_nonempty: "all_nonempty (field_values w)"
proof -
  have "all_nonempty fs \<Longrightarrow> all_nonempty (fold (\<lambda>r. fold add_field r) w fs)" for fs
    by (induction w arbitrary: fs) (simp_all add: add_reading_nonempty)
  moreover have "all_nonempty []" by (simp add: all_nonempty_def)
  ultimately show ?thesis by (simp add: field_values_def)
qed

text \<open>The mean of numbers lies between two bounds of them, and they deviate by less than the range.\<close>

lemma sum_list_bounds:
  fixes xs :: "real list"
  assumes "\<And>x. x \<in> set xs \<Longrightarrow> lo \<le> x \<and> x \<le> hi"
  shows "real (length xs) * lo \<le> sum_list xs \<and> sum_list xs \<le> real (length xs) * hi"
  using assms by (induction xs) (auto simp: algebra_simps add_mono)

lemma mean_of_bounds:
  assumes "xs \<noteq> []" and "\<And>x. x \<in> set xs \<Longrightarrow> lo \<le> x \<and> x \<le> hi"
  shows "lo \<le> mean_of xs \<and> mean_of xs \<le> hi"
proof -
  have "0 < real (length xs)" using assms(1) by simp
  moreover have "real (length xs) * lo \<le> sum_list xs" "sum_list xs \<le> real (length xs) * hi"
    using sum_list_bounds[of xs lo hi] assms(2) by blast+
  ultimately show ?thesis by (simp add: mean_of_def field_simps)
qed

lemma field_stats_bounds:
  assumes "xs \<noteq> []"
  defines "st \<equiv> field_stats xs"
  shows "st_min st \<le> st_mean st" "st_mean st \<le> st_max st" "0 \<le> st_std st" "st_std st \<le> st_max st - st_min st"
proof -
  let ?lo = "Min (set xs)" and ?hi = "Max (set xs)"
  have b: "\<And>x. x \<in> set xs \<Longrightarrow> ?lo \<le> x \<and> x \<le> ?hi" by simp
  have m: "?lo \<le> mean_of xs" "mean_of xs \<le> ?hi" using mean_of_bounds[OF assms(1) b] by blast+
  then show "st_min st \<le> st_mean st" "st_mean st \<le> st_max st"
    by (simp_all add: st_def field_stats_def Let_def)
  let ?sq = "map (\<lambda>v. (v - mean_of xs)\<^sup>2) xs"
  have sq: "0 \<le> y \<and> y \<le> (?hi - ?lo)\<^sup>2" if "y \<in> set ?sq" for y
  proof -
    from that obtain v where v: "v \<in> set xs" "y = (v - mean_of xs)\<^sup>2" by auto
    have "\<bar>v - mean_of xs\<bar> \<le> \<bar>?hi - ?lo\<bar>" using b[OF v(1)] m by (simp add: abs_le_iff)
    then show ?thesis using v(2) by (simp add: abs_le_square_iff)
  qed
  have var: "0 \<le> mean_of ?sq" "mean_of ?sq \<le> (?hi - ?lo)\<^sup>2"
    using mean_of_bounds[of ?sq 0 "(?hi - ?lo)\<^sup>2"] assms(1) sq by simp_all
  have "0 \<le> ?hi - ?lo" using m by linarith
  then have "sqrt (mean_of ?sq) \<le> ?hi - ?lo" using var(2) real_le_lsqrt by blast
  then show "0 \<le> st_std st" "st_std st \<le> st_max st - st_min st"
    using var(1) \<open>0 \<le> ?hi - ?lo\<close> by (simp_all add: st_def field_stats_def mean_of_def Let_def)
qed

section \<open>Runs of the context manager\<close>

datatype ctx_op =
    SetGoal real string
  | AddTask real string string string
  | CompleteTask real string pyobj

fun ctx_step :: "ctx_op \<Rightarrow> ctxman \<Rightarrow> ctxman" where
  "ctx_step (SetGoal now g) c = set_global_goal now g c"
| "ctx_step (AddTask now tid ty node) c = add_local_task now tid ty node c"
| "ctx_step (CompleteTask now tid res) c = complete_task now tid res c"

definition ctx_ok :: "nat \<Rightarrow> ctxman \<Rightarrow> bool" where
  "ctx_ok n c \<longleftrightarrow> cm_max c = n \<and> length (cm_window c) \<le> n \<and> distinct (dkeys (cm_tasks c)) \<and>
     (\<forall>t \<in> set (dvals (cm_tasks c)). ct_status t = ''active'' \<or> ct_status t = ''complete'')"

lemma dvals_dset: "set (dvals (dset k v d)) \<subseteq> insert v (set (dvals d))"
  by (induction d) auto

lemma ctx_ok_add: "0 < n \<Longrightarrow> ctx_ok n c \<Longrightarrow> ctx_ok n (add_context e c)"
  by (simp add: ctx_ok_def add_context_def append_capped_eq length_last_slice)

lemma ctx_ok_task:
  assumes "ctx_ok n c" and "ct_status t = ''active'' \<or> ct_status t = ''complete''"
  shows "ctx_ok n (c\<lparr>cm_tasks := dset i t (cm_tasks c)\<rparr>)"
proof -
  have "\<forall>u \<in> set (dvals (dset i t (cm_tasks c))). ct_status u = ''active'' \<or> ct_status u = ''complete''"
    using dvals_dset[of i t "cm_tasks c"] assms unfolding ctx_ok_def by blast
  with assms(1) show ?thesis by (simp add: ctx_ok_def dict_inv del: set_map)
qed

lemma ctx_ok_goal: "ctx_ok n c \<Longrightarrow> ctx_ok n (c\<lparr>cm_goal := g\<rparr>)"
  by (simp add: ctx_ok_def)

lemma ctx_ok_step: "0 < n \<Longrightarrow> ctx_ok n c \<Longrightarrow> ctx_ok n (ctx_step op c)"
  by (cases op) (simp_all add: set_global_goal_def add_local_task_def complete_task_def ctx_ok_add
      ctx_ok_task ctx_ok_goal Let_def split: option.splits)

lemma ctx_run_ok: "0 < n \<Longrightarrow> ctx_ok n c \<Longrightarrow> ctx_ok n (fold ctx_step ops c)"
  by (induction ops arbitrary: c) (simp_all add: ctx_ok_step)

lemma tasks_partition:
  assumes "ctx_ok n c"
  shows "tasks_with ''active'' c + tasks_with ''complete'' c = length (cm_tasks c)"
proof -
  have "(\<forall>t \<in> set ts. ct_status t = ''active'' \<or> ct_status t = ''complete'') \<Longrightarrow>
      length (filter (\<lambda>t. ct_status t = ''active'') ts) + length (filter (\<lambda>t. ct_status t = ''complete'') ts) =
      length ts" for ts :: "ctx_task list"
    by (induction ts) auto
  from this[of "dvals (cm_tasks c)"] show ?thesis using assms by (simp add: tasks_with_def ctx_ok_def)
qed

section \<open>Properties\<close>

text \<open>
  C5. The message bus is a FIFO channel per agent: after any interleaving of subscriptions,
  publications and receptions on a fresh bus, the messages ever accepted for an agent are
  exactly those it has received, in that order, followed by those waiting in its queue.
  Nothing is lost, duplicated, reordered or delivered to another agent.
\<close>
theorem message_bus_fifo:
  fixes ops :: "bus_op list"
  defines "s \<equiv> fold bus_step ops (new_bus, [])"
  shows "filter (\<lambda>e. be_to e = i) (mb_get_log (fst s)) =
    map snd (filter (\<lambda>p. fst p = i) (snd s)) @ dgetd (mb_queues (fst s)) i []"
proof -
  have "bus_inv (new_bus, [])" by (simp add: bus_inv_def new_bus_def dgetd_def)
  then have "bus_inv s" unfolding s_def by (rule bus_inv_run)
  then show ?thesis by (simp add: bus_inv_def mb_get_log_def)
qed

text \<open>
  \<open>EventBus.publish\<close> starts the callback of every subscriber of the event's type and
  of every subscriber of the wildcard type, in this order and once per subscription, with
  the event it has appended to the log; \<open>delivered_to\<close> lists their agent ids; an agent that
  has unsubscribed from the type gets the event only through the wildcard.
\<close>
theorem event_bus_delivery:
  fixes now uid ty data sender prio aid b
  defines "b' \<equiv> eb_publish now uid ty data sender prio b"
  defines "u' \<equiv> eb_publish now uid ty data sender prio (eb_unsubscribe ty aid b)"
  shows "eb_runs b' = eb_runs b @ map (\<lambda>s. (sub_cb s, last (eb_log b'))) (ev_targets ty b) \<and>
    ev_delivered (last (eb_log b')) = map sub_agent (ev_targets ty b) \<and>
    ev_head (last (eb_log b')) = (now, uid, ty, data, sender, prio) \<and>
    (aid \<in> set (ev_delivered (last (eb_log u'))) \<longleftrightarrow>
      ty \<noteq> ''*'' \<and> aid \<in> sub_agent ` set (dgetd (eb_subs b) ''*'' []))"
  unfolding b'_def u'_def eb_publish_runs eb_publish_last
  by (auto simp: ev_head_def ev_targets_def eb_unsubscribe_def)

text \<open>
  The event log of any run holds exactly the newest 1000 published events, in the order
  of their publication, whatever subscriptions come and go between.
\<close>
theorem event_log_newest:
  fixes ops :: "ev_op list"
  defines "b \<equiv> fold eb_step ops new_evbus"
  shows "map ev_head (eb_log b) = last_slice 1000 (List.map_filter ev_emitted ops) \<and>
    total_events (eb_get_stats now b) = min 1000 (length (List.map_filter ev_emitted ops))"
proof -
  have "length (map ev_head (eb_log b)) = min 1000 (length (List.map_filter ev_emitted ops))"
    unfolding b_def eb_run_log by (simp add: MAX_LOG_def length_last_slice)
  then have "length (eb_log b) = min 1000 (length (List.map_filter ev_emitted ops))"
    by (simp only: length_map)
  then show ?thesis using eb_run_log[of ops] by (simp add: b_def MAX_LOG_def eb_get_stats_def)
qed

text \<open>
  The statistics of the sliding window: a field appears exactly when some reading of the
  window has a number under that key; its count is the number of such readings, the mean
  lies between minimum and maximum, and the standard deviation is at most their difference.
\<close>
theorem stream_stats_bounds:
  assumes "list_all (\<lambda>r. distinct (dkeys r)) w" and "dget (sb_get_stats w) k = Some st"
  shows "st_count st = length (numeric_values k w) \<and> 0 < st_count st \<and>
    st_min st = Min (set (numeric_values k w)) \<and> st_max st = Max (set (numeric_values k w)) \<and>
    st_min st \<le> st_mean st \<and> st_mean st \<le> st_max st \<and> 0 \<le> st_std st \<and>
    st_std st \<le> st_max st - st_min st"
proof -
  have "dget (sb_get_stats w) k = map_option field_stats (dget (field_values w) k)"
    unfolding sb_get_stats_def by (induction "field_values w") (auto simp: map_of_map)
  then obtain xs where xs: "dget (field_values w) k = Some xs" "st = field_stats xs"
    using assms(2) by (cases "dget (field_values w) k") simp_all
  have ne: "xs \<noteq> []" using field_values_nonempty[of w] xs(1) by (auto simp: all_nonempty_def)
  have "xs = numeric_values k w" using field_values_get[OF assms(1), of k] xs(1) by (simp add: dgetd_def)
  with field_stats_bounds[OF ne] xs(2) ne show ?thesis by (simp add: field_stats_def Let_def)
qed

theorem stream_stats_bounds_witness:
  "\<exists>st. dget (sb_get_stats [[(''t'', PInt 20)], [(''t'', PFloat (45/2)), (''u'', PStr ''C'')]]) ''t'' = Some st \<and>
    st_std st \<le> st_max st - st_min st"
proof -
  let ?w = "[[(''t'', PInt 20)], [(''t'', PFloat (45/2)), (''u'', PStr ''C'')]]"
  have "dget (sb_get_stats ?w) ''t'' = Some (field_stats [20, 45/2])"
    by (simp add: sb_get_stats_def field_values_def add_field_def dgetd_def)
  moreover have "list_all (\<lambda>r. distinct (dkeys r)) ?w" by simp
  ultimately show ?thesis using stream_stats_bounds[of ?w "''t''"] by blast
qed

text \<open>
  A context manager with room for \<open>n > 0\<close> events never holds more, through any run;
  every task is active or complete and none is counted twice, so the two counts of
  \<open>get_status\<close> add up to the number of task ids ever added.
\<close>
theorem context_manager_ok:
  assumes "0 < n"
  shows "length (cm_window (fold ctx_step ops (new_ctx now n))) \<le> n \<and>
    cs_active (cm_get_status t (fold ctx_step ops (new_ctx now n))) +
      cs_complete (cm_get_status t (fold ctx_step ops (new_ctx now n))) =
    length (cm_tasks (fold ctx_step ops (new_ctx now n)))"
proof -
  have "ctx_ok n (new_ctx now n)" by (simp add: ctx_ok_def new_ctx_def)
  from ctx_run_ok[OF assms this, of ops] show ?thesis
    using tasks_partition by (simp add: ctx_ok_def cm_get_status_def)
qed

theorem context_manager_ok_witness:
  "length (cm_window (fold ctx_step [SetGoal 1 ''g'', AddTask 2 ''t1'' ''k'' ''n'', CompleteTask 3 ''t1'' []]
     (new_ctx 0 2))) \<le> 2"
  using context_manager_ok[of 2 "[SetGoal 1 ''g'', AddTask 2 ''t1'' ''k'' ''n'', CompleteTask 3 ''t1'' []]" 0] by simp

end
