(* ===== verification/Workers.thy ===== *)
theory Workers
  imports Streams
begin

text \<open>
  The analysis of a reading: \<open>ml/task_types.py\<close>, \<open>ml/task_workers.py\<close> (cleaning, anomaly
  detection, trend, history matching, the LLM action) and \<open>ml/model_hierarchy.py\<close>, with the
  roles and the benchmark score of a node from \<open>swarm/capability.py\<close> and
  \<open>swarm/benchmark.py\<close>.  A worker returns a \<open>TaskResult\<close> record whatever happens; \<open>node\<close> and
  \<open>ms\<close> are the host name and the measured duration, \<open>errstr\<close> is \<open>str\<close> of an exception,
  \<open>ask\<close> the LLM service.  Arithmetic is exact.
\<close>

section \<open>Task results\<close>

definition TASKS :: "string list" where
  "TASKS = [''clean'', ''anomaly'', ''trend'', ''history'', ''action'']"

record task_result =
  tr_type :: pyval
  tr_node :: pyval
  tr_result :: pyval
  tr_ms :: pyval
  tr_success :: pyval
  tr_error :: pyval

definition ok_result :: "string \<Rightarrow> string \<Rightarrow> real \<Rightarrow> pyobj \<Rightarrow> task_result" where
  "ok_result ty node ms r = \<lparr>tr_type = PStr ty, tr_node = PStr node, tr_result = PDict r, tr_ms = PFloat ms,
     tr_success = PBool True, tr_error = PNone\<rparr>"

definition err_result :: "string \<Rightarrow> string \<Rightarrow> real \<Rightarrow> pyobj \<Rightarrow> string \<Rightarrow> task_result" where
  "err_result ty node ms r err = \<lparr>tr_type = PStr ty, tr_node = PStr node, tr_result = PDict r, tr_ms = PFloat ms,
     tr_success = PBool False, tr_error = PStr err\<rparr>"

text \<open>Mean and standard deviation per numeric field, with the values.\<close>

definition tw_field_stats :: "pyobj list \<Rightarrow> (string, fstats \<times> real list) pydict" where
  "tw_field_stats w = map (\<lambda>(k, xs). (k, field_stats xs, xs)) (field_values w)"

section \<open>Clean\<close>

definition clean_value :: "fstats option \<Rightarrow> pyval \<Rightarrow> pyval" where
  "clean_value st v =
     (if v = PNone then (case st of Some f \<Rightarrow> PFloat (st_mean f) | None \<Rightarrow> PInt 0)
      else case num_of v of
        None \<Rightarrow> v
      | Some x \<Rightarrow>
          (case st of
             None \<Rightarrow> PFloat x
           | Some f \<Rightarrow>
               if st_std f > 0
               then PFloat (max (st_mean f - 3 * st_std f) (min (st_mean f + 3 * st_std f) x))
               else PFloat x))"

definition stats_of :: "pyobj list \<Rightarrow> string \<Rightarrow> fstats option" where
  "stats_of w k = map_option fst (dget (tw_field_stats w) k)"

definition run_clean :: "string \<Rightarrow> real \<Rightarrow> pyobj \<Rightarrow> pyobj list \<Rightarrow> task_result" where
  "run_clean node ms dat w =
     ok_result ''clean'' node ms (fold (\<lambda>(k, v) cleaned. dset k (clean_value (stats_of w k) v) cleaned) dat [])"

section \<open>Anomaly\<close>

definition severity_of :: "real \<Rightarrow> string" where
  "severity_of z = (if z > 4 then ''CRITICAL'' else if z > 3 then ''HIGH'' else ''MEDIUM'')"

definition anomaly_of :: "pyobj list \<Rightarrow> string \<times> pyval \<Rightarrow> pyobj option" where
  "anomaly_of w kv = (case (num_of (snd kv), stats_of w (fst kv)) of
       (Some x, Some f) \<Rightarrow>
         if st_std f = 0 then None
         else let z = \<bar>x - st_mean f\<bar> / st_std f in
           if z > 5/2 then Some [(''field'', PStr (fst kv)), (''value'', snd kv),
               (''expected'', PFloat (pyround (st_mean f) 3)), (''z_score'', PFloat (pyround z 3)),
               (''severity'', PStr (severity_of z))]
           else None
     | _ \<Rightarrow> None)"

definition run_anomaly :: "string \<Rightarrow> real \<Rightarrow> pyobj \<Rightarrow> pyobj list \<Rightarrow> task_result" where
  "run_anomaly node ms dat w =
     (let anomalies = List.map_filter (anomaly_of w) dat;
          n = length anomalies;
          status = (if n = 0 then ''OK''
                    else if list_ex (\<lambda>a. oget a ''severity'' = PStr ''CRITICAL'') anomalies then ''CRITICAL''
                    else ''WARNING'')
      in ok_result ''anomaly'' node ms [(''anomalies'', PList (map PDict anomalies)),
           (''anomaly_count'', PInt (int n)), (''status'', PStr status)])"

section \<open>Trend\<close>

definition linear_regression :: "real list \<Rightarrow> real \<times> real" where
  "linear_regression vs =
     (let n = length vs in
      if n < 2 then (0, if vs = [] then 0 else hd vs)
      else
        let xs = map real [0..<n]; sum_x = sum_list xs; sum_y = sum_list vs;
            sum_xy = sum_list (map (\<lambda>(x, y). x * y) (zip xs vs));
            sum_xx = sum_list (map (\<lambda>x. x * x) xs);
            denom = real n * sum_xx - sum_x\<^sup>2
        in if denom = 0 then (0, sum_y / real n)
           else let slope = (real n * sum_xy - sum_x * sum_y) / denom
                in (slope, (sum_y - slope * sum_x) / real n))"

definition direction_of :: "real \<Rightarrow> string" where
  "direction_of slope = (if \<bar>slope\<bar> < 5/100 then ''STABLE'' else if slope > 0 then ''RISING'' else ''FALLING'')"

definition trend_of :: "real list \<Rightarrow> pyobj" where
  "trend_of vs =
     (let (slope, intercept) = linear_regression vs
      in [(''slope'', PFloat (pyround slope 4)), (''direction'', PStr (direction_of slope)),
          (''predicted_next'', PFloat (pyround (intercept + slope * (real (length vs) + 10)) 3))])"

definition run_trend :: "string \<Rightarrow> real \<Rightarrow> pyobj \<Rightarrow> pyobj list \<Rightarrow> task_result" where
  "run_trend node ms dat w =
     ok_result ''trend'' node ms [(''trends'', PDict (map (\<lambda>(k, st, vs). (k, PDict (trend_of vs))) (tw_field_stats w)))]"

section \<open>History\<close>

definition common_keys :: "pyobj \<Rightarrow> pyobj \<Rightarrow> string list" where
  "common_keys a b = filter (\<lambda>k. Option.bind (dget b k) num_of \<noteq> None)
     (map fst (filter (\<lambda>(k, v). is_num v) a))"

definition num_at :: "pyobj \<Rightarrow> string \<Rightarrow> real" where
  "num_at d k = (case Option.bind (dget d k) num_of of Some x \<Rightarrow> x | None \<Rightarrow> 0)"

definition cosine_similarity :: "pyobj \<Rightarrow> pyobj \<Rightarrow> real" where
  "cosine_similarity a b =
     (let ks = common_keys a b in
      if ks = [] then 0
      else
        let dot = sum_list (map (\<lambda>k. num_at a k * num_at b k) ks);
            mag_a = sqrt (sum_list (map (\<lambda>k. (num_at a k)\<^sup>2) ks));
            mag_b = sqrt (sum_list (map (\<lambda>k. (num_at b k)\<^sup>2) ks))
        in if mag_a = 0 \<or> mag_b = 0 then 0 else dot / (mag_a * mag_b))"

record hist_entry =
  he_data :: pyval
  he_outcome :: pyval
  he_time :: pyval

text \<open>
  The usable rows: no JSON, or JSON that does not parse, is skipped; JSON that is no object
  makes the whole task fail.
\<close>

fun history_entries :: "(pyval \<Rightarrow> pyval result) \<Rightarrow> pyobj list \<Rightarrow> hist_entry list result" where
  "history_entries loads [] = Inr []"
| "history_entries loads (row # rows) =
     (let raw = oget row ''raw_json'' in
      if \<not> truthy raw then history_entries loads rows
      else case loads raw of
          Inl JSONDecodeError \<Rightarrow> history_entries loads rows
        | Inl TypeError \<Rightarrow> history_entries loads rows
        | Inl e \<Rightarrow> Inl e
        | Inr assembled \<Rightarrow>
            bindE (pget assembled ''clean_data'' (PDict [])) (\<lambda>sensor.
            bindE (history_entries loads rows) (\<lambda>es.
            Inr (\<lparr>he_data = sensor, he_outcome = dgetd row ''status'' (PStr ''''),
                  he_time = dgetd row ''timestamp'' (PStr '''')\<rparr> # es))))"

definition match_one :: "pyobj \<Rightarrow> hist_entry \<Rightarrow> real \<times> hist_entry option \<Rightarrow> (real \<times> hist_entry option) result" where
  "match_one dat e best = (case he_data e of
       PDict b \<Rightarrow> (let score = cosine_similarity dat b in
                   if score > fst best then Inr (score, Some e) else Inr best)
     | _ \<Rightarrow> Inl AttributeError)"

definition history_answer :: "(pyval \<Rightarrow> string) \<Rightarrow> real \<times> hist_entry option \<Rightarrow> pyobj result" where
  "history_answer tostr best =
     (let outcome = (case snd best of Some e \<Rightarrow> he_outcome e | None \<Rightarrow> PStr '''') in
      bindE (case snd best of Some e \<Rightarrow> py_prefix 10 (he_time e) | None \<Rightarrow> Inr (PStr '''')) (\<lambda>date.
      Inr [(''matched'', PBool (fst best > 1/2)), (''similarity'', PFloat (pyround (fst best) 4)),
           (''matched_date'', date), (''past_outcome'', outcome),
           (''recommendation'', PStr (if truthy outcome then ''Based on past outcome: '' @ py_str tostr outcome else ''''))]))"

definition run_history :: "(pyval \<Rightarrow> string) \<Rightarrow> (pyexc \<Rightarrow> string) \<Rightarrow> (pyval \<Rightarrow> pyval result) \<Rightarrow> string \<Rightarrow> real \<Rightarrow>
    pyobj list \<Rightarrow> pyobj \<Rightarrow> task_result" where
  "run_history tostr errstr loads node ms rows dat =
     (case bindE (history_entries loads rows) (\<lambda>es.
         if es = [] then Inr [(''matched'', PBool False)]
         else bindE (foldE (match_one dat) es (- 1, None)) (history_answer tostr)) of
        Inr r \<Rightarrow> ok_result ''history'' node ms r
      | Inl e \<Rightarrow> err_result ''history'' node ms [(''matched'', PBool False)] (errstr e))"

section \<open>Action\<close>

definition action_prompt :: "(pyval \<Rightarrow> string) \<Rightarrow> pyval \<Rightarrow> pyval \<Rightarrow> pyval \<Rightarrow> string \<Rightarrow> string" where
  "action_prompt dumps anomaly trend history ctx =
     ''You are a site monitoring AI.'' @ nl @
     ''Anomalies detected: '' @ dumps anomaly @ nl @
     ''Current trends: '' @ dumps trend @ nl @
     ''Historical match: '' @ dumps history @ nl @
     ''Context: '' @ ctx @ nl @ nl @
     ''Return ONLY JSON:'' @ nl @ ''{'' @ nl @
     ''  \"action\": \"specific action to take\",'' @ nl @
     ''  \"urgency\": \"LOW/MEDIUM/HIGH/CRITICAL\",'' @ nl @
     ''  \"reason\": \"one sentence explanation\",'' @ nl @
     ''  \"notify\": [\"list of who to notify\"]'' @ nl @ ''}''"

text \<open>The JSON object inside the text the LLM answers with.\<close>

definition llm_json :: "(string \<Rightarrow> pyval result) \<Rightarrow> pyval \<Rightarrow> pyval result" where
  "llm_json loads body =
     bindE (pget body ''response'' (PStr '''')) (\<lambda>v. case v of
       PStr s \<Rightarrow> (case brace_slice CHR ''{'' CHR ''}'' (py_strip s) of
                    None \<Rightarrow> Inr (PDict []) | Some t \<Rightarrow> loads t)
     | _ \<Rightarrow> Inl AttributeError)"

text \<open>The dash of the fallback text, in UTF-8.\<close>

abbreviation em_dash :: string where
  "em_dash \<equiv> [CHR 0xE2, CHR 0x80, CHR 0x94]"

definition action_fallback :: "string \<Rightarrow> pyobj" where
  "action_fallback err = [(''action'', PStr (''Manual review required '' @ em_dash @ '' LLM unavailable'')), (''urgency'', PStr ''MEDIUM''),
     (''reason'', PStr err), (''notify'', PList [PStr ''on-call''])]"

definition run_action :: "(pyval \<Rightarrow> string) \<Rightarrow> (string \<Rightarrow> pyval result) \<Rightarrow> (string \<Rightarrow> pyval result) \<Rightarrow> (pyexc \<Rightarrow> string) \<Rightarrow>
    string \<Rightarrow> real \<Rightarrow> pyval \<Rightarrow> pyval \<Rightarrow> pyval \<Rightarrow> string \<Rightarrow> task_result" where
  "run_action dumps loads ask errstr node ms anomaly trend history ctx =
     (case bindE (ask (action_prompt dumps anomaly trend history ctx)) (llm_json loads) of
        Inr r \<Rightarrow> (ok_result ''action'' node ms [])\<lparr>tr_result := r\<rparr>
      | Inl e \<Rightarrow> err_result ''action'' node ms (action_fallback (errstr e)) (errstr e))"

section \<open>The model hierarchy\<close>

definition task_tier :: "string \<Rightarrow> nat" where
  "task_tier t = (if t = ''clean'' \<or> t = ''anomaly'' then 1 else if t = ''trend'' \<or> t = ''history'' then 2 else 3)"

definition detect_level :: "real option \<Rightarrow> bool \<Rightarrow> nat" where
  "detect_level ram has_llm =
     (let r = (case ram of Some x \<Rightarrow> x | None \<Rightarrow> 1) in
      if has_llm \<and> r \<ge> 8 then 3 else if r \<ge> 4 then 2 else 1)"

definition can_handle :: "nat \<Rightarrow> string \<Rightarrow> bool" where
  "can_handle level t = (level \<ge> task_tier t)"

definition peer_fits :: "nat \<Rightarrow> pyobj \<Rightarrow> bool result" where
  "peer_fits required info =
     (let caps = dgetd info ''caps'' (PDict info) in
      bindE (pget caps ''benchmark'' (PDict [])) (\<lambda>bench.
      if required = 3 then bindE (pget bench ''llm_available'' PNone) (\<lambda>v. Inr (truthy v))
      else if required = 2 then bindE (bindE (pget bench ''composite'' (PInt 0)) to_num) (\<lambda>c. Inr (c > 20))
      else Inr False))"

fun first_fit :: "nat \<Rightarrow> (string, pyobj) pydict \<Rightarrow> string \<Rightarrow> string result" where
  "first_fit required [] me = Inr me"
| "first_fit required ((nid, info) # ns) me =
     bindE (peer_fits required info) (\<lambda>b. if b then Inr nid else first_fit required ns me)"

definition route_task :: "nat \<Rightarrow> string \<Rightarrow> string \<Rightarrow> (string, pyobj) pydict \<Rightarrow> string result" where
  "route_task level me t known =
     (if level \<ge> task_tier t then Inr me else first_fit (task_tier t) known me)"

definition threshold_check :: "real \<Rightarrow> real \<Rightarrow> real \<Rightarrow> pyobj" where
  "threshold_check v low high =
     (if v < low then [(''alert'', PBool True), (''direction'', PStr ''LOW''), (''deviation'', PFloat (low - v))]
      else if v > high then [(''alert'', PBool True), (''direction'', PStr ''HIGH''), (''deviation'', PFloat (v - high))]
      else [(''alert'', PBool False)])"

definition field_series :: "pyobj list \<Rightarrow> string \<Rightarrow> pyval list" where
  "field_series w f = map (\<lambda>r. dgetd r f (PInt 0)) (filter (\<lambda>r. oget r f \<noteq> PNone) w)"

definition moving_average :: "pyobj list \<Rightarrow> string \<Rightarrow> real result" where
  "moving_average w f = bindE (mapE to_num (field_series w f)) (\<lambda>vs. Inr (if vs = [] then 0 else mean_of vs))"

definition simple_anomaly :: "real \<Rightarrow> pyobj list \<Rightarrow> string \<Rightarrow> pyobj result" where
  "simple_anomaly v w f =
     (if length (field_series w f) < 3 then Inr [(''anomaly'', PBool False)]
      else bindE (mapE to_num (field_series w f)) (\<lambda>vs.
        let mean = mean_of vs; std = sqrt (mean_of (map (\<lambda>x. (x - mean)\<^sup>2) vs)) in
        if std = 0 then Inr [(''anomaly'', PBool False)]
        else let z = \<bar>v - mean\<bar> / std in
          Inr [(''anomaly'', PBool (z > 5/2)), (''z_score'', PFloat (pyround z 2)), (''mean'', PFloat (pyround mean 2)),
               (''std'', PFloat (pyround std 2)),
               (''severity'', PStr (if z > 3 then ''HIGH'' else if z > 5/2 then ''MEDIUM'' else ''LOW''))]))"

definition dft_magnitude :: "real list \<Rightarrow> nat \<Rightarrow> real" where
  "dft_magnitude vs k =
     (let n = length vs;
          angle = (\<lambda>t. 2 * pi * real k * real t / real n);
          re = sum_list (map (\<lambda>t. vs ! t * cos (angle t)) [0..<n]);
          im = - sum_list (map (\<lambda>t. vs ! t * sin (angle t)) [0..<n])
      in sqrt (re\<^sup>2 + im\<^sup>2) / real n)"

definition fft_peak_detect :: "real list \<Rightarrow> pyobj" where
  "fft_peak_detect vs =
     (let n = length vs in
      if n < 8 then [(''peaks'', PList []), (''dominant_freq'', PInt 0), (''periodic'', PBool False)]
      else
        let freqs = sort_key_desc snd (map (\<lambda>k. (k, pyround (dft_magnitude vs k) 4)) [0..<n div 2])
        in [(''dominant_freq'', PInt (if freqs = [] then 0 else int (fst (hd freqs)))),
            (''top_3'', PList (map (\<lambda>(k, m). PDict [(''freq'', PInt (int k)), (''magnitude'', PFloat m)]) (take 3 freqs))),
            (''periodic'', PBool (freqs \<noteq> [] \<and> snd (hd freqs) > 3/10))])"

section \<open>Roles and benchmark score of a node\<close>

definition node_roles :: "real \<Rightarrow> bool \<Rightarrow> bool \<Rightarrow> bool \<Rightarrow> string list" where
  "node_roles ram ollama mobile gpu =
     (if ram \<ge> 8 then [''brain'', ''worker''] else if ram \<ge> 4 then [''worker''] else [''sensor'']) @
     (if ollama then [''inference''] else []) @ (if mobile then [''mobile''] else []) @ (if gpu then [''gpu''] else [])"

record bench =
  bn_cpu :: real
  bn_mem :: real
  bn_disk :: real
  bn_tps :: real
  bn_latency :: real

definition bench_score :: "real \<Rightarrow> real \<Rightarrow> real" where
  "bench_score factor elapsed = pyround (max 0 (100 - elapsed * factor)) 2"

definition composite_score :: "bench \<Rightarrow> real" where
  "composite_score r = pyround (bn_cpu r * (30/100) + bn_mem r * (20/100) + bn_disk r * (10/100)
     + min (bn_tps r * 5) 100 * (35/100) + max 0 (100 - bn_latency r) * (5/100)) 2"

text \<open>The cache, when the file exists and is JSON: empty when older than an hour.\<close>

definition cached_bench :: "real \<Rightarrow> pyobj option \<Rightarrow> pyobj" where
  "cached_bench now file = (case file of
       None \<Rightarrow> []
     | Some d \<Rightarrow> (case to_num (dgetd d ''timestamp'' (PInt 0)) of
          Inl e \<Rightarrow> [] | Inr t \<Rightarrow> if now - t > 3600 then [] else d))"

section \<open>The least squares line\<close>

definition sq_error :: "real list \<Rightarrow> real \<times> real \<Rightarrow> real" where
  "sq_error vs l = (\<Sum>i<length vs. (vs ! i - (snd l + fst l * real i))\<^sup>2)"

lemma sum_list_upt: "sum_list (map f [0..<n]) = (\<Sum>i<n. f i)"
  by (simp add: interv_sum_list_conv_sum_set_nat lessThan_atLeast0)

lemma sum_list_nth: "sum_list vs = (\<Sum>i<length vs. vs ! i)"
  by (simp add: sum_list_sum_nth lessThan_atLeast0)

lemma sum_list_zip_upt: "sum_list (map (\<lambda>(x, y). x * y) (zip (map real [0..<length vs]) vs)) = (\<Sum>i<length vs. real i * vs ! i)"
  by (simp add: sum_list_sum_nth lessThan_atLeast0)

lemma sums_closed:
  "(\<Sum>i<n. real i) = real n * (real n - 1) / 2"
  "(\<Sum>i<n. real i * real i) = real n * (real n - 1) * (2 * real n - 1) / 6"
  by (induction n) (simp_all add: field_simps)

lemma denom_pos:
  assumes "2 \<le> n"
  shows "0 < real n * (\<Sum>i<n. real i * real i) - (\<Sum>i<n. real i)\<^sup>2"
proof -
  have e: "real n * (\<Sum>i<n. real i * real i) - (\<Sum>i<n. real i)\<^sup>2 = (real n)\<^sup>2 * ((real n)\<^sup>2 - 1) / 12"
    unfolding sums_closed by (simp add: field_simps power2_eq_square)
  have "2 * 2 \<le> real n * real n" using assms by (intro mult_mono) auto
  then have "1 < (real n)\<^sup>2" by (simp add: power2_eq_square)
  then have "0 < (real n)\<^sup>2 * ((real n)\<^sup>2 - 1)" using assms by (intro mult_pos_pos) simp_all
  then show ?thesis unfolding e by simp
qed

text \<open>The line of the program solves the normal equations.\<close>

lemma regression_normal:
  assumes "2 \<le> length vs" and "linear_regression vs = (s, c)"
  shows "(\<Sum>i<length vs. vs ! i) = s * (\<Sum>i<length vs. real i) + c * real (length vs)"
    and "(\<Sum>i<length vs. real i * vs ! i) = s * (\<Sum>i<length vs. real i * real i) + c * (\<Sum>i<length vs. real i)"
proof -
  let ?n = "real (length vs)" and ?x = "\<Sum>i<length vs. real i" and ?y = "\<Sum>i<length vs. vs ! i"
    and ?xy = "\<Sum>i<length vs. real i * vs ! i" and ?xx = "\<Sum>i<length vs. real i * real i"
  have d: "?n * ?xx - ?x\<^sup>2 \<noteq> 0" using denom_pos[OF assms(1)] by simp
  have n: "?n \<noteq> 0" using assms(1) by (cases vs) simp_all
  have "s = (?n * ?xy - ?x * ?y) / (?n * ?xx - ?x\<^sup>2) \<and> c = (?y - s * ?x) / ?n"
    using assms d by (auto simp: linear_regression_def Let_def sum_list_upt sum_list_zip_upt comp_def
        sum_list_nth[of vs] not_less del: of_nat_sum split: if_splits)
  then have sc: "s * (?n * ?xx - ?x\<^sup>2) = ?n * ?xy - ?x * ?y" "c * ?n = ?y - s * ?x"
    using d n by simp_all
  then show "?y = s * ?x + c * ?n" by simp
  have "?n * (s * ?xx + c * ?x) = s * (?n * ?xx - ?x\<^sup>2) + ?x * (c * ?n + s * ?x)"
    by (simp add: algebra_simps power2_eq_square)
  also have "\<dots> = ?n * ?xy" unfolding sc by simp
  finally have "?n * (s * ?xx + c * ?x) = ?n * ?xy" .
  then show "?xy = s * ?xx + c * ?x" using n by simp
qed

lemma sq_error_diff:
  assumes "2 \<le> length vs" and "linear_regression vs = (s, c)"
  shows "sq_error vs (a, b) = sq_error vs (s, c) + (\<Sum>i<length vs. ((a - s) * real i + (b - c))\<^sup>2)"
proof -
  note nrm = regression_normal[OF assms]
  let ?r = "\<lambda>i. vs ! i - (c + s * real i)"
  have 0: "(\<Sum>i<length vs. ?r i) = 0" "(\<Sum>i<length vs. real i * ?r i) = 0"
    using nrm by (simp_all add: algebra_simps sum_subtractf sum.distrib sum_distrib_left)
  have e: "(vs ! i - (b + a * real i))\<^sup>2 = (?r i)\<^sup>2 + ((a - s) * real i + (b - c))\<^sup>2
      - 2 * (a - s) * (real i * ?r i) - 2 * (b - c) * ?r i" for i
    by (simp add: power2_eq_square algebra_simps)
  have "sq_error vs (a, b) = sq_error vs (s, c) + (\<Sum>i<length vs. ((a - s) * real i + (b - c))\<^sup>2)
      - 2 * (a - s) * (\<Sum>i<length vs. real i * ?r i) - 2 * (b - c) * (\<Sum>i<length vs. ?r i)"
    unfolding sq_error_def fst_conv snd_conv e sum_subtractf sum.distrib sum_distrib_left[symmetric] ..
  then show ?thesis unfolding 0 by simp
qed

section \<open>Cleaning and anomalies\<close>

lemma stats_of_eq:
  assumes "list_all (\<lambda>r. distinct (dkeys r)) w"
  shows "stats_of w k = (if numeric_values k w = [] then None else Some (field_stats (numeric_values k w)))"
proof -
  have m: "dget (tw_field_stats w) k = map_option (\<lambda>xs. (field_stats xs, xs)) (dget (field_values w) k)"
  proof -
    have "dget (map (\<lambda>(k, xs). (k, field_stats xs, xs)) d) k = map_option (\<lambda>xs. (field_stats xs, xs)) (dget d k)" for d
      by (induction d) auto
    then show ?thesis by (simp add: tw_field_stats_def)
  qed
  show ?thesis
  proof (cases "dget (field_values w) k")
    case None
    with field_values_get[OF assms, of k] m show ?thesis by (simp add: stats_of_def dgetd_def)
  next
    case (Some xs)
    with field_values_nonempty[of w] have "xs \<noteq> []" by (auto simp: all_nonempty_def)
    with field_values_get[OF assms, of k] m Some show ?thesis by (simp add: stats_of_def dgetd_def)
  qed
qed

lemma fold_dset_distinct:
  "distinct (map fst d) \<Longrightarrow> set (map fst d) \<inter> set (dkeys acc) = {} \<Longrightarrow>
    fold (\<lambda>(k, v) c. dset k (g k v) c) d acc = acc @ map (\<lambda>(k, v). (k, g k v)) d"
proof (induction d arbitrary: acc)
  case Nil
  then show ?case by simp
next
  case (Cons kv d)
  obtain k v where kv: "kv = (k, v)" by (cases kv)
  have "dset k x acc = acc @ [(k, x)]" for x
  proof -
    have "k \<notin> set (dkeys acc)" using Cons.prems kv by auto
    then show ?thesis by (induction acc) auto
  qed
  moreover have "set (map fst d) \<inter> set (dkeys (acc @ [(k, g k v)])) = {}" "distinct (map fst d)"
    using Cons.prems kv by auto
  note Cons.IH[OF this(2,1)]
  ultimately show ?case using kv by simp
qed

lemma run_clean_eq:
  assumes "distinct (dkeys dat)"
  shows "run_clean node ms dat w = ok_result ''clean'' node ms (map (\<lambda>(k, v). (k, clean_value (stats_of w k) v)) dat)"
  using fold_dset_distinct[of dat "[]" "\<lambda>k. clean_value (stats_of w k)"] assms
  by (simp add: run_clean_def)

text \<open>How many standard deviations a value is away from the mean of its field.\<close>

definition zscore :: "pyobj list \<Rightarrow> string \<Rightarrow> pyval \<Rightarrow> real option" where
  "zscore w k v = (let vs = numeric_values k w; f = field_stats vs in
     case num_of v of
       Some x \<Rightarrow> if vs = [] \<or> st_std f = 0 then None else Some (\<bar>x - st_mean f\<bar> / st_std f)
     | None \<Rightarrow> None)"

definition beyond :: "real \<Rightarrow> pyobj list \<Rightarrow> string \<times> pyval \<Rightarrow> bool" where
  "beyond c w kv = (case zscore w (fst kv) (snd kv) of Some z \<Rightarrow> z > c | None \<Rightarrow> False)"

lemma beyond_mono: "beyond c w kv \<Longrightarrow> d \<le> c \<Longrightarrow> beyond d w kv"
  by (auto simp: beyond_def split: option.splits)

lemma anomaly_of_iff:
  assumes "list_all (\<lambda>r. distinct (dkeys r)) w"
  shows "(anomaly_of w kv \<noteq> None) = beyond (5/2) w kv"
    and "anomaly_of w kv = Some a \<Longrightarrow> oget a ''field'' = PStr (fst kv) \<and>
      (oget a ''severity'' = PStr ''CRITICAL'') = beyond 4 w kv \<and>
      (oget a ''severity'' = PStr ''MEDIUM'') = (\<not> beyond 3 w kv)"
  by (auto simp: anomaly_of_def beyond_def zscore_def stats_of_eq[OF assms] Let_def oget_def dgetd_def
      severity_of_def split: option.splits if_splits)

lemma anomalies_of:
  assumes "list_all (\<lambda>r. distinct (dkeys r)) w"
  shows "map (\<lambda>a. oget a ''field'') (List.map_filter (anomaly_of w) dat) =
      map (\<lambda>kv. PStr (fst kv)) (filter (beyond (5/2) w) dat)"
    and "list_ex (\<lambda>a. oget a ''severity'' = PStr ''CRITICAL'') (List.map_filter (anomaly_of w) dat) =
      list_ex (beyond 4 w) dat"
proof -
  show "map (\<lambda>a. oget a ''field'') (List.map_filter (anomaly_of w) dat) =
      map (\<lambda>kv. PStr (fst kv)) (filter (beyond (5/2) w) dat)"
    using anomaly_of_iff(2)[OF assms] anomaly_of_iff(1)[OF assms, symmetric]
    by (induction dat) (auto simp: map_filter_simps split: option.split)
  have "\<not> beyond 4 w kv" if "anomaly_of w kv = None" for kv
    using that anomaly_of_iff(1)[OF assms, of kv] beyond_mono[of 4 w kv "5/2"] by auto
  then show "list_ex (\<lambda>a. oget a ''severity'' = PStr ''CRITICAL'') (List.map_filter (anomaly_of w) dat) =
      list_ex (beyond 4 w) dat"
    using anomaly_of_iff(2)[OF assms]
    by (induction dat) (auto simp: map_filter_simps split: option.split)
qed

text \<open>A cleaned value lies within three standard deviations.\<close>

lemma clip_within: "0 < s \<Longrightarrow> \<bar>max (m - 3 * s) (min (m + 3 * s) x) - m\<bar> \<le> 3 * (s :: real)"
  by (auto simp: max_def min_def abs_le_iff)

lemma clip_id: "\<bar>x - m\<bar> \<le> 3 * s \<Longrightarrow> max (m - 3 * s) (min (m + 3 * s) x) = (x :: real)"
  by (auto simp: max_def min_def abs_le_iff)

lemma field_std_nonneg: "xs \<noteq> [] \<Longrightarrow> 0 \<le> st_std (field_stats xs)"
  by (rule field_stats_bounds(3))

lemma cleaned_not_beyond:
  assumes "list_all (\<lambda>r. distinct (dkeys r)) w"
  shows "\<not> beyond 3 w (k, clean_value (stats_of w k) v)"
proof (cases "numeric_values k w = []")
  case True
  then show ?thesis by (simp add: beyond_def zscore_def Let_def split: option.split)
next
  case False
  let ?f = "field_stats (numeric_values k w)"
  from False have s: "stats_of w k = Some ?f" using stats_of_eq[OF assms] by simp
  have "\<bar>y - st_mean ?f\<bar> \<le> 3 * st_std ?f"
    if "num_of (clean_value (Some ?f) v) = Some y" "st_std ?f \<noteq> 0" for y
    using that field_std_nonneg[OF False] clip_within[of "st_std ?f" "st_mean ?f"]
    by (auto simp: clean_value_def split: if_splits option.splits)
  then show ?thesis using False field_std_nonneg[OF False]
    by (auto simp: s beyond_def zscore_def Let_def divide_le_eq not_less split: option.split)
qed

section \<open>Properties\<close>

text \<open>
  Cleaning keeps the fields of a reading and repairs their values: \<open>None\<close> becomes the mean
  the window has for the field (0 when it has none), a value that is no number is left alone, and
  a number ends within three standard deviations of the mean, unchanged when it was there already
  or the window gives no spread.
\<close>
theorem run_clean_spec:
  fixes dat :: pyobj and w :: "pyobj list"
  assumes "distinct (dkeys dat)" and "list_all (\<lambda>r. distinct (dkeys r)) w" and "dget dat k = Some v"
  defines "vs \<equiv> numeric_values k w"
  defines "m \<equiv> mean_of vs" and "s \<equiv> st_std (field_stats vs)"
  shows "\<exists>r c. tr_result (run_clean node ms dat w) = PDict r \<and> dkeys r = dkeys dat \<and> dget r k = Some c \<and>
    (v = PNone \<longrightarrow> c = (if vs = [] then PInt 0 else PFloat m)) \<and>
    (v \<noteq> PNone \<longrightarrow> num_of v = None \<longrightarrow> c = v) \<and>
    (\<forall>x. num_of v = Some x \<longrightarrow> (\<exists>y. c = PFloat y \<and>
       (vs \<noteq> [] \<and> s \<noteq> 0 \<longrightarrow> \<bar>y - m\<bar> \<le> 3 * s) \<and> (vs = [] \<or> s = 0 \<or> \<bar>x - m\<bar> \<le> 3 * s \<longrightarrow> y = x)))"
proof -
  let ?c = "clean_value (stats_of w k) v"
  have m: "st_mean (field_stats vs) = m" by (simp add: field_stats_def m_def Let_def)
  have st: "stats_of w k = (if vs = [] then None else Some (field_stats vs))"
    unfolding vs_def by (rule stats_of_eq[OF assms(2)])
  have s0: "vs \<noteq> [] \<Longrightarrow> 0 \<le> s" unfolding s_def by (rule field_std_nonneg)
  have "dget (map (\<lambda>(k, v). (k, clean_value (stats_of w k) v)) dat) k = Some ?c"
    using assms(3) by (induction dat) (auto split: if_splits)
  moreover have "\<exists>y. ?c = PFloat y \<and> (vs \<noteq> [] \<and> s \<noteq> 0 \<longrightarrow> \<bar>y - m\<bar> \<le> 3 * s) \<and>
      (vs = [] \<or> s = 0 \<or> \<bar>x - m\<bar> \<le> 3 * s \<longrightarrow> y = x)" if "num_of v = Some x" for x
    using that s0 clip_within[of s m x] clip_id[of x m s]
    by (cases "vs = []"; cases "v = PNone") (auto simp: st clean_value_def m s_def[symmetric])
  ultimately show ?thesis
    by (intro exI[of _ "map (\<lambda>(k, v). (k, clean_value (stats_of w k) v)) dat"] exI[of _ ?c])
      (auto simp: run_clean_eq[OF assms(1)] ok_result_def st clean_value_def m)
qed

lemma run_clean_spec_witness:
  "\<exists>r c. tr_result (run_clean ''n'' 0 [(''t'', PNone)] [[(''t'', PInt 4)]]) = PDict r \<and> dget r ''t'' = Some c \<and> c = PFloat 4"
  using run_clean_spec[of "[(''t'', PNone)]" "[[(''t'', PInt 4)]]" "''t''" PNone "''n''" 0]
  by (auto simp: numeric_values_def map_filter_def mean_of_def)

text \<open>
  The anomaly task reports exactly the numeric fields more than 2.5 standard deviations from
  the mean of the window, in the order of the reading, counts them, and answers \<open>OK\<close> when there is
  none, \<open>CRITICAL\<close> when some field is beyond 4 standard deviations, \<open>WARNING\<close> otherwise.
\<close>
theorem run_anomaly_spec:
  assumes "list_all (\<lambda>r. distinct (dkeys r)) w"
  shows "\<exists>as. tr_result (run_anomaly node ms dat w) = PDict [(''anomalies'', PList (map PDict as)),
      (''anomaly_count'', PInt (int (length (filter (beyond (5/2) w) dat)))),
      (''status'', PStr (if filter (beyond (5/2) w) dat = [] then ''OK''
         else if list_ex (beyond 4 w) dat then ''CRITICAL'' else ''WARNING''))] \<and>
    map (\<lambda>a. oget a ''field'') as = map (\<lambda>kv. PStr (fst kv)) (filter (beyond (5/2) w) dat)"
proof -
  let ?as = "List.map_filter (anomaly_of w) dat"
  note m = anomalies_of[OF assms, where dat = dat]
  have "length ?as = length (filter (beyond (5/2) w) dat)" using arg_cong[OF m(1), of length] by simp
  moreover from this have "?as = [] \<longleftrightarrow> filter (beyond (5/2) w) dat = []" by (metis length_0_conv)
  ultimately show ?thesis by (intro exI[of _ ?as]) (simp add: m run_anomaly_def ok_result_def Let_def)
qed

lemma run_anomaly_spec_witness:
  "\<exists>as. tr_result (run_anomaly ''n'' 0 [(''t'', PStr ''x'')] [[(''t'', PInt 4)]]) = PDict [(''anomalies'', PList (map PDict as)),
      (''anomaly_count'', PInt 0), (''status'', PStr ''OK'')]"
  using run_anomaly_spec[of "[[(''t'', PInt 4)]]" "''n''" 0 "[(''t'', PStr ''x'')]"]
  by (auto simp: beyond_def zscore_def Let_def)

text \<open>
  Cleaning hides anomalies: on a cleaned reading the anomaly task (same window) never answers
  \<open>CRITICAL\<close>, and no anomaly it reports is more severe than \<open>MEDIUM\<close>.
\<close>
theorem clean_then_anomaly:
  fixes dat r :: pyobj
  assumes "distinct (dkeys dat)" and "list_all (\<lambda>r. distinct (dkeys r)) w"
    and "tr_result (run_clean node ms dat w) = PDict r" and "tr_result (run_anomaly node ms' r w) = PDict out"
  shows "oget out ''status'' \<noteq> PStr ''CRITICAL'' \<and>
    (\<forall>a. anomaly_of w kv = Some a \<and> kv \<in> set r \<longrightarrow> oget a ''severity'' = PStr ''MEDIUM'')"
proof -
  have r: "r = map (\<lambda>(k, v). (k, clean_value (stats_of w k) v)) dat"
    using assms(3) by (simp add: run_clean_eq[OF assms(1)] ok_result_def)
  have nb: "\<not> beyond 3 w kv" if "kv \<in> set r" for kv
    using that cleaned_not_beyond[OF assms(2)] unfolding r by auto
  then have "\<not> list_ex (beyond 4 w) r" using beyond_mono[of 4 w _ 3] by (auto simp: list_ex_iff)
  then have "\<not> list_ex (\<lambda>a. oget a ''severity'' = PStr ''CRITICAL'') (List.map_filter (anomaly_of w) r)"
    using anomalies_of(2)[OF assms(2)] by simp
  moreover have "oget [(''anomalies'', x), (''anomaly_count'', y), (''status'', z)] ''status'' = z" for x y z
    by (simp add: oget_def dgetd_def)
  ultimately have "oget out ''status'' \<noteq> PStr ''CRITICAL''"
    using assms(4) by (auto simp: run_anomaly_def ok_result_def Let_def split: if_split_asm)
  then show ?thesis using nb anomaly_of_iff(2)[OF assms(2)] by blast
qed

lemma clean_then_anomaly_witness:
  "oget [(''anomalies'', PList []), (''anomaly_count'', PInt 0), (''status'', PStr ''OK'')] ''status'' \<noteq> PStr ''CRITICAL''"
  using clean_then_anomaly[of "[(''t'', PStr ''x'')]" "[]" "''n''" 0 "[(''t'', PStr ''x'')]" 0
    "[(''anomalies'', PList []), (''anomaly_count'', PInt 0), (''status'', PStr ''OK'')]"]
  by (simp add: run_clean_def run_anomaly_def ok_result_def clean_value_def anomaly_of_def map_filter_simps)

text \<open>
  The trend line is the least squares line: no other slope and intercept has a smaller sum of
  squared errors over the readings, and every other one is worse by the squared distance of the lines.
\<close>
theorem linear_regression_least_squares:
  assumes "2 \<le> length vs"
  shows "sq_error vs (a, b) = sq_error vs (linear_regression vs) +
    (\<Sum>i<length vs. ((a - fst (linear_regression vs)) * real i + (b - snd (linear_regression vs)))\<^sup>2)"
  by (rule sq_error_diff[OF assms prod.collapse[symmetric], simplified])

lemma linear_regression_least_squares_witness:
  "sq_error [1, 3] (0, 0) = sq_error [1, 3] (linear_regression [1, 3]) +
    (\<Sum>i<2. ((0 - fst (linear_regression [1, 3])) * real i + (0 - snd (linear_regression [1, 3])))\<^sup>2)"
  using linear_regression_least_squares[of "[1, 3]" 0 0] by (simp only: list.size) (simp add: numeral_2_eq_2)

end
