(* ===== verification/Intent.thy ===== *)
theory Intent
  imports Workers
begin

text \<open>
  From a user's sentence to an intent and from a result to a plan of actions: the keyword parser and
  the cached LLM parser (\<open>core/intent_parser.py\<close>), \<open>core/action_planner.py\<close> and
  \<open>core/decision_agent.py\<close>.  Texts are ASCII for \<open>lower\<close> and \<open>split\<close>.  The LLM is an argument:
  \<open>ask\<close> gives the decoded body of its answer or the exception, \<open>loads\<close> is \<open>json.loads\<close>.
\<close>

section \<open>Strings\<close>

definition lower_char :: "char \<Rightarrow> char" where
  "lower_char c = (let n = of_char c :: nat in if 65 \<le> n \<and> n \<le> 90 then char_of (n + 32) else c)"

definition py_lower :: "string \<Rightarrow> string" where
  "py_lower s = map lower_char s"

fun split_on :: "(char \<Rightarrow> bool) \<Rightarrow> string \<Rightarrow> string list" where
  "split_on P [] = [[]]"
| "split_on P (c # cs) =
     (if P c then [] # split_on P cs
      else (case split_on P cs of [] \<Rightarrow> [[c]] | w # ws \<Rightarrow> (c # w) # ws))"

text \<open>\<open>s.split()\<close>: the maximal runs without white space.\<close>

definition py_split :: "string \<Rightarrow> string list" where
  "py_split s = filter (\<lambda>w. w \<noteq> []) (split_on is_space s)"

text \<open>\<open>s.split(sep)\<close> for a nonempty separator.\<close>

function split_str :: "string \<Rightarrow> string \<Rightarrow> string list" where
  "split_str sep s =
     (if s = [] \<or> sep = [] then [s]
      else if take (length sep) s = sep then [] # split_str sep (drop (length sep) s)
      else (case split_str sep (tl s) of [] \<Rightarrow> [s] | w # ws \<Rightarrow> (hd s # w) # ws))"
  by pat_completeness auto
termination
  by (relation "measure (\<lambda>(sep, s). length s)") auto

declare split_str.simps [simp del]

fun join_with :: "string \<Rightarrow> string list \<Rightarrow> string" where
  "join_with sep [] = []"
| "join_with sep [w] = w"
| "join_with sep (w # ws) = w @ sep @ join_with sep ws"

section \<open>The keyword parser\<close>

definition ALL_SENSORS :: "string list" where
  "ALL_SENSORS = [''attendance'', ''temperature'', ''materials'']"

definition KEYWORDS :: "(string, string list) pydict" where
  "KEYWORDS =
     [(''attendance'', [''attendance'', ''headcount'', ''people'', ''workers'', ''staff'']),
      (''temperature'', [''temperature'', ''temp'', ''heat'', ''celsius'', ''humidity'']),
      (''materials'', [''materials'', ''inventory'', ''stock'', ''items'', ''supplies''])]"

definition URGENT :: "string list" where
  "URGENT = [''urgent'', ''critical'', ''now'', ''immediately'']"

definition any_in :: "string list \<Rightarrow> string \<Rightarrow> bool" where
  "any_in ws t = list_ex (\<lambda>w. substring w t) ws"

definition matched_sensors :: "string \<Rightarrow> string list" where
  "matched_sensors t =
     (if ''all'' \<in> set (py_split t) then ALL_SENSORS
      else map fst (filter (\<lambda>(s, kws). any_in kws t) KEYWORDS))"

definition parse_intent :: "string \<Rightarrow> pyobj" where
  "parse_intent user_text =
     (let t = py_lower user_text; ds = matched_sensors t in
      [(''goal'', PStr ''site_check''),
       (''data_required'', PList (map PStr (if ds \<noteq> [] then ds else ALL_SENSORS))),
       (''priority'', PStr (if any_in URGENT t then ''high'' else ''normal'')),
       (''auto_spawn'', PBool True)])"

section \<open>The LLM parser and its cache\<close>

definition CACHE_TTL :: real where "CACHE_TTL = 60"

definition cache_key :: "string \<Rightarrow> string" where
  "cache_key user_text = join_with '' '' (py_split (py_lower user_text))"

definition fence :: string where "fence = replicate 3 (CHR 0x60)"

text \<open>The text of the answer with its fences stripped.\<close>

definition strip_fences :: "string \<Rightarrow> string" where
  "strip_fences c =
     (if take 3 c = fence then
        (case split_str fence c of
           _ # p # _ \<Rightarrow> py_strip (dropWhile (\<lambda>x. x \<in> set ''json'') p)
         | _ \<Rightarrow> c)
      else c)"

definition llm_intent :: "(string \<Rightarrow> pyval result) \<Rightarrow> pyval \<Rightarrow> pyval result" where
  "llm_intent loads body =
     bindE (pindex body ''message'') (\<lambda>m. bindE (pindex m ''content'') (\<lambda>v. case v of
       PStr s \<Rightarrow>
         (let c = strip_fences (py_strip s) in
          if CHR ''{'' \<notin> set c \<or> CHR ''}'' \<notin> set c then Inl (ValueError ''No JSON object found in LLM response'')
          else (case brace_slice CHR ''{'' CHR ''}'' c of Some t \<Rightarrow> loads t | None \<Rightarrow> Inl (ValueError c)))
     | _ \<Rightarrow> Inl AttributeError))"

type_synonym intent_cache = "(string, pyval \<times> real) pydict"

text \<open>\<open>now\<close> is the clock at the lookup, \<open>later\<close> when the answer is stored.\<close>

definition parse_intent_llm :: "(string \<Rightarrow> pyval result) \<Rightarrow> (string \<Rightarrow> pyval result) \<Rightarrow> real \<Rightarrow> real \<Rightarrow> string \<Rightarrow>
    intent_cache \<Rightarrow> pyval \<times> intent_cache" where
  "parse_intent_llm ask loads now later user_text cache =
     (let k = cache_key user_text;
          fresh = (case bindE (ask user_text) (llm_intent loads) of
            Inr v \<Rightarrow> (v, dset k (v, later) cache) | Inl e \<Rightarrow> (PDict (parse_intent user_text), cache))
      in case dget cache k of
           Some (v, ts) \<Rightarrow> if now - ts < CACHE_TTL then (v, cache) else fresh
         | None \<Rightarrow> fresh)"

section \<open>Planning actions and deciding\<close>

definition plan_actions :: "pyobj \<Rightarrow> pyobj result" where
  "plan_actions r =
     (let status = dgetd r ''status'' (PStr ''OK''); urgency = dgetd r ''action_urgency'' (PStr ''LOW'') in
      bindE (py_len (dgetd r ''anomalies_found'' (PList []))) (\<lambda>n.
      let critical = (status = PStr ''CRITICAL'' \<or> urgency = PStr ''CRITICAL'');
          warning = (status = PStr ''WARNING'' \<or> urgency = PStr ''HIGH'' \<or> urgency = PStr ''MEDIUM'') in
      Inr [(''urgency'', urgency), (''status'', status), (''anomaly_count'', PInt (int n)),
           (''actions'', PList (map PStr
              (if critical then [''emergency_escalation'', ''alert_supervisor'']
               else if warning then [''alert_supervisor'', ''schedule_inspection''] else [''log_and_monitor'']))),
           (''escalate'', PBool critical), (''create_workorder'', PBool True)]))"

definition make_decision :: "(pyobj \<Rightarrow> string \<Rightarrow> pyval result) \<Rightarrow> (pyobj \<Rightarrow> string) \<Rightarrow> pyobj \<Rightarrow> string \<Rightarrow> pyval" where
  "make_decision ask tostr summary goal =
     (case bindE (ask summary goal) (\<lambda>b. bindE (pindex b ''message'') (\<lambda>m. pindex m ''content'')) of
        Inr v \<Rightarrow> v | Inl e \<Rightarrow> PStr (''Decision agent unavailable. Raw data: '' @ tostr summary))"

section \<open>What the parsers accept\<close>

lemma any_in_iff: "any_in ws t \<longleftrightarrow> (\<exists>w \<in> set ws. \<exists>a b. t = a @ w @ b)"
  by (simp add: any_in_def list_ex_iff substring_iff)

definition keyword_hit :: "string \<Rightarrow> string \<Rightarrow> bool" where
  "keyword_hit t s = any_in (dgetd KEYWORDS s []) t"

definition required_sensors :: "string \<Rightarrow> string list" where
  "required_sensors user_text =
     (let ds = matched_sensors (py_lower user_text) in if ds \<noteq> [] then ds else ALL_SENSORS)"

lemma keywords_keys: "map fst KEYWORDS = ALL_SENSORS"
  by (simp add: KEYWORDS_def ALL_SENSORS_def)

lemma matched_set:
  "set (matched_sensors t) = (if ''all'' \<in> set (py_split t) then set ALL_SENSORS else {s \<in> set ALL_SENSORS. keyword_hit t s})"
  by (auto simp: matched_sensors_def keyword_hit_def KEYWORDS_def ALL_SENSORS_def dgetd_def)

lemma required_sensors_facts:
  "required_sensors txt \<noteq> []" "distinct (required_sensors txt)"
  "s \<in> set (required_sensors txt) \<longleftrightarrow> s \<in> set ALL_SENSORS \<and>
     (''all'' \<in> set (py_split (py_lower txt)) \<or> keyword_hit (py_lower txt) s \<or> (\<forall>s' \<in> set ALL_SENSORS. \<not> keyword_hit (py_lower txt) s'))"
proof -
  have d: "distinct ALL_SENSORS" "ALL_SENSORS \<noteq> []" by (simp_all add: ALL_SENSORS_def)
  then have "distinct (map fst (filter P KEYWORDS))" for P
    by (metis distinct_map_filter keywords_keys)
  then show "distinct (required_sensors txt)" using d by (simp add: required_sensors_def Let_def matched_sensors_def)
  show "required_sensors txt \<noteq> []" using d by (simp add: required_sensors_def Let_def)
  have "matched_sensors (py_lower txt) = [] \<longleftrightarrow> set (matched_sensors (py_lower txt)) = {}" by simp
  then show "s \<in> set (required_sensors txt) \<longleftrightarrow> s \<in> set ALL_SENSORS \<and>
     (''all'' \<in> set (py_split (py_lower txt)) \<or> keyword_hit (py_lower txt) s \<or> (\<forall>s' \<in> set ALL_SENSORS. \<not> keyword_hit (py_lower txt) s'))"
    using d(2) unfolding required_sensors_def Let_def matched_set by (auto simp: matched_set)
qed

section \<open>Sessions with the LLM parser\<close>

record llm_query =
  lq_now :: real
  lq_later :: real
  lq_text :: string
  lq_ask :: "string \<Rightarrow> pyval result"

definition llm_answer :: "(string \<Rightarrow> pyval result) \<Rightarrow> llm_query \<Rightarrow> pyval result" where
  "llm_answer loads q = bindE (lq_ask q (lq_text q)) (llm_intent loads)"

fun llm_session :: "(string \<Rightarrow> pyval result) \<Rightarrow> llm_query list \<Rightarrow> intent_cache \<Rightarrow> pyval list" where
  "llm_session loads [] cache = []"
| "llm_session loads (q # qs) cache =
     (case parse_intent_llm (lq_ask q) loads (lq_now q) (lq_later q) (lq_text q) cache of
        (v, cache') \<Rightarrow> v # llm_session loads qs cache')"

definition cache_from :: "(string \<Rightarrow> pyval result) \<Rightarrow> llm_query set \<Rightarrow> intent_cache \<Rightarrow> bool" where
  "cache_from loads Q cache \<longleftrightarrow> (\<forall>k v ts. dget cache k = Some (v, ts) \<longrightarrow>
     (\<exists>q \<in> Q. cache_key (lq_text q) = k \<and> lq_later q = ts \<and> llm_answer loads q = Inr v))"

text \<open>Where the value of a call comes from.\<close>

definition answered :: "(string \<Rightarrow> pyval result) \<Rightarrow> llm_query set \<Rightarrow> llm_query \<Rightarrow> pyval \<Rightarrow> bool" where
  "answered loads Q q v \<longleftrightarrow> llm_answer loads q = Inr v \<or>
     (\<exists>e. llm_answer loads q = Inl e) \<and> v = PDict (parse_intent (lq_text q)) \<or>
     (\<exists>p \<in> Q. cache_key (lq_text p) = cache_key (lq_text q) \<and> lq_now q - lq_later p < 60 \<and> llm_answer loads p = Inr v)"

lemma cache_from_dset:
  assumes "cache_from loads Q cache" and "llm_answer loads q = Inr v"
  shows "cache_from loads (insert q Q) (dset (cache_key (lq_text q)) (v, lq_later q) cache)"
  unfolding cache_from_def
proof (intro allI impI)
  fix k w ts assume h: "dget (dset (cache_key (lq_text q)) (v, lq_later q) cache) k = Some (w, ts)"
  show "\<exists>p \<in> insert q Q. cache_key (lq_text p) = k \<and> lq_later p = ts \<and> llm_answer loads p = Inr w"
    using h assms by (cases "k = cache_key (lq_text q)") (auto simp: cache_from_def)
qed

lemma llm_step:
  assumes "cache_from loads Q cache"
    and "parse_intent_llm (lq_ask q) loads (lq_now q) (lq_later q) (lq_text q) cache = (v, cache')"
  shows "answered loads Q q v \<and> cache_from loads (insert q Q) cache'"
proof -
  let ?k = "cache_key (lq_text q)"
  have keep: "cache_from loads (insert q Q) cache" using assms(1) by (fastforce simp: cache_from_def)
  have fresh: "answered loads Q q v \<and> cache_from loads (insert q Q) cache'"
    if h: "(case llm_answer loads q of Inr v \<Rightarrow> (v, dset ?k (v, lq_later q) cache) | Inl e \<Rightarrow> (PDict (parse_intent (lq_text q)), cache)) = (v, cache')"
    using h keep cache_from_dset[OF assms(1), of q] by (cases "llm_answer loads q") (auto simp: answered_def)
  show ?thesis
  proof (cases "dget cache ?k")
    case None
    then show ?thesis using assms(2) fresh by (simp add: parse_intent_llm_def Let_def llm_answer_def)
  next
    case (Some p)
    obtain w ts where p: "p = (w, ts)" by (cases p)
    show ?thesis
    proof (cases "lq_now q - ts < CACHE_TTL")
      case True
      then have "v = w" "cache' = cache" using assms(2) Some p by (simp_all add: parse_intent_llm_def Let_def)
      moreover have "\<exists>r \<in> Q. cache_key (lq_text r) = ?k \<and> lq_later r = ts \<and> llm_answer loads r = Inr w"
        using assms(1) Some p by (simp add: cache_from_def)
      ultimately show ?thesis using True keep by (auto simp: answered_def CACHE_TTL_def)
    next
      case False
      then show ?thesis using assms(2) fresh Some p by (simp add: parse_intent_llm_def Let_def llm_answer_def)
    qed
  qed
qed

lemma llm_session_from:
  "cache_from loads Q cache \<Longrightarrow>
    length (llm_session loads qs cache) = length qs \<and>
    (\<forall>i < length qs. answered loads (Q \<union> set (take i qs)) (qs ! i) (llm_session loads qs cache ! i))"
proof (induction qs arbitrary: Q cache)
  case (Cons q qs)
  obtain v c where s: "parse_intent_llm (lq_ask q) loads (lq_now q) (lq_later q) (lq_text q) cache = (v, c)" by fastforce
  note st = llm_step[OF Cons.prems s]
  note ih = Cons.IH[OF conjunct2[OF st]]
  show ?case
  proof (intro conjI allI impI)
    fix i assume "i < length (q # qs)"
    then show "answered loads (Q \<union> set (take i (q # qs))) ((q # qs) ! i) (llm_session loads (q # qs) cache ! i)"
      using st ih by (cases i) (simp_all add: s)
  qed (use ih s in simp)
qed simp

section \<open>Properties\<close>

text \<open>
  Every call of the LLM parser answers, whatever the LLM does: with the answer of the LLM to this
  text, or with the keyword intent when the LLM fails or sends no JSON object, or with what the LLM
  answered less than sixty seconds ago to a text with the same words.
\<close>
theorem llm_parser_answers:
  fixes loads :: "string \<Rightarrow> pyval result"
  assumes "i < length qs"
  defines "q \<equiv> qs ! i" and "v \<equiv> llm_session loads qs [] ! i"
  shows "llm_answer loads q = Inr v \<or>
    (\<exists>e. llm_answer loads q = Inl e) \<and> v = PDict (parse_intent (lq_text q)) \<or>
    (\<exists>p \<in> set (take i qs). cache_key (lq_text p) = cache_key (lq_text q) \<and> lq_now q - lq_later p < 60 \<and> llm_answer loads p = Inr v)"
proof -
  have "cache_from loads {} []" by (simp add: cache_from_def)
  from llm_session_from[OF this, of qs] assms(1) show ?thesis by (simp add: answered_def q_def v_def)
qed

lemma llm_parser_answers_witness:
  "llm_session (\<lambda>s. Inl JSONDecodeError) [\<lparr>lq_now = 0, lq_later = 1, lq_text = ''site'', lq_ask = (\<lambda>s. Inl OSError)\<rparr>] [] ! 0 =
     PDict (parse_intent ''site'')"
  using llm_parser_answers[of 0 "[\<lparr>lq_now = 0, lq_later = 1, lq_text = ''site'', lq_ask = (\<lambda>s. Inl OSError)\<rparr>]" "\<lambda>s. Inl JSONDecodeError"]
  by (simp add: llm_answer_def)

end
