(* ===== verification/DidKeys.thy ===== *)
theory DidKeys
  imports Bytes KBucket Intent
begin

text \<open>
  Public keys in DID documents and the signatures they verify (\<open>authentication/verification_methods.py\<close>, the key
  functions of \<open>authentication/did_wba.py\<close>, \<open>e2e_encryption_hpke/key_pair.py\<close>).  The elliptic curves, \<open>base58\<close>,
  \<open>jcs\<close>, hashing and the DER form of signatures are the record \<open>keylib\<close>; a public key of a curve is its name with the two
  coordinates.
\<close>

datatype pubkey = ECPub string nat nat | EdPub bytes | XPub bytes

datatype privkey = ECPriv bytes | EdPriv bytes | XPriv bytes

record keylib =
  kl_on_curve :: "string \<Rightarrow> nat \<Rightarrow> nat \<Rightarrow> bool"
  kl_point :: "string \<Rightarrow> bytes \<Rightarrow> pubkey result"
  kl_compressed :: "pubkey \<Rightarrow> bytes"
  kl_b58decode :: "string \<Rightarrow> bytes result"
  kl_b58encode :: "bytes \<Rightarrow> string"
  kl_ecdsa :: "pubkey \<Rightarrow> bytes \<Rightarrow> nat \<Rightarrow> nat \<Rightarrow> bool"
  kl_ed :: "bytes \<Rightarrow> bytes \<Rightarrow> bytes \<Rightarrow> bool"
  kl_sign :: "bytes \<Rightarrow> bytes \<Rightarrow> nat \<times> nat"
  kl_ed_sign :: "bytes \<Rightarrow> bytes \<Rightarrow> bytes"
  kl_dss :: "bytes \<Rightarrow> (int \<times> int) result"
  kl_sha256 :: "bytes \<Rightarrow> bytes"
  kl_jcs :: "pyval \<Rightarrow> bytes result"
  kl_str :: "pyval \<Rightarrow> string"
  kl_float :: "string \<Rightarrow> real result"
  kl_stamp :: "real \<Rightarrow> string"
  kl_iso :: "string \<Rightarrow> (real \<times> bool) result"

section \<open>Values that stand for keys\<close>

text \<open>\<open>base64.urlsafe_b64decode(v + '=' * (-len(v) % 4))\<close> for a value of any type.\<close>

definition b64url_value :: "pyval \<Rightarrow> bytes result" where
  "b64url_value v = (case v of PStr s \<Rightarrow> b64url_decode s | _ \<Rightarrow> Inl TypeError)"

definition jwk_coord :: "pyval \<Rightarrow> string \<Rightarrow> nat result" where
  "jwk_coord jwk k = bindE (bindE (pindex jwk k) b64url_value) (\<lambda>b. Inr (from_bytes b))"

definition curve_point :: "keylib \<Rightarrow> string \<Rightarrow> nat \<Rightarrow> nat \<Rightarrow> pubkey result" where
  "curve_point kl curve x y = (if kl_on_curve kl curve x y then Inr (ECPub curve x y) else Inl (ValueError ''not on the curve''))"

definition jwk_point :: "keylib \<Rightarrow> string \<Rightarrow> pyval \<Rightarrow> pubkey result" where
  "jwk_point kl curve jwk = bindE (jwk_coord jwk ''x'') (\<lambda>x. bindE (jwk_coord jwk ''y'') (\<lambda>y. curve_point kl curve x y))"

definition ed25519_key :: "bytes \<Rightarrow> pubkey result" where
  "ed25519_key b = (if length b = 32 then Inr (EdPub b) else Inl (ValueError ''Ed25519''))"

definition x25519_key :: "bytes \<Rightarrow> pubkey result" where
  "x25519_key b = (if length b = 32 then Inr (XPub b) else Inl (ValueError ''X25519''))"

text \<open>\<open>base58.b58decode(v)\<close>\<close>

definition b58_value :: "keylib \<Rightarrow> pyval \<Rightarrow> bytes result" where
  "b58_value kl v = (case v of PStr s \<Rightarrow> kl_b58decode kl s | _ \<Rightarrow> Inl TypeError)"

text \<open>A multibase text: \<open>z\<close> and base 58.\<close>

definition multibase_bytes :: "keylib \<Rightarrow> pyval \<Rightarrow> bytes result" where
  "multibase_bytes kl v = (case v of
      PStr s \<Rightarrow> if take 1 s = ''z'' then kl_b58decode kl (drop 1 s) else Inl (ValueError ''Unsupported multibase encoding'')
    | _ \<Rightarrow> Inl AttributeError)"

text \<open>\<open>key_pair.py\<close>: its error message indexes the text, which may be empty.\<close>

definition public_key_to_multibase :: "keylib \<Rightarrow> bytes \<Rightarrow> string" where
  "public_key_to_multibase kl raw = ''z'' @ kl_b58encode kl raw"

definition public_key_from_multibase :: "keylib \<Rightarrow> pyval \<Rightarrow> pubkey result" where
  "public_key_from_multibase kl v = (case v of
      PStr s \<Rightarrow> if s = [] then Inl IndexError else bindE (multibase_bytes kl v) x25519_key
    | _ \<Rightarrow> Inl AttributeError)"

section \<open>Verification methods\<close>

datatype vmethod = VmK1 pubkey | VmR1 pubkey | VmX pubkey | VmEd pubkey

definition vm_jwk_point :: "keylib \<Rightarrow> string \<Rightarrow> pyval \<Rightarrow> pubkey result" where
  "vm_jwk_point kl curve jwk =
     bindE (pget jwk ''kty'' PNone) (\<lambda>kty. bindE (pget jwk ''crv'' PNone) (\<lambda>crv.
     if kty \<noteq> PStr ''EC'' \<or> crv \<noteq> PStr curve then Inl (ValueError ''Invalid JWK parameters'') else jwk_point kl curve jwk))"

definition ec_from_dict :: "keylib \<Rightarrow> string \<Rightarrow> pyobj \<Rightarrow> pubkey result" where
  "ec_from_dict kl curve m = (case dget m ''publicKeyJwk'' of
      Some jwk \<Rightarrow> vm_jwk_point kl curve jwk
    | None \<Rightarrow> (case dget m ''publicKeyMultibase'' of
        Some v \<Rightarrow> bindE (multibase_bytes kl v) (kl_point kl curve)
      | None \<Rightarrow> Inl (ValueError ''Unsupported key format'')))"

definition ed_from_jwk :: "pyval \<Rightarrow> pubkey result" where
  "ed_from_jwk jwk =
     bindE (pget jwk ''kty'' PNone) (\<lambda>kty. bindE (pget jwk ''crv'' PNone) (\<lambda>crv.
     if kty \<noteq> PStr ''OKP'' \<or> crv \<noteq> PStr ''Ed25519'' then Inl (ValueError ''Invalid JWK parameters for Ed25519'')
     else bindE (bindE (pindex jwk ''x'') b64url_value) ed25519_key))"

definition ed_from_dict :: "keylib \<Rightarrow> pyobj \<Rightarrow> pubkey result" where
  "ed_from_dict kl m = (case dget m ''publicKeyJwk'' of
      Some jwk \<Rightarrow> ed_from_jwk jwk
    | None \<Rightarrow> (case dget m ''publicKeyMultibase'' of
        Some v \<Rightarrow> bindE (multibase_bytes kl v) ed25519_key
      | None \<Rightarrow> (case dget m ''publicKeyBase58'' of
          Some v \<Rightarrow> bindE (b58_value kl v) ed25519_key
        | None \<Rightarrow> Inl (ValueError ''Unsupported key format''))))"

definition x_from_dict :: "keylib \<Rightarrow> pyobj \<Rightarrow> pubkey result" where
  "x_from_dict kl m = (case dget m ''publicKeyMultibase'' of
      Some v \<Rightarrow> public_key_from_multibase kl v
    | None \<Rightarrow> Inl (ValueError ''Unsupported key format''))"

definition create_verification_method :: "keylib \<Rightarrow> pyobj \<Rightarrow> vmethod result" where
  "create_verification_method kl m =
     (let ty = oget m ''type'' in
      if \<not> truthy ty then Inl (ValueError ''Missing verification method type'')
      else bindE (hkey ty) (\<lambda>_.
        if ty = PStr ''EcdsaSecp256k1VerificationKey2019'' then bindE (ec_from_dict kl ''secp256k1'' m) (\<lambda>p. Inr (VmK1 p))
        else if ty = PStr ''EcdsaSecp256r1VerificationKey2019'' then bindE (ec_from_dict kl ''P-256'' m) (\<lambda>p. Inr (VmR1 p))
        else if ty = PStr ''X25519KeyAgreementKey2019'' then bindE (x_from_dict kl m) (\<lambda>p. Inr (VmX p))
        else if ty = PStr ''Ed25519VerificationKey2018'' then bindE (ed_from_dict kl m) (\<lambda>p. Inr (VmEd p))
        else Inl (ValueError ''Unsupported verification method type'')))"

text \<open>R and S side by side; a signature of another length is cut in the middle.  Both curves have 32 byte coordinates.\<close>

definition ec_verify :: "keylib \<Rightarrow> pubkey \<Rightarrow> bytes \<Rightarrow> pyval \<Rightarrow> bool" where
  "ec_verify kl pk content signature = (case b64url_value signature of
      Inl _ \<Rightarrow> False
    | Inr b \<Rightarrow> (let n = (if length b = 64 then 32 else length b div 2) in kl_ecdsa kl pk content (from_bytes (take n b)) (from_bytes (drop n b))))"

definition ed_verify :: "keylib \<Rightarrow> pubkey \<Rightarrow> bytes \<Rightarrow> pyval \<Rightarrow> bool" where
  "ed_verify kl pk content signature = (case (pk, b64url_value signature) of
      (EdPub k, Inr b) \<Rightarrow> kl_ed kl k b content
    | _ \<Rightarrow> False)"

definition vm_verify :: "keylib \<Rightarrow> vmethod \<Rightarrow> bytes \<Rightarrow> pyval \<Rightarrow> bool result" where
  "vm_verify kl vm content signature = (case vm of
      VmK1 p \<Rightarrow> Inr (ec_verify kl p content signature) | VmR1 p \<Rightarrow> Inr (ec_verify kl p content signature)
    | VmX p \<Rightarrow> Inl NotImplementedError | VmEd p \<Rightarrow> Inr (ed_verify kl p content signature))"

definition rs_bytes :: "int \<times> int \<Rightarrow> bytes result" where
  "rs_bytes = (\<lambda>(r, s). bindE (to_be 32 r) (\<lambda>rb. bindE (to_be 32 s) (\<lambda>sb. Inr (rb @ sb))))"

definition ec_encode :: "keylib \<Rightarrow> bytes \<Rightarrow> string result" where
  "ec_encode kl sig = (case bindE (kl_dss kl sig) rs_bytes of
      Inr b \<Rightarrow> Inr (b64url_encode b)
    | Inl _ \<Rightarrow> if length sig mod 2 \<noteq> 0 then Inl (ValueError ''Invalid signature format'') else Inr (b64url_encode sig))"

definition vm_encode :: "keylib \<Rightarrow> vmethod \<Rightarrow> bytes \<Rightarrow> string result" where
  "vm_encode kl vm sig = (case vm of
      VmK1 _ \<Rightarrow> ec_encode kl sig | VmR1 _ \<Rightarrow> ec_encode kl sig | VmX _ \<Rightarrow> Inl NotImplementedError | VmEd _ \<Rightarrow> Inr (b64url_encode sig))"

section \<open>Keys of a DID document (\<open>did_wba.py\<close>, \<open>key_pair.py\<close>)\<close>

definition CURVES :: "string list" where
  "CURVES = [''secp256k1'', ''P-256'', ''P-384'', ''P-521'']"

text \<open>Any exception of the decoding is a \<open>ValueError\<close>.\<close>

definition as_value_error :: "'a result \<Rightarrow> 'a result" where
  "as_value_error r = (case r of Inl _ \<Rightarrow> Inl (ValueError ''Invalid JWK parameters'') | Inr x \<Rightarrow> Inr x)"

definition extract_ec_public_key_from_jwk :: "keylib \<Rightarrow> pyval \<Rightarrow> pubkey result" where
  "extract_ec_public_key_from_jwk kl jwk =
     bindE (pget jwk ''kty'' PNone) (\<lambda>kty.
     if kty \<noteq> PStr ''EC'' then Inl (ValueError ''Invalid JWK: kty must be EC'')
     else bindE (pget jwk ''crv'' PNone) (\<lambda>crv.
       if \<not> truthy crv then Inl (ValueError ''Missing curve parameter in JWK'')
       else bindE (hkey crv) (\<lambda>_. case crv of
           PStr c \<Rightarrow> if c \<in> set CURVES then as_value_error (jwk_point kl c jwk) else Inl (ValueError ''Unsupported curve'')
         | _ \<Rightarrow> Inl (ValueError ''Unsupported curve''))))"

definition extract_ed25519_from_multibase :: "keylib \<Rightarrow> pyval \<Rightarrow> pubkey result" where
  "extract_ed25519_from_multibase kl v = (case v of
      PStr s \<Rightarrow> if take 1 s = ''z'' then as_value_error (bindE (kl_b58decode kl (drop 1 s)) ed25519_key) else Inl (ValueError ''Unsupported multibase encoding'')
    | _ \<Rightarrow> Inl AttributeError)"

definition extract_ed25519_from_base58 :: "keylib \<Rightarrow> pyval \<Rightarrow> pubkey result" where
  "extract_ed25519_from_base58 kl v = as_value_error (bindE (b58_value kl v) ed25519_key)"

definition extract_secp256k1_from_multibase :: "keylib \<Rightarrow> pyval \<Rightarrow> pubkey result" where
  "extract_secp256k1_from_multibase kl v = (case v of
      PStr s \<Rightarrow> if take 1 s = ''z''
        then as_value_error (bindE (kl_b58decode kl (drop 1 s)) (\<lambda>b. if length b \<noteq> 33 then Inl (ValueError ''length'') else kl_point kl ''secp256k1'' b))
        else Inl (ValueError ''Unsupported multibase encoding format'')
    | _ \<Rightarrow> Inl AttributeError)"

definition unsupported_method :: "pubkey result" where
  "unsupported_method = Inl (ValueError ''Unsupported verification method type or missing required key format'')"

text \<open>The check of the curve before the key is read.\<close>

definition jwk_of_curve :: "keylib \<Rightarrow> string \<Rightarrow> pyval \<Rightarrow> pubkey result" where
  "jwk_of_curve kl curve jwk = bindE (pget jwk ''crv'' PNone) (\<lambda>crv.
     if crv \<noteq> PStr curve then Inl (ValueError ''Invalid curve'') else extract_ec_public_key_from_jwk kl jwk)"

definition extract_ed25519_from_jwk :: "pyval \<Rightarrow> pubkey result" where
  "extract_ed25519_from_jwk jwk =
     bindE (pget jwk ''kty'' PNone) (\<lambda>kty. bindE (if kty \<noteq> PStr ''OKP'' then Inr PNone else pget jwk ''crv'' PNone) (\<lambda>crv.
     if kty \<noteq> PStr ''OKP'' \<or> crv \<noteq> PStr ''Ed25519'' then Inl (ValueError ''Invalid JWK parameters'')
     else as_value_error (bindE (bindE (pindex jwk ''x'') b64url_value) ed25519_key)))"

definition extract_public_key :: "keylib \<Rightarrow> pyobj \<Rightarrow> pubkey result" where
  "extract_public_key kl m =
     (let ty = oget m ''type'' in
      if \<not> truthy ty then Inl (ValueError ''missing type'')
      else if ty = PStr ''EcdsaSecp256k1VerificationKey2019'' then (case dget m ''publicKeyJwk'' of
          Some jwk \<Rightarrow> jwk_of_curve kl ''secp256k1'' jwk
        | None \<Rightarrow> (case dget m ''publicKeyMultibase'' of Some v \<Rightarrow> extract_secp256k1_from_multibase kl v | None \<Rightarrow> unsupported_method))
      else if ty = PStr ''EcdsaSecp256r1VerificationKey2019'' then (case dget m ''publicKeyJwk'' of
          Some jwk \<Rightarrow> jwk_of_curve kl ''P-256'' jwk
        | None \<Rightarrow> unsupported_method)
      else if ty = PStr ''Ed25519VerificationKey2020'' \<or> ty = PStr ''Ed25519VerificationKey2018'' then (case dget m ''publicKeyJwk'' of
          Some jwk \<Rightarrow> extract_ed25519_from_jwk jwk
        | None \<Rightarrow> (case dget m ''publicKeyBase58'' of
            Some v \<Rightarrow> extract_ed25519_from_base58 kl v
          | None \<Rightarrow> (case dget m ''publicKeyMultibase'' of Some v \<Rightarrow> extract_ed25519_from_multibase kl v | None \<Rightarrow> unsupported_method)))
      else if ty = PStr ''JsonWebKey2020'' then (case dget m ''publicKeyJwk'' of
          Some jwk \<Rightarrow> extract_ec_public_key_from_jwk kl jwk
        | None \<Rightarrow> unsupported_method)
      else unsupported_method)"

text \<open>A loop that returns the first dictionary whose id is the one asked for.\<close>

fun find_id :: "pyval \<Rightarrow> pyval list \<Rightarrow> pyval option result" where
  "find_id i [] = Inr None"
| "find_id i (m # ms) = bindE (pindex m ''id'') (\<lambda>j. if py_eq j i then Inr (Some m) else find_id i ms)"

text \<open>The agreement key: references are looked up, embedded entries taken as they are.\<close>

definition vm_index :: "pyval list \<Rightarrow> (pyval, pyobj) pydict result" where
  "vm_index vms = foldE (\<lambda>vm d. case vm of
      PDict m \<Rightarrow> bindE (bindE (pindex vm ''id'') hkey) (\<lambda>k. Inr (dset k m d))
    | _ \<Rightarrow> Inr d) vms []"

definition agreement_entry :: "(pyval, pyobj) pydict \<Rightarrow> pyval \<Rightarrow> pyval list" where
  "agreement_entry d r = (case (case r of PStr s \<Rightarrow> dget d r | PDict m \<Rightarrow> Some m | _ \<Rightarrow> None) of
      Some m \<Rightarrow> if m \<noteq> [] \<and> oget m ''type'' = PStr ''X25519KeyAgreementKey2019'' then [PDict m] else []
    | None \<Rightarrow> [])"

definition extract_x25519_public_key :: "keylib \<Rightarrow> pyobj \<Rightarrow> string option \<Rightarrow> (pubkey \<times> pyval) result" where
  "extract_x25519_public_key kl doc key_id =
     bindE (py_iter (dgetd doc ''verificationMethod'' (PList []))) (\<lambda>vms. bindE (vm_index vms) (\<lambda>d.
     bindE (py_iter (dgetd doc ''keyAgreement'' (PList []))) (\<lambda>refs.
     let candidates = concat (map (agreement_entry d) refs) in
     if candidates = [] then Inl (ValueError ''no X25519KeyAgreementKey2019'')
     else bindE (case key_id of
         Some k \<Rightarrow> if k = [] then Inr (Some (hd candidates)) else find_id (PStr k) candidates
       | None \<Rightarrow> Inr (Some (hd candidates))) (\<lambda>target. case target of
       None \<Rightarrow> Inl (ValueError ''keyAgreement entry not found'')
     | Some t \<Rightarrow> bindE (pget t ''publicKeyMultibase'' PNone) (\<lambda>mb.
         if \<not> truthy mb then Inl (ValueError ''keyAgreement entry missing publicKeyMultibase'')
         else bindE (public_key_from_multibase kl mb) (\<lambda>pk. bindE (pindex t ''id'') (\<lambda>i. Inr (pk, i))))))))"

text \<open>\<open>base64.urlsafe_b64decode(v + "==")\<close>\<close>

definition b64url_padded :: "pyval \<Rightarrow> bytes result" where
  "b64url_padded v = (case v of
      PStr s \<Rightarrow> b64decode (map std_char (s @ ''==''))
    | _ \<Rightarrow> Inl TypeError)"

fun from_hex :: "string \<Rightarrow> bytes result" where
  "from_hex [] = Inr []"
| "from_hex [c] = (if is_space c then Inr [] else Inl (ValueError ''fromhex''))"
| "from_hex (c # d # s) =
     (if is_space c then from_hex (d # s)
      else (case (hexval c, hexval d) of
          (Some x, Some y) \<Rightarrow> bindE (from_hex s) (\<lambda>r. Inr (word_of_nat (x * 16 + y) # r))
        | _ \<Rightarrow> Inl (ValueError ''fromhex'')))"

definition extract_signing_public_key :: "keylib \<Rightarrow> pyobj \<Rightarrow> string \<Rightarrow> pubkey result" where
  "extract_signing_public_key kl doc vm_id =
     bindE (py_iter (dgetd doc ''verificationMethod'' (PList []))) (\<lambda>vms.
     bindE (find_id (PStr vm_id) (filter is_dict vms)) (\<lambda>target. case target of
       None \<Rightarrow> Inl (ValueError ''verificationMethod not found'')
     | Some t \<Rightarrow> bindE (pget t ''type'' PNone) (\<lambda>ty.
         if ty \<noteq> PStr ''EcdsaSecp256r1VerificationKey2019'' then Inl (ValueError ''Expected type'')
         else bindE (pget t ''publicKeyJwk'' PNone) (\<lambda>jwk.
           if truthy jwk then
             bindE (bindE (pindex jwk ''x'') b64url_padded) (\<lambda>x. bindE (bindE (pindex jwk ''y'') b64url_padded) (\<lambda>y.
             curve_point kl ''P-256'' (from_bytes x) (from_bytes y)))
           else bindE (pget t ''publicKeyHex'' PNone) (\<lambda>h1. bindE (pget t ''public_key_hex'' PNone) (\<lambda>h2.
             let h = py_or h1 h2 in
             if truthy h then bindE (case h of PStr s \<Rightarrow> from_hex s | _ \<Rightarrow> Inl TypeError) (kl_point kl ''P-256'')
             else Inl (ValueError ''Cannot extract public key'')))))))"

section \<open>Fingerprints\<close>

definition coord_text :: "nat \<Rightarrow> string result" where
  "coord_text n = bindE (to_be 32 (int n)) (\<lambda>b. Inr (b64url_encode b))"

definition public_numbers :: "pubkey \<Rightarrow> (nat \<times> nat) result" where
  "public_numbers pk = (case pk of ECPub _ x y \<Rightarrow> Inr (x, y) | _ \<Rightarrow> Inl AttributeError)"

definition compute_jwk_fingerprint :: "keylib \<Rightarrow> pubkey \<Rightarrow> string result" where
  "compute_jwk_fingerprint kl pk =
     bindE (public_numbers pk) (\<lambda>(x, y). bindE (coord_text x) (\<lambda>x. bindE (coord_text y) (\<lambda>y.
     let canonical = ''{\"crv\":\"secp256k1\",\"kty\":\"EC\",\"x\":\"'' @ x @ ''\",\"y\":\"'' @ y @ ''\"}'' in
     Inr (b64url_encode (kl_sha256 kl (encode canonical))))))"

definition public_key_to_jwk :: "keylib \<Rightarrow> pubkey \<Rightarrow> pyval result" where
  "public_key_to_jwk kl pk =
     bindE (public_numbers pk) (\<lambda>(x, y). bindE (coord_text x) (\<lambda>x. bindE (coord_text y) (\<lambda>y.
     Inr (PDict [(''kty'', PStr ''EC''), (''crv'', PStr ''secp256k1''), (''x'', PStr x), (''y'', PStr y),
       (''kid'', PStr (b64url_encode (kl_sha256 kl (kl_compressed kl pk))))]))))"

definition secp256r1_public_key_to_jwk :: "pubkey \<Rightarrow> pyval result" where
  "secp256r1_public_key_to_jwk pk =
     bindE (public_numbers pk) (\<lambda>(x, y). bindE (coord_text x) (\<lambda>x. bindE (coord_text y) (\<lambda>y.
     Inr (PDict [(''kty'', PStr ''EC''), (''crv'', PStr ''P-256''), (''x'', PStr x), (''y'', PStr y)]))))"

text \<open>\<open>verify_did_key_binding\<close>: only \<open>ValueError\<close> and \<open>KeyError\<close> count as a failed check.\<close>

definition verify_did_key_binding :: "keylib \<Rightarrow> string \<Rightarrow> pyval \<Rightarrow> bool result" where
  "verify_did_key_binding kl did jwk =
     (let parts = split_on (\<lambda>c. c = CHR '':'') did in
      if length parts < 4 then Inr True
      else if take 3 (last parts) \<noteq> ''k1_'' then Inr True
      else (case bindE (extract_ec_public_key_from_jwk kl jwk) (compute_jwk_fingerprint kl) of
          Inr fp \<Rightarrow> Inr (fp = drop 3 (last parts))
        | Inl (ValueError _) \<Rightarrow> Inr False
        | Inl (KeyError _) \<Rightarrow> Inr False
        | Inl e \<Rightarrow> Inl e))"

end
