(* ===== verification/W3cProof.thy ===== *)
theory W3cProof
  imports DidKeys
begin

text \<open>
  Data integrity proofs of JSON documents (\<open>proof/proof.py\<close>): generation and verification, over the record of
  primitives of \<open>DidKeys\<close>.
\<close>

definition PROOF_TYPE_SECP256K1 :: string where "PROOF_TYPE_SECP256K1 = ''EcdsaSecp256k1Signature2019''"
definition PROOF_TYPE_ED25519 :: string where "PROOF_TYPE_ED25519 = ''Ed25519Signature2020''"

definition proof_type_of_key :: "privkey \<Rightarrow> string result" where
  "proof_type_of_key sk = (case sk of ECPriv _ \<Rightarrow> Inr PROOF_TYPE_SECP256K1 | EdPriv _ \<Rightarrow> Inr PROOF_TYPE_ED25519
    | XPriv _ \<Rightarrow> Inl (ValueError ''Unsupported private key type''))"

text \<open>The type asked for must be known and fit the key.\<close>

definition check_proof_type :: "string \<Rightarrow> privkey \<Rightarrow> unit result" where
  "check_proof_type ty sk =
     (if ty = PROOF_TYPE_SECP256K1 then (case sk of ECPriv _ \<Rightarrow> Inr () | _ \<Rightarrow> Inl (ValueError ''Key type mismatch''))
      else if ty = PROOF_TYPE_ED25519 then (case sk of EdPriv _ \<Rightarrow> Inr () | _ \<Rightarrow> Inl (ValueError ''Key type mismatch''))
      else Inl (ValueError ''Unsupported proof type''))"

definition sign_secp256k1 :: "keylib \<Rightarrow> bytes \<Rightarrow> bytes \<Rightarrow> bytes result" where
  "sign_secp256k1 kl sk dat = (case kl_sign kl sk dat of (r, s) \<Rightarrow> rs_bytes (int r, int s))"

definition verify_secp256k1 :: "keylib \<Rightarrow> pubkey \<Rightarrow> bytes \<Rightarrow> bytes \<Rightarrow> bool" where
  "verify_secp256k1 kl pk dat sig = kl_ecdsa kl pk dat (from_bytes (take 32 sig)) (from_bytes (drop 32 sig))"

definition compute_signing_input :: "keylib \<Rightarrow> pyobj \<Rightarrow> pyobj \<Rightarrow> bytes result" where
  "compute_signing_input kl document options =
     bindE (kl_jcs kl (PDict document)) (\<lambda>d. bindE (kl_jcs kl (PDict options)) (\<lambda>p. Inr (kl_sha256 kl p @ kl_sha256 kl d)))"

definition without :: "string \<Rightarrow> pyobj \<Rightarrow> pyobj" where
  "without k d = filter (\<lambda>(k', v). k' \<noteq> k) d"

definition opt_field :: "string \<Rightarrow> string option \<Rightarrow> pyobj" where
  "opt_field k v = (case v of None \<Rightarrow> [] | Some s \<Rightarrow> [(k, PStr s)])"

definition sign_proof :: "keylib \<Rightarrow> privkey \<Rightarrow> bytes \<Rightarrow> bytes result" where
  "sign_proof kl sk dat = (case sk of ECPriv b \<Rightarrow> sign_secp256k1 kl b dat | EdPriv b \<Rightarrow> Inr (kl_ed_sign kl b dat) | XPriv _ \<Rightarrow> Inl AttributeError)"

definition generate_w3c_proof :: "keylib \<Rightarrow> real \<Rightarrow> pyobj \<Rightarrow> privkey \<Rightarrow> string \<Rightarrow> string \<Rightarrow> string option \<Rightarrow> string option \<Rightarrow> string option \<Rightarrow>
    string option \<Rightarrow> pyobj result" where
  "generate_w3c_proof kl now document sk vm purpose ptype created domain challenge =
     bindE (case ptype of None \<Rightarrow> proof_type_of_key sk | Some t \<Rightarrow> Inr t) (\<lambda>ty.
     bindE (check_proof_type ty sk) (\<lambda>_.
     let stamp = (case created of Some c \<Rightarrow> c | None \<Rightarrow> kl_stamp kl now);
         options = [(''type'', PStr ty), (''created'', PStr stamp), (''verificationMethod'', PStr vm), (''proofPurpose'', PStr purpose)] @
           opt_field ''domain'' domain @ opt_field ''challenge'' challenge
     in bindE (compute_signing_input kl (without ''proof'' document) options) (\<lambda>input.
        bindE (sign_proof kl sk input) (\<lambda>sig.
        Inr (dset ''proof'' (PDict (dset ''proofValue'' (PStr (b64url_encode sig)) options)) document)))))"

definition key_fits :: "pyval \<Rightarrow> pubkey \<Rightarrow> bool" where
  "key_fits ty pk = (ty = PStr PROOF_TYPE_SECP256K1 \<and> (case pk of ECPub _ _ _ \<Rightarrow> True | _ \<Rightarrow> False) \<or>
     ty = PStr PROOF_TYPE_ED25519 \<and> (case pk of EdPub _ \<Rightarrow> True | _ \<Rightarrow> False))"

definition check_signature :: "keylib \<Rightarrow> pubkey \<Rightarrow> bytes \<Rightarrow> bytes \<Rightarrow> bool" where
  "check_signature kl pk dat sig = (case pk of ECPub _ _ _ \<Rightarrow> verify_secp256k1 kl pk dat sig | EdPub k \<Rightarrow> kl_ed kl k sig dat | XPub _ \<Rightarrow> False)"

text \<open>An expectation that was not stated holds.\<close>

definition expected :: "string option \<Rightarrow> pyval \<Rightarrow> bool" where
  "expected e v = (case e of None \<Rightarrow> True | Some s \<Rightarrow> v = PStr s)"

definition try_verify_w3c_proof :: "keylib \<Rightarrow> pyobj \<Rightarrow> pubkey \<Rightarrow> string option \<Rightarrow> string option \<Rightarrow> string option \<Rightarrow> bool result" where
  "try_verify_w3c_proof kl document pk purpose domain challenge =
     (let proof = oget document ''proof'' in
      if \<not> truthy proof then Inr False
      else bindE (pget proof ''type'' PNone) (\<lambda>ty. bindE (pget proof ''proofValue'' PNone) (\<lambda>pv.
           bindE (pget proof ''proofPurpose'' PNone) (\<lambda>pp. bindE (pget proof ''verificationMethod'' PNone) (\<lambda>vm.
           bindE (pget proof ''created'' PNone) (\<lambda>cr. bindE (pget proof ''domain'' PNone) (\<lambda>dom. bindE (pget proof ''challenge'' PNone) (\<lambda>ch.
           if \<not> (truthy ty \<and> truthy pv \<and> truthy pp \<and> truthy vm \<and> truthy cr) then Inr False
           else bindE (hkey ty) (\<lambda>_.
             if \<not> key_fits ty pk then Inr False
             else if \<not> (expected purpose pp \<and> expected domain dom \<and> expected challenge ch) then Inr False
             else case proof of
                 PDict p \<Rightarrow>
                   bindE (compute_signing_input kl (without ''proof'' document) (without ''proofValue'' p)) (\<lambda>input.
                   bindE (b64url_value pv) (\<lambda>sig. Inr (check_signature kl pk input sig)))
               | _ \<Rightarrow> Inl AttributeError)))))))))"

text \<open>Any exception is caught and counts as not verified.\<close>

definition verify_w3c_proof :: "keylib \<Rightarrow> pyobj \<Rightarrow> pubkey \<Rightarrow> string option \<Rightarrow> string option \<Rightarrow> string option \<Rightarrow> bool" where
  "verify_w3c_proof kl document pk purpose domain challenge =
     (case try_verify_w3c_proof kl document pk purpose domain challenge of Inr b \<Rightarrow> b | Inl _ \<Rightarrow> False)"

section \<open>What the library promises\<close>

definition keypair_ok :: "keylib \<Rightarrow> privkey \<Rightarrow> pubkey \<Rightarrow> bool" where
  "keypair_ok kl sk pk \<longleftrightarrow> (case (sk, pk) of
      (ECPriv b, ECPub _ _ _) \<Rightarrow> (\<forall>d. case kl_sign kl b d of (r, s) \<Rightarrow> r < 256 ^ 32 \<and> s < 256 ^ 32 \<and> kl_ecdsa kl pk d r s)
    | (EdPriv b, EdPub k) \<Rightarrow> (\<forall>d. kl_ed_sign kl b d \<noteq> [] \<and> kl_ed kl k (kl_ed_sign kl b d) d)
    | _ \<Rightarrow> False)"

definition kl_jcs_total :: "keylib \<Rightarrow> bool" where
  "kl_jcs_total kl \<longleftrightarrow> (\<forall>v. \<exists>b. kl_jcs kl v = Inr b)"

lemma signed_checks:
  assumes "keypair_ok kl sk pk"
  shows "\<exists>sig. sign_proof kl sk d = Inr sig \<and> check_signature kl pk d sig \<and> sig \<noteq> []"
proof (cases sk)
  case (ECPriv b)
  then obtain c x y where pk: "pk = ECPub c x y" using assms by (cases pk) (auto simp: keypair_ok_def)
  obtain r s where rs: "kl_sign kl b d = (r, s)" by fastforce
  have l: "r < 256 ^ 32" "s < 256 ^ 32" "kl_ecdsa kl pk d r s"
    using assms rs by (auto simp: keypair_ok_def ECPriv pk dest: spec[of _ d])
  have "sign_proof kl sk d = Inr (be_bytes 32 r @ be_bytes 32 s)"
    by (simp only: sign_proof_def ECPriv privkey.case sign_secp256k1_def rs prod.case rs_bytes_def to_be_nat[OF l(1)] to_be_nat[OF l(2)] bindE_simps)
  moreover have "check_signature kl pk d (be_bytes 32 r @ be_bytes 32 s)"
    using l(3) by (simp add: check_signature_def pk verify_secp256k1_def from_be_bytes[OF l(1)] from_be_bytes[OF l(2)])
  moreover have "be_bytes 32 r @ be_bytes 32 s \<noteq> []" by (metis append_is_Nil_conv length_be_bytes list.size(3) zero_neq_numeral)
  ultimately show ?thesis by blast
next
  case (EdPriv b)
  then obtain k where pk: "pk = EdPub k" using assms by (cases pk) (auto simp: keypair_ok_def)
  then show ?thesis using assms by (auto simp: keypair_ok_def EdPriv sign_proof_def check_signature_def)
qed (use assms in \<open>auto simp: keypair_ok_def split: pubkey.splits\<close>)

lemma b64url_nonempty: "sig \<noteq> [] \<Longrightarrow> b64url_encode sig \<noteq> []"
proof
  assume "sig \<noteq> []" "b64url_encode sig = []"
  then have "b64url_decode [] = Inr sig" by (metis b64url_roundtrip)
  then show False using \<open>sig \<noteq> []\<close> by (simp add: b64url_decode_def b64decode_def)
qed

lemma without_dset: "without k (dset k v d) = without k d"
  by (induction d) (auto simp: without_def)

lemma without_other: "\<forall>x \<in> set (dkeys d). x \<noteq> k \<Longrightarrow> without k d = d"
  unfolding without_def by (rule filter_True) auto

lemma proof_options_keys:
  "dget (opt_field k v) x = (if x = k then map_option PStr v else None)"
  "set (dkeys (opt_field k v)) \<subseteq> {k}"
  by (auto simp: opt_field_def split: option.splits)

lemma w3c_roundtrip_lemma:
  assumes "keypair_ok kl sk pk" and "kl_jcs_total kl" and "vm \<noteq> []" and "purpose \<noteq> []"
    and "(case created of Some c \<Rightarrow> c | None \<Rightarrow> kl_stamp kl now) \<noteq> []"
  shows "\<exists>signed. generate_w3c_proof kl now document sk vm purpose None created domain challenge = Inr signed \<and>
    without ''proof'' signed = without ''proof'' document \<and>
    (verify_w3c_proof kl signed pk ep ed ec \<longleftrightarrow> (ep = None \<or> ep = Some purpose) \<and> (ed = None \<or> ed = domain) \<and> (ec = None \<or> ec = challenge))"
proof -
  let ?stamp = "case created of Some c \<Rightarrow> c | None \<Rightarrow> kl_stamp kl now"
  obtain ty where ty: "proof_type_of_key sk = Inr ty" "check_proof_type ty sk = Inr ()" "key_fits (PStr ty) pk" "ty \<noteq> []"
    using assms(1) by (cases sk; cases pk) (auto simp: keypair_ok_def proof_type_of_key_def check_proof_type_def key_fits_def PROOF_TYPE_SECP256K1_def PROOF_TYPE_ED25519_def)
  let ?opts = "[(''type'', PStr ty), (''created'', PStr ?stamp), (''verificationMethod'', PStr vm), (''proofPurpose'', PStr purpose)] @
           opt_field ''domain'' domain @ opt_field ''challenge'' challenge"
  obtain inp where input: "compute_signing_input kl (without ''proof'' document) ?opts = Inr inp"
    using assms(2) by (auto simp: compute_signing_input_def kl_jcs_total_def) (metis bindE_simps(2))
  obtain sig where sig: "sign_proof kl sk inp = Inr sig" "check_signature kl pk inp sig" "sig \<noteq> []"
    using signed_checks[OF assms(1)] by blast
  let ?proof = "dset ''proofValue'' (PStr (b64url_encode sig)) ?opts"
  let ?signed = "dset ''proof'' (PDict ?proof) document"
  have gen: "generate_w3c_proof kl now document sk vm purpose None created domain challenge = Inr ?signed"
    unfolding generate_w3c_proof_def option.case ty(1) bindE_simps ty(2) Let_def input sig(1) ..
  have keys: "\<forall>x \<in> set (dkeys ?opts). x \<noteq> ''proofValue''" using proof_options_keys(2) by fastforce
  have w: "without ''proofValue'' ?proof = ?opts" unfolding without_dset by (rule without_other[OF keys])
  have wd: "without ''proof'' ?signed = without ''proof'' document" by (rule without_dset)
  have pr: "oget ?signed ''proof'' = PDict ?proof" by (simp add: oget_def)
  have g: "dgetd ?proof ''type'' PNone = PStr ty" "dgetd ?proof ''proofValue'' PNone = PStr (b64url_encode sig)"
    "dgetd ?proof ''proofPurpose'' PNone = PStr purpose" "dgetd ?proof ''verificationMethod'' PNone = PStr vm"
    "dgetd ?proof ''created'' PNone = PStr ?stamp" "dgetd ?proof ''domain'' PNone = (case domain of None \<Rightarrow> PNone | Some s \<Rightarrow> PStr s)"
    "dgetd ?proof ''challenge'' PNone = (case challenge of None \<Rightarrow> PNone | Some s \<Rightarrow> PStr s)"
    unfolding dgetd_dset by (auto simp: dgetd_def dget_append proof_options_keys(1) split: option.splits)
  have t: "truthy (PDict ?proof)" "truthy (PStr ty)" "truthy (PStr (b64url_encode sig))" "truthy (PStr purpose)" "truthy (PStr vm)" "truthy (PStr ?stamp)"
    using ty(4) assms(3-5) b64url_nonempty[OF sig(3)] by simp_all
  have e: "expected ep (PStr purpose) \<longleftrightarrow> ep = None \<or> ep = Some purpose"
    "expected ed (case domain of None \<Rightarrow> PNone | Some s \<Rightarrow> PStr s) \<longleftrightarrow> ed = None \<or> ed = domain"
    "expected ec (case challenge of None \<Rightarrow> PNone | Some s \<Rightarrow> PStr s) \<longleftrightarrow> ec = None \<or> ec = challenge"
    by (auto simp: expected_def split: option.splits)
  have "try_verify_w3c_proof kl ?signed pk ep ed ec =
    Inr ((ep = None \<or> ep = Some purpose) \<and> (ed = None \<or> ed = domain) \<and> (ec = None \<or> ec = challenge))"
    unfolding try_verify_w3c_proof_def pr Let_def pget.simps g bindE_simps hkey_str pyval.case w wd input b64url_value_def b64url_roundtrip e
    by (simp only: t ty(3) sig(2) not_True_eq_False if_False simp_thms if_True) (auto split: if_splits)
  then show ?thesis using gen wd by (intro exI[of _ ?signed]) (simp add: verify_w3c_proof_def)
qed

text \<open>The two uses of it: without expectations, and the shape of what was signed.\<close>

lemma w3c_proof_verifies:
  assumes "keypair_ok kl sk pk" and "kl_jcs_total kl" and "vm \<noteq> []" and "purpose \<noteq> []"
    and "(case created of Some c \<Rightarrow> c | None \<Rightarrow> kl_stamp kl now) \<noteq> []"
  shows "\<exists>signed. generate_w3c_proof kl now document sk vm purpose None created domain challenge = Inr signed \<and> verify_w3c_proof kl signed pk None None None"
  using w3c_roundtrip_lemma[OF assms, of document domain challenge None None None] by auto

lemma w3c_proof_shape:
  assumes "generate_w3c_proof kl now document sk vm purpose None created domain challenge = Inr out"
  shows "\<exists>p. oget out ''proof'' = PDict p \<and> dgetd p ''verificationMethod'' PNone = PStr vm \<and> din ''proof'' out"
proof -
  obtain ty stamp sig where s: "out = dset ''proof'' (PDict (dset ''proofValue'' sig
      ([(''type'', PStr ty), (''created'', PStr stamp), (''verificationMethod'', PStr vm), (''proofPurpose'', PStr purpose)] @
        opt_field ''domain'' domain @ opt_field ''challenge'' challenge))) document"
    using assms by (auto simp: generate_w3c_proof_def Let_def bindE_Inr_iff simp del: append_Cons)
  show ?thesis unfolding s by (simp add: oget_def dgetd_def din_def)
qed

section \<open>A library for examples\<close>

definition example_keys :: keylib where
  "example_keys = \<lparr>kl_on_curve = (\<lambda>_ _ _. True), kl_point = (\<lambda>c b. Inr (ECPub c 1 1)), kl_compressed = (\<lambda>_. [2]), kl_b58decode = (\<lambda>s. Inr (encode s)),
     kl_b58encode = (\<lambda>b. map (\<lambda>x. char_of (unat x)) b), kl_ecdsa = (\<lambda>pk d r s. r = 1 \<and> s = 1), kl_ed = (\<lambda>k sig d. sig = [1]),
     kl_sign = (\<lambda>sk d. (1, 1)), kl_ed_sign = (\<lambda>sk d. [1]), kl_dss = (\<lambda>b. Inr (1, 1)), kl_sha256 = (\<lambda>b. b), kl_jcs = (\<lambda>v. Inr []), kl_str = (\<lambda>v. ''''),
     kl_float = (\<lambda>s. Inr (11/10)), kl_stamp = (\<lambda>t. replicate (Suc (nat \<lfloor>t\<rfloor>)) CHR ''1''), kl_iso = (\<lambda>c. Inr (of_nat (length c - 1), True))\<rparr>"

lemma example_keys_ok: "keypair_ok example_keys (ECPriv b) (ECPub c x y)" "kl_jcs_total example_keys" "kl_stamp example_keys t \<noteq> []"
  by (simp_all add: keypair_ok_def kl_jcs_total_def example_keys_def)

section \<open>Properties\<close>

text \<open>
  C34. A proof that was generated verifies under the public key of the pair exactly when the purpose, the domain and the
  challenge the verifier expects are those of the proof.
\<close>
theorem w3c_proof_roundtrip:
  assumes "keypair_ok kl sk pk" and "kl_jcs_total kl" and "vm \<noteq> []" and "purpose \<noteq> []"
    and "(case created of Some c \<Rightarrow> c | None \<Rightarrow> kl_stamp kl now) \<noteq> []"
  shows "\<exists>signed. generate_w3c_proof kl now document sk vm purpose None created domain challenge = Inr signed \<and>
    without ''proof'' signed = without ''proof'' document \<and>
    (verify_w3c_proof kl signed pk ep ed ec \<longleftrightarrow> (ep = None \<or> ep = Some purpose) \<and> (ed = None \<or> ed = domain) \<and> (ec = None \<or> ec = challenge))"
  by (rule w3c_roundtrip_lemma[OF assms])

theorem w3c_proof_roundtrip_witness:
  "\<exists>out. generate_w3c_proof example_keys 5 [(''id'', PStr ''d'')] (ECPriv []) ''d#key-1'' ''assertionMethod'' None None (Some ''shop'') None = Inr out \<and>
    without ''proof'' out = without ''proof'' [(''id'', PStr ''d'')] \<and>
    \<not> verify_w3c_proof example_keys out (ECPub ''secp256k1'' 1 1) (Some ''assertionMethod'') (Some ''bank'') None"
proof -
  have n: "''d#key-1'' \<noteq> []" "''assertionMethod'' \<noteq> []" "(case None of Some c \<Rightarrow> c | None \<Rightarrow> kl_stamp example_keys 5) \<noteq> []"
    by (simp_all add: example_keys_ok(3))
  show ?thesis
    using w3c_proof_roundtrip[OF example_keys_ok(1,2) n, where document = "[(''id'', PStr ''d'')]" and ep = "Some ''assertionMethod''" and
      ed = "Some ''bank''" and ec = None and domain = "Some ''shop''" and challenge = None] by auto
qed

end
