(* ===== verification/DidDoc.thy ===== *)
theory DidDoc
  imports W3cProof
begin

text \<open>
  DID documents (\<open>authentication/did_wba.py\<close>): creation with and without a key-bound identifier, resolution over HTTPS,
  the choice of a verification method.  Key pairs are arguments, the web server is the function \<open>fetch\<close> from addresses to
  JSON values; the PEM form of the keys is the library's.
\<close>

section \<open>Names\<close>

definition VM_KEY_AUTH :: string where "VM_KEY_AUTH = ''key-1''"
definition VM_KEY_E2EE_SIGNING :: string where "VM_KEY_E2EE_SIGNING = ''key-2''"
definition VM_KEY_E2EE_AGREEMENT :: string where "VM_KEY_E2EE_AGREEMENT = ''key-3''"

definition is_digit :: "char \<Rightarrow> bool" where
  "is_digit c = (let n = of_char c :: nat in 48 \<le> n \<and> n \<le> 57)"

text \<open>The pattern ends with \<open>$\<close>, which also matches before a final line feed.\<close>

definition chomp :: "string \<Rightarrow> string" where
  "chomp s = (if s \<noteq> [] \<and> last s = CHR 0x0A then butlast s else s)"

definition is_ip_address :: "string \<Rightarrow> bool" where
  "is_ip_address hostname =
     (let v4 = split_on (\<lambda>c. c = CHR ''.'') (chomp hostname); v6 = split_on (\<lambda>c. c = CHR '':'') (chomp hostname) in
      length v4 = 4 \<and> list_all (\<lambda>p. 1 \<le> length p \<and> length p \<le> 3 \<and> list_all is_digit p) v4 \<or>
      3 \<le> length v6 \<and> length v6 \<le> 8 \<and> list_all (\<lambda>p. length p \<le> 4 \<and> list_all (\<lambda>c. hexval c \<noteq> None) p) v6)"

text \<open>\<open>urllib.parse.unquote\<close>, on the bytes of the text.\<close>

fun unquote :: "string \<Rightarrow> string" where
  "unquote [] = []"
| "unquote (c # s) =
     (if c = CHR ''%'' then (case s of
         a # b # r \<Rightarrow> (case (hexval a, hexval b) of
             (Some x, Some y) \<Rightarrow> char_of (x * 16 + y) # unquote r
           | _ \<Rightarrow> c # unquote s)
       | _ \<Rightarrow> c # unquote s)
      else c # unquote s)"

definition did_base :: "string \<Rightarrow> int option \<Rightarrow> string" where
  "did_base hostname port = ''did:wba:'' @ hostname @ (case port of None \<Rightarrow> '''' | Some p \<Rightarrow> ''%3A'' @ show_int p)"

section \<open>Creation\<close>

type_synonym keytable = "(string \<times> privkey \<times> pubkey) list"

definition build_e2ee_entries :: "keylib \<Rightarrow> string \<Rightarrow> privkey \<times> pubkey \<Rightarrow> privkey \<times> bytes \<Rightarrow> (pyval list \<times> pyval list \<times> keytable) result" where
  "build_e2ee_entries kl did r1 x =
     bindE (secp256r1_public_key_to_jwk (snd r1)) (\<lambda>jwk.
     Inr ([PDict [(''id'', PStr (did @ ''#'' @ VM_KEY_E2EE_SIGNING)), (''type'', PStr ''EcdsaSecp256r1VerificationKey2019''), (''controller'', PStr did),
             (''publicKeyJwk'', jwk)],
           PDict [(''id'', PStr (did @ ''#'' @ VM_KEY_E2EE_AGREEMENT)), (''type'', PStr ''X25519KeyAgreementKey2019''), (''controller'', PStr did),
             (''publicKeyMultibase'', PStr (public_key_to_multibase kl (snd x)))]],
          [PStr (did @ ''#'' @ VM_KEY_E2EE_AGREEMENT)],
          [(VM_KEY_E2EE_SIGNING, r1), (VM_KEY_E2EE_AGREEMENT, fst x, XPub (snd x))]))"

text \<open>A service whose id begins with \<open>#\<close> gets the DID in front.\<close>

definition service_entry :: "string \<Rightarrow> pyval \<Rightarrow> pyval result" where
  "service_entry did svc =
     bindE (pget svc ''id'' (PStr '''')) (\<lambda>i. case (i, svc) of
         (PStr s, PDict d) \<Rightarrow> Inr (if take 1 s = ''#'' then PDict (dset ''id'' (PStr (did @ s)) d) else svc)
       | _ \<Rightarrow> Inl AttributeError)"

record doc_options =
  do_ad_url :: "string option"
  do_services :: "pyval list"
  do_purpose :: string
  do_vm :: "string option"
  do_domain :: "string option"
  do_challenge :: "string option"
  do_created :: "string option"
  do_e2ee :: "((privkey \<times> pubkey) \<times> (privkey \<times> bytes)) option"

definition build_document :: "keylib \<Rightarrow> real \<Rightarrow> string \<Rightarrow> privkey \<times> pubkey \<Rightarrow> doc_options \<Rightarrow> (pyobj \<times> keytable) result" where
  "build_document kl now did k1 opts =
     bindE (public_key_to_jwk kl (snd k1)) (\<lambda>jwk.
     let vm1 = did @ ''#'' @ VM_KEY_AUTH;
         entry = PDict [(''id'', PStr vm1), (''type'', PStr ''EcdsaSecp256k1VerificationKey2019''), (''controller'', PStr did), (''publicKeyJwk'', jwk)];
         contexts = map PStr [''https://www.w3.org/ns/did/v1'', ''https://w3id.org/security/suites/jws-2020/v1'', ''https://w3id.org/security/suites/secp256k1-2019/v1'']
     in bindE (case do_e2ee opts of None \<Rightarrow> Inr ([], None, []) | Some (r1, x) \<Rightarrow>
             bindE (build_e2ee_entries kl did r1 x) (\<lambda>(vms, refs, ks). Inr (vms, Some refs, ks))) (\<lambda>(vms, refs, ks).
        bindE (mapE (service_entry did) (do_services opts)) (\<lambda>svcs.
        let services = (case do_ad_url opts of None \<Rightarrow> []
              | Some u \<Rightarrow> [PDict [(''id'', PStr (did @ ''#ad'')), (''type'', PStr ''AgentDescription''), (''serviceEndpoint'', PStr u)]]) @ svcs;
            doc = [(''@context'', PList (contexts @ (case refs of None \<Rightarrow> [] | Some _ \<Rightarrow> [PStr ''https://w3id.org/security/suites/x25519-2019/v1'']))),
                   (''id'', PStr did), (''verificationMethod'', PList (entry # vms)), (''authentication'', PList [PStr vm1])] @
                  (case refs of None \<Rightarrow> [] | Some rs \<Rightarrow> [(''keyAgreement'', PList rs)]) @
                  (if services = [] then [] else [(''service'', PList services)])
        in bindE (generate_w3c_proof kl now doc (fst k1) (case do_vm opts of Some v \<Rightarrow> v | None \<Rightarrow> vm1) (do_purpose opts) None (do_created opts)
               (do_domain opts) (do_challenge opts)) (\<lambda>signed. Inr (signed, (VM_KEY_AUTH, k1) # ks)))))"

definition check_hostname :: "string \<Rightarrow> unit result" where
  "check_hostname hostname =
     (if hostname = [] then Inl (ValueError ''Hostname cannot be empty'')
      else if is_ip_address hostname then Inl (ValueError ''Hostname cannot be an IP address'') else Inr ())"

definition create_did_wba_document :: "keylib \<Rightarrow> real \<Rightarrow> string \<Rightarrow> int option \<Rightarrow> string list \<Rightarrow> privkey \<times> pubkey \<Rightarrow> doc_options \<Rightarrow> (pyobj \<times> keytable) result" where
  "create_did_wba_document kl now hostname port path k1 opts =
     bindE (check_hostname hostname) (\<lambda>_.
     build_document kl now (did_base hostname port @ (if path = [] then [] else CHR '':'' # join_with '':'' path)) k1 opts)"

definition create_did_with_key_binding :: "keylib \<Rightarrow> real \<Rightarrow> string \<Rightarrow> int option \<Rightarrow> string list option \<Rightarrow> privkey \<times> pubkey \<Rightarrow> doc_options \<Rightarrow>
    (pyobj \<times> keytable) result" where
  "create_did_with_key_binding kl now hostname port prefix k1 opts =
     bindE (check_hostname hostname) (\<lambda>_.
     bindE (compute_jwk_fingerprint kl (snd k1)) (\<lambda>fp.
     let path = (case prefix of Some p \<Rightarrow> p | None \<Rightarrow> [''user'']) @ [''k1_'' @ fp]
     in build_document kl now (did_base hostname port @ '':'' @ join_with '':'' path) k1 opts))"

section \<open>Verification methods of a document\<close>

text \<open>The second loop of the lookup: embedded methods, and references to the first list.\<close>

fun find_in_authentication :: "pyval \<Rightarrow> pyval list \<Rightarrow> pyval list \<Rightarrow> pyval option result" where
  "find_in_authentication vid vms [] = Inr None"
| "find_in_authentication vid vms (a # as) = (case a of
      PStr s \<Rightarrow> if py_eq a vid then bindE (find_id vid vms) (\<lambda>r. case r of Some m \<Rightarrow> Inr (Some m) | None \<Rightarrow> find_in_authentication vid vms as)
                else find_in_authentication vid vms as
    | PDict d \<Rightarrow> if py_eq (oget d ''id'') vid then Inr (Some a) else find_in_authentication vid vms as
    | _ \<Rightarrow> find_in_authentication vid vms as)"

definition find_verification_method :: "pyobj \<Rightarrow> pyval \<Rightarrow> pyval option result" where
  "find_verification_method doc vid =
     bindE (py_iter (dgetd doc ''verificationMethod'' (PList []))) (\<lambda>vms.
     bindE (find_id vid vms) (\<lambda>r. case r of
         Some m \<Rightarrow> Inr (Some m)
       | None \<Rightarrow> bindE (py_iter (dgetd doc ''authentication'' (PList []))) (find_in_authentication vid vms)))"

definition fragment :: "string \<Rightarrow> string" where
  "fragment s = last (split_on (\<lambda>c. c = CHR ''#'') s)"

definition select_authentication_method :: "pyobj \<Rightarrow> (pyval \<times> string) result" where
  "select_authentication_method doc =
     (let auth = dgetd doc ''authentication'' (PList []) in
      if \<not> truthy auth then Inl (ValueError ''DID document is missing authentication methods.'')
      else bindE (py_nth auth 0) (\<lambda>a. case a of
          PStr s \<Rightarrow> bindE (find_verification_method doc a) (\<lambda>r. case r of
              None \<Rightarrow> Inl (ValueError ''Referenced verification method not found'')
            | Some m \<Rightarrow> Inr (m, fragment s))
        | PDict d \<Rightarrow> (case dget d ''id'' of
              None \<Rightarrow> Inl (ValueError ''Embedded verification method missing id'')
            | Some (PStr s) \<Rightarrow> Inr (a, fragment s)
            | Some _ \<Rightarrow> Inl AttributeError)
        | PList xs \<Rightarrow> if PStr ''id'' \<in> set xs then Inl TypeError else Inl (ValueError ''Embedded verification method missing id'')
        | _ \<Rightarrow> Inl TypeError))"

section \<open>Resolution\<close>

definition did_url :: "string \<Rightarrow> string list \<Rightarrow> string" where
  "did_url domain path =
     ''https://'' @ domain @ (if path = [] then ''/.well-known/did.json'' else ''/'' @ join_with ''/'' path @ ''/did.json'')"

definition check_document_proof :: "keylib \<Rightarrow> pyobj \<Rightarrow> bool result" where
  "check_document_proof kl doc =
     bindE (pget (oget doc ''proof'') ''verificationMethod'' PNone) (\<lambda>vm_id.
     if \<not> truthy vm_id then Inr False
     else bindE (find_verification_method doc vm_id) (\<lambda>r. case r of
         Some (PDict m) \<Rightarrow> (case extract_public_key kl m of
             Inl (ValueError _) \<Rightarrow> Inr False
           | Inl e \<Rightarrow> Inl e
           | Inr pk \<Rightarrow> Inr (verify_w3c_proof kl doc pk None None None))
       | _ \<Rightarrow> Inr False))"

text \<open>A wrong format raises; everything after that is caught and gives no document.\<close>

definition fetch_document :: "keylib \<Rightarrow> (string \<Rightarrow> pyval result) \<Rightarrow> string \<Rightarrow> string \<Rightarrow> bool \<Rightarrow> pyobj option result" where
  "fetch_document kl fetch url did verify =
     bindE (fetch url) (\<lambda>v. bindE (pget v ''id'' PNone) (\<lambda>i.
     if i \<noteq> PStr did then Inl (ValueError ''DID document ID mismatch'')
     else case v of
       PDict doc \<Rightarrow> if verify \<and> din ''proof'' doc
         then bindE (check_document_proof kl doc) (\<lambda>ok. Inr (if ok then Some doc else None))
         else Inr (Some doc)
     | _ \<Rightarrow> Inl AttributeError))"

definition resolve_did_wba_document :: "keylib \<Rightarrow> (string \<Rightarrow> pyval result) \<Rightarrow> string \<Rightarrow> bool \<Rightarrow> pyobj option result" where
  "resolve_did_wba_document kl fetch did verify =
     (if take 8 did \<noteq> ''did:wba:'' then Inl (ValueError ''Invalid DID format: must start with did:wba:'')
      else let parts = split_on (\<lambda>c. c = CHR '':'') did in
        if length parts < 4 then Inl (ValueError ''Invalid DID format: missing domain'')
        else (case fetch_document kl fetch (did_url (unquote (parts ! 2)) (drop 3 parts)) did verify of Inr r \<Rightarrow> Inr r | Inl _ \<Rightarrow> Inr None))"


section \<open>Names and addresses\<close>

lemma split_on_nonempty: "split_on P s \<noteq> []"
  by (induction s) (auto split: list.splits)

lemma split_on_plain: "\<forall>c \<in> set w. \<not> P c \<Longrightarrow> split_on P w = [w]"
  by (induction w) auto

lemma split_on_append: "\<forall>c \<in> set w. \<not> P c \<Longrightarrow> P x \<Longrightarrow> split_on P (w @ x # s) = w # split_on P s"
  by (induction w) auto

lemma split_join: "ws \<noteq> [] \<Longrightarrow> list_all (\<lambda>w. x \<notin> set w) ws \<Longrightarrow> split_on (\<lambda>c. c = x) (join_with [x] ws) = ws"
proof (induction "[x]" ws rule: join_with.induct)
  case (2 w)
  then show ?case by (auto intro!: split_on_plain)
next
  case (3 w v ws)
  have "split_on (\<lambda>c. c = x) (w @ x # join_with [x] (v # ws)) = w # split_on (\<lambda>c. c = x) (join_with [x] (v # ws))"
    using 3 by (intro split_on_append) auto
  then show ?case using 3 by simp
qed simp

lemma digit_char_plain: "n < 10 \<Longrightarrow> digit_char n \<notin> {CHR ''%'', CHR '':''}"
proof -
  assume n: "n < 10"
  have "of_char (digit_char n) = n + 48" using n by (simp add: digit_char_def)
  moreover have "(of_char (CHR ''%'') :: nat) = 37" "(of_char (CHR '':'') :: nat) = 58" by simp_all
  ultimately show ?thesis using n by auto
qed

lemma show_nat_plain: "set (show_nat n) \<inter> {CHR ''%'', CHR '':''} = {}"
proof (induction n rule: show_nat.induct)
  case (1 n)
  show ?case
  proof (cases "n < 10")
    case True
    then show ?thesis using digit_char_plain[OF True] by (subst show_nat.simps) auto
  next
    case False
    then show ?thesis using 1[OF False] digit_char_plain[of "n mod 10"] by (subst show_nat.simps) auto
  qed
qed

lemma show_int_plain: "CHR ''%'' \<notin> set (show_int p)" "CHR '':'' \<notin> set (show_int p)"
  using show_nat_plain by (auto simp: show_int_def)

lemma unquote_plain: "CHR ''%'' \<notin> set s \<Longrightarrow> unquote (s @ r) = s @ unquote r"
  by (induction s) auto

lemma unquote_plain_end: "CHR ''%'' \<notin> set s \<Longrightarrow> unquote s = s"
  using unquote_plain[of s "[]"] by simp

lemma unquote_colon: "unquote (''%3A'' @ s) = CHR '':'' # unquote s"
proof -
  have "(of_char (CHR '':'') :: nat) = 58" by simp
  then have c: "char_of (58 :: nat) = CHR '':''" by (metis char_of_char)
  have "unquote (''%3A'' @ s) = char_of (3 * 16 + 10 :: nat) # unquote s" by (simp add: hexval.simps)
  then show ?thesis by (simp add: c)
qed

definition did_domain :: "string \<Rightarrow> int option \<Rightarrow> string" where
  "did_domain hostname port = hostname @ (case port of None \<Rightarrow> '''' | Some p \<Rightarrow> CHR '':'' # show_int p)"

lemma did_parts:
  assumes "CHR '':'' \<notin> set hostname" and "list_all (\<lambda>w. CHR '':'' \<notin> set w) path" and "path \<noteq> []"
  shows "split_on (\<lambda>c. c = CHR '':'') (did_base hostname port @ CHR '':'' # join_with '':'' path) =
    ''did'' # ''wba'' # (hostname @ (case port of None \<Rightarrow> '''' | Some p \<Rightarrow> ''%3A'' @ show_int p)) # path"
proof -
  let ?h = "hostname @ (case port of None \<Rightarrow> '''' | Some p \<Rightarrow> ''%3A'' @ show_int p)"
  have h: "CHR '':'' \<notin> set ?h" using assms(1) show_int_plain(2) by (auto split: option.splits)
  have "did_base hostname port @ CHR '':'' # join_with '':'' path = join_with '':'' (''did'' # ''wba'' # ?h # path)"
    using assms(3) by (cases path) (simp_all add: did_base_def)
  moreover have "split_on (\<lambda>c. c = CHR '':'') (join_with '':'' (''did'' # ''wba'' # ?h # path)) = ''did'' # ''wba'' # ?h # path"
    using h assms(2) by (intro split_join) simp_all
  ultimately show ?thesis by simp
qed

lemma unquote_domain:
  assumes "CHR ''%'' \<notin> set hostname"
  shows "unquote (hostname @ (case port of None \<Rightarrow> '''' | Some p \<Rightarrow> ''%3A'' @ show_int p)) = did_domain hostname port"
proof (cases port)
  case None
  then show ?thesis using unquote_plain_end[OF assms] by (simp add: did_domain_def)
next
  case (Some p)
  have "unquote (''%3A'' @ show_int p) = CHR '':'' # show_int p"
    unfolding unquote_colon unquote_plain_end[OF show_int_plain(1)] ..
  then show ?thesis unfolding Some option.case unquote_plain[OF assms] did_domain_def by (simp only: option.case)
qed

section \<open>Created documents\<close>

lemma public_key_to_jwk_Inr:
  assumes "public_key_to_jwk kl pk = Inr jwk"
  shows "\<exists>c x y kid. pk = ECPub c x y \<and> x < 256 ^ 32 \<and> y < 256 ^ 32 \<and> coord_text x = Inr (b64url_encode (be_bytes 32 x)) \<and>
    coord_text y = Inr (b64url_encode (be_bytes 32 y)) \<and>
    jwk = PDict [(''kty'', PStr ''EC''), (''crv'', PStr ''secp256k1''), (''x'', PStr (b64url_encode (be_bytes 32 x))),
      (''y'', PStr (b64url_encode (be_bytes 32 y))), (''kid'', kid)]"
proof -
  have c: "coord_text n = Inr t \<Longrightarrow> n < 256 ^ 32 \<and> t = b64url_encode (be_bytes 32 n)" for n t
  proof -
    assume a: "coord_text n = Inr t"
    have "int n < int (256 ^ 32)" using a by (auto simp: coord_text_def to_be_def bindE_Inr_iff split: if_splits)
    then have n: "n < 256 ^ 32" by (simp only: of_nat_less_iff)
    then show ?thesis using a unfolding coord_text_def to_be_nat[OF n] by simp
  qed
  obtain q x y where pk: "pk = ECPub q x y" using assms by (cases pk) (auto simp: public_key_to_jwk_def public_numbers_def)
  obtain tx ty where t: "coord_text x = Inr tx" "coord_text y = Inr ty"
    using assms by (auto simp: public_key_to_jwk_def public_numbers_def pk bindE_Inr_iff)
  show ?thesis
    using assms c[OF t(1)] c[OF t(2)] t by (simp add: public_key_to_jwk_def public_numbers_def pk) blast
qed

lemma coords_of_jwk:
  assumes "x < 256 ^ 32" and "y < 256 ^ 32" and "kl_on_curve kl c x y" and "c \<in> set CURVES"
    and "jwk = PDict [(''kty'', PStr ''EC''), (''crv'', PStr c), (''x'', PStr (b64url_encode (be_bytes 32 x))),
      (''y'', PStr (b64url_encode (be_bytes 32 y))), (''kid'', kid)]"
  shows "extract_ec_public_key_from_jwk kl jwk = Inr (ECPub c x y)"
proof -
  have "jwk_coord jwk ''x'' = Inr x" "jwk_coord jwk ''y'' = Inr y"
    by (simp_all add: assms(5) jwk_coord_def b64url_value_def from_be_bytes[OF assms(1)] from_be_bytes[OF assms(2)])
  then have "jwk_point kl c jwk = Inr (ECPub c x y)" by (simp add: jwk_point_def curve_point_def assms(3))
  moreover have "c \<noteq> []" using assms(4) by (auto simp: CURVES_def)
  ultimately show ?thesis
    using assms(4) by (simp add: extract_ec_public_key_from_jwk_def as_value_error_def assms(5) dgetd_def)
qed

text \<open>What a created document holds.\<close>

lemma build_document_fields:
  assumes "build_document kl now did k1 opts = Inr (doc, ks)" and "do_vm opts = None"
  shows "\<exists>jwk vms doc0. public_key_to_jwk kl (snd k1) = Inr jwk \<and> oget doc ''id'' = PStr did \<and>
    oget doc ''verificationMethod'' = PList (PDict [(''id'', PStr (did @ ''#'' @ VM_KEY_AUTH)), (''type'', PStr ''EcdsaSecp256k1VerificationKey2019''),
      (''controller'', PStr did), (''publicKeyJwk'', jwk)] # vms) \<and>
    generate_w3c_proof kl now doc0 (fst k1) (did @ ''#'' @ VM_KEY_AUTH) (do_purpose opts) None (do_created opts) (do_domain opts) (do_challenge opts) = Inr doc \<and>
    oget doc ''authentication'' = PList [PStr (did @ ''#'' @ VM_KEY_AUTH)]"
proof -
  obtain jwk where jwk: "public_key_to_jwk kl (snd k1) = Inr jwk"
    using assms(1) by (cases "public_key_to_jwk kl (snd k1)") (simp_all add: build_document_def)
  let ?vm1 = "did @ ''#'' @ VM_KEY_AUTH"
  let ?entry = "PDict [(''id'', PStr ?vm1), (''type'', PStr ''EcdsaSecp256k1VerificationKey2019''), (''controller'', PStr did), (''publicKeyJwk'', jwk)]"
  note b = assms(1)[unfolded build_document_def jwk bindE_simps Let_def assms(2) option.case]
  obtain cx vms rest where g: "generate_w3c_proof kl now ([(''@context'', cx), (''id'', PStr did), (''verificationMethod'', PList (?entry # vms)),
      (''authentication'', PList [PStr ?vm1])] @ rest) (fst k1) ?vm1 (do_purpose opts) None (do_created opts) (do_domain opts) (do_challenge opts) = Inr doc"
    using b by (auto simp: bindE_Inr_iff simp del: append_Cons)
  let ?doc0 = "[(''@context'', cx), (''id'', PStr did), (''verificationMethod'', PList (?entry # vms)), (''authentication'', PList [PStr ?vm1])] @ rest"
  obtain p where p: "doc = dset ''proof'' p ?doc0"
    using g by (auto simp: generate_w3c_proof_def Let_def bindE_Inr_iff simp del: append_Cons)
  have "oget doc ''id'' = PStr did" "oget doc ''verificationMethod'' = PList (?entry # vms)" "oget doc ''authentication'' = PList [PStr ?vm1]"
    unfolding p oget_def dgetd_dset by (simp_all add: dgetd_def)
  then show ?thesis using jwk g by blast
qed

text \<open>
  C33. Publish and resolve: a document created for a host name, a port and a path is found again under its own DID when the
  server delivers it at the address the DID stands for, and its proof verifies against the key in it.
\<close>
theorem created_document_resolves:
  assumes "create_did_wba_document kl now hostname port path (sk, ECPub ''secp256k1'' x y) opts = Inr (doc, ks)"
    and "path \<noteq> []" and "list_all (\<lambda>w. CHR '':'' \<notin> set w) path" and "CHR '':'' \<notin> set hostname" and "CHR ''%'' \<notin> set hostname"
    and "keypair_ok kl sk (ECPub ''secp256k1'' x y)" and "kl_on_curve kl ''secp256k1'' x y" and "kl_jcs_total kl"
    and "do_vm opts = None" and "do_purpose opts \<noteq> []" and "(case do_created opts of Some c \<Rightarrow> c | None \<Rightarrow> kl_stamp kl now) \<noteq> []"
    and "fetch (did_url (did_domain hostname port) path) = Inr (PDict doc)"
  shows "oget doc ''id'' = PStr (did_base hostname port @ '':'' @ join_with '':'' path) \<and>
    resolve_did_wba_document kl fetch (did_base hostname port @ '':'' @ join_with '':'' path) True = Inr (Some doc)"
proof -
  let ?did = "did_base hostname port @ CHR '':'' # join_with '':'' path"
  let ?pk = "ECPub ''secp256k1'' x y"
  let ?vm1 = "?did @ ''#'' @ VM_KEY_AUTH"
  have b: "build_document kl now ?did (sk, ?pk) opts = Inr (doc, ks)"
    using assms(1,2) by (auto simp: create_did_wba_document_def bindE_Inr_iff)
  obtain jwk vms doc0 where f: "public_key_to_jwk kl ?pk = Inr jwk" "oget doc ''id'' = PStr ?did"
    "oget doc ''verificationMethod'' = PList (PDict [(''id'', PStr ?vm1), (''type'', PStr ''EcdsaSecp256k1VerificationKey2019''),
      (''controller'', PStr ?did), (''publicKeyJwk'', jwk)] # vms)"
    "generate_w3c_proof kl now doc0 sk ?vm1 (do_purpose opts) None (do_created opts) (do_domain opts) (do_challenge opts) = Inr doc"
    using build_document_fields[OF b assms(9)] unfolding fst_conv snd_conv by blast
  let ?m = "[(''id'', PStr ?vm1), (''type'', PStr ''EcdsaSecp256k1VerificationKey2019''), (''controller'', PStr ?did), (''publicKeyJwk'', jwk)]"
  obtain kid where j: "x < 256 ^ 32" "y < 256 ^ 32" "jwk = PDict [(''kty'', PStr ''EC''), (''crv'', PStr ''secp256k1''),
      (''x'', PStr (b64url_encode (be_bytes 32 x))), (''y'', PStr (b64url_encode (be_bytes 32 y))), (''kid'', kid)]"
    using public_key_to_jwk_Inr[OF f(1)] unfolding pubkey.inject by blast
  have "extract_ec_public_key_from_jwk kl jwk = Inr ?pk"
    by (rule coords_of_jwk[OF j(1,2) assms(7) _ j(3)]) (simp add: CURVES_def)
  then have pk: "extract_public_key kl ?m = Inr ?pk"
    by (simp add: extract_public_key_def oget_def dgetd_def jwk_of_curve_def j(3))
  have vm1: "?vm1 \<noteq> []" by simp
  obtain sdoc where s: "generate_w3c_proof kl now doc0 sk ?vm1 (do_purpose opts) None (do_created opts) (do_domain opts) (do_challenge opts) = Inr sdoc"
    "verify_w3c_proof kl sdoc ?pk None None None"
    using w3c_proof_verifies[OF assms(6,8) vm1 assms(10,11)] by blast
  have "sdoc = doc" using s(1) f(4) by (metis sum.inject(2))
  then have ver: "verify_w3c_proof kl doc ?pk None None None" using s(2) by (simp only:)
  obtain p where p: "oget doc ''proof'' = PDict p" "dgetd p ''verificationMethod'' PNone = PStr ?vm1" "din ''proof'' doc"
    using w3c_proof_shape[OF f(4)] by blast
  have vmd: "dgetd doc ''verificationMethod'' (PList []) = oget doc ''verificationMethod''"
    using f(3) by (cases "dget doc ''verificationMethod''") (simp_all add: oget_def dgetd_def)
  have find: "find_verification_method doc (PStr ?vm1) = Inr (Some (PDict ?m))"
    unfolding find_verification_method_def vmd f(3) by simp
  have "check_document_proof kl doc = Inr True"
    unfolding check_document_proof_def p(1) pget.simps p(2) bindE_simps find option.case pyval.case pk sum.case by (simp add: ver)
  then have "fetch_document kl fetch (did_url (did_domain hostname port) path) ?did True = Inr (Some doc)"
    using assms(12) f(2) p(3) by (simp add: fetch_document_def oget_def)
  moreover have "take 8 ?did = ''did:wba:''" by (simp add: did_base_def)
  ultimately have "resolve_did_wba_document kl fetch ?did True = Inr (Some doc)"
    unfolding resolve_did_wba_document_def Let_def did_parts[OF assms(4,3,2)] using assms(2) by (simp add: unquote_domain[OF assms(5)])
  then show ?thesis using f(2) by simp
qed

text \<open>
  A document created without a path has a DID that the resolver refuses whatever the server delivers: the branch for
  the well-known address is never reached.
\<close>
theorem bare_did_unresolvable:
  assumes "create_did_wba_document kl now hostname port [] k1 opts = Inr (doc, ks)" and "CHR '':'' \<notin> set hostname" and "do_vm opts = None"
  shows "oget doc ''id'' = PStr (did_base hostname port) \<and>
    resolve_did_wba_document kl fetch (did_base hostname port) verify = Inl (ValueError ''Invalid DID format: missing domain'')"
proof -
  have b: "build_document kl now (did_base hostname port) k1 opts = Inr (doc, ks)"
    using assms(1) by (auto simp: create_did_wba_document_def bindE_Inr_iff)
  let ?h = "hostname @ (case port of None \<Rightarrow> '''' | Some p \<Rightarrow> ''%3A'' @ show_int p)"
  have h: "CHR '':'' \<notin> set ?h" using assms(2) show_int_plain(2) by (auto split: option.splits)
  have "did_base hostname port = join_with '':'' [''did'', ''wba'', ?h]" by (simp add: did_base_def)
  moreover have "split_on (\<lambda>c. c = CHR '':'') (join_with '':'' [''did'', ''wba'', ?h]) = [''did'', ''wba'', ?h]"
    using h by (intro split_join) simp_all
  ultimately have parts: "length (split_on (\<lambda>c. c = CHR '':'') (did_base hostname port)) = 3" by simp
  have "take 8 (did_base hostname port) = ''did:wba:''" by (simp add: did_base_def)
  then show ?thesis
    using build_document_fields[OF b assms(3)] by (auto simp: resolve_did_wba_document_def Let_def parts)
qed

text \<open>
  A key-bound document binds: the DID ends in the fingerprint of the key in the document, so the check of the binding
  accepts that key, and accepts another key of the curve only if its fingerprint is the same.
\<close>
theorem key_binding_holds:
  assumes "create_did_with_key_binding kl now hostname port prefix (sk, ECPub ''secp256k1'' x y) opts = Inr (doc, ks)"
    and "list_all (\<lambda>w. CHR '':'' \<notin> set w) (case prefix of Some p \<Rightarrow> p | None \<Rightarrow> [''user''])" and "CHR '':'' \<notin> set hostname"
    and "kl_on_curve kl ''secp256k1'' x y" and "do_vm opts = None"
    and "public_key_to_jwk kl (ECPub ''secp256k1'' u v) = Inr jwk'" and "kl_on_curve kl ''secp256k1'' u v"
  shows "\<exists>did jwk vms m fp. oget doc ''id'' = PStr did \<and> oget doc ''verificationMethod'' = PList (PDict m # vms) \<and> oget m ''publicKeyJwk'' = jwk \<and>
    verify_did_key_binding kl did jwk = Inr True \<and> compute_jwk_fingerprint kl (ECPub ''secp256k1'' x y) = Inr fp \<and>
    verify_did_key_binding kl did jwk' = Inr (compute_jwk_fingerprint kl (ECPub ''secp256k1'' u v) = Inr fp)"
proof -
  let ?path = "\<lambda>fp. (case prefix of Some p \<Rightarrow> p | None \<Rightarrow> [''user'']) @ [''k1_'' @ fp]"
  let ?did = "\<lambda>fp. did_base hostname port @ CHR '':'' # join_with '':'' (?path fp)"
  obtain fp where fp: "compute_jwk_fingerprint kl (ECPub ''secp256k1'' x y) = Inr fp"
    and b: "build_document kl now (?did fp) (sk, ECPub ''secp256k1'' x y) opts = Inr (doc, ks)"
    using assms(1) by (auto simp: create_did_with_key_binding_def bindE_Inr_iff)
  obtain jwk vms where f: "public_key_to_jwk kl (ECPub ''secp256k1'' x y) = Inr jwk" "oget doc ''id'' = PStr (?did fp)"
    "oget doc ''verificationMethod'' = PList (PDict [(''id'', PStr (?did fp @ ''#'' @ VM_KEY_AUTH)), (''type'', PStr ''EcdsaSecp256k1VerificationKey2019''),
      (''controller'', PStr (?did fp)), (''publicKeyJwk'', jwk)] # vms)"
    using build_document_fields[OF b assms(5)] unfolding fst_conv snd_conv by blast
  have fpc: "CHR '':'' \<notin> set fp"
    using fp b64url_plain(1) by (auto simp: compute_jwk_fingerprint_def Let_def bindE_Inr_iff)
  have parts: "split_on (\<lambda>c. c = CHR '':'') (?did fp) =
    ''did'' # ''wba'' # (hostname @ (case port of None \<Rightarrow> '''' | Some p \<Rightarrow> ''%3A'' @ show_int p)) # ?path fp"
    using assms(2) fpc by (intro did_parts[OF assms(3)]) simp_all
  have key: "extract_ec_public_key_from_jwk kl j = Inr (ECPub ''secp256k1'' a c)"
    if w: "public_key_to_jwk kl (ECPub ''secp256k1'' a c) = Inr j" "kl_on_curve kl ''secp256k1'' a c" for a c j
  proof -
    obtain kid where k: "a < 256 ^ 32" "c < 256 ^ 32" "j = PDict [(''kty'', PStr ''EC''), (''crv'', PStr ''secp256k1''),
        (''x'', PStr (b64url_encode (be_bytes 32 a))), (''y'', PStr (b64url_encode (be_bytes 32 c))), (''kid'', kid)]"
      using public_key_to_jwk_Inr[OF w(1)] unfolding pubkey.inject by blast
    show ?thesis by (rule coords_of_jwk[OF k(1,2) w(2) _ k(3)]) (simp add: CURVES_def)
  qed
  have v: "verify_did_key_binding kl (?did fp) j = Inr (compute_jwk_fingerprint kl (ECPub ''secp256k1'' a c) = Inr fp)"
    if w: "public_key_to_jwk kl (ECPub ''secp256k1'' a c) = Inr j" "kl_on_curve kl ''secp256k1'' a c" for a c j
  proof -
    obtain fp' where "compute_jwk_fingerprint kl (ECPub ''secp256k1'' a c) = Inr fp'"
      using public_key_to_jwk_Inr[OF w(1)] by (auto simp: compute_jwk_fingerprint_def public_numbers_def)
    then show ?thesis
      unfolding verify_did_key_binding_def Let_def parts key[OF w] bindE_simps by (auto simp: Let_def)
  qed
  have "verify_did_key_binding kl (?did fp) jwk = Inr True" using v[OF f(1) assms(4)] fp by simp
  moreover have "oget [(''id'', PStr (?did fp @ ''#'' @ VM_KEY_AUTH)), (''type'', PStr ''EcdsaSecp256k1VerificationKey2019''),
      (''controller'', PStr (?did fp)), (''publicKeyJwk'', jwk)] ''publicKeyJwk'' = jwk" by (simp add: oget_def dgetd_def)
  ultimately show ?thesis using f(2,3) fp v[OF assms(6,7)] by blast
qed

lemma build_document_total:
  assumes "public_key_to_jwk kl pk = Inr jwk" and "keypair_ok kl sk pk" and "kl_jcs_total kl" and "\<And>t. kl_stamp kl t \<noteq> []"
  shows "\<exists>doc ks. build_document kl now did (sk, pk) \<lparr>do_ad_url = None, do_services = [], do_purpose = ''assertionMethod'', do_vm = None, do_domain = None,
    do_challenge = None, do_created = None, do_e2ee = None\<rparr> = Inr (doc, ks)"
proof -
  have vm: "did @ ''#'' @ VM_KEY_AUTH \<noteq> []" "''assertionMethod'' \<noteq> []" by simp_all
  have st: "(case None of Some c \<Rightarrow> c | None \<Rightarrow> kl_stamp kl now) \<noteq> []" using assms(4) by simp
  show ?thesis
    using w3c_proof_verifies[OF assms(2,3) vm st, of _ None None] assms(1)
    by (simp add: build_document_def Let_def del: append_Cons) (metis bindE_simps(2))
qed

abbreviation plain_options :: doc_options where
  "plain_options \<equiv> \<lparr>do_ad_url = None, do_services = [], do_purpose = ''assertionMethod'', do_vm = None, do_domain = None,
    do_challenge = None, do_created = None, do_e2ee = None\<rparr>"

lemma example_jwk: "\<exists>jwk. public_key_to_jwk example_keys (ECPub ''secp256k1'' 1 1) = Inr jwk"
  by (simp add: public_key_to_jwk_def public_numbers_def coord_text_def to_be_def)

lemma example_document: "\<exists>doc ks. build_document example_keys now did (ECPriv [], ECPub ''secp256k1'' 1 1) plain_options = Inr (doc, ks)"
  using example_jwk build_document_total[OF _ example_keys_ok] by blast

lemma example_host: "check_hostname ''shop.example'' = Inr ()"
  by (simp add: check_hostname_def is_ip_address_def chomp_def is_digit_def hexval.simps)

theorem created_document_resolves_witness:
  "\<exists>doc ks. create_did_wba_document example_keys 5 ''shop.example'' (Some 8800) [''user'', ''alice''] (ECPriv [], ECPub ''secp256k1'' 1 1) plain_options = Inr (doc, ks) \<and>
    oget doc ''id'' = PStr (did_base ''shop.example'' (Some 8800) @ '':'' @ join_with '':'' [''user'', ''alice'']) \<and>
    resolve_did_wba_document example_keys (\<lambda>u. Inr (PDict doc)) (did_base ''shop.example'' (Some 8800) @ '':'' @ join_with '':'' [''user'', ''alice'']) True = Inr (Some doc)"
proof -
  obtain doc ks where d: "create_did_wba_document example_keys 5 ''shop.example'' (Some 8800) [''user'', ''alice''] (ECPriv [], ECPub ''secp256k1'' 1 1) plain_options = Inr (doc, ks)"
    using example_document unfolding create_did_wba_document_def example_host bindE_simps by blast
  have "kl_on_curve example_keys ''secp256k1'' 1 1" by (simp add: example_keys_def)
  from created_document_resolves[OF d _ _ _ _ example_keys_ok(1) this example_keys_ok(2)]
  have "oget doc ''id'' = PStr (did_base ''shop.example'' (Some 8800) @ '':'' @ join_with '':'' [''user'', ''alice'']) \<and>
    resolve_did_wba_document example_keys (\<lambda>u. Inr (PDict doc)) (did_base ''shop.example'' (Some 8800) @ '':'' @ join_with '':'' [''user'', ''alice'']) True = Inr (Some doc)"
    by (simp add: example_keys_ok(3))
  then show ?thesis using d by blast
qed

theorem bare_did_unresolvable_witness:
  "\<exists>doc ks. create_did_wba_document example_keys 5 ''shop.example'' None [] (ECPriv [], ECPub ''secp256k1'' 1 1) plain_options = Inr (doc, ks) \<and>
    oget doc ''id'' = PStr (did_base ''shop.example'' None) \<and>
    resolve_did_wba_document example_keys (\<lambda>u. Inr (PDict doc)) (did_base ''shop.example'' None) False = Inl (ValueError ''Invalid DID format: missing domain'')"
proof -
  obtain doc ks where d: "create_did_wba_document example_keys 5 ''shop.example'' None [] (ECPriv [], ECPub ''secp256k1'' 1 1) plain_options = Inr (doc, ks)"
    using example_document unfolding create_did_wba_document_def example_host bindE_simps by blast
  have "CHR '':'' \<notin> set ''shop.example''" "do_vm plain_options = None" by simp_all
  from bare_did_unresolvable[OF d this] d show ?thesis by blast
qed

theorem key_binding_holds_witness:
  "\<exists>doc ks jwk' did jwk vms m fp. create_did_with_key_binding example_keys 5 ''shop.example'' None None (ECPriv [], ECPub ''secp256k1'' 1 1) plain_options = Inr (doc, ks) \<and>
    public_key_to_jwk example_keys (ECPub ''secp256k1'' 1 1) = Inr jwk' \<and>
    oget doc ''id'' = PStr did \<and> oget doc ''verificationMethod'' = PList (PDict m # vms) \<and> oget m ''publicKeyJwk'' = jwk \<and>
    verify_did_key_binding example_keys did jwk = Inr True \<and> compute_jwk_fingerprint example_keys (ECPub ''secp256k1'' 1 1) = Inr fp \<and>
    verify_did_key_binding example_keys did jwk' = Inr (compute_jwk_fingerprint example_keys (ECPub ''secp256k1'' 1 1) = Inr fp)"
proof -
  obtain jwk' where j: "public_key_to_jwk example_keys (ECPub ''secp256k1'' 1 1) = Inr jwk'" using example_jwk by blast
  obtain fp where fp: "compute_jwk_fingerprint example_keys (ECPub ''secp256k1'' 1 1) = Inr fp"
    by (simp add: compute_jwk_fingerprint_def public_numbers_def coord_text_def to_be_def Let_def)
  obtain doc ks where d: "create_did_with_key_binding example_keys 5 ''shop.example'' None None (ECPriv [], ECPub ''secp256k1'' 1 1) plain_options = Inr (doc, ks)"
    using example_document unfolding create_did_with_key_binding_def example_host fp bindE_simps snd_conv Let_def by blast
  have c: "kl_on_curve example_keys ''secp256k1'' 1 1" by (simp add: example_keys_def)
  have "list_all (\<lambda>w. CHR '':'' \<notin> set w) (case None of Some p \<Rightarrow> p | None \<Rightarrow> [''user''])" "CHR '':'' \<notin> set ''shop.example''" "do_vm plain_options = None"
    by simp_all
  from key_binding_holds[OF d this(1,2) c this(3) j c] d j show ?thesis by blast
qed

end
