(* ===== verification/DidAuth.thy ===== *)
theory DidAuth
  imports DidDoc
begin

text \<open>
  Authentication with a DID (\<open>authentication/did_wba.py\<close>): the signed authorization header and its JSON form, on the
  client's side and on the server's.  The nonce, the time and the callback that signs are arguments; texts are ASCII where
  their case is ignored.
\<close>

section \<open>The header\<close>

definition QUOTE :: char where "QUOTE = CHR 0x22"

text \<open>Versions from 1.1 on sign the service under \<open>aud\<close>; a version that is no number counts as old.\<close>

definition domain_field :: "keylib \<Rightarrow> pyval \<Rightarrow> string result" where
  "domain_field kl version = (case (case version of PStr s \<Rightarrow> kl_float kl s | _ \<Rightarrow> to_num version) of
      Inr f \<Rightarrow> Inr (if f \<ge> 11 / 10 then ''aud'' else ''service'')
    | Inl (ValueError _) \<Rightarrow> Inr ''service''
    | Inl e \<Rightarrow> Inl e)"

definition auth_content :: "keylib \<Rightarrow> pyval \<Rightarrow> pyval \<Rightarrow> pyval \<Rightarrow> string \<Rightarrow> pyval \<Rightarrow> bytes result" where
  "auth_content kl nonce timestamp version domain did =
     bindE (domain_field kl version) (\<lambda>field.
     bindE (kl_jcs kl (PDict [(''nonce'', nonce), (''timestamp'', timestamp), (field, PStr domain), (''did'', did)])) (\<lambda>canonical.
     Inr (kl_sha256 kl canonical)))"

definition field_text :: "string \<Rightarrow> string \<Rightarrow> string" where
  "field_text k v = k @ CHR ''='' # QUOTE # v @ [QUOTE]"

definition header_text :: "string \<Rightarrow> string \<Rightarrow> string \<Rightarrow> string \<Rightarrow> string \<Rightarrow> string \<Rightarrow> string" where
  "header_text version did nonce timestamp vm signature =
     field_text ''DIDWba v'' version @ field_text '', did'' did @ field_text '', nonce'' nonce @ field_text '', timestamp'' timestamp @
     field_text '', verification_method'' vm @ field_text '', signature'' signature"

text \<open>What both forms share: the DID, the method, the time stamp and the encoded signature.\<close>

definition sign_auth :: "keylib \<Rightarrow> real \<Rightarrow> string \<Rightarrow> pyobj \<Rightarrow> string \<Rightarrow> (bytes \<Rightarrow> string \<Rightarrow> bytes result) \<Rightarrow> string \<Rightarrow> (pyval \<times> string \<times> string \<times> string) result" where
  "sign_auth kl now nonce doc domain sign version =
     (let did = oget doc ''id'' in
      if \<not> truthy did then Inl (ValueError ''DID document is missing the id field.'')
      else bindE (select_authentication_method doc) (\<lambda>(m, frag).
        let timestamp = kl_stamp kl now in
        bindE (auth_content kl (PStr nonce) (PStr timestamp) (PStr version) domain did) (\<lambda>content.
        bindE (case m of PDict d \<Rightarrow> create_verification_method kl d | _ \<Rightarrow> Inl AttributeError) (\<lambda>vm.
        bindE (sign content frag) (\<lambda>sig.
        bindE (vm_encode kl vm sig) (\<lambda>signature.
        Inr (did, frag, timestamp, signature)))))))"

definition generate_auth_header :: "keylib \<Rightarrow> real \<Rightarrow> string \<Rightarrow> pyobj \<Rightarrow> string \<Rightarrow> (bytes \<Rightarrow> string \<Rightarrow> bytes result) \<Rightarrow> string \<Rightarrow> string result" where
  "generate_auth_header kl now nonce doc domain sign version =
     bindE (sign_auth kl now nonce doc domain sign version) (\<lambda>(did, frag, timestamp, signature).
     Inr (header_text version (py_str (kl_str kl) did) nonce timestamp frag signature))"

text \<open>\<open>re.search\<close> of a name, an equals sign and a nonempty quoted text; the case of the name is ignored.\<close>

definition quoted :: "string \<Rightarrow> string option" where
  "quoted r = (let v = takeWhile (\<lambda>c. c \<noteq> QUOTE) r in if v \<noteq> [] \<and> length v < length r then Some v else None)"

definition field_at :: "string \<Rightarrow> string \<Rightarrow> string option" where
  "field_at name s =
     (let n = length name in
      if py_lower (take n s) = name \<and> take 2 (drop n s) = [CHR ''='', QUOTE] then quoted (drop (n + 2) s) else None)"

fun find_field :: "string \<Rightarrow> string \<Rightarrow> string option" where
  "find_field name [] = None"
| "find_field name (c # s) = (case field_at name (c # s) of Some v \<Rightarrow> Some v | None \<Rightarrow> find_field name s)"

record auth_parts =
  ap_did :: string
  ap_nonce :: string
  ap_timestamp :: string
  ap_method :: string
  ap_signature :: string
  ap_version :: string

definition required_field :: "string \<Rightarrow> string \<Rightarrow> string result" where
  "required_field header name = (case find_field name header of
      Some v \<Rightarrow> Inr v | None \<Rightarrow> Inl (ValueError ''Missing required field in auth header''))"

definition extract_auth_header_parts :: "string \<Rightarrow> auth_parts result" where
  "extract_auth_header_parts header =
     (if take 6 (py_strip header) \<noteq> ''DIDWba'' then Inl (ValueError ''Authorization header must start with DIDWba'')
      else bindE (required_field header ''did'') (\<lambda>did. bindE (required_field header ''nonce'') (\<lambda>nonce.
           bindE (required_field header ''timestamp'') (\<lambda>timestamp. bindE (required_field header ''verification_method'') (\<lambda>vm.
           bindE (required_field header ''signature'') (\<lambda>signature.
           Inr \<lparr>ap_did = did, ap_nonce = nonce, ap_timestamp = timestamp, ap_method = vm, ap_signature = signature,
             ap_version = (case find_field ''v'' header of Some v \<Rightarrow> v | None \<Rightarrow> ''1.1'')\<rparr>))))))"

section \<open>Verification\<close>

text \<open>The part after the fields were read: identity, content, method, signature.\<close>

definition check_auth :: "keylib \<Rightarrow> pyobj \<Rightarrow> string \<Rightarrow> pyval \<Rightarrow> pyval \<Rightarrow> pyval \<Rightarrow> pyval \<Rightarrow> pyval \<Rightarrow> pyval \<Rightarrow> (bool \<times> string) result" where
  "check_auth kl doc domain did nonce timestamp method signature version =
     (case (oget doc ''id'', did) of
        (PStr a, PStr b) \<Rightarrow>
          if py_lower a \<noteq> py_lower b then Inr (False, ''DID mismatch'')
          else bindE (auth_content kl nonce timestamp version domain did) (\<lambda>content.
               bindE (find_verification_method doc (PStr (b @ ''#'' @ py_str (kl_str kl) method))) (\<lambda>r. case r of
                 Some (PDict m) \<Rightarrow>
                   (case bindE (create_verification_method kl m) (\<lambda>vm. vm_verify kl vm content signature) of
                      Inr True \<Rightarrow> Inr (True, ''Verification successful'')
                    | Inr False \<Rightarrow> Inr (False, ''Signature verification failed'')
                    | Inl (ValueError _) \<Rightarrow> Inr (False, ''Invalid or unsupported verification method'')
                    | Inl _ \<Rightarrow> Inr (False, ''Verification error''))
               | _ \<Rightarrow> Inr (False, ''Verification method not found'')))
      | _ \<Rightarrow> Inl AttributeError)"

text \<open>Nothing escapes: every exception becomes a refusal.\<close>

definition guard_auth :: "(bool \<times> string) result \<Rightarrow> bool \<times> string" where
  "guard_auth r = (case r of Inr x \<Rightarrow> x | Inl (ValueError m) \<Rightarrow> (False, m) | Inl _ \<Rightarrow> (False, ''Verification process error''))"

definition verify_auth_header_signature :: "keylib \<Rightarrow> string \<Rightarrow> pyobj \<Rightarrow> string \<Rightarrow> bool \<times> string" where
  "verify_auth_header_signature kl header doc domain =
     guard_auth (bindE (extract_auth_header_parts header) (\<lambda>p.
       check_auth kl doc domain (PStr (ap_did p)) (PStr (ap_nonce p)) (PStr (ap_timestamp p)) (PStr (ap_method p)) (PStr (ap_signature p)) (PStr (ap_version p))))"

section \<open>The JSON form\<close>

definition generate_auth_json :: "keylib \<Rightarrow> real \<Rightarrow> string \<Rightarrow> pyobj \<Rightarrow> string \<Rightarrow> (bytes \<Rightarrow> string \<Rightarrow> bytes result) \<Rightarrow> string \<Rightarrow> pyobj result" where
  "generate_auth_json kl now nonce doc domain sign version =
     bindE (sign_auth kl now nonce doc domain sign version) (\<lambda>(did, frag, timestamp, signature).
     Inr [(''v'', PStr version), (''did'', did), (''nonce'', PStr nonce), (''timestamp'', PStr timestamp), (''verification_method'', PStr frag),
          (''signature'', PStr signature)])"

text \<open>A text is parsed first, by \<open>json.loads\<close>.\<close>

definition verify_auth_json_signature :: "keylib \<Rightarrow> (string \<Rightarrow> pyval result) \<Rightarrow> pyval \<Rightarrow> pyobj \<Rightarrow> string \<Rightarrow> bool \<times> string" where
  "verify_auth_json_signature kl loads auth doc domain =
     guard_auth (bindE (case auth of PStr s \<Rightarrow> loads s | v \<Rightarrow> Inr v) (\<lambda>d.
       bindE (pget d ''did'' PNone) (\<lambda>did. bindE (pget d ''nonce'' PNone) (\<lambda>nonce. bindE (pget d ''timestamp'' PNone) (\<lambda>timestamp.
       bindE (pget d ''verification_method'' PNone) (\<lambda>method. bindE (pget d ''signature'' PNone) (\<lambda>signature.
       bindE (pget d ''v'' (PStr ''1.1'')) (\<lambda>version.
       if \<not> (truthy did \<and> truthy nonce \<and> truthy timestamp \<and> truthy method \<and> truthy signature)
       then Inr (False, ''Authentication JSON missing required fields'')
       else check_auth kl doc domain did nonce timestamp method signature version))))))))"

section \<open>Reading back the header\<close>

text \<open>Whether the name of a field ends a text, its case ignored.\<close>

fun key_ends :: "string \<Rightarrow> string \<Rightarrow> bool" where
  "key_ends name [] = False"
| "key_ends name (c # k) = (py_lower (c # k) = name \<or> key_ends name k)"

definition plain_value :: "string \<Rightarrow> bool" where
  "plain_value v \<longleftrightarrow> QUOTE \<notin> set v \<and> CHR ''='' \<notin> set v"

lemma take_past: "take (Suc n) (k @ x # r) = take (Suc n) k @ take (Suc n - length k) (x # r)"
  by simp

lemma field_at_key:
  assumes "CHR ''='' \<notin> set k" and "CHR ''='' \<notin> set name"
  shows "field_at name (k @ CHR ''='' # QUOTE # r) = (if py_lower k = name then quoted r else None)"
proof (cases "py_lower (take (length name) (k @ CHR ''='' # QUOTE # r)) = name \<and> take 2 (drop (length name) (k @ CHR ''='' # QUOTE # r)) = [CHR ''='', QUOTE]")
  case False
  have "py_lower k \<noteq> name"
  proof
    assume k: "py_lower k = name"
    then have "length name = length k" by (auto simp: py_lower_def)
    then show False using False k by simp
  qed
  then show ?thesis using False by (auto simp: field_at_def Let_def)
next
  case True
  have "length name = length k"
  proof (rule linorder_cases[of "length name" "length k"])
    assume l: "length name < length k"
    then obtain c w where d: "drop (length name) k = c # w" by (cases "drop (length name) k") auto
    then have "c \<in> set k" by (metis in_set_dropD list.set_intros(1))
    moreover have "c = CHR ''=''" using True l d by (simp add: numeral_2_eq_2)
    ultimately show ?thesis using assms(1) by simp
  next
    assume "length k < length name"
    then obtain d where d: "length name = length k + Suc d" using less_imp_Suc_add by fastforce
    have "lower_char CHR ''='' \<in> set (py_lower (take (length name) (k @ CHR ''='' # QUOTE # r)))"
      unfolding d py_lower_def by simp
    moreover have "lower_char CHR ''='' = CHR ''=''" by (simp add: lower_char_def)
    ultimately show ?thesis using True assms(2) by metis
  qed
  then show ?thesis using True by (simp add: field_at_def Let_def)
qed

text \<open>Inside a quoted text no field begins.\<close>

lemma field_at_value:
  assumes "plain_value w" and "QUOTE \<notin> set name"
  shows "field_at name (w @ QUOTE # r) = None"
proof (rule ccontr)
  assume "field_at name (w @ QUOTE # r) \<noteq> None"
  then have a: "py_lower (take (length name) (w @ QUOTE # r)) = name" "take 2 (drop (length name) (w @ QUOTE # r)) = [CHR ''='', QUOTE]"
    by (auto simp: field_at_def Let_def split: if_splits)
  show False
  proof (rule linorder_cases[of "length name" "length w"])
    assume l: "length name < length w"
    then obtain c u where d: "drop (length name) w = c # u" by (cases "drop (length name) w") auto
    then have "c \<in> set w" by (metis in_set_dropD list.set_intros(1))
    moreover have "c = CHR ''=''" using a(2) l d by (simp add: numeral_2_eq_2)
    ultimately show False using assms(1) by (simp add: plain_value_def)
  next
    assume "length name = length w"
    then show False using a(2) by (simp add: QUOTE_def numeral_2_eq_2)
  next
    assume "length w < length name"
    then obtain d where d: "length name = length w + Suc d" using less_imp_Suc_add by fastforce
    have "lower_char QUOTE \<in> set (py_lower (take (length name) (w @ QUOTE # r)))" unfolding d py_lower_def by simp
    moreover have "lower_char QUOTE = QUOTE" by (simp add: lower_char_def QUOTE_def)
    ultimately show False using a(1) assms(2) by metis
  qed
qed

lemma find_field_value: "plain_value w \<Longrightarrow> QUOTE \<notin> set name \<Longrightarrow> find_field name (w @ QUOTE # r) = find_field name r"
proof (induction w)
  case Nil
  then show ?case using field_at_value[of "[]" name r] by simp
next
  case (Cons c w)
  then show ?case using field_at_value[of "c # w" name r] by (simp add: plain_value_def)
qed

lemma quoted_value: "v \<noteq> [] \<Longrightarrow> QUOTE \<notin> set v \<Longrightarrow> quoted (v @ QUOTE # r) = Some v"
proof -
  assume a: "v \<noteq> []" "QUOTE \<notin> set v"
  have "takeWhile (\<lambda>c. c \<noteq> QUOTE) (v @ QUOTE # r) = v" using a(2) by (subst takeWhile_append2) auto
  then show ?thesis using a(1) by (simp add: quoted_def)
qed

lemma find_field_text:
  assumes "plain_value k" and "plain_value name" and "name \<noteq> []" and "plain_value v" and "v \<noteq> []"
  shows "find_field name (field_text k v @ r) = (if key_ends name k then Some v else find_field name r)"
  using assms(1)
proof (induction k)
  case Nil
  have n: "QUOTE \<notin> set name" "CHR ''='' \<notin> set name" using assms(2) by (auto simp: plain_value_def)
  have "field_at name ([] @ CHR ''='' # QUOTE # v @ QUOTE # r) = None"
    using assms(3) n(2) by (subst field_at_key) (simp_all add: py_lower_def)
  moreover have "field_at name (QUOTE # v @ QUOTE # r) = None" "find_field name (v @ QUOTE # r) = find_field name r"
    using field_at_value[of "[]" name "v @ QUOTE # r"] find_field_value[OF assms(4) n(1)] n(1) by (simp_all add: plain_value_def)
  ultimately show ?case by (simp add: field_text_def)
next
  case (Cons c k)
  have n: "QUOTE \<notin> set v" "CHR ''='' \<notin> set name" "CHR ''='' \<notin> set (c # k)" using Cons.prems assms(2,4) by (auto simp: plain_value_def)
  have "field_at name ((c # k) @ CHR ''='' # QUOTE # v @ QUOTE # r) = (if py_lower (c # k) = name then Some v else None)"
    using quoted_value[OF assms(5) n(1)] field_at_key[OF n(3,2)] by simp
  moreover have "find_field name (field_text k v @ r) = (if key_ends name k then Some v else find_field name r)"
    using Cons by (simp add: plain_value_def)
  ultimately show ?case by (simp add: field_text_def)
qed

lemma header_roundtrip:
  assumes "plain_value version" "plain_value did" "plain_value nonce" "plain_value timestamp" "plain_value vm" "plain_value signature"
    and "version \<noteq> []" "did \<noteq> []" "nonce \<noteq> []" "timestamp \<noteq> []" "vm \<noteq> []" "signature \<noteq> []"
  shows "extract_auth_header_parts (header_text version did nonce timestamp vm signature) =
    Inr \<lparr>ap_did = did, ap_nonce = nonce, ap_timestamp = timestamp, ap_method = vm, ap_signature = signature, ap_version = version\<rparr>"
proof -
  let ?h = "header_text version did nonce timestamp vm signature"
  note ft = find_field_text[OF _ _ _ assms(1,7)] find_field_text[OF _ _ _ assms(2,8)] find_field_text[OF _ _ _ assms(3,9)]
    find_field_text[OF _ _ _ assms(4,10)] find_field_text[OF _ _ _ assms(5,11)] find_field_text[OF _ _ _ assms(6,12), where r = "[]", unfolded append_Nil2]
  have p: "plain_value ''DIDWba v''" "plain_value '', did''" "plain_value '', nonce''" "plain_value '', timestamp''" "plain_value '', verification_method''"
    "plain_value '', signature''" "plain_value ''did''" "plain_value ''nonce''" "plain_value ''timestamp''" "plain_value ''verification_method''"
    "plain_value ''signature''" "plain_value ''v''"
    by (simp_all add: plain_value_def QUOTE_def)
  have f: "find_field ''did'' ?h = Some did" "find_field ''nonce'' ?h = Some nonce" "find_field ''timestamp'' ?h = Some timestamp"
    "find_field ''verification_method'' ?h = Some vm" "find_field ''signature'' ?h = Some signature" "find_field ''v'' ?h = Some version"
    unfolding header_text_def by (simp_all add: ft p py_lower_def lower_char_def)
  have "take 6 (py_strip ?h) = ''DIDWba''"
    by (simp add: py_strip_def header_text_def field_text_def is_space_def QUOTE_def)
  then show ?thesis by (simp add: extract_auth_header_parts_def required_field_def f)
qed


section \<open>Logging in\<close>

text \<open>The callback answers with a DER signature of the key.\<close>

definition signer_ok :: "keylib \<Rightarrow> pubkey \<Rightarrow> (bytes \<Rightarrow> string \<Rightarrow> bytes result) \<Rightarrow> bool" where
  "signer_ok kl pk sign \<longleftrightarrow> (\<forall>c f. \<exists>b r s. sign c f = Inr b \<and> kl_dss kl b = Inr (int r, int s) \<and> r < 256 ^ 32 \<and> s < 256 ^ 32 \<and> kl_ecdsa kl pk c r s)"

lemma signature_verifies:
  assumes "signer_ok kl pk sign"
  shows "\<exists>b rs. sign c f = Inr b \<and> vm_encode kl (VmK1 pk) b = Inr (b64url_encode rs) \<and> rs \<noteq> [] \<and>
    vm_verify kl (VmK1 pk) c (PStr (b64url_encode rs)) = Inr True"
proof -
  obtain b r s where b: "sign c f = Inr b" "kl_dss kl b = Inr (int r, int s)" "r < 256 ^ 32" "s < 256 ^ 32" "kl_ecdsa kl pk c r s"
    using assms unfolding signer_ok_def by blast
  let ?rs = "be_bytes 32 r @ be_bytes 32 s"
  have "vm_encode kl (VmK1 pk) b = Inr (b64url_encode ?rs)"
    by (simp add: vm_encode_def ec_encode_def b(2) rs_bytes_def to_be_nat[OF b(3)] to_be_nat[OF b(4)])
  moreover have "vm_verify kl (VmK1 pk) c (PStr (b64url_encode ?rs)) = Inr True"
    by (simp add: vm_verify_def ec_verify_def b64url_value_def from_be_bytes[OF b(3)] from_be_bytes[OF b(4)] b(5))
  moreover have "?rs \<noteq> []" by (metis append_is_Nil_conv length_be_bytes list.size(3) zero_neq_numeral)
  ultimately show ?thesis using b(1) by blast
qed

lemma auth_content_total:
  "kl_jcs_total kl \<Longrightarrow> domain_field kl version = Inr f \<Longrightarrow> \<exists>c. auth_content kl nonce timestamp version domain did = Inr c"
  by (auto simp: auth_content_def kl_jcs_total_def) (metis bindE_simps(2))

lemma signed_auth_checks:
  assumes "oget doc ''id'' = PStr did" and "did \<noteq> []" and "select_authentication_method doc = Inr (PDict m, frag)"
    and "find_verification_method doc (PStr (did @ ''#'' @ frag)) = Inr (Some (PDict m))" and "create_verification_method kl m = Inr (VmK1 pk)"
    and "signer_ok kl pk sign" and "kl_jcs_total kl" and "domain_field kl (PStr version) = Inr f"
  shows "\<exists>rs. sign_auth kl now nonce doc domain sign version = Inr (PStr did, frag, kl_stamp kl now, b64url_encode rs) \<and> rs \<noteq> [] \<and>
    check_auth kl doc domain (PStr did) (PStr nonce) (PStr (kl_stamp kl now)) (PStr frag) (PStr (b64url_encode rs)) (PStr version) =
      Inr (True, ''Verification successful'')"
proof -
  obtain c where c: "auth_content kl (PStr nonce) (PStr (kl_stamp kl now)) (PStr version) domain (PStr did) = Inr c"
    using auth_content_total[OF assms(7,8)] by blast
  obtain b rs where b: "sign c frag = Inr b" "vm_encode kl (VmK1 pk) b = Inr (b64url_encode rs)" "rs \<noteq> []"
    "vm_verify kl (VmK1 pk) c (PStr (b64url_encode rs)) = Inr True"
    using signature_verifies[OF assms(6)] by blast
  have t: "truthy (PStr did)" using assms(2) by simp
  have "sign_auth kl now nonce doc domain sign version = Inr (PStr did, frag, kl_stamp kl now, b64url_encode rs)"
    by (simp add: sign_auth_def Let_def assms(1,2,3,5) c b(1,2))
  moreover have "check_auth kl doc domain (PStr did) (PStr nonce) (PStr (kl_stamp kl now)) (PStr frag) (PStr (b64url_encode rs)) (PStr version) =
      Inr (True, ''Verification successful'')"
    using assms(4) by (simp add: check_auth_def assms(1,5) c py_str_def b(4))
  ultimately show ?thesis using b(3) by blast
qed

lemma split_on_split: "P x \<Longrightarrow> split_on P (s @ x # t) = split_on P s @ split_on P t"
proof (induction s)
  case (Cons c s)
  then show ?case by (cases "split_on P s") (auto simp: split_on_nonempty)
qed simp

lemma fragment_append: "CHR ''#'' \<notin> set k \<Longrightarrow> fragment (s @ ''#'' @ k) = k"
proof -
  assume "CHR ''#'' \<notin> set k"
  then have "split_on (\<lambda>c. c = CHR ''#'') k = [k]" by (intro split_on_plain) auto
  then show ?thesis by (simp add: fragment_def split_on_split)
qed

lemma created_document_key:
  assumes "build_document kl now did (sk, ECPub ''secp256k1'' x y) opts = Inr (doc, ks)" and "do_vm opts = None" and "kl_on_curve kl ''secp256k1'' x y"
  shows "\<exists>m. oget doc ''id'' = PStr did \<and> select_authentication_method doc = Inr (PDict m, VM_KEY_AUTH) \<and>
    find_verification_method doc (PStr (did @ ''#'' @ VM_KEY_AUTH)) = Inr (Some (PDict m)) \<and>
    create_verification_method kl m = Inr (VmK1 (ECPub ''secp256k1'' x y))"
proof -
  let ?vm1 = "did @ ''#'' @ VM_KEY_AUTH"
  obtain jwk vms where f: "public_key_to_jwk kl (ECPub ''secp256k1'' x y) = Inr jwk" "oget doc ''id'' = PStr did"
    "oget doc ''verificationMethod'' = PList (PDict [(''id'', PStr ?vm1), (''type'', PStr ''EcdsaSecp256k1VerificationKey2019''),
      (''controller'', PStr did), (''publicKeyJwk'', jwk)] # vms)" "oget doc ''authentication'' = PList [PStr ?vm1]"
    using build_document_fields[OF assms(1,2)] unfolding snd_conv by blast
  let ?m = "[(''id'', PStr ?vm1), (''type'', PStr ''EcdsaSecp256k1VerificationKey2019''), (''controller'', PStr did), (''publicKeyJwk'', jwk)]"
  obtain kid where k: "x < 256 ^ 32" "y < 256 ^ 32" "jwk = PDict [(''kty'', PStr ''EC''), (''crv'', PStr ''secp256k1''),
      (''x'', PStr (b64url_encode (be_bytes 32 x))), (''y'', PStr (b64url_encode (be_bytes 32 y))), (''kid'', kid)]"
    using public_key_to_jwk_Inr[OF f(1)] unfolding pubkey.inject by blast
  have d: "dgetd doc ''verificationMethod'' (PList []) = PList (PDict ?m # vms)" "dgetd doc ''authentication'' (PList []) = PList [PStr ?vm1]"
    using f(3,4) by (auto simp: oget_def dgetd_def split: option.splits)
  have find: "find_verification_method doc (PStr ?vm1) = Inr (Some (PDict ?m))"
    unfolding find_verification_method_def d by simp
  have fr: "fragment ?vm1 = VM_KEY_AUTH" by (rule fragment_append) (simp add: VM_KEY_AUTH_def)
  have sel: "select_authentication_method doc = Inr (PDict ?m, VM_KEY_AUTH)"
    unfolding select_authentication_method_def d Let_def by (simp add: find fr del: append_Cons)
  have "jwk_coord jwk ''x'' = Inr x" "jwk_coord jwk ''y'' = Inr y"
    by (simp_all add: k(3) jwk_coord_def b64url_value_def from_be_bytes[OF k(1)] from_be_bytes[OF k(2)])
  then have "jwk_point kl ''secp256k1'' jwk = Inr (ECPub ''secp256k1'' x y)" by (simp add: jwk_point_def curve_point_def assms(3))
  then have "vm_jwk_point kl ''secp256k1'' jwk = Inr (ECPub ''secp256k1'' x y)" by (simp add: vm_jwk_point_def k(3) dgetd_def)
  then have "create_verification_method kl ?m = Inr (VmK1 (ECPub ''secp256k1'' x y))"
    by (simp add: create_verification_method_def oget_def dgetd_def ec_from_dict_def)
  then show ?thesis using f(2) find sel by blast
qed


lemma sign_auth_of_created:
  assumes "create_did_wba_document kl t hostname port path (sk, ECPub ''secp256k1'' x y) opts = Inr (doc, ks)" and "path \<noteq> []" and "do_vm opts = None"
    and "kl_on_curve kl ''secp256k1'' x y" and "signer_ok kl (ECPub ''secp256k1'' x y) sign" and "kl_jcs_total kl" and "domain_field kl (PStr version) = Inr f"
  shows "\<exists>rs. sign_auth kl now nonce doc domain sign version =
      Inr (PStr (did_base hostname port @ '':'' @ join_with '':'' path), VM_KEY_AUTH, kl_stamp kl now, b64url_encode rs) \<and> rs \<noteq> [] \<and>
    check_auth kl doc domain (PStr (did_base hostname port @ '':'' @ join_with '':'' path)) (PStr nonce) (PStr (kl_stamp kl now)) (PStr VM_KEY_AUTH)
      (PStr (b64url_encode rs)) (PStr version) = Inr (True, ''Verification successful'')"
proof -
  let ?did = "did_base hostname port @ '':'' @ join_with '':'' path"
  have b: "build_document kl t ?did (sk, ECPub ''secp256k1'' x y) opts = Inr (doc, ks)"
    using assms(1,2) by (auto simp: create_did_wba_document_def bindE_Inr_iff)
  obtain m where m: "oget doc ''id'' = PStr ?did" "select_authentication_method doc = Inr (PDict m, VM_KEY_AUTH)"
    "find_verification_method doc (PStr (?did @ ''#'' @ VM_KEY_AUTH)) = Inr (Some (PDict m))"
    "create_verification_method kl m = Inr (VmK1 (ECPub ''secp256k1'' x y))"
    using created_document_key[OF b assms(3,4)] by blast
  have "?did \<noteq> []" by (simp add: did_base_def)
  from signed_auth_checks[OF m(1) this m(2,3,4) assms(5,6,7)] show ?thesis by blast
qed

lemma b64url_plain_value: "plain_value (b64url_encode bs)"
  using b64url_plain(2,3) by (simp add: plain_value_def QUOTE_def)

lemma VM_KEY_AUTH_plain: "plain_value VM_KEY_AUTH" "VM_KEY_AUTH \<noteq> []"
  by (simp_all add: plain_value_def VM_KEY_AUTH_def QUOTE_def)

lemma generated_header:
  assumes "create_did_wba_document kl t hostname port path (sk, ECPub ''secp256k1'' x y) opts = Inr (doc, ks)" and "path \<noteq> []" and "do_vm opts = None"
    and "kl_on_curve kl ''secp256k1'' x y" and "signer_ok kl (ECPub ''secp256k1'' x y) sign" and "kl_jcs_total kl" and "domain_field kl (PStr version) = Inr f"
    and "plain_value (did_base hostname port @ '':'' @ join_with '':'' path)"
    and "list_all (\<lambda>v. plain_value v \<and> v \<noteq> []) [version, nonce, kl_stamp kl now]"
  shows "\<exists>header signature. generate_auth_header kl now nonce doc domain sign version = Inr header \<and>
    extract_auth_header_parts header = Inr \<lparr>ap_did = did_base hostname port @ '':'' @ join_with '':'' path, ap_nonce = nonce, ap_timestamp = kl_stamp kl now,
      ap_method = VM_KEY_AUTH, ap_signature = signature, ap_version = version\<rparr> \<and>
    verify_auth_header_signature kl header doc domain = (True, ''Verification successful'') \<and> header \<noteq> [] \<and> take 7 header \<noteq> ''Bearer ''"
proof -
  let ?did = "did_base hostname port @ '':'' @ join_with '':'' path"
  obtain rs where rs: "sign_auth kl now nonce doc domain sign version = Inr (PStr ?did, VM_KEY_AUTH, kl_stamp kl now, b64url_encode rs)" "rs \<noteq> []"
    "check_auth kl doc domain (PStr ?did) (PStr nonce) (PStr (kl_stamp kl now)) (PStr VM_KEY_AUTH) (PStr (b64url_encode rs)) (PStr version) =
      Inr (True, ''Verification successful'')"
    using sign_auth_of_created[OF assms(1-7)] by blast
  let ?h = "header_text version ?did nonce (kl_stamp kl now) VM_KEY_AUTH (b64url_encode rs)"
  have g: "generate_auth_header kl now nonce doc domain sign version = Inr ?h"
    unfolding generate_auth_header_def rs(1) bindE_simps prod.case by (simp add: py_str_def)
  have e: "extract_auth_header_parts ?h = Inr \<lparr>ap_did = ?did, ap_nonce = nonce, ap_timestamp = kl_stamp kl now, ap_method = VM_KEY_AUTH,
      ap_signature = b64url_encode rs, ap_version = version\<rparr>"
  proof (rule header_roundtrip)
    show "?did \<noteq> []" by (simp add: did_base_def)
  qed (use assms(8,9) b64url_plain_value VM_KEY_AUTH_plain b64url_nonempty[OF rs(2)] in simp_all)
  have "verify_auth_header_signature kl ?h doc domain = (True, ''Verification successful'')"
    unfolding verify_auth_header_signature_def e bindE_simps auth_parts.select_convs rs(3) by (simp add: guard_auth_def)
  moreover have "?h \<noteq> []" "take 7 ?h \<noteq> ''Bearer ''" by (simp_all add: header_text_def field_text_def)
  ultimately show ?thesis using g e by blast
qed

section \<open>Properties\<close>

text \<open>
  The header a client signs with a document it created is read back field by field on the server and passes the check
  of the signature for the same service; so does the JSON form.
\<close>
theorem login_roundtrip:
  assumes "create_did_wba_document kl t hostname port path (sk, ECPub ''secp256k1'' x y) opts = Inr (doc, ks)" and "path \<noteq> []" and "do_vm opts = None"
    and "kl_on_curve kl ''secp256k1'' x y" and "signer_ok kl (ECPub ''secp256k1'' x y) sign" and "kl_jcs_total kl" and "domain_field kl (PStr version) = Inr f"
    and "plain_value (did_base hostname port @ '':'' @ join_with '':'' path)"
    and "list_all (\<lambda>v. plain_value v \<and> v \<noteq> []) [version, nonce, kl_stamp kl now]"
  shows "(\<exists>header signature. generate_auth_header kl now nonce doc domain sign version = Inr header \<and>
    extract_auth_header_parts header = Inr \<lparr>ap_did = did_base hostname port @ '':'' @ join_with '':'' path, ap_nonce = nonce, ap_timestamp = kl_stamp kl now,
      ap_method = VM_KEY_AUTH, ap_signature = signature, ap_version = version\<rparr> \<and>
    verify_auth_header_signature kl header doc domain = (True, ''Verification successful'')) \<and>
   (\<exists>j. generate_auth_json kl now nonce doc domain sign version = Inr j \<and>
    verify_auth_json_signature kl loads (PDict j) doc domain = (True, ''Verification successful''))"
proof -
  let ?did = "did_base hostname port @ '':'' @ join_with '':'' path"
  obtain rs where rs: "sign_auth kl now nonce doc domain sign version = Inr (PStr ?did, VM_KEY_AUTH, kl_stamp kl now, b64url_encode rs)" "rs \<noteq> []"
    "check_auth kl doc domain (PStr ?did) (PStr nonce) (PStr (kl_stamp kl now)) (PStr VM_KEY_AUTH) (PStr (b64url_encode rs)) (PStr version) =
      Inr (True, ''Verification successful'')"
    using sign_auth_of_created[OF assms(1-7)] by blast
  let ?j = "[(''v'', PStr version), (''did'', PStr ?did), (''nonce'', PStr nonce), (''timestamp'', PStr (kl_stamp kl now)), (''verification_method'', PStr VM_KEY_AUTH),
          (''signature'', PStr (b64url_encode rs))]"
  have "generate_auth_json kl now nonce doc domain sign version = Inr ?j"
    unfolding generate_auth_json_def rs(1) bindE_simps prod.case ..
  moreover have "verify_auth_json_signature kl loads (PDict ?j) doc domain = (True, ''Verification successful'')"
  proof -
    have g: "dgetd ?j ''did'' PNone = PStr ?did" "dgetd ?j ''nonce'' PNone = PStr nonce" "dgetd ?j ''timestamp'' PNone = PStr (kl_stamp kl now)"
      "dgetd ?j ''verification_method'' PNone = PStr VM_KEY_AUTH" "dgetd ?j ''signature'' PNone = PStr (b64url_encode rs)"
      "dgetd ?j ''v'' (PStr ''1.1'') = PStr version"
      by (simp_all add: dgetd_def)
    have t: "truthy (PStr ?did)" "truthy (PStr nonce)" "truthy (PStr (kl_stamp kl now))" "truthy (PStr VM_KEY_AUTH)" "truthy (PStr (b64url_encode rs))"
      using assms(9) VM_KEY_AUTH_plain(2) b64url_nonempty[OF rs(2)] by (simp_all add: did_base_def)
    show ?thesis
      unfolding verify_auth_json_signature_def pyval.case bindE_simps pget.simps g rs(3) by (simp only: t simp_thms if_False) (simp add: guard_auth_def)
  qed
  ultimately show ?thesis using generated_header[OF assms] by blast
qed

theorem login_roundtrip_witness:
  "\<exists>doc ks header signature j. create_did_wba_document example_keys 5 ''shop.example'' None [''alice''] (ECPriv [], ECPub ''secp256k1'' 1 1) plain_options = Inr (doc, ks) \<and>
    generate_auth_header example_keys 7 ''n1'' doc ''api.example'' (\<lambda>_ _. Inr [1]) ''1.1'' = Inr header \<and>
    extract_auth_header_parts header = Inr \<lparr>ap_did = did_base ''shop.example'' None @ '':'' @ join_with '':'' [''alice''], ap_nonce = ''n1'',
      ap_timestamp = kl_stamp example_keys 7, ap_method = VM_KEY_AUTH, ap_signature = signature, ap_version = ''1.1''\<rparr> \<and>
    verify_auth_header_signature example_keys header doc ''api.example'' = (True, ''Verification successful'') \<and>
    generate_auth_json example_keys 7 ''n1'' doc ''api.example'' (\<lambda>_ _. Inr [1]) ''1.1'' = Inr j \<and>
    verify_auth_json_signature example_keys (\<lambda>_. Inl TypeError) (PDict j) doc ''api.example'' = (True, ''Verification successful'')"
proof -
  obtain doc ks where d: "create_did_wba_document example_keys 5 ''shop.example'' None [''alice''] (ECPriv [], ECPub ''secp256k1'' 1 1) plain_options = Inr (doc, ks)"
    using example_document unfolding create_did_wba_document_def example_host bindE_simps by blast
  have h: "[''alice''] \<noteq> []" "do_vm plain_options = None" "kl_on_curve example_keys ''secp256k1'' 1 1"
    "signer_ok example_keys (ECPub ''secp256k1'' 1 1) (\<lambda>_ _. Inr [1])" "domain_field example_keys (PStr ''1.1'') = Inr ''aud''"
    "plain_value (did_base ''shop.example'' None @ '':'' @ join_with '':'' [''alice''])"
    "list_all (\<lambda>v. plain_value v \<and> v \<noteq> []) [''1.1'', ''n1'', kl_stamp example_keys 7]"
    by (simp_all add: example_keys_def signer_ok_def domain_field_def plain_value_def QUOTE_def did_base_def exI[of _ "1 :: nat"])
  show ?thesis using login_roundtrip[OF d h(1,2,3,4) example_keys_ok(2) h(5,6,7), where domain = "''api.example''" and loads = "\<lambda>_. Inl TypeError"] d by blast
qed

end
