(* ===== verification/DidVerifier.thy ===== *)
theory DidVerifier
  imports DidAuth
begin

text \<open>
  The server's side of the login (\<open>authentication/did_wba_verifier.py\<close>, \<open>fastanp/middleware.py\<close>,
  \<open>openanp/middleware.py\<close>): the time window, the table of used nonces, access tokens, and the middleware in front of the
  application.  Times are seconds; a request reads the clock three times, for the time stamp, the nonce and the token.  The
  code between the first two never waits, and nothing after them writes the table, so a request is one step.  \<open>PyJWT\<close> is
  the record \<open>jwtlib\<close>.
\<close>

section \<open>Configuration and time stamps\<close>

record vconfig =
  vc_private :: "string option"
  vc_public :: "string option"
  vc_alg :: string
  vc_token_min :: int
  vc_nonce_min :: int
  vc_stamp_min :: int
  vc_external :: "(string \<Rightarrow> string \<Rightarrow> pyval result) option"
  vc_domains :: "string list option"

definition default_vconfig :: vconfig where
  "default_vconfig = \<lparr>vc_private = None, vc_public = None, vc_alg = ''RS256'', vc_token_min = 60, vc_nonce_min = 6, vc_stamp_min = 5,
     vc_external = None, vc_domains = None\<rparr>"

record jwtlib =
  jl_encode :: "string \<Rightarrow> string \<Rightarrow> pyobj \<Rightarrow> string result"
  jl_decode :: "string \<Rightarrow> string \<Rightarrow> real \<Rightarrow> string \<Rightarrow> pyobj result"

definition minutes :: "int \<Rightarrow> real" where
  "minutes n = 60 * of_int n"

definition zulu :: "string \<Rightarrow> string" where
  "zulu s = concat (map (\<lambda>c. if c = CHR ''Z'' then ''+00:00'' else [c]) s)"

text \<open>A time without a zone cannot be subtracted from the server's.\<close>

definition verify_timestamp :: "keylib \<Rightarrow> vconfig \<Rightarrow> real \<Rightarrow> string \<Rightarrow> bool" where
  "verify_timestamp kl cfg now s = (case kl_iso kl (zulu s) of
      Inr (t, True) \<Rightarrow> if t - now > minutes 1 then False else \<not> now - t > minutes (vc_stamp_min cfg)
    | _ \<Rightarrow> False)"

section \<open>Nonces\<close>

type_synonym nonces = "(string, real) pydict"

definition is_valid_server_nonce :: "vconfig \<Rightarrow> real \<Rightarrow> string \<Rightarrow> string \<Rightarrow> nonces \<Rightarrow> bool \<times> nonces" where
  "is_valid_server_nonce cfg now did nonce tab = (case vc_external cfg of
      Some f \<Rightarrow> ((case f did nonce of Inr v \<Rightarrow> truthy v | Inl _ \<Rightarrow> False), tab)
    | None \<Rightarrow>
        (let tab = dfilter (\<lambda>n t. \<not> now - t > minutes (vc_nonce_min cfg)) tab in
         if din nonce tab then (False, tab) else (True, dset nonce now tab)))"

section \<open>Tokens\<close>

definition has_key :: "string option \<Rightarrow> bool" where
  "has_key k \<longleftrightarrow> k \<noteq> None \<and> k \<noteq> Some []"

text \<open>The library writes times as whole seconds.\<close>

definition create_access_token :: "jwtlib \<Rightarrow> vconfig \<Rightarrow> real \<Rightarrow> pyobj \<Rightarrow> real option \<Rightarrow> string result" where
  "create_access_token jl cfg now data delta =
     (if \<not> has_key (vc_private cfg) then Inl (DidWbaError ''Internal server error during token generation'' 500)
      else let exp = now + (case delta of Some d \<Rightarrow> if d = 0 then minutes (vc_token_min cfg) else d | None \<Rightarrow> minutes (vc_token_min cfg)) in
        jl_encode jl (the (vc_private cfg)) (vc_alg cfg) (dset ''exp'' (PInt \<lfloor>exp\<rfloor>) (dset ''iat'' (PInt \<lfloor>now\<rfloor>) data)))"

text \<open>\<open>datetime.fromtimestamp\<close>: the years 1 to 9999.  Values that are no numbers cannot be compared with a time.\<close>

definition claim_time :: "pyval \<Rightarrow> real option result" where
  "claim_time v = (case num_of v of
      None \<Rightarrow> Inr None
    | Some x \<Rightarrow> if - 62135596800 \<le> x \<and> x < 253402300800 then Inr (Some x) else Inl (ValueError ''year is out of range''))"

definition comparable :: "real option \<Rightarrow> real result" where
  "comparable t = (case t of None \<Rightarrow> Inl TypeError | Some x \<Rightarrow> Inr x)"

definition is_did_wba :: "pyval \<Rightarrow> bool" where
  "is_did_wba v = (case v of PStr s \<Rightarrow> take 8 s = ''did:wba:'' | _ \<Rightarrow> False)"

definition check_claims :: "real \<Rightarrow> pyobj \<Rightarrow> pyobj result" where
  "check_claims now payload =
     (if \<not> (din ''sub'' payload \<and> din ''iat'' payload \<and> din ''exp'' payload) then Inl (DidWbaError ''Invalid token payload'' 401)
      else if \<not> is_did_wba (oget payload ''sub'') then Inl (DidWbaError ''Invalid DID format'' 401)
      else bindE (claim_time (oget payload ''iat'')) (\<lambda>issued. bindE (claim_time (oget payload ''exp'')) (\<lambda>expires.
        bindE (comparable issued) (\<lambda>issued.
        if issued > now + 5 then Inl (DidWbaError ''Token issued in the future'' 401)
        else bindE (comparable expires) (\<lambda>expires.
          if expires \<le> now - 5 then Inl (DidWbaError ''Token has expired'' 401)
          else Inr [(''did'', oget payload ''sub'')])))))"

definition guard_bearer :: "'a result \<Rightarrow> 'a result" where
  "guard_bearer r = (case r of
      Inr x \<Rightarrow> Inr x
    | Inl (DidWbaError m c) \<Rightarrow> Inl (DidWbaError m c)
    | Inl ExpiredSignatureError \<Rightarrow> Inl (DidWbaError ''Token has expired'' 401)
    | Inl InvalidTokenError \<Rightarrow> Inl (DidWbaError ''Invalid token'' 401)
    | Inl _ \<Rightarrow> Inl (DidWbaError ''Authentication error'' 500))"

definition handle_bearer_auth :: "jwtlib \<Rightarrow> vconfig \<Rightarrow> real \<Rightarrow> string \<Rightarrow> pyobj result" where
  "handle_bearer_auth jl cfg now header =
     guard_bearer
       (let token = (if take 7 header = ''Bearer '' then drop 7 header else header) in
        if \<not> has_key (vc_public cfg) then Inl (DidWbaError ''Internal server error during token verification'' 500)
        else bindE (jl_decode jl (the (vc_public cfg)) (vc_alg cfg) now token) (check_claims now))"

section \<open>Requests\<close>

record clocks =
  ck_stamp :: real
  ck_nonce :: real
  ck_token :: real

text \<open>The exceptions of reading the header and of the resolver's format check are not wrapped.\<close>

definition handle_did_auth ::
    "keylib \<Rightarrow> jwtlib \<Rightarrow> (string \<Rightarrow> pyval result) \<Rightarrow> vconfig \<Rightarrow> clocks \<Rightarrow> string \<Rightarrow> string \<Rightarrow> nonces \<Rightarrow> pyobj result \<times> nonces" where
  "handle_did_auth kl jl fetch cfg ck header domain tab = (case extract_auth_header_parts header of
      Inl e \<Rightarrow> (Inl e, tab)
    | Inr p \<Rightarrow>
        if \<not> verify_timestamp kl cfg (ck_stamp ck) (ap_timestamp p) then (Inl (DidWbaError ''Timestamp expired or invalid'' 401), tab)
        else (case is_valid_server_nonce cfg (ck_nonce ck) (ap_did p) (ap_nonce p) tab of
            (False, tab) \<Rightarrow> (Inl (DidWbaError ''Invalid or expired nonce'' 401), tab)
          | (True, tab) \<Rightarrow>
              (bindE (resolve_did_wba_document kl fetch (ap_did p) False) (\<lambda>r. case r of
                   None \<Rightarrow> Inl (DidWbaError ''Failed to resolve DID document'' 401)
                 | Some doc \<Rightarrow>
                     if doc = [] then Inl (DidWbaError ''Failed to resolve DID document'' 401)
                     else if \<not> fst (verify_auth_header_signature kl header doc domain) then Inl (DidWbaError ''Invalid signature'' 403)
                     else bindE (create_access_token jl cfg (ck_token ck) [(''sub'', PStr (ap_did p))] None) (\<lambda>token.
                       Inr [(''access_token'', PStr token), (''token_type'', PStr ''bearer''), (''did'', PStr (ap_did p))])), tab)))"

definition verify_authorization ::
    "keylib \<Rightarrow> jwtlib \<Rightarrow> (string \<Rightarrow> pyval result) \<Rightarrow> vconfig \<Rightarrow> clocks \<Rightarrow> string \<Rightarrow> string \<Rightarrow> nonces \<Rightarrow> pyobj result \<times> nonces" where
  "verify_authorization kl jl fetch cfg ck authorization domain tab =
     (if authorization = [] then (Inl (DidWbaError ''Missing authorization header'' 401), tab)
      else if take 7 authorization = ''Bearer '' then (handle_bearer_auth jl cfg (ck_token ck) authorization, tab)
      else handle_did_auth kl jl fetch cfg ck authorization domain tab)"

section \<open>Middleware\<close>

text \<open>\<open>fnmatch\<close> with stars and question marks; the patterns have no brackets.\<close>

fun glob :: "string \<Rightarrow> string \<Rightarrow> bool" where
  "glob [] s = (s = [])"
| "glob (p # ps) [] = (p = CHR ''*'' \<and> glob ps [])"
| "glob (p # ps) (c # s) =
     (if p = CHR ''*'' then glob ps (c # s) \<or> glob (p # ps) s else (p = CHR ''?'' \<or> p = c) \<and> glob ps s)"

definition FASTANP_EXEMPT :: "string list" where
  "FASTANP_EXEMPT = [''/favicon.ico'', ''/health'', ''/docs'', ''*/ad.json'', ''/info/*'']"

definition OPENANP_EXEMPT :: "string list" where
  "OPENANP_EXEMPT = FASTANP_EXEMPT @ [''*/interface/*.json'']"

record request =
  rq_path :: string
  rq_host :: "string option"
  rq_auth :: "string option"

definition get_and_validate_domain :: "request \<Rightarrow> string list option \<Rightarrow> string result" where
  "get_and_validate_domain rq allowed =
     (let domain = hd (split_on (\<lambda>c. c = CHR '':'') (case rq_host rq of Some h \<Rightarrow> h | None \<Rightarrow> '''')) in
      if (case allowed of Some ds \<Rightarrow> ds \<noteq> [] \<and> domain \<notin> set ds | None \<Rightarrow> False) then Inl (HTTPException 403 ''domain not allowed'') else Inr domain)"

definition as_http :: "'a result \<Rightarrow> 'a result" where
  "as_http r = (case r of Inl (DidWbaError m c) \<Rightarrow> Inl (HTTPException c m) | _ \<Rightarrow> r)"

definition verify_auth_header ::
    "keylib \<Rightarrow> jwtlib \<Rightarrow> (string \<Rightarrow> pyval result) \<Rightarrow> vconfig \<Rightarrow> clocks \<Rightarrow> request \<Rightarrow> string list option \<Rightarrow> nonces \<Rightarrow> pyobj result \<times> nonces" where
  "verify_auth_header kl jl fetch cfg ck rq allowed tab = (case rq_auth rq of
      None \<Rightarrow> (Inl (HTTPException 401 ''Missing authorization header''), tab)
    | Some a \<Rightarrow>
        if a = [] then (Inl (HTTPException 401 ''Missing authorization header''), tab)
        else (case get_and_validate_domain rq allowed of
            Inl e \<Rightarrow> (Inl e, tab)
          | Inr domain \<Rightarrow> (case verify_authorization kl jl fetch cfg ck a domain tab of (r, tab) \<Rightarrow> (as_http r, tab))))"

definition authenticate_request ::
    "keylib \<Rightarrow> jwtlib \<Rightarrow> (string \<Rightarrow> pyval result) \<Rightarrow> vconfig \<Rightarrow> clocks \<Rightarrow> request \<Rightarrow> string list option \<Rightarrow> string list \<Rightarrow> nonces \<Rightarrow>
    pyobj option result \<times> nonces" where
  "authenticate_request kl jl fetch cfg ck rq allowed exempt tab =
     (if list_ex (\<lambda>p. glob p (rq_path rq)) exempt then (Inr None, tab)
      else (case verify_auth_header kl jl fetch cfg ck rq allowed tab of (r, tab) \<Rightarrow> (bindE r (\<lambda>x. Inr (Some x)), tab)))"

record response =
  rp_status :: nat
  rp_headers :: "(string, string) pydict"

definition error_response :: "pyexc \<Rightarrow> response" where
  "error_response e = (case e of HTTPException c m \<Rightarrow> \<lparr>rp_status = c, rp_headers = []\<rparr> | _ \<Rightarrow> \<lparr>rp_status = 500, rp_headers = []\<rparr>)"

text \<open>The application gets the result of the authentication and the DID in it.\<close>

definition auth_middleware ::
    "keylib \<Rightarrow> jwtlib \<Rightarrow> (string \<Rightarrow> pyval result) \<Rightarrow> vconfig \<Rightarrow> clocks \<Rightarrow> request \<Rightarrow> (pyobj option \<Rightarrow> pyval \<Rightarrow> response result) \<Rightarrow>
    string list option \<Rightarrow> string list \<Rightarrow> nonces \<Rightarrow> response \<times> nonces" where
  "auth_middleware kl jl fetch cfg ck rq app allowed exempt tab =
     (case authenticate_request kl jl fetch cfg ck rq allowed exempt tab of (a, tab) \<Rightarrow>
        ((case bindE a (\<lambda>auth. bindE (app auth (case auth of Some d \<Rightarrow> if d = [] then PNone else oget d ''did'' | None \<Rightarrow> PNone)) (\<lambda>rp.
              case auth of
                Some d \<Rightarrow> if oget d ''token_type'' = PStr ''bearer''
                  then bindE (bindE (oindex d ''access_token'') (\<lambda>t. case t of PStr s \<Rightarrow> Inr s | _ \<Rightarrow> Inl TypeError)) (\<lambda>t.
                    Inr (rp\<lparr>rp_headers := dset ''authorization'' (''bearer '' @ t) (rp_headers rp)\<rparr>))
                  else Inr rp
              | None \<Rightarrow> Inr rp)) of
            Inr rp \<Rightarrow> rp
          | Inl e \<Rightarrow> error_response e), tab))"

definition create_auth_middleware ::
    "keylib \<Rightarrow> jwtlib \<Rightarrow> (string \<Rightarrow> pyval result) \<Rightarrow> vconfig \<Rightarrow> string list option \<Rightarrow> clocks \<Rightarrow> request \<Rightarrow>
    (pyobj option \<Rightarrow> pyval \<Rightarrow> response result) \<Rightarrow> nonces \<Rightarrow> response \<times> nonces" where
  "create_auth_middleware kl jl fetch cfg exempt ck rq app tab =
     auth_middleware kl jl fetch cfg ck rq app (vc_domains cfg) (case exempt of Some ps \<Rightarrow> ps | None \<Rightarrow> OPENANP_EXEMPT) tab"


section \<open>A header is accepted once\<close>

definition live :: "vconfig \<Rightarrow> real \<Rightarrow> real \<Rightarrow> bool" where
  "live cfg now t \<longleftrightarrow> \<not> now - t > minutes (vc_nonce_min cfg)"

lemma nonce_step:
  assumes "distinct (dkeys tab)" and "vc_external cfg = None" and "is_valid_server_nonce cfg now did nonce tab = (ok, tab')"
  shows "distinct (dkeys tab')"
    and "dget tab n = Some t \<Longrightarrow> live cfg now t \<Longrightarrow> dget tab' n = Some t"
    and "dget tab nonce = Some t \<Longrightarrow> live cfg now t \<Longrightarrow> \<not> ok"
    and "ok \<Longrightarrow> dget tab' nonce = Some now"
proof -
  let ?f = "dfilter (\<lambda>n t. \<not> now - t > minutes (vc_nonce_min cfg)) tab"
  have d: "distinct (dkeys ?f)" by (rule distinct_dkeys_dfilter[OF assms(1)])
  have c: "(ok, tab') = (if din nonce ?f then (False, ?f) else (True, dset nonce now ?f))"
    using assms(2,3) by (simp add: is_valid_server_nonce_def Let_def)
  show "distinct (dkeys tab')" using c d distinct_dkeys_dset[OF d] by (simp split: if_splits)
  have g: "dget ?f n = Some t" if "dget tab n = Some t" "live cfg now t" for n t
    using that by (simp add: dget_dfilter[OF assms(1)] live_def)
  then have i: "din n ?f" if "dget tab n = Some t" "live cfg now t" for n t
    using that by (metis din_def option.discI)
  show "dget tab n = Some t \<Longrightarrow> live cfg now t \<Longrightarrow> dget tab' n = Some t"
    using g[of n t] i[of n t] c by (auto split: if_splits)
  show "dget tab nonce = Some t \<Longrightarrow> live cfg now t \<Longrightarrow> \<not> ok" using i[of nonce t] c by simp
  show "ok \<Longrightarrow> dget tab' nonce = Some now" using c by (auto split: if_splits)
qed

lemma did_step:
  assumes "distinct (dkeys tab)" and "vc_external cfg = None" and "verify_authorization kl jl fetch cfg ck h domain tab = (r, tab')"
  shows "distinct (dkeys tab')" and "dget tab n = Some t \<Longrightarrow> live cfg (ck_nonce ck) t \<Longrightarrow> dget tab' n = Some t"
proof -
  have "tab' = tab \<or> (\<exists>did nonce ok. is_valid_server_nonce cfg (ck_nonce ck) did nonce tab = (ok, tab'))"
    using assms(3) by (auto simp: verify_authorization_def handle_did_auth_def split: if_splits sum.splits prod.splits bool.splits)
  then show "distinct (dkeys tab')" "dget tab n = Some t \<Longrightarrow> live cfg (ck_nonce ck) t \<Longrightarrow> dget tab' n = Some t"
    using assms(1) nonce_step[OF assms(1,2)] by blast+
qed

lemma did_accepted:
  assumes "distinct (dkeys tab)" and "vc_external cfg = None" and "verify_authorization kl jl fetch cfg ck h domain tab = (Inr a, tab')"
    and "take 7 h \<noteq> ''Bearer ''"
  shows "\<exists>p. extract_auth_header_parts h = Inr p \<and> verify_timestamp kl cfg (ck_stamp ck) (ap_timestamp p) \<and>
    dget tab' (ap_nonce p) = Some (ck_nonce ck) \<and> (\<forall>t. dget tab (ap_nonce p) = Some t \<longrightarrow> \<not> live cfg (ck_nonce ck) t)"
proof -
  obtain p where p: "extract_auth_header_parts h = Inr p" "verify_timestamp kl cfg (ck_stamp ck) (ap_timestamp p)"
    "is_valid_server_nonce cfg (ck_nonce ck) (ap_did p) (ap_nonce p) tab = (True, tab')"
    using assms(3,4) by (auto simp: verify_authorization_def handle_did_auth_def split: if_splits sum.splits prod.splits bool.splits)
  then show ?thesis using nonce_step[OF assms(1,2) p(3)] by blast
qed

text \<open>What the time window says of a time stamp accepted twice.\<close>

lemma stamp_window:
  assumes "verify_timestamp kl cfg u s" and "verify_timestamp kl cfg u' s"
  shows "u' - u \<le> minutes (vc_stamp_min cfg) + minutes 1"
  using assms by (auto simp: verify_timestamp_def split: sum.splits prod.splits bool.splits if_splits)

type_synonym login = "clocks \<times> string \<times> string"

fun run_verifier :: "keylib \<Rightarrow> jwtlib \<Rightarrow> (string \<Rightarrow> pyval result) \<Rightarrow> vconfig \<Rightarrow> login list \<Rightarrow> nonces \<Rightarrow> pyobj result list" where
  "run_verifier kl jl fetch cfg [] tab = []"
| "run_verifier kl jl fetch cfg ((ck, h, d) # rs) tab =
     (case verify_authorization kl jl fetch cfg ck h d tab of (r, tab) \<Rightarrow> r # run_verifier kl jl fetch cfg rs tab)"

lemma length_run [simp]: "length (run_verifier kl jl fetch cfg rs tab) = length rs"
  by (induction rs arbitrary: tab) (auto split: prod.splits)

abbreviation nonce_times :: "login list \<Rightarrow> real list" where
  "nonce_times rs \<equiv> map (\<lambda>(ck, _). ck_nonce ck) rs"

lemma accepted_stamp:
  assumes "vc_external cfg = None" and "take 7 h \<noteq> ''Bearer ''" and "extract_auth_header_parts h = Inr p"
  shows "distinct (dkeys tab) \<Longrightarrow> j < length rs \<Longrightarrow> rs ! j = (ck, h, d) \<Longrightarrow> run_verifier kl jl fetch cfg rs tab ! j = Inr a \<Longrightarrow>
    verify_timestamp kl cfg (ck_stamp ck) (ap_timestamp p)"
proof (induction rs arbitrary: tab j)
  case (Cons r rs)
  obtain ck0 h0 d0 where r: "r = (ck0, h0, d0)" by (cases r)
  obtain q tab' where s: "verify_authorization kl jl fetch cfg ck0 h0 d0 tab = (q, tab')" by fastforce
  show ?case
  proof (cases j)
    case 0
    then have "q = Inr a" "ck0 = ck" "h0 = h" using Cons.prems r s by auto
    then show ?thesis using did_accepted[OF Cons.prems(1) assms(1) _ assms(2)] s assms(3) by (metis sum.inject(2))
  next
    case (Suc i)
    then show ?thesis using Cons.IH[OF did_step(1)[OF Cons.prems(1) assms(1) s]] Cons.prems r s by auto
  qed
qed simp

lemma marked_blocks:
  assumes "vc_external cfg = None" and "take 7 h \<noteq> ''Bearer ''" and "extract_auth_header_parts h = Inr p"
  shows "distinct (dkeys tab) \<Longrightarrow> dget tab (ap_nonce p) = Some t \<Longrightarrow> sorted (nonce_times rs) \<Longrightarrow> j < length rs \<Longrightarrow> rs ! j = (ck, h, d) \<Longrightarrow>
    run_verifier kl jl fetch cfg rs tab ! j = Inr a \<Longrightarrow>
    \<not> live cfg (ck_nonce ck) t \<and> verify_timestamp kl cfg (ck_stamp ck) (ap_timestamp p)"
proof (induction rs arbitrary: tab j)
  case (Cons r rs)
  obtain ck0 h0 d0 where r: "r = (ck0, h0, d0)" by (cases r)
  obtain q tab' where s: "verify_authorization kl jl fetch cfg ck0 h0 d0 tab = (q, tab')" by fastforce
  show ?case
  proof (cases j)
    case 0
    then have "q = Inr a" "ck0 = ck" "h0 = h" using Cons.prems r s by auto
    then show ?thesis using did_accepted[OF Cons.prems(1) assms(1) _ assms(2)] s assms(3) Cons.prems(2) by (metis sum.inject(2))
  next
    case (Suc i)
    have rest: "run_verifier kl jl fetch cfg rs tab' ! i = Inr a" "rs ! i = (ck, h, d)" "i < length rs" "sorted (nonce_times rs)"
      using Cons.prems r s Suc by auto
    show ?thesis
    proof (cases "live cfg (ck_nonce ck0) t")
      case True
      then show ?thesis using Cons.IH[OF did_step(1)[OF Cons.prems(1) assms(1) s] did_step(2)[OF Cons.prems(1) assms(1) s Cons.prems(2)]] rest by blast
    next
      case False
      have "(ck, h, d) \<in> set rs" using rest(2,3) by (metis nth_mem)
      then have "ck_nonce ck0 \<le> ck_nonce ck" using Cons.prems(3) r by auto
      moreover have "verify_timestamp kl cfg (ck_stamp ck) (ap_timestamp p)"
        by (rule accepted_stamp[OF assms(1,2,3) did_step(1)[OF Cons.prems(1) assms(1) s] rest(3,2,1)])
      ultimately show ?thesis using False by (simp add: live_def)
    qed
  qed
qed simp

lemma accepted_once:
  assumes "vc_external cfg = None" and "take 7 h \<noteq> ''Bearer ''"
    and "minutes (vc_stamp_min cfg) + minutes 1 + lag \<le> minutes (vc_nonce_min cfg)"
    and "list_all (\<lambda>(ck, _). ck_stamp ck \<le> ck_nonce ck \<and> ck_nonce ck \<le> ck_stamp ck + lag) rs"
  shows "distinct (dkeys tab) \<Longrightarrow> sorted (nonce_times rs) \<Longrightarrow> i < j \<Longrightarrow> j < length rs \<Longrightarrow> rs ! i = (ci, h, di) \<Longrightarrow> rs ! j = (cj, h, dj) \<Longrightarrow>
    run_verifier kl jl fetch cfg rs tab ! i = Inr a \<Longrightarrow> \<exists>e. run_verifier kl jl fetch cfg rs tab ! j = Inl e"
  using assms(4)
proof (induction rs arbitrary: tab i j)
  case (Cons r rs)
  obtain ck0 h0 d0 where r: "r = (ck0, h0, d0)" by (cases r)
  obtain q tab' where s: "verify_authorization kl jl fetch cfg ck0 h0 d0 tab = (q, tab')" by fastforce
  obtain j' where j: "j = Suc j'" using Cons.prems(3) by (cases j) auto
  have rest: "rs ! j' = (cj, h, dj)" "j' < length rs" "sorted (nonce_times rs)" "distinct (dkeys tab')"
    using Cons.prems r j did_step(1)[OF Cons.prems(1) assms(1) s] by auto
  show ?case
  proof (cases i)
    case (Suc i')
    then show ?thesis using Cons.IH[OF rest(4,3), of i' j'] Cons.prems r s j rest by auto
  next
    case 0
    then have z: "q = Inr a" "ck0 = ci" "h0 = h" using Cons.prems r s by auto
    show ?thesis
    proof (rule ccontr)
      assume "\<nexists>e. run_verifier kl jl fetch cfg (r # rs) tab ! j = Inl e"
      then obtain b where b: "run_verifier kl jl fetch cfg rs tab' ! j' = Inr b"
        using r s j by (cases "run_verifier kl jl fetch cfg rs tab' ! j'") auto
      obtain p where p: "extract_auth_header_parts h = Inr p" "verify_timestamp kl cfg (ck_stamp ci) (ap_timestamp p)"
        "dget tab' (ap_nonce p) = Some (ck_nonce ci)"
        using did_accepted[OF Cons.prems(1) assms(1) _ assms(2)] s z by blast
      have dead: "\<not> live cfg (ck_nonce cj) (ck_nonce ci)"
        using marked_blocks[OF assms(1,2) p(1) rest(4) p(3) rest(3,2,1) b] by blast
      have "verify_timestamp kl cfg (ck_stamp cj) (ap_timestamp p)"
        by (rule accepted_stamp[OF assms(1,2) p(1) rest(4,2,1) b])
      then have "ck_stamp cj - ck_stamp ci \<le> minutes (vc_stamp_min cfg) + minutes 1" using stamp_window[OF p(2)] by simp
      moreover have "(cj, h, dj) \<in> set rs" using rest(1,2) by (metis nth_mem)
      then have "ck_nonce cj \<le> ck_stamp cj + lag" using Cons.prems(8) by (auto simp: list_all_iff)
      moreover have "ck_stamp ci \<le> ck_nonce ci" using Cons.prems(8) r z by simp
      ultimately show False using dead assms(3) by (simp add: live_def)
    qed
  qed
qed simp


section \<open>Logging in\<close>

lemma created_document_served:
  assumes "create_did_wba_document kl t hostname port path (sk, ECPub ''secp256k1'' x y) opts = Inr (doc, ks)"
    and "path \<noteq> []" and "list_all (\<lambda>w. CHR '':'' \<notin> set w) path" and "CHR '':'' \<notin> set hostname" and "CHR ''%'' \<notin> set hostname" and "do_vm opts = None"
    and "fetch (did_url (did_domain hostname port) path) = Inr (PDict doc)"
  shows "resolve_did_wba_document kl fetch (did_base hostname port @ '':'' @ join_with '':'' path) False = Inr (Some doc) \<and> doc \<noteq> []"
proof -
  let ?did = "did_base hostname port @ CHR '':'' # join_with '':'' path"
  have b: "build_document kl t ?did (sk, ECPub ''secp256k1'' x y) opts = Inr (doc, ks)"
    using assms(1,2) by (auto simp: create_did_wba_document_def bindE_Inr_iff)
  have i: "oget doc ''id'' = PStr ?did" using build_document_fields[OF b assms(6)] by blast
  then have "doc \<noteq> []" by (auto simp: oget_def dgetd_def)
  moreover have "fetch_document kl fetch (did_url (did_domain hostname port) path) ?did False = Inr (Some doc)"
    using assms(7) i by (simp add: fetch_document_def oget_def)
  moreover have "take 8 ?did = ''did:wba:''" by (simp add: did_base_def)
  ultimately have "resolve_did_wba_document kl fetch ?did False = Inr (Some doc)"
    unfolding resolve_did_wba_document_def Let_def did_parts[OF assms(4,3,2)] using assms(2) by (simp add: unquote_domain[OF assms(5)])
  then show ?thesis using \<open>doc \<noteq> []\<close> by simp
qed

lemma fresh_header_accepted:
  assumes "extract_auth_header_parts h = Inr p" and "take 7 h \<noteq> ''Bearer ''" and "h \<noteq> []"
    and "verify_timestamp kl cfg (ck_stamp ck) (ap_timestamp p)"
    and "vc_external cfg = None" and "distinct (dkeys tab)" and "\<forall>t. dget tab (ap_nonce p) = Some t \<longrightarrow> \<not> live cfg (ck_nonce ck) t"
    and "resolve_did_wba_document kl fetch (ap_did p) False = Inr (Some doc)" and "doc \<noteq> []" and "fst (verify_auth_header_signature kl h doc domain)"
    and "create_access_token jl cfg (ck_token ck) [(''sub'', PStr (ap_did p))] None = Inr token"
  shows "\<exists>tab'. verify_authorization kl jl fetch cfg ck h domain tab =
      (Inr [(''access_token'', PStr token), (''token_type'', PStr ''bearer''), (''did'', PStr (ap_did p))], tab') \<and>
    dget tab' (ap_nonce p) = Some (ck_nonce ck) \<and> distinct (dkeys tab')"
proof -
  let ?f = "dfilter (\<lambda>n t. \<not> ck_nonce ck - t > minutes (vc_nonce_min cfg)) tab"
  have "dget ?f (ap_nonce p) = None"
    using assms(7) by (auto simp: dget_dfilter[OF assms(6)] live_def split: option.splits)
  then have n: "is_valid_server_nonce cfg (ck_nonce ck) (ap_did p) (ap_nonce p) tab = (True, dset (ap_nonce p) (ck_nonce ck) ?f)"
    using assms(5) by (simp add: is_valid_server_nonce_def Let_def din_def)
  have "distinct (dkeys (dset (ap_nonce p) (ck_nonce ck) ?f))" by (intro distinct_dkeys_dset distinct_dkeys_dfilter assms(6))
  then show ?thesis
    using assms(2-4,8-11) by (simp add: verify_authorization_def handle_did_auth_def assms(1) n)
qed

text \<open>The server can issue tokens, and the library accepts what it issued until it expires.\<close>

definition claims :: "string \<Rightarrow> int \<Rightarrow> int \<Rightarrow> pyobj" where
  "claims did issued expires = [(''sub'', PStr did), (''iat'', PInt issued), (''exp'', PInt expires)]"

definition token_ok :: "jwtlib \<Rightarrow> vconfig \<Rightarrow> bool" where
  "token_ok jl cfg \<longleftrightarrow> has_key (vc_private cfg) \<and> has_key (vc_public cfg) \<and>
     (\<forall>did i e. 0 \<le> i \<and> 0 \<le> e \<longrightarrow> (\<exists>t. jl_encode jl (the (vc_private cfg)) (vc_alg cfg) (claims did i e) = Inr t \<and>
        (\<forall>now. of_int i \<le> now \<and> now < of_int e \<longrightarrow> jl_decode jl (the (vc_public cfg)) (vc_alg cfg) now t = Inr (claims did i e))))"

lemma token_accepted:
  assumes "token_ok jl cfg" and "0 \<le> now" and "now + minutes (vc_token_min cfg) < 253402300800" and "take 8 did = ''did:wba:''"
    and "now \<le> now'" and "now' < of_int \<lfloor>now + minutes (vc_token_min cfg)\<rfloor>"
  shows "\<exists>t. create_access_token jl cfg now [(''sub'', PStr did)] None = Inr t \<and>
    handle_bearer_auth jl cfg now' (''Bearer '' @ t) = Inr [(''did'', PStr did)]"
proof -
  let ?e = "\<lfloor>now + minutes (vc_token_min cfg)\<rfloor>"
  let ?p = "[(''sub'', PStr did), (''iat'', PInt \<lfloor>now\<rfloor>), (''exp'', PInt ?e)]"
  have g: "oget ?p ''sub'' = PStr did" "oget ?p ''iat'' = PInt \<lfloor>now\<rfloor>" "oget ?p ''exp'' = PInt ?e"
    by (simp_all add: oget_def dgetd_def)
  have p: "?p = claims did \<lfloor>now\<rfloor> ?e" by (simp add: claims_def)
  have le: "of_int \<lfloor>now\<rfloor> \<le> now" by simp
  have r: "(0::real) \<le> of_int \<lfloor>now\<rfloor>" "of_int ?e \<le> now + minutes (vc_token_min cfg)" "of_int \<lfloor>now\<rfloor> < (253402300800::real)" "(0::real) \<le> of_int ?e"
    using assms(2,3,5,6) le by (simp_all, linarith+)
  have i: "0 \<le> \<lfloor>now\<rfloor>" "0 \<le> ?e" using r(1,4) by simp_all
  obtain t where t: "jl_encode jl (the (vc_private cfg)) (vc_alg cfg) ?p = Inr t"
    "\<And>n. of_int \<lfloor>now\<rfloor> \<le> n \<and> n < of_int ?e \<Longrightarrow> jl_decode jl (the (vc_public cfg)) (vc_alg cfg) n t = Inr ?p"
    using assms(1) i unfolding token_ok_def p by blast
  have c: "create_access_token jl cfg now [(''sub'', PStr did)] None = Inr t"
    using assms(1) t(1) by (simp add: create_access_token_def token_ok_def)
  have d: "jl_decode jl (the (vc_public cfg)) (vc_alg cfg) now' t = Inr ?p"
    using assms(5,6) le by (intro t(2) conjI) linarith+
  have w: "\<not> now' + 5 < of_int \<lfloor>now\<rfloor>" "- 62135596800 \<le> real_of_int \<lfloor>now\<rfloor>" using le assms(5) r(1) by linarith+
  have "check_claims now' ?p = Inr [(''did'', PStr did)]"
    using assms(3-6) r w
    by (simp add: check_claims_def g din_def is_did_wba_def claim_time_def comparable_def)
  then have "handle_bearer_auth jl cfg now' (''Bearer '' @ t) = Inr [(''did'', PStr did)]"
    using assms(1) d by (simp add: handle_bearer_auth_def token_ok_def guard_bearer_def)
  then show ?thesis using c by blast
qed


section \<open>A library for examples\<close>

text \<open>Tokens that spell out their claims.\<close>

definition unary :: "int \<Rightarrow> string" where
  "unary n = replicate (nat n) CHR ''1'' @ ''.''"

definition read_unary :: "string \<Rightarrow> int \<times> string" where
  "read_unary s = (let u = takeWhile (\<lambda>c. c = CHR ''1'') s in (int (length u), drop (Suc (length u)) s))"

definition example_jwt :: jwtlib where
  "example_jwt = \<lparr>
     jl_encode = (\<lambda>k a p. case (oget p ''sub'', oget p ''iat'', oget p ''exp'') of (PStr s, PInt i, PInt e) \<Rightarrow> Inr (unary i @ unary e @ s) | _ \<Rightarrow> Inl TypeError),
     jl_decode = (\<lambda>k a now t. case read_unary t of (i, r) \<Rightarrow> (case read_unary r of (e, s) \<Rightarrow> Inr (claims s i e)))\<rparr>"

lemma read_unary: "0 \<le> n \<Longrightarrow> read_unary (unary n @ s) = (n, s)"
proof -
  assume n: "0 \<le> n"
  have "takeWhile (\<lambda>c. c = CHR ''1'') (replicate k CHR ''1'' @ ''.'' @ s) = replicate k CHR ''1''" for k by (induction k) simp_all
  then show ?thesis using n by (simp add: read_unary_def unary_def Let_def)
qed

definition example_config :: vconfig where
  "example_config = default_vconfig\<lparr>vc_private := Some ''priv'', vc_public := Some ''pub''\<rparr>"

lemma example_token_ok: "vc_private cfg = Some ''priv'' \<Longrightarrow> vc_public cfg = Some ''pub'' \<Longrightarrow> token_ok example_jwt cfg"
  by (simp add: token_ok_def has_key_def example_jwt_def claims_def oget_def dgetd_def read_unary)

text \<open>The time stamp of the example library is the time in unary.\<close>

lemma zulu_ones: "zulu (replicate n CHR ''1'') = replicate n CHR ''1''"
  by (induction n) (simp_all add: zulu_def)

lemma example_stamp:
  "0 \<le> now \<Longrightarrow> kl_iso example_keys (zulu (kl_stamp example_keys now)) = Inr (of_int \<lfloor>now\<rfloor>, True)"
proof -
  have "kl_stamp example_keys now = replicate (Suc (nat \<lfloor>now\<rfloor>)) CHR ''1''" by (simp add: example_keys_def)
  moreover assume "0 \<le> now"
  ultimately show ?thesis by (simp only: zulu_ones) (simp add: example_keys_def)
qed

section \<open>Properties\<close>

text \<open>
  C30. No DID header is accepted twice: while nonces are kept a minute and the time between the two clock readings longer
  than time stamps are, the second of two requests with the same header is refused, whatever happened in between.
\<close>
theorem no_header_twice:
  assumes "vc_external cfg = None" and "take 7 h \<noteq> ''Bearer ''"
    and "minutes (vc_stamp_min cfg) + minutes 1 + lag \<le> minutes (vc_nonce_min cfg)"
    and "list_all (\<lambda>(ck, _). ck_stamp ck \<le> ck_nonce ck \<and> ck_nonce ck \<le> ck_stamp ck + lag) rs"
    and "sorted (nonce_times rs)" and "i < j" and "j < length rs" and "rs ! i = (ci, h, di)" and "rs ! j = (cj, h, dj)"
    and "run_verifier kl jl fetch cfg rs [] ! i = Inr a"
  shows "\<exists>e. run_verifier kl jl fetch cfg rs [] ! j = Inl e"
  by (rule accepted_once[OF assms(1-4) _ assms(5-10)]) simp



text \<open>
  The bound is exact: when nonces are kept for a shorter time, a header that is signed a minute ahead of the server's clock is
  accepted again at the end of its window.  The configuration in the class documentation, five minutes for both, is of this
  kind.
\<close>
theorem early_header_twice:
  assumes "extract_auth_header_parts h = Inr p" and "take 7 h \<noteq> ''Bearer ''" and "h \<noteq> []" and "kl_iso kl (zulu (ap_timestamp p)) = Inr (t, True)"
    and "resolve_did_wba_document kl fetch (ap_did p) False = Inr (Some doc)" and "doc \<noteq> []" and "fst (verify_auth_header_signature kl h doc domain)"
    and "vc_external cfg = None" and "0 \<le> vc_stamp_min cfg" and "minutes (vc_nonce_min cfg) < minutes (vc_stamp_min cfg) + minutes 1"
    and "\<And>now. \<exists>token. create_access_token jl cfg now [(''sub'', PStr (ap_did p))] None = Inr token"
    and "first = t - minutes 1" and "second = t + minutes (vc_stamp_min cfg)"
  shows "\<exists>a b. run_verifier kl jl fetch cfg
    [(\<lparr>ck_stamp = first, ck_nonce = first, ck_token = first\<rparr>, h, domain), (\<lparr>ck_stamp = second, ck_nonce = second, ck_token = second\<rparr>, h, domain)] [] = [Inr a, Inr b]"
proof -
  let ?c = "\<lambda>t. \<lparr>ck_stamp = t, ck_nonce = t, ck_token = t\<rparr>"
  obtain k1 k2 where k: "create_access_token jl cfg first [(''sub'', PStr (ap_did p))] None = Inr k1"
    "create_access_token jl cfg second [(''sub'', PStr (ap_did p))] None = Inr k2" using assms(11) by metis
  have s: "0 \<le> minutes (vc_stamp_min cfg)" "0 < minutes 1" using assms(9) by (simp_all add: minutes_def)
  have w: "verify_timestamp kl cfg first (ap_timestamp p)" "verify_timestamp kl cfg second (ap_timestamp p)"
    using s assms(12,13) by (simp_all add: verify_timestamp_def assms(4))
  have "\<exists>tab'. verify_authorization kl jl fetch cfg (?c first) h domain [] =
      (Inr [(''access_token'', PStr k1), (''token_type'', PStr ''bearer''), (''did'', PStr (ap_did p))], tab') \<and>
    dget tab' (ap_nonce p) = Some (ck_nonce (?c first)) \<and> distinct (dkeys tab')"
    by (rule fresh_header_accepted[OF assms(1-3) _ assms(8) _ _ assms(5-7)]) (simp_all add: w k)
  then obtain tab1 where t1: "verify_authorization kl jl fetch cfg (?c first) h domain [] =
      (Inr [(''access_token'', PStr k1), (''token_type'', PStr ''bearer''), (''did'', PStr (ap_did p))], tab1)"
    "dget tab1 (ap_nonce p) = Some first" "distinct (dkeys tab1)" by auto
  have "\<not> live cfg second first" using assms(10,12,13) by (simp add: live_def)
  then have "\<exists>tab'. verify_authorization kl jl fetch cfg (?c second) h domain tab1 =
      (Inr [(''access_token'', PStr k2), (''token_type'', PStr ''bearer''), (''did'', PStr (ap_did p))], tab') \<and>
    dget tab' (ap_nonce p) = Some (ck_nonce (?c second)) \<and> distinct (dkeys tab')"
    using t1(2,3) by (intro fresh_header_accepted[OF assms(1-3) _ assms(8) _ _ assms(5-7)]) (simp_all add: w k)
  then show ?thesis using t1(1) by auto
qed

text \<open>
  C32. A header that cannot be read is answered with the status 500 and not with a refusal: the \<open>ValueError\<close> of the parser
  passes through the verifier, although its documentation promises a \<open>DidWbaVerifierError\<close>.
\<close>
theorem malformed_header_is_server_error:
  assumes "extract_auth_header_parts h = Inl (ValueError m)" and "take 7 h \<noteq> ''Bearer ''" and "h \<noteq> []" and "rq_auth rq = Some h"
    and "\<not> list_ex (\<lambda>p. glob p (rq_path rq)) exempt" and "get_and_validate_domain rq allowed = Inr domain"
  shows "verify_authorization kl jl fetch cfg ck h domain tab = (Inl (ValueError m), tab) \<and>
    auth_middleware kl jl fetch cfg ck rq app allowed exempt tab = (\<lparr>rp_status = 500, rp_headers = []\<rparr>, tab)"
proof -
  have "verify_authorization kl jl fetch cfg ck h domain tab = (Inl (ValueError m), tab)"
    using assms(2,3) by (simp add: verify_authorization_def handle_did_auth_def assms(1))
  then show ?thesis
    using assms(3,5) by (simp add: auth_middleware_def authenticate_request_def verify_auth_header_def assms(4,6) as_http_def error_response_def)
qed

section \<open>Examples\<close>

lemma example_login:
  "\<exists>doc ks header signature. create_did_wba_document example_keys 5 ''shop.example'' None [''alice''] (ECPriv [], ECPub ''secp256k1'' 1 1) plain_options = Inr (doc, ks) \<and>
    generate_auth_header example_keys 60 ''n1'' doc ''api.example'' (\<lambda>_ _. Inr [1]) ''1.1'' = Inr header \<and>
    extract_auth_header_parts header = Inr \<lparr>ap_did = did_base ''shop.example'' None @ '':'' @ join_with '':'' [''alice''], ap_nonce = ''n1'',
      ap_timestamp = kl_stamp example_keys 60, ap_method = VM_KEY_AUTH, ap_signature = signature, ap_version = ''1.1''\<rparr> \<and>
    verify_auth_header_signature example_keys header doc ''api.example'' = (True, ''Verification successful'') \<and>
    resolve_did_wba_document example_keys (\<lambda>_. Inr (PDict doc)) (did_base ''shop.example'' None @ '':'' @ join_with '':'' [''alice'']) False = Inr (Some doc) \<and>
    doc \<noteq> [] \<and> header \<noteq> [] \<and> take 7 header \<noteq> ''Bearer ''"
proof -
  obtain doc ks where d: "create_did_wba_document example_keys 5 ''shop.example'' None [''alice''] (ECPriv [], ECPub ''secp256k1'' 1 1) plain_options = Inr (doc, ks)"
    using example_document unfolding create_did_wba_document_def example_host bindE_simps by blast
  have h: "[''alice''] \<noteq> []" "do_vm plain_options = None" "kl_on_curve example_keys ''secp256k1'' 1 1"
    "signer_ok example_keys (ECPub ''secp256k1'' 1 1) (\<lambda>_ _. Inr [1])" "domain_field example_keys (PStr ''1.1'') = Inr ''aud''"
    "plain_value (did_base ''shop.example'' None @ '':'' @ join_with '':'' [''alice''])"
    "list_all (\<lambda>v. plain_value v \<and> v \<noteq> []) [''1.1'', ''n1'', kl_stamp example_keys 60]"
    by (simp_all add: example_keys_def signer_ok_def domain_field_def plain_value_def QUOTE_def did_base_def exI[of _ "1 :: nat"])
  have p: "list_all (\<lambda>w. CHR '':'' \<notin> set w) [''alice'']" "CHR '':'' \<notin> set ''shop.example''" "CHR ''%'' \<notin> set ''shop.example''" by simp_all
  have s: "resolve_did_wba_document example_keys (\<lambda>_. Inr (PDict doc)) (did_base ''shop.example'' None @ '':'' @ join_with '':'' [''alice'']) False = Inr (Some doc) \<and> doc \<noteq> []"
    using created_document_served[where fetch = "\<lambda>_. Inr (PDict doc)", OF d h(1) p h(2)] by simp
  then show ?thesis
    using generated_header[OF d h(1,2,3,4) example_keys_ok(2) h(5,6,7), where domain = "''api.example''"] d by blast
qed

lemma example_token: "vc_private cfg = Some ''priv'' \<Longrightarrow> \<exists>t. create_access_token example_jwt cfg now [(''sub'', PStr did)] None = Inr t"
  by (simp add: create_access_token_def has_key_def example_jwt_def oget_def dgetd_def)

lemma example_window:
  "60 \<le> u + 60 \<Longrightarrow> u \<le> 360 \<Longrightarrow> vc_stamp_min cfg = 5 \<Longrightarrow> verify_timestamp example_keys cfg u (kl_stamp example_keys 60)"
  by (simp add: verify_timestamp_def example_stamp minutes_def)

theorem early_header_twice_witness:
  "\<exists>doc header a b. run_verifier example_keys example_jwt (\<lambda>_. Inr (PDict doc)) (example_config\<lparr>vc_nonce_min := 5\<rparr>)
    [(\<lparr>ck_stamp = 0, ck_nonce = 0, ck_token = 0\<rparr>, header, ''api.example''), (\<lparr>ck_stamp = 360, ck_nonce = 360, ck_token = 360\<rparr>, header, ''api.example'')] [] =
    [Inr a, Inr b]"
proof -
  let ?cfg = "example_config\<lparr>vc_nonce_min := 5\<rparr>"
  obtain doc ks header signature where e: "extract_auth_header_parts header = Inr \<lparr>ap_did = did_base ''shop.example'' None @ '':'' @ join_with '':'' [''alice''], ap_nonce = ''n1'',
      ap_timestamp = kl_stamp example_keys 60, ap_method = VM_KEY_AUTH, ap_signature = signature, ap_version = ''1.1''\<rparr>"
    "take 7 header \<noteq> ''Bearer ''" "header \<noteq> []" "doc \<noteq> []" "verify_auth_header_signature example_keys header doc ''api.example'' = (True, ''Verification successful'')"
    "resolve_did_wba_document example_keys (\<lambda>_. Inr (PDict doc)) (did_base ''shop.example'' None @ '':'' @ join_with '':'' [''alice'']) False = Inr (Some doc)"
    using example_login by blast
  have c: "vc_external ?cfg = None" "0 \<le> vc_stamp_min ?cfg" "minutes (vc_nonce_min ?cfg) < minutes (vc_stamp_min ?cfg) + minutes 1" "vc_private ?cfg = Some ''priv''"
    "(0 :: real) = 60 - minutes 1" "(360 :: real) = 60 + minutes (vc_stamp_min ?cfg)"
    by (simp_all add: example_config_def default_vconfig_def minutes_def)
  have t: "kl_iso example_keys (zulu (kl_stamp example_keys 60)) = Inr (60, True)" using example_stamp[of 60] by simp
  have "\<exists>a b. run_verifier example_keys example_jwt (\<lambda>_. Inr (PDict doc)) ?cfg
    [(\<lparr>ck_stamp = 0, ck_nonce = 0, ck_token = 0\<rparr>, header, ''api.example''), (\<lparr>ck_stamp = 360, ck_nonce = 360, ck_token = 360\<rparr>, header, ''api.example'')] [] =
    [Inr a, Inr b]"
    by (rule early_header_twice[OF e(1-3) _ _ e(4) _ c(1,2,3) example_token[OF c(4)] c(5,6)]) (use e(5,6) in \<open>simp_all add: t\<close>)
  then show ?thesis by blast
qed

theorem malformed_header_is_server_error_witness:
  "auth_middleware example_keys example_jwt (\<lambda>_. Inl OSError) default_vconfig \<lparr>ck_stamp = 0, ck_nonce = 0, ck_token = 0\<rparr>
    \<lparr>rq_path = ''/rpc'', rq_host = None, rq_auth = Some ''Basic''\<rparr> (\<lambda>_ _. Inr \<lparr>rp_status = 200, rp_headers = []\<rparr>) None FASTANP_EXEMPT [] =
    (\<lparr>rp_status = 500, rp_headers = []\<rparr>, [])"
proof -
  let ?rq = "\<lparr>rq_path = ''/rpc'', rq_host = None, rq_auth = Some ''Basic''\<rparr>"
  have "extract_auth_header_parts ''Basic'' = Inl (ValueError ''Authorization header must start with DIDWba'')"
    by (simp add: extract_auth_header_parts_def py_strip_def is_space_def)
  moreover have "\<not> list_ex (\<lambda>p. glob p (rq_path ?rq)) FASTANP_EXEMPT" by (simp add: FASTANP_EXEMPT_def)
  moreover have "get_and_validate_domain ?rq None = Inr ''''" by (simp add: get_and_validate_domain_def Let_def)
  moreover have "take 7 ''Basic'' \<noteq> ''Bearer ''" "''Basic'' \<noteq> []" by simp_all
  ultimately show ?thesis using malformed_header_is_server_error[where rq = ?rq and h = "''Basic''"] by simp
qed

theorem no_header_twice_witness:
  "\<exists>doc header a e. run_verifier example_keys example_jwt (\<lambda>_. Inr (PDict doc)) example_config
      [(\<lparr>ck_stamp = 60, ck_nonce = 60, ck_token = 60\<rparr>, header, ''api.example''), (\<lparr>ck_stamp = 90, ck_nonce = 90, ck_token = 90\<rparr>, header, ''other.example'')] [] ! 0 = Inr a \<and>
    run_verifier example_keys example_jwt (\<lambda>_. Inr (PDict doc)) example_config
      [(\<lparr>ck_stamp = 60, ck_nonce = 60, ck_token = 60\<rparr>, header, ''api.example''), (\<lparr>ck_stamp = 90, ck_nonce = 90, ck_token = 90\<rparr>, header, ''other.example'')] [] ! 1 = Inl e"
proof -
  let ?c = "\<lambda>t. \<lparr>ck_stamp = t, ck_nonce = t, ck_token = t\<rparr>"
  obtain doc ks header signature where e: "extract_auth_header_parts header = Inr \<lparr>ap_did = did_base ''shop.example'' None @ '':'' @ join_with '':'' [''alice''], ap_nonce = ''n1'',
      ap_timestamp = kl_stamp example_keys 60, ap_method = VM_KEY_AUTH, ap_signature = signature, ap_version = ''1.1''\<rparr>"
    "take 7 header \<noteq> ''Bearer ''" "header \<noteq> []" "doc \<noteq> []" "verify_auth_header_signature example_keys header doc ''api.example'' = (True, ''Verification successful'')"
    "resolve_did_wba_document example_keys (\<lambda>_. Inr (PDict doc)) (did_base ''shop.example'' None @ '':'' @ join_with '':'' [''alice'']) False = Inr (Some doc)"
    using example_login by blast
  have c: "vc_external example_config = None" "vc_stamp_min example_config = 5" "vc_private example_config = Some ''priv''"
    "minutes (vc_stamp_min example_config) + minutes 1 + 0 \<le> minutes (vc_nonce_min example_config)"
    by (simp_all add: example_config_def default_vconfig_def minutes_def)
  obtain k where k: "create_access_token example_jwt example_config 60 [(''sub'', PStr (did_base ''shop.example'' None @ '':'' @ join_with '':'' [''alice'']))] None = Inr k"
    using example_token[OF c(3)] by blast
  let ?rs = "[(?c 60, header, ''api.example''), (?c 90, header, ''other.example'')]"
  have "\<exists>tab'. verify_authorization example_keys example_jwt (\<lambda>_. Inr (PDict doc)) example_config (?c 60) header ''api.example'' [] =
      (Inr [(''access_token'', PStr k), (''token_type'', PStr ''bearer''), (''did'', PStr (did_base ''shop.example'' None @ '':'' @ join_with '':'' [''alice'']))], tab') \<and>
    dget tab' ''n1'' = Some 60 \<and> distinct (dkeys tab')"
    using fresh_header_accepted[OF e(1,2,3) _ c(1), where ck = "?c 60" and jl = example_jwt and token = k and domain = "''api.example''" and doc = doc
      and tab = "[]" and kl = example_keys and fetch = "\<lambda>_. Inr (PDict doc)"] example_window[OF _ _ c(2), of 60] e(4-6) k by simp
  then obtain a where r0: "run_verifier example_keys example_jwt (\<lambda>_. Inr (PDict doc)) example_config ?rs [] ! 0 = Inr a" by (auto split: prod.splits)
  have "list_all (\<lambda>(ck, _). ck_stamp ck \<le> ck_nonce ck \<and> ck_nonce ck \<le> ck_stamp ck + 0) ?rs" "sorted (nonce_times ?rs)" "0 < (1 :: nat)" "1 < length ?rs"
    "?rs ! 0 = (?c 60, header, ''api.example'')" "?rs ! 1 = (?c 90, header, ''other.example'')" by simp_all
  from no_header_twice[OF c(1) e(2) c(4) this r0] r0 show ?thesis by blast
qed



end
