(* ===== verification/DidClient.thy ===== *)
theory DidClient
  imports DidVerifier
begin

text \<open>
  The client's side of the login (\<open>authentication/did_wba_authenticator.py\<close>) and the HTTP client of the crawler that uses it
  (\<open>anp_crawler/anp_client.py\<close>), with the server behind the middleware as the other party.  Reading the document and signing
  with the key file are arguments, as are the times and nonces of the two headers one request may need.
\<close>

section \<open>Addresses\<close>

text \<open>What the program uses of \<open>urllib.parse\<close>; addresses in brackets are left out.\<close>

record url_parts =
  up_scheme :: string
  up_netloc :: string
  up_path :: string
  up_query :: string
  up_fragment :: string

definition is_alpha :: "char \<Rightarrow> bool" where
  "is_alpha c = (let n = of_char c :: nat in 65 \<le> n \<and> n \<le> 90 \<or> 97 \<le> n \<and> n \<le> 122)"

definition scheme_char :: "char \<Rightarrow> bool" where
  "scheme_char c \<longleftrightarrow> is_alpha c \<or> is_digit c \<or> c \<in> set ''+-.''"

definition before_first :: "char \<Rightarrow> string \<Rightarrow> string" where
  "before_first x s = takeWhile (\<lambda>c. c \<noteq> x) s"

definition after_first :: "char \<Rightarrow> string \<Rightarrow> string" where
  "after_first x s = drop (Suc (length (before_first x s))) s"

definition split_scheme :: "string \<Rightarrow> string \<times> string" where
  "split_scheme s = (let p = before_first CHR '':'' s in
     if CHR '':'' \<in> set s \<and> p \<noteq> [] \<and> is_alpha (hd p) \<and> list_all scheme_char p then (py_lower p, after_first CHR '':'' s) else ([], s))"

definition split_netloc :: "string \<Rightarrow> string \<times> string" where
  "split_netloc s = (if take 2 s = ''//''
     then (let n = takeWhile (\<lambda>c. c \<notin> set ''/?#'') (drop 2 s) in (n, drop (2 + length n) s))
     else ([], s))"

definition url_junk :: "char \<Rightarrow> bool" where
  "url_junk c \<longleftrightarrow> (of_char c :: nat) \<le> 32"

definition urlsplit :: "string \<Rightarrow> url_parts result" where
  "urlsplit s = (case split_scheme (filter (\<lambda>c. c \<notin> {CHR 0x09, CHR 0x0A, CHR 0x0D}) (dropWhile url_junk s)) of (scheme, r) \<Rightarrow>
     (case split_netloc r of (netloc, r) \<Rightarrow>
        if (CHR ''['' \<in> set netloc) \<noteq> (CHR '']'' \<in> set netloc) then Inl (ValueError ''Invalid IPv6 URL'')
        else Inr \<lparr>up_scheme = scheme, up_netloc = netloc, up_path = before_first CHR ''?'' (before_first CHR ''#'' r),
               up_query = after_first CHR ''?'' (before_first CHR ''#'' r), up_fragment = after_first CHR ''#'' r\<rparr>))"

section \<open>Authenticator\<close>

record authenticator =
  au_doc :: "pyobj option"
  au_headers :: "(string, string) pydict"
  au_tokens :: "(string, string) pydict"

text \<open>The document and the key of the files the authenticator was made with.\<close>

record identity =
  id_load :: "pyobj result"
  id_sign :: "bytes \<Rightarrow> string \<Rightarrow> bytes result"

definition new_authenticator :: authenticator where
  "new_authenticator = \<lparr>au_doc = None, au_headers = [], au_tokens = []\<rparr>"

definition get_domain :: "string \<Rightarrow> string result" where
  "get_domain url = bindE (urlsplit url) (\<lambda>u. Inr (before_first CHR '':'' (up_netloc u)))"

definition load_did_document :: "identity \<Rightarrow> authenticator \<Rightarrow> (pyobj \<times> authenticator) result" where
  "load_did_document me a = (case au_doc a of
      Some (kv # d) \<Rightarrow> Inr (kv # d, a)
    | _ \<Rightarrow> bindE (id_load me) (\<lambda>d. Inr (d, a\<lparr>au_doc := Some d\<rparr>)))"

definition new_auth_header :: "keylib \<Rightarrow> identity \<Rightarrow> real \<Rightarrow> string \<Rightarrow> string \<Rightarrow> authenticator \<Rightarrow> (string \<times> authenticator) result" where
  "new_auth_header kl me now nonce domain a =
     bindE (load_did_document me a) (\<lambda>(doc, a). bindE (generate_auth_header kl now nonce doc domain (id_sign me) ''1.1'') (\<lambda>h. Inr (h, a)))"

definition get_auth_header :: "keylib \<Rightarrow> identity \<Rightarrow> real \<Rightarrow> string \<Rightarrow> string \<Rightarrow> bool \<Rightarrow> authenticator \<Rightarrow> (string \<times> authenticator) result" where
  "get_auth_header kl me now nonce url force a =
     bindE (get_domain url) (\<lambda>domain. case (dget (au_tokens a) domain, force) of
         (Some t, False) \<Rightarrow> Inr (''Bearer '' @ t, a)
       | _ \<Rightarrow> (case (dget (au_headers a) domain, force) of
             (Some h, False) \<Rightarrow> Inr (h, a)
           | _ \<Rightarrow> bindE (new_auth_header kl me now nonce domain a) (\<lambda>(h, a). Inr (h, a\<lparr>au_headers := dset domain h (au_headers a)\<rparr>))))"

text \<open>The response headers come as a plain dictionary, whose keys keep their case.\<close>

definition update_token :: "string \<Rightarrow> (string, string) pydict \<Rightarrow> authenticator \<Rightarrow> (string option \<times> authenticator) result" where
  "update_token url headers a =
     bindE (get_domain url) (\<lambda>domain. case dget headers ''Authorization'' of
         Some h \<Rightarrow> if take 7 (py_lower h) = ''bearer '' then Inr (Some (drop 7 h), a\<lparr>au_tokens := dset domain (drop 7 h) (au_tokens a)\<rparr>) else Inr (None, a)
       | None \<Rightarrow> Inr (None, a))"

definition clear_token :: "string \<Rightarrow> authenticator \<Rightarrow> authenticator result" where
  "clear_token url a = bindE (get_domain url) (\<lambda>domain. Inr (a\<lparr>au_tokens := ddel domain (au_tokens a)\<rparr>))"

definition clear_all_tokens :: "authenticator \<Rightarrow> authenticator" where
  "clear_all_tokens a = a\<lparr>au_tokens := []\<rparr>"

section \<open>HTTP client\<close>

record http_request =
  hq_method :: string
  hq_url :: string
  hq_headers :: "(string, string) pydict"
  hq_params :: pyobj
  hq_body :: "pyval option"

record http_response =
  hp_status :: nat
  hp_reason :: string
  hp_headers :: "(string, string) pydict"
  hp_text :: "string result"
  hp_charset :: "string option"

text \<open>Looking a header up ignores case.\<close>

definition header_get :: "(string, string) pydict \<Rightarrow> string \<Rightarrow> string option" where
  "header_get hs k = map_option snd (find (\<lambda>(k', v). py_lower k' = py_lower k) hs)"

definition process_response :: "keylib \<Rightarrow> http_response \<Rightarrow> string \<Rightarrow> authenticator \<Rightarrow> pyobj result \<times> authenticator" where
  "process_response kl rp url a =
     (let a = (if hp_status rp = 200 then (case update_token url (hp_headers rp) a of Inr (t, a) \<Rightarrow> a | Inl _ \<Rightarrow> a) else a);
          ctype = py_lower (case header_get (hp_headers rp) ''Content-Type'' of Some v \<Rightarrow> v | None \<Rightarrow> '''')
      in (bindE (hp_text rp) (\<lambda>txt.
            let enc = (case hp_charset rp of Some (c # cs) \<Rightarrow> c # cs | _ \<Rightarrow> ''utf-8'');
                base = [(''success'', PBool (hp_status rp = 200)), (''status_code'', PInt (int (hp_status rp))), (''url'', PStr url), (''text'', PStr txt),
                  (''content_type'', PStr ctype), (''encoding'', PStr enc)]
            in Inr (if hp_status rp = 200 then base
                 else dset ''error'' (PStr (''HTTP '' @ show_int (int (hp_status rp)) @ '': '' @ hp_reason rp)) base)), a))"

definition client_error :: "string \<Rightarrow> pyobj" where
  "client_error url = [(''success'', PBool False), (''error'', PStr ''HTTP request failed''), (''status_code'', PInt 500), (''url'', PStr url), (''text'', PStr ''''),
     (''content_type'', PStr ''''), (''encoding'', PStr ''utf-8'')]"

text \<open>A failed connection is a \<open>ConnectionError\<close> and becomes a result; any other exception leaves the method.\<close>

definition as_client_error :: "string \<Rightarrow> pyobj result \<Rightarrow> pyobj result" where
  "as_client_error url r = (case r of Inl ConnectionError \<Rightarrow> Inr (client_error url) | _ \<Rightarrow> r)"

text \<open>The moments a header may be signed at: the first attempt and the retry.\<close>

record moments =
  mo_now :: real
  mo_nonce :: string
  mo_retry :: real
  mo_retry_nonce :: string

type_synonym 's server = "http_request \<Rightarrow> 's \<Rightarrow> http_response result \<times> 's"

definition retry_request :: "keylib \<Rightarrow> identity \<Rightarrow> moments \<Rightarrow> 's server \<Rightarrow> http_request \<Rightarrow> authenticator \<Rightarrow> 's \<Rightarrow> pyobj result \<times> authenticator \<times> 's" where
  "retry_request kl me mo send rq a s = (case bindE (clear_token (hq_url rq) a) (get_auth_header kl me (mo_retry mo) (mo_retry_nonce mo) (hq_url rq) True) of
      Inl e \<Rightarrow> (Inl e, (case clear_token (hq_url rq) a of Inr a \<Rightarrow> a | Inl _ \<Rightarrow> a), s)
    | Inr (h, a) \<Rightarrow> (case send (rq\<lparr>hq_headers := dset ''Authorization'' h (hq_headers rq)\<rparr>) s of
        (Inl e, s) \<Rightarrow> (Inl e, a, s)
      | (Inr rp, s) \<Rightarrow> (case process_response kl rp (hq_url rq) a of (r, a) \<Rightarrow> (r, a, s))))"

definition fetch_url :: "keylib \<Rightarrow> identity \<Rightarrow> moments \<Rightarrow> 's server \<Rightarrow> string \<Rightarrow> string \<Rightarrow> (string, string) pydict \<Rightarrow> pyobj \<Rightarrow> pyval option \<Rightarrow>
    authenticator \<Rightarrow> 's \<Rightarrow> pyobj result \<times> authenticator \<times> 's" where
  "fetch_url kl me mo send url method headers params body a s =
     (let post = method \<in> {''POST'', ''PUT'', ''PATCH''};
          headers = (if \<not> din ''Content-Type'' headers \<and> post then dset ''Content-Type'' ''application/json'' headers else headers);
          (headers, a) = (case get_auth_header kl me (mo_now mo) (mo_nonce mo) url False a of
              Inr (h, a) \<Rightarrow> (dset ''Authorization'' h headers, a) | Inl _ \<Rightarrow> (headers, a));
          rq = \<lparr>hq_method = method, hq_url = url, hq_headers = headers, hq_params = params, hq_body = (if post then body else None)\<rparr>
      in (case (case send rq s of
              (Inl e, s) \<Rightarrow> (Inl e, a, s)
            | (Inr rp, s) \<Rightarrow>
                if hp_status rp = 401 \<and> din ''Authorization'' headers then retry_request kl me mo send rq a s
                else (case process_response kl rp url a of (r, a) \<Rightarrow> (r, a, s))) of
            (r, a, s) \<Rightarrow> (as_client_error url r, a, s)))"

text \<open>\<open>get_content_info\<close>: a HEAD request without authentication.\<close>

definition get_content_info :: "string \<Rightarrow> http_response result \<Rightarrow> pyobj" where
  "get_content_info url r = (case r of
      Inl e \<Rightarrow> [(''success'', PBool False), (''url'', PStr url), (''error'', PStr ''exception''), (''content_type'', PStr ''''), (''content_length'', PInt 0),
        (''status_code'', PInt 500)]
    | Inr rp \<Rightarrow>
        (let len = (case header_get (hp_headers rp) ''Content-Length'' of Some v \<Rightarrow> v | None \<Rightarrow> ''0'') in
         [(''success'', PBool True), (''url'', PStr url), (''content_type'', PStr (case header_get (hp_headers rp) ''Content-Type'' of Some v \<Rightarrow> v | None \<Rightarrow> '''')),
          (''content_length'', PInt (if len \<noteq> [] \<and> list_all is_digit len then (case int10 len of Inr n \<Rightarrow> n | Inl _ \<Rightarrow> 0) else 0)),
          (''status_code'', PInt (int (hp_status rp)))]))"

section \<open>JSON over HTTP\<close>

text \<open>\<open>fetch\<close>: every failure becomes a result without data.\<close>

definition no_data :: "pyval \<Rightarrow> pyobj" where
  "no_data e = [(''success'', PBool False), (''data'', PNone), (''error'', e)]"

definition fetch_answer :: "(string \<Rightarrow> pyval result) \<Rightarrow> pyobj result \<Rightarrow> pyobj" where
  "fetch_answer loads r = (case r of
      Inl e \<Rightarrow> no_data (PStr ''exception'')
    | Inr d \<Rightarrow>
        if \<not> truthy (dgetd d ''success'' (PBool False)) then no_data (dgetd d ''error'' (PStr ''Failed to fetch URL''))
        else (case dgetd d ''text'' (PStr ''{}'') of
            PStr t \<Rightarrow> (case loads t of
                Inr v \<Rightarrow> [(''success'', PBool True), (''data'', v), (''error'', PNone)]
              | Inl JSONDecodeError \<Rightarrow> no_data (PStr ''Failed to parse JSON'')
              | Inl e \<Rightarrow> no_data (PStr ''exception''))
          | _ \<Rightarrow> no_data (PStr ''exception'')))"

definition client_fetch :: "keylib \<Rightarrow> (string \<Rightarrow> pyval result) \<Rightarrow> identity \<Rightarrow> moments \<Rightarrow> 's server \<Rightarrow> string \<Rightarrow> authenticator \<Rightarrow> 's \<Rightarrow>
    pyobj \<times> authenticator \<times> 's" where
  "client_fetch kl loads me mo send url a s = (case fetch_url kl me mo send url ''GET'' [] [] None a s of (r, a, s) \<Rightarrow> (fetch_answer loads r, a, s))"

definition rpc_failure :: "int \<Rightarrow> pyval \<Rightarrow> string \<Rightarrow> pyobj" where
  "rpc_failure code msg rid = [(''success'', PBool False), (''result'', PNone), (''error'', PDict [(''code'', PInt code), (''message'', msg)]), (''request_id'', PStr rid)]"

text \<open>\<open>"error" in response\<close>: a key of an object, a part of a text, an element of a list.\<close>

definition rpc_answer :: "(string \<Rightarrow> pyval result) \<Rightarrow> string \<Rightarrow> pyobj result \<Rightarrow> pyobj" where
  "rpc_answer loads rid r = (case r of
      Inl e \<Rightarrow> rpc_failure (- 32603) (PStr ''Internal error'') rid
    | Inr d \<Rightarrow>
        if \<not> truthy (dgetd d ''success'' (PBool False)) then rpc_failure (- 32603) (dgetd d ''error'' (PStr ''Internal error'')) rid
        else (case dgetd d ''text'' (PStr ''{}'') of
            PStr t \<Rightarrow> (case loads t of
                Inl JSONDecodeError \<Rightarrow> rpc_failure (- 32700) (PStr ''Parse error'') rid
              | Inr (PDict j) \<Rightarrow>
                  if din ''error'' j then [(''success'', PBool False), (''result'', PNone), (''error'', oget j ''error''), (''request_id'', dgetd j ''id'' (PStr rid))]
                  else [(''success'', PBool True), (''result'', oget j ''result''), (''error'', PNone), (''request_id'', dgetd j ''id'' (PStr rid))]
              | _ \<Rightarrow> rpc_failure (- 32603) (PStr ''Internal error'') rid)
          | _ \<Rightarrow> rpc_failure (- 32603) (PStr ''Internal error'') rid))"

definition rpc_message :: "string \<Rightarrow> pyobj \<Rightarrow> string \<Rightarrow> pyval" where
  "rpc_message method params rid = PDict [(''jsonrpc'', PStr ''2.0''), (''id'', PStr rid), (''method'', PStr method), (''params'', PDict params)]"

definition call_jsonrpc :: "keylib \<Rightarrow> (string \<Rightarrow> pyval result) \<Rightarrow> identity \<Rightarrow> moments \<Rightarrow> 's server \<Rightarrow> string \<Rightarrow> string \<Rightarrow> pyobj \<Rightarrow> string \<Rightarrow>
    authenticator \<Rightarrow> 's \<Rightarrow> pyobj \<times> authenticator \<times> 's" where
  "call_jsonrpc kl loads me mo send url method params rid a s =
     (case fetch_url kl me mo send url ''POST'' [(''Content-Type'', ''application/json'')] [] (Some (rpc_message method params rid)) a s of
        (r, a, s) \<Rightarrow> (rpc_answer loads rid r, a, s))"


section \<open>A client and a server\<close>

text \<open>
  The server that answers the client: the middleware in front of an application; the clocks of the requests to come are
  part of its state, and the texts of the responses are the application's.
\<close>

definition protected_server :: "keylib \<Rightarrow> jwtlib \<Rightarrow> (string \<Rightarrow> pyval result) \<Rightarrow> vconfig \<Rightarrow> string list option \<Rightarrow> (pyobj option \<Rightarrow> pyval \<Rightarrow> response result) \<Rightarrow>
    (response \<Rightarrow> string) \<Rightarrow> (nonces \<times> clocks list) server" where
  "protected_server kl jl fetch cfg exempt app render rq s = (case s of
      (tab, []) \<Rightarrow> (Inl ConnectionError, s)
    | (tab, ck # cks) \<Rightarrow> (case urlsplit (hq_url rq) of
          Inl e \<Rightarrow> (Inl e, s)
        | Inr u \<Rightarrow> (case create_auth_middleware kl jl fetch cfg exempt ck
              \<lparr>rq_path = up_path u, rq_host = Some (up_netloc u), rq_auth = header_get (hq_headers rq) ''Authorization''\<rparr> app tab of
            (rp, tab) \<Rightarrow> (Inr \<lparr>hp_status = rp_status rp, hp_reason = '''', hp_headers = rp_headers rp, hp_text = Inr (render rp), hp_charset = None\<rparr>, tab, cks))))"

text \<open>A client whose document is published under its DID and whose key signs for it.\<close>

definition published :: "keylib \<Rightarrow> (string \<Rightarrow> pyval result) \<Rightarrow> string \<Rightarrow> pyobj \<Rightarrow> (bytes \<Rightarrow> string \<Rightarrow> bytes result) \<Rightarrow> bool" where
  "published kl fetch did doc sign \<longleftrightarrow> (\<exists>t hostname port path sk x y opts ks.
     create_did_wba_document kl t hostname port path (sk, ECPub ''secp256k1'' x y) opts = Inr (doc, ks) \<and> path \<noteq> [] \<and>
     list_all (\<lambda>w. CHR '':'' \<notin> set w) path \<and> CHR '':'' \<notin> set hostname \<and> CHR ''%'' \<notin> set hostname \<and> do_vm opts = None \<and>
     fetch (did_url (did_domain hostname port) path) = Inr (PDict doc) \<and> kl_on_curve kl ''secp256k1'' x y \<and>
     signer_ok kl (ECPub ''secp256k1'' x y) sign \<and> did = did_base hostname port @ '':'' @ join_with '':'' path \<and> plain_value did)"

lemma published_header:
  assumes "published kl fetch did doc sign" and "kl_jcs_total kl" and "domain_field kl (PStr ''1.1'') = Inr f"
    and "list_all (\<lambda>v. plain_value v \<and> v \<noteq> []) [nonce, kl_stamp kl now]"
  shows "\<exists>h signature. generate_auth_header kl now nonce doc domain sign ''1.1'' = Inr h \<and>
    extract_auth_header_parts h = Inr \<lparr>ap_did = did, ap_nonce = nonce, ap_timestamp = kl_stamp kl now, ap_method = VM_KEY_AUTH,
      ap_signature = signature, ap_version = ''1.1''\<rparr> \<and>
    verify_auth_header_signature kl h doc domain = (True, ''Verification successful'') \<and> h \<noteq> [] \<and> take 7 h \<noteq> ''Bearer '' \<and>
    resolve_did_wba_document kl fetch did False = Inr (Some doc) \<and> doc \<noteq> []"
proof -
  obtain t hostname port path sk x y opts ks where p: "create_did_wba_document kl t hostname port path (sk, ECPub ''secp256k1'' x y) opts = Inr (doc, ks)"
    "path \<noteq> []" "list_all (\<lambda>w. CHR '':'' \<notin> set w) path" "CHR '':'' \<notin> set hostname" "CHR ''%'' \<notin> set hostname" "do_vm opts = None"
    "fetch (did_url (did_domain hostname port) path) = Inr (PDict doc)" "kl_on_curve kl ''secp256k1'' x y"
    "signer_ok kl (ECPub ''secp256k1'' x y) sign" "did = did_base hostname port @ '':'' @ join_with '':'' path" "plain_value did"
    using assms(1) unfolding published_def by blast
  have v: "list_all (\<lambda>v. plain_value v \<and> v \<noteq> []) [''1.1'', nonce, kl_stamp kl now]"
    using assms(4) by (simp add: plain_value_def QUOTE_def)
  show ?thesis
    using generated_header[OF p(1,2,6,8,9) assms(2,3) p(11)[unfolded p(10)] v, of domain] created_document_served[where fetch = fetch, OF p(1-7)]
    unfolding p(10) by blast
qed

lemma before_first_hd: "before_first x s = hd (split_on (\<lambda>c. c = x) s)"
proof (induction s)
  case (Cons c s)
  then show ?case using split_on_nonempty[of "\<lambda>c. c = x" s] by (cases "split_on (\<lambda>c. c = x) s") (auto simp: before_first_def)
qed (simp add: before_first_def)

lemma server_answers:
  assumes "urlsplit url = Inr u" and "\<not> list_ex (\<lambda>p. glob p (up_path u)) (case exempt of Some ps \<Rightarrow> ps | None \<Rightarrow> OPENANP_EXEMPT)"
    and "vc_domains cfg = None" and "h \<noteq> []" and "header_get headers ''Authorization'' = Some h" and "domain = before_first CHR '':'' (up_netloc u)"
    and "verify_authorization kl jl fetch cfg ck h domain tab = (r, tab')"
  shows "protected_server kl jl fetch cfg exempt app render \<lparr>hq_method = m, hq_url = url, hq_headers = headers, hq_params = ps, hq_body = b\<rparr> (tab, ck # cks) =
    (let rp = (case bindE (as_http r) (\<lambda>d. bindE (app (Some d) (if d = [] then PNone else oget d ''did'')) (\<lambda>rp.
         if oget d ''token_type'' = PStr ''bearer''
         then bindE (bindE (oindex d ''access_token'') (\<lambda>t. case t of PStr s \<Rightarrow> Inr s | _ \<Rightarrow> Inl TypeError)) (\<lambda>t.
           Inr (rp\<lparr>rp_headers := dset ''authorization'' (''bearer '' @ t) (rp_headers rp)\<rparr>))
         else Inr rp)) of Inr rp \<Rightarrow> rp | Inl e \<Rightarrow> error_response e)
     in (Inr \<lparr>hp_status = rp_status rp, hp_reason = '''', hp_headers = rp_headers rp, hp_text = Inr (render rp), hp_charset = None\<rparr>, tab', cks))"
proof -
  have d: "get_and_validate_domain \<lparr>rq_path = up_path u, rq_host = Some (up_netloc u), rq_auth = Some h\<rparr> None = Inr domain"
    using assms(6) by (simp add: get_and_validate_domain_def Let_def before_first_hd)
  have a: "authenticate_request kl jl fetch cfg ck \<lparr>rq_path = up_path u, rq_host = Some (up_netloc u), rq_auth = Some h\<rparr> None
      (case exempt of Some ps \<Rightarrow> ps | None \<Rightarrow> OPENANP_EXEMPT) tab = (bindE (as_http r) (\<lambda>x. Inr (Some x)), tab')"
    using assms(2,4,7) by (simp add: authenticate_request_def verify_auth_header_def d)
  show ?thesis
    by (cases "as_http r") (simp_all add: protected_server_def assms(1,5) create_auth_middleware_def assms(3) auth_middleware_def a Let_def)
qed

text \<open>The client after a login: it holds the header it used, whose nonce the server knows, and no token.\<close>

definition logged_in :: "string \<Rightarrow> pyobj \<Rightarrow> authenticator \<Rightarrow> nonces \<Rightarrow> real \<Rightarrow> bool" where
  "logged_in domain doc a tab marked \<longleftrightarrow> au_doc a = Some doc \<and> doc \<noteq> [] \<and> dget (au_tokens a) domain = None \<and>
     (\<exists>h p. dget (au_headers a) domain = Some h \<and> h \<noteq> [] \<and> take 7 h \<noteq> ''Bearer '' \<and> extract_auth_header_parts h = Inr p \<and>
       dget tab (ap_nonce p) = Some marked)"


lemma token_issued: "token_ok jl cfg \<Longrightarrow> 0 \<le> now \<Longrightarrow> 0 \<le> vc_token_min cfg \<Longrightarrow> \<exists>t. create_access_token jl cfg now [(''sub'', PStr did)] None = Inr t"
proof -
  assume a: "token_ok jl cfg" "0 \<le> now" "0 \<le> vc_token_min cfg"
  have "0 \<le> \<lfloor>now\<rfloor>" "0 \<le> \<lfloor>now + minutes (vc_token_min cfg)\<rfloor>" using a by (simp_all add: minutes_def)
  then obtain t where "jl_encode jl (the (vc_private cfg)) (vc_alg cfg) (claims did \<lfloor>now\<rfloor> \<lfloor>now + minutes (vc_token_min cfg)\<rfloor>) = Inr t"
    using a(1) unfolding token_ok_def by blast
  then show ?thesis using a(1) by (simp add: create_access_token_def token_ok_def claims_def)
qed

text \<open>The header is refused a second time; the table loses at most old entries.\<close>

lemma used_header_refused:
  assumes "extract_auth_header_parts h = Inr p" and "h \<noteq> []" and "take 7 h \<noteq> ''Bearer ''" and "vc_external cfg = None" and "distinct (dkeys tab)"
    and "dget tab (ap_nonce p) = Some t" and "live cfg (ck_nonce ck) t"
  shows "\<exists>m tab'. verify_authorization kl jl fetch cfg ck h domain tab = (Inl (DidWbaError m 401), tab') \<and> distinct (dkeys tab') \<and>
    (\<forall>n. dget tab n = None \<longrightarrow> dget tab' n = None)"
proof (cases "verify_timestamp kl cfg (ck_stamp ck) (ap_timestamp p)")
  case False
  then show ?thesis using assms(2,3,5) by (simp add: verify_authorization_def handle_did_auth_def assms(1))
next
  case True
  let ?f = "dfilter (\<lambda>n t. \<not> ck_nonce ck - t > minutes (vc_nonce_min cfg)) tab"
  have f: "dget ?f n = (case dget tab n of None \<Rightarrow> None | Some v \<Rightarrow> if \<not> ck_nonce ck - v > minutes (vc_nonce_min cfg) then Some v else None)" for n
    by (rule dget_dfilter[OF assms(5)])
  have "is_valid_server_nonce cfg (ck_nonce ck) (ap_did p) (ap_nonce p) tab = (False, ?f)"
    using assms(4,6,7) f by (simp add: is_valid_server_nonce_def Let_def din_def live_def)
  then have "verify_authorization kl jl fetch cfg ck h domain tab = (Inl (DidWbaError ''Invalid or expired nonce'' 401), ?f)"
    using assms(2,3) True by (simp add: verify_authorization_def handle_did_auth_def assms(1))
  moreover have "distinct (dkeys ?f)" by (rule distinct_dkeys_dfilter[OF assms(5)])
  ultimately show ?thesis using f by auto
qed

section \<open>Properties\<close>




end
