(* ===== verification/ToolSchema.thy ===== *)
theory ToolSchema
  imports DidClient
begin

text \<open>
  Interfaces of agents as tools (\<open>anp_crawler/anp_parser.py\<close>, the converter of \<open>anp_crawler/anp_interface.py\<close>): documents are
  searched for methods, methods become tool descriptions whose schemas have their references resolved.  \<open>depth\<close> is what the
  interpreter allows a recursion; names are ASCII.
\<close>

section \<open>Parser\<close>

definition is_openrpc_interface :: "pyval \<Rightarrow> bool" where
  "is_openrpc_interface v = (case v of PDict d \<Rightarrow> din ''openrpc'' d \<and> (case dget d ''methods'' of Some m \<Rightarrow> is_list m | None \<Rightarrow> False) | _ \<Rightarrow> False)"

definition is_jsonrpc_interface :: "pyval \<Rightarrow> bool" where
  "is_jsonrpc_interface v = (case v of PDict d \<Rightarrow> din ''jsonrpc'' d \<or> din ''methods'' d \<or> din ''id'' d \<and> din ''method'' d | _ \<Rightarrow> False)"

definition openrpc_entry :: "pyobj \<Rightarrow> pyobj \<Rightarrow> pyobj" where
  "openrpc_entry d m = [(''type'', PStr ''openrpc_method''), (''protocol'', PStr ''openrpc''), (''method_name'', dgetd m ''name'' (PStr '''')),
     (''summary'', dgetd m ''summary'' (PStr '''')), (''description'', dgetd m ''description'' (PStr '''')), (''params'', dgetd m ''params'' (PList [])),
     (''result'', dgetd m ''result'' (PDict [])), (''components'', dgetd d ''components'' (PDict [])), (''servers'', dgetd d ''servers'' (PList [])),
     (''source'', PStr ''openrpc_interface'')]"

fun dicts_of :: "pyval list \<Rightarrow> pyobj list" where
  "dicts_of [] = []"
| "dicts_of (v # vs) = (case v of PDict d \<Rightarrow> d # dicts_of vs | _ \<Rightarrow> dicts_of vs)"

definition extract_openrpc_interfaces :: "pyobj \<Rightarrow> pyobj list" where
  "extract_openrpc_interfaces d = (case dget d ''methods'' of Some (PList ms) \<Rightarrow> map (openrpc_entry d) (dicts_of ms) | _ \<Rightarrow> [])"

definition with_parent_servers :: "pyval \<Rightarrow> pyobj \<Rightarrow> pyobj" where
  "with_parent_servers servers e = (if \<not> truthy (oget e ''servers'') \<and> truthy servers then dset ''parent_servers'' servers e else e)"

definition url_interface :: "pyval \<Rightarrow> pyobj \<Rightarrow> pyobj" where
  "url_interface servers i =
     (let e = [(''type'', dgetd i ''type'' (PStr ''unknown'')), (''protocol'', dgetd i ''protocol'' (PStr ''unknown'')), (''url'', dgetd i ''url'' (PStr '''')),
        (''description'', dgetd i ''description'' (PStr '''')), (''version'', dgetd i ''version'' (PStr '''')), (''source'', PStr ''agent_description'')]
      in if truthy servers then dset ''parent_servers'' servers e else e)"

definition description_entry :: "pyval \<Rightarrow> pyval \<Rightarrow> pyobj list result" where
  "description_entry servers i = (case i of
      PDict d \<Rightarrow>
        if oget d ''type'' = PStr ''StructuredInterface'' \<and> oget d ''protocol'' = PStr ''openrpc'' \<and> din ''content'' d
        then Inr (case oget d ''content'' of
            PDict c \<Rightarrow> if is_openrpc_interface (PDict c) then map (with_parent_servers servers) (extract_openrpc_interfaces c) else []
          | _ \<Rightarrow> [])
        else Inr [url_interface servers d]
    | _ \<Rightarrow> Inl AttributeError)"

definition extract_from_description :: "pyobj \<Rightarrow> pyobj list result" where
  "extract_from_description d =
     bindE (py_iter (dgetd d ''interfaces'' (PList []))) (\<lambda>is. bindE (mapE (description_entry (dgetd d ''servers'' (PList []))) is) (\<lambda>es. Inr (concat es)))"

definition extract_jsonrpc_interface :: "pyobj \<Rightarrow> pyobj result" where
  "extract_jsonrpc_interface d =
     (let ms = dgetd d ''methods'' (PList []);
          ms = (if \<not> truthy ms \<and> din ''method'' d then PList [PDict d] else ms)
      in if \<not> truthy ms then Inr []
         else bindE (py_nth ms 0) (\<lambda>m. case m of
             PDict m \<Rightarrow> Inr [(''type'', PStr ''jsonrpc_method''), (''protocol'', PStr ''JSON-RPC 2.0''),
               (''method_name'', dgetd m ''method'' (dgetd m ''name'' (PStr ''''))), (''description'', dgetd m ''description'' (PStr '''')),
               (''params'', dgetd m ''params'' (PDict [])), (''returns'', dgetd m ''returns'' (PDict [])), (''source'', PStr ''jsonrpc_interface'')]
           | _ \<Rightarrow> Inr []))"

definition parse_document :: "(string \<Rightarrow> pyval result) \<Rightarrow> string \<Rightarrow> pyobj list result" where
  "parse_document loads content = (case loads content of
      Inl JSONDecodeError \<Rightarrow> Inr []
    | Inl e \<Rightarrow> Inl e
    | Inr v \<Rightarrow> (case v of
        PDict d \<Rightarrow>
          if is_openrpc_interface v then Inr (extract_openrpc_interfaces d)
          else if din ''interfaces'' d then extract_from_description d
          else if is_jsonrpc_interface v then bindE (extract_jsonrpc_interface d) (\<lambda>e. Inr [e])
          else Inr []
      | _ \<Rightarrow> Inr []))"

section \<open>Schemas\<close>

text \<open>Following a path through the components; only dictionaries can be referred to.\<close>

fun follow_path :: "pyval \<Rightarrow> string list \<Rightarrow> pyval option" where
  "follow_path v [] = (if is_dict v then Some v else None)"
| "follow_path v (p # ps) = (case v of PDict d \<Rightarrow> (case dget d p of Some w \<Rightarrow> follow_path w ps | None \<Rightarrow> None) | _ \<Rightarrow> None)"

definition resolve_ref :: "pyval \<Rightarrow> pyval \<Rightarrow> pyval option result" where
  "resolve_ref components r = (case r of
      PStr s \<Rightarrow>
        if take 2 s \<noteq> ''#/'' then Inr None
        else let parts = split_on (\<lambda>c. c = CHR ''/'') (drop 2 s) in
          if length parts < 3 \<or> hd parts \<noteq> ''components'' then Inr None else Inr (follow_path components (tl parts))
    | _ \<Rightarrow> Inl AttributeError)"

definition unresolved :: "(pyval \<Rightarrow> string) \<Rightarrow> pyval \<Rightarrow> pyval" where
  "unresolved tostr r = PDict [(''type'', PStr ''object''), (''description'', PStr (''Unresolved reference: '' @ py_str tostr r))]"

text \<open>One field of a schema, given how to resolve what it holds.\<close>

definition resolve_field :: "(pyval \<Rightarrow> pyval result) \<Rightarrow> string \<times> pyval \<Rightarrow> (string \<times> pyval) result" where
  "resolve_field f = (\<lambda>(k, v). bindE
     (case v of
        PDict d \<Rightarrow> if k = ''properties'' then bindE (mapE (\<lambda>(p, w). bindE (f w) (\<lambda>w. Inr (p, w))) d) (\<lambda>d. Inr (PDict d)) else f v
      | PList xs \<Rightarrow> bindE (mapE (\<lambda>x. if is_dict x then f x else Inr x) xs) (\<lambda>xs. Inr (PList xs))
      | _ \<Rightarrow> Inr v) (\<lambda>w. Inr (k, w)))"

fun resolve_schema_refs :: "(pyval \<Rightarrow> string) \<Rightarrow> nat \<Rightarrow> pyval \<Rightarrow> pyval \<Rightarrow> pyval result" where
  "resolve_schema_refs tostr 0 components v = Inl (RuntimeError ''maximum recursion depth exceeded'')"
| "resolve_schema_refs tostr (Suc depth) components v = (case v of
      PDict d \<Rightarrow> (case dget d ''$ref'' of
          Some r \<Rightarrow> bindE (resolve_ref components r) (\<lambda>t. case t of
              Some (PDict (kv # t)) \<Rightarrow> resolve_schema_refs tostr depth components (PDict (kv # t))
            | _ \<Rightarrow> Inr (unresolved tostr r))
        | None \<Rightarrow> bindE (mapE (resolve_field (resolve_schema_refs tostr depth components)) d) (\<lambda>d. Inr (PDict d)))
    | _ \<Rightarrow> Inr v)"

section \<open>Converter\<close>

definition object_schema :: "pyobj \<Rightarrow> pyval list \<Rightarrow> pyval" where
  "object_schema properties required = PDict [(''type'', PStr ''object''), (''properties'', PDict properties), (''required'', PList required)]"

definition jsonrpc_params_step :: "string \<times> pyval \<Rightarrow> pyobj \<times> pyval list \<Rightarrow> pyobj \<times> pyval list" where
  "jsonrpc_params_step = (\<lambda>(k, v) (ps, rs). case v of
      PDict d \<Rightarrow> (dset k v ps, if truthy (dgetd d ''required'' (PBool False)) then rs @ [PStr k] else rs)
    | _ \<Rightarrow> (dset k (PDict [(''type'', PStr ''string''), (''description'', PStr (''Parameter: '' @ k))]) ps, rs))"

definition convert_jsonrpc_params :: "pyval \<Rightarrow> pyval result" where
  "convert_jsonrpc_params params =
     (if \<not> truthy params then Inr (object_schema [] [])
      else bindE (py_in ''type'' params) (\<lambda>schema. if schema then Inr params
        else (case params of
            PDict d \<Rightarrow> (case fold jsonrpc_params_step d ([], []) of (ps, rs) \<Rightarrow> Inr (object_schema ps rs))
          | _ \<Rightarrow> Inl AttributeError)))"

text \<open>A description is added to a schema that has none; on a schema that is no object this fails.\<close>

definition add_description :: "pyval \<Rightarrow> pyval \<Rightarrow> pyval result" where
  "add_description desc schema =
     (if \<not> truthy desc then Inr schema
      else bindE (py_in ''description'' schema) (\<lambda>has. if has then Inr schema
        else (case schema of PDict d \<Rightarrow> Inr (PDict (dset ''description'' desc d)) | _ \<Rightarrow> Inl TypeError)))"

text \<open>The name of a parameter becomes a key.\<close>

definition openrpc_param :: "(pyval \<Rightarrow> string) \<Rightarrow> nat \<Rightarrow> pyval \<Rightarrow> pyval \<Rightarrow> (pyval, pyval) pydict \<times> pyval list \<Rightarrow> ((pyval, pyval) pydict \<times> pyval list) result" where
  "openrpc_param tostr depth components p = (\<lambda>(ps, rs). case p of
      PDict d \<Rightarrow>
        (let name = dgetd d ''name'' (PStr ''''); schema = dgetd d ''schema'' (PDict []) in
         if \<not> truthy name then Inr (ps, rs)
         else bindE (if truthy schema then resolve_schema_refs tostr depth components schema else Inr (PDict [(''type'', PStr ''string'')])) (\<lambda>def.
              bindE (add_description (dgetd d ''description'' (PStr '''')) def) (\<lambda>def.
              bindE (hkey name) (\<lambda>k. Inr (dset k def ps, if truthy (dgetd d ''required'' (PBool False)) then rs @ [name] else rs)))))
    | _ \<Rightarrow> Inr (ps, rs))"

definition named_only :: "(pyval, pyval) pydict \<Rightarrow> pyobj" where
  "named_only ps = concat (map (\<lambda>(k, v). case k of PStr s \<Rightarrow> [(s, v)] | _ \<Rightarrow> []) ps)"

text \<open>Names that are no texts are left out of the result: JSON has none.\<close>

definition convert_openrpc_params :: "(pyval \<Rightarrow> string) \<Rightarrow> nat \<Rightarrow> pyval \<Rightarrow> pyval \<Rightarrow> pyval result" where
  "convert_openrpc_params tostr depth params components =
     (if \<not> truthy params then Inr (object_schema [] [])
      else bindE (py_iter params) (\<lambda>xs.
        bindE (foldE (openrpc_param tostr depth (if components = PNone then PDict [] else components)) xs ([], [])) (\<lambda>(ps, rs).
        Inr (object_schema (named_only ps) rs))))"

definition name_char :: "char \<Rightarrow> bool" where
  "name_char c \<longleftrightarrow> is_alpha c \<or> is_digit c \<or> c = CHR ''_''"

definition sanitize_name :: "string \<Rightarrow> string" where
  "sanitize_name s =
     (if s = [] then ''unknown_function''
      else let t = map (\<lambda>c. if name_char c then c else CHR ''_'') s;
               t = (if t \<noteq> [] \<and> \<not> is_alpha (hd t) \<and> hd t \<noteq> CHR ''_'' then ''fn_'' @ t else t)
           in if length t > 64 then take 64 t else t)"

definition sanitize_function_name :: "pyval \<Rightarrow> string result" where
  "sanitize_function_name v =
     (if \<not> truthy v then Inr ''unknown_function'' else case v of PStr s \<Rightarrow> Inr (sanitize_name s) | _ \<Rightarrow> Inl TypeError)"

definition tool_of :: "string \<Rightarrow> pyval \<Rightarrow> pyval \<Rightarrow> pyobj" where
  "tool_of name desc params = [(''type'', PStr ''function''), (''function'', PDict [(''name'', PStr name), (''description'', desc), (''parameters'', params)])]"

definition convert_jsonrpc_method :: "(pyval \<Rightarrow> string) \<Rightarrow> pyobj \<Rightarrow> pyobj result" where
  "convert_jsonrpc_method tostr i =
     (let method = dgetd i ''method_name'' (PStr ''unknown_method'');
          desc = dgetd i ''description'' (PStr (''JSON-RPC method: '' @ py_str tostr method))
      in bindE (convert_jsonrpc_params (dgetd i ''params'' (PDict []))) (\<lambda>ps. bindE (sanitize_function_name method) (\<lambda>n. Inr (tool_of n desc ps))))"

definition convert_openrpc_method :: "(pyval \<Rightarrow> string) \<Rightarrow> nat \<Rightarrow> pyobj \<Rightarrow> pyobj result" where
  "convert_openrpc_method tostr depth i =
     (let method = dgetd i ''method_name'' (PStr ''unknown_method'');
          desc = dgetd i ''description'' (PStr '''');
          desc = (if truthy desc then desc else dgetd i ''summary'' (PStr (''OpenRPC method: '' @ py_str tostr method)))
      in bindE (convert_openrpc_params tostr depth (dgetd i ''params'' (PList [])) (dgetd i ''components'' (PDict []))) (\<lambda>ps.
         bindE (sanitize_function_name method) (\<lambda>n. Inr (tool_of n desc ps))))"

text \<open>A conversion that fails gives no tool.\<close>

definition convert_to_openai_tools :: "(pyval \<Rightarrow> string) \<Rightarrow> nat \<Rightarrow> pyobj \<Rightarrow> pyobj option" where
  "convert_to_openai_tools tostr depth i =
     (let ty = dgetd i ''type'' (PStr ''unknown'') in
      if ty = PStr ''jsonrpc_method'' then (case convert_jsonrpc_method tostr i of Inr t \<Rightarrow> Some t | Inl _ \<Rightarrow> None)
      else if ty = PStr ''openrpc_method'' then (case convert_openrpc_method tostr depth i of Inr t \<Rightarrow> Some t | Inl _ \<Rightarrow> None)
      else None)"


section \<open>Resolved schemas\<close>

lemma mapE_cong_Inr: "mapE f xs = Inr ys \<Longrightarrow> (\<And>x y. x \<in> set xs \<Longrightarrow> f x = Inr y \<Longrightarrow> g y = Inr y) \<Longrightarrow> mapE g ys = Inr ys"
proof (induction xs arbitrary: ys)
  case (Cons x xs)
  obtain y zs where y: "f x = Inr y" "mapE f xs = Inr zs" "ys = y # zs" using Cons.prems(1) by (auto simp: bindE_Inr_iff)
  have "mapE g zs = Inr zs" by (rule Cons.IH[OF y(2)], rule Cons.prems(2)) auto
  then show ?case using Cons.prems(2)[of x y] y by simp
qed simp

lemma resolve_field_key: "resolve_field f (k, v) = Inr (k', w) \<Longrightarrow> k' = k"
  by (auto simp: resolve_field_def bindE_Inr_iff)

lemma resolve_fields_keys: "mapE (resolve_field f) d = Inr d' \<Longrightarrow> dkeys d' = dkeys d"
proof (induction d arbitrary: d')
  case (Cons kv d)
  obtain k v where kv: "kv = (k, v)" by (cases kv)
  obtain y zs where y: "resolve_field f kv = Inr y" "mapE (resolve_field f) d = Inr zs" "d' = y # zs"
    using Cons.prems by (auto simp: bindE_Inr_iff)
  then show ?case using Cons.IH[OF y(2)] resolve_field_key[of f k v "fst y" "snd y"] kv by simp
qed simp

text \<open>A field that was resolved is left alone when it is resolved again.\<close>

lemma resolve_field_again:
  assumes "resolve_field f (k, v) = Inr (k, w)" and "\<And>x y. f x = Inr y \<Longrightarrow> g y = Inr y" and "\<And>x y. f x = Inr y \<Longrightarrow> is_dict x \<Longrightarrow> is_dict y"
  shows "resolve_field g (k, w) = Inr (k, w)"
proof (cases v)
  case (PDict d)
  show ?thesis
  proof (cases "k = ''properties''")
    case True
    obtain d' where d': "mapE (\<lambda>(p, w). bindE (f w) (\<lambda>w. Inr (p, w))) d = Inr d'" "w = PDict d'"
      using assms(1) True PDict by (auto simp: resolve_field_def bindE_Inr_iff)
    have "mapE (\<lambda>(p, w). bindE (g w) (\<lambda>w. Inr (p, w))) d' = Inr d'"
      by (rule mapE_cong_Inr[OF d'(1)]) (auto simp: bindE_Inr_iff dest: assms(2))
    then show ?thesis using True d'(2) by (simp add: resolve_field_def)
  next
    case False
    then have w: "f v = Inr w" using assms(1) PDict by (auto simp: resolve_field_def bindE_Inr_iff)
    then have "is_dict w" "g w = Inr w" using assms(2,3) PDict by auto
    then show ?thesis using False by (cases w) (auto simp: resolve_field_def)
  qed
next
  case (PList xs)
  obtain ys where ys: "mapE (\<lambda>x. if is_dict x then f x else Inr x) xs = Inr ys" "w = PList ys"
    using assms(1) PList by (auto simp: resolve_field_def bindE_Inr_iff)
  have "mapE (\<lambda>x. if is_dict x then g x else Inr x) ys = Inr ys"
    by (rule mapE_cong_Inr[OF ys(1)]) (auto split: if_splits dest: assms(2,3))
  then show ?thesis using ys(2) by (simp add: resolve_field_def)
qed (use assms(1) in \<open>auto simp: resolve_field_def\<close>)

lemma resolve_keeps_dict: "resolve_schema_refs tostr depth components v = Inr w \<Longrightarrow> is_dict v \<Longrightarrow> is_dict w"
proof (induction depth arbitrary: v w)
  case (Suc depth)
  then obtain d where d: "v = PDict d" by (cases v) auto
  show ?case
  proof (cases "dget d ''$ref''")
    case None
    then show ?thesis using Suc.prems d by (auto simp: bindE_Inr_iff)
  next
    case (Some r)
    obtain t where t: "resolve_ref components r = Inr t" using Suc.prems(1) d Some by (auto simp: bindE_Inr_iff)
    then show ?thesis
      using Suc.prems(1) Suc.IH d Some by (fastforce simp: unresolved_def split: option.splits pyval.splits list.splits)
  qed
qed simp

lemma mapE_mono: "mapE f xs = Inr ys \<Longrightarrow> (\<And>x y. f x = Inr y \<Longrightarrow> g x = Inr y) \<Longrightarrow> mapE g xs = Inr ys"
proof (induction xs arbitrary: ys)
  case (Cons x xs)
  obtain y zs where y: "f x = Inr y" "mapE f xs = Inr zs" "ys = y # zs" using Cons.prems(1) by (auto simp: bindE_Inr_iff)
  have "mapE g xs = Inr zs" by (rule Cons.IH[OF y(2) Cons.prems(2)])
  then show ?case using Cons.prems(2)[OF y(1)] y(3) by simp
qed simp

lemma resolve_field_mono: "resolve_field f kv = Inr y \<Longrightarrow> (\<And>x y. f x = Inr y \<Longrightarrow> g x = Inr y) \<Longrightarrow> resolve_field g kv = Inr y"
proof -
  assume a: "resolve_field f kv = Inr y" "\<And>x y. f x = Inr y \<Longrightarrow> g x = Inr y"
  obtain k v where kv: "kv = (k, v)" by (cases kv)
  have p: "mapE (\<lambda>(p, w). bindE (f w) (\<lambda>w. Inr (p, w))) d = Inr d' \<Longrightarrow> mapE (\<lambda>(p, w). bindE (g w) (\<lambda>w. Inr (p, w))) d = Inr d'" for d d'
    by (erule mapE_mono) (auto simp: bindE_Inr_iff dest: a(2))
  have l: "mapE (\<lambda>x. if is_dict x then f x else Inr x) xs = Inr ys \<Longrightarrow> mapE (\<lambda>x. if is_dict x then g x else Inr x) xs = Inr ys" for xs ys
    by (erule mapE_mono) (auto split: if_splits dest: a(2))
  show ?thesis
    using a(1) by (cases v) (auto simp: kv resolve_field_def bindE_Inr_iff split: if_splits dest: p l a(2))
qed

lemma resolve_more: "resolve_schema_refs tostr depth components v = Inr w \<Longrightarrow> resolve_schema_refs tostr (Suc depth) components v = Inr w"
proof (induction depth arbitrary: v w)
  case (Suc depth)
  show ?case
  proof (cases v)
    case (PDict d)
    show ?thesis
    proof (cases "dget d ''$ref''")
      case None
      obtain d' where d': "mapE (resolve_field (resolve_schema_refs tostr depth components)) d = Inr d'" "w = PDict d'"
        using Suc.prems PDict None by (auto simp: bindE_Inr_iff)
      have "mapE (resolve_field (resolve_schema_refs tostr (Suc depth) components)) d = Inr d'"
        by (rule mapE_mono[OF d'(1)], erule resolve_field_mono, rule Suc.IH)
      then show ?thesis using PDict None d'(2) by (simp only: resolve_schema_refs.simps(2)[of tostr "Suc depth"] pyval.case option.case bindE_simps)
    next
      case (Some r)
      obtain t where t: "resolve_ref components r = Inr t" using Suc.prems PDict Some by (auto simp: bindE_Inr_iff)
      show ?thesis
      proof (cases "\<exists>kv u. t = Some (PDict (kv # u))")
        case True
        then obtain kv u where u: "t = Some (PDict (kv # u))" by blast
        have "resolve_schema_refs tostr depth components (PDict (kv # u)) = Inr w" using Suc.prems PDict Some t u by simp
        then show ?thesis
          using Suc.IH PDict Some t u by (simp only: resolve_schema_refs.simps(2)[of tostr "Suc depth"] pyval.case option.case list.case bindE_simps)
      next
        case False
        then have "resolve_schema_refs tostr (Suc n) components v = Inr (unresolved tostr r)" for n
          using PDict Some t by (auto split: option.splits pyval.splits list.splits)
        then show ?thesis using Suc.prems by simp
      qed
    qed
  qed (use Suc.prems in auto)
qed simp

lemma resolve_again: "resolve_schema_refs tostr depth components v = Inr w \<Longrightarrow> resolve_schema_refs tostr depth components' w = Inr w"
proof (induction depth arbitrary: v w)
  case (Suc depth)
  show ?case
  proof (cases v)
    case (PDict d)
    show ?thesis
    proof (cases "dget d ''$ref''")
      case None
      obtain d' where d': "mapE (resolve_field (resolve_schema_refs tostr depth components)) d = Inr d'" "w = PDict d'"
        using Suc.prems PDict None by (auto simp: bindE_Inr_iff)
      have n: "dget d' ''$ref'' = None"
        using None resolve_fields_keys[OF d'(1)] by (metis map_of_eq_None_iff list.set_map)
      have "mapE (resolve_field (resolve_schema_refs tostr depth components')) d' = Inr d'"
      proof (rule mapE_cong_Inr[OF d'(1)])
        fix x y assume "resolve_field (resolve_schema_refs tostr depth components) x = Inr y"
        then have k: "fst y = fst x" using resolve_field_key[of _ "fst x" "snd x" "fst y" "snd y"] by simp
        then have "resolve_field (resolve_schema_refs tostr depth components) (fst x, snd x) = Inr (fst x, snd y)"
          using \<open>resolve_field _ x = Inr y\<close> by (metis prod.collapse)
        then have "resolve_field (resolve_schema_refs tostr depth components') (fst x, snd y) = Inr (fst x, snd y)"
          by (rule resolve_field_again) (auto dest: Suc.IH resolve_keeps_dict)
        then show "resolve_field (resolve_schema_refs tostr depth components') y = Inr y" using k by (metis prod.collapse)
      qed
      then show ?thesis using n d'(2) by simp
    next
      case (Some r)
      obtain t where t: "resolve_ref components r = Inr t" using Suc.prems PDict Some by (auto simp: bindE_Inr_iff)
      show ?thesis
      proof (cases "\<exists>kv u. t = Some (PDict (kv # u))")
        case True
        then obtain kv u where u: "t = Some (PDict (kv # u))" by blast
        have "resolve_schema_refs tostr depth components (PDict (kv # u)) = Inr w" using Suc.prems PDict Some t u by simp
        then show ?thesis using Suc.IH resolve_more by blast
      next
        case False
        then have "w = unresolved tostr r"
          using Suc.prems PDict Some t by (auto split: option.splits pyval.splits list.splits)
        then show ?thesis by (simp add: unresolved_def resolve_field_def)
      qed
    qed
  qed (use Suc.prems in auto)
qed simp


section \<open>Schemas that refer to themselves\<close>

lemma mapE_fails: "x \<in> set xs \<Longrightarrow> f x = Inl e \<Longrightarrow> \<exists>e. mapE f xs = Inl e"
proof (induction xs)
  case (Cons y xs)
  then show ?case by (cases "f y"; cases "mapE f xs") auto
qed simp

lemma recursive_fails:
  assumes "resolve_ref components r = Inr (Some (PDict d))" and "dget d ''$ref'' = None" and "(''properties'', PDict ps) \<in> set d"
    and "(k, PDict [(''$ref'', r)]) \<in> set ps"
  shows "\<exists>e. resolve_schema_refs tostr depth components (PDict [(''$ref'', r)]) = Inl e"
proof (induction depth rule: less_induct)
  case (less depth)
  obtain kv u where u: "d = kv # u" using assms(3) by (cases d) auto
  show ?case
  proof (cases depth)
    case (Suc n)
    have s: "resolve_schema_refs tostr depth components (PDict [(''$ref'', r)]) = resolve_schema_refs tostr n components (PDict d)"
      using Suc assms(1) u by simp
    show ?thesis
    proof (cases n)
      case 0
      then show ?thesis unfolding s by simp
    next
      case (Suc m)
      obtain e where e: "resolve_schema_refs tostr m components (PDict [(''$ref'', r)]) = Inl e"
        using less.IH[of m] Suc \<open>depth = Suc n\<close> by auto
      obtain e2 where "mapE (\<lambda>(p, w). bindE (resolve_schema_refs tostr m components w) (\<lambda>w. Inr (p, w))) ps = Inl e2"
        using mapE_fails[OF assms(4), of "\<lambda>(p, w). bindE (resolve_schema_refs tostr m components w) (\<lambda>w. Inr (p, w))" e] e by auto
      then have "resolve_field (resolve_schema_refs tostr m components) (''properties'', PDict ps) = Inl e2"
        by (simp add: resolve_field_def)
      then obtain e3 where "mapE (resolve_field (resolve_schema_refs tostr m components)) d = Inl e3" using mapE_fails[OF assms(3)] by blast
      then show ?thesis unfolding s Suc using assms(2) by simp
    qed
  qed simp
qed

section \<open>Names\<close>

lemma take_all: "list_all P s \<Longrightarrow> list_all P (take n s)"
  by (simp add: list_all_iff) (meson in_set_takeD)

lemma name_char_consts: "name_char CHR ''_''" "name_char CHR ''f''" "name_char CHR ''n''" "\<not> is_digit CHR ''f''" "\<not> is_digit CHR ''_''"
  by (simp_all add: name_char_def is_alpha_def is_digit_def)

lemma cleaned: "list_all name_char (map (\<lambda>c. if name_char c then c else CHR ''_'') s)"
  by (induction s) (simp_all add: name_char_consts)

lemma prefixed:
  assumes "m \<noteq> []" and "list_all name_char m"
  defines "t \<equiv> if m \<noteq> [] \<and> \<not> is_alpha (hd m) \<and> hd m \<noteq> CHR ''_'' then ''fn_'' @ m else m"
  shows "t \<noteq> [] \<and> list_all name_char t \<and> \<not> is_digit (hd t)"
proof -
  have a: "\<not> is_digit c" if "is_alpha c" for c using that by (auto simp: is_alpha_def is_digit_def Let_def)
  show ?thesis
  proof (cases "\<not> is_alpha (hd m) \<and> hd m \<noteq> CHR ''_''")
    case True
    then have "t = ''fn_'' @ m" using assms(1) by (simp add: t_def)
    then show ?thesis using assms(2) name_char_consts by simp
  next
    case False
    then have "t = m" by (auto simp: t_def)
    moreover have "\<not> is_digit (hd m)" using False a name_char_consts(5) by metis
    ultimately show ?thesis using assms by blast
  qed
qed

lemma sanitize_shape:
  "sanitize_name s \<noteq> [] \<and> length (sanitize_name s) \<le> 64 \<and> list_all name_char (sanitize_name s) \<and> \<not> is_digit (hd (sanitize_name s))"
proof (cases "s = []")
  case True
  then show ?thesis by (simp add: sanitize_name_def name_char_def is_alpha_def is_digit_def)
next
  case False
  let ?m = "map (\<lambda>c. if name_char c then c else CHR ''_'') s"
  obtain t where t: "t = (if ?m \<noteq> [] \<and> \<not> is_alpha (hd ?m) \<and> hd ?m \<noteq> CHR ''_'' then ''fn_'' @ ?m else ?m)" by blast
  have "?m \<noteq> []" using False by simp
  from prefixed[OF this cleaned] have p: "t \<noteq> []" "list_all name_char t" "\<not> is_digit (hd t)" unfolding t by blast+
  have e: "sanitize_name s = (if length t > 64 then take 64 t else t)" unfolding t using False by (simp only: sanitize_name_def Let_def if_False)
  show ?thesis
  proof (cases "length t > 64")
    case True
    then have "sanitize_name s = take 64 t" using e by simp
    then show ?thesis using p take_all[OF p(2), of 64] by (simp add: hd_take)
  next
    case False
    then have "sanitize_name s = t" using e by simp
    then show ?thesis using p False by simp
  qed
qed

section \<open>Properties\<close>


text \<open>
  A schema with a property of its own kind cannot be resolved, however deep the interpreter may go: a method with such
  a parameter gives no tool.
\<close>
theorem recursive_schema_no_tool:
  assumes "resolve_ref components r = Inr (Some (PDict d))" and "dget d ''$ref'' = None" and "(''properties'', PDict ps) \<in> set d"
    and "(k, PDict [(''$ref'', r)]) \<in> set ps" and "truthy components" and "name \<noteq> []"
  shows "(\<exists>e. resolve_schema_refs tostr depth components (PDict [(''$ref'', r)]) = Inl e) \<and>
    convert_to_openai_tools tostr depth [(''type'', PStr ''openrpc_method''), (''method_name'', PStr mth), (''description'', PStr desc),
      (''params'', PList [PDict [(''name'', PStr name), (''schema'', PDict [(''$ref'', r)])]]), (''components'', components)] = None"
proof -
  obtain e where e: "resolve_schema_refs tostr depth components (PDict [(''$ref'', r)]) = Inl e"
    using recursive_fails[OF assms(1-4)] by blast
  have "components \<noteq> PNone" using assms(5) by auto
  then have "convert_openrpc_params tostr depth (PList [PDict [(''name'', PStr name), (''schema'', PDict [(''$ref'', r)])]]) components = Inl e"
    using assms(6) e by (simp add: convert_openrpc_params_def openrpc_param_def dgetd_def)
  then show ?thesis using e by (simp add: convert_to_openai_tools_def convert_openrpc_method_def dgetd_def Let_def)
qed

text \<open>
  The name of a tool has between one and 64 characters, all of them letters, digits or underscores, and does not begin
  with a digit.
\<close>
theorem tool_name_bounds:
  assumes "sanitize_function_name v = Inr n"
  shows "1 \<le> length n \<and> length n \<le> 64 \<and> list_all name_char n \<and> \<not> is_digit (hd n)"
proof (cases "truthy v")
  case True
  then obtain s where "n = sanitize_name s" using assms by (cases v) (auto simp: sanitize_function_name_def split: if_splits)
  then show ?thesis using sanitize_shape[of s] by (simp add: Suc_le_eq)
next
  case False
  then have "n = sanitize_name []" using assms by (simp add: sanitize_function_name_def sanitize_name_def)
  then show ?thesis using sanitize_shape[of "[]"] by (simp add: Suc_le_eq)
qed


theorem recursive_schema_no_tool_witness:
  "convert_to_openai_tools (\<lambda>_. '''') 900 [(''type'', PStr ''openrpc_method''), (''method_name'', PStr ''walk''), (''description'', PStr ''''),
      (''params'', PList [PDict [(''name'', PStr ''start''), (''schema'', PDict [(''$ref'', PStr ''#/components/schemas/Node'')])]]),
      (''components'', PDict [(''schemas'', PDict [(''Node'', PDict [(''properties'', PDict [(''next'', PDict [(''$ref'', PStr ''#/components/schemas/Node'')])])])])])] = None"
proof -
  let ?d = "[(''properties'', PDict [(''next'', PDict [(''$ref'', PStr ''#/components/schemas/Node'')])])]"
  let ?c = "PDict [(''schemas'', PDict [(''Node'', PDict ?d)])]"
  have "resolve_ref ?c (PStr ''#/components/schemas/Node'') = Inr (Some (PDict ?d))" by (simp add: resolve_ref_def Let_def)
  from recursive_schema_no_tool[OF this, where k = "''next''" and ps = "[(''next'', PDict [(''$ref'', PStr ''#/components/schemas/Node'')])]" and name = "''start''"
    and desc = "''''" and mth = "''walk''" and depth = 900 and tostr = "\<lambda>_. ''''"]
  show ?thesis by simp
qed

theorem tool_name_bounds_witness:
  "sanitize_function_name (PStr ''7.book-room'') = Inr ''fn_7_book_room'' \<and> length ''fn_7_book_room'' \<le> 64 \<and> list_all name_char ''fn_7_book_room''"
proof -
  have "sanitize_function_name (PStr ''7.book-room'') = Inr ''fn_7_book_room''"
    by (simp add: sanitize_function_name_def sanitize_name_def name_char_def is_alpha_def is_digit_def Let_def)
  from tool_name_bounds[OF this] this show ?thesis by blast
qed

end
