(* ===== verification/Crawler.thy ===== *)
theory Crawler
  imports ToolSchema
begin

text \<open>
  The crawler (\<open>anp_crawler/anp_crawler.py\<close>, the interfaces of \<open>anp_crawler/anp_interface.py\<close>): documents are fetched through
  the HTTP client and cached, their methods are kept as tools, and tools are called by JSON-RPC.  The client is the function
  \<open>http\<close> over a world of its own; \<open>client_http\<close> is the one of \<open>DidClient\<close>.
\<close>

type_synonym 'w http = "string \<Rightarrow> string \<Rightarrow> (string, string) pydict \<Rightarrow> pyval option \<Rightarrow> 'w \<Rightarrow> pyobj result \<times> 'w"

definition client_http :: "keylib \<Rightarrow> identity \<Rightarrow> moments \<Rightarrow> 's server \<Rightarrow> (authenticator \<times> 's) http" where
  "client_http kl me mo send url method headers body = (\<lambda>(a, s). case fetch_url kl me mo send url method headers [] body a s of (r, a, s) \<Rightarrow> (r, a, s))"

section \<open>Calling a tool\<close>

record tool =
  tl_name :: string
  tl_data :: pyobj
  tl_method :: pyval
  tl_servers :: pyval

definition new_interface :: "string \<Rightarrow> pyobj \<Rightarrow> tool" where
  "new_interface name i = \<lparr>tl_name = name, tl_data = i, tl_method = dgetd i ''method_name'' (PStr ''''),
     tl_servers = (let s = dgetd i ''servers'' (PList []) in if \<not> truthy s \<and> din ''parent_servers'' i then oget i ''parent_servers'' else s)\<rparr>"

definition looks_like_json :: "string \<Rightarrow> bool" where
  "looks_like_json s \<longleftrightarrow> s \<noteq> [] \<and> (hd s = CHR ''{'' \<and> last s = CHR ''}'' \<or> hd s = CHR ''['' \<and> last s = CHR '']'')"

definition process_argument :: "(string \<Rightarrow> pyval result) \<Rightarrow> string \<times> pyval \<Rightarrow> (string \<times> pyval) result" where
  "process_argument loads = (\<lambda>(k, v). case v of
      PStr s \<Rightarrow> if looks_like_json s then (case loads s of Inr w \<Rightarrow> Inr (k, w) | Inl JSONDecodeError \<Rightarrow> Inr (k, v) | Inl e \<Rightarrow> Inl e) else Inr (k, v)
    | _ \<Rightarrow> Inr (k, v))"

definition tool_failure :: "string \<Rightarrow> string \<Rightarrow> pyobj" where
  "tool_failure msg name = [(''success'', PBool False), (''error'', PStr (msg @ name)), (''tool_name'', PStr name)]"

definition call_failure :: "string \<Rightarrow> pyval \<Rightarrow> tool \<Rightarrow> pyobj" where
  "call_failure msg url t = [(''success'', PBool False), (''error'', PStr msg), (''url'', url), (''method'', tl_method t), (''tool_name'', PStr (tl_name t))]"

text \<open>The answer of the server; \<open>error\<close> may also be a part of a text or an element of a list.\<close>

definition tool_answer :: "(string \<Rightarrow> pyval result) \<Rightarrow> pyval \<Rightarrow> tool \<Rightarrow> pyobj \<Rightarrow> pyobj result" where
  "tool_answer loads url t d =
     (if \<not> truthy (dgetd d ''success'' (PBool False)) then Inr (call_failure ''HTTP request failed'' url t)
      else let txt = dgetd d ''text'' (PStr '''') in
        if \<not> truthy txt then Inr (call_failure ''Empty response from server'' url t)
        else (case (case txt of PStr s \<Rightarrow> loads s | _ \<Rightarrow> Inl TypeError) of
            Inl JSONDecodeError \<Rightarrow> Inr (call_failure ''Failed to parse JSON-RPC response'' url t)
          | Inl e \<Rightarrow> Inl e
          | Inr v \<Rightarrow> bindE (py_in ''error'' v) (\<lambda>err.
              if err then bindE (pindex v ''error'') (\<lambda>_. Inr (call_failure ''JSON-RPC error'' url t))
              else bindE (pget v ''result'' PNone) (\<lambda>r.
                Inr [(''success'', PBool True), (''result'', r), (''url'', url), (''method'', tl_method t), (''tool_name'', PStr (tl_name t))]))))"

definition tool_request :: "pyval \<Rightarrow> pyobj \<Rightarrow> pyval" where
  "tool_request method args = PDict [(''jsonrpc'', PStr ''2.0''), (''id'', PInt 1), (''method'', method), (''params'', PDict args)]"

definition caught :: "pyval \<Rightarrow> tool \<Rightarrow> pyobj result \<Rightarrow> pyobj" where
  "caught url t r = (case r of Inr d \<Rightarrow> d | Inl _ \<Rightarrow> call_failure ''Execution error'' url t)"

text \<open>Looking at the servers is not guarded; what follows is.\<close>

definition execute_tool :: "(string \<Rightarrow> pyval result) \<Rightarrow> 'w http \<Rightarrow> tool \<Rightarrow> pyobj \<Rightarrow> 'w \<Rightarrow> pyobj result \<times> 'w" where
  "execute_tool loads http t args w =
     (if \<not> truthy (tl_servers t) then (Inr (tool_failure ''No servers defined for tool: '' (tl_name t)), w)
      else (case bindE (py_nth (tl_servers t) 0) (\<lambda>s. pget s ''url'' (PStr '''')) of
          Inl e \<Rightarrow> (Inl e, w)
        | Inr url \<Rightarrow>
            if \<not> truthy url then (Inr (tool_failure ''No server URL found for tool: '' (tl_name t)), w)
            else if \<not> truthy (tl_method t) then (Inr (tool_failure ''No method name found for tool: '' (tl_name t)), w)
            else (case (mapE (process_argument loads) args, url) of
                (Inl e, _) \<Rightarrow> (Inr (caught url t (Inl e)), w)
              | (Inr args, PStr u) \<Rightarrow>
                  (case http u ''POST'' [(''Content-Type'', ''application/json'')] (Some (tool_request (tl_method t) args)) w of
                     (r, w) \<Rightarrow> (Inr (caught url t (bindE r (tool_answer loads url t))), w))
              | (Inr args, _) \<Rightarrow> (Inr (caught url t (Inl TypeError)), w))))"

section \<open>Crawler\<close>

text \<open>\<open>urlunparse\<close> without parameters, query and fragment; only the last segment of a path has parameters.\<close>

definition uses_netloc :: "string list" where
  "uses_netloc = [''ftp'', ''http'', ''gopher'', ''nntp'', ''telnet'', ''imap'', ''wais'', ''file'', ''mms'', ''https'', ''shttp'', ''snews'', ''prospero'', ''rtsp'',
     ''rtspu'', ''rsync'', ''svn'', ''svn+ssh'', ''sftp'', ''nfs'', ''git'', ''git+ssh'', ''ws'', ''wss'']"

definition uses_params :: "string list" where
  "uses_params = ['''', ''ftp'', ''hdl'', ''prospero'', ''http'', ''https'', ''shttp'', ''rtsp'', ''rtspu'', ''sip'', ''sips'', ''mms'', ''sftp'', ''tel'']"

definition drop_params :: "string \<Rightarrow> string \<Rightarrow> string" where
  "drop_params scheme path =
     (if scheme \<notin> set uses_params then path
      else let name = rev (takeWhile (\<lambda>c. c \<noteq> CHR ''/'') (rev path)); dir = take (length path - length name) path
           in dir @ before_first CHR '';'' name)"

definition url_unparse :: "string \<Rightarrow> string \<Rightarrow> string \<Rightarrow> string" where
  "url_unparse scheme netloc path =
     (let r = (if netloc \<noteq> [] \<or> scheme \<in> set uses_netloc \<and> take 2 path \<noteq> ''//''
               then ''//'' @ netloc @ (if path \<noteq> [] \<and> hd path \<noteq> CHR ''/'' then CHR ''/'' # path else path) else path)
      in if scheme = [] then r else scheme @ CHR '':'' # r)"

definition remove_url_params :: "string \<Rightarrow> string" where
  "remove_url_params url = (case urlsplit url of
      Inl _ \<Rightarrow> url
    | Inr u \<Rightarrow> url_unparse (up_scheme u) (up_netloc u) (drop_params (up_scheme u) (up_path u)))"

type_synonym page = "pyobj \<times> pyobj list"

record crawler =
  cr_caching :: bool
  cr_visited :: "string list"
  cr_cache :: "(string, page) pydict"
  cr_uri :: "string option"
  cr_tools :: "(string, tool) pydict"

definition new_crawler :: "bool \<Rightarrow> crawler" where
  "new_crawler caching = \<lparr>cr_caching = caching, cr_visited = [], cr_cache = [], cr_uri = None, cr_tools = []\<rparr>"

definition cache_get :: "string \<Rightarrow> crawler \<Rightarrow> page option" where
  "cache_get url c = (if cr_caching c then dget (cr_cache c) url else None)"

definition cache_set :: "string \<Rightarrow> page \<Rightarrow> crawler \<Rightarrow> crawler" where
  "cache_set url p c = (if cr_caching c then c\<lparr>cr_cache := dset url p (cr_cache c)\<rparr> else c)"

definition visit :: "string \<Rightarrow> crawler \<Rightarrow> crawler" where
  "visit url c = (if url \<in> set (cr_visited c) then c else c\<lparr>cr_visited := cr_visited c @ [url]\<rparr>)"

definition set_uri :: "string \<Rightarrow> crawler \<Rightarrow> crawler" where
  "set_uri url c = (case cr_uri c of None \<Rightarrow> c\<lparr>cr_uri := Some (remove_url_params url)\<rparr> | Some _ \<Rightarrow> c)"

definition error_page :: "string \<Rightarrow> string \<Rightarrow> crawler \<Rightarrow> page" where
  "error_page msg url c =
     ([(''agentDescriptionURI'', PStr (case cr_uri c of Some (x # u) \<Rightarrow> x # u | _ \<Rightarrow> remove_url_params url)), (''contentURI'', PStr (remove_url_params url)),
       (''content'', PStr (''Error: '' @ msg))], [])"

definition tool_name :: "pyobj \<Rightarrow> string" where
  "tool_name t = (case oget t ''function'' of PDict f \<Rightarrow> (case oget f ''name'' of PStr s \<Rightarrow> s | _ \<Rightarrow> '''') | _ \<Rightarrow> '''')"

definition create_anp_interface :: "(pyval \<Rightarrow> string) \<Rightarrow> nat \<Rightarrow> pyobj \<Rightarrow> tool option" where
  "create_anp_interface tostr depth i = map_option (\<lambda>t. new_interface (tool_name t) i) (convert_to_openai_tools tostr depth i)"

definition register_interface :: "(pyval \<Rightarrow> string) \<Rightarrow> nat \<Rightarrow> pyobj \<Rightarrow> pyobj list \<times> (string, tool) pydict \<Rightarrow> pyobj list \<times> (string, tool) pydict" where
  "register_interface tostr depth i = (\<lambda>(listed, tools). case convert_to_openai_tools tostr depth i of
      None \<Rightarrow> (listed, tools)
    | Some t \<Rightarrow> (listed @ [t], (case create_anp_interface tostr depth i of Some f \<Rightarrow> dset (tl_name f) f tools | None \<Rightarrow> tools)))"

text \<open>Any exception gives an error page; what happened before it stays.\<close>

definition fetch_text :: "(pyval \<Rightarrow> string) \<Rightarrow> nat \<Rightarrow> (string \<Rightarrow> pyval result) \<Rightarrow> 'w http \<Rightarrow> string \<Rightarrow> crawler \<Rightarrow> 'w \<Rightarrow> page \<times> crawler \<times> 'w" where
  "fetch_text tostr depth loads http url c w =
     (let c = set_uri url c in
      case cache_get url c of
        Some p \<Rightarrow> (p, c, w)
      | None \<Rightarrow>
          (let c = visit url c in
           case http url ''GET'' [] None w of
             (Inl e, w) \<Rightarrow> (error_page ''exception'' url c, c, w)
           | (Inr d, w) \<Rightarrow>
               if \<not> truthy (dgetd d ''success'' (PBool False))
               then (error_page (py_str tostr (dgetd d ''error'' (PStr ''Unknown error''))) url c, c, w)
               else (case bindE (case dgetd d ''text'' (PStr '''') of PStr s \<Rightarrow> Inr s | _ \<Rightarrow> Inl TypeError) (\<lambda>raw.
                       bindE (parse_document loads raw) (\<lambda>is. Inr (raw, is))) of
                   Inl e \<Rightarrow> (error_page ''exception'' url c, c, w)
                 | Inr (raw, is) \<Rightarrow>
                     (case fold (register_interface tostr depth) is ([], cr_tools c) of (listed, tools) \<Rightarrow>
                       (let c = c\<lparr>cr_tools := tools\<rparr>;
                            p = ([(''agentDescriptionURI'', case cr_uri c of Some u \<Rightarrow> PStr u | None \<Rightarrow> PNone), (''contentURI'', PStr (remove_url_params url)),
                              (''content'', PStr raw)], listed)
                        in (p, cache_set url p c, w))))))"

definition clear_cache :: "crawler \<Rightarrow> crawler" where
  "clear_cache c = c\<lparr>cr_cache := [], cr_visited := []\<rparr>"

definition get_cache_size :: "crawler \<Rightarrow> nat" where
  "get_cache_size c = length (cr_cache c)"

definition is_url_visited :: "string \<Rightarrow> crawler \<Rightarrow> bool" where
  "is_url_visited url c \<longleftrightarrow> url \<in> set (cr_visited c)"

definition list_available_tools :: "crawler \<Rightarrow> string list" where
  "list_available_tools c = dkeys (cr_tools c)"

definition clear_tool_interfaces :: "crawler \<Rightarrow> crawler" where
  "clear_tool_interfaces c = c\<lparr>cr_tools := []\<rparr>"

definition get_tool_interface_info :: "string \<Rightarrow> crawler \<Rightarrow> pyobj option" where
  "get_tool_interface_info name c = map_option (\<lambda>t. [(''tool_name'', PStr (tl_name t)), (''method_name'', tl_method t), (''servers'', tl_servers t),
     (''interface_data'', PDict (tl_data t))]) (dget (cr_tools c) name)"

definition execute_tool_call :: "(string \<Rightarrow> pyval result) \<Rightarrow> 'w http \<Rightarrow> string \<Rightarrow> pyobj \<Rightarrow> crawler \<Rightarrow> 'w \<Rightarrow> pyobj result \<times> 'w" where
  "execute_tool_call loads http name args c w = (case dget (cr_tools c) name of
      None \<Rightarrow> (Inr (tool_failure ''No ANPInterface found for tool: '' name), w)
    | Some t \<Rightarrow> execute_tool loads http t args w)"

section \<open>Calls without a tool\<close>

definition rpc_result :: "bool \<Rightarrow> string \<Rightarrow> pyval \<Rightarrow> string \<Rightarrow> string \<Rightarrow> string \<Rightarrow> pyobj" where
  "rpc_result ok k v endpoint method rid = [(''success'', PBool ok), (k, v), (''endpoint'', PStr endpoint), (''method'', PStr method), (''request_id'', PStr rid)]"

definition json_rpc_answer :: "(string \<Rightarrow> pyval result) \<Rightarrow> string \<Rightarrow> string \<Rightarrow> string \<Rightarrow> pyobj \<Rightarrow> pyobj result" where
  "json_rpc_answer loads endpoint method rid d =
     (if \<not> truthy (dgetd d ''success'' (PBool False)) then Inr (rpc_result False ''error'' (dgetd d ''error'' (PStr ''Unknown error'')) endpoint method rid)
      else let txt = dgetd d ''text'' (PStr '''') in
        (case (case txt of PStr s \<Rightarrow> loads s | _ \<Rightarrow> Inl TypeError) of
            Inl JSONDecodeError \<Rightarrow> Inr (rpc_result False ''error'' (PStr ''Invalid JSON response'') endpoint method rid @ [(''raw_response'', txt)])
          | Inl e \<Rightarrow> Inl e
          | Inr v \<Rightarrow> bindE (py_in ''error'' v) (\<lambda>err.
              if err then bindE (pindex v ''error'') (\<lambda>e. Inr (rpc_result False ''error'' e endpoint method rid @ [(''response'', v)]))
              else bindE (pget v ''result'' PNone) (\<lambda>r. Inr (rpc_result True ''result'' r endpoint method rid @ [(''response'', v)])))))"

definition execute_json_rpc :: "(string \<Rightarrow> pyval result) \<Rightarrow> 'w http \<Rightarrow> string \<Rightarrow> string \<Rightarrow> pyobj \<Rightarrow> string \<Rightarrow> 'w \<Rightarrow> pyobj result \<times> 'w" where
  "execute_json_rpc loads http endpoint method params rid w = (case mapE (process_argument loads) params of
      Inl e \<Rightarrow> (Inl e, w)
    | Inr params \<Rightarrow>
        (case http endpoint ''POST'' [(''Content-Type'', ''application/json'')]
           (Some (PDict [(''jsonrpc'', PStr ''2.0''), (''method'', PStr method), (''params'', PDict params), (''id'', PStr rid)])) w of
           (r, w) \<Rightarrow> (Inr (case bindE r (json_rpc_answer loads endpoint method rid) of
               Inr d \<Rightarrow> d
             | Inl e \<Rightarrow> rpc_result False ''error'' (PStr ''exception'') endpoint method rid), w)))"


section \<open>What is listed can be called\<close>

lemma tool_name_of: "tool_name (tool_of n desc ps) = n"
  by (simp add: tool_name_def tool_of_def oget_def dgetd_def)

abbreviation registered :: "(pyval \<Rightarrow> string) \<Rightarrow> nat \<Rightarrow> pyobj list \<Rightarrow> pyobj list \<times> (string, tool) pydict \<Rightarrow> pyobj list \<times> (string, tool) pydict" where
  "registered tostr depth is s \<equiv> fold (register_interface tostr depth) is s"

lemma register_step:
  "convert_to_openai_tools tostr depth i = Some t \<Longrightarrow>
    register_interface tostr depth i (listed, tools) = (listed @ [t], dset (tool_name t) (new_interface (tool_name t) i) tools)"
  by (simp add: register_interface_def create_anp_interface_def new_interface_def)

lemma register_none: "convert_to_openai_tools tostr depth i = None \<Longrightarrow> register_interface tostr depth i s = s"
  by (cases s) (simp add: register_interface_def)

lemma register_callable:
  "registered tostr depth is (listed, tools) = (listed', tools') \<Longrightarrow>
    (\<And>t. t \<in> set listed \<Longrightarrow> \<exists>f. dget tools (tool_name t) = Some f \<and> tl_name f = tool_name t) \<Longrightarrow>
    t \<in> set listed' \<Longrightarrow> \<exists>f. dget tools' (tool_name t) = Some f \<and> tl_name f = tool_name t"
proof (induction "is" arbitrary: listed tools)
  case (Cons i "is")
  show ?case
  proof (cases "convert_to_openai_tools tostr depth i")
    case None
    then show ?thesis using Cons register_none by simp
  next
    case (Some u)
    have f: "registered tostr depth is (listed @ [u], dset (tool_name u) (new_interface (tool_name u) i) tools) = (listed', tools')"
      using Cons.prems(1) register_step[OF Some] by simp
    show ?thesis
      by (rule Cons.IH[OF f _ Cons.prems(3)]) (use Cons.prems(2) in \<open>auto simp: new_interface_def\<close>)
  qed
qed simp

text \<open>The last method of a name is the one that is called.\<close>

lemma register_keeps:
  "registered tostr depth is (listed, tools) = (listed', tools') \<Longrightarrow> \<forall>j \<in> set is. \<forall>u. convert_to_openai_tools tostr depth j = Some u \<longrightarrow> tool_name u \<noteq> n \<Longrightarrow>
    dget tools' n = dget tools n"
proof (induction "is" arbitrary: listed tools)
  case (Cons i "is")
  show ?case
  proof (cases "convert_to_openai_tools tostr depth i")
    case None
    then show ?thesis using Cons register_none by simp
  next
    case (Some u)
    have f: "registered tostr depth is (listed @ [u], dset (tool_name u) (new_interface (tool_name u) i) tools) = (listed', tools')"
      using Cons.prems(1) register_step[OF Some] by simp
    have "tool_name u \<noteq> n" using Cons.prems(2) Some by simp
    then show ?thesis using Cons.IH[OF f] Cons.prems(2) by simp
  qed
qed simp

lemma register_last:
  assumes "convert_to_openai_tools tostr depth i = Some t"
    and "\<forall>j \<in> set later. \<forall>u. convert_to_openai_tools tostr depth j = Some u \<longrightarrow> tool_name u \<noteq> tool_name t"
    and "registered tostr depth (earlier @ i # later) s = (listed', tools')"
  shows "dget tools' (tool_name t) = Some (new_interface (tool_name t) i)"
proof -
  obtain l m where m: "registered tostr depth earlier s = (l, m)" by fastforce
  have "registered tostr depth later (l @ [t], dset (tool_name t) (new_interface (tool_name t) i) m) = (listed', tools')"
    using assms(3) by (simp add: m register_step[OF assms(1)])
  from register_keeps[OF this assms(2)] show ?thesis by simp
qed

section \<open>Fetching\<close>

lemma crawler_parts [simp]:
  "cr_tools (set_uri url c) = cr_tools c" "cr_tools (visit url c) = cr_tools c" "cr_caching (set_uri url c) = cr_caching c" "cr_caching (visit url c) = cr_caching c"
  "cr_cache (set_uri url c) = cr_cache c" "cr_cache (visit url c) = cr_cache c" "cr_uri (visit url c) = cr_uri c" "cr_uri (set_uri url c) \<noteq> None"
  "set_uri url (set_uri url c) = set_uri url c"
  by (auto simp: set_uri_def visit_def split: option.splits)

lemma set_uri_id [simp]: "cr_uri c \<noteq> None \<Longrightarrow> set_uri url c = c"
  by (auto simp: set_uri_def)

lemma fetch_fresh:
  assumes "cache_get url c = None" and "http url ''GET'' [] None w = (Inr d, w')" and "truthy (dgetd d ''success'' (PBool False))"
    and "dgetd d ''text'' (PStr '''') = PStr raw" and "parse_document loads raw = Inr is" and "registered tostr depth is ([], cr_tools c) = (listed, tools)"
  shows "\<exists>page c'. fetch_text tostr depth loads http url c w = ((page, listed), c', w') \<and> cr_tools c' = tools \<and> cr_caching c' = cr_caching c \<and>
    (cr_caching c \<longrightarrow> dget (cr_cache c') url = Some (page, listed)) \<and> set_uri url c' = c'"
proof -
  have "cache_get url (set_uri url c) = None" using assms(1) by (simp add: cache_get_def split: if_splits)
  then show ?thesis using assms(2-6) by (simp add: fetch_text_def Let_def cache_set_def)
qed

lemma fetch_cached:
  "set_uri url c = c \<Longrightarrow> cache_get url c = Some p \<Longrightarrow> fetch_text tostr depth loads http url c w = (p, c, w)"
  by (simp add: fetch_text_def Let_def)

section \<open>Properties\<close>


text \<open>
  A document that comes from the cache does not register its tools again: after \<open>clear_tool_interfaces\<close> the crawler
  still lists them, and every call of one of them fails.
\<close>
theorem cached_tools_lost:
  assumes "cr_caching c" and "cache_get url c = None" and "http url ''GET'' [] None w = (Inr d, w1)" and "truthy (dgetd d ''success'' (PBool False))"
    and "dgetd d ''text'' (PStr '''') = PStr raw" and "parse_document loads raw = Inr is"
  shows "\<exists>p c1 c2. fetch_text tostr depth loads http url c w = (p, c1, w1) \<and> fetch_text tostr depth loads http url (clear_tool_interfaces c1) w2 = (p, c2, w2) \<and>
    snd p = fst (registered tostr depth is ([], cr_tools c)) \<and>
    execute_tool_call loads http name args c2 w3 = (Inr (tool_failure ''No ANPInterface found for tool: '' name), w3)"
proof -
  obtain listed tools where reg: "registered tostr depth is ([], cr_tools c) = (listed, tools)" by fastforce
  obtain page c1 where f: "fetch_text tostr depth loads http url c w = ((page, listed), c1, w1)" "cr_caching c1 = cr_caching c"
    "dget (cr_cache c1) url = Some (page, listed)" "set_uri url c1 = c1"
    using fetch_fresh[where http = http, OF assms(2-6) reg] assms(1) by blast
  have "set_uri url (clear_tool_interfaces c1) = clear_tool_interfaces c1"
    using f(4) crawler_parts(8)[of url c1] by (auto simp: set_uri_def clear_tool_interfaces_def split: option.splits)
  moreover have "cache_get url (clear_tool_interfaces c1) = Some (page, listed)"
    using f(2,3) assms(1) by (simp add: cache_get_def clear_tool_interfaces_def)
  ultimately have "fetch_text tostr depth loads http url (clear_tool_interfaces c1) w2 = ((page, listed), clear_tool_interfaces c1, w2)"
    by (rule fetch_cached)
  moreover have "execute_tool_call loads http name args (clear_tool_interfaces c1) w3 = (Inr (tool_failure ''No ANPInterface found for tool: '' name), w3)"
    by (simp add: execute_tool_call_def clear_tool_interfaces_def)
  ultimately show ?thesis using f(1) reg by auto
qed

text \<open>
  Names are not told apart after their characters were replaced: two methods may become tools of one name, both are
  listed, and a call reaches the second whichever was meant.
\<close>
theorem tool_names_collide:
  assumes "sanitize_name m1 = sanitize_name m2" and "m1 \<noteq> []" and "m2 \<noteq> []"
    and "i1 = openrpc_entry d [(''name'', PStr m1)]" and "i2 = openrpc_entry d [(''name'', PStr m2)]"
  shows "\<exists>t1 t2. registered tostr depth [i1, i2] ([], []) = ([t1, t2], [(sanitize_name m1, new_interface (sanitize_name m1) i2)]) \<and>
    tool_name t1 = sanitize_name m1 \<and> tool_name t2 = sanitize_name m1 \<and> tl_method (new_interface (sanitize_name m1) i2) = PStr m2"
proof -
  have c: "\<exists>t. convert_to_openai_tools tostr depth (openrpc_entry d [(''name'', PStr m)]) = Some t \<and> tool_name t = sanitize_name m" if "m \<noteq> []" for m
    using that tool_name_of
    by (simp add: convert_to_openai_tools_def openrpc_entry_def convert_openrpc_method_def convert_openrpc_params_def dgetd_def sanitize_function_name_def Let_def)
  obtain t1 t2 where t: "convert_to_openai_tools tostr depth i1 = Some t1" "tool_name t1 = sanitize_name m1"
    "convert_to_openai_tools tostr depth i2 = Some t2" "tool_name t2 = sanitize_name m2"
    using c[OF assms(2)] c[OF assms(3)] assms(4,5) by blast
  have "tl_method (new_interface (sanitize_name m1) i2) = PStr m2" by (simp add: assms(5) new_interface_def openrpc_entry_def dgetd_def)
  then show ?thesis using t assms(1) by (simp add: register_step[OF t(1)] register_step[OF t(3)])
qed


section \<open>Examples\<close>

text \<open>A web site with one document and one procedure; the texts stand for the JSON they name.\<close>

definition example_doc :: pyobj where
  "example_doc = [(''openrpc'', PStr ''1.3''), (''methods'', PList [PDict [(''name'', PStr ''room.book'')]]), (''servers'', PList [PDict [(''url'', PStr ''https://h/rpc'')]])]"

definition example_loads :: "string \<Rightarrow> pyval result" where
  "example_loads s = (if s = ''doc'' then Inr (PDict example_doc) else if s = ''answer'' then Inr (PDict [(''result'', PInt 7)]) else Inl JSONDecodeError)"

definition example_http :: "nat http" where
  "example_http url method headers body w = (Inr [(''success'', PBool True), (''text'', PStr (if method = ''GET'' then ''doc'' else ''answer''))], Suc w)"

lemma example_parse: "parse_document example_loads ''doc'' = Inr [openrpc_entry example_doc [(''name'', PStr ''room.book'')]]"
  by (simp add: parse_document_def example_loads_def is_openrpc_interface_def extract_openrpc_interfaces_def example_doc_def din_def)

lemma example_tool:
  "\<exists>t. convert_to_openai_tools (\<lambda>_. '''') 900 (openrpc_entry example_doc [(''name'', PStr ''room.book'')]) = Some t \<and> tool_name t = ''room_book''"
  by (simp add: convert_to_openai_tools_def openrpc_entry_def convert_openrpc_method_def convert_openrpc_params_def dgetd_def sanitize_function_name_def
    sanitize_name_def tool_name_of name_char_def is_alpha_def is_digit_def Let_def)


theorem cached_tools_lost_witness:
  "\<exists>p c1 c2. fetch_text (\<lambda>_. '''') 900 example_loads example_http ''https://h/ad.json'' (new_crawler True) 0 = (p, c1, 1) \<and>
    fetch_text (\<lambda>_. '''') 900 example_loads example_http ''https://h/ad.json'' (clear_tool_interfaces c1) 1 = (p, c2, 1) \<and>
    execute_tool_call example_loads example_http ''room_book'' [] c2 1 = (Inr (tool_failure ''No ANPInterface found for tool: '' ''room_book''), 1)"
proof -
  have h: "example_http ''https://h/ad.json'' ''GET'' [] None 0 = (Inr [(''success'', PBool True), (''text'', PStr ''doc'')], 1)"
    "truthy (dgetd [(''success'', PBool True), (''text'', PStr ''doc'')] ''success'' (PBool False))"
    "dgetd [(''success'', PBool True), (''text'', PStr ''doc'')] ''text'' (PStr '''') = PStr ''doc''"
    by (simp_all add: example_http_def dgetd_def)
  have c: "cr_caching (new_crawler True)" "cache_get ''https://h/ad.json'' (new_crawler True) = None" by (simp_all add: cache_get_def new_crawler_def)
  from cached_tools_lost[where http = example_http, OF c h example_parse, of "\<lambda>_. ''''" 900 1 "''room_book''" "[]" 1] show ?thesis by blast
qed

theorem tool_names_collide_witness:
  "\<exists>t1 t2 n. registered (\<lambda>_. '''') 900 [openrpc_entry [] [(''name'', PStr ''a.b'')], openrpc_entry [] [(''name'', PStr ''a-b'')]] ([], []) =
    ([t1, t2], [(n, new_interface n (openrpc_entry [] [(''name'', PStr ''a-b'')]))]) \<and> tool_name t1 = n \<and> tool_name t2 = n"
proof -
  have "sanitize_name ''a.b'' = sanitize_name ''a-b''" by (simp add: sanitize_name_def name_char_def is_alpha_def is_digit_def Let_def)
  from tool_names_collide[OF this _ _ refl refl, of "\<lambda>_. ''''" 900 "[]"] show ?thesis by (metis list.distinct(1))
qed

end
