(* ===== verification/Wns.thy ===== *)
theory Wns
  imports DidClient
begin

text \<open>
  Handles (\<open>wns/validator.py\<close>, \<open>wns/resolver.py\<close>, \<open>wns/binding.py\<close>): the syntax of a handle and of its address, resolution to
  a DID, and the check that handle and DID document name each other.  The web server is the function \<open>get\<close>; texts are
  ASCII.  \<open>HandleError\<close> carries the class of the exception.
\<close>

section \<open>Validator\<close>

definition is_low :: "char \<Rightarrow> bool" where
  "is_low c = (let n = of_char c :: nat in 97 \<le> n \<and> n \<le> 122)"

definition alnum :: "char \<Rightarrow> bool" where
  "alnum c \<longleftrightarrow> is_low c \<or> is_digit c"

fun double_hyphen :: "string \<Rightarrow> bool" where
  "double_hyphen (a # b # s) = (a = CHR ''-'' \<and> b = CHR ''-'' \<or> double_hyphen (b # s))"
| "double_hyphen s = False"

definition label_shape :: "string \<Rightarrow> bool" where
  "label_shape s \<longleftrightarrow> s \<noteq> [] \<and> length s \<le> 63 \<and> alnum (hd s) \<and> alnum (last s) \<and> list_all (\<lambda>c. alnum c \<or> c = CHR ''-'') s"

text \<open>The patterns end with \<open>$\<close>, which also matches before a final line feed.\<close>

definition label_re :: "string \<Rightarrow> bool" where
  "label_re s = label_shape (chomp s)"

definition local_part_re :: "string \<Rightarrow> bool" where
  "local_part_re s \<longleftrightarrow> label_shape (chomp s) \<and> \<not> double_hyphen (chomp s)"

definition is_valid_domain :: "string \<Rightarrow> bool" where
  "is_valid_domain d = (let labels = split_on (\<lambda>c. c = CHR ''.'') (py_lower d) in \<not> length labels < 2 \<and> list_all label_re labels)"

definition validate_local_part :: "string \<Rightarrow> bool" where
  "validate_local_part l = local_part_re (py_lower l)"

definition handle_invalid :: "'a result" where
  "handle_invalid = Inl (HandleError ''HandleValidationError'')"

definition validate_handle :: "string \<Rightarrow> (string \<times> string) result" where
  "validate_handle handle =
     (let n = py_strip (py_lower handle) in
      if n = [] then handle_invalid
      else if CHR ''.'' \<notin> set n then handle_invalid
      else let l = before_first CHR ''.'' n; d = after_first CHR ''.'' n in
        if l = [] then handle_invalid
        else if d = [] then handle_invalid
        else if \<not> validate_local_part l then handle_invalid
        else if \<not> is_valid_domain d then handle_invalid
        else Inr (l, d))"

definition normalize_handle :: "string \<Rightarrow> string result" where
  "normalize_handle handle = bindE (validate_handle handle) (\<lambda>(l, d). Inr (l @ ''.'' @ d))"

record parsed_uri =
  pu_local :: string
  pu_domain :: string
  pu_handle :: string
  pu_uri :: string

definition parse_wba_uri :: "string \<Rightarrow> parsed_uri result" where
  "parse_wba_uri uri =
     (if take 6 uri \<noteq> ''wba://'' then Inl (HandleError ''WbaUriParseError'')
      else if drop 6 uri = [] then Inl (HandleError ''WbaUriParseError'')
      else (case validate_handle (drop 6 uri) of
          Inl e \<Rightarrow> Inl (HandleError ''WbaUriParseError'')
        | Inr (l, d) \<Rightarrow> Inr \<lparr>pu_local = l, pu_domain = d, pu_handle = l @ ''.'' @ d, pu_uri = uri\<rparr>))"

definition build_resolution_url :: "string \<Rightarrow> string \<Rightarrow> string" where
  "build_resolution_url l d = ''https://'' @ d @ ''/.well-known/handle/'' @ l"

definition build_wba_uri :: "string \<Rightarrow> string \<Rightarrow> string" where
  "build_wba_uri l d = ''wba://'' @ l @ ''.'' @ d"

section \<open>Resolver\<close>

record resolution =
  rs_handle :: string
  rs_did :: string
  rs_status :: string

text \<open>The model accepts a dictionary with three texts, the last a known status, and an optional fourth.\<close>

definition HANDLE_STATUS :: "string list" where
  "HANDLE_STATUS = [''active'', ''suspended'', ''revoked'']"

definition validate_resolution :: "pyval \<Rightarrow> resolution result" where
  "validate_resolution v = (case v of
      PDict d \<Rightarrow> (case (dget d ''handle'', dget d ''did'', dget d ''status'', dgetd d ''updated'' PNone) of
          (Some (PStr h), Some (PStr i), Some (PStr s), u) \<Rightarrow>
            if s \<in> set HANDLE_STATUS \<and> (u = PNone \<or> is_str u) then Inr \<lparr>rs_handle = h, rs_did = i, rs_status = s\<rparr>
            else Inl (ValueError ''ValidationError'')
        | _ \<Rightarrow> Inl (ValueError ''ValidationError''))
    | _ \<Rightarrow> Inl (ValueError ''ValidationError''))"

record wns_response =
  wr_status :: nat
  wr_location :: string
  wr_json :: "pyval result"

definition strip_wba_scheme :: "string \<Rightarrow> string" where
  "strip_wba_scheme s = (if take 6 s = ''wba://'' then drop 6 s else s)"

definition resolution_data :: "wns_response result \<Rightarrow> pyval result" where
  "resolution_data r = (case r of
      Inl e \<Rightarrow> Inl (HandleError ''HandleResolutionError'')
    | Inr rp \<Rightarrow>
        if wr_status rp = 301 then Inl (HandleMovedError (wr_location rp))
        else if wr_status rp = 404 then Inl (HandleError ''HandleNotFoundError'')
        else if wr_status rp = 410 then Inl (HandleError ''HandleGoneError'')
        else if wr_status rp \<noteq> 200 then Inl (HandleError ''HandleResolutionError'')
        else (case wr_json rp of Inr v \<Rightarrow> Inr v | Inl e \<Rightarrow> Inl (HandleError ''HandleResolutionError'')))"

definition resolve_handle :: "(string \<Rightarrow> wns_response result) \<Rightarrow> string \<Rightarrow> resolution result" where
  "resolve_handle get handle =
     bindE (validate_handle (strip_wba_scheme handle)) (\<lambda>(l, d).
     bindE (resolution_data (get (build_resolution_url l d))) (\<lambda>v.
     bindE (validate_resolution v) (\<lambda>doc.
     bindE (normalize_handle (rs_handle doc)) (\<lambda>n.
     if n \<noteq> l @ ''.'' @ d then Inl (HandleError ''HandleResolutionError'') else Inr doc))))"

definition resolve_handle_from_uri :: "(string \<Rightarrow> wns_response result) \<Rightarrow> string \<Rightarrow> resolution result" where
  "resolve_handle_from_uri get uri = bindE (parse_wba_uri uri) (\<lambda>p. resolve_handle get (pu_handle p))"

section \<open>Binding\<close>

record binding =
  bd_valid :: bool
  bd_handle :: string
  bd_did :: string
  bd_forward :: bool
  bd_reverse :: bool

definition build_handle_service_entry :: "string \<Rightarrow> string \<Rightarrow> string \<Rightarrow> pyobj" where
  "build_handle_service_entry did l d =
     [(''id'', PStr (did @ ''#handle'')), (''type'', PStr ''HandleService''), (''serviceEndpoint'', PStr (build_resolution_url l d))]"

definition is_handle_service :: "pyval \<Rightarrow> bool result" where
  "is_handle_service v = bindE (pget v ''type'' PNone) (\<lambda>t. Inr (t = PStr ''HandleService''))"

definition extract_handle_services :: "pyobj \<Rightarrow> pyval list result" where
  "extract_handle_services doc =
     bindE (py_iter (dgetd doc ''service'' (PList []))) (\<lambda>svcs.
     bindE (mapE (\<lambda>v. bindE (is_handle_service v) (\<lambda>h. Inr (h, v))) svcs) (\<lambda>hs. Inr (map snd (filter fst hs))))"

definition rstrip_slash :: "string \<Rightarrow> string" where
  "rstrip_slash s = rev (dropWhile (\<lambda>c. c = CHR ''/'') (rev s))"

text \<open>\<open>any\<close> stops at the first service that points to the address; an endpoint that is no text raises.\<close>

fun points_to :: "string \<Rightarrow> pyval list \<Rightarrow> bool result" where
  "points_to endpoint [] = Inr False"
| "points_to endpoint (v # vs) = bindE (pget v ''serviceEndpoint'' (PStr '''')) (\<lambda>e. case e of
      PStr s \<Rightarrow> if rstrip_slash s = rstrip_slash endpoint then Inr True else points_to endpoint vs
    | _ \<Rightarrow> Inl AttributeError)"

definition did_host :: "string \<Rightarrow> string" where
  "did_host did = (let ps = split_on (\<lambda>c. c = CHR '':'') did in if length ps > 2 then ps ! 2 else '''')"

definition verify_reverse :: "string \<Rightarrow> string \<Rightarrow> string \<Rightarrow> pyobj option result \<Rightarrow> binding result" where
  "verify_reverse n did endpoint found = (case found of
      Inl e \<Rightarrow> Inr \<lparr>bd_valid = False, bd_handle = n, bd_did = did, bd_forward = True, bd_reverse = False\<rparr>
    | Inr None \<Rightarrow> Inr \<lparr>bd_valid = False, bd_handle = n, bd_did = did, bd_forward = True, bd_reverse = False\<rparr>
    | Inr (Some doc) \<Rightarrow>
        bindE (extract_handle_services doc) (\<lambda>svcs. bindE (points_to endpoint svcs) (\<lambda>ok.
        Inr \<lparr>bd_valid = ok, bd_handle = n, bd_did = did, bd_forward = True, bd_reverse = ok\<rparr>)))"

definition verify_handle_binding ::
    "keylib \<Rightarrow> (string \<Rightarrow> wns_response result) \<Rightarrow> (string \<Rightarrow> pyval result) \<Rightarrow> string \<Rightarrow> pyobj option \<Rightarrow> binding result" where
  "verify_handle_binding kl get fetch handle given =
     bindE (validate_handle (strip_wba_scheme handle)) (\<lambda>(l, d).
     let n = l @ ''.'' @ d; failed = (\<lambda>did fwd. \<lparr>bd_valid = False, bd_handle = n, bd_did = did, bd_forward = fwd, bd_reverse = False\<rparr>) in
     (case resolve_handle get handle of
        Inl e \<Rightarrow> Inr (failed '''' False)
      | Inr doc \<Rightarrow>
          if rs_status doc \<noteq> ''active'' then Inr (failed (rs_did doc) False)
          else if take 8 (rs_did doc) \<noteq> ''did:wba:'' then Inr (failed (rs_did doc) True)
          else if py_lower (did_host (rs_did doc)) \<noteq> py_lower d then Inr (failed (rs_did doc) True)
          else verify_reverse n (rs_did doc) (build_resolution_url l d)
                 (case given of Some x \<Rightarrow> Inr (Some x) | None \<Rightarrow> resolve_did_wba_document kl fetch (rs_did doc) False)))"


section \<open>Normal forms\<close>

lemma lower_char_idem [simp]: "lower_char (lower_char c) = lower_char c"
proof -
  have "(of_char (char_of (n + 32) :: char) :: nat) = n + 32" if "n \<le> 90" for n using that by simp
  then show ?thesis by (auto simp: lower_char_def Let_def)
qed

lemma py_lower_idem [simp]: "py_lower (py_lower s) = py_lower s"
  by (simp add: py_lower_def)

lemma py_lower_append [simp]: "py_lower (s @ t) = py_lower s @ py_lower t"
  by (simp add: py_lower_def)

lemma set_strip: "set (py_strip s) \<subseteq> set s"
  by (auto simp: py_strip_def dest!: set_dropWhileD)

lemma lower_fixed: "py_lower s = s \<longleftrightarrow> (\<forall>c \<in> set s. lower_char c = c)"
  by (induction s) (auto simp: py_lower_def)

lemma strip_lower: "py_lower (py_strip (py_lower s)) = py_strip (py_lower s)"
proof -
  have "\<forall>c \<in> set (py_lower s). lower_char c = c" by (simp add: py_lower_def)
  then show ?thesis using set_strip[of "py_lower s"] lower_fixed by blast
qed

lemma strip_idem: "py_strip (py_strip s) = py_strip s"
proof -
  have a: "dropWhile P (rev (dropWhile P (rev (dropWhile P xs)))) = rev (dropWhile P (rev (dropWhile P xs)))" for P :: "char \<Rightarrow> bool" and xs
  proof (cases "rev (dropWhile P (rev (dropWhile P xs)))")
    case (Cons y ys)
    let ?d = "dropWhile P xs"
    have "dropWhile P (rev ?d) \<noteq> []" using Cons by (metis list.distinct(1) rev.simps(1))
    then obtain w where w: "rev ?d = w @ dropWhile P (rev ?d)" by (metis takeWhile_dropWhile_id)
    have "?d = rev (dropWhile P (rev ?d)) @ rev w" by (metis rev_append rev_rev_ident w)
    then have "?d = y # ys @ rev w" using Cons by simp
    then have "\<not> P y" by (metis hd_dropWhile list.distinct(1) list.sel(1))
    then show ?thesis using Cons by simp
  next
    case Nil
    then show ?thesis by (simp only: dropWhile.simps)
  qed
  show ?thesis unfolding py_strip_def a by (simp add: dropWhile_idem)
qed

lemma before_after: "x \<in> set s \<Longrightarrow> before_first x s @ x # after_first x s = s"
  by (induction s) (auto simp: before_first_def after_first_def)

lemma before_first_stop: "x \<notin> set (before_first x s)"
  by (auto simp: before_first_def dest: set_takeWhileD)

lemma validate_normal:
  assumes "validate_handle handle = Inr (l, d)"
  shows "py_strip (py_lower handle) = l @ CHR ''.'' # d" and "CHR ''.'' \<notin> set l" and "validate_local_part l" and "is_valid_domain d"
    and "validate_handle (l @ ''.'' @ d) = Inr (l, d)"
proof -
  let ?n = "py_strip (py_lower handle)"
  have n: "CHR ''.'' \<in> set ?n" "l = before_first CHR ''.'' ?n" "d = after_first CHR ''.'' ?n" "validate_local_part l" "is_valid_domain d" "l \<noteq> []" "d \<noteq> []"
    using assms by (auto simp: validate_handle_def handle_invalid_def Let_def split: if_splits)
  show e: "?n = l @ CHR ''.'' # d" using before_after[OF n(1)] n(2,3) by simp
  show "CHR ''.'' \<notin> set l" unfolding n(2) by (rule before_first_stop)
  show "validate_local_part l" "is_valid_domain d" using n by blast+
  have "py_strip (py_lower ?n) = ?n" by (simp add: strip_lower strip_idem)
  then have "py_strip (py_lower (l @ CHR ''.'' # d)) = l @ CHR ''.'' # d" unfolding e .
  moreover have "before_first CHR ''.'' (l @ CHR ''.'' # d) = l" "after_first CHR ''.'' (l @ CHR ''.'' # d) = d"
    using e n(2,3) by simp_all
  ultimately show "validate_handle (l @ ''.'' @ d) = Inr (l, d)"
    using n(4-7) by (simp add: validate_handle_def Let_def)
qed

lemma resolve_facts:
  assumes "resolve_handle get handle = Inr doc" and "validate_handle (strip_wba_scheme handle) = Inr (l, d)"
  shows "normalize_handle (rs_handle doc) = Inr (l @ ''.'' @ d) \<and> (\<exists>v. resolution_data (get (build_resolution_url l d)) = Inr v \<and> validate_resolution v = Inr doc)"
  using assms by (auto simp: resolve_handle_def bindE_Inr_iff split: if_splits prod.splits)

section \<open>Publishing a handle\<close>

lemma build_document_services:
  assumes "build_document kl now did k1 opts = Inr (doc, ks)" and "do_ad_url opts = None" and "mapE (service_entry did) (do_services opts) = Inr svcs" and "svcs \<noteq> []"
  shows "dgetd doc ''service'' (PList []) = PList svcs"
proof -
  obtain jwk where jwk: "public_key_to_jwk kl (snd k1) = Inr jwk"
    using assms(1) by (cases "public_key_to_jwk kl (snd k1)") (simp_all add: build_document_def)
  note b = assms(1)[unfolded build_document_def jwk bindE_simps Let_def assms(2,3) option.case]
  obtain front refs vm where g: "generate_w3c_proof kl now ((''@context'', fst front) # (''id'', PStr did) # (''verificationMethod'', snd front) # (''authentication'', vm) #
      (case refs of None \<Rightarrow> [] | Some rs \<Rightarrow> [(''keyAgreement'', PList rs)]) @ [(''service'', PList svcs)])
      (fst k1) (case do_vm opts of Some v \<Rightarrow> v | None \<Rightarrow> did @ ''#'' @ VM_KEY_AUTH) (do_purpose opts) None (do_created opts) (do_domain opts) (do_challenge opts) = Inr doc"
    using b assms(4) by (auto simp: bindE_Inr_iff split: prod.splits)
  let ?doc0 = "(''@context'', fst front) # (''id'', PStr did) # (''verificationMethod'', snd front) # (''authentication'', vm) #
      (case refs of None \<Rightarrow> [] | Some rs \<Rightarrow> [(''keyAgreement'', PList rs)]) @ [(''service'', PList svcs)]"
  obtain p where p: "doc = dset ''proof'' p ?doc0"
    using g by (auto simp: generate_w3c_proof_def Let_def bindE_Inr_iff simp del: append_Cons)
  show ?thesis unfolding p dgetd_dset by (cases refs) (simp_all add: dgetd_def)
qed

lemma build_document_returns:
  assumes "public_key_to_jwk kl pk = Inr jwk" and "keypair_ok kl sk pk" and "kl_jcs_total kl" and "mapE (service_entry did) (do_services opts) = Inr svcs"
    and "do_ad_url opts = None" and "do_e2ee opts = None" and "do_vm opts = None" and "do_purpose opts \<noteq> []" and "do_created opts = None" and "kl_stamp kl now \<noteq> []"
  shows "\<exists>doc ks. build_document kl now did (sk, pk) opts = Inr (doc, ks)"
proof -
  have vm: "did @ ''#'' @ VM_KEY_AUTH \<noteq> []" by simp
  have st: "(case None of Some c \<Rightarrow> c | None \<Rightarrow> kl_stamp kl now) \<noteq> []" using assms(10) by simp
  have "\<exists>signed. generate_w3c_proof kl now document sk (did @ ''#'' @ VM_KEY_AUTH) (do_purpose opts) None None (do_domain opts) (do_challenge opts) = Inr signed" for document
    using w3c_proof_verifies[where domain = "do_domain opts" and challenge = "do_challenge opts", OF assms(2,3) vm assms(8) st] by blast
  then show ?thesis
    unfolding build_document_def assms Let_def by (simp add: assms del: append_Cons) (metis bindE_simps(2))
qed

section \<open>Properties\<close>

text \<open>
  C25. The parts of a valid handle make a handle and an address that are read back as the same parts, and normalising is
  idempotent.
\<close>
theorem handle_roundtrip:
  assumes "validate_handle handle = Inr (l, d)"
  shows "parse_wba_uri (build_wba_uri l d) = Inr \<lparr>pu_local = l, pu_domain = d, pu_handle = l @ ''.'' @ d, pu_uri = build_wba_uri l d\<rparr> \<and>
    normalize_handle handle = Inr (l @ ''.'' @ d) \<and> normalize_handle (l @ ''.'' @ d) = Inr (l @ ''.'' @ d)"
proof -
  have "drop 6 (build_wba_uri l d) = l @ ''.'' @ d" "take 6 (build_wba_uri l d) = ''wba://''" by (simp_all add: build_wba_uri_def)
  then show ?thesis using validate_normal(5)[OF assms] assms by (simp add: parse_wba_uri_def normalize_handle_def)
qed

text \<open>
  A binding is valid exactly when the handle resolves to an active entry of a \<open>did:wba\<close> DID on the same host and the
  document at hand has a handle service, before any malformed one, that points back to the address of the handle.
\<close>
theorem binding_valid_iff:
  assumes "validate_handle (strip_wba_scheme handle) = Inr (l, d)"
  shows "(\<exists>b. verify_handle_binding kl get fetch handle given = Inr b \<and> bd_valid b) \<longleftrightarrow>
    (\<exists>doc x svcs. resolve_handle get handle = Inr doc \<and> rs_status doc = ''active'' \<and> take 8 (rs_did doc) = ''did:wba:'' \<and>
      py_lower (did_host (rs_did doc)) = py_lower d \<and>
      (case given of Some y \<Rightarrow> x = y | None \<Rightarrow> resolve_did_wba_document kl fetch (rs_did doc) False = Inr (Some x)) \<and>
      extract_handle_services x = Inr svcs \<and> points_to (build_resolution_url l d) svcs = Inr True)"
proof -
  have r: "(\<exists>b. verify_reverse n did e found = Inr b \<and> bd_valid b) \<longleftrightarrow>
      (\<exists>x svcs. found = Inr (Some x) \<and> extract_handle_services x = Inr svcs \<and> points_to e svcs = Inr True)" for n did e found
  proof (cases found)
    case (Inr f)
    show ?thesis
    proof (cases f)
      case (Some x)
      then show ?thesis using Inr
        by (cases "extract_handle_services x"; cases "points_to e (case extract_handle_services x of Inr s \<Rightarrow> s | Inl _ \<Rightarrow> [])") (simp_all add: verify_reverse_def)
    qed (simp add: verify_reverse_def Inr)
  qed (simp add: verify_reverse_def)
  show ?thesis
  proof (cases "resolve_handle get handle")
    case (Inl e)
    then show ?thesis by (simp add: verify_handle_binding_def assms Let_def)
  next
    case (Inr doc)
    show ?thesis
    proof (cases "rs_status doc = ''active'' \<and> take 8 (rs_did doc) = ''did:wba:'' \<and> py_lower (did_host (rs_did doc)) = py_lower d")
      case False
      then show ?thesis by (auto simp: verify_handle_binding_def assms Let_def Inr)
    next
      case True
      then have "verify_handle_binding kl get fetch handle given = verify_reverse (l @ ''.'' @ d) (rs_did doc) (build_resolution_url l d)
          (case given of Some x \<Rightarrow> Inr (Some x) | None \<Rightarrow> resolve_did_wba_document kl fetch (rs_did doc) False)"
        by (simp add: verify_handle_binding_def assms Let_def Inr)
      then show ?thesis using True r by (cases given) (auto simp: Inr)
    qed
  qed
qed

text \<open>
  A document that the caller supplies is not compared with the DID the handle resolves to: any document with the right
  service makes the binding valid, whatever its id.
\<close>
theorem supplied_document_unchecked:
  assumes "resolve_handle get handle = Inr doc" and "validate_handle (strip_wba_scheme handle) = Inr (l, d)" and "rs_status doc = ''active''"
    and "take 8 (rs_did doc) = ''did:wba:''" and "py_lower (did_host (rs_did doc)) = py_lower d"
  shows "verify_handle_binding kl get fetch handle (Some [(''id'', PStr anyone), (''service'', PList [PDict (build_handle_service_entry anyone l d)])]) =
    Inr \<lparr>bd_valid = True, bd_handle = l @ ''.'' @ d, bd_did = rs_did doc, bd_forward = True, bd_reverse = True\<rparr>"
  using assms by (simp add: verify_handle_binding_def verify_reverse_def extract_handle_services_def is_handle_service_def build_handle_service_entry_def dgetd_def Let_def)

text \<open>
  The patterns let a line feed through at the end of a part: a handle whose local part ends with one is valid, and the
  address it is resolved at contains it.
\<close>
theorem newline_in_handle:
  "validate_handle (''alice'' @ [CHR 0x0A] @ ''.example.com'') = Inr (''alice'' @ [CHR 0x0A], ''example.com'') \<and>
   build_resolution_url (''alice'' @ [CHR 0x0A]) ''example.com'' = ''https://example.com/.well-known/handle/alice'' @ [CHR 0x0A]"
  by (simp add: validate_handle_def py_strip_def py_lower_def lower_char_def is_space_def before_first_def after_first_def validate_local_part_def local_part_re_def
    label_shape_def chomp_def alnum_def is_low_def is_digit_def is_valid_domain_def label_re_def build_resolution_url_def Let_def)


section \<open>Examples\<close>

definition example_get :: "string \<Rightarrow> wns_response result" where
  "example_get url = (if url = ''https://example.com/.well-known/handle/alice''
     then Inr \<lparr>wr_status = 200, wr_location = '''', wr_json = Inr (PDict [(''handle'', PStr ''alice.example.com''), (''did'', PStr ''did:wba:example.com:alice''), (''status'', PStr ''active'')])\<rparr>
     else Inr \<lparr>wr_status = 404, wr_location = '''', wr_json = Inl OSError\<rparr>)"

lemma example_handle: "validate_handle ''alice.example.com'' = Inr (''alice'', ''example.com'')"
  by (simp add: validate_handle_def py_strip_def py_lower_def lower_char_def is_space_def before_first_def after_first_def validate_local_part_def local_part_re_def
    label_shape_def chomp_def alnum_def is_low_def is_digit_def is_valid_domain_def label_re_def Let_def)

lemma example_resolution:
  "resolve_handle example_get ''alice.example.com'' = Inr \<lparr>rs_handle = ''alice.example.com'', rs_did = ''did:wba:example.com:alice'', rs_status = ''active''\<rparr>"
proof -
  have "strip_wba_scheme ''alice.example.com'' = ''alice.example.com''" by (simp add: strip_wba_scheme_def)
  moreover have "example_get (build_resolution_url ''alice'' ''example.com'') = Inr \<lparr>wr_status = 200, wr_location = '''', wr_json = Inr (PDict [(''handle'', PStr ''alice.example.com''),
      (''did'', PStr ''did:wba:example.com:alice''), (''status'', PStr ''active'')])\<rparr>"
    by (simp add: example_get_def build_resolution_url_def)
  ultimately show ?thesis
    by (simp add: resolve_handle_def example_handle resolution_data_def validate_resolution_def HANDLE_STATUS_def dgetd_def normalize_handle_def)
qed

lemma example_facts:
  "validate_handle (strip_wba_scheme ''alice.example.com'') = Inr (''alice'', ''example.com'')" "py_lower (did_host ''did:wba:example.com:alice'') = py_lower ''example.com''"
proof -
  have "strip_wba_scheme ''alice.example.com'' = ''alice.example.com''" by (simp add: strip_wba_scheme_def)
  then show "validate_handle (strip_wba_scheme ''alice.example.com'') = Inr (''alice'', ''example.com'')" using example_handle by (simp only:)
  show "py_lower (did_host ''did:wba:example.com:alice'') = py_lower ''example.com''" by (simp add: did_host_def Let_def)
qed

theorem handle_roundtrip_witness:
  "parse_wba_uri (build_wba_uri ''alice'' ''example.com'') = Inr \<lparr>pu_local = ''alice'', pu_domain = ''example.com'', pu_handle = ''alice'' @ ''.'' @ ''example.com'',
    pu_uri = build_wba_uri ''alice'' ''example.com''\<rparr>"
  using handle_roundtrip[OF example_handle] by blast

theorem binding_valid_iff_witness:
  "\<not> (\<exists>b. verify_handle_binding example_keys example_get (\<lambda>_. Inl OSError) ''alice.example.com'' (Some []) = Inr b \<and> bd_valid b)"
  unfolding binding_valid_iff[OF example_facts(1)] by (simp add: extract_handle_services_def dgetd_def)

theorem supplied_document_unchecked_witness:
  "verify_handle_binding example_keys example_get (\<lambda>_. Inl OSError) ''alice.example.com''
     (Some [(''id'', PStr ''did:wba:evil.com:eve''), (''service'', PList [PDict (build_handle_service_entry ''did:wba:evil.com:eve'' ''alice'' ''example.com'')])]) =
    Inr \<lparr>bd_valid = True, bd_handle = ''alice'' @ ''.'' @ ''example.com'', bd_did = ''did:wba:example.com:alice'', bd_forward = True, bd_reverse = True\<rparr>"
  using supplied_document_unchecked[OF example_resolution example_facts(1)] example_facts(2) by simp


end
