(* ===== verification/CanonicalJson.thy ===== *)
theory CanonicalJson
  imports W3cProof
begin

text \<open>
  The canonical JSON of the mandates (\<open>ap2/mandate.py\<close>): \<open>json.dumps\<close> with sorted keys, no blanks and unescaped
  characters, and the hash over it.  The text of a real number is the argument \<open>fl\<close>.  Two values have the same
  canonical text exactly when they are equal up to the order of the keys of their dictionaries.
\<close>

section \<open>Serialiser\<close>

definition hex_digit :: "nat \<Rightarrow> char" where
  "hex_digit n = (if n < 10 then char_of (n + 48) else char_of (n + 87))"

definition escape_char :: "char \<Rightarrow> string" where
  "escape_char c =
     (if c = CHR 0x22 then [CHR 0x5C, CHR 0x22]
      else if c = CHR 0x5C then [CHR 0x5C, CHR 0x5C]
      else if c = CHR 0x0A then [CHR 0x5C, CHR ''n'']
      else if c = CHR 0x0D then [CHR 0x5C, CHR ''r'']
      else if c = CHR 0x09 then [CHR 0x5C, CHR ''t'']
      else if c = CHR 0x0C then [CHR 0x5C, CHR ''f'']
      else if c = CHR 0x08 then [CHR 0x5C, CHR ''b'']
      else let n = of_char c :: nat in
        if n < 32 then [CHR 0x5C, CHR ''u'', CHR ''0'', CHR ''0'', hex_digit (n div 16), hex_digit (n mod 16)] else [c])"

definition json_string :: "string \<Rightarrow> string" where
  "json_string s = CHR 0x22 # concat (map escape_char s) @ [CHR 0x22]"

definition json_member :: "string \<times> string \<Rightarrow> string" where
  "json_member = (\<lambda>(k, t). json_string k @ CHR '':'' # t)"

primrec json_dumps :: "(real \<Rightarrow> string) \<Rightarrow> pyval \<Rightarrow> string" where
  "json_dumps fl PNone = ''null''"
| "json_dumps fl (PBool b) = (if b then ''true'' else ''false'')"
| "json_dumps fl (PInt i) = show_int i"
| "json_dumps fl (PFloat r) = fl r"
| "json_dumps fl (PStr s) = json_string s"
| "json_dumps fl (PList xs) = CHR ''['' # join_with '','' (map (json_dumps fl) xs) @ '']''"
| "json_dumps fl (PDict d) = CHR ''{'' # join_with '','' (map json_member (sort_key fst (map (map_prod id (json_dumps fl)) d))) @ ''}''"

definition jcs_canonicalize :: "(real \<Rightarrow> string) \<Rightarrow> pyval \<Rightarrow> string" where
  "jcs_canonicalize fl obj = json_dumps fl obj"

definition compute_hash :: "(bytes \<Rightarrow> bytes) \<Rightarrow> (real \<Rightarrow> string) \<Rightarrow> pyval \<Rightarrow> string" where
  "compute_hash sha fl contents = b64url_encode (sha (encode (jcs_canonicalize fl contents)))"

section \<open>Values up to the order of keys\<close>

text \<open>A dictionary with each value ordered, sorted by key; every dictionary has each key once.\<close>

primrec order_keys :: "pyval \<Rightarrow> pyval" where
  "order_keys PNone = PNone"
| "order_keys (PBool b) = PBool b"
| "order_keys (PInt i) = PInt i"
| "order_keys (PFloat r) = PFloat r"
| "order_keys (PStr s) = PStr s"
| "order_keys (PList xs) = PList (map order_keys xs)"
| "order_keys (PDict d) = PDict (sort_key fst (map (map_prod id order_keys) d))"

primrec keys_once :: "pyval \<Rightarrow> bool" where
  "keys_once PNone = True"
| "keys_once (PBool b) = True"
| "keys_once (PInt i) = True"
| "keys_once (PFloat r) = True"
| "keys_once (PStr s) = True"
| "keys_once (PList xs) = list_all id (map keys_once xs)"
| "keys_once (PDict d) = (distinct (map fst d) \<and> list_all snd (map (map_prod id keys_once) d))"

lemma sort_key_map_prod: "sort_key fst (map (map_prod id f) d) = map (map_prod id f) (sort_key fst d)"
proof -
  have i: "insort_key fst (map_prod id f x) (map (map_prod id f) xs) = map (map_prod id f) (insort_key fst x xs)" for x xs
    by (induction xs) (simp_all add: split_beta)
  show ?thesis by (induction d) (simp_all add: i[unfolded id_def])
qed

text \<open>Ordering the keys does not change the text.\<close>

lemma dumps_ordered: "json_dumps fl (order_keys v) = json_dumps fl v"
proof (induction v)
  case (PDict d)
  have "map (map_prod id (json_dumps fl)) (map (map_prod id order_keys) d) = map (map_prod id (json_dumps fl)) d"
    using PDict by (auto simp: snds.simps)
  then show ?case by (simp only: order_keys.simps json_dumps.simps sort_key_map_prod[symmetric] sort_key_id_if_sorted[OF sorted_sort_key])
qed (simp_all cong: map_cong)

text \<open>Dictionaries with the same items, each key once, are ordered to the same list.\<close>

lemma sort_items_unique: "mset d = mset d' \<Longrightarrow> distinct (map fst d) \<Longrightarrow> sort_key fst d = sort_key fst (d' :: (string \<times> 'a) list)"
proof -
  assume m: "mset d = mset d'" and dist: "distinct (map fst d)"
  have "mset (map fst d') = mset (map fst d)" using m by (simp add: mset_map)
  then have dist': "distinct (map fst d')" using dist mset_eq_imp_distinct_iff by blast
  have sorted: "distinct (map fst (sort_key fst e))" if "distinct (map fst e)" for e :: "(string \<times> 'a) list"
  proof -
    have "mset (map fst (sort_key fst e)) = mset (map fst e)" by (simp add: mset_map)
    then show ?thesis using that mset_eq_imp_distinct_iff by blast
  qed
  have eq: "set (sort_key fst d) = set (sort_key fst d')" using mset_eq_setD[OF m] by simp
  have "inj_on fst (set (sort_key fst d) \<union> set (sort_key fst d'))"
    unfolding eq[symmetric] Un_absorb using sorted[OF dist] by (simp add: distinct_map)
  then show ?thesis
    by (rule map_sorted_distinct_set_unique) (use sorted[OF dist] sorted[OF dist'] eq in simp_all)
qed

section \<open>Reading the text back\<close>

definition closing :: "string \<Rightarrow> bool" where
  "closing r \<longleftrightarrow> r = [] \<or> hd r \<in> {CHR '','', CHR '']'', CHR ''}''}"

definition bare_token :: "string \<Rightarrow> bool" where
  "bare_token t \<longleftrightarrow> t \<noteq> [] \<and> set t \<inter> {CHR '','', CHR '']'', CHR ''}'', CHR ''['', CHR ''{'', CHR 0x22} = {}"

lemma token_split: "t @ r = u @ q \<Longrightarrow> bare_token t \<Longrightarrow> bare_token u \<Longrightarrow> closing r \<Longrightarrow> closing q \<Longrightarrow> t = u \<and> r = q"
proof -
  assume e: "t @ r = u @ q" and tok: "bare_token t" "bare_token u" and c: "closing r" "closing q"
  let ?P = "\<lambda>c. c \<notin> {CHR '','', CHR '']'', CHR ''}''}"
  have w: "takeWhile ?P (t @ r) = t" if "bare_token t" "closing r" for t r
  proof -
    have "\<forall>x\<in>set t. ?P x" using that(1) unfolding bare_token_def by blast
    moreover have "takeWhile ?P r = []" using that(2) unfolding closing_def by (cases r) auto
    ultimately show ?thesis by (simp add: takeWhile_append2)
  qed
  have "t = u" using w[OF tok(1) c(1)] w[OF tok(2) c(2)] e by simp
  then show ?thesis using e by simp
qed

fun read_char :: "string \<Rightarrow> char \<times> string" where
  "read_char (a # b # s) =
     (if a \<noteq> CHR 0x5C then (a, b # s)
      else if b = CHR ''n'' then (CHR 0x0A, s) else if b = CHR ''r'' then (CHR 0x0D, s) else if b = CHR ''t'' then (CHR 0x09, s)
      else if b = CHR ''f'' then (CHR 0x0C, s) else if b = CHR ''b'' then (CHR 0x08, s)
      else if b = CHR ''u'' then (case s of _ # _ # x # y # r \<Rightarrow> (char_of (the (hexval x) * 16 + the (hexval y) :: nat), r) | _ \<Rightarrow> (b, s))
      else (b, s))"
| "read_char s = (hd s, tl s)"

lemma hexval_digit: "n < 16 \<Longrightarrow> hexval (hex_digit n) = Some n"
proof -
  have "list_all (\<lambda>n. hexval (hex_digit n) = Some n) [0..<16]" by (simp add: upt_rec_numeral upt_conv_Cons hex_digit_def hexval.simps)
  then show "n < 16 \<Longrightarrow> ?thesis" by (simp add: list_all_iff)
qed

lemma read_escaped: "read_char (escape_char c @ s) = (c, s)"
proof (cases "of_char c < (32 :: nat)")
  case True
  let ?n = "of_char c :: nat"
  have "?n div 16 < 16" "?n mod 16 < 16" using True by simp_all
  then have "char_of (the (hexval (hex_digit (?n div 16))) * 16 + the (hexval (hex_digit (?n mod 16))) :: nat) = c" by (simp add: hexval_digit)
  then show ?thesis using True by (simp add: escape_char_def Let_def)
next
  case False
  then show ?thesis by (cases s) (simp_all add: escape_char_def Let_def)
qed

lemma escape_nonempty: "escape_char c \<noteq> [] \<and> hd (escape_char c) \<noteq> CHR 0x22"
  by (simp add: escape_char_def Let_def)

lemma string_split: "concat (map escape_char s) @ CHR 0x22 # r = concat (map escape_char u) @ CHR 0x22 # q \<Longrightarrow> s = u \<and> r = q"
proof (induction s arbitrary: u)
  case Nil
  show ?case
  proof (cases u)
    case (Cons c u')
    then show ?thesis using Nil escape_nonempty[of c] by (cases "escape_char c") auto
  qed (use Nil in simp)
next
  case (Cons c s)
  show ?case
  proof (cases u)
    case Nil
    then show ?thesis using Cons.prems escape_nonempty[of c] by (cases "escape_char c") auto
  next
    case (Cons d u')
    then have e: "escape_char c @ concat (map escape_char s) @ CHR 0x22 # r = escape_char d @ concat (map escape_char u') @ CHR 0x22 # q"
      using Cons.prems by simp
    from arg_cong[OF this, of read_char] have "c = d" "concat (map escape_char s) @ CHR 0x22 # r = concat (map escape_char u') @ CHR 0x22 # q"
      by (simp_all add: read_escaped)
    then show ?thesis using Cons.IH Cons by blast
  qed
qed

lemma json_string_split: "json_string s @ r = json_string u @ q \<Longrightarrow> s = u \<and> r = q"
  using string_split[of s r u q] by (simp add: json_string_def)


section \<open>Tokens\<close>

definition number_chars :: "char set" where
  "number_chars = set ''0123456789+-.e''"

text \<open>The text of a float: number characters, with a point or an exponent, and different floats have different texts.\<close>

definition fl_ok :: "(real \<Rightarrow> string) \<Rightarrow> real set \<Rightarrow> bool" where
  "fl_ok fl F \<longleftrightarrow> inj_on fl F \<and> (\<forall>r\<in>F. set (fl r) \<subseteq> number_chars \<and> (CHR ''.'' \<in> set (fl r) \<or> CHR ''e'' \<in> set (fl r)))"

primrec floats_in :: "real set \<Rightarrow> pyval \<Rightarrow> bool" where
  "floats_in F PNone = True"
| "floats_in F (PBool b) = True"
| "floats_in F (PInt i) = True"
| "floats_in F (PFloat r) = (r \<in> F)"
| "floats_in F (PStr s) = True"
| "floats_in F (PList xs) = list_all id (map (floats_in F) xs)"
| "floats_in F (PDict d) = list_all snd (map (map_prod id (floats_in F)) d)"

lemma digit_char_facts: "n < 10 \<Longrightarrow> digit_char n \<in> set ''0123456789''"
proof -
  have "list_all (\<lambda>n. digit_char n \<in> set ''0123456789'') [0..<10]" by (simp add: upt_rec_numeral upt_conv_Cons digit_char_def char_of_def bit_simps)
  then show "n < 10 \<Longrightarrow> ?thesis" by (simp add: list_all_iff)
qed

lemma digit_char_inj: "m < 10 \<Longrightarrow> n < 10 \<Longrightarrow> digit_char m = digit_char n \<Longrightarrow> m = n"
proof -
  assume b: "m < 10" "n < 10" and e: "digit_char m = digit_char n"
  have "of_char (digit_char k) = k + 48" if "k < 10" for k :: nat using that by (simp add: digit_char_def)
  then show "m = n" using arg_cong[OF e, of "of_char :: char \<Rightarrow> nat"] b by simp
qed

lemma show_nat_set: "(\<And>k. k < 10 \<Longrightarrow> digit_char k \<in> D) \<Longrightarrow> show_nat n \<noteq> [] \<and> set (show_nat n) \<subseteq> D"
proof (induction n rule: show_nat.induct)
  case (1 n)
  then show ?case by (cases "n < 10") (simp_all add: show_nat.simps[of n])
qed

definition digits :: "char set" where
  "digits = set ''0123456789''"

definition marks :: "char set" where
  "marks = {CHR ''.'', CHR ''e'', CHR ''l'', CHR ''u'', CHR '','', CHR '']'', CHR ''}'', CHR ''['', CHR ''{'', CHR 0x22}"

lemma marks_facts: "digits \<inter> marks = {}" "CHR ''-'' \<notin> marks" "CHR ''-'' \<notin> digits"
  by (simp_all add: digits_def marks_def)

lemma show_nat_chars: "show_nat n \<noteq> [] \<and> set (show_nat n) \<subseteq> digits"
  unfolding digits_def by (rule show_nat_set) (rule digit_char_facts)

lemma show_nat_inj: "show_nat m = show_nat n \<Longrightarrow> m = n"
proof (induction m arbitrary: n rule: show_nat.induct)
  case (1 m)
  have ne: "show_nat k \<noteq> []" for k using show_nat_chars by blast
  show ?case
  proof (cases "m < 10"; cases "n < 10")
    assume "\<not> m < 10" "\<not> n < 10"
    then have e: "show_nat (m div 10) = show_nat (n div 10)" "digit_char (m mod 10) = digit_char (n mod 10)"
      using "1.prems" by (simp_all add: show_nat.simps[of m] show_nat.simps[of n])
    then have "m div 10 = n div 10" "m mod 10 = n mod 10"
      using "1.IH"[OF \<open>\<not> m < 10\<close> e(1)] digit_char_inj[OF _ _ e(2)] by simp_all
    then show "m = n" by (metis div_mult_mod_eq)
  qed (use "1.prems" digit_char_inj ne ne[symmetric] in \<open>auto simp: show_nat.simps[of m] show_nat.simps[of n]\<close>)
qed

lemma show_int_chars: "show_int i \<noteq> [] \<and> set (show_int i) \<subseteq> insert CHR ''-'' digits"
  using show_nat_chars[of "nat (- i)"] show_nat_chars[of "nat i"] by (auto simp: show_int_def)

lemma show_int_avoids: "c \<in> marks \<Longrightarrow> c \<notin> set (show_int i)"
  using show_int_chars[of i] marks_facts by blast

lemma show_nat_unsigned: "show_nat n \<noteq> CHR ''-'' # s"
proof
  assume e: "show_nat n = CHR ''-'' # s"
  have "CHR ''-'' \<in> set (show_nat n)" unfolding e by simp
  then show False using show_nat_chars[of n] marks_facts by blast
qed

lemma show_int_inj:
  assumes e: "show_int i = show_int j"
  shows "i = j"
proof (cases "i < 0"; cases "j < 0")
  assume s: "i < 0" "j < 0"
  then have "show_nat (nat (- i)) = show_nat (nat (- j))" using e unfolding show_int_def by simp
  from show_nat_inj[OF this] s show ?thesis by simp
next
  assume s: "\<not> i < 0" "\<not> j < 0"
  then have "show_nat (nat i) = show_nat (nat j)" using e unfolding show_int_def by simp
  from show_nat_inj[OF this] s show ?thesis by simp
next
  assume "i < 0" "\<not> j < 0"
  then show ?thesis using e show_nat_unsigned[of "nat j"] unfolding show_int_def by metis
next
  assume "\<not> i < 0" "j < 0"
  then show ?thesis using e show_nat_unsigned[of "nat i"] unfolding show_int_def by metis
qed

primrec scalar :: "pyval \<Rightarrow> bool" where
  "scalar PNone = True" | "scalar (PBool b) = True" | "scalar (PInt i) = True" | "scalar (PFloat r) = True"
| "scalar (PStr s) = False" | "scalar (PList xs) = False" | "scalar (PDict d) = False"

lemma scalar_token: "scalar v \<Longrightarrow> fl_ok fl F \<Longrightarrow> floats_in F v \<Longrightarrow> bare_token (json_dumps fl v)"
proof (cases v)
  case (PInt i)
  then show ?thesis using show_int_chars[of i] show_int_avoids[of _ i] by (simp add: bare_token_def marks_def)
next
  case (PFloat r)
  moreover assume "fl_ok fl F" "floats_in F v"
  ultimately have "set (fl r) \<subseteq> number_chars" "fl r \<noteq> []" by (auto simp: fl_ok_def)
  then show ?thesis unfolding PFloat json_dumps.simps bare_token_def number_chars_def by auto
qed (simp_all add: bare_token_def)

lemma scalar_inj:
  assumes "scalar v" and "scalar w" and "fl_ok fl F" and "floats_in F v" and "floats_in F w" and "json_dumps fl v = json_dumps fl w"
  shows "v = w"
proof -
  have f: "set (fl r) \<subseteq> number_chars" "CHR ''.'' \<in> set (fl r) \<or> CHR ''e'' \<in> set (fl r)" "fl r \<noteq> []" if "r \<in> F" for r
    using assms(3) that by (auto simp: fl_ok_def)
  have n: "show_int i \<noteq> fl r" if "r \<in> F" for i r
    using show_int_avoids[of "CHR ''.''" i] show_int_avoids[of "CHR ''e''" i] f(2)[OF that] by (auto simp: marks_def)
  have w: "show_int i \<noteq> u" "r \<in> F \<Longrightarrow> fl r \<noteq> u" if "CHR ''l'' \<in> set u \<or> CHR ''u'' \<in> set u" for u i r
  proof -
    have "CHR ''l'' \<notin> number_chars" "CHR ''u'' \<notin> number_chars" by (simp_all add: number_chars_def)
    then show "r \<in> F \<Longrightarrow> fl r \<noteq> u" using that f(1)[of r] by blast
    show "show_int i \<noteq> u" using that show_int_avoids[of "CHR ''l''" i] show_int_avoids[of "CHR ''u''" i] by (auto simp: marks_def)
  qed
  have k: "show_int i \<noteq> ''null''" "show_int i \<noteq> ''true''" "show_int i \<noteq> ''false''" for i
    by (rule w(1), simp)+
  have g: "r \<in> F \<Longrightarrow> fl r \<noteq> ''null''" "r \<in> F \<Longrightarrow> fl r \<noteq> ''true''" "r \<in> F \<Longrightarrow> fl r \<noteq> ''false''" for r
    by (rule w(2), simp, assumption)+
  have inj: "r \<in> F \<Longrightarrow> q \<in> F \<Longrightarrow> fl r = fl q \<Longrightarrow> r = q" for r q using assms(3) by (simp add: fl_ok_def inj_on_def)
  show ?thesis
    using assms(1,2,4-6) by (cases v; cases w) (simp_all add: k g n k[symmetric] g[symmetric] n[symmetric] show_int_inj inj split: if_splits)
qed


section \<open>The text determines the value\<close>

definition tail_text :: "string list \<Rightarrow> string" where
  "tail_text ws = concat (map (\<lambda>w. CHR '','' # w) ws)"

lemma tail_text_simps [simp]: "tail_text [] = []" "tail_text (w # ws) = CHR '','' # w @ tail_text ws"
  by (simp_all add: tail_text_def)

lemma join_tail: "join_with '','' (w # ws) = w @ tail_text ws"
  by (induction ws arbitrary: w) (simp_all add: tail_text_def)

lemma dumps_start: "fl_ok fl F \<Longrightarrow> floats_in F v \<Longrightarrow> json_dumps fl v \<noteq> [] \<and> hd (json_dumps fl v) \<notin> {CHR '','', CHR '']'', CHR ''}''}"
proof (cases "scalar v")
  case True
  moreover assume "fl_ok fl F" "floats_in F v"
  ultimately have "bare_token (json_dumps fl v)" by (rule scalar_token)
  then show ?thesis by (cases "json_dumps fl v") (auto simp: bare_token_def)
qed (cases v; simp add: json_string_def)

lemma tails_split:
  assumes "\<And>x y r q. x \<in> set xs \<Longrightarrow> y \<in> set ys \<Longrightarrow> T x @ r = T y @ q \<Longrightarrow> closing r \<Longrightarrow> closing q \<Longrightarrow> N x = N y \<and> r = q"
    and "e \<in> {CHR '']'', CHR ''}''}" and "tail_text (map T xs) @ e # r = tail_text (map T ys) @ e # q"
  shows "map N xs = map N ys \<and> r = q"
  using assms
proof (induction xs arbitrary: ys)
  case Nil
  then show ?case by (cases ys) auto
next
  case (Cons x xs)
  show ?case
  proof (cases ys)
    case Nil
    then show ?thesis using Cons.prems(2,3) by auto
  next
    case ys: (Cons y ys')
    have c: "closing (tail_text ws @ e # r)" for ws r using Cons.prems(2) by (cases ws) (auto simp: closing_def)
    have "T x @ tail_text (map T xs) @ e # r = T y @ tail_text (map T ys') @ e # q" using Cons.prems(3) ys by simp
    from Cons.prems(1)[OF _ _ this c c] ys have "N x = N y" "tail_text (map T xs) @ e # r = tail_text (map T ys') @ e # q" by simp_all
    moreover have "map N xs = map N ys' \<and> r = q"
      by (rule Cons.IH[OF _ Cons.prems(2) calculation(2)], rule Cons.prems(1)) (simp_all add: ys)
    ultimately show ?thesis using ys by simp
  qed
qed

lemma items_split:
  assumes el: "\<And>x y r q. x \<in> set xs \<Longrightarrow> y \<in> set ys \<Longrightarrow> T x @ r = T y @ q \<Longrightarrow> closing r \<Longrightarrow> closing q \<Longrightarrow> N x = N y \<and> r = q"
    and start: "\<And>x. x \<in> set xs \<union> set ys \<Longrightarrow> T x \<noteq> [] \<and> hd (T x) \<noteq> e"
    and e: "e \<in> {CHR '']'', CHR ''}''}" and eq: "join_with '','' (map T xs) @ e # r = join_with '','' (map T ys) @ e # q"
  shows "map N xs = map N ys \<and> r = q"
proof (cases xs)
  case Nil
  then show ?thesis
  proof (cases ys)
    case (Cons y ys')
    then show ?thesis using Nil eq start[of y] by (cases "T y") (simp_all add: join_tail)
  qed (use Nil eq in simp)
next
  case xs: (Cons x xs')
  show ?thesis
  proof (cases ys)
    case Nil
    then show ?thesis using xs eq start[of x] by (cases "T x") (simp_all add: join_tail)
  next
    case ys: (Cons y ys')
    have "tail_text (map T xs) @ e # r = tail_text (map T ys) @ e # q" using eq unfolding xs ys list.map join_tail by simp
    from tails_split[OF el e this] show ?thesis by simp
  qed
qed

lemma member_split:
  assumes "json_member (map_prod id f (k, v)) @ r = json_member (map_prod id f (k', w)) @ q"
  shows "k = k' \<and> f v @ r = f w @ q"
  using assms json_string_split[of k "CHR '':'' # f v @ r" k' "CHR '':'' # f w @ q"] by (simp add: json_member_def)

lemma dict_dumps: "json_dumps fl (PDict d) = CHR ''{'' # join_with '','' (map (json_member \<circ> map_prod id (json_dumps fl)) (sort_key fst d)) @ ''}''"
  by (simp only: json_dumps.simps sort_key_map_prod map_map)

lemma dict_order: "order_keys (PDict d) = PDict (map (map_prod id order_keys) (sort_key fst d))"
  by (simp only: order_keys.simps sort_key_map_prod)

lemma scalar_split:
  assumes "fl_ok fl F" and "scalar v" and "json_dumps fl v @ r = json_dumps fl w @ q" and "closing r" and "closing q" and "floats_in F v" and "floats_in F w"
  shows "order_keys v = order_keys w \<and> r = q"
proof (cases "scalar w")
  case True
  from token_split[OF assms(3) scalar_token[OF assms(2,1,6)] scalar_token[OF True assms(1,7)] assms(4,5)]
  show ?thesis using scalar_inj[OF assms(2) True assms(1,6,7)] by blast
next
  case False
  have "bare_token (json_dumps fl v)" by (rule scalar_token[OF assms(2,1,6)])
  then have "hd (json_dumps fl v @ r) \<notin> {CHR ''['', CHR ''{'', CHR 0x22}" by (cases "json_dumps fl v") (auto simp: bare_token_def)
  moreover have "hd (json_dumps fl w @ q) \<in> {CHR ''['', CHR ''{'', CHR 0x22}" using False by (cases w) (simp_all add: json_string_def)
  ultimately show ?thesis unfolding assms(3) by blast
qed

lemma list_split:
  assumes "fl_ok fl F" and IH: "\<And>x w r q. x \<in> set xs \<Longrightarrow> json_dumps fl x @ r = json_dumps fl w @ q \<Longrightarrow> closing r \<Longrightarrow> closing q \<Longrightarrow>
      floats_in F x \<Longrightarrow> floats_in F w \<Longrightarrow> order_keys x = order_keys w \<and> r = q"
    and eq: "json_dumps fl (PList xs) @ r = json_dumps fl (PList ys) @ q" and "floats_in F (PList xs)" and "floats_in F (PList ys)"
  shows "order_keys (PList xs) = order_keys (PList ys) \<and> r = q"
proof -
  have e: "join_with '','' (map (json_dumps fl) xs) @ CHR '']'' # r = join_with '','' (map (json_dumps fl) ys) @ CHR '']'' # q"
    using eq by simp
  have f: "floats_in F x" if "x \<in> set xs \<union> set ys" for x using assms(4,5) that by (auto simp: list_all_iff)
  have "map order_keys xs = map order_keys ys \<and> r = q"
  proof (rule items_split[OF _ _ _ e])
    show "json_dumps fl x \<noteq> [] \<and> hd (json_dumps fl x) \<noteq> CHR '']''" if "x \<in> set xs \<union> set ys" for x
      using dumps_start[OF assms(1) f[OF that]] by blast
  qed (use IH f in \<open>blast, simp\<close>)
  then show ?thesis by simp
qed

lemma dict_split:
  assumes "fl_ok fl F" and IH: "\<And>k x w r q. (k, x) \<in> set d \<Longrightarrow> json_dumps fl x @ r = json_dumps fl w @ q \<Longrightarrow> closing r \<Longrightarrow> closing q \<Longrightarrow>
      floats_in F x \<Longrightarrow> floats_in F w \<Longrightarrow> order_keys x = order_keys w \<and> r = q"
    and eq: "json_dumps fl (PDict d) @ r = json_dumps fl (PDict d') @ q" and "floats_in F (PDict d)" and "floats_in F (PDict d')"
  shows "order_keys (PDict d) = order_keys (PDict d') \<and> r = q"
proof -
  let ?T = "json_member \<circ> map_prod id (json_dumps fl)"
  have e: "join_with '','' (map ?T (sort_key fst d)) @ CHR ''}'' # r = join_with '','' (map ?T (sort_key fst d')) @ CHR ''}'' # q"
    using eq unfolding dict_dumps by simp
  have f: "floats_in F x" if "(k, x) \<in> set d \<union> set d'" for k x using assms(4,5) that by (force simp: list_all_iff)
  have "map (map_prod id order_keys) (sort_key fst d) = map (map_prod id order_keys) (sort_key fst d') \<and> r = q"
  proof (rule items_split[OF _ _ _ e])
    fix x y r q
    assume x: "x \<in> set (sort_key fst d)" and y: "y \<in> set (sort_key fst d')" and t: "?T x @ r = ?T y @ q" and c: "closing r" "closing q"
    obtain k v k' u where xy: "x = (k, v)" "y = (k', u)" by fastforce
    from member_split[of "json_dumps fl" k v r k' u q] t have s: "k = k'" "json_dumps fl v @ r = json_dumps fl u @ q" by (simp_all add: xy)
    have "(k, v) \<in> set d" "(k', u) \<in> set d'" using x y xy by simp_all
    then have "order_keys v = order_keys u \<and> r = q" using IH[OF _ s(2) c] f by blast
    then show "map_prod id order_keys x = map_prod id order_keys y \<and> r = q" using s(1) xy by simp
  next
    show "?T x \<noteq> [] \<and> hd (?T x) \<noteq> CHR ''}''" for x by (cases x) (simp add: json_member_def json_string_def)
  qed simp
  then show ?thesis unfolding dict_order by simp
qed

lemma dumps_split:
  assumes "fl_ok fl F"
  shows "json_dumps fl v @ r = json_dumps fl w @ q \<Longrightarrow> closing r \<Longrightarrow> closing q \<Longrightarrow> floats_in F v \<Longrightarrow> floats_in F w \<Longrightarrow> order_keys v = order_keys w \<and> r = q"
proof (induction v arbitrary: w r q)
  case PNone show ?case by (rule scalar_split[OF assms _ PNone]) simp
next
  case (PBool b) show ?case by (rule scalar_split[OF assms _ PBool]) simp
next
  case (PInt i) show ?case by (rule scalar_split[OF assms _ PInt]) simp
next
  case (PFloat x) show ?case by (rule scalar_split[OF assms _ PFloat]) simp
next
  case (PStr s)
  show ?case
  proof (cases "scalar w")
    case True
    show ?thesis using scalar_split[OF assms True PStr(1)[symmetric] PStr(3,2,5,4)] by simp
  next
    case False
    then obtain u where "w = PStr u" using PStr(1) by (cases w) (simp_all add: json_string_def)
    then show ?thesis using PStr(1) json_string_split[of s r u q] by simp
  qed
next
  case (PList xs)
  show ?case
  proof (cases "scalar w")
    case True
    show ?thesis using scalar_split[OF assms True PList(2)[symmetric] PList(4,3,6,5)] by simp
  next
    case False
    then obtain ys where w: "w = PList ys" using PList(2) by (cases w) (simp_all add: json_string_def)
    show ?thesis unfolding w by (rule list_split[OF assms PList(1) PList(2,5,6)[unfolded w]])
  qed
next
  case (PDict d)
  show ?case
  proof (cases "scalar w")
    case True
    show ?thesis using scalar_split[OF assms True PDict(2)[symmetric] PDict(4,3,6,5)] by simp
  next
    case False
    then obtain d' where w: "w = PDict d'" using PDict(2) by (cases w) (simp_all add: json_string_def)
    have IH: "(k, x) \<in> set d \<Longrightarrow> json_dumps fl x @ r = json_dumps fl w @ q \<Longrightarrow> closing r \<Longrightarrow> closing q \<Longrightarrow> floats_in F x \<Longrightarrow> floats_in F w \<Longrightarrow>
        order_keys x = order_keys w \<and> r = q" for k x w r q
      by (rule PDict(1)[of "(k, x)" x]; (assumption | simp only: prod_set_simps singletonI)?)
    show ?thesis unfolding w by (rule dict_split[OF assms IH PDict(2,5,6)[unfolded w]])
  qed
qed


lemma b64url_inj: "b64url_encode x = b64url_encode y \<longleftrightarrow> x = y"
  by (metis b64url_roundtrip sum.inject(2))

lemma canonical_iff:
  assumes "fl_ok fl F" and "floats_in F v" and "floats_in F w"
  shows "jcs_canonicalize fl v = jcs_canonicalize fl w \<longleftrightarrow> order_keys v = order_keys w"
proof
  assume "order_keys v = order_keys w"
  then show "jcs_canonicalize fl v = jcs_canonicalize fl w" unfolding jcs_canonicalize_def by (metis dumps_ordered)
next
  assume "jcs_canonicalize fl v = jcs_canonicalize fl w"
  then have "json_dumps fl v @ [] = json_dumps fl w @ []" by (simp add: jcs_canonicalize_def)
  from dumps_split[OF assms(1) this _ _ assms(2,3)] show "order_keys v = order_keys w" by (simp add: closing_def)
qed

section \<open>Properties\<close>


text \<open>
  Equal dictionaries have equal hashes: the order in which the items were inserted does not matter.
\<close>
theorem hash_of_items:
  assumes "mset d = mset d'" and "distinct (map fst d)"
  shows "compute_hash sha fl (PDict d) = compute_hash sha fl (PDict d')"
proof -
  have "sort_key fst d = sort_key fst d'" by (rule sort_items_unique[OF assms])
  then show ?thesis by (simp only: compute_hash_def jcs_canonicalize_def dict_dumps)
qed

text \<open>The same for the hash, when it does not collide on the two texts.\<close>

lemma hash_iff:
  assumes "fl_ok fl F" and "floats_in F v" and "floats_in F w" and "inj_on sha {encode (jcs_canonicalize fl v), encode (jcs_canonicalize fl w)}"
  shows "compute_hash sha fl v = compute_hash sha fl w \<longleftrightarrow> order_keys v = order_keys w"
proof -
  have "compute_hash sha fl v = compute_hash sha fl w \<longleftrightarrow> jcs_canonicalize fl v = jcs_canonicalize fl w"
    using assms(4) by (auto simp: compute_hash_def b64url_inj encode_inj dest: inj_onD)
  also have "\<dots> \<longleftrightarrow> order_keys v = order_keys w" by (rule canonical_iff[OF assms(1-3)])
  finally show ?thesis .
qed

section \<open>Examples\<close>

definition example_float :: "real \<Rightarrow> string" where
  "example_float r = show_int \<lfloor>r\<rfloor> @ ''.0''"

lemma example_float_ok: "fl_ok example_float (range of_int)"
proof -
  have "inj_on example_float (range of_int)"
    by (rule inj_onI) (auto simp: example_float_def dest: show_int_inj)
  moreover have "set (example_float r) \<subseteq> number_chars" for r
  proof -
    have "insert CHR ''-'' digits \<subseteq> number_chars" by (simp add: digits_def number_chars_def)
    moreover have "set ''.0'' \<subseteq> number_chars" by (simp add: number_chars_def)
    ultimately show ?thesis using show_int_chars[of "\<lfloor>r\<rfloor>"] unfolding example_float_def set_append by blast
  qed
  ultimately show ?thesis by (simp add: fl_ok_def example_float_def)
qed


theorem hash_of_items_witness:
  "compute_hash id example_float (PDict [(''b'', PNone), (''a'', PNone)]) = compute_hash id example_float (PDict [(''a'', PNone), (''b'', PNone)])"
  by (rule hash_of_items) simp_all

end
