(* ===== verification/Mandates.thy ===== *)
theory Mandates
  imports CanonicalJson DidVerifier
begin

text \<open>
  Mandates and receipts of the payment protocol (\<open>ap2/mandate.py\<close>, \<open>cart_mandate.py\<close>, \<open>payment_mandate.py\<close>,
  \<open>credential_mandate.py\<close>, \<open>models.py\<close>): building and validating them, and the chain of hashes from the cart to the receipt.
  SHA-256, the text of floats and \<open>PyJWT\<close> are the record \<open>mandlib\<close>; times and random ids are arguments.
\<close>

section \<open>Mandates\<close>

record decode_options =
  dc_exp :: bool
  dc_iat :: bool
  dc_nbf :: bool
  dc_aud :: bool
  dc_audience :: "string option"

record mandlib =
  ml_sha :: "bytes \<Rightarrow> bytes"
  ml_float :: "real \<Rightarrow> string"
  ml_encode :: "string \<Rightarrow> string \<Rightarrow> pyobj \<Rightarrow> pyobj \<Rightarrow> string result"
  ml_decode :: "string \<Rightarrow> string \<Rightarrow> decode_options \<Rightarrow> real \<Rightarrow> pyval \<Rightarrow> pyobj result"

abbreviation ml_hash :: "mandlib \<Rightarrow> pyval \<Rightarrow> string" where
  "ml_hash ml \<equiv> compute_hash (ml_sha ml) (ml_float ml)"

record signer =
  sn_did :: string
  sn_kid :: string
  sn_key :: string
  sn_alg :: string

definition mandate_payload :: "real \<Rightarrow> string \<Rightarrow> string \<Rightarrow> string \<Rightarrow> string option \<Rightarrow> int \<Rightarrow> string \<Rightarrow> string \<Rightarrow> pyobj" where
  "mandate_payload now jti iss sub aud ttl field hash =
     (let p = dset field (PStr hash) [(''iss'', PStr iss), (''sub'', PStr sub), (''iat'', PInt (trunc now)), (''exp'', PInt (trunc now + ttl)), (''jti'', PStr jti)]
      in case aud of Some a \<Rightarrow> dset ''aud'' (PStr a) p | None \<Rightarrow> p)"

definition build_mandate :: "mandlib \<Rightarrow> real \<Rightarrow> string \<Rightarrow> pyval \<Rightarrow> pyobj \<Rightarrow> string \<Rightarrow> string \<Rightarrow> string option \<Rightarrow> string \<Rightarrow> string \<Rightarrow> int \<Rightarrow> string \<Rightarrow> pyobj result" where
  "build_mandate ml now jti contents headers iss sub aud key alg ttl field =
     bindE (ml_encode ml key alg headers (mandate_payload now jti iss sub aud ttl field (ml_hash ml contents))) (\<lambda>token.
     Inr [(''contents'', contents), (''auth'', PStr token)])"

text \<open>\<open>expected_audience\<close> counts when it is neither \<open>None\<close> nor empty.\<close>

definition wanted :: "string option \<Rightarrow> string option" where
  "wanted audience = (if audience = Some [] then None else audience)"

definition mandate_options :: "string option \<Rightarrow> bool \<Rightarrow> decode_options" where
  "mandate_options audience verify_time =
     \<lparr>dc_exp = verify_time, dc_iat = verify_time, dc_nbf = verify_time, dc_aud = (wanted audience \<noteq> None), dc_audience = wanted audience\<rparr>"

definition validate_mandate :: "mandlib \<Rightarrow> real \<Rightarrow> pyobj \<Rightarrow> string \<Rightarrow> string \<Rightarrow> string option \<Rightarrow> bool \<Rightarrow> string \<Rightarrow> bool" where
  "validate_mandate ml now mandate key alg audience verify_time field =
     (let contents = oget mandate ''contents''; auth = oget mandate ''auth'' in
      if contents = PNone \<or> auth = PNone then False
      else (case ml_decode ml key alg (mandate_options audience verify_time) now auth of
          Inl e \<Rightarrow> False
        | Inr decoded \<Rightarrow> (case dget decoded field of
            None \<Rightarrow> False
          | Some h \<Rightarrow> h = PStr (ml_hash ml contents))))"

section \<open>Signed models\<close>

text \<open>
  \<open>CartMandate\<close>, \<open>PaymentMandate\<close>, \<open>PaymentReceipt\<close> and \<open>FulfillmentReceipt\<close> have the same two fields: a dictionary and
  the signature, a text; \<open>model_validate\<close> refuses anything else.
\<close>

record signed =
  sg_contents :: pyobj
  sg_auth :: string

definition model_signed :: "pyval \<Rightarrow> pyval \<Rightarrow> signed result" where
  "model_signed c a = (case (c, a) of
      (PDict d, PStr t) \<Rightarrow> Inr \<lparr>sg_contents = d, sg_auth = t\<rparr>
    | _ \<Rightarrow> Inl (ValueError ''ValidationError''))"

definition sign_model :: "mandlib \<Rightarrow> real \<Rightarrow> string \<Rightarrow> pyval \<Rightarrow> string \<Rightarrow> signer \<Rightarrow> int \<Rightarrow> string \<Rightarrow> signed result" where
  "sign_model ml now jti contents aud sn ttl field =
     bindE (build_mandate ml now jti contents [(''alg'', PStr (sn_alg sn)), (''kid'', PStr (sn_kid sn)), (''typ'', PStr ''JWT'')]
        (sn_did sn) (sn_did sn) (Some aud) (sn_key sn) (sn_alg sn) ttl field) (\<lambda>m. model_signed (oget m ''contents'') (oget m ''auth''))"

datatype mandate_arg =
    MModel signed
  | MDict pyobj

definition as_mandate :: "pyval \<Rightarrow> pyval \<Rightarrow> pyobj" where
  "as_mandate contents auth = [(''contents'', contents), (''auth'', auth)]"

section \<open>Cart mandates\<close>

definition build_cart_mandate :: "mandlib \<Rightarrow> real \<Rightarrow> string \<Rightarrow> pyobj \<Rightarrow> string \<Rightarrow> signer \<Rightarrow> int \<Rightarrow> signed result" where
  "build_cart_mandate ml now jti contents shopper merchant ttl = sign_model ml now jti (PDict contents) shopper merchant ttl ''cart_hash''"

definition validate_cart_mandate :: "mandlib \<Rightarrow> real \<Rightarrow> mandate_arg \<Rightarrow> string \<Rightarrow> string \<Rightarrow> string \<Rightarrow> bool result" where
  "validate_cart_mandate ml now arg key alg shopper =
     bindE (case arg of
         MDict d \<Rightarrow> bindE (oindex d ''contents'') (\<lambda>c. bindE (oindex d ''merchant_authorization'') (\<lambda>a. Inr (as_mandate c a)))
       | MModel s \<Rightarrow> Inr (as_mandate (PDict (sg_contents s)) (PStr (sg_auth s)))) (\<lambda>m.
     Inr (validate_mandate ml now m key alg (Some shopper) True ''cart_hash''))"

section \<open>Payment mandates\<close>

definition build_payment_mandate :: "mandlib \<Rightarrow> real \<Rightarrow> string \<Rightarrow> pyobj \<Rightarrow> string \<Rightarrow> signer \<Rightarrow> int \<Rightarrow> signed result" where
  "build_payment_mandate ml now jti contents merchant shopper ttl =
     (if \<not> truthy (oget contents ''cart_hash'') then Inl (ValueError ''contents[cart_hash] must be set to maintain the hash chain'')
      else sign_model ml now jti (PDict contents) merchant shopper ttl ''pmt_hash'')"

definition validate_payment_mandate :: "mandlib \<Rightarrow> real \<Rightarrow> mandate_arg \<Rightarrow> string \<Rightarrow> string \<Rightarrow> string \<Rightarrow> string \<Rightarrow> bool result" where
  "validate_payment_mandate ml now arg key alg merchant cart_hash =
     bindE (case arg of
         MDict d \<Rightarrow> bindE (oindex d ''payment_mandate_contents'') (\<lambda>c. bindE (oindex d ''user_authorization'') (\<lambda>a.
            bindE (pget c ''cart_hash'' PNone) (\<lambda>h. Inr (as_mandate c a, h))))
       | MModel s \<Rightarrow> Inr (as_mandate (PDict (sg_contents s)) (PStr (sg_auth s)), oget (sg_contents s) ''cart_hash'')) (\<lambda>(m, h).
     Inr (validate_mandate ml now m key alg (Some merchant) True ''pmt_hash'' \<and> h = PStr cart_hash))"

definition payment_mandate_id :: "signed \<Rightarrow> pyval" where
  "payment_mandate_id s = dgetd (sg_contents s) ''payment_mandate_id'' (PStr '''')"


section \<open>Models of the receipts\<close>

text \<open>\<open>model_dump(exclude_none=True)\<close>: the fields in their order, those that are \<open>None\<close> left out.  An enumeration is the text of its value.\<close>

definition opt_member :: "string \<Rightarrow> ('a \<Rightarrow> pyval) \<Rightarrow> 'a option \<Rightarrow> pyobj" where
  "opt_member k f x = (case x of None \<Rightarrow> [] | Some v \<Rightarrow> [(k, f v)])"

record money =
  mo_currency :: string
  mo_value :: real

definition money_dump :: "money \<Rightarrow> pyval" where
  "money_dump m = PDict [(''currency'', PStr (mo_currency m)), (''value'', PFloat (mo_value m))]"

record display_item =
  di_id :: string
  di_label :: string
  di_quantity :: int
  di_amount :: money
  di_options :: "pyobj option"
  di_pending :: "bool option"
  di_remark :: "string option"

definition display_item_dump :: "display_item \<Rightarrow> pyval" where
  "display_item_dump i = PDict ([(''id'', PStr (di_id i)), (''label'', PStr (di_label i)), (''quantity'', PInt (di_quantity i)), (''amount'', money_dump (di_amount i))] @
     opt_member ''options'' PDict (di_options i) @ opt_member ''pending'' PBool (di_pending i) @ opt_member ''remark'' PStr (di_remark i))"

record shipping_info =
  si_carrier :: string
  si_tracking :: string
  si_eta :: string

definition shipping_info_dump :: "shipping_info \<Rightarrow> pyval" where
  "shipping_info_dump s = PDict [(''carrier'', PStr (si_carrier s)), (''tracking_number'', PStr (si_tracking s)), (''delivered_eta'', PStr (si_eta s))]"

record payment_receipt =
  pr_id :: string
  pr_timestamp :: string
  pr_mandate_id :: string
  pr_provider :: string
  pr_status :: string
  pr_transaction :: string
  pr_trade_no :: string
  pr_paid_at :: string
  pr_amount :: money
  pr_pmt_hash :: string

definition payment_receipt_dump :: "payment_receipt \<Rightarrow> pyobj" where
  "payment_receipt_dump r = [(''credential_type'', PStr ''PaymentReceipt''), (''version'', PInt 1), (''id'', PStr (pr_id r)), (''timestamp'', PStr (pr_timestamp r)),
     (''payment_mandate_id'', PStr (pr_mandate_id r)), (''provider'', PStr (pr_provider r)), (''status'', PStr (pr_status r)),
     (''transaction_id'', PStr (pr_transaction r)), (''out_trade_no'', PStr (pr_trade_no r)), (''paid_at'', PStr (pr_paid_at r)),
     (''amount'', money_dump (pr_amount r)), (''pmt_hash'', PStr (pr_pmt_hash r))]"

record fulfillment_receipt =
  fr_id :: string
  fr_timestamp :: string
  fr_order :: string
  fr_items :: "display_item list"
  fr_at :: string
  fr_shipping :: "shipping_info option"
  fr_pmt_hash :: string
  fr_metadata :: "pyobj option"

definition fulfillment_receipt_dump :: "fulfillment_receipt \<Rightarrow> pyobj" where
  "fulfillment_receipt_dump r = [(''credential_type'', PStr ''FulfillmentReceipt''), (''version'', PInt 1), (''id'', PStr (fr_id r)), (''timestamp'', PStr (fr_timestamp r)),
     (''order_id'', PStr (fr_order r)), (''items'', PList (map display_item_dump (fr_items r))), (''fulfilled_at'', PStr (fr_at r))] @
     opt_member ''shipping'' shipping_info_dump (fr_shipping r) @ [(''pmt_hash'', PStr (fr_pmt_hash r))] @ opt_member ''metadata'' PDict (fr_metadata r)"

section \<open>Receipts\<close>

datatype credential =
    PaymentReceipt signed
  | FulfillmentReceipt signed
  | OtherCredential

text \<open>\<open>None\<close> stands for contents of any other class.\<close>

definition build_payment_receipt :: "mandlib \<Rightarrow> real \<Rightarrow> string \<Rightarrow> payment_receipt option \<Rightarrow> string \<Rightarrow> string \<Rightarrow> signer \<Rightarrow> int \<Rightarrow> credential result" where
  "build_payment_receipt ml now jti contents pmt_hash shopper merchant ttl = (case contents of
      None \<Rightarrow> Inl TypeError
    | Some r \<Rightarrow> bindE (sign_model ml now jti (PDict (payment_receipt_dump (r\<lparr>pr_pmt_hash := pmt_hash\<rparr>))) shopper merchant ttl ''cred_hash'') (\<lambda>s. Inr (PaymentReceipt s)))"

definition build_fulfillment_receipt :: "mandlib \<Rightarrow> real \<Rightarrow> string \<Rightarrow> fulfillment_receipt option \<Rightarrow> string \<Rightarrow> string \<Rightarrow> signer \<Rightarrow> int \<Rightarrow> credential result" where
  "build_fulfillment_receipt ml now jti contents pmt_hash shopper merchant ttl = (case contents of
      None \<Rightarrow> Inl TypeError
    | Some r \<Rightarrow> bindE (sign_model ml now jti (PDict (fulfillment_receipt_dump (r\<lparr>fr_pmt_hash := pmt_hash\<rparr>))) shopper merchant ttl ''cred_hash'') (\<lambda>s. Inr (FulfillmentReceipt s)))"

text \<open>The token is decoded twice, the second time with the default options of the library.\<close>

definition check_credential :: "mandlib \<Rightarrow> real \<Rightarrow> real \<Rightarrow> string \<Rightarrow> signed \<Rightarrow> string \<Rightarrow> string \<Rightarrow> string \<Rightarrow> string \<Rightarrow> bool result" where
  "check_credential ml now now' kind s shopper key alg pmt_hash =
     (if \<not> validate_mandate ml now (as_mandate (PDict (sg_contents s)) (PStr (sg_auth s))) key alg (Some shopper) True ''cred_hash'' then Inr False
      else bindE (ml_decode ml key alg \<lparr>dc_exp = True, dc_iat = True, dc_nbf = True, dc_aud = True, dc_audience = Some shopper\<rparr> now' (PStr (sg_auth s))) (\<lambda>payload.
        if oget payload ''credential_type'' \<noteq> PStr kind then Inr False
        else Inr (oget (sg_contents s) ''pmt_hash'' = PStr pmt_hash)))"

definition validate_credential :: "mandlib \<Rightarrow> real \<Rightarrow> real \<Rightarrow> credential \<Rightarrow> string \<Rightarrow> string \<Rightarrow> string \<Rightarrow> string \<Rightarrow> bool result" where
  "validate_credential ml now now' c shopper key alg pmt_hash = (case c of
      PaymentReceipt s \<Rightarrow> check_credential ml now now' ''PaymentReceipt'' s shopper key alg pmt_hash
    | FulfillmentReceipt s \<Rightarrow> check_credential ml now now' ''FulfillmentReceipt'' s shopper key alg pmt_hash
    | OtherCredential \<Rightarrow> Inl TypeError)"

section \<open>Tokens\<close>

text \<open>
  What PyJWT documents: the registered claims are checked, and what was signed with a private key is what decoding with the
  public key returns.
\<close>

definition claims_checked :: "decode_options \<Rightarrow> real \<Rightarrow> pyobj \<Rightarrow> pyobj result" where
  "claims_checked opts now p =
     (if dc_iat opts \<and> (case oget p ''iat'' of PInt i \<Rightarrow> of_int i > now | _ \<Rightarrow> False) then Inl InvalidTokenError
      else if dc_exp opts \<and> (case oget p ''exp'' of PInt e \<Rightarrow> of_int e \<le> now | _ \<Rightarrow> False) then Inl ExpiredSignatureError
      else if dc_aud opts \<and> (case dc_audience opts of None \<Rightarrow> din ''aud'' p | Some a \<Rightarrow> oget p ''aud'' \<noteq> PStr a) then Inl InvalidTokenError
      else Inr p)"

definition plain_claim :: "pyval \<Rightarrow> bool" where
  "plain_claim v = (case v of PStr s \<Rightarrow> True | PInt i \<Rightarrow> True | _ \<Rightarrow> False)"

definition jwt_pair :: "mandlib \<Rightarrow> string \<Rightarrow> string \<Rightarrow> string \<Rightarrow> bool" where
  "jwt_pair ml priv pub alg \<longleftrightarrow> (\<forall>headers p. list_all (plain_claim \<circ> snd) p \<longrightarrow>
     (\<exists>t. ml_encode ml priv alg headers p = Inr t \<and> (\<forall>opts now. ml_decode ml pub alg opts now (PStr t) = claims_checked opts now p)))"

definition registered :: "string list" where
  "registered = [''iss'', ''sub'', ''aud'', ''iat'', ''exp'', ''nbf'', ''jti'', ''credential_type'']"

lemma payload_gets:
  assumes "field \<notin> set registered"
  shows "list_all (plain_claim \<circ> snd) (mandate_payload now jti iss sub aud ttl field h)"
    and "dget (mandate_payload now jti iss sub aud ttl field h) field = Some (PStr h)"
    and "oget (mandate_payload now jti iss sub aud ttl field h) ''iat'' = PInt (trunc now)"
    and "oget (mandate_payload now jti iss sub aud ttl field h) ''exp'' = PInt (trunc now + ttl)"
    and "oget (mandate_payload now jti iss sub aud ttl field h) ''aud'' = (case aud of Some a \<Rightarrow> PStr a | None \<Rightarrow> PNone)"
    and "din ''aud'' (mandate_payload now jti iss sub aud ttl field h) = (aud \<noteq> None)"
    and "oget (mandate_payload now jti iss sub aud ttl field h) ''credential_type'' = PNone"
proof -
  have n: "field \<noteq> k" "k \<noteq> field" if "k \<in> {''iss'', ''sub'', ''aud'', ''iat'', ''exp'', ''jti'', ''credential_type''}" for k
    using assms that by (auto simp: registered_def)
  have p: "mandate_payload now jti iss sub aud ttl field h =
     [(''iss'', PStr iss), (''sub'', PStr sub), (''iat'', PInt (trunc now)), (''exp'', PInt (trunc now + ttl)), (''jti'', PStr jti), (field, PStr h)] @
     (case aud of Some a \<Rightarrow> [(''aud'', PStr a)] | None \<Rightarrow> [])"
    using n by (simp add: mandate_payload_def split: option.split)
  show "list_all (plain_claim \<circ> snd) (mandate_payload now jti iss sub aud ttl field h)"
    "dget (mandate_payload now jti iss sub aud ttl field h) field = Some (PStr h)"
    "oget (mandate_payload now jti iss sub aud ttl field h) ''iat'' = PInt (trunc now)"
    "oget (mandate_payload now jti iss sub aud ttl field h) ''exp'' = PInt (trunc now + ttl)"
    "oget (mandate_payload now jti iss sub aud ttl field h) ''aud'' = (case aud of Some a \<Rightarrow> PStr a | None \<Rightarrow> PNone)"
    "din ''aud'' (mandate_payload now jti iss sub aud ttl field h) = (aud \<noteq> None)"
    "oget (mandate_payload now jti iss sub aud ttl field h) ''credential_type'' = PNone"
    unfolding p using n by (cases aud; simp add: plain_claim_def oget_def dgetd_def din_def)+
qed


lemma signed_mandate:
  assumes "jwt_pair ml priv pub alg" and "field \<notin> set registered"
    and "build_mandate ml t jti contents headers iss sub aud priv alg ttl field = Inr m"
  obtains token where "m = as_mandate contents (PStr token)"
    and "\<And>opts now. ml_decode ml pub alg opts now (PStr token) = claims_checked opts now (mandate_payload t jti iss sub aud ttl field (ml_hash ml contents))"
proof -
  obtain token where e: "ml_encode ml priv alg headers (mandate_payload t jti iss sub aud ttl field (ml_hash ml contents)) = Inr token"
    and m: "m = as_mandate contents (PStr token)"
    using assms(3) by (auto simp: build_mandate_def as_mandate_def bindE_Inr_iff)
  have "ml_decode ml pub alg opts now (PStr token) = claims_checked opts now (mandate_payload t jti iss sub aud ttl field (ml_hash ml contents))" for opts now
    using assms(1) payload_gets(1)[OF assms(2)] e unfolding jwt_pair_def by (metis sum.inject(2))
  then show thesis using that m by blast
qed

text \<open>When a token of a mandate is accepted.\<close>

definition in_time :: "real \<Rightarrow> int \<Rightarrow> real \<Rightarrow> bool" where
  "in_time t ttl now \<longleftrightarrow> of_int (trunc t) \<le> now \<and> now < of_int (trunc t + ttl)"

lemma mandate_valid:
  assumes "field \<notin> set registered" and "c \<noteq> PNone"
    and "\<And>opts now. ml_decode ml pub alg opts now (PStr token) = claims_checked opts now (mandate_payload t jti iss sub aud ttl field h)"
  shows "validate_mandate ml now (as_mandate c (PStr token)) pub alg audience vt field \<longleftrightarrow>
    ml_hash ml c = h \<and> (vt \<longrightarrow> in_time t ttl now) \<and> (wanted audience = None \<or> wanted audience = aud)"
proof -
  note g = payload_gets[OF assms(1)]
  have o: "oget (as_mandate c (PStr token)) ''contents'' = c" "oget (as_mandate c (PStr token)) ''auth'' = PStr token"
    by (simp_all add: as_mandate_def oget_def dgetd_def)
  show ?thesis
    unfolding validate_mandate_def Let_def o assms(3) claims_checked_def mandate_options_def
    using assms(2) g(2) by (cases vt; cases "wanted audience"; cases aud) (auto simp: g(3-6) in_time_def)
qed

lemma sign_model_valid:
  assumes "jwt_pair ml (sn_key sn) pub (sn_alg sn)" and "field \<notin> set registered" and "sign_model ml t jti (PDict c) aud sn ttl field = Inr s"
  shows "sg_contents s = c"
    and "validate_mandate ml now (as_mandate (PDict c') (PStr (sg_auth s))) pub (sn_alg sn) audience vt field \<longleftrightarrow>
      ml_hash ml (PDict c') = ml_hash ml (PDict c) \<and> (vt \<longrightarrow> in_time t ttl now) \<and> (wanted audience = None \<or> wanted audience = Some aud)"
    and "ml_decode ml pub (sn_alg sn) opts now (PStr (sg_auth s)) =
      claims_checked opts now (mandate_payload t jti (sn_did sn) (sn_did sn) (Some aud) ttl field (ml_hash ml (PDict c)))"
proof -
  obtain m where m: "build_mandate ml t jti (PDict c) [(''alg'', PStr (sn_alg sn)), (''kid'', PStr (sn_kid sn)), (''typ'', PStr ''JWT'')]
      (sn_did sn) (sn_did sn) (Some aud) (sn_key sn) (sn_alg sn) ttl field = Inr m" and s: "model_signed (oget m ''contents'') (oget m ''auth'') = Inr s"
    using assms(3) by (auto simp: sign_model_def bindE_Inr_iff)
  obtain token where t: "m = as_mandate (PDict c) (PStr token)"
    and d: "\<And>opts now. ml_decode ml pub (sn_alg sn) opts now (PStr token) =
      claims_checked opts now (mandate_payload t jti (sn_did sn) (sn_did sn) (Some aud) ttl field (ml_hash ml (PDict c)))"
    using signed_mandate[OF assms(1,2) m] by blast
  have sg: "s = \<lparr>sg_contents = c, sg_auth = token\<rparr>"
    using s by (simp add: t as_mandate_def oget_def dgetd_def model_signed_def)
  show "sg_contents s = c" by (simp add: sg)
  show "validate_mandate ml now (as_mandate (PDict c') (PStr (sg_auth s))) pub (sn_alg sn) audience vt field \<longleftrightarrow>
      ml_hash ml (PDict c') = ml_hash ml (PDict c) \<and> (vt \<longrightarrow> in_time t ttl now) \<and> (wanted audience = None \<or> wanted audience = Some aud)"
    using mandate_valid[OF assms(2) _ d] by (simp add: sg)
  show "ml_decode ml pub (sn_alg sn) opts now (PStr (sg_auth s)) =
      claims_checked opts now (mandate_payload t jti (sn_did sn) (sn_did sn) (Some aud) ttl field (ml_hash ml (PDict c)))"
    using d by (simp add: sg)
qed

section \<open>Properties\<close>


text \<open>
  The cart mandate of a merchant is accepted by the shopper it was made for, and a payment mandate over the hash of the
  cart is accepted by the merchant for this cart and for no cart with another hash.
\<close>
theorem payment_follows_cart:
  assumes "jwt_pair ml (sn_key merchant) mpub (sn_alg merchant)" and "jwt_pair ml (sn_key shopper) spub (sn_alg shopper)"
    and "build_cart_mandate ml t jti cart (sn_did shopper) merchant ttl = Inr cm"
    and "build_payment_mandate ml t' jti' pay (sn_did merchant) shopper ttl' = Inr pm"
    and "oget pay ''cart_hash'' = PStr (ml_hash ml (PDict cart))"
    and "sn_did merchant \<noteq> []" and "sn_did shopper \<noteq> []" and "in_time t ttl now" and "in_time t' ttl' now'"
  shows "validate_cart_mandate ml now (MModel cm) mpub (sn_alg merchant) (sn_did shopper) = Inr True \<and> sg_contents cm = cart \<and>
    validate_payment_mandate ml now' (MModel pm) spub (sn_alg shopper) (sn_did merchant) h = Inr (h = ml_hash ml (PDict cart))"
proof -
  have f: "''cart_hash'' \<notin> set registered" "''pmt_hash'' \<notin> set registered" by (simp_all add: registered_def)
  have w: "wanted (Some (sn_did merchant)) = Some (sn_did merchant)" "wanted (Some (sn_did shopper)) = Some (sn_did shopper)"
    using assms(6,7) by (simp_all add: wanted_def)
  have c: "sign_model ml t jti (PDict cart) (sn_did shopper) merchant ttl ''cart_hash'' = Inr cm" using assms(3) by (simp add: build_cart_mandate_def)
  have p: "sign_model ml t' jti' (PDict pay) (sn_did merchant) shopper ttl' ''pmt_hash'' = Inr pm" using assms(4) by (simp add: build_payment_mandate_def split: if_splits)
  note cv = sign_model_valid[OF assms(1) f(1) c]
  note pv = sign_model_valid[OF assms(2) f(2) p]
  show ?thesis
    using assms(5,8,9) cv(1) pv(1) by (auto simp: validate_cart_mandate_def validate_payment_mandate_def cv(2) pv(2) w)
qed

text \<open>
  No receipt that the library builds is ever accepted by its own validation: the type of the credential is looked up
  in the claims of the token, which do not hold it.
\<close>
theorem receipts_never_validate:
  assumes "jwt_pair ml (sn_key merchant) pub (sn_alg merchant)"
    and "build_payment_receipt ml t jti rc hash shopper merchant ttl = Inr c \<or> build_fulfillment_receipt ml t jti fc hash shopper merchant ttl = Inr c"
  shows "validate_credential ml now now' c who pub (sn_alg merchant) hash' \<noteq> Inr True \<and>
    (shopper \<noteq> [] \<and> in_time t ttl now \<and> in_time t ttl now' \<longrightarrow> validate_credential ml now now' c shopper pub (sn_alg merchant) hash = Inr False)"
proof -
  have f: "''cred_hash'' \<notin> set registered" by (simp add: registered_def)
  note g = payload_gets[OF f]
  have k: "check_credential ml now now' kind s who pub (sn_alg merchant) hash' \<noteq> Inr True"
    "shopper \<noteq> [] \<Longrightarrow> in_time t ttl now \<Longrightarrow> in_time t ttl now' \<Longrightarrow> check_credential ml now now' kind s shopper pub (sn_alg merchant) hash = Inr False"
    if "sign_model ml t jti (PDict d) shopper merchant ttl ''cred_hash'' = Inr s" for kind s d
  proof -
    note v = sign_model_valid[OF assms(1) f that]
    show "check_credential ml now now' kind s who pub (sn_alg merchant) hash' \<noteq> Inr True"
      by (auto simp: check_credential_def v(3) claims_checked_def g(7) bindE_Inr_iff split: if_splits)
    show "shopper \<noteq> [] \<Longrightarrow> in_time t ttl now \<Longrightarrow> in_time t ttl now' \<Longrightarrow> check_credential ml now now' kind s shopper pub (sn_alg merchant) hash = Inr False"
      by (simp add: check_credential_def v claims_checked_def g in_time_def wanted_def)
  qed
  obtain kind s d where s: "sign_model ml t jti (PDict d) shopper merchant ttl ''cred_hash'' = Inr s" and c: "c = PaymentReceipt s \<or> c = FulfillmentReceipt s"
    using assms(2) by (auto simp: build_payment_receipt_def build_fulfillment_receipt_def bindE_Inr_iff split: option.splits)
  show ?thesis using c k[OF s] by (auto simp: validate_credential_def)
qed


section \<open>A library for examples\<close>

text \<open>Tokens that spell out their claims: every part preceded by its length.\<close>

definition pack :: "string list \<Rightarrow> string" where
  "pack ss = concat (map (\<lambda>s. unary (int (length s)) @ s) ss)"

fun unpack :: "nat \<Rightarrow> string \<Rightarrow> string list" where
  "unpack 0 s = []"
| "unpack (Suc f) s = (if s = [] then [] else case read_unary s of (n, r) \<Rightarrow> take (nat n) r # unpack f (drop (nat n) r))"

lemma unpack_pack: "length ss \<le> f \<Longrightarrow> unpack f (pack ss) = ss"
proof (induction ss arbitrary: f)
  case Nil
  then show ?case by (cases f) (simp_all add: pack_def)
next
  case (Cons s ss)
  then obtain g where f: "f = Suc g" "length ss \<le> g" by (cases f) simp_all
  have "unary (int (length s)) \<noteq> []" by (simp add: unary_def)
  then show ?case using Cons.IH[OF f(2)] unfolding f(1) by (simp add: pack_def read_unary)
qed

lemma pack_length: "length ss \<le> length (pack ss)"
  by (induction ss) (simp_all add: pack_def unary_def)

definition claim_text :: "pyval \<Rightarrow> string" where
  "claim_text v = (case v of PStr s \<Rightarrow> CHR ''s'' # s | PInt i \<Rightarrow> (if i < 0 then CHR ''m'' # unary (- i) else CHR ''i'' # unary i) | _ \<Rightarrow> [])"

definition read_claim :: "string \<Rightarrow> pyval" where
  "read_claim t = (case t of c # s \<Rightarrow> if c = CHR ''s'' then PStr s else if c = CHR ''i'' then PInt (fst (read_unary s)) else PInt (- fst (read_unary s)) | [] \<Rightarrow> PNone)"

lemma read_claim: "plain_claim v \<Longrightarrow> read_claim (claim_text v) = v"
  using read_unary[of _ "[]"] by (cases v) (simp_all add: plain_claim_def read_claim_def claim_text_def)

definition payload_texts :: "pyobj \<Rightarrow> string list" where
  "payload_texts p = concat (map (\<lambda>(k, v). [k, claim_text v]) p)"

fun read_payload :: "string list \<Rightarrow> pyobj" where
  "read_payload (k # t # r) = (k, read_claim t) # read_payload r"
| "read_payload r = []"

lemma read_payload: "list_all (plain_claim \<circ> snd) p \<Longrightarrow> read_payload (payload_texts p) = p"
  by (induction p) (auto simp: payload_texts_def read_claim)

definition example_ml :: mandlib where
  "example_ml = \<lparr>ml_sha = id, ml_float = example_float,
     ml_encode = (\<lambda>k a h p. Inr (pack (payload_texts p))),
     ml_decode = (\<lambda>k a opts now v. case v of PStr t \<Rightarrow> claims_checked opts now (read_payload (unpack (length t) t)) | _ \<Rightarrow> Inl InvalidTokenError)\<rparr>"

lemma example_pair: "jwt_pair example_ml priv pub alg"
  by (simp add: jwt_pair_def example_ml_def read_payload unpack_pack pack_length)

lemma example_signs: "\<exists>s. sign_model example_ml t jti (PDict c) aud sn ttl field = Inr s"
  by (simp add: sign_model_def build_mandate_def example_ml_def model_signed_def oget_def dgetd_def)

definition example_merchant :: signer where
  "example_merchant = \<lparr>sn_did = ''did:wba:shop.example'', sn_kid = ''key-1'', sn_key = ''m'', sn_alg = ''ES256K''\<rparr>"

definition example_shopper :: signer where
  "example_shopper = \<lparr>sn_did = ''did:wba:alice.example'', sn_kid = ''key-1'', sn_key = ''s'', sn_alg = ''ES256K''\<rparr>"

lemma example_time: "in_time 0 900 1"
  by (simp add: in_time_def trunc_def)


theorem payment_follows_cart_witness:
  "\<exists>cm pm. build_cart_mandate example_ml 0 ''j'' [(''id'', PStr ''c1'')] ''did:wba:alice.example'' example_merchant 900 = Inr cm \<and>
    build_payment_mandate example_ml 0 ''k'' [(''cart_hash'', PStr (ml_hash example_ml (PDict [(''id'', PStr ''c1'')])))] ''did:wba:shop.example'' example_shopper 900 = Inr pm \<and>
    validate_cart_mandate example_ml 1 (MModel cm) ''p'' ''ES256K'' ''did:wba:alice.example'' = Inr True \<and>
    validate_payment_mandate example_ml 1 (MModel pm) ''q'' ''ES256K'' ''did:wba:shop.example'' (ml_hash example_ml (PDict [(''id'', PStr ''c1'')])) = Inr True"
proof -
  let ?cart = "[(''id'', PStr ''c1'')]"
  let ?pay = "[(''cart_hash'', PStr (ml_hash example_ml (PDict ?cart)))]"
  have ne: "ml_hash example_ml (PDict ?cart) \<noteq> []"
    by (simp add: compute_hash_def example_ml_def jcs_canonicalize_def encode_def b64url_inj[of _ "[]", simplified b64url_encode_def[of "[]"], simplified])
  obtain cm where c: "build_cart_mandate example_ml 0 ''j'' ?cart (sn_did example_shopper) example_merchant 900 = Inr cm"
    using example_signs unfolding build_cart_mandate_def by blast
  obtain pm where "sign_model example_ml 0 ''k'' (PDict ?pay) (sn_did example_merchant) example_shopper 900 ''pmt_hash'' = Inr pm" using example_signs by blast
  then have p: "build_payment_mandate example_ml 0 ''k'' ?pay (sn_did example_merchant) example_shopper 900 = Inr pm"
    using ne by (simp add: build_payment_mandate_def oget_def dgetd_def)
  have g: "oget ?pay ''cart_hash'' = PStr (ml_hash example_ml (PDict ?cart))" "sn_did example_merchant \<noteq> []" "sn_did example_shopper \<noteq> []"
    by (simp_all add: oget_def dgetd_def example_merchant_def example_shopper_def)
  from payment_follows_cart[OF example_pair example_pair c p g example_time example_time, of "''p''" "''q''" "ml_hash example_ml (PDict ?cart)"] c p
  show ?thesis by (intro exI[of _ cm] exI[of _ pm]) (simp add: example_merchant_def example_shopper_def)
qed

theorem receipts_never_validate_witness:
  "\<exists>c. build_payment_receipt example_ml 0 ''j'' (Some \<lparr>pr_id = ''r'', pr_timestamp = ''t'', pr_mandate_id = ''m'', pr_provider = ''ALIPAY'', pr_status = ''SUCCEEDED'',
      pr_transaction = ''x'', pr_trade_no = ''n'', pr_paid_at = ''t'', pr_amount = \<lparr>mo_currency = ''CNY'', mo_value = 1\<rparr>, pr_pmt_hash = ''h''\<rparr>)
      ''h'' ''did:wba:alice.example'' example_merchant 900 = Inr c \<and>
    validate_credential example_ml 1 1 c ''did:wba:alice.example'' ''p'' ''ES256K'' ''h'' = Inr False"
proof -
  let ?r = "\<lparr>pr_id = ''r'', pr_timestamp = ''t'', pr_mandate_id = ''m'', pr_provider = ''ALIPAY'', pr_status = ''SUCCEEDED'',
      pr_transaction = ''x'', pr_trade_no = ''n'', pr_paid_at = ''t'', pr_amount = \<lparr>mo_currency = ''CNY'', mo_value = 1\<rparr>, pr_pmt_hash = ''h''\<rparr>"
  obtain s where "sign_model example_ml 0 ''j'' (PDict (payment_receipt_dump (?r\<lparr>pr_pmt_hash := ''h''\<rparr>))) ''did:wba:alice.example'' example_merchant 900 ''cred_hash'' = Inr s"
    using example_signs by blast
  then have c: "build_payment_receipt example_ml 0 ''j'' (Some ?r) ''h'' ''did:wba:alice.example'' example_merchant 900 = Inr (PaymentReceipt s)"
    by (simp add: build_payment_receipt_def del: payment_receipt.update_convs)
  from receipts_never_validate[OF example_pair disjI1[OF c], of 1 1 "''did:wba:alice.example''" "''p''" "''h''"] c example_time
  show ?thesis by (intro exI[of _ "PaymentReceipt s"]) (simp add: example_merchant_def)
qed

end
