(* ===== verification/Ap2Agents.thy ===== *)
theory Ap2Agents
  imports Mandates
begin

text \<open>
  The merchant and shopper agents of the payment protocol (\<open>examples/python/ap2_examples/merchant_agent.py\<close>,
  \<open>shopper_agent.py\<close>) over the mandates: the cart response, the checks on both sides and the webhook for credentials.
  Reading a request into its model is the library's, and an argument; messages are values of \<open>ANPMessage\<close>.
\<close>

section \<open>Messages and models\<close>

record anp_message =
  am_id :: string
  am_from :: string
  am_to :: string
  am_data :: pyobj
  am_webhook :: "string option"

record address =
  ad_name :: string
  ad_phone :: string
  ad_region :: "string option"
  ad_city :: "string option"
  ad_line :: "string option"
  ad_code :: "string option"

definition address_dump :: "address \<Rightarrow> pyval" where
  "address_dump a = PDict ([(''recipient_name'', PStr (ad_name a)), (''phone'', PStr (ad_phone a))] @ opt_member ''region'' PStr (ad_region a) @
     opt_member ''city'' PStr (ad_city a) @ opt_member ''address_line'' PStr (ad_line a) @ opt_member ''postal_code'' PStr (ad_code a))"

text \<open>\<open>model_dump()\<close> keeps the fields that are \<open>None\<close>.\<close>

definition or_none :: "('a \<Rightarrow> pyval) \<Rightarrow> 'a option \<Rightarrow> pyval" where
  "or_none f x = (case x of None \<Rightarrow> PNone | Some v \<Rightarrow> f v)"

definition address_full :: "address \<Rightarrow> pyval" where
  "address_full a = PDict [(''recipient_name'', PStr (ad_name a)), (''phone'', PStr (ad_phone a)), (''region'', or_none PStr (ad_region a)),
     (''city'', or_none PStr (ad_city a)), (''address_line'', or_none PStr (ad_line a)), (''postal_code'', or_none PStr (ad_code a))]"

definition display_item_full :: "display_item \<Rightarrow> pyval" where
  "display_item_full i = PDict [(''id'', PStr (di_id i)), (''label'', PStr (di_label i)), (''quantity'', PInt (di_quantity i)), (''amount'', money_dump (di_amount i)),
     (''options'', or_none PDict (di_options i)), (''pending'', or_none PBool (di_pending i)), (''remark'', or_none PStr (di_remark i))]"

record cart_request =
  cr_id :: string
  cr_items :: "display_item list"
  cr_address :: "address option"

definition PAYMENT_PROVIDERS :: "string list" where
  "PAYMENT_PROVIDERS = [''ALIPAY'', ''WECHAT'']"

definition payment_total_dump :: "money \<Rightarrow> int option \<Rightarrow> pyval" where
  "payment_total_dump m refund = PDict ([(''label'', PStr ''Total''), (''amount'', money_dump m)] @ opt_member ''refund_period'' PInt refund)"

definition payment_method_dump :: "string \<Rightarrow> string \<Rightarrow> string \<Rightarrow> string \<Rightarrow> string \<Rightarrow> pyval" where
  "payment_method_dump supported channel qr_url trade_no expires =
     PDict [(''supported_methods'', PStr supported), (''data'', PDict [(''channel'', PStr channel), (''qr_url'', PStr qr_url), (''out_trade_no'', PStr trade_no),
       (''expires_at'', PStr expires)])]"

definition payment_details_dump :: "string \<Rightarrow> display_item list \<Rightarrow> address option \<Rightarrow> money \<Rightarrow> pyval" where
  "payment_details_dump order items addr amount =
     PDict ([(''id'', PStr order), (''displayItems'', PList (map display_item_dump items))] @ opt_member ''shipping_address'' address_dump addr @
       [(''total'', payment_total_dump amount None)])"

definition payment_options_dump :: "bool \<Rightarrow> pyval" where
  "payment_options_dump shipping = PDict [(''requestPayerName'', PBool False), (''requestPayerEmail'', PBool False), (''requestPayerPhone'', PBool False),
     (''requestShipping'', PBool shipping)]"

definition cart_contents_dump :: "string \<Rightarrow> string \<Rightarrow> pyval \<Rightarrow> pyval \<Rightarrow> pyval \<Rightarrow> pyobj" where
  "cart_contents_dump order stamp meth details options =
     [(''id'', PStr (''cart_'' @ order)), (''user_signature_required'', PBool False), (''timestamp'', PStr stamp),
      (''payment_request'', PDict [(''method_data'', PList [meth]), (''details'', details), (''options'', options)])]"

section \<open>Merchant\<close>

definition verify_cart_mandate_request :: "(pyobj \<Rightarrow> cart_request result) \<Rightarrow> signer \<Rightarrow> anp_message \<Rightarrow> pyobj result" where
  "verify_cart_mandate_request parse me rq =
     (if am_to rq \<noteq> sn_did me then Inl (ValueError ''Request not for this merchant'')
      else (case parse (am_data rq) of
          Inl e \<Rightarrow> Inl TypeError
        | Inr d \<Rightarrow> Inr [(''cart_mandate_id'', PStr (cr_id d)), (''items'', PList (map display_item_full (cr_items d))),
            (''shipping_address'', or_none address_full (cr_address d)), (''client_did'', PStr (am_from rq)), (''webhook_url'', or_none PStr (am_webhook rq))]))"

record cart_terms =
  ct_order :: string
  ct_items :: "display_item option list"
  ct_total :: "money option"
  ct_shopper :: "string option"
  ct_method :: string
  ct_channel :: string
  ct_qr_url :: string
  ct_trade_no :: string
  ct_address :: "address option"
  ct_ttl :: int

definition cart_contents :: "string \<Rightarrow> string \<Rightarrow> cart_terms \<Rightarrow> display_item list \<Rightarrow> money \<Rightarrow> pyobj" where
  "cart_contents stamp expires ct items amount =
     cart_contents_dump (ct_order ct) stamp (payment_method_dump (ct_method ct) (ct_channel ct) (ct_qr_url ct) (ct_trade_no ct) expires)
       (payment_details_dump (ct_order ct) items (ct_address ct) amount) (payment_options_dump (ct_address ct \<noteq> None))"

text \<open>An item or amount of another class is \<open>None\<close>.\<close>

definition build_cart_mandate_response :: "mandlib \<Rightarrow> real \<Rightarrow> string \<Rightarrow> string \<Rightarrow> string \<Rightarrow> signer \<Rightarrow> cart_terms \<Rightarrow> anp_message result" where
  "build_cart_mandate_response ml now jti stamp expires me ct = (case (ct_shopper ct, ct_total ct) of
      (None, _) \<Rightarrow> Inl (ValueError ''shopper_did or request_from must be provided'')
    | (Some who, a) \<Rightarrow>
        if who = [] then Inl (ValueError ''shopper_did or request_from must be provided'')
        else if \<not> list_all (\<lambda>i. i \<noteq> None) (ct_items ct) then Inl TypeError
        else (case a of None \<Rightarrow> Inl TypeError | Some amount \<Rightarrow>
          if ct_channel ct \<notin> set PAYMENT_PROVIDERS then Inl (ValueError ''is not a valid PaymentProvider'')
          else bindE (build_cart_mandate ml now jti (cart_contents stamp expires ct (map the (ct_items ct)) amount) who me (ct_ttl ct)) (\<lambda>cm.
            Inr \<lparr>am_id = ''cart-response-'' @ ct_order ct, am_from = sn_did me, am_to = who,
              am_data = [(''contents'', PDict (sg_contents cm)), (''merchant_authorization'', PStr (sg_auth cm))], am_webhook = None\<rparr>)))"

definition verify_payment_mandate :: "mandlib \<Rightarrow> real \<Rightarrow> signer \<Rightarrow> anp_message \<Rightarrow> string \<Rightarrow> string \<Rightarrow> pyobj result" where
  "verify_payment_mandate ml now me rq cart_hash key =
     (if am_to rq \<noteq> sn_did me then Inl (ValueError ''Payment mandate not for this merchant'')
      else (case model_signed (oget (am_data rq) ''payment_mandate_contents'') (oget (am_data rq) ''user_authorization'') of
          Inl e \<Rightarrow> Inl TypeError
        | Inr pm \<Rightarrow> bindE (validate_payment_mandate ml now (MModel pm) key (sn_alg me) (sn_did me) cart_hash) (\<lambda>ok.
            if \<not> ok then Inl (ValueError ''PaymentMandate validation failed'')
            else Inr [(''pmt_hash'', PStr (ml_hash ml (PDict (sg_contents pm))))])))"

section \<open>Shopper\<close>

record shopper =
  sp_signer :: signer
  sp_merchant_key :: string
  sp_cart_hash :: "string option"
  sp_pmt_hash :: "string option"
  sp_auth :: bool

definition verify_cart_mandate :: "mandlib \<Rightarrow> real \<Rightarrow> mandate_arg \<Rightarrow> string \<Rightarrow> shopper \<Rightarrow> pyobj result \<times> shopper" where
  "verify_cart_mandate ml now cm key s = (case validate_cart_mandate ml now cm key (sn_alg (sp_signer s)) (sn_did (sp_signer s)) of
      Inl e \<Rightarrow> (Inl e, s)
    | Inr ok \<Rightarrow>
        if \<not> ok then (Inl (ValueError ''CartMandate validation failed''), s)
        else (case cm of
            MDict d \<Rightarrow> (Inl AttributeError, s)
          | MModel m \<Rightarrow> (let h = ml_hash ml (PDict (sg_contents m)) in (Inr [(''cart_hash'', PStr h)], s\<lparr>sp_cart_hash := Some h\<rparr>))))"

record payment_args =
  pa_mandate_id :: string
  pa_order :: string
  pa_amount :: "money result"
  pa_details :: pyobj
  pa_agent :: string
  pa_refund :: int
  pa_address :: "address option"

definition payment_response_details :: "pyobj \<Rightarrow> pyobj result" where
  "payment_response_details d = (case (oget d ''channel'', oget d ''out_trade_no'') of
      (PStr c, PStr n) \<Rightarrow> Inr ([(''channel'', PStr c), (''out_trade_no'', PStr n)] @ dfilter (\<lambda>k v. k \<noteq> ''channel'' \<and> k \<noteq> ''out_trade_no'' \<and> v \<noteq> PNone) d)
    | _ \<Rightarrow> Inl (ValueError ''ValidationError''))"

definition payment_contents :: "string \<Rightarrow> payment_args \<Rightarrow> string \<Rightarrow> pyobj result" where
  "payment_contents stamp pa cart_hash =
     bindE (pa_amount pa) (\<lambda>amount.
     bindE (payment_response_details (dfilter (\<lambda>k v. k \<noteq> ''method_name'') (pa_details pa))) (\<lambda>details.
     bindE (case dgetd (pa_details pa) ''method_name'' (PStr ''QR_CODE'') of PStr m \<Rightarrow> Inr m | _ \<Rightarrow> Inl (ValueError ''ValidationError'')) (\<lambda>meth.
     Inr [(''payment_mandate_id'', PStr (pa_mandate_id pa)), (''payment_details_id'', PStr (pa_order pa)),
          (''payment_details_total'', payment_total_dump amount (Some (pa_refund pa))),
          (''payment_response'', PDict ([(''request_id'', PStr (pa_order pa)), (''method_name'', PStr meth), (''details'', PDict details)] @
             opt_member ''shipping_address'' address_dump (pa_address pa))),
          (''merchant_agent'', PStr (pa_agent pa)), (''timestamp'', PStr stamp), (''cart_hash'', PStr cart_hash)])))"

text \<open>The library function has no parameters named \<open>user_private_key\<close>, \<open>user_did\<close> and \<open>user_kid\<close>: the call raises.\<close>

definition agent_payment_mandate :: "mandlib \<Rightarrow> string \<Rightarrow> payment_args \<Rightarrow> string \<Rightarrow> shopper \<Rightarrow> signed result \<times> shopper" where
  "agent_payment_mandate ml stamp pa cart_hash s =
     (if cart_hash = [] then (Inl (ValueError ''cart_hash is required''), s)
      else (case payment_contents stamp pa cart_hash of
          Inl e \<Rightarrow> (Inl e, s)
        | Inr c \<Rightarrow> (Inl TypeError, s\<lparr>sp_pmt_hash := Some (ml_hash ml (PDict c))\<rparr>)))"

text \<open>The contents of the mandate are a dictionary: the attribute that the message id is made of does not exist.\<close>

definition send_payment_mandate :: "signed \<Rightarrow> shopper \<Rightarrow> pyobj result" where
  "send_payment_mandate pm s =
     (if \<not> sp_auth s then Inl (RuntimeError ''DIDWbaAuthHeader is required to send payment mandates'') else Inl AttributeError)"

section \<open>Webhook\<close>

definition parse_credential :: "pyval \<Rightarrow> pyobj \<Rightarrow> credential result" where
  "parse_credential kind d =
     bindE (if kind = PStr ''PaymentReceipt'' then Inr PaymentReceipt else if kind = PStr ''FulfillmentReceipt'' then Inr FulfillmentReceipt
       else Inl (HTTPException 400 ''Unknown credential type'')) (\<lambda>make.
     bindE (model_signed (oget d ''contents'') (oget d ''merchant_authorization'')) (\<lambda>s. Inr (make s)))"

text \<open>A body that is no JSON is \<open>None\<close>.  What is left after the validation: \<open>credential.contents\<close> is a dictionary and has no \<open>model_dump\<close>.  The result of the validation is not looked at.\<close>

definition credential_steps :: "mandlib \<Rightarrow> real \<Rightarrow> real \<Rightarrow> shopper \<Rightarrow> pyval option \<Rightarrow> pyobj result" where
  "credential_steps ml now now' s body =
     bindE (case body of None \<Rightarrow> Inl JSONDecodeError | Some b \<Rightarrow> Inr b) (\<lambda>b.
     bindE (pget b ''data'' (PDict [])) (\<lambda>d.
     bindE (pget d ''type'' PNone) (\<lambda>kind.
     bindE (parse_credential kind (case d of PDict x \<Rightarrow> x | _ \<Rightarrow> [])) (\<lambda>c.
     case (sp_cart_hash s, sp_pmt_hash s) of
       (Some ch, Some ph) \<Rightarrow>
         if ch = [] \<or> ph = [] then Inl (HTTPException 400 ''Hash chain not complete'')
         else bindE (validate_credential ml now now' c (sn_did (sp_signer s)) (sp_merchant_key s) (sn_alg (sp_signer s)) ph) (\<lambda>_. Inl AttributeError)
     | _ \<Rightarrow> Inl (HTTPException 400 ''Hash chain not complete'')))))"

definition receive_credential :: "mandlib \<Rightarrow> real \<Rightarrow> real \<Rightarrow> shopper \<Rightarrow> pyval option \<Rightarrow> nat" where
  "receive_credential ml now now' s body = (case credential_steps ml now now' s body of
      Inr _ \<Rightarrow> 200
    | Inl (ValueError _) \<Rightarrow> 400
    | Inl JSONDecodeError \<Rightarrow> 400
    | Inl (HTTPException n _) \<Rightarrow> n
    | Inl _ \<Rightarrow> 500)"


section \<open>Properties\<close>

definition cart_message :: "anp_message \<Rightarrow> signed result" where
  "cart_message msg = model_signed (oget (am_data msg) ''contents'') (oget (am_data msg) ''merchant_authorization'')"

definition payment_message :: "signed \<Rightarrow> string \<Rightarrow> string \<Rightarrow> anp_message" where
  "payment_message pm from to = \<lparr>am_id = ''payment-mandate'', am_from = from, am_to = to,
     am_data = [(''payment_mandate_contents'', PDict (sg_contents pm)), (''user_authorization'', PStr (sg_auth pm))], am_webhook = None\<rparr>"

lemma cart_response_model:
  assumes "build_cart_mandate_response ml t jti stamp expires merchant ct = Inr msg"
  obtains items amount cm who where "build_cart_mandate ml t jti (cart_contents stamp expires ct items amount) who merchant (ct_ttl ct) = Inr cm"
    and "ct_shopper ct = Some who" and "who \<noteq> []" and "cart_message msg = Inr cm" and "am_to msg = who"
  using assms that
  by (auto simp: build_cart_mandate_response_def bindE_Inr_iff cart_message_def oget_def dgetd_def model_signed_def split: option.splits if_splits)


text \<open>
  The shopper agent cannot finish a payment: it never returns a payment mandate, cannot send one that was built without
  it, and its webhook refuses every credential.
\<close>
theorem shopper_agent_stuck:
  assumes "\<forall>key alg opts now v e. ml_decode ml key alg opts now v = Inl e \<longrightarrow> e \<in> {InvalidTokenError, ExpiredSignatureError}"
  shows "(\<exists>e. fst (agent_payment_mandate ml stamp pa cart_hash s) = Inl e) \<and> (\<exists>e. send_payment_mandate pm s = Inl e) \<and>
    receive_credential ml now now' s body \<in> {400, 500}"
proof (intro conjI)
  show "\<exists>e. fst (agent_payment_mandate ml stamp pa cart_hash s) = Inl e"
    by (simp add: agent_payment_mandate_def split: sum.split)
  show "\<exists>e. send_payment_mandate pm s = Inl e" by (simp add: send_payment_mandate_def)
  have v: "e \<in> {InvalidTokenError, ExpiredSignatureError, TypeError}" if "validate_credential ml now now' c who key alg h = Inl e" for c who key alg h e
    using that assms[rule_format] by (fastforce simp: validate_credential_def check_credential_def bindE_def split: credential.splits if_splits sum.splits)
  show "receive_credential ml now now' s body \<in> {400, 500}"
  proof (cases "credential_steps ml now now' s body")
    case (Inr x)
    then have False by (auto simp: credential_steps_def bindE_Inr_iff split: option.splits if_splits)
    then show ?thesis ..
  next
    case (Inl e)
    have parse: "e = HTTPException 400 ''Unknown credential type'' \<or> e = ValueError ''ValidationError''" if "parse_credential kind d = Inl e" for kind d e
      using that by (auto simp: parse_credential_def model_signed_def bindE_def split: sum.splits if_splits pyval.splits)
    have get: "e = AttributeError" if "pget x k y = Inl e" for x k y e using that by (cases x) simp_all
    have "e \<in> {JSONDecodeError, AttributeError, TypeError, InvalidTokenError, ExpiredSignatureError} \<or> (\<exists>x. e = ValueError x) \<or> (\<exists>x. e = HTTPException 400 x)"
      using Inl unfolding credential_steps_def bindE_def
      by (auto split: sum.splits option.splits if_splits dest!: parse get v)
    then show ?thesis using Inl by (auto simp: receive_credential_def)
  qed
qed


section \<open>Examples\<close>

definition example_state :: shopper where
  "example_state = \<lparr>sp_signer = example_shopper, sp_merchant_key = ''p'', sp_cart_hash = None, sp_pmt_hash = None, sp_auth = True\<rparr>"

definition example_terms :: cart_terms where
  "example_terms = \<lparr>ct_order = ''o1'', ct_items = [], ct_total = Some \<lparr>mo_currency = ''CNY'', mo_value = 1\<rparr>, ct_shopper = Some ''did:wba:alice.example'', ct_method = ''QR_CODE'',
     ct_channel = ''ALIPAY'', ct_qr_url = ''q'', ct_trade_no = ''n'', ct_address = None, ct_ttl = 900\<rparr>"

lemma hash_nonempty: "ml_hash example_ml v \<noteq> [] \<or> jcs_canonicalize example_float v = []"
  using b64url_inj[of _ "[]"] by (simp add: compute_hash_def example_ml_def encode_def b64url_encode_def)


theorem shopper_agent_stuck_witness:
  "receive_credential example_ml 1 1 example_state (Some (PDict [])) \<in> {400, 500}"
proof -
  have "\<forall>key alg opts now v e. ml_decode example_ml key alg opts now v = Inl e \<longrightarrow> e \<in> {InvalidTokenError, ExpiredSignatureError}"
    by (auto simp: example_ml_def claims_checked_def split: pyval.splits if_splits)
  from shopper_agent_stuck[OF this] show ?thesis by blast
qed

end
