(* ===== verification/E2eeCrypto.thy ===== *)
theory E2eeCrypto
  imports Bytes
begin

text \<open>
  The cryptographic layer of the end-to-end encryption of the protocol SDK: the AEAD wrapper
  (\<open>e2e_encryption_hpke/crypto.py\<close>), HPKE in base mode (\<open>e2e_encryption_hpke/hpke.py\<close>) and the signed proofs of message
  contents (\<open>e2e_encryption_hpke/proof.py\<close>).  The primitives of the libraries \<open>cryptography\<close> and \<open>jcs\<close>, of \<open>hmac\<close> and of
  \<open>datetime\<close> are the record \<open>prims\<close>; keys are their raw bytes, times are seconds.
\<close>

record prims =
  cr_hmac :: "bytes \<Rightarrow> bytes \<Rightarrow> bytes"
  cr_hkdf :: "nat \<Rightarrow> bytes option \<Rightarrow> bytes \<Rightarrow> bytes \<Rightarrow> bytes"
  cr_expand :: "nat \<Rightarrow> bytes \<Rightarrow> bytes \<Rightarrow> bytes"
  cr_seal :: "bytes \<Rightarrow> bytes \<Rightarrow> bytes \<Rightarrow> bytes \<Rightarrow> bytes"
  cr_open :: "bytes \<Rightarrow> bytes \<Rightarrow> bytes \<Rightarrow> bytes \<Rightarrow> bytes result"
  cr_exchange :: "bytes \<Rightarrow> bytes \<Rightarrow> bytes result"
  cr_public :: "bytes \<Rightarrow> bytes"
  cr_jcs :: "pyval \<Rightarrow> bytes result"
  cr_sign :: "bytes \<Rightarrow> bytes \<Rightarrow> nat \<times> nat"
  cr_verify :: "bytes \<Rightarrow> bytes \<Rightarrow> nat \<Rightarrow> nat \<Rightarrow> bool"
  cr_iso :: "string \<Rightarrow> (real \<times> bool) result"
  cr_stamp :: "real \<Rightarrow> string"
  cr_str :: "pyval \<Rightarrow> string"
  cr_sha256 :: "bytes \<Rightarrow> string"

section \<open>AES-GCM with Base64\<close>

definition encrypt_aes_128_gcm :: "prims \<Rightarrow> bytes \<Rightarrow> bytes \<Rightarrow> bytes \<Rightarrow> bytes \<Rightarrow> string" where
  "encrypt_aes_128_gcm cr plaintext key nonce aad = b64encode (cr_seal cr key nonce plaintext aad)"

text \<open>What \<open>b64decode\<close> does with a value that is no string raises.\<close>

definition b64_value :: "pyval \<Rightarrow> bytes result" where
  "b64_value v = (case v of PStr s \<Rightarrow> b64decode s | _ \<Rightarrow> Inl TypeError)"

definition decrypt_aes_128_gcm :: "prims \<Rightarrow> pyval \<Rightarrow> bytes \<Rightarrow> bytes \<Rightarrow> bytes \<Rightarrow> bytes result" where
  "decrypt_aes_128_gcm cr ciphertext key nonce aad =
     bindE (b64_value ciphertext) (\<lambda>ct. cr_open cr key nonce ct aad)"

section \<open>HPKE\<close>

definition KEM_ID :: bytes where "KEM_ID = [0x00, 0x20]"
definition KDF_ID :: bytes where "KDF_ID = [0x00, 0x01]"
definition AEAD_ID :: bytes where "AEAD_ID = [0x00, 0x01]"
definition KEM_SUITE_ID :: bytes where "KEM_SUITE_ID = encode ''KEM'' @ KEM_ID"
definition HPKE_SUITE_ID :: bytes where "HPKE_SUITE_ID = encode ''HPKE'' @ KEM_ID @ KDF_ID @ AEAD_ID"
definition N_SECRET :: nat where "N_SECRET = 32"
definition NK :: nat where "NK = 16"
definition NN :: nat where "NN = 12"

text \<open>The library's \<open>HKDF\<close>, extract and expand in one: the labelled input goes into the \<open>info\<close>.\<close>

definition labeled_extract :: "prims \<Rightarrow> bytes \<Rightarrow> bytes \<Rightarrow> bytes \<Rightarrow> bytes \<Rightarrow> bytes" where
  "labeled_extract cr salt label ikm suite =
     cr_hkdf cr 32 (if salt = [] then None else Some salt) (encode ''HPKE-v1'' @ suite @ label @ ikm)
       (if ikm = [] then replicate 32 0 else ikm)"

definition labeled_expand :: "prims \<Rightarrow> bytes \<Rightarrow> bytes \<Rightarrow> bytes \<Rightarrow> nat \<Rightarrow> bytes \<Rightarrow> bytes" where
  "labeled_expand cr prk label info n suite =
     cr_expand cr n (be_bytes 2 n @ encode ''HPKE-v1'' @ suite @ label @ info) prk"

definition extract_and_expand :: "prims \<Rightarrow> bytes \<Rightarrow> bytes \<Rightarrow> bytes" where
  "extract_and_expand cr dh kem_context =
     labeled_expand cr (labeled_extract cr [] (encode ''shared_secret'') dh KEM_SUITE_ID) (encode ''shared_secret'') kem_context N_SECRET KEM_SUITE_ID"

text \<open>\<open>ek\<close> is the fresh ephemeral private key.\<close>

definition encap :: "prims \<Rightarrow> bytes \<Rightarrow> bytes \<Rightarrow> (bytes \<times> bytes) result" where
  "encap cr ek pk =
     bindE (cr_exchange cr ek pk) (\<lambda>dh. Inr (extract_and_expand cr dh (cr_public cr ek @ pk), cr_public cr ek))"

definition decap :: "prims \<Rightarrow> bytes \<Rightarrow> bytes \<Rightarrow> bytes result" where
  "decap cr enc sk =
     (if length enc \<noteq> 32 then Inl (ValueError ''public key'')
      else bindE (cr_exchange cr sk enc) (\<lambda>dh. Inr (extract_and_expand cr dh (enc @ cr_public cr sk))))"

definition key_schedule :: "prims \<Rightarrow> bytes \<Rightarrow> bytes \<Rightarrow> bytes \<times> bytes" where
  "key_schedule cr shared info =
     (let psk_id_hash = labeled_extract cr [] (encode ''psk_id_hash'') [] HPKE_SUITE_ID;
          info_hash = labeled_extract cr [] (encode ''info_hash'') info HPKE_SUITE_ID;
          ctx = [0x00] @ psk_id_hash @ info_hash;
          secret = labeled_extract cr shared (encode ''secret'') [] HPKE_SUITE_ID
      in (labeled_expand cr secret (encode ''key'') ctx NK HPKE_SUITE_ID, labeled_expand cr secret (encode ''base_nonce'') ctx NN HPKE_SUITE_ID))"

definition hpke_seal :: "prims \<Rightarrow> bytes \<Rightarrow> bytes \<Rightarrow> bytes \<Rightarrow> bytes \<Rightarrow> bytes \<Rightarrow> (bytes \<times> bytes) result" where
  "hpke_seal cr ek pk plaintext aad info =
     bindE (encap cr ek pk) (\<lambda>(shared, enc). case key_schedule cr shared info of
       (key, nonce) \<Rightarrow> Inr (enc, cr_seal cr key nonce plaintext aad))"

definition hpke_open :: "prims \<Rightarrow> bytes \<Rightarrow> bytes \<Rightarrow> bytes \<Rightarrow> bytes \<Rightarrow> bytes \<Rightarrow> bytes result" where
  "hpke_open cr sk enc ct aad info =
     bindE (decap cr enc sk) (\<lambda>shared. case key_schedule cr shared info of
       (key, nonce) \<Rightarrow> cr_open cr key nonce ct aad)"

section \<open>Proofs\<close>

definition PROOF_TYPE :: string where "PROOF_TYPE = ''EcdsaSecp256r1Signature2019''"
definition MAX_FUTURE_SKEW :: int where "MAX_FUTURE_SKEW = 300"
definition MAX_PAST_AGE :: int where "MAX_PAST_AGE = 86400"

definition strip_proof_value :: "pyobj \<Rightarrow> pyobj" where
  "strip_proof_value content = (case dget content ''proof'' of
      Some (PDict p) \<Rightarrow> dset ''proof'' (PDict (ddel ''proof_value'' p)) content
    | _ \<Rightarrow> content)"

definition sign_secp256r1 :: "prims \<Rightarrow> bytes \<Rightarrow> bytes \<Rightarrow> bytes result" where
  "sign_secp256r1 cr sk dat = (case cr_sign cr sk dat of
      (r, s) \<Rightarrow> bindE (to_be 32 (int r)) (\<lambda>rb. bindE (to_be 32 (int s)) (\<lambda>sb. Inr (rb @ sb))))"

definition verify_secp256r1 :: "prims \<Rightarrow> bytes \<Rightarrow> bytes \<Rightarrow> bytes \<Rightarrow> bool" where
  "verify_secp256r1 cr pk dat sig = cr_verify cr pk dat (from_bytes (take 32 sig)) (from_bytes (drop 32 sig))"

definition generate_proof :: "prims \<Rightarrow> real \<Rightarrow> pyobj \<Rightarrow> bytes \<Rightarrow> string \<Rightarrow> string option \<Rightarrow> pyobj result" where
  "generate_proof cr now content sk vm created =
     (let stamp = (case created of Some c \<Rightarrow> if c = [] then cr_stamp cr now else c | None \<Rightarrow> cr_stamp cr now);
          proof = [(''type'', PStr PROOF_TYPE), (''created'', PStr stamp), (''verification_method'', PStr vm)];
          r = dset ''proof'' (PDict proof) content
      in bindE (cr_jcs cr (PDict r)) (\<lambda>canonical. bindE (sign_secp256r1 cr sk canonical) (\<lambda>sig.
         Inr (dset ''proof'' (PDict (dset ''proof_value'' (PStr (b64url_encode sig)) proof)) content))))"

text \<open>\<open>created.replace("Z", "+00:00")\<close>\<close>

definition utc_suffix :: "string \<Rightarrow> string" where
  "utc_suffix c = concat (map (\<lambda>x. if x = CHR ''Z'' then ''+00:00'' else [x]) c)"

definition proof_time :: "prims \<Rightarrow> real \<Rightarrow> int option \<Rightarrow> int \<Rightarrow> pyval \<Rightarrow> unit result" where
  "proof_time cr now max_past max_future created =
     (if \<not> truthy created then Inr ()
      else case created of
        PStr c \<Rightarrow> (case cr_iso cr (utc_suffix c) of
            Inl (ValueError _) \<Rightarrow> Inl (ProofValidationError ''proof_invalid_timestamp'')
          | Inl TypeError \<Rightarrow> Inl (ProofValidationError ''proof_invalid_timestamp'')
          | Inl e \<Rightarrow> Inl e
          | Inr (t, aware) \<Rightarrow>
              if \<not> aware then Inl TypeError
              else if 0 \<le> max_future \<and> t - now > of_int max_future then Inl (ProofValidationError ''proof_from_future'')
              else (case max_past of
                  None \<Rightarrow> Inr ()
                | Some p \<Rightarrow> if 0 \<le> p \<and> now - t > of_int p then Inl (ProofValidationError ''proof_expired'') else Inr ()))
      | _ \<Rightarrow> Inl AttributeError)"

definition validate_proof :: "prims \<Rightarrow> real \<Rightarrow> pyobj \<Rightarrow> bytes \<Rightarrow> int option \<Rightarrow> int \<Rightarrow> unit result" where
  "validate_proof cr now content pk max_past max_future =
     (let proof = oget content ''proof'' in
      if \<not> truthy proof then Inl (ProofValidationError ''proof_missing'')
      else bindE (pget proof ''proof_value'' PNone) (\<lambda>pv.
        if \<not> truthy pv then Inl (ProofValidationError ''proof_value_missing'')
        else bindE (pget proof ''type'' PNone) (\<lambda>ty.
          if ty \<noteq> PStr PROOF_TYPE then Inl (ProofValidationError ''proof_type_invalid'')
          else bindE (pget proof ''created'' PNone) (\<lambda>created.
               bindE (proof_time cr now max_past max_future created) (\<lambda>_.
               bindE (cr_jcs cr (PDict (strip_proof_value content))) (\<lambda>canonical.
               case (case pv of PStr s \<Rightarrow> b64url_decode s | _ \<Rightarrow> Inl TypeError) of
                 Inl _ \<Rightarrow> Inl (ProofValidationError ''proof_value_invalid'')
               | Inr sig \<Rightarrow> if verify_secp256r1 cr pk canonical sig then Inr ()
                   else Inl (ProofValidationError ''proof_signature_invalid'')))))))"

text \<open>\<open>verify_proof\<close>: \<open>drift\<close> is the old parameter \<open>max_time_drift\<close>.\<close>

definition verify_proof :: "prims \<Rightarrow> real \<Rightarrow> pyobj \<Rightarrow> bytes \<Rightarrow> int option \<Rightarrow> int option \<Rightarrow> int \<Rightarrow> bool result" where
  "verify_proof cr now content pk drift max_past max_future =
     (let (past, future) = (case drift of None \<Rightarrow> (max_past, max_future)
          | Some d \<Rightarrow> if d = 0 then (None, max_future) else (Some d, d))
      in case validate_proof cr now content pk past future of
           Inr _ \<Rightarrow> Inr True
         | Inl (ProofValidationError _) \<Rightarrow> Inr False
         | Inl e \<Rightarrow> Inl e)"

section \<open>What the library promises\<close>

definition aead_ok :: "prims \<Rightarrow> bool" where
  "aead_ok cr \<longleftrightarrow> (\<forall>k n p a. cr_open cr k n (cr_seal cr k n p a) a = Inr p)"

definition exchange_ok :: "prims \<Rightarrow> bytes \<Rightarrow> bytes \<Rightarrow> bool" where
  "exchange_ok cr ek sk \<longleftrightarrow> length (cr_public cr ek) = 32 \<and>
     (\<exists>dh. cr_exchange cr ek (cr_public cr sk) = Inr dh \<and> cr_exchange cr sk (cr_public cr ek) = Inr dh)"

definition signature_ok :: "prims \<Rightarrow> bytes \<Rightarrow> bytes \<Rightarrow> bool" where
  "signature_ok cr sk pk \<longleftrightarrow> (\<forall>d. case cr_sign cr sk d of (r, s) \<Rightarrow> r < 256 ^ 32 \<and> s < 256 ^ 32 \<and> cr_verify cr pk d r s)"

definition stamp_ok :: "prims \<Rightarrow> bool" where
  "stamp_ok cr \<longleftrightarrow> (\<forall>t \<ge> 0. cr_stamp cr t \<noteq> [] \<and> (\<exists>u. cr_iso cr (utc_suffix (cr_stamp cr t)) = Inr (u, True) \<and> t - 1 < u \<and> u \<le> t))"

definition jcs_total :: "prims \<Rightarrow> bool" where
  "jcs_total cr \<longleftrightarrow> (\<forall>v. \<exists>b. cr_jcs cr v = Inr b)"

lemma gcm_roundtrip: "aead_ok cr \<Longrightarrow> decrypt_aes_128_gcm cr (PStr (encrypt_aes_128_gcm cr p k n a)) k n a = Inr p"
  by (simp add: decrypt_aes_128_gcm_def encrypt_aes_128_gcm_def b64_value_def aead_ok_def)

text \<open>The receiver derives the key and the nonce of the sender and opens what was sealed.\<close>

lemma hpke_roundtrip:
  assumes "aead_ok cr" and "exchange_ok cr ek sk"
  shows "\<exists>enc ct. hpke_seal cr ek (cr_public cr sk) p aad info = Inr (enc, ct) \<and> hpke_open cr sk enc ct aad info = Inr p"
proof -
  obtain dh where dh: "cr_exchange cr ek (cr_public cr sk) = Inr dh" "cr_exchange cr sk (cr_public cr ek) = Inr dh"
    using assms(2) by (auto simp: exchange_ok_def)
  obtain key nonce where ks: "key_schedule cr (extract_and_expand cr dh (cr_public cr ek @ cr_public cr sk)) info = (key, nonce)" by fastforce
  then show ?thesis
    using assms dh by (simp add: hpke_seal_def hpke_open_def encap_def decap_def exchange_ok_def aead_ok_def)
qed

lemma sign_verify: "signature_ok cr sk pk \<Longrightarrow> \<exists>sig. sign_secp256r1 cr sk d = Inr sig \<and> verify_secp256r1 cr pk d sig"
proof -
  assume ok: "signature_ok cr sk pk"
  obtain r s where rs: "cr_sign cr sk d = (r, s)" by fastforce
  then have b: "r < 256 ^ 32" "s < 256 ^ 32" "cr_verify cr pk d r s" using ok by (auto simp: signature_ok_def dest: spec[of _ d])
  then have "sign_secp256r1 cr sk d = Inr (be_bytes 32 r @ be_bytes 32 s)"
    by (simp only: sign_secp256r1_def rs to_be_nat bindE_simps prod.case)
  moreover have "verify_secp256r1 cr pk d (be_bytes 32 r @ be_bytes 32 s)"
    using b(3) by (simp add: verify_secp256r1_def from_be_bytes[OF b(1)] from_be_bytes[OF b(2)])
  ultimately show ?thesis by blast
qed

text \<open>A proof that was made validates for as long as its age allows.\<close>

lemma proof_validates:
  assumes "generate_proof cr now content sk vm None = Inr c" and "signature_ok cr sk pk" and "jcs_total cr" and "stamp_ok cr"
    and "0 \<le> now" and "now \<le> later" and "later - now + 1 \<le> of_int past" and "0 \<le> future"
  shows "validate_proof cr later c pk (Some past) future = Inr ()"
proof -
  let ?p = "[(''type'', PStr PROOF_TYPE), (''created'', PStr (cr_stamp cr now)), (''verification_method'', PStr vm)]"
  let ?r = "dset ''proof'' (PDict ?p) content"
  obtain canonical where j: "cr_jcs cr (PDict ?r) = Inr canonical" using assms(3) by (auto simp: jcs_total_def)
  obtain sig where sig: "sign_secp256r1 cr sk canonical = Inr sig" "verify_secp256r1 cr pk canonical sig"
    using sign_verify[OF assms(2)] by blast
  let ?q = "dset ''proof_value'' (PStr (b64url_encode sig)) ?p"
  have c: "c = dset ''proof'' (PDict ?q) content" using assms(1) by (simp add: generate_proof_def j sig(1))
  have strip: "strip_proof_value c = ?r" by (simp add: c strip_proof_value_def)
  obtain u where u: "cr_stamp cr now \<noteq> []" "cr_iso cr (utc_suffix (cr_stamp cr now)) = Inr (u, True)" "now - 1 < u" "u \<le> now"
    using assms(4,5) by (auto simp: stamp_ok_def)
  have t: "proof_time cr later (Some past) future (PStr (cr_stamp cr now)) = Inr ()"
    using u assms(6-8) by (simp add: proof_time_def)
  have nonempty: "b64url_encode sig \<noteq> []"
  proof
    assume "b64url_encode sig = []"
    then have "b64url_decode [] = Inr sig" by (metis b64url_roundtrip)
    then have "sig = []" by (simp add: b64url_decode_def b64decode_def)
    moreover have "length sig = 64" using sig(1) by (auto simp: sign_secp256r1_def to_be_def bindE_Inr_iff split: prod.splits if_splits)
    ultimately show False by simp
  qed
  have "oget c ''proof'' = PDict ?q" by (simp add: c oget_def dgetd_def)
  then show ?thesis
    using t nonempty j sig(2) by (simp add: validate_proof_def strip dgetd_def)
qed

text \<open>
  What an accepted content had: a signature over all of it but the signature itself, and a timestamp, if any, in the
  window.
\<close>

lemma validate_proof_accepts:
  assumes "validate_proof cr now content pk past future = Inr ()"
  shows "\<exists>p sig canonical. oget content ''proof'' = PDict p \<and> oget p ''type'' = PStr PROOF_TYPE \<and>
    cr_jcs cr (PDict (strip_proof_value content)) = Inr canonical \<and> verify_secp256r1 cr pk canonical sig \<and>
    proof_time cr now past future (oget p ''created'') = Inr ()"
proof -
  obtain p where p: "oget content ''proof'' = PDict p"
    using assms by (cases "oget content ''proof''") (simp_all add: validate_proof_def Let_def split: if_splits)
  note v = assms[unfolded validate_proof_def p Let_def, simplified]
  obtain canonical where j: "cr_jcs cr (PDict (strip_proof_value content)) = Inr canonical"
    "oget p ''type'' = PStr PROOF_TYPE" "proof_time cr now past future (oget p ''created'') = Inr ()"
    using v by (auto simp: bindE_Inr_iff oget_def split: if_splits)
  have "\<exists>sig. (case dgetd p ''proof_value'' PNone of PStr s \<Rightarrow> b64url_decode s | _ \<Rightarrow> Inl TypeError) = Inr sig \<and> verify_secp256r1 cr pk canonical sig"
    using v by (cases "case dgetd p ''proof_value'' PNone of PStr s \<Rightarrow> b64url_decode s | _ \<Rightarrow> Inl TypeError")
      (auto simp: bindE_Inr_iff j(1) split: if_splits)
  then show ?thesis using p j by blast
qed

end
