(* ===== verification/Ratchet.thy ===== *)
theory Ratchet
  imports E2eeCrypto
begin

text \<open>
  The hash ratchet of the message keys (\<open>e2e_encryption_hpke/ratchet.py\<close>), the sequence numbers with their protection
  against replays (\<open>e2e_encryption_hpke/seq_manager.py\<close>) and the contents of the messages (\<open>models.py\<close>,
  \<open>message_builder.py\<close>, \<open>message_parser.py\<close>).
\<close>

section \<open>Keys\<close>

definition derive_chain_keys :: "prims \<Rightarrow> bytes \<Rightarrow> bytes \<times> bytes" where
  "derive_chain_keys cr root_seed = (cr_expand cr 32 (encode ''anp-e2ee-init'') root_seed, cr_expand cr 32 (encode ''anp-e2ee-resp'') root_seed)"

text \<open>Bytes compare lexicographically.\<close>

definition determine_direction :: "string \<Rightarrow> string \<Rightarrow> bool" where
  "determine_direction local_did peer_did \<longleftrightarrow> encode local_did < encode peer_did"

definition assign_chain_keys :: "bytes \<Rightarrow> bytes \<Rightarrow> bool \<Rightarrow> bytes \<times> bytes" where
  "assign_chain_keys init_ck resp_ck is_initiator = (if is_initiator then (init_ck, resp_ck) else (resp_ck, init_ck))"

text \<open>The key and the nonce of a message and the next chain key; the labels are those of the private or the group chat.\<close>

definition derive_key :: "prims \<Rightarrow> string \<Rightarrow> string \<Rightarrow> bytes \<Rightarrow> int \<Rightarrow> (bytes \<times> bytes \<times> bytes) result" where
  "derive_key cr msg_label ck_label chain_key seq =
     bindE (to_be 8 seq) (\<lambda>seq_bytes.
       let msg_key = cr_hmac cr chain_key (encode msg_label @ seq_bytes) in
       Inr (take 16 (cr_hmac cr msg_key (encode ''key'')), take 12 (cr_hmac cr msg_key (encode ''nonce'')), cr_hmac cr chain_key (encode ck_label)))"

definition derive_message_key :: "prims \<Rightarrow> bytes \<Rightarrow> int \<Rightarrow> (bytes \<times> bytes \<times> bytes) result" where
  "derive_message_key cr = derive_key cr ''msg'' ''ck''"

definition derive_group_message_key :: "prims \<Rightarrow> bytes \<Rightarrow> int \<Rightarrow> (bytes \<times> bytes \<times> bytes) result" where
  "derive_group_message_key cr = derive_key cr ''gmsg'' ''gck''"

text \<open>\<open>for s in range(lo, hi): _, _, ck = derive(ck, s)\<close>\<close>

definition fast_forward :: "(bytes \<Rightarrow> int \<Rightarrow> (bytes \<times> bytes \<times> bytes) result) \<Rightarrow> int \<Rightarrow> int \<Rightarrow> bytes \<Rightarrow> bytes result" where
  "fast_forward derive lo hi ck = foldE (\<lambda>s ck. bindE (derive ck s) (\<lambda>(_, _, ck'). Inr ck')) [lo..hi - 1] ck"

section \<open>Sequence numbers\<close>

record seqman =
  sm_window :: bool
  sm_skip :: int
  sm_ttl :: real
  sm_send :: int
  sm_recv :: int
  sm_used :: "(int, real) pydict"

definition new_seqman :: "bool \<Rightarrow> seqman" where
  "new_seqman window = \<lparr>sm_window = window, sm_skip = 256, sm_ttl = 300, sm_send = 0, sm_recv = 0, sm_used = []\<rparr>"

definition next_send_seq :: "(seqman, int) sx" where
  "next_send_seq s = (Inr (sm_send s), s\<lparr>sm_send := sm_send s + 1\<rparr>)"

text \<open>The key of the table of used numbers a value stands for: \<open>True\<close> and \<open>1.0\<close> are the key 1.\<close>

definition seq_key :: "pyval \<Rightarrow> int option result" where
  "seq_key v = (case v of
      PList _ \<Rightarrow> Inl TypeError | PDict _ \<Rightarrow> Inl TypeError
    | _ \<Rightarrow> (case num_of v of Some x \<Rightarrow> Inr (if x = of_int (trunc x) then Some (trunc x) else None) | None \<Rightarrow> Inr None))"

definition is_seq_used :: "real \<Rightarrow> pyval \<Rightarrow> (seqman, bool) sx" where
  "is_seq_used now v = sx_bind (sx_lift (seq_key v)) (\<lambda>k s. case k of
      None \<Rightarrow> (Inr False, s)
    | Some i \<Rightarrow> (case dget (sm_used s) i of
          None \<Rightarrow> (Inr False, s)
        | Some t \<Rightarrow> if t > now then (Inr True, s) else (Inr False, s\<lparr>sm_used := ddel i (sm_used s)\<rparr>)))"

definition validate_recv_seq :: "real \<Rightarrow> pyval \<Rightarrow> (seqman, bool) sx" where
  "validate_recv_seq now v =
     sx_bind (is_seq_used now v) (\<lambda>used.
     if used then sx_return False
     else (\<lambda>s.
       if \<not> sm_window s then (Inr (py_eq v (PInt (sm_recv s))), s)
       else (case num_of v of
           None \<Rightarrow> (Inl TypeError, s)
         | Some x \<Rightarrow> (Inr (of_int (sm_recv s) \<le> x \<and> x < of_int (sm_recv s + sm_skip s)), s))))"

definition mark_seq_used :: "real \<Rightarrow> int \<Rightarrow> seqman \<Rightarrow> seqman" where
  "mark_seq_used now i s = s\<lparr>sm_used := dset i (now + sm_ttl s) (sm_used s)\<rparr>"

definition advance_recv_to :: "int \<Rightarrow> seqman \<Rightarrow> seqman" where
  "advance_recv_to i s = s\<lparr>sm_recv := i + 1\<rparr>"

definition cleanup_expired_cache :: "real \<Rightarrow> seqman \<Rightarrow> seqman" where
  "cleanup_expired_cache now s = s\<lparr>sm_used := filter (\<lambda>(i, t). \<not> t \<le> now) (sm_used s)\<rparr>"

definition seq_reset :: "seqman \<Rightarrow> seqman" where
  "seq_reset s = s\<lparr>sm_send := 0, sm_recv := 0, sm_used := []\<rparr>"

text \<open>The value as the integer \<open>range\<close> and \<open>to_bytes\<close> take.\<close>

definition as_index :: "pyval \<Rightarrow> int result" where
  "as_index v = (case v of PInt i \<Rightarrow> Inr i | PBool b \<Rightarrow> Inr (if b then 1 else 0) | _ \<Rightarrow> Inl TypeError)"

section \<open>Contents\<close>

definition E2EE_VERSION :: string where "E2EE_VERSION = ''1.1''"
definition HPKE_SUITE :: string where "HPKE_SUITE = ''DHKEM-X25519-HKDF-SHA256/HKDF-SHA256/AES-128-GCM''"
definition DEFAULT_EXPIRES :: int where "DEFAULT_EXPIRES = 86400"

definition ensure_supported_e2ee_version :: "prims \<Rightarrow> pyobj \<Rightarrow> string result" where
  "ensure_supported_e2ee_version cr content =
     (let v = py_strip (py_str (cr_str cr) (dgetd content ''e2ee_version'' (PStr ''''))) in
      if v = [] then Inl (ValueError ''unsupported_version: missing'')
      else if v \<noteq> E2EE_VERSION then Inl (ValueError ''unsupported_version'') else Inr v)"

datatype message_type = E2eeInit | E2eeAck | E2eeMsg | E2eeRekey | E2eeError | GroupE2eeKey | GroupE2eeMsg | GroupEpochAdvance

definition message_types :: "(string \<times> message_type) list" where
  "message_types = [(''e2ee_init'', E2eeInit), (''e2ee_ack'', E2eeAck), (''e2ee_msg'', E2eeMsg), (''e2ee_rekey'', E2eeRekey), (''e2ee_error'', E2eeError),
     (''group_e2ee_key'', GroupE2eeKey), (''group_e2ee_msg'', GroupE2eeMsg), (''group_epoch_advance'', GroupEpochAdvance)]"

definition detect_message_type :: "string \<Rightarrow> message_type option" where
  "detect_message_type = map_of message_types"

definition build_e2ee_init :: "prims \<Rightarrow> real \<Rightarrow> bytes \<Rightarrow> string \<Rightarrow> string \<Rightarrow> string \<Rightarrow> string \<Rightarrow> bytes \<Rightarrow> bytes \<Rightarrow> bytes \<Rightarrow> string \<Rightarrow> int \<Rightarrow>
    pyobj result" where
  "build_e2ee_init cr now ek session_id sender_did recipient_did recipient_key_id recipient_pk root_seed sk vm expires =
     bindE (hpke_seal cr ek recipient_pk root_seed (encode session_id) []) (\<lambda>(enc, ct).
     generate_proof cr now
       [(''e2ee_version'', PStr E2EE_VERSION), (''session_id'', PStr session_id), (''hpke_suite'', PStr HPKE_SUITE), (''sender_did'', PStr sender_did),
        (''recipient_did'', PStr recipient_did), (''recipient_key_id'', PStr recipient_key_id), (''enc'', PStr (b64encode enc)),
        (''encrypted_seed'', PStr (b64encode ct)), (''expires'', PInt expires)] sk vm None)"

definition build_e2ee_msg :: "string \<Rightarrow> int \<Rightarrow> string \<Rightarrow> string \<Rightarrow> pyobj" where
  "build_e2ee_msg session_id seq original_type ciphertext =
     [(''e2ee_version'', PStr E2EE_VERSION), (''session_id'', PStr session_id), (''seq'', PInt seq), (''original_type'', PStr original_type),
      (''ciphertext'', PStr ciphertext)]"

definition build_e2ee_ack :: "prims \<Rightarrow> real \<Rightarrow> string \<Rightarrow> string \<Rightarrow> string \<Rightarrow> bytes \<Rightarrow> string \<Rightarrow> int \<Rightarrow> pyobj result" where
  "build_e2ee_ack cr now session_id sender_did recipient_did sk vm expires =
     generate_proof cr now [(''e2ee_version'', PStr E2EE_VERSION), (''session_id'', PStr session_id), (''sender_did'', PStr sender_did),
       (''recipient_did'', PStr recipient_did), (''expires'', PInt expires)] sk vm None"

text \<open>The optional fields of an error come in the order of the parameters.\<close>

definition build_e2ee_error :: "string \<Rightarrow> (string \<times> pyval option) list \<Rightarrow> pyobj" where
  "build_e2ee_error code opts = [(''e2ee_version'', PStr E2EE_VERSION), (''error_code'', PStr code)] @
     List.map_filter (\<lambda>k. map_option (Pair k) (Option.bind (map_of opts k) (\<lambda>v. v)))
       [''session_id'', ''failed_msg_id'', ''failed_server_seq'', ''retry_hint'', ''required_e2ee_version'', ''message'']"

text \<open>The epoch of a group is what an administrator wrote into a message: any value.\<close>

definition group_key_aad :: "prims \<Rightarrow> pyval \<Rightarrow> pyval \<Rightarrow> pyval \<Rightarrow> bytes" where
  "group_key_aad cr group_did epoch key_id =
     encode (py_str (cr_str cr) group_did @ '':'' @ py_str (cr_str cr) epoch @ '':'' @ py_str (cr_str cr) key_id)"

definition build_group_e2ee_key :: "prims \<Rightarrow> real \<Rightarrow> bytes \<Rightarrow> string \<Rightarrow> pyval \<Rightarrow> string \<Rightarrow> string \<Rightarrow> string \<Rightarrow> bytes \<Rightarrow> bytes \<Rightarrow> bytes \<Rightarrow> string \<Rightarrow> int \<Rightarrow>
    pyobj result" where
  "build_group_e2ee_key cr now ek group_did epoch sender_did sender_key_id recipient_key_id recipient_pk sender_chain_key sk vm expires =
     bindE (hpke_seal cr ek recipient_pk sender_chain_key (group_key_aad cr (PStr group_did) epoch (PStr sender_key_id)) []) (\<lambda>(enc, ct).
     generate_proof cr now
       [(''e2ee_version'', PStr E2EE_VERSION), (''group_did'', PStr group_did), (''epoch'', epoch), (''sender_did'', PStr sender_did),
        (''sender_key_id'', PStr sender_key_id), (''recipient_key_id'', PStr recipient_key_id), (''hpke_suite'', PStr HPKE_SUITE),
        (''enc'', PStr (b64encode enc)), (''encrypted_sender_key'', PStr (b64encode ct)), (''expires'', PInt expires)] sk vm None)"

definition build_group_e2ee_msg :: "string \<Rightarrow> pyval \<Rightarrow> string \<Rightarrow> string \<Rightarrow> int \<Rightarrow> string \<Rightarrow> string \<Rightarrow> pyobj" where
  "build_group_e2ee_msg group_did epoch sender_did sender_key_id seq original_type ciphertext =
     [(''e2ee_version'', PStr E2EE_VERSION), (''group_did'', PStr group_did), (''epoch'', epoch), (''sender_did'', PStr sender_did),
      (''sender_key_id'', PStr sender_key_id), (''seq'', PInt seq), (''original_type'', PStr original_type), (''ciphertext'', PStr ciphertext)]"

definition build_group_epoch_advance :: "prims \<Rightarrow> real \<Rightarrow> string \<Rightarrow> pyval \<Rightarrow> string \<Rightarrow> bytes \<Rightarrow> string \<Rightarrow> string list option \<Rightarrow> string list option \<Rightarrow>
    pyobj result" where
  "build_group_epoch_advance cr now group_did new_epoch reason sk vm added removed =
     generate_proof cr now
       ([(''e2ee_version'', PStr E2EE_VERSION), (''group_did'', PStr group_did), (''new_epoch'', new_epoch), (''reason'', PStr reason)] @
        (case added of None \<Rightarrow> [] | Some ms \<Rightarrow> [(''members_added'', PList (map PStr ms))]) @
        (case removed of None \<Rightarrow> [] | Some ms \<Rightarrow> [(''members_removed'', PList (map PStr ms))])) sk vm None"

end
