(* ===== verification/E2eeSession.thy ===== *)
theory E2eeSession
  imports Ratchet
begin

text \<open>
  The private end-to-end session (\<open>e2e_encryption_hpke/session.py\<close>) and the registry of sessions
  (\<open>e2e_encryption_hpke/key_manager.py\<close>, private part).  Fresh session ids, seeds and ephemeral keys are
  arguments.  An exception leaves the changes made before it.
\<close>

section \<open>State\<close>

datatype session_state = SIdle | SActive

record session =
  ss_local :: string
  ss_peer :: string
  ss_sk :: bytes
  ss_key_id :: string
  ss_signing :: bytes
  ss_vm :: string
  ss_default :: int
  ss_state :: session_state
  ss_id :: "string option"
  ss_send :: "bytes option"
  ss_recv :: "bytes option"
  ss_seq :: seqman
  ss_initiator :: "bool option"
  ss_expires :: "real option"
  ss_created :: real
  ss_active :: "real option"

definition new_session :: "real \<Rightarrow> string \<Rightarrow> string \<Rightarrow> bytes \<Rightarrow> string \<Rightarrow> bytes \<Rightarrow> string \<Rightarrow> bool \<Rightarrow> int \<Rightarrow> session" where
  "new_session now local_did peer_did sk key_id signing vm window expires =
     \<lparr>ss_local = local_did, ss_peer = peer_did, ss_sk = sk, ss_key_id = key_id, ss_signing = signing, ss_vm = vm, ss_default = expires,
      ss_state = SIdle, ss_id = None, ss_send = None, ss_recv = None, ss_seq = new_seqman window, ss_initiator = None,
      ss_expires = None, ss_created = now, ss_active = None\<rparr>"

definition setup_chain_keys :: "prims \<Rightarrow> real \<Rightarrow> bytes \<Rightarrow> int \<Rightarrow> session \<Rightarrow> session" where
  "setup_chain_keys cr now root_seed expires s =
     (let (init_ck, resp_ck) = derive_chain_keys cr root_seed;
          initiator = determine_direction (ss_local s) (ss_peer s);
          (send, recv) = assign_chain_keys init_ck resp_ck initiator
      in s\<lparr>ss_initiator := Some initiator, ss_send := Some send, ss_recv := Some recv, ss_active := Some now,
           ss_expires := Some (now + of_int expires), ss_state := SActive\<rparr>)"

section \<open>Opening\<close>

definition send_init :: "prims \<Rightarrow> real \<Rightarrow> bytes \<Rightarrow> string \<Rightarrow> bytes \<Rightarrow> bytes \<Rightarrow> string \<Rightarrow> (session, pyobj) sx" where
  "send_init cr now ek sid root_seed peer_pk peer_key_id =
     sx_then (sx_modify (\<lambda>s. s\<lparr>ss_id := Some sid\<rparr>))
    (sx_bind (sx_get (\<lambda>s. build_e2ee_init cr now ek sid (ss_local s) (ss_peer s) peer_key_id peer_pk root_seed (ss_signing s) (ss_vm s) (ss_default s))) (\<lambda>r.
     sx_bind (sx_lift r) (\<lambda>content.
     sx_then (sx_modify (\<lambda>s. setup_chain_keys cr now root_seed (ss_default s) s)) (sx_return content))))"

definition initiate_session :: "prims \<Rightarrow> real \<Rightarrow> bytes \<Rightarrow> string \<Rightarrow> bytes \<Rightarrow> bytes \<Rightarrow> string \<Rightarrow> (session, pyobj) sx" where
  "initiate_session cr now ek sid root_seed peer_pk peer_key_id =
     sx_bind (sx_get ss_state) (\<lambda>st.
     if st \<noteq> SIdle then sx_raise (RuntimeError ''Cannot initiate'')
     else send_init cr now ek sid root_seed peer_pk peer_key_id)"

definition text_value :: "pyval \<Rightarrow> string result" where
  "text_value v = (case v of PStr s \<Rightarrow> Inr s | _ \<Rightarrow> Inl AttributeError)"

definition check_init_proof :: "prims \<Rightarrow> real \<Rightarrow> pyobj \<Rightarrow> bytes \<Rightarrow> int \<Rightarrow> unit result" where
  "check_init_proof cr now content pk expires = (case validate_proof cr now content pk (Some expires) MAX_FUTURE_SKEW of
      Inl (ProofValidationError code) \<Rightarrow> Inl (ValueError code) | r \<Rightarrow> r)"

definition process_init :: "prims \<Rightarrow> real \<Rightarrow> pyobj \<Rightarrow> bytes \<Rightarrow> (session, unit) sx" where
  "process_init cr now content sender_pk =
     sx_bind (sx_get ss_state) (\<lambda>st.
     if st \<noteq> SIdle then sx_raise (RuntimeError ''Cannot process init'')
     else
       sx_bind (sx_lift (ensure_supported_e2ee_version cr content)) (\<lambda>_.
       sx_bind (sx_get (\<lambda>s. py_int (dgetd content ''expires'' (PInt (ss_default s))))) (\<lambda>r.
       sx_bind (sx_lift r) (\<lambda>expires.
       sx_bind (sx_lift (check_init_proof cr now content sender_pk expires)) (\<lambda>_.
       sx_bind (sx_lift (pindex (PDict content) ''recipient_did'')) (\<lambda>did.
       sx_bind (sx_get ss_local) (\<lambda>me.
       if did \<noteq> PStr me then sx_raise (ValueError ''recipient_did does not match local DID'')
       else
         sx_bind (sx_lift (bindE (pindex (PDict content) ''enc'') b64_value)) (\<lambda>enc.
         sx_bind (sx_lift (bindE (pindex (PDict content) ''encrypted_seed'') b64_value)) (\<lambda>ct.
         sx_bind (sx_lift (bindE (pindex (PDict content) ''session_id'') text_value)) (\<lambda>sid.
         sx_bind (sx_get ss_sk) (\<lambda>sk.
         sx_bind (sx_lift (hpke_open cr sk enc ct (encode sid) [])) (\<lambda>root_seed.
         sx_then (sx_modify (\<lambda>s. s\<lparr>ss_id := Some sid\<rparr>))
           (sx_modify (setup_chain_keys cr now root_seed expires))))))))))))))"

section \<open>Messages\<close>

definition chain_key :: "bytes option \<Rightarrow> bytes result" where
  "chain_key k = (case k of Some b \<Rightarrow> Inr b | None \<Rightarrow> Inl TypeError)"

definition session_aad :: "session \<Rightarrow> bytes result" where
  "session_aad s = (case ss_id s of Some i \<Rightarrow> Inr (encode i) | None \<Rightarrow> Inl AttributeError)"

definition on_seq :: "(seqman, 'a) sx \<Rightarrow> (session, 'a) sx" where
  "on_seq m s = (case m (ss_seq s) of (r, q) \<Rightarrow> (r, s\<lparr>ss_seq := q\<rparr>))"

definition encrypt_message :: "prims \<Rightarrow> string \<Rightarrow> string \<Rightarrow> (session, pyobj) sx" where
  "encrypt_message cr original_type plaintext =
     sx_bind (sx_get ss_state) (\<lambda>st.
     if st \<noteq> SActive then sx_raise (RuntimeError ''Cannot encrypt'')
     else
       sx_bind (on_seq next_send_seq) (\<lambda>seq.
       sx_bind (sx_get (\<lambda>s. bindE (chain_key (ss_send s)) (\<lambda>ck. derive_message_key cr ck seq))) (\<lambda>r.
       sx_bind (sx_lift r) (\<lambda>(key, nonce, ck).
       sx_then (sx_modify (\<lambda>s. s\<lparr>ss_send := Some ck\<rparr>))
      (sx_bind (sx_get session_aad) (\<lambda>r. sx_bind (sx_lift r) (\<lambda>aad.
       sx_get (\<lambda>s. build_e2ee_msg (the (ss_id s)) seq original_type (encrypt_aes_128_gcm cr (encode plaintext) key nonce aad)))))))))"

definition decrypt_message :: "prims \<Rightarrow> real \<Rightarrow> pyobj \<Rightarrow> (session, pyval \<times> string) sx" where
  "decrypt_message cr now content =
     sx_bind (sx_get ss_state) (\<lambda>st.
     if st \<noteq> SActive then sx_raise (RuntimeError ''Cannot decrypt'')
     else
       sx_bind (sx_lift (ensure_supported_e2ee_version cr content)) (\<lambda>_.
       sx_bind (sx_lift (pindex (PDict content) ''seq'')) (\<lambda>v.
       sx_bind (on_seq (validate_recv_seq now v)) (\<lambda>ok.
       if \<not> ok then sx_raise (ValueError ''Invalid seq'')
       else
         sx_bind (sx_lift (as_index v)) (\<lambda>seq.
         sx_bind (sx_get (\<lambda>s. bindE (chain_key (ss_recv s)) (\<lambda>ck.
             bindE (fast_forward (derive_message_key cr) (sm_recv (ss_seq s)) seq ck) (\<lambda>ck. derive_message_key cr ck seq)))) (\<lambda>r.
         sx_bind (sx_lift r) (\<lambda>(key, nonce, ck).
         sx_bind (sx_get session_aad) (\<lambda>r. sx_bind (sx_lift r) (\<lambda>aad.
         sx_bind (sx_lift (bindE (pindex (PDict content) ''ciphertext'') (\<lambda>c. decrypt_aes_128_gcm cr c key nonce aad))) (\<lambda>plain.
         sx_then (sx_modify (\<lambda>s. s\<lparr>ss_recv := Some ck, ss_seq := advance_recv_to seq (mark_seq_used now seq (ss_seq s))\<rparr>))
        (sx_bind (sx_lift (pindex (PDict content) ''original_type'')) (\<lambda>ty.
         sx_bind (sx_lift (utf8_decode plain)) (\<lambda>txt.
         sx_return (ty, txt))))))))))))))"

section \<open>Rekeying\<close>

definition forget_keys :: "session \<Rightarrow> session" where
  "forget_keys s = s\<lparr>ss_state := SIdle, ss_seq := seq_reset (ss_seq s), ss_send := None, ss_recv := None\<rparr>"

definition initiate_rekey :: "prims \<Rightarrow> real \<Rightarrow> bytes \<Rightarrow> string \<Rightarrow> bytes \<Rightarrow> bytes \<Rightarrow> string \<Rightarrow> (session, pyobj) sx" where
  "initiate_rekey cr now ek sid root_seed peer_pk peer_key_id =
     sx_then (sx_modify forget_keys) (send_init cr now ek sid root_seed peer_pk peer_key_id)"

definition process_rekey :: "prims \<Rightarrow> real \<Rightarrow> pyobj \<Rightarrow> bytes \<Rightarrow> (session, unit) sx" where
  "process_rekey cr now content sender_pk = sx_then (sx_modify forget_keys) (process_init cr now content sender_pk)"

definition session_expired :: "real \<Rightarrow> session \<Rightarrow> bool" where
  "session_expired now s = (case ss_expires s of None \<Rightarrow> False | Some t \<Rightarrow> now > t)"

definition opt_val :: "('a \<Rightarrow> pyval) \<Rightarrow> 'a option \<Rightarrow> pyval" where
  "opt_val f x = (case x of None \<Rightarrow> PNone | Some v \<Rightarrow> f v)"

definition get_session_info :: "session \<Rightarrow> pyobj" where
  "get_session_info s =
     [(''session_id'', opt_val PStr (ss_id s)), (''local_did'', PStr (ss_local s)), (''peer_did'', PStr (ss_peer s)),
      (''state'', PStr (case ss_state s of SIdle \<Rightarrow> ''idle'' | SActive \<Rightarrow> ''active'')), (''is_initiator'', opt_val PBool (ss_initiator s)),
      (''expires_at'', opt_val PFloat (ss_expires s)), (''created_at'', PFloat (ss_created s)), (''active_at'', opt_val PFloat (ss_active s))]"


section \<open>Opening a session\<close>

lemma sx_bind_simps:
  "sx_bind (sx_get f) g s = g (f s) s" "sx_bind (sx_lift (Inr x)) g s = g x s" "sx_bind (sx_lift (Inl e)) g s = (Inl e, s)"
  "sx_then (sx_modify h) m s = m (h s)" "sx_return x s = (Inr x, s)" "sx_raise e s = (Inl e, s)" "sx_modify h s = (Inr (), h s)"
  by (simp_all add: sx_defs)

lemma direction_opposite: "a \<noteq> b \<Longrightarrow> determine_direction a b \<longleftrightarrow> \<not> determine_direction b a"
  unfolding determine_direction_def by (metis encode_inj less_asym neqE)

text \<open>Both sides derive the same two chain keys and take them in opposite roles.\<close>

lemma chain_keys_paired:
  assumes "ss_local s \<noteq> ss_peer s" and "ss_local t = ss_peer s" and "ss_peer t = ss_local s"
  shows "ss_send (setup_chain_keys cr n seed e s) = ss_recv (setup_chain_keys cr n' seed e' t)"
    and "ss_recv (setup_chain_keys cr n seed e s) = ss_send (setup_chain_keys cr n' seed e' t)"
  using direction_opposite[OF assms(1)] assms(2,3)
  by (simp_all add: setup_chain_keys_def assign_chain_keys_def Let_def split: prod.splits)

lemma setup_fields [simp]:
  "ss_local (setup_chain_keys cr n seed e s) = ss_local s" "ss_peer (setup_chain_keys cr n seed e s) = ss_peer s"
  "ss_id (setup_chain_keys cr n seed e s) = ss_id s" "ss_seq (setup_chain_keys cr n seed e s) = ss_seq s"
  "ss_state (setup_chain_keys cr n seed e s) = SActive" "ss_sk (setup_chain_keys cr n seed e s) = ss_sk s"
  "ss_default (setup_chain_keys cr n seed e s) = ss_default s" "\<exists>k. ss_send (setup_chain_keys cr n seed e s) = Some k"
  by (simp_all add: setup_chain_keys_def assign_chain_keys_def Let_def split: prod.splits)

text \<open>The library serves the two sides: \<open>s\<close> opens with the key \<open>ek\<close> towards \<open>t\<close>, whose signature key of \<open>s\<close> is \<open>pk\<close>.\<close>

definition lib_ok :: "prims \<Rightarrow> bytes \<Rightarrow> session \<Rightarrow> session \<Rightarrow> bytes \<Rightarrow> bool" where
  "lib_ok cr ek s t pk \<longleftrightarrow> aead_ok cr \<and> exchange_ok cr ek (ss_sk t) \<and> signature_ok cr (ss_signing s) pk \<and> stamp_ok cr \<and> jcs_total cr"

lemma generate_proof_total:
  assumes "signature_ok cr sk pk" and "jcs_total cr"
  shows "\<exists>p. generate_proof cr now content sk vm created = Inr (dset ''proof'' p content)"
proof -
  let ?p = "[(''type'', PStr PROOF_TYPE), (''created'', PStr (case created of Some c \<Rightarrow> if c = [] then cr_stamp cr now else c | None \<Rightarrow> cr_stamp cr now)),
    (''verification_method'', PStr vm)]"
  obtain b where j: "cr_jcs cr (PDict (dset ''proof'' (PDict ?p) content)) = Inr b" using assms(2) by (auto simp: jcs_total_def)
  obtain sig where s: "sign_secp256r1 cr sk b = Inr sig" using sign_verify[OF assms(1)] by blast
  show ?thesis unfolding generate_proof_def Let_def j s bindE_simps by blast
qed

lemma init_content:
  assumes "aead_ok cr" and "exchange_ok cr ek sk" and "signature_ok cr sig pk" and "jcs_total cr"
  shows "\<exists>enc ct p c. hpke_open cr sk enc ct (encode sid) [] = Inr seed \<and>
    build_e2ee_init cr now ek sid me peer kid (cr_public cr sk) seed sig vm ex = Inr c \<and>
    c = [(''e2ee_version'', PStr E2EE_VERSION), (''session_id'', PStr sid), (''hpke_suite'', PStr HPKE_SUITE), (''sender_did'', PStr me),
        (''recipient_did'', PStr peer), (''recipient_key_id'', PStr kid), (''enc'', PStr (b64encode enc)),
        (''encrypted_seed'', PStr (b64encode ct)), (''expires'', PInt ex), (''proof'', p)]"
proof -
  obtain enc ct where h: "hpke_seal cr ek (cr_public cr sk) seed (encode sid) [] = Inr (enc, ct)" "hpke_open cr sk enc ct (encode sid) [] = Inr seed"
    using hpke_roundtrip[OF assms(1,2)] by blast
  let ?c = "[(''e2ee_version'', PStr E2EE_VERSION), (''session_id'', PStr sid), (''hpke_suite'', PStr HPKE_SUITE), (''sender_did'', PStr me),
        (''recipient_did'', PStr peer), (''recipient_key_id'', PStr kid), (''enc'', PStr (b64encode enc)),
        (''encrypted_seed'', PStr (b64encode ct)), (''expires'', PInt ex)]"
  obtain p where p: "generate_proof cr now ?c sig vm None = Inr (dset ''proof'' p ?c)" using generate_proof_total[OF assms(3,4)] by blast
  have d: "dset ''proof'' p ?c = ?c @ [(''proof'', p)]" by simp
  have "build_e2ee_init cr now ek sid me peer kid (cr_public cr sk) seed sig vm ex = Inr (dset ''proof'' p ?c)"
    unfolding build_e2ee_init_def h(1) bindE_simps prod.case p ..
  then show ?thesis using h(2) unfolding d by auto
qed

lemma supported_version: "ensure_supported_e2ee_version cr ((''e2ee_version'', PStr E2EE_VERSION) # c) = Inr E2EE_VERSION"
  by (simp add: ensure_supported_e2ee_version_def E2EE_VERSION_def dgetd_def py_str_def py_strip_def is_space_def Let_def)

text \<open>The handshake: what \<open>s\<close> sends makes \<open>t\<close> active under the same id, with the keys of \<open>s\<close> in opposite roles.\<close>

lemma send_init_content:
  assumes "lib_ok cr ek s t pk"
  shows "\<exists>enc ct p c. hpke_open cr (ss_sk t) enc ct (encode sid) [] = Inr seed \<and>
    send_init cr now ek sid seed (cr_public cr (ss_sk t)) kid s = (Inr c, setup_chain_keys cr now seed (ss_default s) (s\<lparr>ss_id := Some sid\<rparr>)) \<and>
    c = [(''e2ee_version'', PStr E2EE_VERSION), (''session_id'', PStr sid), (''hpke_suite'', PStr HPKE_SUITE), (''sender_did'', PStr (ss_local s)),
        (''recipient_did'', PStr (ss_peer s)), (''recipient_key_id'', PStr kid), (''enc'', PStr (b64encode enc)),
        (''encrypted_seed'', PStr (b64encode ct)), (''expires'', PInt (ss_default s)), (''proof'', p)] \<and>
    (\<forall>later. 0 \<le> now \<longrightarrow> now \<le> later \<longrightarrow> later - now + 1 \<le> of_int (ss_default s) \<longrightarrow>
      check_init_proof cr later c pk (ss_default s) = Inr ())"
proof -
  have ok: "aead_ok cr" "exchange_ok cr ek (ss_sk t)" "signature_ok cr (ss_signing s) pk" "stamp_ok cr" "jcs_total cr"
    using assms by (simp_all add: lib_ok_def)
  obtain enc ct p c where h: "hpke_open cr (ss_sk t) enc ct (encode sid) [] = Inr seed"
    "build_e2ee_init cr now ek sid (ss_local s) (ss_peer s) kid (cr_public cr (ss_sk t)) seed (ss_signing s) (ss_vm s) (ss_default s) = Inr c"
    and c: "c = [(''e2ee_version'', PStr E2EE_VERSION), (''session_id'', PStr sid), (''hpke_suite'', PStr HPKE_SUITE), (''sender_did'', PStr (ss_local s)),
        (''recipient_did'', PStr (ss_peer s)), (''recipient_key_id'', PStr kid), (''enc'', PStr (b64encode enc)),
        (''encrypted_seed'', PStr (b64encode ct)), (''expires'', PInt (ss_default s)), (''proof'', p)]"
    using init_content[OF ok(1,2,3,5)] by blast
  obtain c0 where g: "generate_proof cr now c0 (ss_signing s) (ss_vm s) None = Inr c"
    using h(2) by (auto simp: build_e2ee_init_def bindE_Inr_iff)
  have "send_init cr now ek sid seed (cr_public cr (ss_sk t)) kid s = (Inr c, setup_chain_keys cr now seed (ss_default s) (s\<lparr>ss_id := Some sid\<rparr>))"
    unfolding send_init_def using h(2) by (simp add: sx_defs)
  moreover have "check_init_proof cr later c pk (ss_default s) = Inr ()"
    if "0 \<le> now" "now \<le> later" "later - now + 1 \<le> of_int (ss_default s)" for later
    unfolding check_init_proof_def using proof_validates[OF g ok(3,5,4) that] by (simp add: MAX_FUTURE_SKEW_def)
  ultimately show ?thesis using h(1) c by blast
qed

lemma process_init_accepts:
  assumes "ss_state t = SIdle" and "ss_local t = peer" and "hpke_open cr (ss_sk t) enc ct (encode sid) [] = Inr seed"
    and "c = [(''e2ee_version'', PStr E2EE_VERSION), (''session_id'', PStr sid), (''hpke_suite'', PStr HPKE_SUITE), (''sender_did'', PStr me),
        (''recipient_did'', PStr peer), (''recipient_key_id'', PStr kid), (''enc'', PStr (b64encode enc)),
        (''encrypted_seed'', PStr (b64encode ct)), (''expires'', PInt ex), (''proof'', p)]"
    and "check_init_proof cr later c pk ex = Inr ()"
  shows "process_init cr later c pk t = (Inr (), setup_chain_keys cr later seed ex (t\<lparr>ss_id := Some sid\<rparr>))"
proof -
  have v: "ensure_supported_e2ee_version cr c = Inr E2EE_VERSION" unfolding assms(4) by (rule supported_version)
  have e: "py_int (dgetd c ''expires'' d) = Inr ex" for d unfolding assms(4) by (simp add: dgetd_def)
  have i: "dget c ''recipient_did'' = Some (PStr peer)" "dget c ''enc'' = Some (PStr (b64encode enc))"
    "dget c ''encrypted_seed'' = Some (PStr (b64encode ct))" "dget c ''session_id'' = Some (PStr sid)"
    unfolding assms(4) by simp_all
  show ?thesis
    unfolding process_init_def using assms(1,2,3,5)
    by (simp add: sx_bind_simps v e i b64_value_def text_value_def)
qed

lemma handshake_pairs:
  assumes "lib_ok cr ek s t pk" and "ss_state s = SIdle" and "ss_state t = SIdle"
    and "ss_local s \<noteq> ss_peer s" and "ss_local t = ss_peer s" and "ss_peer t = ss_local s"
    and "0 \<le> now" and "now \<le> later" and "later - now + 1 \<le> of_int (ss_default s)"
  shows "\<exists>c s' t' ks kr. initiate_session cr now ek sid seed (cr_public cr (ss_sk t)) kid s = (Inr c, s') \<and> process_init cr later c pk t = (Inr (), t') \<and>
    ss_state s' = SActive \<and> ss_state t' = SActive \<and> ss_id s' = Some sid \<and> ss_id t' = Some sid \<and>
    ss_send s' = Some ks \<and> ss_recv t' = Some ks \<and> ss_send t' = Some kr \<and> ss_recv s' = Some kr \<and> ss_seq s' = ss_seq s \<and> ss_seq t' = ss_seq t"
proof -
  let ?s = "setup_chain_keys cr now seed (ss_default s) (s\<lparr>ss_id := Some sid\<rparr>)"
  let ?t = "setup_chain_keys cr later seed (ss_default s) (t\<lparr>ss_id := Some sid\<rparr>)"
  obtain enc ct p c where h: "hpke_open cr (ss_sk t) enc ct (encode sid) [] = Inr seed"
    "send_init cr now ek sid seed (cr_public cr (ss_sk t)) kid s = (Inr c, ?s)"
    and c: "c = [(''e2ee_version'', PStr E2EE_VERSION), (''session_id'', PStr sid), (''hpke_suite'', PStr HPKE_SUITE), (''sender_did'', PStr (ss_local s)),
        (''recipient_did'', PStr (ss_peer s)), (''recipient_key_id'', PStr kid), (''enc'', PStr (b64encode enc)),
        (''encrypted_seed'', PStr (b64encode ct)), (''expires'', PInt (ss_default s)), (''proof'', p)]"
    and v: "check_init_proof cr later c pk (ss_default s) = Inr ()"
    using send_init_content[OF assms(1), of sid seed now kid] assms(7-9) by blast
  have "initiate_session cr now ek sid seed (cr_public cr (ss_sk t)) kid s = (Inr c, ?s)"
    unfolding initiate_session_def using assms(2) h(2) by (simp add: sx_bind_simps)
  moreover have "process_init cr later c pk t = (Inr (), ?t)" by (rule process_init_accepts[OF assms(3,5) h(1) c v])
  moreover obtain ks kr where "ss_send ?s = Some ks" "ss_send ?t = Some kr" using setup_fields(8) by blast
  moreover have "ss_send ?s = ss_recv ?t" "ss_recv ?s = ss_send ?t"
    using chain_keys_paired[of "s\<lparr>ss_id := Some sid\<rparr>" "t\<lparr>ss_id := Some sid\<rparr>"] assms(4-6) by simp_all
  ultimately show ?thesis by fastforce
qed


section \<open>Messages: what each side does\<close>

definition active_as :: "string \<Rightarrow> session \<Rightarrow> bool" where
  "active_as sid s \<longleftrightarrow> ss_state s = SActive \<and> ss_id s = Some sid"

lemma derive_total: "0 \<le> n \<Longrightarrow> n < 2 ^ 64 \<Longrightarrow> \<exists>k nonce ck'. derive_message_key cr ck n = Inr (k, nonce, ck')"
  by (simp add: derive_message_key_def derive_key_def to_be_def Let_def)

lemma encrypt_active:
  assumes "active_as sid s" and "ss_send s = Some ck" and "derive_message_key cr ck (sm_send (ss_seq s)) = Inr (k, nonce, ck')"
  shows "encrypt_message cr ty p s =
    (Inr (build_e2ee_msg sid (sm_send (ss_seq s)) ty (encrypt_aes_128_gcm cr (encode p) k nonce (encode sid))),
     s\<lparr>ss_seq := (ss_seq s)\<lparr>sm_send := sm_send (ss_seq s) + 1\<rparr>, ss_send := Some ck'\<rparr>)"
  using assms by (simp add: encrypt_message_def active_as_def sx_defs on_seq_def next_send_seq_def chain_key_def session_aad_def)

text \<open>A number that was not used is judged by the mode alone, and the table of used numbers stays.\<close>

lemma validate_unused:
  assumes "dget (sm_used q) i = None"
  shows "validate_recv_seq now (PInt i) q =
    (Inr (if sm_window q then sm_recv q \<le> i \<and> i < sm_recv q + sm_skip q else i = sm_recv q), q)"
proof -
  have "is_seq_used now (PInt i) q = (Inr False, q)" using assms by (simp add: is_seq_used_def seq_key_def sx_defs py_eq_def)
  then show ?thesis by (auto simp: validate_recv_seq_def sx_defs py_eq_def)
qed

lemma validate_past: "n < sm_recv q \<Longrightarrow> \<exists>q'. validate_recv_seq now (PInt n) q = (Inr False, q')"
  by (auto simp: validate_recv_seq_def is_seq_used_def seq_key_def sx_defs py_eq_def split: option.splits)

lemma fast_forward_none [simp]: "fast_forward d n n ck = Inr ck"
  by (simp add: fast_forward_def)

lemma decrypt_next:
  assumes "active_as sid t" and "ss_recv t = Some ck" and "sm_recv (ss_seq t) = n" and "0 < sm_skip (ss_seq t)" and "dget (sm_used (ss_seq t)) n = None"
    and "derive_message_key cr ck n = Inr (k, nonce, ck')" and "aead_ok cr" and "utf8_ok (encode p)"
  shows "decrypt_message cr now (build_e2ee_msg sid' n ty (encrypt_aes_128_gcm cr (encode p) k nonce (encode sid))) t =
    (Inr (PStr ty, p), t\<lparr>ss_recv := Some ck', ss_seq := advance_recv_to n (mark_seq_used now n (ss_seq t))\<rparr>)"
proof -
  let ?m = "build_e2ee_msg sid' n ty (encrypt_aes_128_gcm cr (encode p) k nonce (encode sid))"
  have v: "ensure_supported_e2ee_version cr ?m = Inr E2EE_VERSION" unfolding build_e2ee_msg_def by (rule supported_version)
  have i: "dget ?m ''seq'' = Some (PInt n)" "dget ?m ''original_type'' = Some (PStr ty)"
    "dget ?m ''ciphertext'' = Some (PStr (encrypt_aes_128_gcm cr (encode p) k nonce (encode sid)))"
    by (simp_all add: build_e2ee_msg_def)
  have q: "validate_recv_seq now (PInt n) (ss_seq t) = (Inr True, ss_seq t)" using assms(3-5) by (auto simp: validate_unused)
  have g: "decrypt_aes_128_gcm cr (PStr (encrypt_aes_128_gcm cr (encode p) k nonce (encode sid))) k nonce (encode sid) = Inr (encode p)"
    by (rule gcm_roundtrip[OF assms(7)])
  show ?thesis
    using assms(1-3,6)
    by (simp add: decrypt_message_def active_as_def sx_bind_simps v i on_seq_def sx_bind_def q as_index_def chain_key_def session_aad_def g
        utf8_decode_encode[OF assms(8)] sx_lift_def sx_then_def sx_modify_def sx_return_def sx_get_def)
qed

text \<open>
  What an attempt to decrypt can do, whatever the content: either it fails before the ratchet and only the table of used
  numbers may lose expired entries, or the number is at least the next one and the ratchet moves past it.
\<close>

definition ratchet_kept :: "session \<Rightarrow> session \<Rightarrow> bool" where
  "ratchet_kept s t \<longleftrightarrow> (\<exists>u. t = s\<lparr>ss_seq := (ss_seq s)\<lparr>sm_used := u\<rparr>\<rparr>)"

lemma ratchet_kept_refl: "ratchet_kept s s"
  unfolding ratchet_kept_def by (rule exI[of _ "sm_used (ss_seq s)"]) simp

lemma is_seq_used_frame: "\<exists>u. snd (is_seq_used now v q) = q\<lparr>sm_used := u\<rparr>"
proof -
  have "\<exists>u. q = q\<lparr>sm_used := u\<rparr>" by (rule exI[of _ "sm_used q"]) simp
  then show ?thesis by (auto simp: is_seq_used_def sx_defs split: sum.splits option.splits)
qed

lemma validate_frame:
  assumes "validate_recv_seq now v q = (r, q')"
  shows "(\<exists>u. q' = q\<lparr>sm_used := u\<rparr>) \<and> (r = Inr True \<longrightarrow> as_index v = Inr i \<longrightarrow> sm_recv q \<le> i)"
proof -
  obtain ru qu where u: "is_seq_used now v q = (ru, qu)" by fastforce
  obtain w where w: "qu = q\<lparr>sm_used := w\<rparr>" using is_seq_used_frame[of now v q] by (auto simp: u)
  have "q' = qu" using assms by (auto simp: validate_recv_seq_def sx_defs u split: sum.splits if_splits option.splits)
  moreover have "sm_recv q \<le> i" if "r = Inr True" "as_index v = Inr i"
    using assms that w by (auto simp: validate_recv_seq_def sx_defs u as_index_def py_eq_def split: sum.splits if_splits option.splits pyval.splits)
  ultimately show ?thesis using w by blast
qed

lemma sx_bind_lift: "sx_bind (sx_lift r) f s = (case r of Inl e \<Rightarrow> (Inl e, s) | Inr x \<Rightarrow> f x s)"
  by (auto simp: sx_defs split: sum.splits)

lemma sx_bind_on_seq: "sx_bind (on_seq m) f s = (case m (ss_seq s) of (Inl e, q) \<Rightarrow> (Inl e, s\<lparr>ss_seq := q\<rparr>) | (Inr x, q) \<Rightarrow> f x (s\<lparr>ss_seq := q\<rparr>))"
  by (auto simp: sx_defs on_seq_def split: prod.splits)

definition ratchet_moved :: "prims \<Rightarrow> pyobj \<Rightarrow> session \<Rightarrow> session \<Rightarrow> int \<Rightarrow> bool" where
  "ratchet_moved cr content s t i \<longleftrightarrow> sm_recv (ss_seq s) \<le> i \<and> as_index (oget content ''seq'') = Inr i \<and>
     (\<exists>sid ck0 ck k nonce ck' plain q. active_as sid s \<and> ss_recv s = Some ck0 \<and> fast_forward (derive_message_key cr) (sm_recv (ss_seq s)) i ck0 = Inr ck \<and>
        derive_message_key cr ck i = Inr (k, nonce, ck') \<and> decrypt_aes_128_gcm cr (oget content ''ciphertext'') k nonce (encode sid) = Inr plain \<and>
        t = s\<lparr>ss_recv := Some ck', ss_seq := q\<rparr> \<and> sm_recv q = i + 1 \<and> sm_send q = sm_send (ss_seq s) \<and> sm_window q = sm_window (ss_seq s) \<and>
        sm_skip q = sm_skip (ss_seq s))"

lemma decrypt_outcome:
  assumes "decrypt_message cr now c s = (r, t)"
  shows "ratchet_kept s t \<and> (\<exists>e. r = Inl e) \<or> (\<exists>i. ratchet_moved cr c s t i)"
proof (cases "ss_state s = SActive")
  case active: True
  show ?thesis
  proof (cases "\<exists>v. ensure_supported_e2ee_version cr c = Inr v \<and> (\<exists>x. dget c ''seq'' = Some x)")
    case True
    then obtain ve x where v: "ensure_supported_e2ee_version cr c = Inr ve" "dget c ''seq'' = Some x" by blast
    obtain ro q where q: "validate_recv_seq now x (ss_seq s) = (ro, q)" by fastforce
    obtain u where u: "q = (ss_seq s)\<lparr>sm_used := u\<rparr>" using validate_frame[OF q] by blast
    have kept: "ratchet_kept s (s\<lparr>ss_seq := q\<rparr>)" using u by (auto simp: ratchet_kept_def)
    note D = decrypt_message_def sx_bind_lift sx_bind_on_seq sx_bind_simps session_aad_def
    show ?thesis
    proof (cases "ro = Inr True \<and> (\<exists>i. as_index x = Inr i)")
      case True
      then obtain i where i: "ro = Inr True" "as_index x = Inr i" by blast
      have le: "sm_recv (ss_seq s) \<le> i" using validate_frame[OF q] i by blast
      let ?s = "s\<lparr>ss_seq := q\<rparr>"
      let ?K = "bindE (chain_key (ss_recv s)) (\<lambda>ck. bindE (fast_forward (derive_message_key cr) (sm_recv q) i ck) (\<lambda>ck. derive_message_key cr ck i))"
      show ?thesis
      proof (cases "\<exists>k nonce ck' sid plain. ?K = Inr (k, nonce, ck') \<and> ss_id s = Some sid \<and>
          bindE (pindex (PDict c) ''ciphertext'') (\<lambda>c. decrypt_aes_128_gcm cr c k nonce (encode sid)) = Inr plain")
        case True
        then obtain k nonce ck' sid plain where K: "?K = Inr (k, nonce, ck')" "ss_id s = Some sid"
          "bindE (pindex (PDict c) ''ciphertext'') (\<lambda>c. decrypt_aes_128_gcm cr c k nonce (encode sid)) = Inr plain" by blast
        obtain ck0 ck where ck: "ss_recv s = Some ck0" "fast_forward (derive_message_key cr) (sm_recv q) i ck0 = Inr ck"
          "derive_message_key cr ck i = Inr (k, nonce, ck')"
          using K(1) by (cases "ss_recv s") (auto simp: chain_key_def bindE_Inr_iff)
        have g: "decrypt_aes_128_gcm cr (oget c ''ciphertext'') k nonce (encode sid) = Inr plain"
          using K(3) by (auto simp: bindE_Inr_iff oget_def dgetd_def split: option.splits)
        obtain cv where cv: "dget c ''ciphertext'' = Some cv" "decrypt_aes_128_gcm cr cv k nonce (encode sid) = Inr plain"
          using K(3) by (auto simp: bindE_Inr_iff split: option.splits)
        have "t = s\<lparr>ss_recv := Some ck', ss_seq := advance_recv_to i (mark_seq_used now i q)\<rparr>"
          using assms active v q i ck cv K(2) by (simp add: D chain_key_def split: sum.splits option.splits)
        then have "ratchet_moved cr c s t i"
          unfolding ratchet_moved_def active_as_def
          using active K(2) ck g le u v(2) i(2) by (fastforce simp: advance_recv_to_def mark_seq_used_def oget_def dgetd_def)
        then show ?thesis by blast
      next
        case False
        then have "t = ?s \<and> (\<exists>e. r = Inl e)"
          using assms active v q i by (cases ?K; cases "ss_id s") (auto simp: D split: sum.splits option.splits)
        then show ?thesis using kept by blast
      qed
    next
      case False
      then have "t = s\<lparr>ss_seq := q\<rparr> \<and> (\<exists>e. r = Inl e)"
        using assms active v q by (cases ro) (auto simp: D split: sum.splits if_splits)
      then show ?thesis using kept by blast
    qed
  next
    case False
    then have "t = s \<and> (\<exists>e. r = Inl e)"
      using assms active by (auto simp: decrypt_message_def sx_bind_simps sx_bind_lift split: sum.splits option.splits)
    then show ?thesis using ratchet_kept_refl by auto
  qed
next
  case False
  then show ?thesis using assms ratchet_kept_refl by (auto simp: decrypt_message_def sx_defs)
qed


section \<open>Rekeying: what a second copy and a forged content do\<close>

lemmas init_steps = process_init_def sx_bind_lift sx_bind_simps

lemma process_init_fails: "process_init cr now c pk s = (Inl e, t) \<Longrightarrow> t = s"
  by (auto simp: init_steps split: sum.splits if_splits)

lemma process_rekey_fails: "process_rekey cr now c pk s = (Inl e, t) \<Longrightarrow> t = forget_keys s"
  by (auto simp: process_rekey_def sx_bind_simps dest: process_init_fails)

lemma process_init_again:
  assumes "process_init cr n1 c pk s = (Inr (), s1)" and "py_int (dgetd c ''expires'' (PInt (ss_default s))) = Inr ex"
  shows "\<exists>seed sid. s1 = setup_chain_keys cr n1 seed ex (s\<lparr>ss_id := Some sid\<rparr>) \<and>
    (\<forall>n2 s2. ss_state s2 = SIdle \<longrightarrow> ss_local s2 = ss_local s \<longrightarrow> ss_sk s2 = ss_sk s \<longrightarrow> ss_default s2 = ss_default s \<longrightarrow>
      check_init_proof cr n2 c pk ex = Inr () \<longrightarrow> process_init cr n2 c pk s2 = (Inr (), setup_chain_keys cr n2 seed ex (s2\<lparr>ss_id := Some sid\<rparr>)))"
proof -
  have idle: "ss_state s = SIdle" using assms(1) by (auto simp: init_steps split: if_splits)
  obtain v where v: "ensure_supported_e2ee_version cr c = Inr v"
    using assms idle by (cases "ensure_supported_e2ee_version cr c") (auto simp: init_steps)
  have p: "check_init_proof cr n1 c pk ex = Inr ()"
    using assms idle v by (cases "check_init_proof cr n1 c pk ex") (auto simp: init_steps)
  have did: "dget c ''recipient_did'' = Some (PStr (ss_local s))"
    using assms idle v p by (auto simp: init_steps split: option.splits if_splits)
  obtain enc where enc: "bindE (pindex (PDict c) ''enc'') b64_value = Inr enc"
    using assms idle v p did by (cases "bindE (pindex (PDict c) ''enc'') b64_value") (auto simp: init_steps)
  obtain ct where ct: "bindE (pindex (PDict c) ''encrypted_seed'') b64_value = Inr ct"
    using assms idle v p did enc by (cases "bindE (pindex (PDict c) ''encrypted_seed'') b64_value") (auto simp: init_steps)
  obtain sid where sid: "bindE (pindex (PDict c) ''session_id'') text_value = Inr sid"
    using assms idle v p did enc ct by (cases "bindE (pindex (PDict c) ''session_id'') text_value") (auto simp: init_steps)
  obtain seed where seed: "hpke_open cr (ss_sk s) enc ct (encode sid) [] = Inr seed"
    using assms idle v p did enc ct sid by (cases "hpke_open cr (ss_sk s) enc ct (encode sid) []") (auto simp: init_steps)
  have "s1 = setup_chain_keys cr n1 seed ex (s\<lparr>ss_id := Some sid\<rparr>)"
    using assms idle v p did enc ct sid seed by (simp add: init_steps)
  moreover have "process_init cr n2 c pk s2 = (Inr (), setup_chain_keys cr n2 seed ex (s2\<lparr>ss_id := Some sid\<rparr>))"
    if "ss_state s2 = SIdle" "ss_local s2 = ss_local s" "ss_sk s2 = ss_sk s" "ss_default s2 = ss_default s"
      "check_init_proof cr n2 c pk ex = Inr ()" for n2 s2
    using that assms(2) v did enc ct sid seed by (simp add: init_steps)
  ultimately show ?thesis by blast
qed

end
