(* ===== verification/E2eeChat.thy ===== *)
theory E2eeChat
  imports E2eeSession
begin

text \<open>
  Two private sessions joined by a network: a conversation interleaves, in any order, messages that one side encrypts and
  deliveries of the oldest message under way.  Then a session alone against a network that delivers anything.
\<close>

section \<open>Conversations\<close>

record chat =
  ch_ses :: "bool \<Rightarrow> session"
  ch_net :: "bool \<Rightarrow> pyobj list"
  ch_said :: "bool \<Rightarrow> (string \<times> string) list"
  ch_heard :: "bool \<Rightarrow> (pyval \<times> string) result list"

datatype chat_event = Say bool string string | Hear bool real

fun chat_step :: "prims \<Rightarrow> chat_event \<Rightarrow> chat \<Rightarrow> chat" where
  "chat_step cr (Say x ty p) c = (case encrypt_message cr ty p (ch_ses c x) of
      (Inl _, s) \<Rightarrow> c\<lparr>ch_ses := (ch_ses c)(x := s), ch_said := (ch_said c)(x := ch_said c x @ [(ty, p)])\<rparr>
    | (Inr m, s) \<Rightarrow> c\<lparr>ch_ses := (ch_ses c)(x := s), ch_said := (ch_said c)(x := ch_said c x @ [(ty, p)]),
        ch_net := (ch_net c)(x := ch_net c x @ [m])\<rparr>)"
| "chat_step cr (Hear x now) c = (case ch_net c (\<not> x) of
      [] \<Rightarrow> c
    | m # ms \<Rightarrow> (case decrypt_message cr now m (ch_ses c x) of
        (r, s) \<Rightarrow> c\<lparr>ch_ses := (ch_ses c)(x := s), ch_net := (ch_net c)(\<not> x := ms), ch_heard := (ch_heard c)(x := ch_heard c x @ [r])\<rparr>))"

definition chat_start :: "session \<Rightarrow> session \<Rightarrow> chat" where
  "chat_start s t = \<lparr>ch_ses = (\<lambda>x. if x then s else t), ch_net = (\<lambda>_. []), ch_said = (\<lambda>_. []), ch_heard = (\<lambda>_. [])\<rparr>"

definition says :: "bool \<Rightarrow> chat_event list \<Rightarrow> (string \<times> string) list" where
  "says x es = concat (map (\<lambda>e. case e of Say y ty p \<Rightarrow> if x = y then [(ty, p)] else [] | Hear _ _ \<Rightarrow> []) es)"

definition is_text :: "chat_event \<Rightarrow> bool" where
  "is_text e = (case e of Say _ _ p \<Rightarrow> utf8_ok (encode p) | Hear _ _ \<Rightarrow> True)"

section \<open>The messages under way\<close>

text \<open>What was said between the chain key of the receiver and that of the sender, as it is on the wire.\<close>

fun wire :: "prims \<Rightarrow> string \<Rightarrow> bytes \<Rightarrow> int \<Rightarrow> (string \<times> string) list \<Rightarrow> (pyobj list \<times> bytes) result" where
  "wire cr sid ck n [] = Inr ([], ck)"
| "wire cr sid ck n ((ty, p) # ms) =
     bindE (derive_message_key cr ck n) (\<lambda>(k, nonce, ck').
     bindE (wire cr sid ck' (n + 1) ms) (\<lambda>(cs, e).
     Inr (build_e2ee_msg sid n ty (encrypt_aes_128_gcm cr (encode p) k nonce (encode sid)) # cs, e)))"

lemma wire_snoc:
  assumes "wire cr sid ck n ms = Inr (cs, e)" and "derive_message_key cr e (n + int (length ms)) = Inr (k, nonce, e')"
  shows "wire cr sid ck n (ms @ [(ty, p)]) =
    Inr (cs @ [build_e2ee_msg sid (n + int (length ms)) ty (encrypt_aes_128_gcm cr (encode p) k nonce (encode sid))], e')"
  using assms
proof (induction ms arbitrary: ck n cs)
  case (Cons m ms)
  obtain ty1 p1 where m: "m = (ty1, p1)" by fastforce
  obtain k1 n1 ck1 where d: "derive_message_key cr ck n = Inr (k1, n1, ck1)"
    using Cons.prems(1) by (cases "derive_message_key cr ck n") (auto simp: m)
  obtain cs1 where w: "wire cr sid ck1 (n + 1) ms = Inr (cs1, e)"
    "cs = build_e2ee_msg sid n ty1 (encrypt_aes_128_gcm cr (encode p1) k1 n1 (encode sid)) # cs1"
    using Cons.prems(1) by (auto simp: m d bindE_Inr_iff)
  have e: "n + 1 + int (length ms) = n + int (length (m # ms))" by simp
  show ?case using Cons.IH[OF w(1), unfolded e, OF Cons.prems(2)] w(2) by (simp add: m d)
qed simp

definition channel :: "prims \<Rightarrow> string \<Rightarrow> session \<Rightarrow> session \<Rightarrow> pyobj list \<Rightarrow> (string \<times> string) list \<Rightarrow> bool" where
  "channel cr sid s t net pend \<longleftrightarrow> active_as sid s \<and> active_as sid t \<and>
     (\<exists>ck e. ss_recv t = Some ck \<and> ss_send s = Some e \<and> wire cr sid ck (sm_recv (ss_seq t)) pend = Inr (net, e)) \<and>
     sm_send (ss_seq s) = sm_recv (ss_seq t) + int (length pend) \<and> 0 \<le> sm_recv (ss_seq t) \<and> 0 < sm_skip (ss_seq t) \<and>
     (\<forall>i \<in> set (dkeys (sm_used (ss_seq t))). i < sm_recv (ss_seq t))"

text \<open>A message said goes to the end of its channel; the channel in the other direction does not notice.\<close>

lemma channel_say:
  assumes "channel cr sid s t net pend" and "sm_send (ss_seq s) < 2 ^ 64"
  shows "\<exists>m s'. encrypt_message cr ty p s = (Inr m, s') \<and> channel cr sid s' t (net @ [m]) (pend @ [(ty, p)]) \<and>
    (\<forall>net' pend'. channel cr sid t s net' pend' \<longrightarrow> channel cr sid t s' net' pend') \<and> sm_send (ss_seq s') = sm_send (ss_seq s) + 1"
proof -
  obtain ck e where c: "active_as sid s" "active_as sid t" "ss_recv t = Some ck" "ss_send s = Some e"
    "wire cr sid ck (sm_recv (ss_seq t)) pend = Inr (net, e)" "sm_send (ss_seq s) = sm_recv (ss_seq t) + int (length pend)"
    "0 \<le> sm_recv (ss_seq t)" "0 < sm_skip (ss_seq t)" "\<forall>i \<in> set (dkeys (sm_used (ss_seq t))). i < sm_recv (ss_seq t)"
    using assms(1) by (auto simp: channel_def)
  obtain k nonce e' where d: "derive_message_key cr e (sm_send (ss_seq s)) = Inr (k, nonce, e')"
    using derive_total assms(2) c(6,7) by fastforce
  let ?m = "build_e2ee_msg sid (sm_send (ss_seq s)) ty (encrypt_aes_128_gcm cr (encode p) k nonce (encode sid))"
  let ?s = "s\<lparr>ss_seq := (ss_seq s)\<lparr>sm_send := sm_send (ss_seq s) + 1\<rparr>, ss_send := Some e'\<rparr>"
  have "encrypt_message cr ty p s = (Inr ?m, ?s)" by (rule encrypt_active[OF c(1,4) d])
  moreover have "wire cr sid ck (sm_recv (ss_seq t)) (pend @ [(ty, p)]) = Inr (net @ [?m], e')"
    using wire_snoc[OF c(5), of k nonce e' ty p] d c(6) by simp
  then have "channel cr sid ?s t (net @ [?m]) (pend @ [(ty, p)])"
    using c by (simp add: channel_def active_as_def)
  moreover have "channel cr sid t ?s net' pend'" if "channel cr sid t s net' pend'" for net' pend'
    using that by (simp add: channel_def active_as_def)
  ultimately show ?thesis by fastforce
qed

lemma dget_above: "\<forall>i \<in> set (dkeys d). i < (n :: int) \<Longrightarrow> dget d n = None"
  by (induction d) auto

text \<open>The oldest message under way decrypts to what was said.\<close>

lemma channel_hear:
  assumes "channel cr sid s t (m # net) pend" and "aead_ok cr" and "list_all (\<lambda>(ty, p). utf8_ok (encode p)) pend"
  shows "\<exists>ty p rest t'. pend = (ty, p) # rest \<and> decrypt_message cr now m t = (Inr (PStr ty, p), t') \<and> channel cr sid s t' net rest \<and>
    (\<forall>net' pend'. channel cr sid t s net' pend' \<longrightarrow> channel cr sid t' s net' pend') \<and> sm_send (ss_seq t') = sm_send (ss_seq t)"
proof -
  obtain ck e where c: "active_as sid s" "active_as sid t" "ss_recv t = Some ck" "ss_send s = Some e"
    "wire cr sid ck (sm_recv (ss_seq t)) pend = Inr (m # net, e)" "sm_send (ss_seq s) = sm_recv (ss_seq t) + int (length pend)"
    "0 \<le> sm_recv (ss_seq t)" "0 < sm_skip (ss_seq t)" "\<forall>i \<in> set (dkeys (sm_used (ss_seq t))). i < sm_recv (ss_seq t)"
    using assms(1) by (auto simp: channel_def)
  obtain ty p rest where p: "pend = (ty, p) # rest" using c(5) by (cases pend) auto
  let ?n = "sm_recv (ss_seq t)"
  obtain k nonce ck' where d: "derive_message_key cr ck ?n = Inr (k, nonce, ck')"
    using c(5) by (cases "derive_message_key cr ck ?n") (auto simp: p)
  have w: "wire cr sid ck' (?n + 1) rest = Inr (net, e)" "m = build_e2ee_msg sid ?n ty (encrypt_aes_128_gcm cr (encode p) k nonce (encode sid))"
    using c(5) by (auto simp: p d bindE_Inr_iff)
  let ?t = "t\<lparr>ss_recv := Some ck', ss_seq := advance_recv_to ?n (mark_seq_used now ?n (ss_seq t))\<rparr>"
  have u: "utf8_ok (encode p)" using assms(3) by (simp add: p)
  have "decrypt_message cr now m t = (Inr (PStr ty, p), ?t)"
    unfolding w(2) by (rule decrypt_next[OF c(2,3) refl c(8) dget_above[OF c(9)] d assms(2) u])
  moreover have "\<forall>i \<in> set (dkeys (dset ?n (now + sm_ttl (ss_seq t)) (sm_used (ss_seq t)))). i < ?n + 1"
    using c(9) by (auto simp: dkeys_dset)
  then have "channel cr sid s ?t net rest"
    using c w(1) by (simp add: channel_def active_as_def advance_recv_to_def mark_seq_used_def p)
  moreover have "channel cr sid ?t s net' pend'" if "channel cr sid t s net' pend'" for net' pend'
    using that by (simp add: channel_def active_as_def advance_recv_to_def mark_seq_used_def)
  ultimately show ?thesis using p by (fastforce simp: advance_recv_to_def mark_seq_used_def)
qed

section \<open>The whole conversation\<close>

definition chat_ok :: "prims \<Rightarrow> string \<Rightarrow> chat \<Rightarrow> bool" where
  "chat_ok cr sid c \<longleftrightarrow> (\<forall>x. \<exists>pend. channel cr sid (ch_ses c x) (ch_ses c (\<not> x)) (ch_net c x) pend \<and> length (ch_net c x) = length pend \<and>
     (\<exists>d. ch_said c x = d @ pend \<and> ch_heard c (\<not> x) = map (\<lambda>(ty, p). Inr (PStr ty, p)) d) \<and>
     list_all (\<lambda>(ty, p). utf8_ok (encode p)) pend)"

lemma chat_okI:
  assumes "\<And>x. \<exists>pend d. channel cr sid (ch_ses c x) (ch_ses c (\<not> x)) (ch_net c x) pend \<and> length (ch_net c x) = length pend \<and>
    ch_said c x = d @ pend \<and> ch_heard c (\<not> x) = map (\<lambda>(ty, p). Inr (PStr ty, p)) d \<and> list_all (\<lambda>(ty, p). utf8_ok (encode p)) pend"
  shows "chat_ok cr sid c"
  using assms unfolding chat_ok_def by blast

lemma chat_okD:
  assumes "chat_ok cr sid c"
  obtains pend d where "channel cr sid (ch_ses c x) (ch_ses c (\<not> x)) (ch_net c x) pend" "length (ch_net c x) = length pend"
    "ch_said c x = d @ pend" "ch_heard c (\<not> x) = map (\<lambda>(ty, p). Inr (PStr ty, p)) d" "list_all (\<lambda>(ty, p). utf8_ok (encode p)) pend"
  using assms unfolding chat_ok_def by blast

lemma chat_say_ok:
  assumes "chat_ok cr sid c" and "is_text e" and "aead_ok cr" and "\<And>x. sm_send (ss_seq (ch_ses c x)) < 2 ^ 64"
    and Say: "e = Say x ty p"
  shows "chat_ok cr sid (chat_step cr e c) \<and> (\<forall>x. ch_said (chat_step cr e c) x = ch_said c x @ says x [e] \<and>
    sm_send (ss_seq (ch_ses (chat_step cr e c) x)) \<le> sm_send (ss_seq (ch_ses c x)) + 1)"
proof -
  obtain pend d where x: "channel cr sid (ch_ses c x) (ch_ses c (\<not> x)) (ch_net c x) pend" "length (ch_net c x) = length pend"
    "ch_said c x = d @ pend" "ch_heard c (\<not> x) = map (\<lambda>(ty, p). Inr (PStr ty, p)) d" "list_all (\<lambda>(ty, p). utf8_ok (encode p)) pend"
    by (rule chat_okD[OF assms(1)])
  obtain pend' d' where y: "channel cr sid (ch_ses c (\<not> x)) (ch_ses c x) (ch_net c (\<not> x)) pend'" "length (ch_net c (\<not> x)) = length pend'"
    "ch_said c (\<not> x) = d' @ pend'" "ch_heard c x = map (\<lambda>(ty, p). Inr (PStr ty, p)) d'" "list_all (\<lambda>(ty, p). utf8_ok (encode p)) pend'"
    by (rule chat_okD[OF assms(1), of "\<not> x"]) (simp only: not_not)
  obtain m s' where m: "encrypt_message cr ty p (ch_ses c x) = (Inr m, s')" "channel cr sid s' (ch_ses c (\<not> x)) (ch_net c x @ [m]) (pend @ [(ty, p)])"
    "channel cr sid (ch_ses c (\<not> x)) s' (ch_net c (\<not> x)) pend'" "sm_send (ss_seq s') = sm_send (ss_seq (ch_ses c x)) + 1"
    using channel_say[OF x(1) assms(4)] y(1) by blast
  have u: "utf8_ok (encode p)" using assms(2) by (simp add: Say is_text_def)
  have "chat_ok cr sid (chat_step cr e c)"
  proof (rule chat_okI)
    fix z
    show "\<exists>pend d. channel cr sid (ch_ses (chat_step cr e c) z) (ch_ses (chat_step cr e c) (\<not> z)) (ch_net (chat_step cr e c) z) pend \<and>
      length (ch_net (chat_step cr e c) z) = length pend \<and> ch_said (chat_step cr e c) z = d @ pend \<and>
      ch_heard (chat_step cr e c) (\<not> z) = map (\<lambda>(ty, p). Inr (PStr ty, p)) d \<and> list_all (\<lambda>(ty, p). utf8_ok (encode p)) pend"
    proof (cases "z = x")
      case True
      show ?thesis by (rule exI[of _ "pend @ [(ty, p)]"], rule exI[of _ d]) (use m x u in \<open>simp add: Say True\<close>)
    next
      case False
      then have z: "z = (\<not> x)" by auto
      show ?thesis by (rule exI[of _ pend'], rule exI[of _ d']) (use m y in \<open>simp add: Say z\<close>)
    qed
  qed
  then show ?thesis using m by (auto simp: Say says_def)
qed

lemma chat_hear_ok:
  assumes "chat_ok cr sid c" and "is_text e" and "aead_ok cr" and "\<And>x. sm_send (ss_seq (ch_ses c x)) < 2 ^ 64"
    and Hear: "e = Hear x now"
  shows "chat_ok cr sid (chat_step cr e c) \<and> (\<forall>x. ch_said (chat_step cr e c) x = ch_said c x @ says x [e] \<and>
    sm_send (ss_seq (ch_ses (chat_step cr e c) x)) \<le> sm_send (ss_seq (ch_ses c x)) + 1)"
proof -
  show ?thesis
  proof (cases "ch_net c (\<not> x)")
    case Nil
    then show ?thesis using assms(1) by (simp add: Hear says_def)
  next
    case (Cons m net)
    obtain pend d where x: "channel cr sid (ch_ses c x) (ch_ses c (\<not> x)) (ch_net c x) pend" "length (ch_net c x) = length pend"
      "ch_said c x = d @ pend" "ch_heard c (\<not> x) = map (\<lambda>(ty, p). Inr (PStr ty, p)) d" "list_all (\<lambda>(ty, p). utf8_ok (encode p)) pend"
      by (rule chat_okD[OF assms(1)])
    obtain pend' d' where y: "channel cr sid (ch_ses c (\<not> x)) (ch_ses c x) (ch_net c (\<not> x)) pend'" "length (ch_net c (\<not> x)) = length pend'"
      "ch_said c (\<not> x) = d' @ pend'" "ch_heard c x = map (\<lambda>(ty, p). Inr (PStr ty, p)) d'" "list_all (\<lambda>(ty, p). utf8_ok (encode p)) pend'"
      by (rule chat_okD[OF assms(1), of "\<not> x"]) (simp only: not_not)
    obtain ty p rest t' where h: "pend' = (ty, p) # rest" "decrypt_message cr now m (ch_ses c x) = (Inr (PStr ty, p), t')"
      "channel cr sid (ch_ses c (\<not> x)) t' net rest" "channel cr sid t' (ch_ses c (\<not> x)) (ch_net c x) pend"
      "sm_send (ss_seq t') = sm_send (ss_seq (ch_ses c x))"
      using channel_hear[OF y(1)[unfolded Cons] assms(3) y(5), of now] x(1) by blast
    have "chat_ok cr sid (chat_step cr e c)"
    proof (rule chat_okI)
      fix z
      show "\<exists>pend d. channel cr sid (ch_ses (chat_step cr e c) z) (ch_ses (chat_step cr e c) (\<not> z)) (ch_net (chat_step cr e c) z) pend \<and>
        length (ch_net (chat_step cr e c) z) = length pend \<and> ch_said (chat_step cr e c) z = d @ pend \<and>
        ch_heard (chat_step cr e c) (\<not> z) = map (\<lambda>(ty, p). Inr (PStr ty, p)) d \<and> list_all (\<lambda>(ty, p). utf8_ok (encode p)) pend"
      proof (cases "z = x")
        case True
        show ?thesis by (rule exI[of _ pend], rule exI[of _ d]) (use h x in \<open>simp add: Hear True Cons\<close>)
      next
        case False
        then have z: "z = (\<not> x)" by auto
        show ?thesis
          by (rule exI[of _ rest], rule exI[of _ "d' @ [(ty, p)]"]) (use h y in \<open>simp add: Hear z Cons\<close>)
      qed
    qed
    then show ?thesis using h by (auto simp: Hear Cons says_def)
  qed
qed

lemma chat_step_ok:
  assumes "chat_ok cr sid c" and "is_text e" and "aead_ok cr" and "\<And>x. sm_send (ss_seq (ch_ses c x)) < 2 ^ 64"
  shows "chat_ok cr sid (chat_step cr e c) \<and> (\<forall>x. ch_said (chat_step cr e c) x = ch_said c x @ says x [e] \<and>
    sm_send (ss_seq (ch_ses (chat_step cr e c) x)) \<le> sm_send (ss_seq (ch_ses c x)) + 1)"
  by (cases e) (use chat_say_ok[OF assms] chat_hear_ok[OF assms] in simp_all)

lemma chat_run_ok:
  assumes "chat_ok cr sid c" and "list_all is_text es" and "aead_ok cr" and "\<And>x. sm_send (ss_seq (ch_ses c x)) + int (length es) \<le> 2 ^ 64"
  shows "chat_ok cr sid (fold (chat_step cr) es c) \<and> (\<forall>x. ch_said (fold (chat_step cr) es c) x = ch_said c x @ says x es)"
  using assms
proof (induction es arbitrary: c)
  case (Cons e es)
  have b: "sm_send (ss_seq (ch_ses c x)) < 2 ^ 64" for x using Cons.prems(4)[of x] by simp
  note s = chat_step_ok[OF Cons.prems(1) _ Cons.prems(3) b, of e]
  have s: "chat_ok cr sid (chat_step cr e c)" "\<And>x. ch_said (chat_step cr e c) x = ch_said c x @ says x [e]"
    "\<And>x. sm_send (ss_seq (ch_ses (chat_step cr e c) x)) \<le> sm_send (ss_seq (ch_ses c x)) + 1"
    using s Cons.prems(2) by simp_all
  have "sm_send (ss_seq (ch_ses (chat_step cr e c) x)) + int (length es) \<le> 2 ^ 64" for x
    using Cons.prems(4)[of x] s(3)[of x] by simp
  then have "chat_ok cr sid (fold (chat_step cr) es (chat_step cr e c)) \<and>
      (\<forall>x. ch_said (fold (chat_step cr) es (chat_step cr e c)) x = ch_said (chat_step cr e c) x @ says x es)"
    using Cons.prems(2,3) by (intro Cons.IH[OF s(1)]) simp_all
  then show ?case using s(2) by (simp add: says_def)
qed (simp add: says_def)

lemma channel_start:
  assumes "active_as sid s" and "active_as sid t" and "ss_send s = Some k" and "ss_recv t = Some k" and "sm_send (ss_seq s) = 0"
    and "sm_recv (ss_seq t) = 0" and "sm_used (ss_seq t) = []" and "0 < sm_skip (ss_seq t)"
  shows "channel cr sid s t [] []"
  using assms by (simp add: channel_def)

lemma chat_ok_said:
  assumes "chat_ok cr sid c"
  shows "ch_heard c (\<not> x) = map (\<lambda>(ty, p). Inr (PStr ty, p)) (take (length (ch_heard c (\<not> x))) (ch_said c x)) \<and>
    length (ch_heard c (\<not> x)) + length (ch_net c x) = length (ch_said c x)"
  by (rule chat_okD[OF assms, of x]) simp

section \<open>A library for examples\<close>

text \<open>Ciphertexts carry key, nonce and associated data in front, times are written in unary.\<close>

definition example_lib :: prims where
  "example_lib = \<lparr>cr_hmac = (\<lambda>k d. take 32 (d @ k @ replicate 32 0)), cr_hkdf = (\<lambda>n salt info ikm. take n (ikm @ info @ replicate n 0)),
     cr_expand = (\<lambda>n info prk. take n (info @ prk @ replicate n 0)), cr_seal = (\<lambda>k n p a. k @ n @ a @ p),
     cr_open = (\<lambda>k n c a. if take (length (k @ n @ a)) c = k @ n @ a then Inr (drop (length (k @ n @ a)) c) else Inl InvalidTag),
     cr_exchange = (\<lambda>sk pk. Inr (map2 (+) (take 32 (sk @ replicate 32 0)) pk)), cr_public = (\<lambda>sk. take 32 (sk @ replicate 32 0)),
     cr_jcs = (\<lambda>v. Inr []), cr_sign = (\<lambda>sk d. (1, 1)), cr_verify = (\<lambda>pk d r s. r = 1 \<and> s = 1),
     cr_iso = (\<lambda>c. Inr (of_nat (length c - 1), True)), cr_stamp = (\<lambda>t. replicate (Suc (nat \<lfloor>t\<rfloor>)) CHR ''1''), cr_str = (\<lambda>_. ''''), cr_sha256 = (\<lambda>_. ''000000'')\<rparr>"

lemma example_lib_ok: "lib_ok example_lib [1] s (new_session t b a [2] kid sig vm w ex) pk"
proof -
  have "utc_suffix (replicate n CHR ''1'') = replicate n CHR ''1''" for n by (induction n) (simp_all add: utc_suffix_def)
  then have "stamp_ok example_lib" unfolding stamp_ok_def example_lib_def by (auto simp del: replicate_Suc)
  moreover have "aead_ok example_lib" by (simp add: aead_ok_def example_lib_def)
  moreover have "jcs_total example_lib" by (simp add: jcs_total_def example_lib_def)
  moreover have "signature_ok example_lib (ss_signing s) pk" by (simp add: signature_ok_def example_lib_def)
  moreover have "exchange_ok example_lib [1] [2]" by (simp add: exchange_ok_def example_lib_def numeral_eq_Suc)
  ultimately show ?thesis by (simp add: lib_ok_def new_session_def)
qed

section \<open>Properties\<close>

text \<open>
  C21. Two fresh sessions of different DIDs: the init message one side makes is accepted by the other within its lifetime,
  and in any interleaving of messages and deliveries after it every text arrives exactly as it was said, in order, in
  both directions; what has not arrived is under way.
\<close>
theorem private_conversation:
  assumes "s = new_session t0 a b sk kid sig vm w ex" and "t = new_session t1 b a sk' kid' sig' vm' w' ex'" and "a \<noteq> b"
    and "lib_ok cr ek s t pk" and "0 \<le> now" and "now \<le> later" and "later - now + 1 \<le> of_int ex"
    and "list_all is_text es" and "int (length es) \<le> 2 ^ 64"
  shows "\<exists>c s' t'. initiate_session cr now ek sid seed (cr_public cr sk') kid' s = (Inr c, s') \<and> process_init cr later c pk t = (Inr (), t') \<and>
    (\<forall>x. let r = fold (chat_step cr) es (chat_start s' t') in
      ch_said r x = says x es \<and> ch_heard r (\<not> x) = map (\<lambda>(ty, p). Inr (PStr ty, p)) (take (length (ch_heard r (\<not> x))) (says x es)) \<and>
      length (ch_heard r (\<not> x)) + length (ch_net r x) = length (says x es))"
proof -
  have f: "ss_state s = SIdle" "ss_state t = SIdle" "ss_local s \<noteq> ss_peer s" "ss_local t = ss_peer s" "ss_peer t = ss_local s"
    "later - now + 1 \<le> of_int (ss_default s)" "ss_sk t = sk'" "ss_seq s = new_seqman w" "ss_seq t = new_seqman w'"
    using assms(1-3,7) by (simp_all add: new_session_def)
  obtain c s' t' ks kr where h: "initiate_session cr now ek sid seed (cr_public cr sk') kid' s = (Inr c, s')" "process_init cr later c pk t = (Inr (), t')"
    "ss_state s' = SActive" "ss_state t' = SActive" "ss_id s' = Some sid" "ss_id t' = Some sid"
    "ss_send s' = Some ks" "ss_recv t' = Some ks" "ss_send t' = Some kr" "ss_recv s' = Some kr" "ss_seq s' = new_seqman w" "ss_seq t' = new_seqman w'"
    using handshake_pairs[OF assms(4) f(1-5) assms(5,6) f(6), of sid seed kid'] unfolding f(7-9) by blast
  have "channel cr sid s' t' [] []" "channel cr sid t' s' [] []"
    using h by (auto intro!: channel_start simp: active_as_def new_seqman_def)
  then have start: "chat_ok cr sid (chat_start s' t')" by (auto simp: chat_ok_def chat_start_def)
  have "aead_ok cr" using assms(4) by (simp add: lib_ok_def)
  moreover have "sm_send (ss_seq (ch_ses (chat_start s' t') x)) + int (length es) \<le> 2 ^ 64" for x
    using assms(9) h(11,12) by (simp add: chat_start_def new_seqman_def)
  ultimately have "chat_ok cr sid (fold (chat_step cr) es (chat_start s' t'))"
    "ch_said (fold (chat_step cr) es (chat_start s' t')) x = says x es" for x
    using chat_run_ok[OF start assms(8)] by (simp_all add: chat_start_def)
  then show ?thesis using h(1,2) chat_ok_said by (simp add: Let_def) (metis (no_types, lifting))
qed

theorem private_conversation_witness:
  "\<exists>c s' t'. initiate_session example_lib 100 [1] ''id'' [7] (cr_public example_lib [2]) ''kb'' (new_session 0 ''a'' ''b'' [1] ''ka'' [] '''' False 60) = (Inr c, s') \<and>
    process_init example_lib 110 c [] (new_session 0 ''b'' ''a'' [2] ''kb'' [] '''' False 60) = (Inr (), t') \<and>
    (\<forall>x. let r = fold (chat_step example_lib) [Say True ''text'' ''hi'', Say False ''text'' ''ho'', Hear False 111] (chat_start s' t') in
      ch_said r x = says x [Say True ''text'' ''hi'', Say False ''text'' ''ho'', Hear False 111] \<and>
      ch_heard r (\<not> x) = map (\<lambda>(ty, p). Inr (PStr ty, p)) (take (length (ch_heard r (\<not> x))) (says x [Say True ''text'' ''hi'', Say False ''text'' ''ho'', Hear False 111])) \<and>
      length (ch_heard r (\<not> x)) + length (ch_net r x) = length (says x [Say True ''text'' ''hi'', Say False ''text'' ''ho'', Hear False 111]))"
  by (rule private_conversation[OF refl refl _ example_lib_ok]) (simp_all add: is_text_def encode_def utf8_head_def)

section \<open>One session against the network\<close>

fun decrypt_run :: "prims \<Rightarrow> (real \<times> pyobj) list \<Rightarrow> session \<Rightarrow> pyval list \<times> session" where
  "decrypt_run cr [] s = ([], s)"
| "decrypt_run cr ((now, c) # r) s = (case decrypt_message cr now c s of (res, s') \<Rightarrow> (case decrypt_run cr r s' of
      (vs, u) \<Rightarrow> ((case res of Inr _ \<Rightarrow> oget c ''seq'' # vs | Inl _ \<Rightarrow> vs), u)))"

text \<open>
  C22. Whatever contents arrive, in whatever order and at whatever times, the sequence numbers of those that decrypt
  strictly increase from the next one expected: no message decrypts twice.  This holds in the strict and in the window
  mode, and also after the entries of the table of used numbers expired.
\<close>
theorem no_message_twice:
  "\<exists>is. map as_index (fst (decrypt_run cr atts s)) = map Inr is \<and> sorted_wrt (<) is \<and> list_all (\<lambda>i. sm_recv (ss_seq s) \<le> i) is"
proof (induction cr atts s rule: decrypt_run.induct)
  case (2 cr now c r s)
  obtain res s' where d: "decrypt_message cr now c s = (res, s')" by fastforce
  obtain vs u where run: "decrypt_run cr r s' = (vs, u)" by fastforce
  obtain js where js: "map as_index vs = map Inr js" "sorted_wrt (<) js" "list_all (\<lambda>i. sm_recv (ss_seq s') \<le> i) js"
    using 2 d run by fastforce
  show ?case
  proof (cases "\<exists>i. ratchet_moved cr c s s' i")
    case True
    then obtain i where i: "as_index (oget c ''seq'') = Inr i" "sm_recv (ss_seq s) \<le> i" "sm_recv (ss_seq s') = i + 1"
      by (auto simp: ratchet_moved_def)
    have lt: "list_all (\<lambda>j. i < j) js" using js(3) i(3) by (auto simp: list_all_iff)
    show ?thesis
    proof (cases res)
      case (Inr x)
      have "map as_index (fst (decrypt_run cr ((now, c) # r) s)) = map Inr (i # js)" using js(1) i(1) by (simp add: d Inr run)
      moreover have "sorted_wrt (<) (i # js)" "list_all (\<lambda>j. sm_recv (ss_seq s) \<le> j) (i # js)"
        using js(2) lt i(2) by (auto simp: list_all_iff)
      ultimately show ?thesis by blast
    next
      case (Inl e)
      then have "map as_index (fst (decrypt_run cr ((now, c) # r) s)) = map Inr js" using js(1) by (simp add: d run Inl)
      moreover have "list_all (\<lambda>j. sm_recv (ss_seq s) \<le> j) js" using lt i(2) by (auto simp: list_all_iff)
      ultimately show ?thesis using js(2) by blast
    qed
  next
    case False
    then obtain e where e: "res = Inl e" "ratchet_kept s s'" using decrypt_outcome[OF d] by blast
    then have "sm_recv (ss_seq s') = sm_recv (ss_seq s)" by (auto simp: ratchet_kept_def)
    then show ?thesis using js by (auto simp: d e(1) run)
  qed
qed simp

text \<open>
  The type of a message is not protected: the content of the next message with another type decrypts as well, and
  without the type it raises after the ratchet moved, so that the genuine message, delivered later, is refused.
\<close>
theorem type_unprotected:
  assumes "active_as sid t" and "ss_recv t = Some ck" and "sm_recv (ss_seq t) = n" and "0 < sm_skip (ss_seq t)" and "dget (sm_used (ss_seq t)) n = None"
    and "derive_message_key cr ck n = Inr (k, nonce, ck')" and "aead_ok cr" and "utf8_ok (encode p)"
    and "m = build_e2ee_msg sid n ty (encrypt_aes_128_gcm cr (encode p) k nonce (encode sid))"
  shows "fst (decrypt_message cr now (dset ''original_type'' v m) t) = Inr (v, p) \<and>
    fst (decrypt_message cr now (ddel ''original_type'' m) t) = Inl (KeyError ''original_type'') \<and>
    fst (decrypt_message cr later m (snd (decrypt_message cr now (ddel ''original_type'' m) t))) = Inl (ValueError ''Invalid seq'')"
proof -
  let ?c = "encrypt_aes_128_gcm cr (encode p) k nonce (encode sid)"
  let ?m = "dset ''original_type'' v m" and ?d = "ddel ''original_type'' m"
  let ?t = "t\<lparr>ss_recv := Some ck', ss_seq := advance_recv_to n (mark_seq_used now n (ss_seq t))\<rparr>"
  have ver: "ensure_supported_e2ee_version cr x = Inr E2EE_VERSION" if "\<exists>r. x = (''e2ee_version'', PStr E2EE_VERSION) # r" for x
    using that supported_version by blast
  have vs: "ensure_supported_e2ee_version cr ?m = Inr E2EE_VERSION" "ensure_supported_e2ee_version cr ?d = Inr E2EE_VERSION"
    "ensure_supported_e2ee_version cr m = Inr E2EE_VERSION"
    by (rule ver, simp add: assms(9) build_e2ee_msg_def)+
  have i: "dget m ''seq'' = Some (PInt n)" "dget m ''ciphertext'' = Some (PStr ?c)" by (simp_all add: assms(9) build_e2ee_msg_def)
  have q: "validate_recv_seq now (PInt n) (ss_seq t) = (Inr True, ss_seq t)" using assms(3-5) by (auto simp: validate_unused)
  have g: "decrypt_aes_128_gcm cr (PStr ?c) k nonce (encode sid) = Inr (encode p)" by (rule gcm_roundtrip[OF assms(7)])
  note D = decrypt_message_def sx_bind_on_seq sx_bind_lift sx_bind_simps session_aad_def chain_key_def as_index_def
  have 1: "fst (decrypt_message cr now ?m t) = Inr (v, p)"
    using assms(1-3,6) by (simp add: D active_as_def vs i q g utf8_decode_encode[OF assms(8)])
  have 2: "decrypt_message cr now ?d t = (Inl (KeyError ''original_type''), ?t)"
    using assms(1-3,6) by (simp add: D active_as_def vs i q g)
  obtain q' where "validate_recv_seq later (PInt n) (advance_recv_to n (mark_seq_used now n (ss_seq t))) = (Inr False, q')"
    using validate_past[of n "advance_recv_to n (mark_seq_used now n (ss_seq t))"] by (auto simp: advance_recv_to_def)
  then have 3: "fst (decrypt_message cr later m ?t) = Inl (ValueError ''Invalid seq'')"
    using assms(1) by (simp add: D active_as_def vs i)
  show ?thesis using 1 2 3 by simp
qed

theorem type_unprotected_witness:
  "\<exists>k nonce. let t = (new_session 0 ''b'' ''a'' [2] ''kb'' [] '''' False 60)\<lparr>ss_state := SActive, ss_id := Some ''id'', ss_recv := Some [5]\<rparr>;
       m = build_e2ee_msg ''id'' 0 ''text'' (encrypt_aes_128_gcm example_lib (encode ''hi'') k nonce (encode ''id''))
     in fst (decrypt_message example_lib 1 (dset ''original_type'' (PStr ''image'') m) t) = Inr (PStr ''image'', ''hi'') \<and>
        fst (decrypt_message example_lib 1 (ddel ''original_type'' m) t) = Inl (KeyError ''original_type'') \<and>
        fst (decrypt_message example_lib 2 m (snd (decrypt_message example_lib 1 (ddel ''original_type'' m) t))) = Inl (ValueError ''Invalid seq'')"
proof -
  let ?t = "(new_session 0 ''b'' ''a'' [2] ''kb'' [] '''' False 60)\<lparr>ss_state := SActive, ss_id := Some ''id'', ss_recv := Some [5]\<rparr>"
  obtain k nonce ck' where d: "derive_message_key example_lib [5] 0 = Inr (k, nonce, ck')" using derive_total[of 0] by fastforce
  have a: "aead_ok example_lib" using example_lib_ok by (simp add: lib_ok_def)
  show ?thesis
    by (rule exI[of _ k], rule exI[of _ nonce], simp only: Let_def, rule type_unprotected[of "''id''" ?t "[5]" 0 example_lib k nonce ck' "''hi''"])
      (simp_all add: d a active_as_def new_session_def new_seqman_def encode_def utf8_head_def)
qed

text \<open>
  C23. A rekey message is accepted again for as long as its proof is fresh, also by the session it made, and restarts the
  ratchet from the same seed: the first message encrypted after it uses the key and the nonce that the first message
  after the original had used.
\<close>
theorem rekey_again_reuses_nonce:
  assumes "process_rekey cr n1 c pk s = (Inr (), s1)" and "py_int (dgetd c ''expires'' (PInt (ss_default s))) = Inr ex"
    and "check_init_proof cr n2 c pk ex = Inr ()"
    and "ss_local s2 = ss_local s" and "ss_peer s2 = ss_peer s" and "ss_sk s2 = ss_sk s" and "ss_default s2 = ss_default s"
  shows "\<exists>s3 sid k nonce. process_rekey cr n2 c pk s2 = (Inr (), s3) \<and>
    (\<forall>ty p. fst (encrypt_message cr ty p s1) = Inr (build_e2ee_msg sid 0 ty (b64encode (cr_seal cr k nonce (encode p) (encode sid)))) \<and>
            fst (encrypt_message cr ty p s3) = Inr (build_e2ee_msg sid 0 ty (b64encode (cr_seal cr k nonce (encode p) (encode sid)))))"
proof -
  have p: "process_init cr n1 c pk (forget_keys s) = (Inr (), s1)" using assms(1) by (simp add: process_rekey_def sx_bind_simps)
  have d: "ss_default (forget_keys s) = ss_default s" by (simp add: forget_keys_def)
  obtain seed sid where s1: "s1 = setup_chain_keys cr n1 seed ex (forget_keys s\<lparr>ss_id := Some sid\<rparr>)"
    and again: "\<And>n2 s2. ss_state s2 = SIdle \<Longrightarrow> ss_local s2 = ss_local (forget_keys s) \<Longrightarrow> ss_sk s2 = ss_sk (forget_keys s) \<Longrightarrow>
      ss_default s2 = ss_default s \<Longrightarrow> check_init_proof cr n2 c pk ex = Inr () \<Longrightarrow>
      process_init cr n2 c pk s2 = (Inr (), setup_chain_keys cr n2 seed ex (s2\<lparr>ss_id := Some sid\<rparr>))"
    using process_init_again[OF p, unfolded d, OF assms(2)] by blast
  let ?s3 = "setup_chain_keys cr n2 seed ex (forget_keys s2\<lparr>ss_id := Some sid\<rparr>)"
  have r: "process_rekey cr n2 c pk s2 = (Inr (), ?s3)"
    using assms(3-7) again[of "forget_keys s2" n2] by (simp add: process_rekey_def sx_bind_simps forget_keys_def)
  obtain ck where ck: "ss_send s1 = Some ck" using setup_fields(8) s1 by blast
  have ck3: "ss_send ?s3 = Some ck"
    using ck assms(4,5) by (simp add: s1 setup_chain_keys_def forget_keys_def assign_chain_keys_def Let_def split: prod.splits if_splits)
  obtain k nonce ck' where dk: "derive_message_key cr ck 0 = Inr (k, nonce, ck')" using derive_total[of 0] by fastforce
  have z: "sm_send (ss_seq s1) = 0" "sm_send (ss_seq ?s3) = 0" "active_as sid s1" "active_as sid ?s3"
    by (simp_all add: s1 active_as_def forget_keys_def seq_reset_def)
  have "fst (encrypt_message cr ty p s1) = Inr (build_e2ee_msg sid 0 ty (b64encode (cr_seal cr k nonce (encode p) (encode sid))))" for ty p
    using encrypt_active[OF z(3) ck, unfolded z(1), OF dk] by (simp add: encrypt_aes_128_gcm_def)
  moreover have "fst (encrypt_message cr ty p ?s3) = Inr (build_e2ee_msg sid 0 ty (b64encode (cr_seal cr k nonce (encode p) (encode sid))))" for ty p
    using encrypt_active[OF z(4) ck3, unfolded z(2), OF dk] by (simp add: encrypt_aes_128_gcm_def)
  ultimately show ?thesis using r by blast
qed

theorem rekey_again_reuses_nonce_witness:
  "\<exists>c s1 s3 sid k nonce. fst (initiate_rekey example_lib 100 [1] ''id'' [7] (cr_public example_lib [2]) ''kb'' (new_session 0 ''a'' ''b'' [1] ''ka'' [] '''' False 60)) = Inr c \<and>
    process_rekey example_lib 101 c [] (new_session 0 ''b'' ''a'' [2] ''kb'' [] '''' False 60) = (Inr (), s1) \<and>
    process_rekey example_lib 130 c [] (snd (encrypt_message example_lib ''text'' ''hi'' s1)) = (Inr (), s3) \<and>
    (\<forall>ty p. fst (encrypt_message example_lib ty p s1) = Inr (build_e2ee_msg sid 0 ty (b64encode (cr_seal example_lib k nonce (encode p) (encode sid)))) \<and>
            fst (encrypt_message example_lib ty p s3) = Inr (build_e2ee_msg sid 0 ty (b64encode (cr_seal example_lib k nonce (encode p) (encode sid)))))"
proof -
  let ?a = "new_session 0 ''a'' ''b'' [1] ''ka'' [] '''' False 60" and ?b = "new_session 0 ''b'' ''a'' [2] ''kb'' [] '''' False 60"
  have a: "ss_default (forget_keys ?a) = 60" "ss_peer (forget_keys ?a) = ''b''" and b: "ss_sk ?b = [2]" "ss_sk (forget_keys ?b) = [2]"
    "ss_state (forget_keys ?b) = SIdle" "ss_local (forget_keys ?b) = ''b''" by (simp_all add: forget_keys_def new_session_def)
  obtain enc ct p c where h: "hpke_open example_lib [2] enc ct (encode ''id'') [] = Inr [7]"
    "send_init example_lib 100 [1] ''id'' [7] (cr_public example_lib [2]) ''kb'' (forget_keys ?a) =
      (Inr c, setup_chain_keys example_lib 100 [7] 60 (forget_keys ?a\<lparr>ss_id := Some ''id''\<rparr>))"
    and c: "c = [(''e2ee_version'', PStr E2EE_VERSION), (''session_id'', PStr ''id''), (''hpke_suite'', PStr HPKE_SUITE),
        (''sender_did'', PStr (ss_local (forget_keys ?a))), (''recipient_did'', PStr ''b''), (''recipient_key_id'', PStr ''kb''),
        (''enc'', PStr (b64encode enc)), (''encrypted_seed'', PStr (b64encode ct)), (''expires'', PInt 60), (''proof'', p)]"
    and v: "\<forall>later. 0 \<le> (100::real) \<longrightarrow> 100 \<le> later \<longrightarrow> later - 100 + 1 \<le> of_int 60 \<longrightarrow> check_init_proof example_lib later c [] 60 = Inr ()"
    using send_init_content[OF example_lib_ok[of "forget_keys ?a" 0 "''b''" "''a''" "''kb''" "[]" "''''" False 60 "[]"], of "''id''" "[7]" 100 "''kb''"]
    unfolding a b by blast
  have v: "check_init_proof example_lib 101 c [] 60 = Inr ()" "check_init_proof example_lib 130 c [] 60 = Inr ()" using v by simp_all
  have i: "fst (initiate_rekey example_lib 100 [1] ''id'' [7] (cr_public example_lib [2]) ''kb'' ?a) = Inr c"
    unfolding initiate_rekey_def sx_bind_simps h(2) fst_conv ..
  have o: "hpke_open example_lib (ss_sk (forget_keys ?b)) enc ct (encode ''id'') [] = Inr [7]" unfolding b(2) by (rule h(1))
  let ?s1 = "setup_chain_keys example_lib 101 [7] 60 (forget_keys ?b\<lparr>ss_id := Some ''id''\<rparr>)"
  have s1: "process_rekey example_lib 101 c [] ?b = (Inr (), ?s1)"
    unfolding process_rekey_def sx_bind_simps by (rule process_init_accepts[OF b(3,4) o c v(1)])
  have g: "ss_local ?s1 = ss_local ?b" "ss_peer ?s1 = ss_peer ?b" "ss_sk ?s1 = ss_sk ?b" "ss_default ?s1 = ss_default ?b"
    by (simp_all add: forget_keys_def)
  have e: "py_int (dgetd c ''expires'' (PInt (ss_default ?b))) = Inr 60" by (simp add: c dgetd_def)
  have f: "ss_local (snd (encrypt_message example_lib ty p s)) = ss_local s" "ss_peer (snd (encrypt_message example_lib ty p s)) = ss_peer s"
    "ss_sk (snd (encrypt_message example_lib ty p s)) = ss_sk s" "ss_default (snd (encrypt_message example_lib ty p s)) = ss_default s" for ty p s
    by (auto simp: encrypt_message_def sx_bind_simps sx_bind_lift sx_bind_on_seq next_send_seq_def sx_get_def split: sum.splits)
  obtain s3 sid k nonce where "process_rekey example_lib 130 c [] (snd (encrypt_message example_lib ''text'' ''hi'' ?s1)) = (Inr (), s3)"
    "\<forall>ty p. fst (encrypt_message example_lib ty p ?s1) = Inr (build_e2ee_msg sid 0 ty (b64encode (cr_seal example_lib k nonce (encode p) (encode sid)))) \<and>
            fst (encrypt_message example_lib ty p s3) = Inr (build_e2ee_msg sid 0 ty (b64encode (cr_seal example_lib k nonce (encode p) (encode sid))))"
    using rekey_again_reuses_nonce[OF s1 e v(2), of "snd (encrypt_message example_lib ''text'' ''hi'' ?s1)", unfolded f g, OF refl refl refl refl] by (elim exE conjE)
  then show ?thesis using i s1 by (intro exI conjI)
qed

text \<open>
  Any rekey content that is refused, a forged or malformed one included, has already destroyed the session: no
  message can be encrypted or decrypted any more.
\<close>
theorem refused_rekey_kills_session:
  assumes "fst (process_rekey cr now c pk s) = Inl e"
  shows "snd (process_rekey cr now c pk s) = forget_keys s \<and>
    fst (encrypt_message cr ty p (snd (process_rekey cr now c pk s))) = Inl (RuntimeError ''Cannot encrypt'') \<and>
    fst (decrypt_message cr later m (snd (process_rekey cr now c pk s))) = Inl (RuntimeError ''Cannot decrypt'')"
proof -
  have "snd (process_rekey cr now c pk s) = forget_keys s"
    using assms process_rekey_fails[of cr now c pk s e] by (metis prod.collapse)
  then show ?thesis by (simp add: encrypt_message_def decrypt_message_def sx_bind_simps forget_keys_def)
qed

theorem refused_rekey_kills_session_witness:
  "let s = (new_session 0 ''b'' ''a'' [2] ''kb'' [] '''' False 60)\<lparr>ss_state := SActive, ss_id := Some ''id'', ss_recv := Some [5]\<rparr>;
       t = snd (process_rekey example_lib 1 [] [] s)
   in t = forget_keys s \<and> fst (encrypt_message example_lib ''text'' ''hi'' t) = Inl (RuntimeError ''Cannot encrypt'') \<and>
     fst (decrypt_message example_lib 1 [] t) = Inl (RuntimeError ''Cannot decrypt'')"
proof -
  let ?s = "(new_session 0 ''b'' ''a'' [2] ''kb'' [] '''' False 60)\<lparr>ss_state := SActive, ss_id := Some ''id'', ss_recv := Some [5]\<rparr>"
  have "fst (process_rekey example_lib 1 [] [] ?s) = Inl (ValueError ''unsupported_version: missing'')"
    by (simp add: process_rekey_def process_init_def sx_bind_lift sx_bind_simps forget_keys_def ensure_supported_e2ee_version_def dgetd_def py_strip_def py_str_def)
  then show ?thesis unfolding Let_def by (rule refused_rekey_kills_session)
qed

end
