(* ===== verification/E2eeGroup.thy ===== *)
theory E2eeGroup
  imports E2eeChat
begin

text \<open>
  Group encryption with sender keys (\<open>e2e_encryption_hpke/group_session.py\<close>): a member distributes the chain key of its own
  ratchet, the others decrypt with their copy of it.
\<close>

section \<open>State\<close>

record skey =
  sk_chain :: bytes
  sk_sender :: pyval
  sk_epoch :: pyval
  sk_id :: pyval
  sk_local :: bool
  sk_read_only :: bool
  sk_expires :: real
  sk_seq :: seqman

definition new_skey :: "real \<Rightarrow> bytes \<Rightarrow> pyval \<Rightarrow> pyval \<Rightarrow> pyval \<Rightarrow> real \<Rightarrow> bool \<Rightarrow> skey" where
  "new_skey now chain sender epoch key_id expires local =
     \<lparr>sk_chain = chain, sk_sender = sender, sk_epoch = epoch, sk_id = key_id, sk_local = local, sk_read_only = False,
      sk_expires = now + expires, sk_seq = new_seqman False\<rparr>"

definition skey_expired :: "real \<Rightarrow> skey \<Rightarrow> bool" where
  "skey_expired now k \<longleftrightarrow> now > sk_expires k"

type_synonym key_tuple = "pyval \<times> pyval \<times> pyval"

record group =
  gr_did :: string
  gr_me :: string
  gr_sk :: bytes
  gr_key_id :: string
  gr_signing :: bytes
  gr_vm :: string
  gr_epoch :: pyval
  gr_window :: bool
  gr_own :: "skey option"
  gr_remote :: "(key_tuple, skey) pydict"
  gr_received :: "key_tuple list"

definition new_group :: "string \<Rightarrow> string \<Rightarrow> bytes \<Rightarrow> string \<Rightarrow> bytes \<Rightarrow> string \<Rightarrow> pyval \<Rightarrow> bool \<Rightarrow> group" where
  "new_group group_did local_did sk key_id signing vm epoch window =
     \<lparr>gr_did = group_did, gr_me = local_did, gr_sk = sk, gr_key_id = key_id, gr_signing = signing, gr_vm = vm, gr_epoch = epoch,
      gr_window = window, gr_own = None, gr_remote = [], gr_received = []\<rparr>"

text \<open>The tuple as a key of a table: its parts must be hashable, and equal numbers are one key.\<close>

definition make_tuple :: "pyval \<Rightarrow> pyval \<Rightarrow> pyval \<Rightarrow> key_tuple result" where
  "make_tuple sender epoch key_id = bindE (hkey sender) (\<lambda>a. bindE (hkey epoch) (\<lambda>b. bindE (hkey key_id) (\<lambda>c. Inr (a, b, c))))"

definition generate_sender_key_id :: "prims \<Rightarrow> string \<Rightarrow> pyval \<Rightarrow> string" where
  "generate_sender_key_id cr sender_did epoch = take 6 (cr_sha256 cr (encode sender_did)) @ '':'' @ py_str (cr_str cr) epoch"

section \<open>Distributing the own key\<close>

definition generate_sender_key :: "prims \<Rightarrow> real \<Rightarrow> bytes \<Rightarrow> group \<Rightarrow> group" where
  "generate_sender_key cr now chain g =
     g\<lparr>gr_own := Some (new_skey now chain (PStr (gr_me g)) (gr_epoch g) (PStr (generate_sender_key_id cr (gr_me g) (gr_epoch g))) (of_int DEFAULT_EXPIRES) True)\<rparr>"

definition key_text :: "skey \<Rightarrow> string" where
  "key_text k = (case sk_id k of PStr s \<Rightarrow> s | _ \<Rightarrow> [])"

definition build_sender_key_distribution :: "prims \<Rightarrow> real \<Rightarrow> bytes \<Rightarrow> bytes \<Rightarrow> string \<Rightarrow> group \<Rightarrow> pyobj result" where
  "build_sender_key_distribution cr now ek recipient_pk recipient_key_id g = (case gr_own g of
      None \<Rightarrow> Inl (RuntimeError ''No local sender key generated'')
    | Some k \<Rightarrow> build_group_e2ee_key cr now ek (gr_did g) (gr_epoch g) (gr_me g) (key_text k) recipient_key_id recipient_pk (sk_chain k)
        (gr_signing g) (gr_vm g) DEFAULT_EXPIRES)"

definition process_sender_key :: "prims \<Rightarrow> real \<Rightarrow> pyobj \<Rightarrow> bytes \<Rightarrow> (group, unit) sx" where
  "process_sender_key cr now content sender_pk =
     sx_bind (sx_lift (ensure_supported_e2ee_version cr content)) (\<lambda>_.
     sx_bind (sx_lift (verify_proof cr now content sender_pk None (Some MAX_PAST_AGE) MAX_FUTURE_SKEW)) (\<lambda>ok.
     if \<not> ok then sx_raise (ValueError ''group_e2ee_key proof verification failed'')
     else
       sx_bind (sx_lift (pindex (PDict content) ''sender_did'')) (\<lambda>sender.
       sx_bind (sx_lift (pindex (PDict content) ''epoch'')) (\<lambda>epoch.
       sx_bind (sx_lift (pindex (PDict content) ''sender_key_id'')) (\<lambda>key_id.
       sx_bind (sx_lift (make_tuple sender epoch key_id)) (\<lambda>tuple.
       sx_bind (sx_get gr_received) (\<lambda>received.
       if tuple \<in> set received then sx_raise (ValueError ''Duplicate sender key'')
       else
         sx_bind (sx_lift (bindE (pindex (PDict content) ''enc'') b64_value)) (\<lambda>enc.
         sx_bind (sx_lift (bindE (pindex (PDict content) ''encrypted_sender_key'') b64_value)) (\<lambda>ct.
         sx_bind (sx_lift (pindex (PDict content) ''group_did'')) (\<lambda>did.
         sx_bind (sx_get gr_sk) (\<lambda>sk.
         sx_bind (sx_lift (hpke_open cr sk enc ct (group_key_aad cr did epoch key_id) [])) (\<lambda>chain.
         sx_bind (sx_lift (to_num (dgetd content ''expires'' (PInt DEFAULT_EXPIRES)))) (\<lambda>expires.
         sx_modify (\<lambda>g. g\<lparr>gr_remote := dset tuple (new_skey now chain sender epoch key_id expires False) (gr_remote g),
           gr_received := gr_received g @ [tuple]\<rparr>))))))))))))))"

section \<open>Messages\<close>

definition group_aad :: "prims \<Rightarrow> pyval \<Rightarrow> pyval \<Rightarrow> bytes" where
  "group_aad cr did epoch = encode (py_str (cr_str cr) did @ '':'' @ py_str (cr_str cr) epoch)"

definition encrypt_group_message :: "prims \<Rightarrow> string \<Rightarrow> string \<Rightarrow> (group, pyobj) sx" where
  "encrypt_group_message cr original_type plaintext g = (case gr_own g of
      None \<Rightarrow> (Inl (RuntimeError ''No local sender key generated''), g)
    | Some k \<Rightarrow>
        if sk_read_only k then (Inl (RuntimeError ''Local sender key is read-only''), g)
        else (case next_send_seq (sk_seq k) of
            (Inl e, q) \<Rightarrow> (Inl e, g)
          | (Inr seq, q) \<Rightarrow> (case derive_group_message_key cr (sk_chain k) seq of
                Inl e \<Rightarrow> (Inl e, g\<lparr>gr_own := Some (k\<lparr>sk_seq := q\<rparr>)\<rparr>)
              | Inr (key, nonce, chain) \<Rightarrow>
                  (Inr (build_group_e2ee_msg (gr_did g) (gr_epoch g) (gr_me g) (key_text k) seq original_type
                     (encrypt_aes_128_gcm cr (encode plaintext) key nonce (group_aad cr (PStr (gr_did g)) (gr_epoch g)))),
                   g\<lparr>gr_own := Some (k\<lparr>sk_seq := q, sk_chain := chain\<rparr>)\<rparr>))))"

text \<open>What the receiver does with the state of the sender's key.\<close>

definition open_with_key :: "prims \<Rightarrow> real \<Rightarrow> pyobj \<Rightarrow> pyval \<Rightarrow> pyval \<Rightarrow> (skey, bytes) sx" where
  "open_with_key cr now content epoch v =
     sx_bind (\<lambda>k. case validate_recv_seq now v (sk_seq k) of (r, q) \<Rightarrow> (r, k\<lparr>sk_seq := q\<rparr>)) (\<lambda>ok.
     if \<not> ok then sx_raise (ValueError ''Invalid seq'')
     else
       sx_bind (sx_lift (as_index v)) (\<lambda>seq.
       sx_bind (sx_get (\<lambda>k. bindE (fast_forward (derive_group_message_key cr) (sm_recv (sk_seq k)) seq (sk_chain k)) (\<lambda>ck. derive_group_message_key cr ck seq))) (\<lambda>r.
       sx_bind (sx_lift r) (\<lambda>(key, nonce, chain).
       sx_bind (sx_lift (pindex (PDict content) ''group_did'')) (\<lambda>did.
       sx_bind (sx_lift (bindE (pindex (PDict content) ''ciphertext'') (\<lambda>c. decrypt_aes_128_gcm cr c key nonce (group_aad cr did epoch)))) (\<lambda>plain.
       sx_then (sx_modify (\<lambda>k. k\<lparr>sk_chain := chain, sk_seq := advance_recv_to seq (mark_seq_used now seq (sk_seq k))\<rparr>))
         (sx_return plain)))))))"

definition decrypt_group_message :: "prims \<Rightarrow> real \<Rightarrow> pyobj \<Rightarrow> (group, pyval \<times> string) sx" where
  "decrypt_group_message cr now content =
     sx_bind (sx_lift (ensure_supported_e2ee_version cr content)) (\<lambda>_.
     sx_bind (sx_lift (pindex (PDict content) ''sender_did'')) (\<lambda>sender.
     sx_bind (sx_lift (pindex (PDict content) ''epoch'')) (\<lambda>epoch.
     sx_bind (sx_lift (pindex (PDict content) ''sender_key_id'')) (\<lambda>key_id.
     sx_bind (sx_lift (pindex (PDict content) ''seq'')) (\<lambda>v.
     sx_bind (sx_lift (make_tuple sender epoch key_id)) (\<lambda>tuple.
     sx_bind (\<lambda>g. case dget (gr_remote g) tuple of
         None \<Rightarrow> (Inl (ValueError ''Sender key not found''), g)
       | Some k \<Rightarrow> (case open_with_key cr now content epoch v k of (r, k') \<Rightarrow> (r, g\<lparr>gr_remote := dset tuple k' (gr_remote g)\<rparr>))) (\<lambda>plain.
     sx_bind (sx_lift (pindex (PDict content) ''original_type'')) (\<lambda>ty.
     sx_bind (sx_lift (utf8_decode plain)) (\<lambda>txt.
     sx_return (ty, txt))))))))))"

section \<open>Epochs\<close>

text \<open>\<open>new_epoch <= self._epoch\<close>\<close>

definition not_above :: "pyval \<Rightarrow> pyval \<Rightarrow> bool result" where
  "not_above a b = bindE (py_lt b a) (\<lambda>lt. Inr (\<not> lt))"

definition advance_epoch :: "pyval \<Rightarrow> (group, unit) sx" where
  "advance_epoch new_epoch =
     sx_bind (sx_get (\<lambda>g. not_above new_epoch (gr_epoch g))) (\<lambda>r. sx_bind (sx_lift r) (\<lambda>stale.
     if stale then sx_raise (ValueError ''New epoch must be greater'')
     else sx_modify (\<lambda>g. g\<lparr>
       gr_remote := map (\<lambda>(t, k). (t, if py_eq (sk_epoch k) (gr_epoch g) then k\<lparr>sk_read_only := True\<rparr> else k)) (gr_remote g),
       gr_epoch := new_epoch, gr_own := None\<rparr>)))"

definition process_epoch_advance :: "prims \<Rightarrow> real \<Rightarrow> pyobj \<Rightarrow> bytes \<Rightarrow> (group, unit) sx" where
  "process_epoch_advance cr now content admin_pk =
     sx_bind (sx_lift (ensure_supported_e2ee_version cr content)) (\<lambda>_.
     sx_bind (sx_lift (verify_proof cr now content admin_pk None (Some MAX_PAST_AGE) MAX_FUTURE_SKEW)) (\<lambda>ok.
     if \<not> ok then sx_raise (ValueError ''group_epoch_advance proof verification failed'')
     else
       sx_bind (sx_lift (pindex (PDict content) ''new_epoch'')) (\<lambda>new_epoch.
       sx_bind (sx_get (\<lambda>g. not_above new_epoch (gr_epoch g))) (\<lambda>r. sx_bind (sx_lift r) (\<lambda>stale.
       if stale then sx_raise (ValueError ''Epoch not increasing'') else advance_epoch new_epoch)))))"

definition group_cleanup_expired :: "real \<Rightarrow> group \<Rightarrow> group" where
  "group_cleanup_expired now g = g\<lparr>gr_remote := filter (\<lambda>(t, k). \<not> skey_expired now k) (gr_remote g)\<rparr>"


section \<open>Distribution\<close>

lemma version_first:
  "ensure_supported_e2ee_version cr (build_group_e2ee_msg gd ep me kid n ty ct) = Inr E2EE_VERSION"
  unfolding build_group_e2ee_msg_def by (rule supported_version)

definition group_lib_ok :: "prims \<Rightarrow> bytes \<Rightarrow> group \<Rightarrow> group \<Rightarrow> bytes \<Rightarrow> bool" where
  "group_lib_ok cr ek g m pk \<longleftrightarrow> aead_ok cr \<and> exchange_ok cr ek (gr_sk m) \<and> signature_ok cr (gr_signing g) pk \<and> stamp_ok cr \<and> jcs_total cr"

text \<open>What a member sends for its key, and that a fresh copy of it reaches another member's tables.\<close>

lemma distribution_content:
  assumes "group_lib_ok cr ek g m pk" and "gr_own g = Some k" and "sk_id k = PStr kid" and "0 \<le> now" and "now \<le> later"
    and "later - now + 1 \<le> of_int MAX_PAST_AGE"
  shows "\<exists>enc ct p c. hpke_open cr (gr_sk m) enc ct (group_key_aad cr (PStr (gr_did g)) (gr_epoch g) (PStr kid)) [] = Inr (sk_chain k) \<and>
    build_sender_key_distribution cr now ek (cr_public cr (gr_sk m)) rkid g = Inr c \<and>
    c = [(''e2ee_version'', PStr E2EE_VERSION), (''group_did'', PStr (gr_did g)), (''epoch'', gr_epoch g), (''sender_did'', PStr (gr_me g)),
        (''sender_key_id'', PStr kid), (''recipient_key_id'', PStr rkid), (''hpke_suite'', PStr HPKE_SUITE),
        (''enc'', PStr (b64encode enc)), (''encrypted_sender_key'', PStr (b64encode ct)), (''expires'', PInt DEFAULT_EXPIRES), (''proof'', p)] \<and>
    verify_proof cr later c pk None (Some MAX_PAST_AGE) MAX_FUTURE_SKEW = Inr True"
proof -
  have ok: "aead_ok cr" "exchange_ok cr ek (gr_sk m)" "signature_ok cr (gr_signing g) pk" "stamp_ok cr" "jcs_total cr"
    using assms(1) by (simp_all add: group_lib_ok_def)
  obtain enc ct where h: "hpke_seal cr ek (cr_public cr (gr_sk m)) (sk_chain k) (group_key_aad cr (PStr (gr_did g)) (gr_epoch g) (PStr kid)) [] = Inr (enc, ct)"
    "hpke_open cr (gr_sk m) enc ct (group_key_aad cr (PStr (gr_did g)) (gr_epoch g) (PStr kid)) [] = Inr (sk_chain k)"
    using hpke_roundtrip[OF ok(1,2)] by blast
  let ?c = "[(''e2ee_version'', PStr E2EE_VERSION), (''group_did'', PStr (gr_did g)), (''epoch'', gr_epoch g), (''sender_did'', PStr (gr_me g)),
        (''sender_key_id'', PStr kid), (''recipient_key_id'', PStr rkid), (''hpke_suite'', PStr HPKE_SUITE),
        (''enc'', PStr (b64encode enc)), (''encrypted_sender_key'', PStr (b64encode ct)), (''expires'', PInt DEFAULT_EXPIRES)]"
  obtain p where p: "generate_proof cr now ?c (gr_signing g) (gr_vm g) None = Inr (dset ''proof'' p ?c)" using generate_proof_total[OF ok(3,5)] by blast
  have d: "dset ''proof'' p ?c = ?c @ [(''proof'', p)]" by simp
  have kt: "key_text k = kid" by (simp add: key_text_def assms(3))
  have b: "build_sender_key_distribution cr now ek (cr_public cr (gr_sk m)) rkid g = Inr (dset ''proof'' p ?c)"
    unfolding build_sender_key_distribution_def assms(2) option.case build_group_e2ee_key_def kt h(1) bindE_simps prod.case p ..
  have "validate_proof cr later (dset ''proof'' p ?c) pk (Some MAX_PAST_AGE) MAX_FUTURE_SKEW = Inr ()"
    by (rule proof_validates[OF p ok(3,5,4) assms(4-6)]) (simp add: MAX_FUTURE_SKEW_def)
  then have v: "verify_proof cr later (dset ''proof'' p ?c) pk None (Some MAX_PAST_AGE) MAX_FUTURE_SKEW = Inr True"
    by (simp add: verify_proof_def)
  show ?thesis
    by (rule exI[of _ enc], rule exI[of _ ct], rule exI[of _ p], rule exI[of _ "dset ''proof'' p ?c"]) (use h(2) b v in \<open>simp add: d\<close>)
qed

lemma process_distribution:
  assumes "c = [(''e2ee_version'', PStr E2EE_VERSION), (''group_did'', PStr gd), (''epoch'', ep), (''sender_did'', PStr me),
        (''sender_key_id'', PStr kid), (''recipient_key_id'', PStr rkid), (''hpke_suite'', PStr HPKE_SUITE),
        (''enc'', PStr (b64encode enc)), (''encrypted_sender_key'', PStr (b64encode ct)), (''expires'', PInt DEFAULT_EXPIRES), (''proof'', p)]"
    and "verify_proof cr later c pk None (Some MAX_PAST_AGE) MAX_FUTURE_SKEW = Inr True" and "hkey ep = Inr ep'"
    and "hpke_open cr (gr_sk m) enc ct (group_key_aad cr (PStr gd) ep (PStr kid)) [] = Inr chain"
  shows "process_sender_key cr later c pk m =
    (if (PStr me, ep', PStr kid) \<in> set (gr_received m) then (Inl (ValueError ''Duplicate sender key''), m)
     else (Inr (), m\<lparr>gr_remote := dset (PStr me, ep', PStr kid) (new_skey later chain (PStr me) ep (PStr kid) (of_int DEFAULT_EXPIRES) False) (gr_remote m),
       gr_received := gr_received m @ [(PStr me, ep', PStr kid)]\<rparr>))"
proof -
  have v: "ensure_supported_e2ee_version cr c = Inr E2EE_VERSION" unfolding assms(1) by (rule supported_version)
  have i: "dget c ''sender_did'' = Some (PStr me)" "dget c ''epoch'' = Some ep" "dget c ''sender_key_id'' = Some (PStr kid)"
    "dget c ''enc'' = Some (PStr (b64encode enc))" "dget c ''encrypted_sender_key'' = Some (PStr (b64encode ct))"
    "dget c ''group_did'' = Some (PStr gd)" "dgetd c ''expires'' d = PInt DEFAULT_EXPIRES" for d
    unfolding assms(1) by (simp_all add: dgetd_def)
  have t: "make_tuple (PStr me) ep (PStr kid) = Inr (PStr me, ep', PStr kid)" by (simp add: make_tuple_def assms(3))
  show ?thesis
    unfolding process_sender_key_def using assms(2,4)
    by (simp add: sx_bind_lift sx_bind_simps v i t b64_value_def to_num_def)
qed

section \<open>Messages under way\<close>

lemma derive_group_total: "0 \<le> n \<Longrightarrow> n < 2 ^ 64 \<Longrightarrow> \<exists>k nonce ck'. derive_group_message_key cr ck n = Inr (k, nonce, ck')"
  by (simp add: derive_group_message_key_def derive_key_def to_be_def Let_def)

lemma encrypt_group_active:
  assumes "gr_own g = Some k" and "\<not> sk_read_only k" and "derive_group_message_key cr (sk_chain k) (sm_send (sk_seq k)) = Inr (key, nonce, chain)"
  shows "encrypt_group_message cr ty p g =
    (Inr (build_group_e2ee_msg (gr_did g) (gr_epoch g) (gr_me g) (key_text k) (sm_send (sk_seq k)) ty
       (encrypt_aes_128_gcm cr (encode p) key nonce (group_aad cr (PStr (gr_did g)) (gr_epoch g)))),
     g\<lparr>gr_own := Some (k\<lparr>sk_seq := (sk_seq k)\<lparr>sm_send := sm_send (sk_seq k) + 1\<rparr>, sk_chain := chain\<rparr>)\<rparr>)"
  using assms by (simp add: encrypt_group_message_def next_send_seq_def)

lemma decrypt_group_lookup:
  assumes "hkey ep = Inr ep'" and "dget (gr_remote m) (PStr me, ep', PStr kid) = Some k" and "c = build_group_e2ee_msg gd ep me kid n ty ct"
    and "open_with_key cr now c ep (PInt n) k = (r, k')"
  shows "decrypt_group_message cr now c m =
    (bindE r (\<lambda>plain. bindE (utf8_decode plain) (\<lambda>txt. Inr (PStr ty, txt))), m\<lparr>gr_remote := dset (PStr me, ep', PStr kid) k' (gr_remote m)\<rparr>)"
proof -
  have i: "dget c ''sender_did'' = Some (PStr me)" "dget c ''epoch'' = Some ep" "dget c ''sender_key_id'' = Some (PStr kid)"
    "dget c ''seq'' = Some (PInt n)" "dget c ''original_type'' = Some (PStr ty)"
    by (simp_all add: assms(3) build_group_e2ee_msg_def)
  have t: "make_tuple (PStr me) ep (PStr kid) = Inr (PStr me, ep', PStr kid)" by (simp add: make_tuple_def assms(1))
  have v: "ensure_supported_e2ee_version cr c = Inr E2EE_VERSION" unfolding assms(3) by (rule version_first)
  show ?thesis
    using assms(2,4) by (cases r) (simp_all add: decrypt_group_message_def sx_bind_lift sx_bind_simps v i t sx_bind_def[of "\<lambda>g. case dget (gr_remote g) _ of None \<Rightarrow> _ g | Some k \<Rightarrow> _ g k"] split: sum.splits)
qed

lemma open_next:
  assumes "sm_recv (sk_seq k) = n" and "0 < sm_skip (sk_seq k)" and "dget (sm_used (sk_seq k)) n = None"
    and "derive_group_message_key cr (sk_chain k) n = Inr (key, nonce, chain)" and "aead_ok cr"
    and "c = build_group_e2ee_msg gd ep me kid n ty (encrypt_aes_128_gcm cr (encode p) key nonce (group_aad cr (PStr gd) ep))"
  shows "open_with_key cr now c ep (PInt n) k =
    (Inr (encode p), k\<lparr>sk_chain := chain, sk_seq := advance_recv_to n (mark_seq_used now n (sk_seq k))\<rparr>)"
proof -
  have i: "dget c ''group_did'' = Some (PStr gd)"
    "dget c ''ciphertext'' = Some (PStr (encrypt_aes_128_gcm cr (encode p) key nonce (group_aad cr (PStr gd) ep)))"
    by (simp_all add: assms(6) build_group_e2ee_msg_def)
  have q: "validate_recv_seq now (PInt n) (sk_seq k) = (Inr True, sk_seq k)" using assms(1-3) by (auto simp: validate_unused)
  have g: "decrypt_aes_128_gcm cr (PStr (encrypt_aes_128_gcm cr (encode p) key nonce (group_aad cr (PStr gd) ep))) key nonce (group_aad cr (PStr gd) ep) = Inr (encode p)"
    by (rule gcm_roundtrip[OF assms(5)])
  show ?thesis
    using assms(1,4) by (simp add: open_with_key_def sx_bind_simps sx_bind_def q as_index_def i g sx_lift_def sx_then_def sx_modify_def sx_return_def sx_get_def)
qed

fun group_say :: "prims \<Rightarrow> (string \<times> string) list \<Rightarrow> group \<Rightarrow> pyobj result list \<times> group" where
  "group_say cr [] g = ([], g)"
| "group_say cr ((ty, p) # ms) g = (case encrypt_group_message cr ty p g of (r, g1) \<Rightarrow> (case group_say cr ms g1 of (rs, g2) \<Rightarrow> (r # rs, g2)))"

fun group_hear :: "prims \<Rightarrow> (real \<times> pyobj) list \<Rightarrow> group \<Rightarrow> (pyval \<times> string) result list \<times> group" where
  "group_hear cr [] g = ([], g)"
| "group_hear cr ((now, c) # cs) g = (case decrypt_group_message cr now c g of (r, g1) \<Rightarrow> (case group_hear cr cs g1 of (rs, g2) \<Rightarrow> (r # rs, g2)))"

text \<open>The member \<open>m\<close> holds the sender's key of \<open>g\<close> at the point the sender is at.\<close>

definition in_step :: "group \<Rightarrow> group \<Rightarrow> bool" where
  "in_step g m \<longleftrightarrow> (\<exists>k kid k' ep. gr_own g = Some k \<and> \<not> sk_read_only k \<and> key_text k = kid \<and> hkey (gr_epoch g) = Inr ep \<and>
     dget (gr_remote m) (PStr (gr_me g), ep, PStr kid) = Some k' \<and> sk_chain k' = sk_chain k \<and> sm_recv (sk_seq k') = sm_send (sk_seq k) \<and>
     0 \<le> sm_send (sk_seq k) \<and> 0 < sm_skip (sk_seq k') \<and> (\<forall>i \<in> set (dkeys (sm_used (sk_seq k'))). i < sm_recv (sk_seq k')))"

definition own_seq :: "group \<Rightarrow> int" where
  "own_seq g = (case gr_own g of None \<Rightarrow> 0 | Some k \<Rightarrow> sm_send (sk_seq k))"

lemma in_step_message:
  assumes "in_step g m" and "aead_ok cr" and "own_seq g < 2 ^ 64" and "utf8_ok (encode p)"
  shows "\<exists>c g' m'. encrypt_group_message cr ty p g = (Inr c, g') \<and> decrypt_group_message cr now c m = (Inr (PStr ty, p), m') \<and>
    in_step g' m' \<and> own_seq g' = own_seq g + 1"
proof -
  obtain k kid k' ep where s: "gr_own g = Some k" "\<not> sk_read_only k" "key_text k = kid" "hkey (gr_epoch g) = Inr ep"
    "dget (gr_remote m) (PStr (gr_me g), ep, PStr kid) = Some k'" "sk_chain k' = sk_chain k" "sm_recv (sk_seq k') = sm_send (sk_seq k)"
    "0 \<le> sm_send (sk_seq k)" "0 < sm_skip (sk_seq k')" "\<forall>i \<in> set (dkeys (sm_used (sk_seq k'))). i < sm_recv (sk_seq k')"
    using assms(1) unfolding in_step_def by blast
  let ?n = "sm_send (sk_seq k)"
  obtain key nonce chain where d: "derive_group_message_key cr (sk_chain k) ?n = Inr (key, nonce, chain)"
    using derive_group_total[of ?n cr "sk_chain k"] assms(3) s(1,8) by (auto simp: own_seq_def)
  let ?c = "build_group_e2ee_msg (gr_did g) (gr_epoch g) (gr_me g) kid ?n ty
       (encrypt_aes_128_gcm cr (encode p) key nonce (group_aad cr (PStr (gr_did g)) (gr_epoch g)))"
  let ?g = "g\<lparr>gr_own := Some (k\<lparr>sk_seq := (sk_seq k)\<lparr>sm_send := ?n + 1\<rparr>, sk_chain := chain\<rparr>)\<rparr>"
  let ?k = "k'\<lparr>sk_chain := chain, sk_seq := advance_recv_to ?n (mark_seq_used now ?n (sk_seq k'))\<rparr>"
  let ?m = "m\<lparr>gr_remote := dset (PStr (gr_me g), ep, PStr kid) ?k (gr_remote m)\<rparr>"
  have e: "encrypt_group_message cr ty p g = (Inr ?c, ?g)" using encrypt_group_active[OF s(1,2) d] by (simp add: s(3))
  have u: "dget (sm_used (sk_seq k')) ?n = None" using dget_above[OF s(10)] by (simp add: s(7))
  have o: "open_with_key cr now ?c (gr_epoch g) (PInt ?n) k' = (Inr (encode p), ?k)"
    by (rule open_next[OF s(7,9) u _ assms(2) refl]) (simp add: s(6) d)
  have "decrypt_group_message cr now ?c m = (Inr (PStr ty, p), ?m)"
    using decrypt_group_lookup[OF s(4,5) refl o] by (simp add: utf8_decode_encode[OF assms(4)])
  moreover have "\<forall>i \<in> set (dkeys (dset ?n (now + sm_ttl (sk_seq k')) (sm_used (sk_seq k')))). i < ?n + 1"
    using s(7,10) by (auto simp: dkeys_dset)
  then have "in_step ?g ?m"
    using s by (simp add: in_step_def key_text_def advance_recv_to_def mark_seq_used_def)
  ultimately show ?thesis using e s(1) by (auto simp: own_seq_def)
qed

lemma in_step_messages:
  assumes "in_step g m" and "aead_ok cr" and "own_seq g + int (length ms) \<le> 2 ^ 64" and "list_all (\<lambda>(ty, p). utf8_ok (encode p)) ms"
    and "length ts = length ms"
  shows "\<exists>cs. fst (group_say cr ms g) = map Inr cs \<and> fst (group_hear cr (zip ts cs) m) = map (\<lambda>(ty, p). Inr (PStr ty, p)) ms"
  using assms
proof (induction ms arbitrary: g m ts)
  case (Cons x ms)
  obtain ty p where x: "x = (ty, p)" by fastforce
  obtain now ts' where ts: "ts = now # ts'" using Cons.prems(5) by (cases ts) auto
  have b: "own_seq g < 2 ^ 64" "utf8_ok (encode p)" using Cons.prems(3,4) by (simp_all add: x)
  obtain c g' m' where s: "encrypt_group_message cr ty p g = (Inr c, g')" "decrypt_group_message cr now c m = (Inr (PStr ty, p), m')"
    "in_step g' m'" "own_seq g' = own_seq g + 1"
    using in_step_message[OF Cons.prems(1,2) b] by blast
  obtain cs where cs: "fst (group_say cr ms g') = map Inr cs" "fst (group_hear cr (zip ts' cs) m') = map (\<lambda>(ty, p). Inr (PStr ty, p)) ms"
    using Cons.IH[OF s(3) Cons.prems(2), of ts'] Cons.prems(3-5) s(4) by (auto simp: ts)
  have "fst (group_say cr (x # ms) g) = map Inr (c # cs)" using cs(1) s(1) by (auto simp: x split: prod.splits)
  moreover have "fst (group_hear cr (zip ts (c # cs)) m) = map (\<lambda>(ty, p). Inr (PStr ty, p)) (x # ms)"
    using cs(2) s(2) by (auto simp: x ts split: prod.splits)
  ultimately show ?case by blast
qed simp

lemma example_group_ok: "group_lib_ok example_lib [1] g (new_group gd b [2] kid sig vm ep w) pk"
  using example_lib_ok[of "new_session 0 [] [] [] [] (gr_signing g) [] False 0" 0 "[]" "[]" "[]" "[]" "[]" False 0 pk]
  by (simp add: group_lib_ok_def lib_ok_def new_group_def new_session_def)

section \<open>Properties\<close>

text \<open>What a group session under construction keeps: its own key was made in the epoch it is in.\<close>

lemma generated_key:
  "gr_own (generate_sender_key cr t chain g) =
    Some (new_skey t chain (PStr (gr_me g)) (gr_epoch g) (PStr (generate_sender_key_id cr (gr_me g) (gr_epoch g))) (of_int DEFAULT_EXPIRES) True)"
  "gr_me (generate_sender_key cr t chain g) = gr_me g" "gr_epoch (generate_sender_key cr t chain g) = gr_epoch g"
  "gr_did (generate_sender_key cr t chain g) = gr_did g" "gr_signing (generate_sender_key cr t chain g) = gr_signing g"
  by (simp_all add: generate_sender_key_def)

lemma new_skey_fields [simp]:
  "sk_chain (new_skey t chain s e i x l) = chain" "sk_id (new_skey t chain s e i x l) = i" "sk_read_only (new_skey t chain s e i x l) = False"
  "sk_seq (new_skey t chain s e i x l) = new_seqman False" "key_text (new_skey t chain s e (PStr n) x l) = n"
  by (simp_all add: new_skey_def key_text_def)

lemma new_seqman_fields [simp]:
  "sm_send (new_seqman w) = 0" "sm_recv (new_seqman w) = 0" "sm_used (new_seqman w) = []" "sm_skip (new_seqman w) = 256" "sm_window (new_seqman w) = w"
  by (simp_all add: new_seqman_def)

text \<open>
  C24. Group chat: a member that receives the fresh sender key of another before its first message decrypts every message
  of it, in order, to what was said.
\<close>
theorem group_conversation:
  assumes "g = generate_sender_key cr t0 chain g0" and "group_lib_ok cr ek g m pk" and "hkey (gr_epoch g0) = Inr ep"
    and "(PStr (gr_me g0), ep, PStr (generate_sender_key_id cr (gr_me g0) (gr_epoch g0))) \<notin> set (gr_received m)"
    and "0 \<le> now" and "now \<le> later" and "later - now + 1 \<le> of_int MAX_PAST_AGE"
    and "list_all (\<lambda>(ty, p). utf8_ok (encode p)) ms" and "int (length ms) \<le> 2 ^ 64" and "length ts = length ms"
  shows "\<exists>c m' cs. build_sender_key_distribution cr now ek (cr_public cr (gr_sk m)) rkid g = Inr c \<and> process_sender_key cr later c pk m = (Inr (), m') \<and>
    fst (group_say cr ms g) = map Inr cs \<and> fst (group_hear cr (zip ts cs) m') = map (\<lambda>(ty, p). Inr (PStr ty, p)) ms"
proof -
  let ?kid = "generate_sender_key_id cr (gr_me g0) (gr_epoch g0)"
  let ?k = "new_skey t0 chain (PStr (gr_me g0)) (gr_epoch g0) (PStr ?kid) (of_int DEFAULT_EXPIRES) True"
  let ?r = "new_skey later chain (PStr (gr_me g0)) (gr_epoch g0) (PStr ?kid) (of_int DEFAULT_EXPIRES) False"
  note f = generated_key[of cr t0 chain g0, folded assms(1)]
  obtain enc ct p c where h: "hpke_open cr (gr_sk m) enc ct (group_key_aad cr (PStr (gr_did g)) (gr_epoch g) (PStr ?kid)) [] = Inr (sk_chain ?k)"
    "build_sender_key_distribution cr now ek (cr_public cr (gr_sk m)) rkid g = Inr c"
    and c: "c = [(''e2ee_version'', PStr E2EE_VERSION), (''group_did'', PStr (gr_did g)), (''epoch'', gr_epoch g), (''sender_did'', PStr (gr_me g)),
        (''sender_key_id'', PStr ?kid), (''recipient_key_id'', PStr rkid), (''hpke_suite'', PStr HPKE_SUITE),
        (''enc'', PStr (b64encode enc)), (''encrypted_sender_key'', PStr (b64encode ct)), (''expires'', PInt DEFAULT_EXPIRES), (''proof'', p)]"
    and v: "verify_proof cr later c pk None (Some MAX_PAST_AGE) MAX_FUTURE_SKEW = Inr True"
    using distribution_content[OF assms(2) f(1) new_skey_fields(2) assms(5-7), of rkid] by (elim exE conjE)
  let ?m = "m\<lparr>gr_remote := dset (PStr (gr_me g0), ep, PStr ?kid) ?r (gr_remote m), gr_received := gr_received m @ [(PStr (gr_me g0), ep, PStr ?kid)]\<rparr>"
  have e: "hkey (gr_epoch g) = Inr ep" using assms(3) f(3) by simp
  have m': "process_sender_key cr later c pk m = (Inr (), ?m)"
    using process_distribution[OF c v e h(1)] assms(4) by (simp add: f)
  have "in_step g ?m"
    unfolding in_step_def by (rule exI[of _ ?k], rule exI[of _ ?kid], rule exI[of _ ?r], rule exI[of _ ep]) (simp add: f assms(3))
  moreover have "aead_ok cr" using assms(2) by (simp add: group_lib_ok_def)
  moreover have "own_seq g + int (length ms) \<le> 2 ^ 64" using assms(9) by (simp add: own_seq_def f(1))
  ultimately obtain cs where "fst (group_say cr ms g) = map Inr cs" "fst (group_hear cr (zip ts cs) ?m) = map (\<lambda>(ty, p). Inr (PStr ty, p)) ms"
    using in_step_messages assms(8,10) by blast
  then show ?thesis using h(2) m' by blast
qed

theorem group_conversation_witness:
  "let g = generate_sender_key example_lib 0 [7] (new_group ''g'' ''a'' [1] ''ka'' [] '''' (PInt 0) False);
       m = new_group ''g'' ''b'' [2] ''kb'' [] '''' (PInt 0) False
   in \<exists>c m' cs. build_sender_key_distribution example_lib 100 [1] (cr_public example_lib (gr_sk m)) ''kb'' g = Inr c \<and>
     process_sender_key example_lib 110 c [] m = (Inr (), m') \<and> fst (group_say example_lib [(''text'', ''hi''), (''text'', ''ho'')] g) = map Inr cs \<and>
     fst (group_hear example_lib (zip [111, 112] cs) m') = map (\<lambda>(ty, p). Inr (PStr ty, p)) [(''text'', ''hi''), (''text'', ''ho'')]"
  unfolding Let_def
  by (rule group_conversation[OF refl example_group_ok, of _ "PFloat 0"])
    (simp_all add: hkey_def new_group_def MAX_PAST_AGE_def encode_def utf8_head_def)

definition sent :: "pyobj result list \<Rightarrow> pyobj list" where
  "sent rs = concat (map (\<lambda>r. case r of Inr c \<Rightarrow> [c] | Inl _ \<Rightarrow> []) rs)"

lemma numbers_mono:
  "list_all (\<lambda>c. \<exists>n ty ct. P n \<and> c = B n ty ct) cs \<Longrightarrow> (\<And>n. P n \<Longrightarrow> Q n) \<Longrightarrow> list_all (\<lambda>c. \<exists>n ty ct. Q n \<and> c = B n ty ct) cs"
  unfolding list_all_iff by blast

lemma encrypt_group_frame:
  assumes "encrypt_group_message cr ty p g = (r, g')" and "gr_own g = Some k"
  shows "\<exists>k'. gr_own g' = Some k' \<and> key_text k' = key_text k \<and> sm_send (sk_seq k) \<le> sm_send (sk_seq k')"
    and "gr_did g' = gr_did g \<and> gr_epoch g' = gr_epoch g \<and> gr_me g' = gr_me g"
    and "r = Inr c \<Longrightarrow> \<exists>ct. c = build_group_e2ee_msg (gr_did g) (gr_epoch g) (gr_me g) (key_text k) (sm_send (sk_seq k)) ty ct"
  using assms by (auto simp: encrypt_group_message_def next_send_seq_def key_text_def split: if_splits sum.splits prod.splits)

text \<open>What a sender says carries its number, which only grows, and its key id.\<close>

lemma group_say_shape:
  assumes "gr_own g = Some k" and "key_text k = kid"
  shows "list_all (\<lambda>c. \<exists>n ty ct. sm_send (sk_seq k) \<le> n \<and> c = build_group_e2ee_msg (gr_did g) (gr_epoch g) (gr_me g) kid n ty ct)
    (sent (fst (group_say cr ms g)))"
  using assms
proof (induction ms arbitrary: g k)
  case (Cons x ms)
  obtain ty p where x: "x = (ty, p)" by fastforce
  obtain r g' where e: "encrypt_group_message cr ty p g = (r, g')" by fastforce
  note f = encrypt_group_frame[OF e Cons.prems(1)]
  obtain k' where k': "gr_own g' = Some k'" "key_text k' = kid" "sm_send (sk_seq k) \<le> sm_send (sk_seq k')"
    using f(1) Cons.prems(2) by blast
  have same: "gr_did g' = gr_did g" "gr_epoch g' = gr_epoch g" "gr_me g' = gr_me g" using f(2) by blast+
  have ih: "list_all (\<lambda>c. \<exists>n ty ct. sm_send (sk_seq k) \<le> n \<and> c = build_group_e2ee_msg (gr_did g) (gr_epoch g) (gr_me g) kid n ty ct)
    (sent (fst (group_say cr ms g')))"
    by (rule numbers_mono[OF Cons.IH[OF k'(1,2), unfolded same]]) (use k'(3) in simp)
  show ?case
  proof (cases r)
    case (Inr c)
    then show ?thesis using ih f(3)[OF Inr] by (auto simp: x e sent_def Cons.prems(2) split: prod.splits)
  qed (use ih in \<open>auto simp: x e sent_def split: prod.splits\<close>)
qed (simp add: sent_def)

lemma strict_refuses:
  assumes "hkey ep = Inr ep'" and "dget (gr_remote m) (PStr me, ep', PStr kid) = Some k" and "\<not> sm_window (sk_seq k)" and "sm_used (sk_seq k) = []"
    and "sm_recv (sk_seq k) \<noteq> n"
  shows "decrypt_group_message cr now (build_group_e2ee_msg gd ep me kid n ty ct) m =
    (Inl (ValueError ''Invalid seq''), m\<lparr>gr_remote := dset (PStr me, ep', PStr kid) k (gr_remote m)\<rparr>)"
proof -
  let ?c = "build_group_e2ee_msg gd ep me kid n ty ct"
  have "validate_recv_seq now (PInt n) (sk_seq k) = (Inr False, sk_seq k)" using assms(3-5) by (auto simp: validate_unused)
  then have "open_with_key cr now ?c ep (PInt n) k = (Inl (ValueError ''Invalid seq''), k)"
    by (simp add: open_with_key_def sx_bind_def sx_raise_def)
  then show ?thesis using decrypt_group_lookup[OF assms(1,2) refl] by simp
qed

lemma all_refused:
  assumes "hkey ep = Inr ep'" and "dget (gr_remote m) (PStr me, ep', PStr kid) = Some k" and "\<not> sm_window (sk_seq k)" and "sm_used (sk_seq k) = []"
    and "list_all (\<lambda>c. \<exists>n ty ct. sm_recv (sk_seq k) \<noteq> n \<and> c = build_group_e2ee_msg gd ep me kid n ty ct) cs"
  shows "list_all (\<lambda>r. r = Inl (ValueError ''Invalid seq'')) (fst (group_hear cr (zip ts cs) m))"
  using assms
proof (induction cs arbitrary: ts m)
  case (Cons c cs)
  show ?case
  proof (cases ts)
    case (Cons now ts')
    obtain n ty ct where c: "sm_recv (sk_seq k) \<noteq> n" "c = build_group_e2ee_msg gd ep me kid n ty ct" using Cons.prems(5) by auto
    have "list_all (\<lambda>r. r = Inl (ValueError ''Invalid seq'')) (fst (group_hear cr (zip ts' cs) (m\<lparr>gr_remote := dset (PStr me, ep', PStr kid) k (gr_remote m)\<rparr>)))"
      using Cons.prems by (intro Cons.IH) simp_all
    then show ?thesis
      using strict_refuses[OF Cons.prems(1-4) c(1), of cr now gd ty ct] by (auto simp: Cons c(2) split: prod.splits)
  qed simp
qed simp

text \<open>
  A member whose copy of the sender key comes after the sender's first message accepts the key and can read nothing:
  its numbers start at zero and every later message of that key is refused, although the chain key it got is the right
  one.
\<close>
theorem late_key_useless:
  assumes "gr_own g = Some k" and "sk_id k = PStr kid" and "0 < sm_send (sk_seq k)" and "hkey (gr_epoch g) = Inr ep"
    and "group_lib_ok cr ek g m pk" and "(PStr (gr_me g), ep, PStr kid) \<notin> set (gr_received m)"
    and "0 \<le> now" and "now \<le> later" and "later - now + 1 \<le> of_int MAX_PAST_AGE"
  shows "\<exists>c m'. build_sender_key_distribution cr now ek (cr_public cr (gr_sk m)) rkid g = Inr c \<and> process_sender_key cr later c pk m = (Inr (), m') \<and>
    map_option sk_chain (dget (gr_remote m') (PStr (gr_me g), ep, PStr kid)) = Some (sk_chain k) \<and>
    (\<forall>ms ts. list_all (\<lambda>r. r = Inl (ValueError ''Invalid seq'')) (fst (group_hear cr (zip ts (sent (fst (group_say cr ms g)))) m')))"
proof -
  let ?r = "new_skey later (sk_chain k) (PStr (gr_me g)) (gr_epoch g) (PStr kid) (of_int DEFAULT_EXPIRES) False"
  let ?m = "m\<lparr>gr_remote := dset (PStr (gr_me g), ep, PStr kid) ?r (gr_remote m), gr_received := gr_received m @ [(PStr (gr_me g), ep, PStr kid)]\<rparr>"
  obtain enc ct p c where h: "hpke_open cr (gr_sk m) enc ct (group_key_aad cr (PStr (gr_did g)) (gr_epoch g) (PStr kid)) [] = Inr (sk_chain k)"
    "build_sender_key_distribution cr now ek (cr_public cr (gr_sk m)) rkid g = Inr c"
    and c: "c = [(''e2ee_version'', PStr E2EE_VERSION), (''group_did'', PStr (gr_did g)), (''epoch'', gr_epoch g), (''sender_did'', PStr (gr_me g)),
        (''sender_key_id'', PStr kid), (''recipient_key_id'', PStr rkid), (''hpke_suite'', PStr HPKE_SUITE),
        (''enc'', PStr (b64encode enc)), (''encrypted_sender_key'', PStr (b64encode ct)), (''expires'', PInt DEFAULT_EXPIRES), (''proof'', p)]"
    and v: "verify_proof cr later c pk None (Some MAX_PAST_AGE) MAX_FUTURE_SKEW = Inr True"
    using distribution_content[OF assms(5,1,2,7-9), of rkid] by (elim exE conjE)
  have m': "process_sender_key cr later c pk m = (Inr (), ?m)" using process_distribution[OF c v assms(4) h(1)] assms(6) by simp
  have kt: "key_text k = kid" by (simp add: key_text_def assms(2))
  have "list_all (\<lambda>r. r = Inl (ValueError ''Invalid seq'')) (fst (group_hear cr (zip ts (sent (fst (group_say cr ms g)))) ?m))" for ms ts
  proof (rule all_refused[OF assms(4), of _ "gr_me g" kid ?r])
    show "list_all (\<lambda>c. \<exists>n ty ct. sm_recv (sk_seq ?r) \<noteq> n \<and> c = build_group_e2ee_msg (gr_did g) (gr_epoch g) (gr_me g) kid n ty ct) (sent (fst (group_say cr ms g)))"
      by (rule numbers_mono[OF group_say_shape[OF assms(1) kt]]) (use assms(3) in simp)
  qed simp_all
  moreover have "map_option sk_chain (dget (gr_remote ?m) (PStr (gr_me g), ep, PStr kid)) = Some (sk_chain k)" by simp
  ultimately show ?thesis using h(2) m' by blast
qed

theorem late_key_useless_witness:
  "let k = new_skey 0 [7] (PStr ''a'') (PInt 0) (PStr ''x:0'') 60 True;
       g = (new_group ''g'' ''a'' [1] ''ka'' [] '''' (PInt 0) False)\<lparr>gr_own := Some (k\<lparr>sk_seq := (sk_seq k)\<lparr>sm_send := 1\<rparr>\<rparr>)\<rparr>;
       m = new_group ''g'' ''b'' [2] ''kb'' [] '''' (PInt 0) False
   in \<exists>c m'. build_sender_key_distribution example_lib 100 [1] (cr_public example_lib (gr_sk m)) ''kb'' g = Inr c \<and>
     process_sender_key example_lib 110 c [] m = (Inr (), m') \<and>
     map_option sk_chain (dget (gr_remote m') (PStr (gr_me g), PFloat 0, PStr ''x:0'')) = Some [7] \<and>
     (\<forall>ms ts. list_all (\<lambda>r. r = Inl (ValueError ''Invalid seq'')) (fst (group_hear example_lib (zip ts (sent (fst (group_say example_lib ms g)))) m')))"
proof -
  let ?k = "(new_skey 0 [7] (PStr ''a'') (PInt 0) (PStr ''x:0'') 60 True)\<lparr>sk_seq := (new_seqman False)\<lparr>sm_send := 1\<rparr>\<rparr>"
  let ?g = "(new_group ''g'' ''a'' [1] ''ka'' [] '''' (PInt 0) False)\<lparr>gr_own := Some ?k\<rparr>"
  have c: "sk_chain ?k = [7]" by (simp add: new_skey_def)
  show ?thesis
    unfolding Let_def new_skey_fields(4)
    by (rule late_key_useless[where k = ?k and g = ?g, OF _ _ _ _ example_group_ok, unfolded c])
      (simp_all add: new_group_def new_skey_def hkey_def MAX_PAST_AGE_def)
qed

lemma open_read_only: "fst (open_with_key cr now c ep v (k\<lparr>sk_read_only := b\<rparr>)) = fst (open_with_key cr now c ep v k)"
  by (auto simp: open_with_key_def sx_bind_lift sx_bind_simps sx_bind_def[of "\<lambda>k. case _ k of (r, q) \<Rightarrow> _ r q k"] split: sum.splits prod.splits)

lemma dget_map_vals: "dget (map (\<lambda>(t, k). (t, f k)) d) t = map_option f (dget d t)"
  by (induction d) auto

lemma decrypt_read_only:
  assumes "\<And>t. map_option (\<lambda>k. k\<lparr>sk_read_only := True\<rparr>) (dget (gr_remote g') t) = map_option (\<lambda>k. k\<lparr>sk_read_only := True\<rparr>) (dget (gr_remote g) t)"
  shows "fst (decrypt_group_message cr now c g') = fst (decrypt_group_message cr now c g)"
proof -
  have o: "fst (open_with_key cr now c ep v k') = fst (open_with_key cr now c ep v k)"
    if "dget (gr_remote g') t = Some k'" "dget (gr_remote g) t = Some k" for t k k' ep v
    using assms[of t] that open_read_only by (metis option.inject option.simps(9))
  have n: "dget (gr_remote g') t = None \<longleftrightarrow> dget (gr_remote g) t = None" for t
    using assms[of t] by (cases "dget (gr_remote g') t"; cases "dget (gr_remote g) t") auto
  have "fst (sx_bind (\<lambda>g. case dget (gr_remote g) t of None \<Rightarrow> (Inl (ValueError ''Sender key not found''), g)
       | Some k \<Rightarrow> (case open_with_key cr now c ep v k of (r, k') \<Rightarrow> (r, g\<lparr>gr_remote := dset t k' (gr_remote g)\<rparr>))) (\<lambda>plain s. (F plain, s)) g') =
    fst (sx_bind (\<lambda>g. case dget (gr_remote g) t of None \<Rightarrow> (Inl (ValueError ''Sender key not found''), g)
       | Some k \<Rightarrow> (case open_with_key cr now c ep v k of (r, k') \<Rightarrow> (r, g\<lparr>gr_remote := dset t k' (gr_remote g)\<rparr>))) (\<lambda>plain s. (F plain, s)) g)"
    for t ep v and F :: "bytes \<Rightarrow> (pyval \<times> string) result"
  proof (cases "dget (gr_remote g) t")
    case None
    then show ?thesis using n[of t] by (simp add: sx_bind_def)
  next
    case (Some k)
    then obtain k' where k': "dget (gr_remote g') t = Some k'" using n[of t] by fastforce
    then show ?thesis using o[OF k' Some, of ep v] Some by (auto simp: sx_bind_def split: prod.splits sum.splits)
  qed
  then have step: "fst (sx_bind (\<lambda>g. case dget (gr_remote g) t of None \<Rightarrow> (Inl (ValueError ''Sender key not found''), g)
       | Some k \<Rightarrow> (case open_with_key cr now c ep v k of (r, k') \<Rightarrow> (r, g\<lparr>gr_remote := dset t k' (gr_remote g)\<rparr>))) G g') =
    fst (sx_bind (\<lambda>g. case dget (gr_remote g) t of None \<Rightarrow> (Inl (ValueError ''Sender key not found''), g)
       | Some k \<Rightarrow> (case open_with_key cr now c ep v k of (r, k') \<Rightarrow> (r, g\<lparr>gr_remote := dset t k' (gr_remote g)\<rparr>))) G g)"
    if "G = (\<lambda>plain s. (F plain, s))" for t ep v G and F :: "bytes \<Rightarrow> (pyval \<times> string) result"
    using that by simp
  have G: "(\<lambda>plain. sx_bind (sx_lift (pindex (PDict c) ''original_type'')) (\<lambda>ty. sx_bind (sx_lift (utf8_decode plain)) (\<lambda>txt. sx_return (ty, txt)))) =
    (\<lambda>plain s. (bindE (pindex (PDict c) ''original_type'') (\<lambda>ty. bindE (utf8_decode plain) (\<lambda>txt. Inr (ty, txt))), s))"
    by (intro ext) (auto simp: sx_defs bindE_def split: sum.splits)
  show ?thesis
    unfolding decrypt_group_message_def sx_bind_lift G
    by (auto simp: sx_bind_lift step[OF refl] split: sum.splits)
qed

text \<open>
  An accepted epoch change moves the epoch strictly up and drops the own key, so that nothing is encrypted before a new
  one is generated, and a second copy is refused; the keys of the old epoch, marked read-only, decrypt as before, without
  any limit in time.
\<close>
theorem epoch_advance:
  assumes "process_epoch_advance cr now c pk g = (Inr (), g')" and "oget c ''new_epoch'' = PInt n"
  shows "py_lt (gr_epoch g) (gr_epoch g') = Inr True \<and> fst (encrypt_group_message cr ty p g') = Inl (RuntimeError ''No local sender key generated'') \<and>
    (\<exists>e. process_epoch_advance cr now2 c pk g' = (Inl e, g')) \<and> fst (decrypt_group_message cr t msg g') = fst (decrypt_group_message cr t msg g)"
proof -
  have i: "dget c ''new_epoch'' = Some (PInt n)" using assms(2) by (cases "dget c ''new_epoch''") (auto simp: oget_def dgetd_def)
  let ?g = "g\<lparr>gr_remote := map (\<lambda>(t, k). (t, if py_eq (sk_epoch k) (gr_epoch g) then k\<lparr>sk_read_only := True\<rparr> else k)) (gr_remote g),
       gr_epoch := PInt n, gr_own := None\<rparr>"
  have g': "g' = ?g" and lt: "py_lt (gr_epoch g) (PInt n) = Inr True"
    using assms(1) by (auto simp: process_epoch_advance_def advance_epoch_def not_above_def sx_bind_lift sx_bind_simps i bindE_Inr_iff split: sum.splits if_splits)
  have "\<exists>e. process_epoch_advance cr now2 c pk g' = (Inl e, g')"
    by (auto simp: g' process_epoch_advance_def not_above_def sx_bind_lift sx_bind_simps i split: sum.splits)
  moreover have "fst (decrypt_group_message cr t msg g') = fst (decrypt_group_message cr t msg g)"
  proof (rule decrypt_read_only)
    fix t
    have "gr_remote g' = map (\<lambda>(t, k). (t, if py_eq (sk_epoch k) (gr_epoch g) then k\<lparr>sk_read_only := True\<rparr> else k)) (gr_remote g)"
      unfolding g' by simp
    then have "dget (gr_remote g') t = map_option (\<lambda>k. if py_eq (sk_epoch k) (gr_epoch g) then k\<lparr>sk_read_only := True\<rparr> else k) (dget (gr_remote g) t)"
      by (simp only: dget_map_vals)
    then show "map_option (\<lambda>k. k\<lparr>sk_read_only := True\<rparr>) (dget (gr_remote g') t) = map_option (\<lambda>k. k\<lparr>sk_read_only := True\<rparr>) (dget (gr_remote g) t)"
      by (cases "dget (gr_remote g) t") simp_all
  qed
  ultimately show ?thesis using lt by (simp add: g' encrypt_group_message_def)
qed

theorem epoch_advance_witness:
  "\<exists>c g'. let g = new_group ''g'' ''b'' [2] ''kb'' [] '''' (PInt 0) False in
    build_group_epoch_advance example_lib 100 ''g'' (PInt 1) ''key_rotation'' [] '''' None None = Inr c \<and>
    process_epoch_advance example_lib 110 c [] g = (Inr (), g') \<and> py_lt (PInt 0) (gr_epoch g') = Inr True \<and>
    fst (encrypt_group_message example_lib ''text'' ''hi'' g') = Inl (RuntimeError ''No local sender key generated'') \<and>
    (\<exists>e. process_epoch_advance example_lib 120 c [] g' = (Inl e, g')) \<and> fst (decrypt_group_message example_lib 130 [] g') = fst (decrypt_group_message example_lib 130 [] g)"
proof -
  let ?g = "new_group ''g'' ''b'' [2] ''kb'' [] '''' (PInt 0) False"
  let ?c = "[(''e2ee_version'', PStr E2EE_VERSION), (''group_did'', PStr ''g''), (''new_epoch'', PInt 1), (''reason'', PStr ''key_rotation'')]"
  have ok: "signature_ok example_lib [] []" "stamp_ok example_lib" "jcs_total example_lib"
    using example_group_ok[of "new_group [] [] [] [] [] [] PNone False" "[]" "[]" "[]" "[]" "[]" PNone False "[]"]
    by (simp_all add: group_lib_ok_def new_group_def)
  obtain p where p: "generate_proof example_lib 100 ?c [] '''' None = Inr (dset ''proof'' p ?c)" using generate_proof_total[OF ok(1,3)] by blast
  let ?d = "?c @ [(''proof'', p)]"
  have d: "dset ''proof'' p ?c = ?d" by simp
  have "validate_proof example_lib 110 ?d [] (Some MAX_PAST_AGE) MAX_FUTURE_SKEW = Inr ()"
    by (rule proof_validates[OF p[unfolded d] ok(1,3,2)]) (simp_all add: MAX_PAST_AGE_def MAX_FUTURE_SKEW_def)
  then have v: "verify_proof example_lib 110 ?d [] None (Some MAX_PAST_AGE) MAX_FUTURE_SKEW = Inr True" by (simp add: verify_proof_def)
  have i: "dget ?d ''new_epoch'' = Some (PInt 1)" by simp
  have ver: "ensure_supported_e2ee_version example_lib ?d = Inr E2EE_VERSION" unfolding append_Cons by (rule supported_version)
  obtain g' where g': "process_epoch_advance example_lib 110 ?d [] ?g = (Inr (), g')"
    using v ver i by (simp add: process_epoch_advance_def advance_epoch_def not_above_def sx_bind_lift sx_bind_simps new_group_def del: append_Cons append_Nil)
  have "oget ?d ''new_epoch'' = PInt 1" by (simp add: oget_def dgetd_def)
  from epoch_advance[OF g' this] have "py_lt (PInt 0) (gr_epoch g') = Inr True \<and>
    fst (encrypt_group_message example_lib ''text'' ''hi'' g') = Inl (RuntimeError ''No local sender key generated'') \<and>
    (\<exists>e. process_epoch_advance example_lib 120 ?d [] g' = (Inl e, g')) \<and> fst (decrypt_group_message example_lib 130 [] g') = fst (decrypt_group_message example_lib 130 [] ?g)"
    by (simp add: new_group_def del: append_Cons append_Nil)
  moreover have "build_group_epoch_advance example_lib 100 ''g'' (PInt 1) ''key_rotation'' [] '''' None None = Inr ?d"
    using p[unfolded d] by (simp add: build_group_epoch_advance_def)
  ultimately show ?thesis using g' unfolding Let_def by blast
qed

end
