(* ===== verification/E2eeManager.thy ===== *)
theory E2eeManager
  imports E2eeGroup
begin

text \<open>
  The registry of sessions (\<open>e2e_encryption_hpke/key_manager.py\<close>).  Sessions are objects the caller also holds: the
  tables keep references, \<open>h\<close> is what the references stand for at the time of the call.
\<close>

record keyman =
  km_pairs :: "(string, nat) pydict"
  km_ids :: "(string, nat) pydict"
  km_groups :: "(string, nat) pydict"

definition new_manager :: keyman where
  "new_manager = \<lparr>km_pairs = [], km_ids = [], km_groups = []\<rparr>"

definition did_pair_key :: "string \<Rightarrow> string \<Rightarrow> string" where
  "did_pair_key local_did peer_did = local_did @ ''|'' @ peer_did"

definition unless_expired :: "real \<Rightarrow> (nat \<Rightarrow> session) \<Rightarrow> nat option \<Rightarrow> nat option" where
  "unless_expired now h x = (case x of None \<Rightarrow> None | Some r \<Rightarrow> if session_expired now (h r) then None else Some r)"

definition get_active_session :: "real \<Rightarrow> (nat \<Rightarrow> session) \<Rightarrow> keyman \<Rightarrow> string \<Rightarrow> string \<Rightarrow> nat option" where
  "get_active_session now h m local_did peer_did = unless_expired now h (dget (km_pairs m) (did_pair_key local_did peer_did))"

definition get_session_by_id :: "real \<Rightarrow> (nat \<Rightarrow> session) \<Rightarrow> keyman \<Rightarrow> string \<Rightarrow> nat option" where
  "get_session_by_id now h m session_id = unless_expired now h (dget (km_ids m) session_id)"

text \<open>An empty id counts as none.\<close>

definition drop_id :: "session \<Rightarrow> (string, nat) pydict \<Rightarrow> (string, nat) pydict" where
  "drop_id s ids = (case ss_id s of Some i \<Rightarrow> if i = [] then ids else ddel i ids | None \<Rightarrow> ids)"

definition register_session :: "(nat \<Rightarrow> session) \<Rightarrow> nat \<Rightarrow> keyman \<Rightarrow> keyman" where
  "register_session h r m =
     (let s = h r; key = did_pair_key (ss_local s) (ss_peer s);
          ids = (case dget (km_pairs m) key of Some old \<Rightarrow> drop_id (h old) (km_ids m) | None \<Rightarrow> km_ids m)
      in m\<lparr>km_pairs := dset key r (km_pairs m),
           km_ids := (case ss_id s of Some i \<Rightarrow> if i = [] then ids else dset i r ids | None \<Rightarrow> ids)\<rparr>)"

definition remove_session :: "(nat \<Rightarrow> session) \<Rightarrow> string \<Rightarrow> string \<Rightarrow> keyman \<Rightarrow> keyman" where
  "remove_session h local_did peer_did m =
     (let key = did_pair_key local_did peer_did
      in m\<lparr>km_pairs := ddel key (km_pairs m),
           km_ids := (case dget (km_pairs m) key of Some r \<Rightarrow> drop_id (h r) (km_ids m) | None \<Rightarrow> km_ids m)\<rparr>)"

definition get_group_session :: "keyman \<Rightarrow> string \<Rightarrow> nat option" where
  "get_group_session m group_did = dget (km_groups m) group_did"

definition register_group_session :: "(nat \<Rightarrow> group) \<Rightarrow> nat \<Rightarrow> keyman \<Rightarrow> keyman" where
  "register_group_session hg r m = m\<lparr>km_groups := dset (gr_did (hg r)) r (km_groups m)\<rparr>"

definition remove_group_session :: "string \<Rightarrow> keyman \<Rightarrow> keyman" where
  "remove_group_session group_did m = m\<lparr>km_groups := ddel group_did (km_groups m)\<rparr>"

text \<open>Each registered group cleans its own keys: the objects change.\<close>

definition manager_cleanup :: "real \<Rightarrow> (nat \<Rightarrow> session) \<Rightarrow> keyman \<times> (nat \<Rightarrow> group) \<Rightarrow> keyman \<times> (nat \<Rightarrow> group)" where
  "manager_cleanup now h = (\<lambda>(m, hg).
     let expired = filter (\<lambda>(key, r). session_expired now (h r)) (km_pairs m)
     in (m\<lparr>km_pairs := filter (\<lambda>(key, r). \<not> session_expired now (h r)) (km_pairs m),
           km_ids := fold (\<lambda>(key, r). drop_id (h r)) expired (km_ids m)\<rparr>,
         fold (\<lambda>(did, r) hg. hg(r := group_cleanup_expired now (hg r))) (km_groups m) hg))"


section \<open>What the tables promise while the sessions stay as they are\<close>

definition pair_of :: "session \<Rightarrow> string" where
  "pair_of s = did_pair_key (ss_local s) (ss_peer s)"

definition km_ok :: "(nat \<Rightarrow> session) \<Rightarrow> keyman \<Rightarrow> bool" where
  "km_ok h m \<longleftrightarrow> distinct (dkeys (km_pairs m)) \<and> (\<forall>key r. dget (km_pairs m) key = Some r \<longrightarrow> key = pair_of (h r)) \<and>
     (\<forall>i r. dget (km_ids m) i = Some r \<longrightarrow> ss_id (h r) = Some i \<and> i \<noteq> [] \<and> dget (km_pairs m) (pair_of (h r)) = Some r)"

lemma dget_drop_id: "dget (drop_id s ids) i = (if ss_id s = Some i \<and> i \<noteq> [] then None else dget ids i)"
  by (auto simp: drop_id_def split: option.splits)

lemma register_lookup:
  "dget (km_pairs (register_session h r m)) key = (if key = pair_of (h r) then Some r else dget (km_pairs m) key)"
  "dget (km_ids (register_session h r m)) i = (if ss_id (h r) = Some i \<and> i \<noteq> [] then Some r
     else if \<exists>old. dget (km_pairs m) (pair_of (h r)) = Some old \<and> ss_id (h old) = Some i \<and> i \<noteq> [] then None else dget (km_ids m) i)"
  by (auto simp: register_session_def pair_of_def Let_def dget_drop_id split: option.splits)

lemma remove_lookup:
  "dget (km_pairs (remove_session h a b m)) key = (if key = did_pair_key a b then None else dget (km_pairs m) key)"
  "dget (km_ids (remove_session h a b m)) i =
     (if \<exists>r. dget (km_pairs m) (did_pair_key a b) = Some r \<and> ss_id (h r) = Some i \<and> i \<noteq> [] then None else dget (km_ids m) i)"
  by (auto simp: remove_session_def Let_def dget_drop_id split: option.splits)

lemma km_okI:
  assumes "distinct (dkeys (km_pairs m))" and "\<And>key r. dget (km_pairs m) key = Some r \<Longrightarrow> key = pair_of (h r)"
    and "\<And>i r. dget (km_ids m) i = Some r \<Longrightarrow> ss_id (h r) = Some i \<and> i \<noteq> [] \<and> dget (km_pairs m) (pair_of (h r)) = Some r"
  shows "km_ok h m"
  using assms unfolding km_ok_def by blast

lemma km_okD:
  assumes "km_ok h m"
  shows "distinct (dkeys (km_pairs m))" and "dget (km_pairs m) key = Some r \<Longrightarrow> key = pair_of (h r)"
    and "dget (km_ids m) i = Some r \<Longrightarrow> ss_id (h r) = Some i \<and> i \<noteq> [] \<and> dget (km_pairs m) (pair_of (h r)) = Some r"
  using assms unfolding km_ok_def by blast+

lemma register_session_ok:
  assumes "km_ok h m"
  shows "km_ok h (register_session h r m)"
proof (rule km_okI)
  show "distinct (dkeys (km_pairs (register_session h r m)))"
    using km_okD(1)[OF assms] by (simp add: register_session_def Let_def distinct_dkeys_dset)
  show "key = pair_of (h q)" if "dget (km_pairs (register_session h r m)) key = Some q" for key q
    using that km_okD(2)[OF assms] unfolding register_lookup by (auto split: if_splits)
  show "ss_id (h q) = Some i \<and> i \<noteq> [] \<and> dget (km_pairs (register_session h r m)) (pair_of (h q)) = Some q"
    if "dget (km_ids (register_session h r m)) i = Some q" for i q
  proof (cases "ss_id (h r) = Some i \<and> i \<noteq> []")
    case True
    then show ?thesis using that unfolding register_lookup by simp
  next
    case False
    then have n: "\<not> (\<exists>old. dget (km_pairs m) (pair_of (h r)) = Some old \<and> ss_id (h old) = Some i \<and> i \<noteq> [])" "dget (km_ids m) i = Some q"
      using that unfolding register_lookup by (simp_all split: if_splits)
    note q = km_okD(3)[OF assms n(2)]
    then have "pair_of (h q) \<noteq> pair_of (h r)" using n(1) by metis
    then show ?thesis using q unfolding register_lookup by simp
  qed
qed

lemma remove_session_ok:
  assumes "km_ok h m"
  shows "km_ok h (remove_session h a b m)"
proof (rule km_okI)
  show "distinct (dkeys (km_pairs (remove_session h a b m)))"
    using km_okD(1)[OF assms] by (simp add: remove_session_def Let_def distinct_dkeys_ddel)
  show "key = pair_of (h q)" if "dget (km_pairs (remove_session h a b m)) key = Some q" for key q
    using that km_okD(2)[OF assms] unfolding remove_lookup by (auto split: if_splits)
  show "ss_id (h q) = Some i \<and> i \<noteq> [] \<and> dget (km_pairs (remove_session h a b m)) (pair_of (h q)) = Some q"
    if "dget (km_ids (remove_session h a b m)) i = Some q" for i q
  proof -
    have n: "\<not> (\<exists>r. dget (km_pairs m) (did_pair_key a b) = Some r \<and> ss_id (h r) = Some i \<and> i \<noteq> [])" "dget (km_ids m) i = Some q"
      using that unfolding remove_lookup by (simp_all split: if_splits)
    note q = km_okD(3)[OF assms n(2)]
    then have "pair_of (h q) \<noteq> did_pair_key a b" using n(1) by metis
    then show ?thesis using q unfolding remove_lookup by simp
  qed
qed

lemma dget_fold_drop:
  "dget (fold (\<lambda>(key, r). drop_id (h r)) d ids) i = (if \<exists>r \<in> set (dvals d). ss_id (h r) = Some i \<and> i \<noteq> [] then None else dget ids i)"
  by (induction d arbitrary: ids) (auto simp: dget_drop_id)

lemma manager_cleanup_ok:
  assumes "km_ok h m"
  shows "km_ok h (fst (manager_cleanup now h (m, hg)))"
proof -
  let ?m = "fst (manager_cleanup now h (m, hg))"
  have k: "distinct (dkeys (km_pairs m))" "\<And>key r. dget (km_pairs m) key = Some r \<Longrightarrow> key = pair_of (h r)"
    "\<And>i r. dget (km_ids m) i = Some r \<Longrightarrow> ss_id (h r) = Some i \<and> i \<noteq> [] \<and> dget (km_pairs m) (pair_of (h r)) = Some r"
    using km_okD[OF assms] by blast+
  have p: "dget (km_pairs ?m) key = (case dget (km_pairs m) key of None \<Rightarrow> None | Some r \<Rightarrow> if \<not> session_expired now (h r) then Some r else None)" for key
    using dget_dfilter[OF k(1), of "\<lambda>_ r. \<not> session_expired now (h r)"] by (simp add: manager_cleanup_def dfilter_def Let_def)
  have d: "distinct (dkeys (km_pairs ?m))"
    using distinct_dkeys_dfilter[OF k(1), of "\<lambda>_ r. \<not> session_expired now (h r)"] by (simp add: manager_cleanup_def dfilter_def Let_def)
  have "ss_id (h r) = Some i \<and> i \<noteq> [] \<and> dget (km_pairs ?m) (pair_of (h r)) = Some r" if "dget (km_ids ?m) i = Some r" for i r
  proof -
    have i: "dget (km_ids m) i = Some r" "\<not> (\<exists>r \<in> set (dvals (filter (\<lambda>(key, r). session_expired now (h r)) (km_pairs m))). ss_id (h r) = Some i \<and> i \<noteq> [])"
      using that by (auto simp: manager_cleanup_def dget_fold_drop Let_def split: if_splits)
    note r = k(3)[OF i(1)]
    have "(pair_of (h r), r) \<in> set (km_pairs m)" using r by (auto dest: map_of_SomeD)
    then have "\<not> session_expired now (h r)" using i(2) r by force
    then show ?thesis using r p by simp
  qed
  moreover have "key = pair_of (h r)" if "dget (km_pairs ?m) key = Some r" for key r
    using that k(2) p by (auto split: option.splits if_splits)
  ultimately show ?thesis using d by (intro km_okI) blast+
qed

datatype km_op = Register nat | Remove string string | Cleanup real

fun km_step :: "(nat \<Rightarrow> session) \<Rightarrow> km_op \<Rightarrow> keyman \<times> (nat \<Rightarrow> group) \<Rightarrow> keyman \<times> (nat \<Rightarrow> group)" where
  "km_step h (Register r) (m, hg) = (register_session h r m, hg)"
| "km_step h (Remove a b) (m, hg) = (remove_session h a b m, hg)"
| "km_step h (Cleanup now) (m, hg) = manager_cleanup now h (m, hg)"

text \<open>
  As long as no session changes its id, the two tables agree after any sequence of operations: a session is filed
  under its own DIDs, and what the table of ids holds is the session of that id which the table of pairs holds, so that a
  removed or expired session is in neither.
\<close>
theorem manager_consistent: "km_ok h (fst (fold (km_step h) ops (new_manager, hg)))"
proof -
  have run: "km_ok h (fst (fold (km_step h) ops mh))" if "km_ok h (fst mh)" for mh
    using that
  proof (induction ops arbitrary: mh)
    case (Cons x ops)
    obtain m hg where mh: "mh = (m, hg)" by fastforce
    have m: "km_ok h m" using Cons.prems by (simp add: mh)
    have "km_ok h (fst (km_step h x mh))"
      unfolding mh by (cases x) (simp_all only: km_step.simps fst_conv register_session_ok[OF m] remove_session_ok[OF m] manager_cleanup_ok[OF m])
    from Cons.IH[OF this] show ?case by simp
  qed simp
  show ?thesis by (rule run) (simp add: km_ok_def new_manager_def)
qed

text \<open>
  A rekeyed session keeps its old id in the table of ids: when the session that was registered with one id has
  another by the time it is removed, the old id still finds the removed session.
\<close>
theorem rekeyed_session_survives_removal:
  assumes "ss_id (h r) = Some i" and "i \<noteq> []" and "ss_id (h' r) \<noteq> Some i"
    and "\<not> session_expired now (h' r)"
  shows "let m = remove_session h' (ss_local (h r)) (ss_peer (h r)) (register_session h r m0)
    in get_active_session now h' m (ss_local (h r)) (ss_peer (h r)) = None \<and> get_session_by_id now h' m i = Some r"
proof -
  let ?m = "remove_session h' (ss_local (h r)) (ss_peer (h r)) (register_session h r m0)"
  have p: "dget (km_pairs (register_session h r m0)) (did_pair_key (ss_local (h r)) (ss_peer (h r))) = Some r"
    unfolding register_lookup pair_of_def by simp
  have "dget (km_pairs ?m) (did_pair_key (ss_local (h r)) (ss_peer (h r))) = None" unfolding remove_lookup by simp
  moreover have "dget (km_ids ?m) i = Some r"
    using assms(1-3) p unfolding remove_lookup by (simp add: register_lookup(2))
  ultimately show ?thesis
    unfolding Let_def get_active_session_def get_session_by_id_def unless_expired_def using assms(4) by simp
qed

theorem rekeyed_session_survives_removal_witness:
  "let s = (new_session 0 ''b'' ''a'' [2] ''kb'' [] '''' False 60)\<lparr>ss_id := Some ''one''\<rparr>;
       t = setup_chain_keys example_lib 5 [7] 60 (s\<lparr>ss_id := Some ''two''\<rparr>);
       m = remove_session (\<lambda>_. t) (ss_local s) (ss_peer s) (register_session (\<lambda>_. s) 0 new_manager)
   in get_active_session 6 (\<lambda>_. t) m (ss_local s) (ss_peer s) = None \<and> get_session_by_id 6 (\<lambda>_. t) m ''one'' = Some 0"
proof -
  let ?s = "(new_session 0 ''b'' ''a'' [2] ''kb'' [] '''' False 60)\<lparr>ss_id := Some ''one''\<rparr>"
  let ?t = "setup_chain_keys example_lib 5 [7] 60 (?s\<lparr>ss_id := Some ''two''\<rparr>)"
  have "\<not> session_expired 6 ?t" by (simp add: session_expired_def setup_chain_keys_def Let_def assign_chain_keys_def split: prod.splits)
  then show ?thesis
    using rekeyed_session_survives_removal[of "\<lambda>_. ?s" 0 "''one''" "\<lambda>_. ?t" 6 new_manager] unfolding Let_def by simp
qed

end
