(* ===== verification/E2eeV2.thy ===== *)
theory E2eeV2
  imports CanonicalJson E2eeCrypto
begin

text \<open>
  The HTTP end-to-end protocol (\<open>e2e_encryption_v2/session.py\<close>, \<open>message_builder.py\<close>, \<open>message_parser.py\<close>) with what it
  uses of \<open>utils/crypto_tool.py\<close>: the handshake of two hellos and two finished messages, and encrypted messages.  The
  primitives are arguments; a public key is its uncompressed point.  Random values, times and initialisation vectors
  are arguments of the calls that draw them.
\<close>

section \<open>Crypto tool\<close>

record v2lib =
  vl_cr :: prims
  vl_point :: "bytes \<Rightarrow> bytes result"
  vl_sorted :: "pyval \<Rightarrow> bytes"
  vl_dumps :: "pyval \<Rightarrow> string"
  vl_loads :: "string \<Rightarrow> pyval result"
  vl_stamp :: "real \<Rightarrow> string"
  vl_strptime :: "string \<Rightarrow> real result"

definition to_hex :: "bytes \<Rightarrow> string" where
  "to_hex bs = concat (map (\<lambda>b. [hex_digit (unat b div 16), hex_digit (unat b mod 16)]) bs)"

definition generate_16_char :: "v2lib \<Rightarrow> string \<Rightarrow> string \<Rightarrow> string" where
  "generate_16_char vl r1 r2 = to_hex (cr_hkdf (vl_cr vl) 8 None [] (encode (r1 @ r2)))"

definition public_key_from_hex :: "v2lib \<Rightarrow> pyval \<Rightarrow> bytes result" where
  "public_key_from_hex vl v = bindE (case v of PStr s \<Rightarrow> from_hex s | _ \<Rightarrow> Inl TypeError) (vl_point vl)"

definition signature_for_json :: "v2lib \<Rightarrow> bytes \<Rightarrow> pyval \<Rightarrow> string result" where
  "signature_for_json vl sk v = bindE (sign_secp256r1 (vl_cr vl) sk (vl_sorted vl v)) (\<lambda>sig. Inr (b64url_encode sig))"

definition verify_signature_for_json :: "v2lib \<Rightarrow> bytes \<Rightarrow> pyval \<Rightarrow> pyval \<Rightarrow> bool" where
  "verify_signature_for_json vl pk v signature = (case b64url_padded signature of
      Inl e \<Rightarrow> False
    | Inr b \<Rightarrow> (let n = (if length b = 64 then 32 else length b div 2)
               in cr_verify (vl_cr vl) pk (vl_sorted vl v) (from_bytes (take n b)) (from_bytes (drop n b))))"

text \<open>Lengths are packed into one byte.\<close>

definition hkdf_label :: "nat \<Rightarrow> string \<Rightarrow> bytes \<Rightarrow> bytes result" where
  "hkdf_label n label context =
     (let full = encode (''als10 '' @ label) in
      if length full > 255 \<or> length context > 255 then Inl (ValueError ''struct.error'')
      else Inr (be_bytes 2 n @ [word_of_nat (length full)] @ full @ [word_of_nat (length context)] @ context))"

definition key_length_of_suite :: "pyval \<Rightarrow> nat result" where
  "key_length_of_suite suite =
     (if suite = PStr ''TLS_AES_128_GCM_SHA256'' then Inr 16
      else if suite = PStr ''TLS_AES_256_GCM_SHA384'' then Inr 32
      else if suite = PStr ''TLS_CHACHA20_POLY1305_SHA256'' then Inr 32
      else Inl (ValueError ''Unsupported cipher suite''))"

definition traffic_key :: "v2lib \<Rightarrow> bytes \<Rightarrow> string \<Rightarrow> bytes \<Rightarrow> nat \<Rightarrow> bytes result" where
  "traffic_key vl extracted label randoms n =
     bindE (hkdf_label 32 label randoms) (\<lambda>info. let secret = cr_expand (vl_cr vl) 32 info extracted in
     bindE (hkdf_label 32 ''key'' secret) (\<lambda>info. Inr (cr_hkdf (vl_cr vl) n None info secret)))"

definition derive_tls13_data_keys :: "v2lib \<Rightarrow> bytes \<Rightarrow> bytes \<Rightarrow> bytes \<Rightarrow> nat \<Rightarrow> (bytes \<times> bytes) result" where
  "derive_tls13_data_keys vl shared r1 r2 n =
     (let extracted = cr_hkdf (vl_cr vl) 32 (Some (replicate 32 0)) [] shared in
      bindE (traffic_key vl extracted ''s ap traffic'' (r1 @ r2) n) (\<lambda>k1.
      bindE (traffic_key vl extracted ''d ap traffic'' (r1 @ r2) n) (\<lambda>k2. Inr (k1, k2))))"

definition encrypt_aes_gcm_sha256 :: "v2lib \<Rightarrow> bytes \<Rightarrow> bytes \<Rightarrow> bytes \<Rightarrow> pyobj result" where
  "encrypt_aes_gcm_sha256 vl iv plain key =
     (if length key \<noteq> 16 then Inl (ValueError ''Key must be 128 bits (16 bytes).'')
      else let s = cr_seal (vl_cr vl) key iv plain []; n = length s - 16
        in Inr [(''iv'', PStr (b64encode iv)), (''tag'', PStr (b64encode (drop n s))), (''ciphertext'', PStr (b64encode (take n s)))])"

definition decrypt_aes_gcm_sha256 :: "v2lib \<Rightarrow> pyval \<Rightarrow> bytes \<Rightarrow> string result" where
  "decrypt_aes_gcm_sha256 vl enc key =
     bindE (bindE (pindex enc ''iv'') b64_value) (\<lambda>iv.
     bindE (bindE (pindex enc ''ciphertext'') b64_value) (\<lambda>ct.
     bindE (bindE (pindex enc ''tag'') b64_value) (\<lambda>tag.
     if length tag \<noteq> 16 then Inl (ValueError ''Authentication tag'')
     else bindE (cr_open (vl_cr vl) key iv (ct @ tag) []) utf8_decode)))"

section \<open>Messages\<close>

definition sign_hello :: "v2lib \<Rightarrow> real \<Rightarrow> bytes \<Rightarrow> string \<Rightarrow> string \<Rightarrow> pyobj \<Rightarrow> pyobj result" where
  "sign_hello vl now sk pub_hex did parts =
     (let proof = [(''type'', PStr ''EcdsaSecp256r1Signature2019''), (''created'', PStr (vl_stamp vl now)), (''verification_method'', PStr (did @ ''#keys-1''))];
          content = parts @ [(''verification_method'', PDict [(''id'', PStr (did @ ''#keys-1'')), (''type'', PStr ''EcdsaSecp256r1VerificationKey2019''),
             (''public_key_hex'', PStr pub_hex)]), (''proof'', PDict proof)]
      in bindE (signature_for_json vl sk (PDict content)) (\<lambda>sig.
         Inr (dset ''proof'' (PDict (dset ''proof_value'' (PStr sig) proof)) content)))"

definition build_source_hello :: "v2lib \<Rightarrow> real \<Rightarrow> pyval \<Rightarrow> string \<Rightarrow> string \<Rightarrow> string \<Rightarrow> bytes \<Rightarrow> string \<Rightarrow> pyval list \<Rightarrow> pyobj result" where
  "build_source_hello vl now sid source_did dest_did random sk pub_hex shares =
     sign_hello vl now sk pub_hex source_did [(''e2ee_type'', PStr ''source_hello''), (''version'', PStr ''1.0''), (''session_id'', sid), (''source_did'', PStr source_did),
       (''destination_did'', PStr dest_did), (''random'', PStr random), (''supported_versions'', PList [PStr ''1.0'']),
       (''cipher_suites'', PList [PStr ''TLS_AES_128_GCM_SHA256'']), (''supported_groups'', PList [PStr ''secp256r1'']), (''key_shares'', PList shares)]"

definition build_destination_hello :: "v2lib \<Rightarrow> real \<Rightarrow> pyval \<Rightarrow> string \<Rightarrow> string \<Rightarrow> string \<Rightarrow> bytes \<Rightarrow> string \<Rightarrow> pyval \<Rightarrow> pyval \<Rightarrow> pyobj result" where
  "build_destination_hello vl now sid source_did dest_did random sk pub_hex share suite =
     sign_hello vl now sk pub_hex source_did [(''e2ee_type'', PStr ''destination_hello''), (''version'', PStr ''1.0''), (''session_id'', sid), (''source_did'', PStr source_did),
       (''destination_did'', PStr dest_did), (''random'', PStr random), (''selected_version'', PStr ''1.0''), (''cipher_suite'', suite), (''key_share'', share)]"

text \<open>Adding a value that is no text to a text raises.\<close>

definition key_id_of :: "v2lib \<Rightarrow> pyval \<Rightarrow> pyval \<Rightarrow> string result" where
  "key_id_of vl r1 r2 = (case (r1, r2) of (PStr a, PStr b) \<Rightarrow> Inr (generate_16_char vl a b) | _ \<Rightarrow> Inl TypeError)"

definition build_finished :: "v2lib \<Rightarrow> bytes \<Rightarrow> pyval \<Rightarrow> pyval \<Rightarrow> pyval \<Rightarrow> bytes \<Rightarrow> pyobj result" where
  "build_finished vl iv sid r1 r2 key =
     bindE (key_id_of vl r1 r2) (\<lambda>kid.
     bindE (encrypt_aes_gcm_sha256 vl iv (encode (vl_dumps vl (PDict [(''secretKeyId'', PStr kid)]))) key) (\<lambda>v.
     Inr [(''e2ee_type'', PStr ''finished''), (''session_id'', sid), (''verify_data'', PDict v)]))"

definition build_encrypted_message :: "v2lib \<Rightarrow> bytes \<Rightarrow> pyval \<Rightarrow> string \<Rightarrow> string \<Rightarrow> bytes \<Rightarrow> pyobj result" where
  "build_encrypted_message vl iv kid kind plain key =
     bindE (encrypt_aes_gcm_sha256 vl iv (encode plain) key) (\<lambda>e.
     Inr [(''secret_key_id'', kid), (''original_type'', PStr kind), (''encrypted'', PDict e)])"

definition build_v2_error :: "string \<Rightarrow> string \<Rightarrow> pyobj" where
  "build_v2_error code kid = [(''error_code'', PStr code), (''secret_key_id'', PStr kid)]"

definition v2_detect_message_type :: "string \<Rightarrow> pyobj \<Rightarrow> string option" where
  "v2_detect_message_type kind content =
     (if kind = ''e2ee_hello'' then
        (if oget content ''e2ee_type'' = PStr ''source_hello'' then Some ''source_hello''
         else if oget content ''e2ee_type'' = PStr ''destination_hello'' then Some ''destination_hello'' else None)
      else if kind = ''e2ee_finished'' then Some ''finished''
      else if kind = ''e2ee'' then Some ''encrypted''
      else if kind = ''e2ee_error'' then Some ''error'' else None)"

definition check_hello_proof :: "v2lib \<Rightarrow> real \<Rightarrow> pyobj \<Rightarrow> bool result" where
  "check_hello_proof vl now content =
     bindE (pget (dgetd content ''verification_method'' (PDict [])) ''public_key_hex'' PNone) (\<lambda>hex.
     if \<not> truthy hex then Inr False
     else bindE (public_key_from_hex vl hex) (\<lambda>pk.
     let proof = dgetd content ''proof'' (PDict []) in
     bindE (pget proof ''proof_value'' PNone) (\<lambda>pv.
     if \<not> truthy pv then Inr False
     else if \<not> verify_signature_for_json vl pk (PDict (strip_proof_value content)) pv then Inr False
     else bindE (pget proof ''created'' PNone) (\<lambda>c.
       if \<not> truthy c then Inr True
       else bindE (case c of PStr s \<Rightarrow> vl_strptime vl s | _ \<Rightarrow> Inl TypeError) (\<lambda>t. Inr (\<not> \<bar>now - t\<bar> > 30))))))"

definition verify_hello_proof :: "v2lib \<Rightarrow> real \<Rightarrow> pyobj \<Rightarrow> bool" where
  "verify_hello_proof vl now content = (check_hello_proof vl now content = Inr True)"

definition open_v2_message :: "v2lib \<Rightarrow> pyobj \<Rightarrow> bytes \<Rightarrow> (pyval \<times> string) result" where
  "open_v2_message vl content key =
     bindE (oindex content ''original_type'') (\<lambda>kind. bindE (oindex content ''encrypted'') (\<lambda>e.
     bindE (decrypt_aes_gcm_sha256 vl e key) (\<lambda>plain. Inr (kind, plain))))"


section \<open>Session\<close>

datatype v2_state = VIdle | VInitiated | VCompleting | VActive

record v2session =
  vs_local :: string
  vs_peer :: string
  vs_id :: pyval
  vs_default :: int
  vs_key :: bytes
  vs_pub_hex :: string
  vs_eph :: bytes
  vs_random :: string
  vs_peer_random :: pyval
  vs_initiator :: "bool option"
  vs_send :: "bytes option"
  vs_recv :: "bytes option"
  vs_key_id :: "string option"
  vs_suite :: pyval
  vs_key_expires :: "int option"
  vs_created :: real
  vs_active :: "real option"
  vs_state :: v2_state

text \<open>An id that is not given, or empty, is drawn.\<close>

definition new_v2_session :: "v2lib \<Rightarrow> real \<Rightarrow> string \<Rightarrow> bytes \<Rightarrow> string \<Rightarrow> string option \<Rightarrow> string \<Rightarrow> int \<Rightarrow> bytes \<Rightarrow> string \<Rightarrow> v2session" where
  "new_v2_session vl now local_did sk peer_did sid fresh_id expires eph random =
     \<lparr>vs_local = local_did, vs_peer = peer_did, vs_id = PStr (case sid of Some i \<Rightarrow> if i = [] then fresh_id else i | None \<Rightarrow> fresh_id), vs_default = expires, vs_key = sk, vs_pub_hex = to_hex (cr_public (vl_cr vl) sk),
      vs_eph = eph, vs_random = random, vs_peer_random = PNone, vs_initiator = None, vs_send = None, vs_recv = None, vs_key_id = None,
      vs_suite = PNone, vs_key_expires = None, vs_created = now, vs_active = None, vs_state = VIdle\<rparr>"

definition local_key_share :: "v2lib \<Rightarrow> v2session \<Rightarrow> pyval" where
  "local_key_share vl s = PDict [(''group'', PStr ''secp256r1''), (''expires'', PInt (vs_default s)), (''key_exchange'', PStr (to_hex (cr_public (vl_cr vl) (vs_eph s))))]"

definition need_state :: "v2_state \<Rightarrow> (v2session, unit) sx" where
  "need_state st = sx_bind (sx_get vs_state) (\<lambda>x. if x \<noteq> st then sx_raise (RuntimeError ''state'') else sx_return ())"

definition v2_initiate :: "v2lib \<Rightarrow> real \<Rightarrow> (v2session, pyobj) sx" where
  "v2_initiate vl now =
     sx_then (need_state VIdle)
    (sx_then (sx_modify (\<lambda>s. s\<lparr>vs_initiator := Some True\<rparr>))
    (sx_bind (sx_get (\<lambda>s. build_source_hello vl now (vs_id s) (vs_local s) (vs_peer s) (vs_random s) (vs_key s) (vs_pub_hex s) [local_key_share vl s])) (\<lambda>r.
     sx_bind (sx_lift r) (\<lambda>content.
     sx_then (sx_modify (\<lambda>s. s\<lparr>vs_state := VInitiated\<rparr>)) (sx_return content)))))"

text \<open>The random of the initiator comes first.\<close>

definition ordered_randoms :: "v2session \<Rightarrow> pyval \<times> pyval" where
  "ordered_randoms s = (if vs_initiator s = Some True then (PStr (vs_random s), vs_peer_random s) else (vs_peer_random s, PStr (vs_random s)))"

definition text_bytes :: "pyval \<Rightarrow> bytes result" where
  "text_bytes v = (case v of PStr s \<Rightarrow> Inr (encode s) | _ \<Rightarrow> Inl AttributeError)"

definition v2_derive :: "v2lib \<Rightarrow> pyval \<Rightarrow> v2session \<Rightarrow> (bytes \<times> bytes) result" where
  "v2_derive vl hex s =
     bindE (public_key_from_hex vl hex) (\<lambda>pk.
     bindE (cr_exchange (vl_cr vl) (vs_eph s) pk) (\<lambda>shared.
     bindE (key_length_of_suite (vs_suite s)) (\<lambda>n.
     case ordered_randoms s of (r1, r2) \<Rightarrow>
     bindE (text_bytes r1) (\<lambda>b1. bindE (text_bytes r2) (\<lambda>b2. derive_tls13_data_keys vl shared b1 b2 n)))))"

definition derive_keys :: "v2lib \<Rightarrow> pyval \<Rightarrow> (v2session, unit) sx" where
  "derive_keys vl hex =
     sx_bind (sx_get (v2_derive vl hex)) (\<lambda>r. sx_bind (sx_lift r) (\<lambda>(k1, k2).
     sx_modify (\<lambda>s. if vs_initiator s = Some True then s\<lparr>vs_send := Some k1, vs_recv := Some k2\<rparr> else s\<lparr>vs_send := Some k2, vs_recv := Some k1\<rparr>)))"

text \<open>The key is there when these are called.\<close>

definition with_key :: "bytes option \<Rightarrow> (bytes \<Rightarrow> 'a result) \<Rightarrow> 'a result" where
  "with_key k f = (case k of Some b \<Rightarrow> f b | None \<Rightarrow> Inl TypeError)"

definition finish_hello :: "v2lib \<Rightarrow> bytes \<Rightarrow> (v2session, pyobj) sx" where
  "finish_hello vl iv =
     sx_bind (sx_get (\<lambda>s. case ordered_randoms s of (r1, r2) \<Rightarrow> with_key (vs_send s) (build_finished vl iv (vs_id s) r1 r2))) (\<lambda>r.
     sx_bind (sx_lift r) (\<lambda>finished. sx_then (sx_modify (\<lambda>s. s\<lparr>vs_state := VCompleting\<rparr>)) (sx_return finished)))"

fun find_share :: "pyval list \<Rightarrow> pyval result" where
  "find_share [] = Inl (ValueError ''key_share'')"
| "find_share (ks # r) = bindE (pget ks ''group'' PNone) (\<lambda>g. if g = PStr ''secp256r1'' then Inr ks else find_share r)"

definition take_expiry :: "pyval \<Rightarrow> (v2session, unit) sx" where
  "take_expiry share =
     sx_bind (sx_get (\<lambda>s. bindE (pget share ''expires'' (PInt (vs_default s))) py_int)) (\<lambda>r.
     sx_bind (sx_lift r) (\<lambda>e. sx_modify (\<lambda>s. s\<lparr>vs_key_expires := Some (min e (vs_default s))\<rparr>)))"

definition process_source_hello :: "v2lib \<Rightarrow> real \<Rightarrow> bytes \<Rightarrow> pyobj \<Rightarrow> (v2session, pyobj \<times> pyobj) sx" where
  "process_source_hello vl now iv content =
     sx_then (need_state VIdle)
    (sx_then (sx_modify (\<lambda>s. s\<lparr>vs_initiator := Some False\<rparr>))
    (if \<not> verify_hello_proof vl now content then sx_raise (ValueError ''SourceHello proof'')
     else sx_bind (sx_lift (oindex content ''session_id'')) (\<lambda>sid.
       sx_then (sx_modify (\<lambda>s. s\<lparr>vs_id := sid\<rparr>))
      (sx_bind (sx_lift (oindex content ''random'')) (\<lambda>random.
       sx_then (sx_modify (\<lambda>s. s\<lparr>vs_peer_random := random, vs_suite := PNone\<rparr>))
      (sx_bind (sx_lift (py_in ''TLS_AES_128_GCM_SHA256'' (dgetd content ''cipher_suites'' (PList [])))) (\<lambda>offered.
       if \<not> offered then sx_raise (ValueError ''cipher suites'')
       else sx_then (sx_modify (\<lambda>s. s\<lparr>vs_suite := PStr ''TLS_AES_128_GCM_SHA256''\<rparr>))
      (sx_bind (sx_lift (bindE (py_iter (dgetd content ''key_shares'' (PList []))) find_share)) (\<lambda>share.
       sx_then (take_expiry share)
      (sx_bind (sx_lift (pindex share ''key_exchange'')) (\<lambda>hex.
       sx_then (derive_keys vl hex)
      (sx_bind (sx_get (\<lambda>s. build_destination_hello vl now (vs_id s) (vs_local s) (vs_peer s) (vs_random s) (vs_key s) (vs_pub_hex s) (local_key_share vl s) (vs_suite s))) (\<lambda>r.
       sx_bind (sx_lift r) (\<lambda>hello.
       sx_bind (finish_hello vl iv) (\<lambda>finished. sx_return (hello, finished))))))))))))))))"

definition process_destination_hello :: "v2lib \<Rightarrow> real \<Rightarrow> bytes \<Rightarrow> pyobj \<Rightarrow> (v2session, pyobj) sx" where
  "process_destination_hello vl now iv content =
     sx_then (need_state VInitiated)
    (if \<not> verify_hello_proof vl now content then sx_raise (ValueError ''DestinationHello proof'')
     else sx_bind (sx_lift (oindex content ''random'')) (\<lambda>random.
       sx_then (sx_modify (\<lambda>s. s\<lparr>vs_peer_random := random\<rparr>))
      (sx_bind (sx_lift (oindex content ''cipher_suite'')) (\<lambda>suite.
       sx_then (sx_modify (\<lambda>s. s\<lparr>vs_suite := suite\<rparr>))
      (sx_bind (sx_lift (oindex content ''key_share'')) (\<lambda>share.
       sx_bind (sx_lift (pget share ''group'' PNone)) (\<lambda>g.
       if g \<noteq> PStr ''secp256r1'' then sx_raise (ValueError ''group'')
       else sx_then (take_expiry share)
      (sx_bind (sx_lift (pindex share ''key_exchange'')) (\<lambda>hex.
       sx_then (derive_keys vl hex) (finish_hello vl iv))))))))))"

definition check_finished :: "v2lib \<Rightarrow> pyobj \<Rightarrow> v2session \<Rightarrow> string result" where
  "check_finished vl content s =
     (let v = oget content ''verify_data'' in
      if \<not> truthy v then Inl (ValueError ''verify_data'')
      else bindE (with_key (vs_recv s) (decrypt_aes_gcm_sha256 vl v)) (\<lambda>plain.
        bindE (vl_loads vl plain) (\<lambda>d.
        bindE (pget d ''secretKeyId'' PNone) (\<lambda>received.
        if \<not> truthy received then Inl (ValueError ''secretKeyId'')
        else bindE (case ordered_randoms s of (r1, r2) \<Rightarrow> key_id_of vl r1 r2) (\<lambda>wanted_id.
          if received \<noteq> PStr wanted_id then Inl (ValueError ''secretKeyId'') else Inr wanted_id)))))"

definition process_finished :: "v2lib \<Rightarrow> real \<Rightarrow> pyobj \<Rightarrow> (v2session, unit) sx" where
  "process_finished vl now content =
     sx_then (need_state VCompleting)
    (sx_bind (sx_get (check_finished vl content)) (\<lambda>r. sx_bind (sx_lift r) (\<lambda>kid.
     sx_modify (\<lambda>s. s\<lparr>vs_key_id := Some kid, vs_active := Some now, vs_state := VActive\<rparr>))))"

definition key_id_value :: "string option \<Rightarrow> pyval" where
  "key_id_value k = (case k of None \<Rightarrow> PNone | Some s \<Rightarrow> PStr s)"

definition v2_encrypt_message :: "v2lib \<Rightarrow> bytes \<Rightarrow> string \<Rightarrow> string \<Rightarrow> (v2session, pyobj) sx" where
  "v2_encrypt_message vl iv kind plain =
     sx_then (need_state VActive)
    (sx_bind (sx_get (\<lambda>s. with_key (vs_send s) (build_encrypted_message vl iv (key_id_value (vs_key_id s)) kind plain))) sx_lift)"

definition v2_decrypt_message :: "v2lib \<Rightarrow> pyobj \<Rightarrow> (v2session, pyval \<times> string) sx" where
  "v2_decrypt_message vl content =
     sx_then (need_state VActive) (sx_bind (sx_get (\<lambda>s. with_key (vs_recv s) (open_v2_message vl content))) sx_lift)"

definition v2_expired :: "real \<Rightarrow> v2session \<Rightarrow> bool" where
  "v2_expired now s = (case (vs_active s, vs_key_expires s) of (Some t, Some e) \<Rightarrow> now > t + of_int e | _ \<Rightarrow> False)"

definition v2_should_renew :: "real \<Rightarrow> real \<Rightarrow> v2session \<Rightarrow> bool result" where
  "v2_should_renew now threshold s = (case (vs_active s, vs_key_expires s) of
      (Some t, Some e) \<Rightarrow> if e = 0 then Inl ZeroDivisionError else Inr (max 0 (1 - (now - t) / of_int e) < threshold)
    | _ \<Rightarrow> Inr False)"

definition state_name :: "v2_state \<Rightarrow> string" where
  "state_name st = (case st of VIdle \<Rightarrow> ''idle'' | VInitiated \<Rightarrow> ''handshake_initiated'' | VCompleting \<Rightarrow> ''handshake_completing'' | VActive \<Rightarrow> ''active'')"

definition v2_session_info :: "v2session \<Rightarrow> pyobj" where
  "v2_session_info s = [(''session_id'', vs_id s), (''local_did'', PStr (vs_local s)), (''peer_did'', PStr (vs_peer s)), (''state'', PStr (state_name (vs_state s))),
     (''is_initiator'', case vs_initiator s of None \<Rightarrow> PNone | Some b \<Rightarrow> PBool b), (''secret_key_id'', key_id_value (vs_key_id s)), (''cipher_suite'', vs_suite s),
     (''key_expires'', case vs_key_expires s of None \<Rightarrow> PNone | Some e \<Rightarrow> PInt e), (''created_at'', PFloat (vs_created s)),
     (''active_at'', case vs_active s of None \<Rightarrow> PNone | Some t \<Rightarrow> PFloat t)]"


section \<open>Encodings\<close>

lemma hex_digit_plain: "n < 16 \<Longrightarrow> \<not> is_space (hex_digit n)"
proof -
  have "list_all (\<lambda>n. \<not> is_space (hex_digit n)) [0..<16]" by (simp add: upt_rec_numeral upt_conv_Cons hex_digit_def is_space_def char_of_def bit_simps)
  then show "n < 16 \<Longrightarrow> ?thesis" by (simp add: list_all_iff)
qed

lemma from_to_hex [simp]: "from_hex (to_hex bs) = Inr bs"
proof (induction bs)
  case Nil
  then show ?case by (simp add: to_hex_def)
next
  case (Cons b bs)
  have d: "unat b div 16 < 16" "unat b mod 16 < 16" using byte_bound[of b] by (simp_all add: less_mult_imp_div_less)
  have "to_hex (b # bs) = hex_digit (unat b div 16) # hex_digit (unat b mod 16) # to_hex bs" by (simp add: to_hex_def)
  then show ?case using Cons d by (simp add: hexval_digit hex_digit_plain)
qed

lemma loop_pads:
  "set core \<subseteq> set b64_alphabet \<Longrightarrow> q < 4 \<Longrightarrow>
   b64_loop q left 0 (core @ replicate ((4 - (q + length core) mod 4) mod 4) CHR ''='') = b64_loop q left 0 (core @ ''=='')"
proof (induction core arbitrary: q left)
  case Nil
  then have "q = 0 \<or> q = 1 \<or> q = 2 \<or> q = 3" by linarith
  moreover have "replicate 2 CHR ''='' = ''==''" "replicate 3 CHR ''='' = ''===''" by (simp_all add: numeral_2_eq_2 numeral_3_eq_3)
  ultimately show ?case by (elim disjE) simp_all
next
  case (Cons c core)
  obtain v where v: "b64_val c = Some v" using Cons.prems(1) by (simp add: b64_val_def)
  have c: "c \<noteq> CHR ''=''" using Cons.prems(1) b64_alphabet_facts(2) by auto
  have n: "(q + length (c # core)) mod 4 = ((if q = 3 then 0 else Suc q) + length core) mod 4"
  proof (cases "q = 3")
    case True
    have "3 + length (c # core) = 4 + length core" by simp
    then show ?thesis unfolding True by (simp only: mod_add_self1 if_True add_0 refl simp_thms)
  qed simp
  have q: "q = 0 \<or> q = 1 \<or> q = 2 \<or> q = 3" using Cons.prems(2) by linarith
  have s: "set core \<subseteq> set b64_alphabet" using Cons.prems(1) by simp
  have IH: "b64_loop q left 0 (core @ replicate ((4 - (q + length core) mod 4) mod 4) CHR ''='') = b64_loop q left 0 (core @ ''=='')" if "q < 4" for q left
    by (rule Cons.IH[OF s that])
  have i: "b64_loop 1 left 0 (core @ replicate ((4 - (1 + length core) mod 4) mod 4) CHR ''='') = b64_loop 1 left 0 (core @ ''=='')"
    "b64_loop 2 left 0 (core @ replicate ((4 - (2 + length core) mod 4) mod 4) CHR ''='') = b64_loop 2 left 0 (core @ ''=='')"
    "b64_loop 3 left 0 (core @ replicate ((4 - (3 + length core) mod 4) mod 4) CHR ''='') = b64_loop 3 left 0 (core @ ''=='')"
    "b64_loop 0 left 0 (core @ replicate ((4 - (0 + length core) mod 4) mod 4) CHR ''='') = b64_loop 0 left 0 (core @ ''=='')" for left
    by (rule IH, simp)+
  have sucs: "Suc 0 = 1" "Suc 1 = 2" "Suc 2 = 3" by simp_all
  show ?case unfolding n append_Cons b64_loop.simps
    using q by (elim disjE) (simp_all only: sucs c v i option.case if_False if_True zero_neq_one one_neq_zero zero_neq_numeral numeral_eq_iff numeral_eq_one_iff one_eq_numeral_iff
        num.distinct simp_thms refl if_P if_not_P)
qed

lemma b64url_padded_encode [simp]: "b64url_padded (PStr (b64url_encode bs)) = Inr bs"
proof -
  obtain core where core: "b64url_encode bs = map url_char core" "set core \<subseteq> set b64_alphabet" using b64url_chars by blast
  have m: "map std_char (map url_char core @ x) = core @ map std_char x" for x using url_chars(1)[OF core(2)] by simp
  have a: "list_all is_ascii_char core" using core(2) b64_alphabet_facts(4) by (auto simp: list_all_iff)
  have e: "is_ascii_char CHR ''=''" by (simp add: is_ascii_char_def)
  have r: "list_all is_ascii_char (replicate k CHR ''='')" for k by (induction k) (simp_all add: e)
  have "b64url_decode (b64url_encode bs) = b64_loop 0 0 0 (core @ replicate ((4 - (0 + length core) mod 4) mod 4) CHR ''='')"
    unfolding b64url_decode_core core(1) m by (simp add: b64decode_def a r url_pad(2))
  also have "\<dots> = b64_loop 0 0 0 (core @ ''=='')" by (rule loop_pads[OF core(2)]) simp
  finally have "b64_loop 0 0 0 (core @ ''=='') = Inr bs" by simp
  then show ?thesis unfolding b64url_padded_def core(1) by (simp only: pyval.case m) (simp add: b64decode_def a e url_pad(2))
qed


section \<open>What the library promises\<close>

definition v2_cipher_ok :: "v2lib \<Rightarrow> bool" where
  "v2_cipher_ok vl \<longleftrightarrow> aead_ok (vl_cr vl) \<and> (\<forall>k n p a. 16 \<le> length (cr_seal (vl_cr vl) k n p a)) \<and>
     (\<forall>n s i k. length (cr_hkdf (vl_cr vl) n s i k) = n) \<and> (\<forall>n i k. length (cr_expand (vl_cr vl) n i k) = n)"

definition v2_json_ok :: "v2lib \<Rightarrow> bool" where
  "v2_json_ok vl \<longleftrightarrow> (\<forall>k. let v = PDict [(''secretKeyId'', PStr k)] in
     vl_loads vl (vl_dumps vl v) = Inr v \<and> utf8_ok (encode (vl_dumps vl v)))"

definition v2_clock_ok :: "v2lib \<Rightarrow> bool" where
  "v2_clock_ok vl \<longleftrightarrow> (\<forall>t. vl_stamp vl t \<noteq> [] \<and> (\<exists>u. vl_strptime vl (vl_stamp vl t) = Inr u \<and> \<bar>u - t\<bar> \<le> 1))"

definition v2_signer_ok :: "v2lib \<Rightarrow> bytes \<Rightarrow> bool" where
  "v2_signer_ok vl sk \<longleftrightarrow> (let pk = cr_public (vl_cr vl) sk in pk \<noteq> [] \<and> vl_point vl pk = Inr pk \<and> signature_ok (vl_cr vl) sk pk)"

definition v2_dh_ok :: "v2lib \<Rightarrow> bytes \<Rightarrow> bytes \<Rightarrow> bytes \<Rightarrow> bool" where
  "v2_dh_ok vl a b dh \<longleftrightarrow> (let pub = cr_public (vl_cr vl) in
     vl_point vl (pub a) = Inr (pub a) \<and> vl_point vl (pub b) = Inr (pub b) \<and>
     cr_exchange (vl_cr vl) a (pub b) = Inr dh \<and> cr_exchange (vl_cr vl) b (pub a) = Inr dh)"

lemma gcm_sha256_roundtrip:
  assumes "v2_cipher_ok vl" and "utf8_ok (encode p)" and "length key = 16"
  shows "\<exists>v. encrypt_aes_gcm_sha256 vl iv (encode p) key = Inr v \<and> v \<noteq> [] \<and> decrypt_aes_gcm_sha256 vl (PDict v) key = Inr p"
proof -
  let ?s = "cr_seal (vl_cr vl) key iv (encode p) []"
  have "16 \<le> length ?s" "cr_open (vl_cr vl) key iv ?s [] = Inr (encode p)" using assms(1) by (simp_all add: v2_cipher_ok_def aead_ok_def)
  then show ?thesis
    using assms(2,3) by (simp add: encrypt_aes_gcm_sha256_def decrypt_aes_gcm_sha256_def Let_def b64_value_def utf8_decode_encode)
qed

lemma to_hex_nonempty: "bs \<noteq> [] \<Longrightarrow> to_hex bs \<noteq> []"
  by (cases bs) (simp_all add: to_hex_def)

lemma public_key_hex: "vl_point vl pk = Inr pk \<Longrightarrow> public_key_from_hex vl (PStr (to_hex pk)) = Inr pk"
  by (simp add: public_key_from_hex_def)

lemma signature_json:
  assumes "v2_signer_ok vl sk"
  obtains sig where "signature_for_json vl sk v = Inr sig" and "sig \<noteq> []" and "verify_signature_for_json vl (cr_public (vl_cr vl) sk) v (PStr sig)"
proof -
  have ok: "signature_ok (vl_cr vl) sk (cr_public (vl_cr vl) sk)" using assms by (simp add: v2_signer_ok_def Let_def)
  obtain sig where s: "sign_secp256r1 (vl_cr vl) sk (vl_sorted vl v) = Inr sig" "verify_secp256r1 (vl_cr vl) (cr_public (vl_cr vl) sk) (vl_sorted vl v) sig"
    using sign_verify[OF ok] by blast
  have l: "length sig = 64" using s(1) by (auto simp: sign_secp256r1_def to_be_def bindE_Inr_iff split: prod.splits if_splits)
  have "b64url_encode [] = []" by (simp add: b64url_encode_def)
  moreover have "sig \<noteq> []" using l by auto
  ultimately have n: "b64url_encode sig \<noteq> []" using b64url_inj[of sig "[]"] by metis
  have "verify_signature_for_json vl (cr_public (vl_cr vl) sk) v (PStr (b64url_encode sig))"
    unfolding verify_signature_for_json_def b64url_padded_encode sum.case l verify_secp256r1_def Let_def using s(2) by (simp add: verify_secp256r1_def)
  then show thesis using that[of "b64url_encode sig"] s(1) n by (simp add: signature_for_json_def)
qed

text \<open>A hello passes the check for half a minute, and keeps its fields.\<close>

lemma signed_hello:
  assumes "v2_signer_ok vl sk" and "v2_clock_ok vl" and "dget parts ''proof'' = None" and "dget parts ''verification_method'' = None"
  obtains c where "sign_hello vl now sk (to_hex (cr_public (vl_cr vl) sk)) did parts = Inr c"
    and "\<And>k. dget parts k \<noteq> None \<Longrightarrow> dget c k = dget parts k"
    and "\<And>later. \<bar>later - now\<bar> \<le> 29 \<Longrightarrow> verify_hello_proof vl later c"
proof -
  let ?hex = "to_hex (cr_public (vl_cr vl) sk)"
  let ?p = "[(''type'', PStr ''EcdsaSecp256r1Signature2019''), (''created'', PStr (vl_stamp vl now)), (''verification_method'', PStr (did @ ''#keys-1''))]"
  let ?vm = "PDict [(''id'', PStr (did @ ''#keys-1'')), (''type'', PStr ''EcdsaSecp256r1VerificationKey2019''), (''public_key_hex'', PStr ?hex)]"
  let ?c = "parts @ [(''verification_method'', ?vm), (''proof'', PDict ?p)]"
  obtain sig where sig: "signature_for_json vl sk (PDict ?c) = Inr sig" "sig \<noteq> []" "verify_signature_for_json vl (cr_public (vl_cr vl) sk) (PDict ?c) (PStr sig)"
    using signature_json[OF assms(1)] by blast
  let ?q = "dset ''proof_value'' (PStr sig) ?p"
  let ?d = "dset ''proof'' (PDict ?q) ?c"
  have made: "sign_hello vl now sk ?hex did parts = Inr ?d" using sig(1) by (simp add: sign_hello_def)
  have keeps: "dget ?d k = dget parts k" if "dget parts k \<noteq> None" for k
    using that assms(3,4) by (auto simp: map_add_def update_conv split: option.splits)
  have pv: "dget ?d ''proof'' = Some (PDict ?q)" by simp
  have "dset ''proof'' (PDict ?p) ?d = ?c"
  proof -
    have "dget ?c ''proof'' = Some (PDict ?p)" using assms(3) by (simp add: map_add_def)
    then show ?thesis by (simp add: update_triv)
  qed
  moreover have "ddel ''proof_value'' ?q = ?p" by simp
  ultimately have strip: "strip_proof_value ?d = ?c" unfolding strip_proof_value_def pv by simp
  have vm: "dgetd ?d ''verification_method'' (PDict []) = ?vm" using assms(4) by (simp add: dgetd_def map_add_def)
  have pr: "dgetd ?d ''proof'' (PDict []) = PDict ?q" unfolding dgetd_def pv by simp
  have k: "?hex \<noteq> []" "public_key_from_hex vl (PStr ?hex) = Inr (cr_public (vl_cr vl) sk)"
    using assms(1) by (auto simp: v2_signer_ok_def Let_def to_hex_nonempty public_key_hex)
  obtain u where u: "vl_stamp vl now \<noteq> []" "vl_strptime vl (vl_stamp vl now) = Inr u" "\<bar>u - now\<bar> \<le> 1" using assms(2) by (auto simp: v2_clock_ok_def)
  have "verify_hello_proof vl later ?d" if "\<bar>later - now\<bar> \<le> 29" for later
  proof -
    have "\<not> \<bar>later - u\<bar> > 30" using that u(3) by linarith
    then show ?thesis
      unfolding verify_hello_proof_def check_hello_proof_def vm pr strip Let_def using k u(1,2) sig(2,3) by (simp add: dgetd_def)
  qed
  then show thesis using that[OF made] keeps by blast
qed


section \<open>Running the handshake\<close>

lemma traffic_key_ok:
  assumes "v2_cipher_ok vl" and "length label \<le> 200" and "length randoms \<le> 255"
  shows "\<exists>k. traffic_key vl ex label randoms n = Inr k \<and> length k = n"
  using assms by (simp add: traffic_key_def hkdf_label_def v2_cipher_ok_def encode_def Let_def)

lemma derive_tls13_ok:
  assumes "v2_cipher_ok vl" and "length (r1 @ r2) \<le> 255"
  obtains k1 k2 where "derive_tls13_data_keys vl shared r1 r2 n = Inr (k1, k2)" and "length k1 = n" and "length k2 = n"
proof -
  let ?x = "cr_hkdf (vl_cr vl) 32 (Some (replicate 32 0)) [] shared"
  have "length ''s ap traffic'' \<le> 200" "length ''d ap traffic'' \<le> 200" by simp_all
  then obtain k1 k2 where "traffic_key vl ?x ''s ap traffic'' (r1 @ r2) n = Inr k1" "length k1 = n"
    "traffic_key vl ?x ''d ap traffic'' (r1 @ r2) n = Inr k2" "length k2 = n"
    using traffic_key_ok[OF assms(1) _ assms(2)] by metis
  then show thesis using that by (simp add: derive_tls13_data_keys_def)
qed

definition own_key :: "v2lib \<Rightarrow> v2session \<Rightarrow> bool" where
  "own_key vl s \<longleftrightarrow> v2_signer_ok vl (vs_key s) \<and> vs_pub_hex s = to_hex (cr_public (vl_cr vl) (vs_key s))"

lemma initiate_run:
  assumes "vs_state s = VIdle" and "own_key vl s" and "v2_clock_ok vl"
  obtains c where "v2_initiate vl now s = (Inr c, s\<lparr>vs_initiator := Some True, vs_state := VInitiated\<rparr>)"
    and "\<And>later. \<bar>later - now\<bar> \<le> 29 \<Longrightarrow> verify_hello_proof vl later c"
    and "dget c ''session_id'' = Some (vs_id s)" and "dget c ''random'' = Some (PStr (vs_random s))"
    and "dget c ''cipher_suites'' = Some (PList [PStr ''TLS_AES_128_GCM_SHA256''])" and "dget c ''key_shares'' = Some (PList [local_key_share vl s])"
proof -
  let ?parts = "[(''e2ee_type'', PStr ''source_hello''), (''version'', PStr ''1.0''), (''session_id'', vs_id s), (''source_did'', PStr (vs_local s)),
       (''destination_did'', PStr (vs_peer s)), (''random'', PStr (vs_random s)), (''supported_versions'', PList [PStr ''1.0'']),
       (''cipher_suites'', PList [PStr ''TLS_AES_128_GCM_SHA256'']), (''supported_groups'', PList [PStr ''secp256r1'']), (''key_shares'', PList [local_key_share vl s])]"
  have k: "v2_signer_ok vl (vs_key s)" "vs_pub_hex s = to_hex (cr_public (vl_cr vl) (vs_key s))" using assms(2) by (simp_all add: own_key_def)
  have n: "dget ?parts ''proof'' = None" "dget ?parts ''verification_method'' = None" by simp_all
  obtain c where c: "sign_hello vl now (vs_key s) (to_hex (cr_public (vl_cr vl) (vs_key s))) (vs_local s) ?parts = Inr c"
    "\<And>k. dget ?parts k \<noteq> None \<Longrightarrow> dget c k = dget ?parts k" "\<And>later. \<bar>later - now\<bar> \<le> 29 \<Longrightarrow> verify_hello_proof vl later c"
    using signed_hello[OF k(1) assms(3) n] by blast
  have h: "build_source_hello vl now (vs_id s) (vs_local s) (vs_peer s) (vs_random s) (vs_key s) (vs_pub_hex s) [local_key_share vl s] = Inr c"
    using c(1) by (simp add: build_source_hello_def k(2))
  have "v2_initiate vl now s = (Inr c, s\<lparr>vs_initiator := Some True, vs_state := VInitiated\<rparr>)"
    using assms(1) h by (simp add: v2_initiate_def need_state_def sx_defs sx_then_def local_key_share_def)
  then show thesis using that c(3) c(2)[of "''session_id''"] c(2)[of "''random''"] c(2)[of "''cipher_suites''"] c(2)[of "''key_shares''"] by simp
qed

definition share_of :: "v2lib \<Rightarrow> int \<Rightarrow> bytes \<Rightarrow> pyval" where
  "share_of vl e eph = PDict [(''group'', PStr ''secp256r1''), (''expires'', PInt e), (''key_exchange'', PStr (to_hex (cr_public (vl_cr vl) eph)))]"

lemma local_share: "local_key_share vl s = share_of vl (vs_default s) (vs_eph s)"
  by (simp add: local_key_share_def share_of_def)

lemma share_reads:
  "pget (share_of vl e eph) ''group'' PNone = Inr (PStr ''secp256r1'')" "bindE (pget (share_of vl e eph) ''expires'' x) py_int = Inr e"
  "pindex (share_of vl e eph) ''key_exchange'' = Inr (PStr (to_hex (cr_public (vl_cr vl) eph)))"
  by (simp_all add: share_of_def dgetd_def)

definition suite_name :: pyval where
  "suite_name = PStr ''TLS_AES_128_GCM_SHA256''"

lemma finished_ok:
  assumes "v2_cipher_ok vl" and "v2_json_ok vl" and "length key = 16"
  obtains f where "build_finished vl iv sid (PStr a) (PStr b) key = Inr f"
    and "\<exists>v. oget f ''verify_data'' = PDict v \<and> v \<noteq> [] \<and> decrypt_aes_gcm_sha256 vl (PDict v) key = Inr (vl_dumps vl (PDict [(''secretKeyId'', PStr (generate_16_char vl a b))]))"
proof -
  have u: "utf8_ok (encode (vl_dumps vl (PDict [(''secretKeyId'', PStr (generate_16_char vl a b))])))" using assms(2) by (simp add: v2_json_ok_def Let_def)
  obtain v where v: "encrypt_aes_gcm_sha256 vl iv (encode (vl_dumps vl (PDict [(''secretKeyId'', PStr (generate_16_char vl a b))]))) key = Inr v" "v \<noteq> []"
    "decrypt_aes_gcm_sha256 vl (PDict v) key = Inr (vl_dumps vl (PDict [(''secretKeyId'', PStr (generate_16_char vl a b))]))"
    using gcm_sha256_roundtrip[OF assms(1) u assms(3)] by blast
  show thesis
    using v by (intro that[of "[(''e2ee_type'', PStr ''finished''), (''session_id'', sid), (''verify_data'', PDict v)]"])
      (simp_all add: build_finished_def key_id_of_def oget_def dgetd_def)
qed

lemma check_finished_ok:
  assumes "v2_json_ok vl" and "vs_recv s = Some key" and "ordered_randoms s = (PStr a, PStr b)"
    and "\<exists>v. oget f ''verify_data'' = PDict v \<and> v \<noteq> [] \<and> decrypt_aes_gcm_sha256 vl (PDict v) key = Inr (vl_dumps vl (PDict [(''secretKeyId'', PStr (generate_16_char vl a b))]))"
    and "generate_16_char vl a b \<noteq> []"
  shows "check_finished vl f s = Inr (generate_16_char vl a b)"
proof -
  have "vl_loads vl (vl_dumps vl (PDict [(''secretKeyId'', PStr k)])) = Inr (PDict [(''secretKeyId'', PStr k)])" for k
    using assms(1) by (simp add: v2_json_ok_def Let_def)
  then show ?thesis using assms(2-5) by (auto simp: check_finished_def with_key_def key_id_of_def dgetd_def)
qed


lemma derive_run:
  assumes "vl_point vl pk = Inr pk" and "cr_exchange (vl_cr vl) (vs_eph s) pk = Inr dh" and "vs_suite s = suite_name" and "ordered_randoms s = (PStr a, PStr b)"
    and "derive_tls13_data_keys vl dh (encode a) (encode b) 16 = Inr (k1, k2)"
  shows "derive_keys vl (PStr (to_hex pk)) s =
    (Inr (), if vs_initiator s = Some True then s\<lparr>vs_send := Some k1, vs_recv := Some k2\<rparr> else s\<lparr>vs_send := Some k2, vs_recv := Some k1\<rparr>)"
  using assms by (simp add: derive_keys_def v2_derive_def public_key_hex key_length_of_suite_def suite_name_def text_bytes_def sx_defs)

lemma finish_run:
  assumes "ordered_randoms s = (PStr a, PStr b)" and "vs_send s = Some key" and "build_finished vl iv (vs_id s) (PStr a) (PStr b) key = Inr f"
  shows "finish_hello vl iv s = (Inr f, s\<lparr>vs_state := VCompleting\<rparr>)"
  using assms by (simp add: finish_hello_def with_key_def sx_defs sx_then_def)

lemma expiry_run: "take_expiry (share_of vl e eph) s = (Inr (), s\<lparr>vs_key_expires := Some (min e (vs_default s))\<rparr>)"
  by (simp add: take_expiry_def share_reads sx_defs)

lemma source_run:
  assumes lib: "v2_cipher_ok vl" "v2_json_ok vl" "v2_clock_ok vl" and r: "vs_state r = VIdle" "own_key vl r"
    and c: "verify_hello_proof vl now c" "dget c ''session_id'' = Some sid" "dget c ''random'' = Some (PStr a)" "dget c ''cipher_suites'' = Some (PList [suite_name])"
      "dget c ''key_shares'' = Some (PList [share_of vl e eph])"
    and k: "v2_dh_ok vl eph (vs_eph r) dh" "derive_tls13_data_keys vl dh (encode a) (encode (vs_random r)) 16 = Inr (k1, k2)" "length k2 = 16"
  obtains h f where "process_source_hello vl now iv c r = (Inr (h, f), r\<lparr>vs_initiator := Some False, vs_id := sid, vs_peer_random := PStr a, vs_suite := suite_name,
      vs_key_expires := Some (min e (vs_default r)), vs_send := Some k2, vs_recv := Some k1, vs_state := VCompleting\<rparr>)"
    and "\<And>later. \<bar>later - now\<bar> \<le> 29 \<Longrightarrow> verify_hello_proof vl later h"
    and "dget h ''random'' = Some (PStr (vs_random r))" and "dget h ''cipher_suite'' = Some suite_name" and "dget h ''key_share'' = Some (share_of vl (vs_default r) (vs_eph r))"
    and "\<exists>v. oget f ''verify_data'' = PDict v \<and> v \<noteq> [] \<and> decrypt_aes_gcm_sha256 vl (PDict v) k2 =
      Inr (vl_dumps vl (PDict [(''secretKeyId'', PStr (generate_16_char vl a (vs_random r)))]))"
proof -
  let ?r1 = "r\<lparr>vs_initiator := Some False, vs_id := sid, vs_peer_random := PStr a, vs_suite := suite_name, vs_key_expires := Some (min e (vs_default r))\<rparr>"
  let ?r2 = "?r1\<lparr>vs_send := Some k2, vs_recv := Some k1\<rparr>"
  let ?parts = "[(''e2ee_type'', PStr ''destination_hello''), (''version'', PStr ''1.0''), (''session_id'', sid), (''source_did'', PStr (vs_local r)),
       (''destination_did'', PStr (vs_peer r)), (''random'', PStr (vs_random r)), (''selected_version'', PStr ''1.0''), (''cipher_suite'', suite_name),
       (''key_share'', share_of vl (vs_default r) (vs_eph r))]"
  have own: "v2_signer_ok vl (vs_key r)" "vs_pub_hex r = to_hex (cr_public (vl_cr vl) (vs_key r))" using r(2) by (simp_all add: own_key_def)
  have n: "dget ?parts ''proof'' = None" "dget ?parts ''verification_method'' = None" by simp_all
  obtain h where h: "sign_hello vl now (vs_key r) (to_hex (cr_public (vl_cr vl) (vs_key r))) (vs_local r) ?parts = Inr h"
    "\<And>k. dget ?parts k \<noteq> None \<Longrightarrow> dget h k = dget ?parts k" "\<And>later. \<bar>later - now\<bar> \<le> 29 \<Longrightarrow> verify_hello_proof vl later h"
    using signed_hello[OF own(1) lib(3) n] by blast
  obtain f where f: "build_finished vl iv sid (PStr a) (PStr (vs_random r)) k2 = Inr f"
    "\<exists>v. oget f ''verify_data'' = PDict v \<and> v \<noteq> [] \<and> decrypt_aes_gcm_sha256 vl (PDict v) k2 =
      Inr (vl_dumps vl (PDict [(''secretKeyId'', PStr (generate_16_char vl a (vs_random r)))]))"
    using finished_ok[OF lib(1,2) k(3)] by blast
  have dh: "vl_point vl (cr_public (vl_cr vl) eph) = Inr (cr_public (vl_cr vl) eph)" "cr_exchange (vl_cr vl) (vs_eph ?r1) (cr_public (vl_cr vl) eph) = Inr dh"
    using k(1) by (simp_all add: v2_dh_ok_def Let_def)
  have d: "derive_keys vl (PStr (to_hex (cr_public (vl_cr vl) eph))) ?r1 = (Inr (), ?r2)"
    using derive_run[OF dh(1,2) _ _ k(2)] by (simp add: ordered_randoms_def)
  have fin: "finish_hello vl iv ?r2 = (Inr f, ?r2\<lparr>vs_state := VCompleting\<rparr>)"
    by (rule finish_run[of _ a "vs_random r" k2]) (simp_all add: ordered_randoms_def f(1))
  have hello: "build_destination_hello vl now (vs_id ?r2) (vs_local ?r2) (vs_peer ?r2) (vs_random ?r2) (vs_key ?r2) (vs_pub_hex ?r2) (local_key_share vl ?r2) (vs_suite ?r2) = Inr h"
    using h(1) by (simp add: build_destination_hello_def local_share own(2))
  have ex: "take_expiry (share_of vl e eph) (r\<lparr>vs_initiator := Some False, vs_id := sid, vs_peer_random := PStr a, vs_suite := suite_name\<rparr>) = (Inr (), ?r1)"
    by (simp add: expiry_run)
  have "process_source_hello vl now iv c r = (Inr (h, f), ?r2\<lparr>vs_state := VCompleting\<rparr>)"
    using r(1) c d fin hello ex
    by (simp add: process_source_hello_def need_state_def sx_defs sx_then_def oindex_def dgetd_def share_reads suite_name_def)
  then show thesis using that h(3) h(2)[of "''random''"] h(2)[of "''cipher_suite''"] h(2)[of "''key_share''"] f(2) by simp
qed

lemma destination_run:
  assumes lib: "v2_cipher_ok vl" "v2_json_ok vl" and s: "vs_state s = VInitiated" "vs_initiator s = Some True"
    and c: "verify_hello_proof vl now c" "dget c ''random'' = Some (PStr b)" "dget c ''cipher_suite'' = Some suite_name" "dget c ''key_share'' = Some (share_of vl e eph)"
    and k: "v2_dh_ok vl (vs_eph s) eph dh" "derive_tls13_data_keys vl dh (encode (vs_random s)) (encode b) 16 = Inr (k1, k2)" "length k1 = 16"
  obtains f where "process_destination_hello vl now iv c s = (Inr f, s\<lparr>vs_peer_random := PStr b, vs_suite := suite_name,
      vs_key_expires := Some (min e (vs_default s)), vs_send := Some k1, vs_recv := Some k2, vs_state := VCompleting\<rparr>)"
    and "\<exists>v. oget f ''verify_data'' = PDict v \<and> v \<noteq> [] \<and> decrypt_aes_gcm_sha256 vl (PDict v) k1 =
      Inr (vl_dumps vl (PDict [(''secretKeyId'', PStr (generate_16_char vl (vs_random s) b))]))"
proof -
  let ?s1 = "s\<lparr>vs_peer_random := PStr b, vs_suite := suite_name, vs_key_expires := Some (min e (vs_default s))\<rparr>"
  let ?s2 = "?s1\<lparr>vs_send := Some k1, vs_recv := Some k2\<rparr>"
  obtain f where f: "build_finished vl iv (vs_id s) (PStr (vs_random s)) (PStr b) k1 = Inr f"
    "\<exists>v. oget f ''verify_data'' = PDict v \<and> v \<noteq> [] \<and> decrypt_aes_gcm_sha256 vl (PDict v) k1 =
      Inr (vl_dumps vl (PDict [(''secretKeyId'', PStr (generate_16_char vl (vs_random s) b))]))"
    using finished_ok[OF lib k(3)] by blast
  have dh: "vl_point vl (cr_public (vl_cr vl) eph) = Inr (cr_public (vl_cr vl) eph)" "cr_exchange (vl_cr vl) (vs_eph ?s1) (cr_public (vl_cr vl) eph) = Inr dh"
    using k(1) by (simp_all add: v2_dh_ok_def Let_def)
  have d: "derive_keys vl (PStr (to_hex (cr_public (vl_cr vl) eph))) ?s1 = (Inr (), ?s2)"
    using derive_run[OF dh(1,2) _ _ k(2)] s(2) by (simp add: ordered_randoms_def)
  have fin: "finish_hello vl iv ?s2 = (Inr f, ?s2\<lparr>vs_state := VCompleting\<rparr>)"
    by (rule finish_run[of _ "vs_random s" b k1]) (simp_all add: ordered_randoms_def f(1) s(2))
  have ex: "take_expiry (share_of vl e eph) (s\<lparr>vs_peer_random := PStr b, vs_suite := suite_name\<rparr>) = (Inr (), ?s1)"
    by (simp add: expiry_run)
  have "process_destination_hello vl now iv c s = (Inr f, ?s2\<lparr>vs_state := VCompleting\<rparr>)"
    using s c d fin ex
    by (simp add: process_destination_hello_def need_state_def sx_defs sx_then_def oindex_def share_reads)
  then show thesis using that f(2) by simp
qed


section \<open>Calls on one session\<close>

datatype v2_call =
    CInitiate real
  | CSourceHello real bytes pyobj
  | CDestinationHello real bytes pyobj
  | CFinished real pyobj
  | CEncrypt bytes string string
  | CDecrypt pyobj

definition ignore :: "('s, 'a) sx \<Rightarrow> ('s, unit) sx" where
  "ignore m = sx_bind m (\<lambda>_. sx_return ())"

fun v2_step :: "v2lib \<Rightarrow> v2_call \<Rightarrow> (v2session, unit) sx" where
  "v2_step vl (CInitiate now) = ignore (v2_initiate vl now)"
| "v2_step vl (CSourceHello now iv content) = ignore (process_source_hello vl now iv content)"
| "v2_step vl (CDestinationHello now iv content) = ignore (process_destination_hello vl now iv content)"
| "v2_step vl (CFinished now content) = process_finished vl now content"
| "v2_step vl (CEncrypt iv kind plain) = ignore (v2_encrypt_message vl iv kind plain)"
| "v2_step vl (CDecrypt content) = ignore (v2_decrypt_message vl content)"

fun v2_calls :: "v2lib \<Rightarrow> v2_call list \<Rightarrow> v2session \<Rightarrow> v2session" where
  "v2_calls vl [] s = s"
| "v2_calls vl (c # cs) s = v2_calls vl cs (snd (v2_step vl c s))"

definition v2_rank :: "v2_state \<Rightarrow> nat" where
  "v2_rank st = (case st of VIdle \<Rightarrow> 0 | VInitiated \<Rightarrow> 1 | VCompleting \<Rightarrow> 2 | VActive \<Rightarrow> 3)"

definition v2_inv :: "v2session \<Rightarrow> bool" where
  "v2_inv s \<longleftrightarrow> (vs_state s \<noteq> VIdle \<longrightarrow> vs_initiator s \<noteq> None) \<and> (2 \<le> v2_rank (vs_state s) \<longrightarrow> vs_send s \<noteq> None \<and> vs_recv s \<noteq> None) \<and>
     (vs_state s = VActive \<longleftrightarrow> vs_key_id s \<noteq> None) \<and> (vs_state s = VActive \<longleftrightarrow> vs_active s \<noteq> None)"

text \<open>
  A call that raises leaves state, key id and time of activation, and changes nothing else from the time the keys are
  there; a hello that is answered moves on with both keys.
\<close>

definition keyed :: "v2session \<Rightarrow> bool" where
  "keyed s \<longleftrightarrow> vs_send s \<noteq> None \<and> vs_recv s \<noteq> None \<and> vs_initiator s \<noteq> None"

definition at_state :: "v2_state \<Rightarrow> v2session \<Rightarrow> v2session \<Rightarrow> bool" where
  "at_state st s0 s \<longleftrightarrow> vs_state s = st \<and> vs_key_id s = vs_key_id s0 \<and> vs_active s = vs_active s0 \<and> (vs_initiator s0 \<noteq> None \<longrightarrow> vs_initiator s \<noteq> None)"

definition refused :: "v2session \<Rightarrow> v2session \<Rightarrow> bool" where
  "refused s0 s \<longleftrightarrow> s = s0 \<or> vs_state s0 \<in> {VIdle, VInitiated} \<and> at_state (vs_state s0) s0 s"

lemma derive_triple: "sx_triple (\<lambda>s. at_state st s0 s \<and> vs_initiator s \<noteq> None) (derive_keys vl hex) (\<lambda>_ s. at_state st s0 s \<and> keyed s) (at_state st s0)"
  by (auto simp: sx_triple_def at_state_def keyed_def derive_keys_def sx_defs split: sum.splits)

lemma finish_triple: "sx_triple (\<lambda>s. at_state st s0 s \<and> keyed s) (finish_hello vl iv) (\<lambda>_ s. at_state VCompleting s0 s \<and> keyed s) (at_state st s0)"
  by (auto simp: sx_triple_def at_state_def keyed_def finish_hello_def sx_then_def sx_defs split: sum.splits prod.splits)

lemma need_triple:
  assumes "st \<in> {VIdle, VInitiated}" and "vs_state s0 = st \<Longrightarrow> sx_triple (\<lambda>s. s = s0) m Q (at_state st s0)"
  shows "sx_triple (\<lambda>s. s = s0) (sx_then (need_state st) m) (\<lambda>x s. vs_state s0 = st \<and> Q x s) (refused s0)"
proof (cases "vs_state s0 = st")
  case True
  with assms(2)[OF True] assms(1) show ?thesis
    by (auto simp: sx_triple_def sx_then_def need_state_def sx_defs refused_def split: prod.splits sum.splits)
qed (auto simp: sx_triple_def sx_then_def need_state_def sx_defs refused_def)

definition ready :: "v2_state \<Rightarrow> v2session \<Rightarrow> v2session \<Rightarrow> bool" where
  "ready st s0 s \<longleftrightarrow> at_state st s0 s \<and> vs_initiator s \<noteq> None"

lemma modify_then: "(\<And>s. P s \<Longrightarrow> R (g s)) \<Longrightarrow> sx_triple R n Q E \<Longrightarrow> sx_triple P (sx_then (sx_modify g) n) Q E"
  by (rule sx_triple_then[OF sx_triple_modify])

lemma expiry_then: "sx_triple (ready st s0) n Q (at_state st s0) \<Longrightarrow> sx_triple (ready st s0) (sx_then (take_expiry share) n) Q (at_state st s0)"
proof (rule sx_triple_then)
  show "sx_triple (ready st s0) (take_expiry share) (\<lambda>_. ready st s0) (at_state st s0)"
    by (auto simp: sx_triple_def ready_def at_state_def take_expiry_def sx_defs split: sum.splits)
qed

lemma derive_then:
  "sx_triple (\<lambda>s. at_state st s0 s \<and> keyed s) n Q (at_state st s0) \<Longrightarrow> sx_triple (ready st s0) (sx_then (derive_keys vl hex) n) Q (at_state st s0)"
  by (rule sx_triple_then[OF _ ]) (auto intro: sx_triple_conseq[OF derive_triple] simp: ready_def)

lemma raise_triple: "(\<And>s. P s \<Longrightarrow> E s) \<Longrightarrow> sx_triple P (sx_raise e) Q E"
  by (simp add: sx_triple_def sx_raise_def)

lemma ready_at: "ready st s0 s \<Longrightarrow> at_state st s0 s"
  by (simp add: ready_def)

lemma source_triple:
  "sx_triple (\<lambda>s. s = s0) (process_source_hello vl now iv content) (\<lambda>_ s. vs_state s0 = VIdle \<and> at_state VCompleting s0 s \<and> keyed s) (refused s0)"
  unfolding process_source_hello_def
proof (rule need_triple, simp)
  let ?E = "at_state VIdle s0"
  have fin: "sx_triple (\<lambda>s. at_state VIdle s0 s \<and> keyed s) (sx_bind (finish_hello vl iv) (\<lambda>finished. sx_return (h, finished)))
      (\<lambda>_ s. at_state VCompleting s0 s \<and> keyed s) ?E" for h
    by (rule sx_triple_bind[OF finish_triple]) (simp add: sx_triple_return)
  assume st: "vs_state s0 = VIdle"
  show "sx_triple (\<lambda>s. s = s0)
      (sx_then (sx_modify (\<lambda>s. s\<lparr>vs_initiator := Some False\<rparr>))
    (if \<not> verify_hello_proof vl now content then sx_raise (ValueError ''SourceHello proof'')
     else sx_bind (sx_lift (oindex content ''session_id'')) (\<lambda>sid.
       sx_then (sx_modify (\<lambda>s. s\<lparr>vs_id := sid\<rparr>))
      (sx_bind (sx_lift (oindex content ''random'')) (\<lambda>random.
       sx_then (sx_modify (\<lambda>s. s\<lparr>vs_peer_random := random, vs_suite := PNone\<rparr>))
      (sx_bind (sx_lift (py_in ''TLS_AES_128_GCM_SHA256'' (dgetd content ''cipher_suites'' (PList [])))) (\<lambda>offered.
       if \<not> offered then sx_raise (ValueError ''cipher suites'')
       else sx_then (sx_modify (\<lambda>s. s\<lparr>vs_suite := PStr ''TLS_AES_128_GCM_SHA256''\<rparr>))
      (sx_bind (sx_lift (bindE (py_iter (dgetd content ''key_shares'' (PList []))) find_share)) (\<lambda>share.
       sx_then (take_expiry share)
      (sx_bind (sx_lift (pindex share ''key_exchange'')) (\<lambda>hex.
       sx_then (derive_keys vl hex)
      (sx_bind (sx_get (\<lambda>s. build_destination_hello vl now (vs_id s) (vs_local s) (vs_peer s) (vs_random s) (vs_key s) (vs_pub_hex s) (local_key_share vl s) (vs_suite s))) (\<lambda>r.
       sx_bind (sx_lift r) (\<lambda>hello.
       sx_bind (finish_hello vl iv) (\<lambda>finished. sx_return (hello, finished)))))))))))))))) (\<lambda>_ s. at_state VCompleting s0 s \<and> keyed s) ?E"
    by (rule modify_then[where R = "ready VIdle s0"], simp add: ready_def at_state_def st)
      (intro sx_triple_if raise_triple sx_triple_lift_bind modify_then[where P = "ready VIdle s0" and R = "ready VIdle s0"] expiry_then derive_then sx_triple_get_bind fin;
       simp add: ready_def at_state_def)
qed

lemma destination_triple:
  assumes "vs_state s0 = VInitiated \<Longrightarrow> vs_initiator s0 \<noteq> None"
  shows "sx_triple (\<lambda>s. s = s0) (process_destination_hello vl now iv content)
     (\<lambda>_ s. vs_state s0 = VInitiated \<and> at_state VCompleting s0 s \<and> keyed s) (refused s0)"
  unfolding process_destination_hello_def
proof (rule need_triple, simp)
  assume st: "vs_state s0 = VInitiated"
  then have r: "\<And>s. s = s0 \<Longrightarrow> ready VInitiated s0 s" using assms by (simp add: ready_def at_state_def)
  show "sx_triple (\<lambda>s. s = s0)
    (if \<not> verify_hello_proof vl now content then sx_raise (ValueError ''DestinationHello proof'')
     else sx_bind (sx_lift (oindex content ''random'')) (\<lambda>random.
       sx_then (sx_modify (\<lambda>s. s\<lparr>vs_peer_random := random\<rparr>))
      (sx_bind (sx_lift (oindex content ''cipher_suite'')) (\<lambda>suite.
       sx_then (sx_modify (\<lambda>s. s\<lparr>vs_suite := suite\<rparr>))
      (sx_bind (sx_lift (oindex content ''key_share'')) (\<lambda>share.
       sx_bind (sx_lift (pget share ''group'' PNone)) (\<lambda>g.
       if g \<noteq> PStr ''secp256r1'' then sx_raise (ValueError ''group'')
       else sx_then (take_expiry share)
      (sx_bind (sx_lift (pindex share ''key_exchange'')) (\<lambda>hex.
       sx_then (derive_keys vl hex) (finish_hello vl iv))))))))))
     (\<lambda>_ s. at_state VCompleting s0 s \<and> keyed s) (at_state VInitiated s0)"
    by (rule sx_triple_conseq[where P' = "ready VInitiated s0", rotated])
      (assumption | erule r | intro sx_triple_if raise_triple sx_triple_lift_bind modify_then[where P = "ready VInitiated s0" and R = "ready VInitiated s0"] expiry_then derive_then finish_triple
       | simp add: ready_def at_state_def)+
qed

lemma initiate_triple:
  "sx_triple (\<lambda>s. s = s0) (v2_initiate vl now) (\<lambda>_ s. vs_state s0 = VIdle \<and> at_state VInitiated s0 s \<and> vs_initiator s \<noteq> None) (refused s0)"
  by (auto simp: sx_triple_def v2_initiate_def need_state_def sx_then_def sx_defs at_state_def refused_def split: sum.splits)

lemma finished_triple:
  "sx_triple (\<lambda>s. s = s0) (process_finished vl now content)
     (\<lambda>_ s. vs_state s0 = VCompleting \<and> (\<exists>kid. s = s0\<lparr>vs_key_id := Some kid, vs_active := Some now, vs_state := VActive\<rparr>)) (refused s0)"
  by (auto simp: sx_triple_def process_finished_def need_state_def sx_then_def sx_defs refused_def split: sum.splits)

lemma messages_pure: "snd (v2_encrypt_message vl iv kind plain s) = s" "snd (v2_decrypt_message vl content s) = s"
  by (simp_all add: v2_encrypt_message_def v2_decrypt_message_def need_state_def sx_then_def sx_defs)

lemma triple_at: "sx_triple (\<lambda>s. s = s0) m Q E \<Longrightarrow> m s0 = (r, s') \<Longrightarrow> (case r of Inl e \<Rightarrow> E s' | Inr x \<Rightarrow> Q x s')"
  by (simp add: sx_triple_def split: sum.split)

text \<open>One step forward, or none.\<close>

definition forward :: "v2_state \<Rightarrow> v2_state \<Rightarrow> bool" where
  "forward a b \<longleftrightarrow> a = b \<or> (a, b) \<in> {(VIdle, VInitiated), (VIdle, VCompleting), (VInitiated, VCompleting), (VCompleting, VActive)}"

definition step_ok :: "v2session \<Rightarrow> v2session \<Rightarrow> bool" where
  "step_ok s0 s \<longleftrightarrow> v2_inv s \<and> forward (vs_state s0) (vs_state s)"

lemma refused_ok: "v2_inv s0 \<Longrightarrow> refused s0 s \<Longrightarrow> step_ok s0 s"
  by (auto simp: step_ok_def refused_def v2_inv_def at_state_def forward_def v2_rank_def)

lemma keyed_ok: "v2_inv s0 \<Longrightarrow> vs_state s0 \<in> {VIdle, VInitiated} \<Longrightarrow> at_state VCompleting s0 s \<and> keyed s \<Longrightarrow> step_ok s0 s"
  by (auto simp: step_ok_def v2_inv_def at_state_def keyed_def forward_def)

lemma snd_ignore: "snd (ignore m s) = snd (m s)"
  by (simp add: ignore_def sx_defs split: prod.splits sum.splits)

lemma call_ok:
  assumes "sx_triple (\<lambda>s. s = s0) m Q (refused s0)" and "v2_inv s0" and "\<And>x s. Q x s \<Longrightarrow> step_ok s0 s"
  shows "step_ok s0 (snd (m s0))"
proof -
  obtain r s' where m: "m s0 = (r, s')" by fastforce
  then show ?thesis
    using triple_at[OF assms(1) m] refused_ok[OF assms(2)] assms(3) by (cases r) auto
qed

lemma v2_step_ok:
  assumes "v2_inv s"
  shows "step_ok s (snd (v2_step vl c s))"
proof (cases c)
  case (CInitiate now)
  have "step_ok s s'" if "vs_state s = VIdle \<and> at_state VInitiated s s' \<and> vs_initiator s' \<noteq> None" for s'
    using that assms by (auto simp: step_ok_def v2_inv_def at_state_def forward_def v2_rank_def)
  then show ?thesis using call_ok[OF initiate_triple assms] CInitiate by (simp add: snd_ignore)
next
  case (CSourceHello now iv content)
  then show ?thesis using call_ok[OF source_triple assms] keyed_ok[OF assms] by (simp add: snd_ignore)
next
  case (CDestinationHello now iv content)
  have "vs_state s = VInitiated \<Longrightarrow> vs_initiator s \<noteq> None" using assms by (simp add: v2_inv_def)
  from call_ok[OF destination_triple[OF this] assms] CDestinationHello show ?thesis using keyed_ok[OF assms] by (simp add: snd_ignore)
next
  case (CFinished now content)
  have "step_ok s s'" if "vs_state s = VCompleting \<and> (\<exists>kid. s' = s\<lparr>vs_key_id := Some kid, vs_active := Some now, vs_state := VActive\<rparr>)" for s'
    using that assms by (auto simp: step_ok_def v2_inv_def forward_def v2_rank_def)
  then show ?thesis using call_ok[OF finished_triple assms] CFinished by simp
qed (simp_all add: snd_ignore messages_pure refused_ok[OF assms] refused_def)

lemma v2_calls_ok: "v2_inv s \<Longrightarrow> v2_inv (v2_calls vl cs s) \<and> v2_rank (vs_state s) \<le> v2_rank (vs_state (v2_calls vl cs s))"
proof (induction cs arbitrary: s)
  case (Cons c cs)
  have o: "v2_inv (snd (v2_step vl c s))" "forward (vs_state s) (vs_state (snd (v2_step vl c s)))"
    using v2_step_ok[OF Cons.prems, of vl c] by (simp_all add: step_ok_def)
  have "v2_rank (vs_state s) \<le> v2_rank (vs_state (snd (v2_step vl c s)))" using o(2) by (auto simp: forward_def v2_rank_def)
  then show ?case using Cons.IH[OF o(1)] by (auto intro: le_trans)
qed simp
section \<open>Properties\<close>

lemma v2_message:
  assumes "v2_cipher_ok vl" and "vs_state s = VActive" and "vs_state r = VActive" and "vs_send s = Some k" and "vs_recv r = Some k" and "length k = 16"
    and "utf8_ok (encode p)"
  shows "\<exists>m. v2_encrypt_message vl iv kind p s = (Inr m, s) \<and> v2_decrypt_message vl m r = (Inr (PStr kind, p), r)"
proof -
  obtain v where v: "encrypt_aes_gcm_sha256 vl iv (encode p) k = Inr v" "decrypt_aes_gcm_sha256 vl (PDict v) k = Inr p"
    using gcm_sha256_roundtrip[OF assms(1,7,6)] by blast
  then show ?thesis
    using assms(2-5)
    by (simp add: v2_encrypt_message_def v2_decrypt_message_def need_state_def sx_then_def sx_defs with_key_def build_encrypted_message_def open_v2_message_def oindex_def)
qed

lemma key_id_nonempty: "v2_cipher_ok vl \<Longrightarrow> generate_16_char vl a b \<noteq> []"
proof -
  assume "v2_cipher_ok vl"
  then have "length (cr_hkdf (vl_cr vl) 8 None [] (encode (a @ b))) = 8" by (simp add: v2_cipher_ok_def)
  then have "cr_hkdf (vl_cr vl) 8 None [] (encode (a @ b)) \<noteq> []" by auto
  then show ?thesis unfolding generate_16_char_def by (rule to_hex_nonempty)
qed

lemma finished_run:
  assumes "vs_state s = VCompleting" and "check_finished vl f s = Inr kid"
  shows "process_finished vl now f s = (Inr (), s\<lparr>vs_key_id := Some kid, vs_active := Some now, vs_state := VActive\<rparr>)"
  using assms by (simp add: process_finished_def need_state_def sx_then_def sx_defs)

text \<open>
  C38. Two fresh sessions that exchange the four messages of the handshake in time are active with the same key id, and each
  reads every message of the other.  Nothing relates the keys of the hellos to the DIDs: the sessions keep the peers they
  were made for, whoever signed.
\<close>
theorem v2_handshake:
  assumes lib: "v2_cipher_ok vl" "v2_json_ok vl" "v2_clock_ok vl" and s: "vs_state s = VIdle" "own_key vl s" and r: "vs_state r = VIdle" "own_key vl r"
    and dh: "v2_dh_ok vl (vs_eph s) (vs_eph r) dh" and len: "length (vs_random s) + length (vs_random r) \<le> 255"
    and time: "\<bar>t1 - t0\<bar> \<le> 29" "\<bar>t2 - t1\<bar> \<le> 29"
  shows "\<exists>hello s1 hello' fin r1 fin' s2 s3 r2.
    v2_initiate vl t0 s = (Inr hello, s1) \<and> process_source_hello vl t1 iv hello r = (Inr (hello', fin), r1) \<and>
    process_destination_hello vl t2 iv' hello' s1 = (Inr fin', s2) \<and> process_finished vl t3 fin s2 = (Inr (), s3) \<and> process_finished vl t4 fin' r1 = (Inr (), r2) \<and>
    vs_state s3 = VActive \<and> vs_state r2 = VActive \<and> vs_key_id s3 = vs_key_id r2 \<and> vs_peer s3 = vs_peer s \<and> vs_peer r2 = vs_peer r \<and>
    (\<forall>iv kind p. utf8_ok (encode p) \<longrightarrow>
      (\<exists>m. v2_encrypt_message vl iv kind p s3 = (Inr m, s3) \<and> v2_decrypt_message vl m r2 = (Inr (PStr kind, p), r2)) \<and>
      (\<exists>m. v2_encrypt_message vl iv kind p r2 = (Inr m, r2) \<and> v2_decrypt_message vl m s3 = (Inr (PStr kind, p), s3)))"
proof -
  let ?a = "vs_random s" and ?b = "vs_random r"
  obtain k1 k2 where k: "derive_tls13_data_keys vl dh (encode ?a) (encode ?b) 16 = Inr (k1, k2)" "length k1 = 16" "length k2 = 16"
    using derive_tls13_ok[OF lib(1), of "encode ?a" "encode ?b" dh 16] len by (auto simp: encode_def)
  let ?s1 = "s\<lparr>vs_initiator := Some True, vs_state := VInitiated\<rparr>"
  obtain hello where h0: "v2_initiate vl t0 s = (Inr hello, ?s1)" "\<And>later. \<bar>later - t0\<bar> \<le> 29 \<Longrightarrow> verify_hello_proof vl later hello"
    "dget hello ''session_id'' = Some (vs_id s)" "dget hello ''random'' = Some (PStr ?a)"
    "dget hello ''cipher_suites'' = Some (PList [PStr ''TLS_AES_128_GCM_SHA256''])" "dget hello ''key_shares'' = Some (PList [local_key_share vl s])"
    using initiate_run[OF s lib(3), of t0] by blast
  note h = h0(1) h0(2)[OF time(1)] h0(3,4) h0(5)[folded suite_name_def] h0(6)[unfolded local_share]
  let ?r1 = "r\<lparr>vs_initiator := Some False, vs_id := vs_id s, vs_peer_random := PStr ?a, vs_suite := suite_name,
      vs_key_expires := Some (min (vs_default s) (vs_default r)), vs_send := Some k2, vs_recv := Some k1, vs_state := VCompleting\<rparr>"
  obtain hello' fin where d0: "process_source_hello vl t1 iv hello r = (Inr (hello', fin), ?r1)"
    "\<And>later. \<bar>later - t1\<bar> \<le> 29 \<Longrightarrow> verify_hello_proof vl later hello'"
    "dget hello' ''random'' = Some (PStr ?b)" "dget hello' ''cipher_suite'' = Some suite_name" "dget hello' ''key_share'' = Some (share_of vl (vs_default r) (vs_eph r))"
    "\<exists>v. oget fin ''verify_data'' = PDict v \<and> v \<noteq> [] \<and> decrypt_aes_gcm_sha256 vl (PDict v) k2 = Inr (vl_dumps vl (PDict [(''secretKeyId'', PStr (generate_16_char vl ?a ?b))]))"
    using source_run[OF lib r h(2-6) dh k(1,3), of iv] by blast
  note d = d0(1) d0(2)[OF time(2)] d0(3-6)
  let ?s2 = "?s1\<lparr>vs_peer_random := PStr ?b, vs_suite := suite_name, vs_key_expires := Some (min (vs_default r) (vs_default s)), vs_send := Some k1, vs_recv := Some k2,
      vs_state := VCompleting\<rparr>"
  have i: "vs_state ?s1 = VInitiated" "vs_initiator ?s1 = Some True" "vs_random ?s1 = ?a" "vs_default ?s1 = vs_default s" "vs_eph ?s1 = vs_eph s" by simp_all
  obtain fin' where e: "process_destination_hello vl t2 iv' hello' ?s1 = (Inr fin', ?s2)"
    "\<exists>v. oget fin' ''verify_data'' = PDict v \<and> v \<noteq> [] \<and> decrypt_aes_gcm_sha256 vl (PDict v) k1 = Inr (vl_dumps vl (PDict [(''secretKeyId'', PStr (generate_16_char vl ?a ?b))]))"
    using destination_run[where s = ?s1 and iv = iv', unfolded i(3-5), OF lib(1,2) i(1,2) d(2-5) dh k(1,2)] by blast
  let ?kid = "generate_16_char vl ?a ?b"
  have o: "vs_recv ?s2 = Some k2" "ordered_randoms ?s2 = (PStr ?a, PStr ?b)" "vs_recv ?r1 = Some k1" "ordered_randoms ?r1 = (PStr ?a, PStr ?b)"
    by (simp_all add: ordered_randoms_def)
  note c = check_finished_ok[OF lib(2) o(1,2) d(6) key_id_nonempty[OF lib(1)]] check_finished_ok[OF lib(2) o(3,4) e(2) key_id_nonempty[OF lib(1)]]
  let ?s3 = "?s2\<lparr>vs_key_id := Some ?kid, vs_active := Some t3, vs_state := VActive\<rparr>" and ?r2 = "?r1\<lparr>vs_key_id := Some ?kid, vs_active := Some t4, vs_state := VActive\<rparr>"
  have f: "process_finished vl t3 fin ?s2 = (Inr (), ?s3)" "process_finished vl t4 fin' ?r1 = (Inr (), ?r2)"
    by (rule finished_run[OF _ c(1)], simp) (rule finished_run[OF _ c(2)], simp)
  have v: "vs_state ?s3 = VActive" "vs_send ?s3 = Some k1" "vs_recv ?s3 = Some k2" "vs_state ?r2 = VActive" "vs_send ?r2 = Some k2" "vs_recv ?r2 = Some k1"
    "vs_key_id ?s3 = vs_key_id ?r2" "vs_peer ?s3 = vs_peer s" "vs_peer ?r2 = vs_peer r" by simp_all
  have m: "(\<exists>m. v2_encrypt_message vl iv kind p ?s3 = (Inr m, ?s3) \<and> v2_decrypt_message vl m ?r2 = (Inr (PStr kind, p), ?r2)) \<and>
      (\<exists>m. v2_encrypt_message vl iv kind p ?r2 = (Inr m, ?r2) \<and> v2_decrypt_message vl m ?s3 = (Inr (PStr kind, p), ?s3))" if "utf8_ok (encode p)" for iv kind p
    using v2_message[OF lib(1) v(1,4,2,6) k(2) that] v2_message[OF lib(1) v(4,1,5,3) k(3) that] by (rule conjI)
  show ?thesis
    by (rule exI, rule exI, rule exI, rule exI, rule exI, rule exI, rule exI, rule exI, rule exI)
      (rule conjI[OF h(1) conjI[OF d(1) conjI[OF e(1) conjI[OF f(1) conjI[OF f(2) conjI[OF v(1) conjI[OF v(4) conjI[OF v(7) conjI[OF v(8) conjI[OF v(9) allI[OF allI[OF allI[OF impI[OF m]]]]]]]]]]]]]])
qed

text \<open>
  C39. Whatever is called on a fresh session, in whatever order and with whatever contents: it never steps back, has both
  keys from the time it has answered a hello, and has a key id and a time of activation exactly when it is active.
\<close>
theorem v2_session_invariant:
  "v2_inv (v2_calls vl cs (new_v2_session vl now a sk b sid fid expires eph random)) \<and>
   v2_rank (vs_state (v2_calls vl cs (new_v2_session vl now a sk b sid fid expires eph random))) \<le>
     v2_rank (vs_state (v2_calls vl (cs @ ds) (new_v2_session vl now a sk b sid fid expires eph random)))"
proof -
  have i: "v2_inv (new_v2_session vl now a sk b sid fid expires eph random)" by (simp add: v2_inv_def new_v2_session_def v2_rank_def)
  have app: "v2_calls vl (cs @ ds) s = v2_calls vl ds (v2_calls vl cs s)" for s by (induction cs arbitrary: s) simp_all
  show ?thesis using v2_calls_ok[OF i] v2_calls_ok unfolding app by blast
qed
section \<open>A library for examples\<close>

text \<open>
  Ciphertexts carry key, vector and sixteen more bytes in front, a point is a private key after a four, times are written
  in unary with a sign, and the one JSON text is the key id in hexadecimal.
\<close>

definition example_v2 :: v2lib where
  "example_v2 = \<lparr>vl_cr = \<lparr>cr_hmac = (\<lambda>k d. []), cr_hkdf = (\<lambda>n salt info ikm. take n (ikm @ info @ replicate n 0)),
       cr_expand = (\<lambda>n info prk. take n (info @ prk @ replicate n 0)), cr_seal = (\<lambda>k n p a. k @ n @ a @ replicate 16 0 @ p),
       cr_open = (\<lambda>k n c a. let f = k @ n @ a @ replicate 16 0 in if take (length f) c = f then Inr (drop (length f) c) else Inl InvalidTag),
       cr_exchange = (\<lambda>sk pk. Inr (map2 (+) sk (drop 1 pk))), cr_public = (\<lambda>sk. 4 # sk), cr_jcs = (\<lambda>v. Inr []), cr_sign = (\<lambda>sk d. (1, 1)),
       cr_verify = (\<lambda>pk d r s. r = 1 \<and> s = 1), cr_iso = (\<lambda>c. Inl TypeError), cr_stamp = (\<lambda>t. []), cr_str = (\<lambda>_. []), cr_sha256 = (\<lambda>_. [])\<rparr>,
     vl_point = Inr, vl_sorted = (\<lambda>_. []), vl_dumps = (\<lambda>v. case v of PDict [(_, PStr k)] \<Rightarrow> to_hex (encode k) | _ \<Rightarrow> []),
     vl_loads = (\<lambda>s. bindE (from_hex s) (\<lambda>b. Inr (PDict [(''secretKeyId'', PStr (map (\<lambda>x. char_of (unat x)) b))]))),
     vl_stamp = (\<lambda>t. (if 0 \<le> \<lfloor>t\<rfloor> then CHR ''1'' else CHR ''0'') # replicate (nat \<bar>\<lfloor>t\<rfloor>\<bar>) CHR ''1''),
     vl_strptime = (\<lambda>s. case s of [] \<Rightarrow> Inl (ValueError ''strptime'') | c # r \<Rightarrow> Inr (if c = CHR ''1'' then of_nat (length r) else - of_nat (length r)))\<rparr>"

lemma to_hex_utf8: "utf8_ok (encode (to_hex bs))"
proof -
  have d: "list_all (\<lambda>n. utf8_head (word_of_nat (of_char (hex_digit n))) = Some (0, 0x80, 0xBF)) [0..<16]"
    by (simp add: upt_rec_numeral upt_conv_Cons hex_digit_def utf8_head_def)
  have "utf8_ok (encode (concat (map (\<lambda>b. [hex_digit (unat b div 16), hex_digit (unat b mod 16)]) bs)))"
  proof (induction bs)
    case (Cons b bs)
    have "unat b div 16 < 16" "unat b mod 16 < 16" using byte_bound[of b] by (simp_all add: less_mult_imp_div_less)
    then show ?case using d Cons by (simp add: list_all_iff encode_def)
  qed (simp add: encode_def)
  then show ?thesis by (simp add: to_hex_def)
qed

lemma example_v2_ok: "v2_cipher_ok example_v2" "v2_json_ok example_v2" "v2_clock_ok example_v2"
proof -
  have "min a n + (min b (n - a) + (n - (a + b))) = n" for a b n :: nat by linarith
  then show "v2_cipher_ok example_v2" by (simp add: v2_cipher_ok_def aead_ok_def example_v2_def Let_def)
  have "map (\<lambda>x. char_of (unat x)) (encode k) = k" for k
    by (induction k) (simp_all add: encode_def unat_of_nat take_bit_nat_eq_self)
  then show "v2_json_ok example_v2" by (simp add: v2_json_ok_def example_v2_def to_hex_utf8)
  have "\<bar>of_int \<lfloor>t\<rfloor> - t\<bar> \<le> 1" for t :: real by linarith
  then show "v2_clock_ok example_v2" by (simp add: v2_clock_ok_def example_v2_def)
qed

lemma example_v2_keys: "own_key example_v2 (new_v2_session example_v2 now a sk b sid fid expires eph random)" "v2_dh_ok example_v2 [5] [7] [12]"
  by (simp_all add: own_key_def new_v2_session_def v2_signer_ok_def v2_dh_ok_def signature_ok_def example_v2_def)

theorem v2_handshake_witness:
  "let s = new_v2_session example_v2 0 ''a'' [1] ''b'' None ''1f'' 60 [5] ''r1''; r = new_v2_session example_v2 1 ''b'' [2] ''a'' None ''2f'' 90 [7] ''r2''
   in \<exists>hello s1 hello' fin r1 fin' s2 s3 r2.
    v2_initiate example_v2 100 s = (Inr hello, s1) \<and> process_source_hello example_v2 110 [9] hello r = (Inr (hello', fin), r1) \<and>
    process_destination_hello example_v2 120 [8] hello' s1 = (Inr fin', s2) \<and> process_finished example_v2 130 fin s2 = (Inr (), s3) \<and>
    process_finished example_v2 131 fin' r1 = (Inr (), r2) \<and>
    vs_state s3 = VActive \<and> vs_state r2 = VActive \<and> vs_key_id s3 = vs_key_id r2 \<and> vs_peer s3 = vs_peer s \<and> vs_peer r2 = vs_peer r \<and>
    (\<forall>iv kind p. utf8_ok (encode p) \<longrightarrow>
      (\<exists>m. v2_encrypt_message example_v2 iv kind p s3 = (Inr m, s3) \<and> v2_decrypt_message example_v2 m r2 = (Inr (PStr kind, p), r2)) \<and>
      (\<exists>m. v2_encrypt_message example_v2 iv kind p r2 = (Inr m, r2) \<and> v2_decrypt_message example_v2 m s3 = (Inr (PStr kind, p), s3)))"
  unfolding Let_def by (rule v2_handshake[OF example_v2_ok _ example_v2_keys(1) _ example_v2_keys(1), where dh = "[12]"])
    (simp_all add: new_v2_session_def example_v2_keys(2))

end
