(* ===== verification/E2eeV2Manager.thy ===== *)
theory E2eeV2Manager
  imports E2eeV2
begin

text \<open>
  The registry of sessions of the HTTP end-to-end protocol (\<open>e2e_encryption_v2/key_manager.py\<close>).  Sessions are objects
  the caller also holds: the tables keep references, \<open>h\<close> is what the references stand for at the time of the call.  A
  session id comes from the peer, so it can be any value of JSON.
\<close>

record v2_keyman =
  vk_pairs :: "(string, nat list) pydict"
  vk_keys :: "(string, nat) pydict"
  vk_pending :: "(pyval, nat) pydict"

definition new_v2_manager :: v2_keyman where
  "new_v2_manager = \<lparr>vk_pairs = [], vk_keys = [], vk_pending = []\<rparr>"

definition v2_pair_key :: "string \<Rightarrow> string \<Rightarrow> string" where
  "v2_pair_key local_did peer_did = local_did @ ''|'' @ peer_did"

definition v2_active_session :: "real \<Rightarrow> (nat \<Rightarrow> v2session) \<Rightarrow> v2_keyman \<Rightarrow> string \<Rightarrow> string \<Rightarrow> nat option" where
  "v2_active_session now h m local_did peer_did =
     find (\<lambda>r. vs_state (h r) = VActive \<and> \<not> v2_expired now (h r)) (dgetd (vk_pairs m) (v2_pair_key local_did peer_did) [])"

definition v2_session_by_key :: "v2_keyman \<Rightarrow> string \<Rightarrow> nat option" where
  "v2_session_by_key m key_id = dget (vk_keys m) key_id"

definition handshake_timeout :: real where
  "handshake_timeout = 300"

definition register_pending :: "(nat \<Rightarrow> v2session) \<Rightarrow> nat \<Rightarrow> v2_keyman \<Rightarrow> v2_keyman result" where
  "register_pending h r m = bindE (hkey (vs_id (h r))) (\<lambda>k. Inr (m\<lparr>vk_pending := dset k r (vk_pending m)\<rparr>))"

definition v2_pending_session :: "real \<Rightarrow> (nat \<Rightarrow> v2session) \<Rightarrow> pyval \<Rightarrow> v2_keyman \<Rightarrow> (nat option \<times> v2_keyman) result" where
  "v2_pending_session now h sid m =
     bindE (hkey sid) (\<lambda>k. Inr (case dget (vk_pending m) k of
         None \<Rightarrow> (None, m)
       | Some r \<Rightarrow> if now - vs_created (h r) > handshake_timeout then (None, m\<lparr>vk_pending := ddel k (vk_pending m)\<rparr>) else (Some r, m)))"

text \<open>An empty key id counts as none.\<close>

definition drop_key :: "v2session \<Rightarrow> (string, nat) pydict \<Rightarrow> (string, nat) pydict" where
  "drop_key s ids = (case vs_key_id s of Some k \<Rightarrow> if k = [] then ids else ddel k ids | None \<Rightarrow> ids)"

text \<open>\<open>while len(sessions) >= MAX_CONCURRENT_KEYS\<close>, which is two.\<close>

fun evict :: "(nat \<Rightarrow> v2session) \<Rightarrow> nat list \<Rightarrow> (string, nat) pydict \<Rightarrow> nat list \<times> (string, nat) pydict" where
  "evict h (a # b # rs) ids = evict h (b # rs) (drop_key (h a) ids)"
| "evict h rs ids = (rs, ids)"

definition register_active :: "(nat \<Rightarrow> v2session) \<Rightarrow> nat \<Rightarrow> v2_keyman \<Rightarrow> v2_keyman" where
  "register_active h r m =
     (let key = v2_pair_key (vs_local (h r)) (vs_peer (h r)); (rs, ids) = evict h (dgetd (vk_pairs m) key []) (vk_keys m)
      in m\<lparr>vk_pairs := dset key (rs @ [r]) (vk_pairs m),
           vk_keys := (case vs_key_id (h r) of Some k \<Rightarrow> if k = [] then ids else dset k r ids | None \<Rightarrow> ids)\<rparr>)"

definition promote_pending :: "(nat \<Rightarrow> v2session) \<Rightarrow> pyval \<Rightarrow> v2_keyman \<Rightarrow> v2_keyman result" where
  "promote_pending h sid m =
     bindE (hkey sid) (\<lambda>k. Inr (case dget (vk_pending m) k of
         None \<Rightarrow> m
       | Some r \<Rightarrow> register_active h r (m\<lparr>vk_pending := ddel k (vk_pending m)\<rparr>)))"

text \<open>Every key was made of two DIDs with a bar between them; it is taken apart at the first bar.\<close>

definition split_pair :: "string \<Rightarrow> string \<times> string" where
  "split_pair key = (takeWhile (\<lambda>c. c \<noteq> CHR ''|'') key, drop 1 (dropWhile (\<lambda>c. c \<noteq> CHR ''|'') key))"

definition cleanup_pair :: "real \<Rightarrow> (nat \<Rightarrow> v2session) \<Rightarrow> string \<Rightarrow> v2_keyman \<times> (string \<times> string) list \<Rightarrow> v2_keyman \<times> (string \<times> string) list" where
  "cleanup_pair now h key = (\<lambda>(m, need).
     let rs = dgetd (vk_pairs m) key []; live = filter (\<lambda>r. \<not> v2_expired now (h r)) rs;
         n = m\<lparr>vk_keys := fold (\<lambda>r. drop_key (h r)) (filter (\<lambda>r. v2_expired now (h r)) rs) (vk_keys m)\<rparr>
     in if live \<noteq> [] then (n\<lparr>vk_pairs := dset key live (vk_pairs n)\<rparr>, need)
        else (n\<lparr>vk_pairs := ddel key (vk_pairs n)\<rparr>, need @ [split_pair key]))"

definition v2_cleanup_expired :: "real \<Rightarrow> (nat \<Rightarrow> v2session) \<Rightarrow> v2_keyman \<Rightarrow> v2_keyman \<times> (string \<times> string) list" where
  "v2_cleanup_expired now h m =
     (case fold (cleanup_pair now h) (dkeys (vk_pairs m)) (m, []) of
        (n, need) \<Rightarrow> (n\<lparr>vk_pending := filter (\<lambda>(sid, r). \<not> now - vs_created (h r) > handshake_timeout) (vk_pending n)\<rparr>, need))"

definition v2_remove_session :: "(nat \<Rightarrow> v2session) \<Rightarrow> nat \<Rightarrow> v2_keyman \<Rightarrow> v2_keyman result" where
  "v2_remove_session h r m =
     bindE (hkey (vs_id (h r))) (\<lambda>k.
       let key = v2_pair_key (vs_local (h r)) (vs_peer (h r));
           rest = filter (\<lambda>q. \<not> py_eq (vs_id (h q)) (vs_id (h r))) (dgetd (vk_pairs m) key []);
           pairs = dset key rest (vk_pairs m)
       in Inr (m\<lparr>vk_pending := ddel k (vk_pending m), vk_keys := drop_key (h r) (vk_keys m),
                 vk_pairs := (if rest = [] then ddel key pairs else pairs)\<rparr>))"
section \<open>What the tables promise while the sessions stay as they are\<close>

definition v2_pair :: "v2session \<Rightarrow> string" where
  "v2_pair s = v2_pair_key (vs_local s) (vs_peer s)"

definition v2_km_ok :: "(nat \<Rightarrow> v2session) \<Rightarrow> v2_keyman \<Rightarrow> bool" where
  "v2_km_ok h m \<longleftrightarrow> distinct (dkeys (vk_pairs m)) \<and>
     (\<forall>key rs. dget (vk_pairs m) key = Some rs \<longrightarrow> rs \<noteq> [] \<and> length rs \<le> 2 \<and> (\<forall>r \<in> set rs. v2_pair (h r) = key)) \<and>
     (\<forall>k r. dget (vk_keys m) k = Some r \<longrightarrow> vs_key_id (h r) = Some k \<and> k \<noteq> [] \<and> r \<in> set (dgetd (vk_pairs m) (v2_pair (h r)) []))"

lemma v2_km_okI:
  assumes "distinct (dkeys (vk_pairs m))" and "\<And>key rs. dget (vk_pairs m) key = Some rs \<Longrightarrow> rs \<noteq> [] \<and> length rs \<le> 2 \<and> (\<forall>r \<in> set rs. v2_pair (h r) = key)"
    and "\<And>k r. dget (vk_keys m) k = Some r \<Longrightarrow> vs_key_id (h r) = Some k \<and> k \<noteq> [] \<and> r \<in> set (dgetd (vk_pairs m) (v2_pair (h r)) [])"
  shows "v2_km_ok h m"
  using assms unfolding v2_km_ok_def by blast

lemma v2_km_okD:
  assumes "v2_km_ok h m"
  shows "distinct (dkeys (vk_pairs m))" and "dget (vk_pairs m) key = Some rs \<Longrightarrow> rs \<noteq> [] \<and> length rs \<le> 2 \<and> (\<forall>r \<in> set rs. v2_pair (h r) = key)"
    and "dget (vk_keys m) k = Some r \<Longrightarrow> vs_key_id (h r) = Some k \<and> k \<noteq> [] \<and> r \<in> set (dgetd (vk_pairs m) (v2_pair (h r)) [])"
  using assms unfolding v2_km_ok_def by blast+

lemma v2_km_ok_short: "v2_km_ok h m \<Longrightarrow> length (dgetd (vk_pairs m) key []) \<le> 2 \<and> (\<forall>r \<in> set (dgetd (vk_pairs m) key []). v2_pair (h r) = key)"
  using v2_km_okD(2)[of h m key] by (cases "dget (vk_pairs m) key") (simp_all add: dgetd_def)

lemma dget_drop_key: "dget (drop_key s ids) k = (if vs_key_id s = Some k \<and> k \<noteq> [] then None else dget ids k)"
  by (auto simp: drop_key_def split: option.splits)

lemma dget_fold_drop_key: "dget (fold (\<lambda>r. drop_key (h r)) rs ids) k = (if \<exists>r \<in> set rs. vs_key_id (h r) = Some k \<and> k \<noteq> [] then None else dget ids k)"
  by (induction rs arbitrary: ids) (auto simp: dget_drop_key)

text \<open>Of two sessions the older goes.\<close>

lemma evict_two:
  assumes "length rs \<le> 2"
  shows "evict h rs ids = (if length rs = 2 then (tl rs, drop_key (h (hd rs)) ids) else (rs, ids))"
  using assms by (cases rs rule: remdups_adj.cases) auto

lemma register_active_lookup:
  assumes "v2_km_ok h m"
  shows "dget (vk_pairs (register_active h r m)) key =
      (if key = v2_pair (h r) then Some ((let rs = dgetd (vk_pairs m) key [] in if length rs = 2 then tl rs else rs) @ [r]) else dget (vk_pairs m) key)"
    and "dget (vk_keys (register_active h r m)) k =
      (if vs_key_id (h r) = Some k \<and> k \<noteq> [] then Some r
       else let rs = dgetd (vk_pairs m) (v2_pair (h r)) [] in if length rs = 2 \<and> vs_key_id (h (hd rs)) = Some k \<and> k \<noteq> [] then None else dget (vk_keys m) k)"
    and "distinct (dkeys (vk_pairs (register_active h r m)))"
proof -
  let ?rs = "dgetd (vk_pairs m) (v2_pair (h r)) []"
  have e: "evict h ?rs (vk_keys m) = (if length ?rs = 2 then (tl ?rs, drop_key (h (hd ?rs)) (vk_keys m)) else (?rs, vk_keys m))"
    using v2_km_ok_short[OF assms] by (rule evict_two[OF conjunct1])
  note reg = register_active_def Let_def v2_pair_def[symmetric] e
  show "dget (vk_pairs (register_active h r m)) key =
      (if key = v2_pair (h r) then Some ((let rs = dgetd (vk_pairs m) key [] in if length rs = 2 then tl rs else rs) @ [r]) else dget (vk_pairs m) key)"
    by (simp add: reg)
  show "dget (vk_keys (register_active h r m)) k =
      (if vs_key_id (h r) = Some k \<and> k \<noteq> [] then Some r
       else let rs = dgetd (vk_pairs m) (v2_pair (h r)) [] in if length rs = 2 \<and> vs_key_id (h (hd rs)) = Some k \<and> k \<noteq> [] then None else dget (vk_keys m) k)"
    by (simp add: reg dget_drop_key split: option.split)
  show "distinct (dkeys (vk_pairs (register_active h r m)))"
    using distinct_dkeys_dset[OF v2_km_okD(1)[OF assms]] by (simp add: reg)
qed

lemma register_active_ok:
  assumes "v2_km_ok h m"
  shows "v2_km_ok h (register_active h r m)"
proof (rule v2_km_okI)
  note L = register_active_lookup[OF assms] and old = v2_km_ok_short[OF assms, of "v2_pair (h r)"]
  let ?rs = "dgetd (vk_pairs m) (v2_pair (h r)) []"
  show "distinct (dkeys (vk_pairs (register_active h r m)))" by (rule L(3))
  show "rs \<noteq> [] \<and> length rs \<le> 2 \<and> (\<forall>r \<in> set rs. v2_pair (h r) = key)" if "dget (vk_pairs (register_active h r m)) key = Some rs" for key rs
  proof (cases "key = v2_pair (h r)")
    case True
    then show ?thesis using that old list.set_sel(2)[of ?rs] unfolding L(1) by (cases ?rs) (auto simp: Let_def le_Suc_eq split: if_splits)
  next
    case False
    then show ?thesis using that v2_km_okD(2)[OF assms] unfolding L(1) by simp
  qed
  show "vs_key_id (h q) = Some k \<and> k \<noteq> [] \<and> q \<in> set (dgetd (vk_pairs (register_active h r m)) (v2_pair (h q)) [])"
    if "dget (vk_keys (register_active h r m)) k = Some q" for k q
  proof (cases "vs_key_id (h r) = Some k \<and> k \<noteq> []")
    case True
    then show ?thesis using that unfolding L(2) by (simp add: dgetd_def L(1))
  next
    case False
    then have n: "\<not> (length ?rs = 2 \<and> vs_key_id (h (hd ?rs)) = Some k \<and> k \<noteq> [])" "dget (vk_keys m) k = Some q"
      using that unfolding L(2) by (auto simp: Let_def split: if_splits)
    note q = v2_km_okD(3)[OF assms n(2)]
    have "q \<in> set (tl ?rs)" if "v2_pair (h q) = v2_pair (h r)" "length ?rs = 2"
      using q n(1) that by (cases ?rs) auto
    then show ?thesis using q by (auto simp: dgetd_def L(1) Let_def split: option.splits)
  qed
qed
text \<open>One session is removed; the others of its pair go with it when they have its session id.\<close>

lemma remove_run:
  assumes "v2_remove_session h r m = Inr n"
  shows "vk_keys n = drop_key (h r) (vk_keys m)"
    and "vk_pairs n = (let rest = filter (\<lambda>q. \<not> py_eq (vs_id (h q)) (vs_id (h r))) (dgetd (vk_pairs m) (v2_pair (h r)) []); d = dset (v2_pair (h r)) rest (vk_pairs m)
      in if rest = [] then ddel (v2_pair (h r)) d else d)"
proof -
  obtain k where k: "hkey (vs_id (h r)) = Inr k" using assms by (cases "hkey (vs_id (h r))") (simp_all add: v2_remove_session_def)
  note r = assms[unfolded v2_remove_session_def Let_def k bindE_simps sum.inject, folded v2_pair_def, symmetric]
  show "vk_keys n = drop_key (h r) (vk_keys m)" by (subst r) simp
  show "vk_pairs n = (let rest = filter (\<lambda>q. \<not> py_eq (vs_id (h q)) (vs_id (h r))) (dgetd (vk_pairs m) (v2_pair (h r)) []); d = dset (v2_pair (h r)) rest (vk_pairs m)
      in if rest = [] then ddel (v2_pair (h r)) d else d)" unfolding Let_def by (subst r) simp
qed

lemma remove_ok:
  assumes "v2_km_ok h m" and ids: "\<And>q. py_eq (vs_id (h q)) (vs_id (h r)) \<Longrightarrow> q = r" and "v2_remove_session h r m = Inr n"
  shows "v2_km_ok h n"
proof -
  define rest where "rest = filter (\<lambda>q. \<not> py_eq (vs_id (h q)) (vs_id (h r))) (dgetd (vk_pairs m) (v2_pair (h r)) [])"
  note n = remove_run[OF assms(3), folded rest_def, unfolded Let_def]
  have p: "dget (vk_pairs n) key = (if key = v2_pair (h r) then (if rest = [] then None else Some rest) else dget (vk_pairs m) key)" for key
    unfolding n(2) by simp
  note old = v2_km_ok_short[OF assms(1), of "v2_pair (h r)"]
  have short: "length rest \<le> 2" unfolding rest_def by (rule le_trans[OF length_filter_le]) (use old in simp)
  have mine: "\<forall>q \<in> set rest. v2_pair (h q) = v2_pair (h r)" using old by (simp add: rest_def)
  show ?thesis
  proof (rule v2_km_okI)
    show "distinct (dkeys (vk_pairs n))" using v2_km_okD(1)[OF assms(1)] by (simp add: n(2) dict_inv)
    show "rs \<noteq> [] \<and> length rs \<le> 2 \<and> (\<forall>r \<in> set rs. v2_pair (h r) = key)" if k: "dget (vk_pairs n) key = Some rs" for key rs
    proof (cases "key = v2_pair (h r)")
      case True
      then have "rs = rest" "rest \<noteq> []" using k unfolding p by (simp_all split: if_splits)
      then show ?thesis using short mine True by simp
    next
      case False
      then show ?thesis using k v2_km_okD(2)[OF assms(1)] unfolding p by simp
    qed
    show "vs_key_id (h q) = Some k \<and> k \<noteq> [] \<and> q \<in> set (dgetd (vk_pairs n) (v2_pair (h q)) [])" if "dget (vk_keys n) k = Some q" for k q
    proof -
      have k: "dget (vk_keys m) k = Some q" "\<not> (vs_key_id (h r) = Some k \<and> k \<noteq> [])" using that by (simp_all add: n(1) dget_drop_key split: if_splits)
      note q = v2_km_okD(3)[OF assms(1) k(1)]
      have "q \<noteq> r" using q k(2) by blast
      then have "\<not> py_eq (vs_id (h q)) (vs_id (h r))" using ids by blast
      then have "v2_pair (h q) = v2_pair (h r) \<Longrightarrow> q \<in> set rest" using q by (simp add: rest_def)
      then show ?thesis using q by (cases "v2_pair (h q) = v2_pair (h r)") (auto simp: dgetd_def p)
    qed
  qed
qed

text \<open>The loop over the pairs looks at every pair once.\<close>

definition kept :: "real \<Rightarrow> (nat \<Rightarrow> v2session) \<Rightarrow> v2_keyman \<Rightarrow> string \<Rightarrow> nat list" where
  "kept now h m key = filter (\<lambda>r. \<not> v2_expired now (h r)) (dgetd (vk_pairs m) key [])"

definition outdated :: "real \<Rightarrow> (nat \<Rightarrow> v2session) \<Rightarrow> v2_keyman \<Rightarrow> string \<Rightarrow> string \<Rightarrow> bool" where
  "outdated now h m key k \<longleftrightarrow> k \<noteq> [] \<and> (\<exists>r \<in> set (dgetd (vk_pairs m) key []). v2_expired now (h r) \<and> vs_key_id (h r) = Some k)"

lemma cleanup_step:
  assumes "cleanup_pair now h a (m, need) = (n, need')"
  shows "dget (vk_pairs n) key = (if key = a then (if kept now h m a = [] then None else Some (kept now h m a)) else dget (vk_pairs m) key)"
    and "dget (vk_keys n) k = (if outdated now h m a k then None else dget (vk_keys m) k)"
    and "need' = (if kept now h m a = [] then need @ [split_pair a] else need)"
    and "distinct (dkeys (vk_pairs m)) \<Longrightarrow> distinct (dkeys (vk_pairs n))"
proof -
  have k: "dget (fold (\<lambda>r. drop_key (h r)) (filter (\<lambda>r. v2_expired now (h r)) (dgetd (vk_pairs m) a [])) (vk_keys m)) k =
      (if outdated now h m a k then None else dget (vk_keys m) k)" by (auto simp: dget_fold_drop_key outdated_def)
  note c = assms[unfolded cleanup_pair_def prod.case Let_def, folded kept_def]
  show "dget (vk_pairs n) key = (if key = a then (if kept now h m a = [] then None else Some (kept now h m a)) else dget (vk_pairs m) key)"
    "need' = (if kept now h m a = [] then need @ [split_pair a] else need)" "distinct (dkeys (vk_pairs m)) \<Longrightarrow> distinct (dkeys (vk_pairs n))"
    using c by (auto simp: dict_inv split: if_splits)
  show "dget (vk_keys n) k = (if outdated now h m a k then None else dget (vk_keys m) k)"
    using c k by (auto split: if_splits)
qed

lemma kept_other: "dget (vk_pairs n) key = dget (vk_pairs m) key \<Longrightarrow> kept now h n key = kept now h m key \<and> outdated now h n key k = outdated now h m key k"
  by (simp add: kept_def outdated_def dgetd_def)

lemma cleanup_fold:
  "distinct keys \<Longrightarrow> fold (cleanup_pair now h) keys (m, need) = (n, need') \<Longrightarrow>
    dget (vk_pairs n) key = (if key \<in> set keys then (if kept now h m key = [] then None else Some (kept now h m key)) else dget (vk_pairs m) key) \<and>
    dget (vk_keys n) k = (if \<exists>a \<in> set keys. outdated now h m a k then None else dget (vk_keys m) k) \<and>
    need' = need @ map split_pair (filter (\<lambda>a. kept now h m a = []) keys) \<and> (distinct (dkeys (vk_pairs m)) \<longrightarrow> distinct (dkeys (vk_pairs n)))"
proof (induction keys arbitrary: m need)
  case (Cons a keys)
  obtain m1 need1 where s: "cleanup_pair now h a (m, need) = (m1, need1)" by fastforce
  note st = cleanup_step[OF s]
  have "kept now h m1 b = kept now h m b" "outdated now h m1 b k = outdated now h m b k" if "b \<in> set keys" for b
    using kept_other[of m1 b m now h k] st(1)[of b] that Cons.prems(1) by (auto split: if_splits)
  then have same: "\<And>b. b \<in> set keys \<Longrightarrow> kept now h m1 b = kept now h m b" "(\<exists>b \<in> set keys. outdated now h m1 b k) = (\<exists>b \<in> set keys. outdated now h m b k)"
    "filter (\<lambda>b. kept now h m1 b = []) keys = filter (\<lambda>b. kept now h m b = []) keys" by (auto intro: filter_cong)
  have f: "fold (cleanup_pair now h) keys (m1, need1) = (n, need')" using Cons.prems(2) by (simp add: s)
  have "distinct keys" using Cons.prems(1) by simp
  note IH = Cons.IH[OF this f]
  have "dget (vk_pairs n) key = (if key \<in> set (a # keys) then (if kept now h m key = [] then None else Some (kept now h m key)) else dget (vk_pairs m) key)"
    using IH[THEN conjunct1] same(1)[of key] st(1)[of key] Cons.prems(1) by (cases "key \<in> set keys") auto
  moreover have "dget (vk_keys n) k = (if \<exists>b \<in> set (a # keys). outdated now h m b k then None else dget (vk_keys m) k)"
    using IH[THEN conjunct2, THEN conjunct1] unfolding same(2) st(2) by auto
  moreover have "need' = need @ map split_pair (filter (\<lambda>b. kept now h m b = []) (a # keys))"
    using IH[THEN conjunct2, THEN conjunct2, THEN conjunct1] unfolding same(3) st(3) by simp
  ultimately show ?case using IH[THEN conjunct2, THEN conjunct2, THEN conjunct2] st(4) by blast
qed simp
lemma cleanup_run:
  assumes "v2_km_ok h m"
  shows "dget (vk_pairs (fst (v2_cleanup_expired now h m))) key = (if kept now h m key = [] then None else Some (kept now h m key))"
    and "dget (vk_keys (fst (v2_cleanup_expired now h m))) k = (if \<exists>a \<in> set (dkeys (vk_pairs m)). outdated now h m a k then None else dget (vk_keys m) k)"
    and "snd (v2_cleanup_expired now h m) = map split_pair (filter (\<lambda>a. kept now h m a = []) (dkeys (vk_pairs m)))"
    and "distinct (dkeys (vk_pairs (fst (v2_cleanup_expired now h m))))"
proof -
  obtain n need where f: "fold (cleanup_pair now h) (dkeys (vk_pairs m)) (m, []) = (n, need)" by fastforce
  note d = v2_km_okD(1)[OF assms]
  note c = cleanup_fold[OF d f]
  have n: "vk_pairs (fst (v2_cleanup_expired now h m)) = vk_pairs n" "vk_keys (fst (v2_cleanup_expired now h m)) = vk_keys n" "snd (v2_cleanup_expired now h m) = need"
    by (simp_all add: v2_cleanup_expired_def f)
  have "kept now h m key = []" "dget (vk_pairs m) key = None" if "key \<notin> set (dkeys (vk_pairs m))" for key
  proof -
    show g: "dget (vk_pairs m) key = None" using that by (simp add: map_of_eq_None_iff)
    show "kept now h m key = []" by (simp add: kept_def dgetd_def g)
  qed
  then show "dget (vk_pairs (fst (v2_cleanup_expired now h m))) key = (if kept now h m key = [] then None else Some (kept now h m key))"
    using c[THEN conjunct1, of key] unfolding n by (cases "key \<in> set (dkeys (vk_pairs m))") simp_all
  show "dget (vk_keys (fst (v2_cleanup_expired now h m))) k = (if \<exists>a \<in> set (dkeys (vk_pairs m)). outdated now h m a k then None else dget (vk_keys m) k)"
    unfolding n using c by blast
  show "snd (v2_cleanup_expired now h m) = map split_pair (filter (\<lambda>a. kept now h m a = []) (dkeys (vk_pairs m)))"
    unfolding n using c by simp
  show "distinct (dkeys (vk_pairs (fst (v2_cleanup_expired now h m))))" unfolding n using c d by blast
qed

lemma cleanup_ok:
  assumes "v2_km_ok h m"
  shows "v2_km_ok h (fst (v2_cleanup_expired now h m))"
proof (rule v2_km_okI)
  note C = cleanup_run[OF assms, of now]
  show "distinct (dkeys (vk_pairs (fst (v2_cleanup_expired now h m))))" by (rule C(4))
  show "rs \<noteq> [] \<and> length rs \<le> 2 \<and> (\<forall>r \<in> set rs. v2_pair (h r) = key)" if "dget (vk_pairs (fst (v2_cleanup_expired now h m))) key = Some rs" for key rs
  proof -
    have rs: "rs = kept now h m key" "rs \<noteq> []" using that unfolding C(1) by (simp_all split: if_splits)
    note old = v2_km_ok_short[OF assms, of key]
    have "length rs \<le> 2" unfolding rs(1) kept_def by (rule le_trans[OF length_filter_le]) (use old in simp)
    then show ?thesis using rs old by (simp add: kept_def)
  qed
  show "vs_key_id (h r) = Some k \<and> k \<noteq> [] \<and> r \<in> set (dgetd (vk_pairs (fst (v2_cleanup_expired now h m))) (v2_pair (h r)) [])"
    if "dget (vk_keys (fst (v2_cleanup_expired now h m))) k = Some r" for k r
  proof -
    have k: "dget (vk_keys m) k = Some r" "\<not> (\<exists>a \<in> set (dkeys (vk_pairs m)). outdated now h m a k)" using that unfolding C(2) by (simp_all split: if_splits)
    note r = v2_km_okD(3)[OF assms k(1)]
    then have "dget (vk_pairs m) (v2_pair (h r)) \<noteq> None" by (cases "dget (vk_pairs m) (v2_pair (h r))") (simp_all add: dgetd_def)
    then have "v2_pair (h r) \<in> set (dkeys (vk_pairs m))" by (simp add: map_of_eq_None_iff)
    then have "\<not> v2_expired now (h r)" using k(2) r unfolding outdated_def by blast
    then have "r \<in> set (kept now h m (v2_pair (h r)))" using r by (simp add: kept_def)
    then show ?thesis using r by (auto simp: dgetd_def C(1))
  qed
qed

section \<open>Properties\<close>

datatype v2_km_op = VPend nat | VGet real pyval | VPromote pyval | VRegister nat | VRemove nat | VCleanup real

text \<open>A call that raises changes nothing.\<close>

definition if_ok :: "v2_keyman result \<Rightarrow> v2_keyman \<Rightarrow> v2_keyman" where
  "if_ok r m = (case r of Inl e \<Rightarrow> m | Inr n \<Rightarrow> n)"

fun v2_km_step :: "(nat \<Rightarrow> v2session) \<Rightarrow> v2_km_op \<Rightarrow> v2_keyman \<Rightarrow> v2_keyman" where
  "v2_km_step h (VPend r) m = if_ok (register_pending h r m) m"
| "v2_km_step h (VGet now sid) m = if_ok (bindE (v2_pending_session now h sid m) (\<lambda>(x, n). Inr n)) m"
| "v2_km_step h (VPromote sid) m = if_ok (promote_pending h sid m) m"
| "v2_km_step h (VRegister r) m = register_active h r m"
| "v2_km_step h (VRemove r) m = if_ok (v2_remove_session h r m) m"
| "v2_km_step h (VCleanup now) m = fst (v2_cleanup_expired now h m)"

lemma pending_irrelevant [simp]: "v2_km_ok h (m\<lparr>vk_pending := p\<rparr>) = v2_km_ok h m"
  by (simp add: v2_km_ok_def)

lemma v2_km_step_ok:
  assumes "v2_km_ok h m" and "\<And>q r. py_eq (vs_id (h q)) (vs_id (h r)) \<Longrightarrow> q = r"
  shows "v2_km_ok h (v2_km_step h x m)"
proof (cases x)
  case (VRemove r)
  then show ?thesis using assms(1) remove_ok[OF assms] by (cases "v2_remove_session h r m") (simp_all add: if_ok_def)
qed (use assms(1) in \<open>auto simp: if_ok_def register_pending_def v2_pending_session_def promote_pending_def register_active_ok cleanup_ok bindE_def split: sum.splits option.splits\<close>)

text \<open>
  While the sessions stay as they are and no two have one session id, the tables agree after any sequence of calls: a pair
  has one or two sessions, all of these DIDs, and a key id that is found belongs to a session that its pair still has.
\<close>
theorem v2_manager_consistent:
  assumes "\<And>q r. py_eq (vs_id (h q)) (vs_id (h r)) \<Longrightarrow> q = r"
  shows "v2_km_ok h (fold (v2_km_step h) ops new_v2_manager)"
proof -
  have run: "v2_km_ok h (fold (v2_km_step h) ops m)" if "v2_km_ok h m" for m
    using that by (induction ops arbitrary: m) (simp_all add: v2_km_step_ok[OF _ assms])
  show ?thesis by (rule run) (simp add: v2_km_ok_def new_v2_manager_def)
qed

theorem v2_manager_consistent_witness:
  "v2_km_ok (\<lambda>r. new_v2_session example_v2 0 ''a'' [1] ''b'' (Some (replicate (Suc r) CHR ''i'')) [] 60 [5] ''r'')
    (fold (v2_km_step (\<lambda>r. new_v2_session example_v2 0 ''a'' [1] ''b'' (Some (replicate (Suc r) CHR ''i'')) [] 60 [5] ''r''))
      [VPend 0, VPromote (PStr ''i''), VRegister 1, VRegister 2, VRemove 1, VCleanup 5] new_v2_manager)"
  by (rule v2_manager_consistent) (simp add: new_v2_session_def del: replicate.simps)
lemma split_pair_key: "CHR ''|'' \<notin> set a \<Longrightarrow> split_pair (v2_pair_key a b) = (a, b)"
proof -
  assume "CHR ''|'' \<notin> set a"
  then have "\<And>c. c \<in> set a \<Longrightarrow> c \<noteq> CHR ''|''" by blast
  then show ?thesis by (simp add: split_pair_def v2_pair_key_def takeWhile_append2 dropWhile_append2)
qed



text \<open>
  The peer chooses the session id of a handshake.  When it uses one twice, removing one of the two sessions takes both
  from their pair, but the key id of the other still finds it, after a cleanup as well, however old it is.
\<close>
theorem v2_twin_survives_removal:
  assumes "vs_id (h q) = vs_id (h r)" and "v2_pair (h q) = v2_pair (h r)" and "hkey (vs_id (h r)) = Inr k"
    and "vs_key_id (h q) = Some i" and "vs_key_id (h r) \<noteq> Some i" and "i \<noteq> []"
  shows "\<exists>m. v2_remove_session h r (register_active h r (register_active h q new_v2_manager)) = Inr m \<and>
    v2_active_session now h m (vs_local (h q)) (vs_peer (h q)) = None \<and> v2_session_by_key m i = Some q \<and>
    v2_session_by_key (fst (v2_cleanup_expired now h m)) i = Some q"
proof -
  let ?m = "register_active h r (register_active h q new_v2_manager)"
  have ok0: "v2_km_ok h new_v2_manager" by (simp add: v2_km_ok_def new_v2_manager_def)
  note ok1 = register_active_ok[OF ok0, of q]
  obtain n where n: "v2_remove_session h r ?m = Inr n" using assms(3) by (simp add: v2_remove_session_def Let_def)
  have e: "dgetd (vk_pairs new_v2_manager) key [] = []" for key by (simp add: new_v2_manager_def dgetd_def)
  have p1: "dgetd (vk_pairs (register_active h q new_v2_manager)) (v2_pair (h r)) [] = [q]"
    using register_active_lookup(1)[OF ok0, of q "v2_pair (h r)"] e assms(2) by (simp add: dgetd_def[of "vk_pairs (register_active h q new_v2_manager)"] Let_def)
  have p: "dget (vk_pairs ?m) (v2_pair (h r)) = Some [q, r]" unfolding register_active_lookup(1)[OF ok1] by (simp add: p1)
  have k: "dget (vk_keys ?m) i = Some q"
    unfolding register_active_lookup(2)[OF ok1] p1 register_active_lookup(2)[OF ok0] using assms(4-6) by simp
  have "dgetd (vk_pairs ?m) (v2_pair (h r)) [] = [q, r]" by (simp add: dgetd_def p)
  note r = remove_run[OF n, unfolded this]
  have "dget (vk_pairs n) (v2_pair (h q)) = None" unfolding r(2) by (simp add: assms(1,2) Let_def)
  then have a: "v2_active_session now h n (vs_local (h q)) (vs_peer (h q)) = None" by (simp add: v2_active_session_def v2_pair_def dgetd_def)
  have b: "dget (vk_keys n) i = Some q" unfolding r(1) using k assms(5) by (simp add: dget_drop_key)
  have "vk_pairs n = []" unfolding r(2) using assms(1,2)
    by (simp add: register_active_def new_v2_manager_def v2_pair_def[symmetric] Let_def dgetd_def)
  then have "v2_session_by_key (fst (v2_cleanup_expired now h n)) i = Some q" using b by (simp add: v2_session_by_key_def v2_cleanup_expired_def)
  then show ?thesis using n a b by (auto simp: v2_session_by_key_def)
qed

theorem v2_twin_survives_removal_witness:
  "let h = (\<lambda>r. (new_v2_session example_v2 0 ''a'' [1] ''b'' (Some ''i'') [] 60 [5] ''r'')\<lparr>vs_state := VActive, vs_key_id := Some (if r = 0 then ''k'' else ''l''), vs_active := Some 0\<rparr>)
   in \<exists>m. v2_remove_session h 1 (register_active h 1 (register_active h 0 new_v2_manager)) = Inr m \<and>
    v2_active_session 5 h m (vs_local (h 0)) (vs_peer (h 0)) = None \<and> v2_session_by_key m ''k'' = Some 0 \<and>
    v2_session_by_key (fst (v2_cleanup_expired 5 h m)) ''k'' = Some 0"
  unfolding Let_def by (rule v2_twin_survives_removal[where k = "PStr ''i''"]) (simp_all add: v2_pair_def new_v2_session_def)

end
