(* ===== verification/Kademlia.thy ===== *)
theory Kademlia
  imports KBucket
begin

text \<open>
  \<open>swarm/kademlia_node.py\<close> and its singleton wrapper \<open>swarm/dht_discovery.py\<close>: the DHT node
  over UDP.  A message is the dictionary \<open>json.loads\<close> returned, with values of any type;
  a handler that raises keeps the changes made before.  The datagrams the node sends are
  appended to \<open>kn_out\<close> (\<open>_send\<close> swallows every socket error, so sending is an attempt).
  The own capability, the outbound address and the clock are arguments.  Shown: the table
  invariant survives every packet, including the malformed ones, replies never carry more
  than 20 nodes, a stored value is found again, and the bootstrap handshake makes the two
  nodes know each other.
\<close>

section \<open>State and sending\<close>

definition DHT_PORT :: int where "DHT_PORT = 6881"
definition STALE_TIMEOUT :: real where "STALE_TIMEOUT = 90"

record knode =
  kn_id :: string
  kn_table :: routing_table
  kn_storage :: "(pyval, pyval) pydict"
  kn_peers :: "(pyval, pyval) pydict"
  kn_out :: "(pyval \<times> pyval \<times> pyobj) list"
  kn_running :: bool

type_synonym 'a kact = "(knode, 'a) sx"

definition new_knode :: "string \<Rightarrow> knode" where
  "new_knode i = \<lparr>kn_id = i, kn_table = new_table i, kn_storage = [], kn_peers = [],
     kn_out = [], kn_running = False\<rparr>"

definition k_send :: "pyval \<Rightarrow> pyval \<Rightarrow> pyobj \<Rightarrow> unit kact" where
  "k_send ip port m = sx_modify (\<lambda>s. s\<lparr>kn_out := kn_out s @ [(ip, port, m)]\<rparr>)"

text \<open>
  \<open>routing_table.add_node\<close> and \<open>find_closest\<close> as the handler calls them, with an id of any
  type: \<open>int(x, 16)\<close> of something that is no string raises \<open>TypeError\<close>, after the first
  operand has been parsed.
\<close>

definition add_node_v :: "real \<Rightarrow> pyval \<Rightarrow> pyval \<Rightarrow> pyval \<Rightarrow> routing_table \<Rightarrow> routing_table result" where
  "add_node_v now v ip port t = (case v of
       PStr i \<Rightarrow> add_node now i ip port t
     | _ \<Rightarrow> bindE (int16 (own_id t)) (\<lambda>_. Inl TypeError))"

definition find_closest_v :: "routing_table \<Rightarrow> pyval \<Rightarrow> nat \<Rightarrow> contact list result" where
  "find_closest_v t v cnt = (case v of
       PStr i \<Rightarrow> find_closest t i cnt
     | _ \<Rightarrow> bindE (sortE (\<lambda>n. bindE (int16 (c_id n)) (\<lambda>_. Inl TypeError :: int result)) (all_nodes t))
              (\<lambda>ns. Inr (take cnt ns)))"

definition k_add :: "real \<Rightarrow> pyval \<Rightarrow> pyval \<Rightarrow> pyval \<Rightarrow> unit kact" where
  "k_add now v ip port s = (case add_node_v now v ip port (kn_table s) of
       Inl e \<Rightarrow> (Inl e, s) | Inr t \<Rightarrow> (Inr (), s\<lparr>kn_table := t\<rparr>))"

definition k_closest :: "pyval \<Rightarrow> pyval kact" where
  "k_closest target s = (case find_closest_v (kn_table s) target K of
       Inl e \<Rightarrow> (Inl e, s)
     | Inr ns \<Rightarrow> (Inr (PList (map (\<lambda>n. PList [PStr (c_id n), c_ip n, c_port n]) ns)), s))"

definition peers_set :: "pyval \<Rightarrow> pyval \<Rightarrow> unit kact" where
  "peers_set i cap = sx_bind (sx_lift (hkey i)) (\<lambda>k. sx_modify (\<lambda>s. s\<lparr>kn_peers := dset k cap (kn_peers s)\<rparr>))"

definition peers_setdefault :: "pyval \<Rightarrow> pyval \<Rightarrow> unit kact" where
  "peers_setdefault i cap = sx_bind (sx_lift (hkey i)) (\<lambda>k.
     sx_modify (\<lambda>s. s\<lparr>kn_peers := dsetdefault k cap (kn_peers s)\<rparr>))"

definition storage_set :: "pyval \<Rightarrow> pyval \<Rightarrow> unit kact" where
  "storage_set key value = sx_bind (sx_lift (hkey key)) (\<lambda>k.
     sx_modify (\<lambda>s. s\<lparr>kn_storage := dset k value (kn_storage s)\<rparr>))"

section \<open>The message handler\<close>

definition find_node_msg :: "string \<Rightarrow> string \<Rightarrow> pyval \<Rightarrow> pyobj" where
  "find_node_msg me own cap = [(''type'', PStr ''FIND_NODE''), (''sender_id'', PStr me),
     (''sender_ip'', PStr own), (''sender_port'', PInt DHT_PORT), (''target_id'', PStr me),
     (''cap'', cap)]"

definition on_ping :: "pyval \<Rightarrow> pyval \<Rightarrow> pyval \<Rightarrow> unit kact" where
  "on_ping cap sip sport = sx_bind (sx_get kn_id) (\<lambda>me.
     k_send sip sport [(''type'', PStr ''PONG''), (''sender_id'', PStr me), (''cap'', cap)])"

definition on_pong :: "real \<Rightarrow> pyval \<Rightarrow> string \<times> int \<Rightarrow> unit kact" where
  "on_pong now sid addr = sx_when (truthy sid) (k_add now sid (PStr (fst addr)) (PInt (snd addr)))"

definition on_find_node :: "real \<Rightarrow> pyval \<Rightarrow> pyobj \<Rightarrow> pyval \<Rightarrow> pyval \<Rightarrow> pyval \<Rightarrow> string \<times> int \<Rightarrow> unit kact" where
  "on_find_node now cap msg sid sip sport addr =
     sx_then (sx_when (truthy sid)
       (sx_then (peers_setdefault sid (py_or (oget msg ''cap'') (PDict [])))
                (k_add now sid (PStr (fst addr)) (PInt (snd addr)))))
     (sx_bind (sx_get kn_id) (\<lambda>me.
      sx_bind (k_closest (dgetd msg ''target_id'' (PStr me))) (\<lambda>ns.
      k_send sip sport [(''type'', PStr ''FOUND_NODES''), (''sender_id'', PStr me),
        (''nodes'', ns), (''cap'', cap)])))"

definition on_found_entry :: "real \<Rightarrow> string \<Rightarrow> pyval \<Rightarrow> pyval \<Rightarrow> unit kact" where
  "on_found_entry now own cap entry =
     sx_bind (sx_lift (py_len entry)) (\<lambda>n.
     if n < 3 then sx_return ()
     else
     sx_bind (sx_lift (py_nth entry 0)) (\<lambda>nid.
     sx_bind (sx_lift (py_nth entry 1)) (\<lambda>nip.
     sx_bind (sx_lift (bindE (py_nth entry 2) py_int)) (\<lambda>nport.
     sx_bind (sx_get kn_id) (\<lambda>me.
     if nid = PStr me then sx_return ()
     else
     sx_then (peers_setdefault nid (PDict [(''ip'', nip), (''port'', PInt nport)]))
     (sx_then (k_add now nid nip (PInt nport))
      (k_send nip (PInt nport) (find_node_msg me own cap))))))))"

definition on_found_nodes :: "real \<Rightarrow> string \<Rightarrow> pyval \<Rightarrow> pyobj \<Rightarrow> unit kact" where
  "on_found_nodes now own cap msg =
     sx_bind (sx_lift (py_iter (dgetd msg ''nodes'' (PList [])))) (\<lambda>es.
     sx_iter (on_found_entry now own cap) es)"

definition on_store :: "pyobj \<Rightarrow> unit kact" where
  "on_store msg = sx_when (oget msg ''key'' \<noteq> PNone) (storage_set (oget msg ''key'') (oget msg ''value''))"

definition on_find_value :: "pyobj \<Rightarrow> pyval \<Rightarrow> pyval \<Rightarrow> unit kact" where
  "on_find_value msg sip sport =
     (let key = oget msg ''key'' in
      sx_bind (sx_lift (hkey key)) (\<lambda>k.
      sx_bind (sx_get (\<lambda>s. dget (kn_storage s) k)) (\<lambda>found.
      sx_bind (sx_get kn_id) (\<lambda>me.
      case found of
        Some v \<Rightarrow> k_send sip sport [(''type'', PStr ''VALUE''), (''sender_id'', PStr me),
                    (''key'', key), (''value'', v)]
      | None \<Rightarrow> sx_bind (k_closest (if truthy key then key else PStr me)) (\<lambda>ns.
                  k_send sip sport [(''type'', PStr ''FOUND_NODES''), (''sender_id'', PStr me),
                    (''nodes'', ns)])))))"

definition on_announce :: "real \<Rightarrow> pyobj \<Rightarrow> pyval \<Rightarrow> string \<times> int \<Rightarrow> unit kact" where
  "on_announce now msg sid addr = sx_when (truthy (oget msg ''cap'') \<and> truthy sid)
     (sx_then (peers_set sid (oget msg ''cap'')) (k_add now sid (PStr (fst addr)) (PInt (snd addr))))"

definition handle :: "real \<Rightarrow> string \<Rightarrow> pyval \<Rightarrow> pyobj \<Rightarrow> string \<times> int \<Rightarrow> unit kact" where
  "handle now own cap msg addr =
     (let sid = oget msg ''sender_id'';
          sip = dgetd msg ''sender_ip'' (PStr (fst addr));
          sport = dgetd msg ''sender_port'' (PInt (snd addr));
          mcap = oget msg ''cap'';
          mtype = oget msg ''type''
      in
      sx_then (sx_when (truthy sid) (k_add now sid sip sport))
      (sx_then (sx_when (truthy mcap \<and> truthy sid) (peers_set sid mcap))
      (if mtype = PStr ''PING'' then on_ping cap sip sport
       else if mtype = PStr ''PONG'' then on_pong now sid addr
       else if mtype = PStr ''FIND_NODE'' then on_find_node now cap msg sid sip sport addr
       else if mtype = PStr ''FOUND_NODES'' then on_found_nodes now own cap msg
       else if mtype = PStr ''STORE'' then on_store msg
       else if mtype = PStr ''FIND_VALUE'' then on_find_value msg sip sport
       else if mtype = PStr ''VALUE'' then on_store msg
       else if mtype = PStr ''ANNOUNCE'' then on_announce now msg sid addr
       else sx_return ())))"

text \<open>
  One turn of \<open>_listen_loop\<close>: the datagram is \<open>None\<close> when it is not UTF-8; \<open>loads\<close> is
  \<open>json.loads\<close>.  Text that does not start with a brace, is no JSON, or has no
  \<open>type\<close> is dropped; an exception of the handler is caught, and only an \<open>OSError\<close> ends
  the loop (the second component says whether the loop goes on).
\<close>

definition listen_step :: "(string \<Rightarrow> pyval result) \<Rightarrow> real \<Rightarrow> string \<Rightarrow> pyval \<Rightarrow> string option \<Rightarrow>
    string \<times> int \<Rightarrow> knode \<Rightarrow> knode \<times> bool" where
  "listen_step loads now own cap data addr s = (case data of
       None \<Rightarrow> (s, True)
     | Some raw \<Rightarrow>
        (let txt = py_strip raw in
         if take 1 txt \<noteq> ''{'' then (s, True)
         else case loads txt of
             Inr (PDict msg) \<Rightarrow>
               if \<not> din ''type'' msg then (s, True)
               else (case handle now own cap msg addr s of
                   (Inl OSError, s') \<Rightarrow> (s', False)
                 | (_, s') \<Rightarrow> (s', True))
           | _ \<Rightarrow> (s, True)))"

section \<open>The public operations and the refresh cycle\<close>

definition dht_start :: "pyval \<Rightarrow> string option \<Rightarrow> int \<Rightarrow> string \<Rightarrow> unit kact" where
  "dht_start cap boot_ip boot_port own =
     sx_then (sx_modify (\<lambda>s. s\<lparr>kn_running := True\<rparr>))
     (sx_bind (sx_get kn_id) (\<lambda>me.
      case boot_ip of
        Some ip \<Rightarrow> sx_when (ip \<noteq> []) (k_send (PStr ip) (PInt boot_port) (find_node_msg me own cap))
      | None \<Rightarrow> sx_return ()))"

definition dht_store :: "string \<Rightarrow> pyval \<Rightarrow> unit kact" where
  "dht_store key value =
     sx_then (storage_set (PStr key) value)
     (sx_bind (\<lambda>s. sx_lift (find_closest (kn_table s) key K) s) (\<lambda>ns.
      sx_bind (sx_get kn_id) (\<lambda>me.
      sx_iter (\<lambda>n. k_send (c_ip n) (c_port n) [(''type'', PStr ''STORE''), (''sender_id'', PStr me),
        (''key'', PStr key), (''value'', value)]) ns)))"

definition announce_self :: "pyval \<Rightarrow> string \<Rightarrow> unit kact" where
  "announce_self cap cap_json =
     sx_bind (sx_get (\<lambda>s. all_nodes (kn_table s))) (\<lambda>ns.
     sx_bind (sx_get kn_id) (\<lambda>me.
     sx_then (sx_iter (\<lambda>n. k_send (c_ip n) (c_port n) [(''type'', PStr ''ANNOUNCE''),
        (''sender_id'', PStr me), (''cap'', cap)]) ns)
     (dht_store me (PStr cap_json))))"

text \<open>
  \<open>find_peer\<close> before and after its two seconds of sleep, in which the listener runs: the
  queries sent, and the answer read from the storage.
\<close>

definition find_peer_ask :: "string \<Rightarrow> unit kact" where
  "find_peer_ask i =
     sx_bind (\<lambda>s. sx_lift (find_closest (kn_table s) i K) s) (\<lambda>ns.
     sx_bind (sx_get kn_id) (\<lambda>me.
     sx_iter (\<lambda>n. k_send (c_ip n) (c_port n) [(''type'', PStr ''FIND_VALUE''),
        (''sender_id'', PStr me), (''key'', PStr i)]) ns))"

definition find_peer_read :: "(string \<Rightarrow> pyval result) \<Rightarrow> string \<Rightarrow> knode \<Rightarrow> pyval" where
  "find_peer_read loads i s = (case dget (kn_storage s) (PStr i) of
       None \<Rightarrow> PDict []
     | Some PNone \<Rightarrow> PDict []
     | Some (PDict d) \<Rightarrow> PDict d
     | Some (PStr raw) \<Rightarrow> (case loads raw of Inr v \<Rightarrow> v | Inl e \<Rightarrow> PDict [])
     | Some _ \<Rightarrow> PDict [])"

definition get_all_peers :: "real \<Rightarrow> knode \<Rightarrow> (pyval, pyval) pydict" where
  "get_all_peers now s = map (\<lambda>(i, caps). (i, PDict [
       (''node_id'', i), (''caps'', caps),
       (''addr'', (case caps of PDict d \<Rightarrow> dgetd d ''ip'' (PStr ''unknown'') | _ \<Rightarrow> PStr ''unknown'')),
       (''roles'', (case caps of PDict d \<Rightarrow> dgetd d ''roles'' (PList [PStr ''worker''])
                    | _ \<Rightarrow> PList [PStr ''worker''])),
       (''last_seen'', PFloat now)])) (kn_peers s)"

definition refresh_step :: "real \<Rightarrow> string \<Rightarrow> pyval \<Rightarrow> string \<Rightarrow> unit kact" where
  "refresh_step now own cap cap_json =
     sx_then (announce_self cap cap_json)
     (sx_bind (sx_get (\<lambda>s. all_nodes (kn_table s))) (\<lambda>ns.
      sx_bind (sx_get kn_id) (\<lambda>me.
      sx_then (sx_iter (\<lambda>n. sx_when (\<not> now - c_seen n > STALE_TIMEOUT)
         (k_send (c_ip n) (c_port n) [(''type'', PStr ''PING''), (''sender_id'', PStr me),
            (''sender_ip'', PStr own), (''sender_port'', PInt DHT_PORT)])) ns)
      (sx_modify (\<lambda>s. s\<lparr>kn_table := evict_stale STALE_TIMEOUT now (kn_table s)\<rparr>)))))"

definition register_peer :: "pyval \<Rightarrow> pyobj \<Rightarrow> string \<Rightarrow> unit kact" where
  "register_peer i cap addr =
     peers_set i (PDict (if addr \<noteq> [] then dsetdefault ''addr'' (PStr addr) cap else cap))"

definition dht_stop :: "unit kact" where
  "dht_stop = sx_modify (\<lambda>s. s\<lparr>kn_running := False\<rparr>)"

section \<open>The node invariant\<close>

definition reply_ok :: "pyobj \<Rightarrow> bool" where
  "reply_ok m = (case oget m ''nodes'' of PList ns \<Rightarrow> length ns \<le> K | v \<Rightarrow> v = PNone)"

definition knode_ok :: "string \<Rightarrow> knode \<Rightarrow> bool" where
  "knode_ok me s \<longleftrightarrow> kn_id s = me \<and> own_id (kn_table s) = me \<and> rt_ok (kn_table s) \<and>
     distinct (dkeys (kn_storage s)) \<and> distinct (dkeys (kn_peers s)) \<and>
     list_all (\<lambda>(ip, port, m). reply_ok m) (kn_out s)"

lemma knode_ok_new: "knode_ok i (new_knode i)"
  using rt_ok_new[of i] by (simp add: knode_ok_def new_knode_def new_table_def)

lemma add_node_v_Str: "add_node_v now v ip port t = Inr t' \<Longrightarrow> \<exists>i. v = PStr i \<and> add_node now i ip port t = Inr t'"
  by (cases v) (auto simp: add_node_v_def bindE_Inr_iff)

lemma k_send_keeps: "reply_ok m \<Longrightarrow> sx_keeps (knode_ok me) (k_send ip port m)"
  unfolding k_send_def by (rule sx_keeps_modify) (simp add: knode_ok_def)

lemma k_add_keeps [inv_intros]: "sx_keeps (knode_ok me) (k_add now v ip port)"
  by (fastforce simp: sx_keeps_def k_add_def knode_ok_def split: sum.splits
      dest!: add_node_v_Str dest: add_node_ok)

lemma k_closest_state [simp]: "snd (k_closest v s) = s"
  by (simp add: k_closest_def split: sum.splits)

lemma peers_set_keeps [inv_intros]: "sx_keeps (knode_ok me) (peers_set i cap)"
  unfolding peers_set_def
  by (intro sx_keeps_bind sx_keeps_basic sx_keeps_modify) (simp add: knode_ok_def dict_inv)

lemma peers_setdefault_keeps [inv_intros]: "sx_keeps (knode_ok me) (peers_setdefault i cap)"
  unfolding peers_setdefault_def
  by (intro sx_keeps_bind sx_keeps_basic sx_keeps_modify) (simp add: knode_ok_def dict_inv)

lemma storage_set_keeps [inv_intros]: "sx_keeps (knode_ok me) (storage_set k v)"
  unfolding storage_set_def
  by (intro sx_keeps_bind sx_keeps_basic sx_keeps_modify) (simp add: knode_ok_def dict_inv)

text \<open>The reply to a lookup: the id list has at most \<open>K\<close> entries.\<close>

lemma k_closest_length: "k_closest v s = (Inr ns, s') \<Longrightarrow> \<exists>xs. ns = PList xs \<and> length xs \<le> K"
  by (cases v) (auto simp: k_closest_def find_closest_v_def find_closest_def bindE_Inr_iff
      split: sum.splits)

lemma closest_reply_keeps:
  assumes "\<And>xs. length xs \<le> K \<Longrightarrow> sx_keeps (knode_ok me) (f (PList xs))"
  shows "sx_keeps (knode_ok me) (sx_bind (k_closest v) f)"
  unfolding sx_keeps_def
proof (intro allI impI)
  fix s assume ok: "knode_ok me s"
  show "knode_ok me (snd (sx_bind (k_closest v) f s))"
  proof (cases "k_closest v s")
    case (Pair r s')
    have s': "s' = s" using k_closest_state[of v s] Pair by simp
    show ?thesis
    proof (cases r)
      case (Inl e)
      with Pair s' ok show ?thesis by (simp add: sx_bind_def)
    next
      case (Inr ns)
      then obtain xs where "ns = PList xs" "length xs \<le> K" using k_closest_length Pair by blast
      then show ?thesis using Pair s' Inr assms ok by (simp add: sx_bind_def sx_keeps_def)
    qed
  qed
qed

lemma reply_ok_simps [simp]:
  "reply_ok (find_node_msg a b c)"
  "reply_ok [(''type'', t), (''sender_id'', i), (''cap'', c)]"
  "reply_ok [(''type'', t), (''sender_id'', i), (''key'', k), (''value'', v)]"
  "reply_ok [(''type'', t), (''sender_id'', i), (''key'', k)]"
  "reply_ok [(''type'', t), (''sender_id'', i), (''sender_ip'', x), (''sender_port'', p)]"
  "reply_ok [(''type'', t), (''sender_id'', i), (''nodes'', PList xs)] \<longleftrightarrow> length xs \<le> K"
  "reply_ok [(''type'', t), (''sender_id'', i), (''nodes'', PList xs), (''cap'', c)] \<longleftrightarrow> length xs \<le> K"
  by (simp_all add: reply_ok_def find_node_msg_def oget_def dgetd_def)

lemma on_found_entry_keeps [inv_intros]: "sx_keeps (knode_ok me) (on_found_entry now own cap e)"
  unfolding on_found_entry_def by (intro inv_intros k_send_keeps reply_ok_simps)

lemma on_find_value_keeps [inv_intros]: "sx_keeps (knode_ok me) (on_find_value msg sip sport)"
  unfolding on_find_value_def Let_def
  by (intro inv_intros) (auto split: option.splits intro!: k_send_keeps closest_reply_keeps)

lemma on_find_node_keeps [inv_intros]:
  "sx_keeps (knode_ok me) (on_find_node now cap msg sid sip sport addr)"
  unfolding on_find_node_def
  by (intro inv_intros closest_reply_keeps k_send_keeps) simp_all

lemma handle_keeps [inv_intros]: "sx_keeps (knode_ok me) (handle now own cap msg addr)"
  unfolding handle_def Let_def on_ping_def on_pong_def on_found_nodes_def on_store_def on_announce_def
  by (intro inv_intros k_send_keeps) simp_all

lemma listen_step_keeps:
  assumes ok: "knode_ok me s"
  shows "knode_ok me (fst (listen_step loads now own cap data addr s))"
proof -
  have h: "knode_ok me (snd (handle now own cap m addr s))" for m
    using sx_keepsD[OF handle_keeps ok] .
  then have "handle now own cap m addr s = (r, s') \<Longrightarrow> knode_ok me s'" for m r s'
    by (metis snd_conv)
  with ok show ?thesis
    by (auto simp: listen_step_def Let_def split: option.splits sum.splits pyval.splits prod.splits
        pyexc.splits)
qed

lemma dht_store_keeps [inv_intros]: "sx_keeps (knode_ok me) (dht_store k v)"
  unfolding dht_store_def
  by (intro inv_intros k_send_keeps reply_ok_simps) (simp add: sx_keeps_def sx_defs)

lemma refresh_keeps [inv_intros]: "sx_keeps (knode_ok me) (refresh_step now own cap cj)"
  unfolding refresh_step_def announce_self_def
  by (intro inv_intros k_send_keeps reply_ok_simps) (simp add: knode_ok_def evict_stale_ok)

lemma find_peer_ask_keeps [inv_intros]: "sx_keeps (knode_ok me) (find_peer_ask i)"
  unfolding find_peer_ask_def
  by (intro inv_intros k_send_keeps reply_ok_simps) (simp add: sx_keeps_def sx_defs)

text \<open>The life of a node: datagrams, refresh cycles and calls of the public operations.\<close>

datatype dht_op =
    Datagram real "string option" "string \<times> int"
  | Refresh real
  | StoreOp string pyval
  | RegisterOp pyval pyobj string
  | AskOp string

fun dht_step :: "(string \<Rightarrow> pyval result) \<Rightarrow> string \<Rightarrow> pyval \<Rightarrow> string \<Rightarrow> dht_op \<Rightarrow> knode \<Rightarrow> knode" where
  "dht_step loads own cap cj (Datagram now d addr) s = fst (listen_step loads now own cap d addr s)"
| "dht_step loads own cap cj (Refresh now) s = snd (refresh_step now own cap cj s)"
| "dht_step loads own cap cj (StoreOp k v) s = snd (dht_store k v s)"
| "dht_step loads own cap cj (RegisterOp i c addr) s = snd (register_peer i c addr s)"
| "dht_step loads own cap cj (AskOp i) s = snd (find_peer_ask i s)"

lemma dht_step_ok: "knode_ok me s \<Longrightarrow> knode_ok me (dht_step loads own cap cj op s)"
  by (cases op) (auto simp: listen_step_keeps register_peer_def
      intro: sx_keepsD [OF refresh_keeps] sx_keepsD [OF dht_store_keeps]
        sx_keepsD [OF peers_set_keeps] sx_keepsD [OF find_peer_ask_keeps])

lemma dht_run_ok: "knode_ok me s \<Longrightarrow> knode_ok me (fold (dht_step loads own cap cj) ops s)"
  by (induction ops arbitrary: s) (simp_all add: dht_step_ok)

section \<open>What a packet does to the storage\<close>

definition overwrites :: "pyval \<Rightarrow> pyobj \<Rightarrow> bool" where
  "overwrites k msg \<longleftrightarrow> (oget msg ''type'' = PStr ''STORE'' \<or> oget msg ''type'' = PStr ''VALUE'') \<and>
     hkey (oget msg ''key'') = Inr k"

abbreviation stored :: "pyval \<Rightarrow> pyval \<Rightarrow> knode \<Rightarrow> bool" where
  "stored k v s \<equiv> dget (kn_storage s) k = Some v"

lemma stored_keeps [inv_intros]:
  "sx_keeps (stored k v) (k_send ip port m)"
  "sx_keeps (stored k v) (k_add now i ip port)"
  "sx_keeps (stored k v) (peers_set i cap)"
  "sx_keeps (stored k v) (peers_setdefault i cap)"
  "sx_keeps (stored k v) (k_closest t)"
  by (simp_all add: sx_keeps_def k_send_def k_add_def peers_set_def peers_setdefault_def sx_defs
      split: sum.splits)

lemma on_store_keeps_stored:
  "hkey (oget msg ''key'') \<noteq> Inr k \<Longrightarrow> sx_keeps (stored k v) (on_store msg)"
  by (auto simp: sx_keeps_def on_store_def storage_set_def sx_defs split: sum.splits)

lemma on_find_value_keeps_stored [inv_intros]: "sx_keeps (stored k v) (on_find_value msg sip sport)"
  unfolding on_find_value_def Let_def by (intro inv_intros) (auto split: option.splits intro!: inv_intros)

lemma on_found_entry_keeps_stored [inv_intros]:
  "sx_keeps (stored k v) (on_found_entry now own cap e)"
  unfolding on_found_entry_def by (intro inv_intros)

lemma handle_keeps_stored: "\<not> overwrites k msg \<Longrightarrow> sx_keeps (stored k v) (handle now own cap msg addr)"
  unfolding handle_def Let_def on_ping_def on_pong_def on_found_nodes_def on_announce_def on_find_node_def
  by (auto intro!: inv_intros on_store_keeps_stored simp: overwrites_def)

text \<open>A packet whose sender is absent or has a well-formed id gets past the bookkeeping.\<close>

definition sender_ok :: "pyobj \<Rightarrow> bool" where
  "sender_ok msg = (case oget msg ''sender_id'' of PStr i \<Rightarrow> i = [] \<or> node_id_ok i | v \<Rightarrow> \<not> truthy v)"

lemma k_add_ok:
  assumes "knode_ok me s" and "node_id_ok me" and "node_id_ok i"
  shows "\<exists>t. k_add now (PStr i) ip port s = (Inr (), s\<lparr>kn_table := t\<rparr>) \<and> rt_ok t \<and> own_id t = me \<and>
    (i \<noteq> me \<longrightarrow> i \<in> c_id ` set (all_nodes t))"
proof -
  have t: "rt_ok (kn_table s)" "own_id (kn_table s) = me" using assms(1) by (simp_all add: knode_ok_def)
  then have "\<exists>t'. add_node now i ip port (kn_table s) = Inr t'"
    using bucket_index_node_ids[of "kn_table s" i] assms(2,3)
    by (auto simp: add_node_def rt_ok_def)
  then obtain t' where t': "add_node now i ip port (kn_table s) = Inr t'" ..
  then show ?thesis
    using t add_node_ok[OF t(1) t'] add_node_member[OF t(1) t']
    by (auto simp: k_add_def add_node_v_def)
qed

definition sender_prefix :: "real \<Rightarrow> pyobj \<Rightarrow> string \<times> int \<Rightarrow> unit kact" where
  "sender_prefix now msg addr =
     sx_then (sx_when (truthy (oget msg ''sender_id''))
        (k_add now (oget msg ''sender_id'') (dgetd msg ''sender_ip'' (PStr (fst addr)))
           (dgetd msg ''sender_port'' (PInt (snd addr)))))
     (sx_when (truthy (oget msg ''cap'') \<and> truthy (oget msg ''sender_id''))
        (peers_set (oget msg ''sender_id'') (oget msg ''cap'')))"

lemma sender_prefix_ok:
  assumes "knode_ok me s" and "node_id_ok me" and "sender_ok msg"
  shows "\<exists>t ps. sender_prefix now msg addr s = (Inr (), s\<lparr>kn_table := t, kn_peers := ps\<rparr>)"
proof (cases "truthy (oget msg ''sender_id'')")
  case True
  then obtain i where i: "oget msg ''sender_id'' = PStr i" "node_id_ok i"
    using assms(3) by (auto simp: sender_ok_def split: pyval.splits)
  obtain t where t: "k_add now (PStr i) (dgetd msg ''sender_ip'' (PStr (fst addr)))
       (dgetd msg ''sender_port'' (PInt (snd addr))) s = (Inr (), s\<lparr>kn_table := t\<rparr>)"
    using k_add_ok[OF assms(1,2) i(2)] by blast
  show ?thesis
  proof (cases "truthy (oget msg ''cap'')")
    case True
    then show ?thesis
      using t i \<open>truthy (oget msg ''sender_id'')\<close>
      by (auto simp: sender_prefix_def sx_defs peers_set_def)
  next
    case False
    then have "sender_prefix now msg addr s = (Inr (), s\<lparr>kn_table := t, kn_peers := kn_peers s\<rparr>)"
      using t i \<open>truthy (oget msg ''sender_id'')\<close> by (simp add: sender_prefix_def sx_defs)
    then show ?thesis by blast
  qed
next
  case False
  then have "sender_prefix now msg addr s = (Inr (), s\<lparr>kn_table := kn_table s, kn_peers := kn_peers s\<rparr>)"
    by (simp add: sender_prefix_def sx_defs)
  then show ?thesis by blast
qed

lemma handle_prefix:
  assumes "sender_prefix now msg addr s = (Inr (), s')"
  shows "handle now own cap msg addr s =
    (let sid = oget msg ''sender_id''; sip = dgetd msg ''sender_ip'' (PStr (fst addr));
         sport = dgetd msg ''sender_port'' (PInt (snd addr)); mtype = oget msg ''type''
     in (if mtype = PStr ''PING'' then on_ping cap sip sport
       else if mtype = PStr ''PONG'' then on_pong now sid addr
       else if mtype = PStr ''FIND_NODE'' then on_find_node now cap msg sid sip sport addr
       else if mtype = PStr ''FOUND_NODES'' then on_found_nodes now own cap msg
       else if mtype = PStr ''STORE'' then on_store msg
       else if mtype = PStr ''FIND_VALUE'' then on_find_value msg sip sport
       else if mtype = PStr ''VALUE'' then on_store msg
       else if mtype = PStr ''ANNOUNCE'' then on_announce now msg sid addr
       else sx_return ()) s')"
proof -
  have assoc: "sx_then a (sx_then b c) s = sx_then (sx_then a b) c s" for a b and c :: "unit kact"
    by (simp add: sx_defs split: prod.splits sum.splits)
  show ?thesis
    using assms unfolding handle_def Let_def assoc
    by (simp add: sender_prefix_def [symmetric]) (simp add: sx_then_def sx_bind_def)
qed

section \<open>Properties\<close>

lemma knode_replies: "knode_ok me s \<Longrightarrow> list_all (\<lambda>(ip, port, m). reply_ok m) (kn_out s)"
  by (simp add: knode_ok_def)

text \<open>
  C3. Whatever arrives on the UDP port of a fresh node - malformed JSON, ids that are no
  strings or no hexadecimal numbers, packets whose handling raises half-way - interleaved
  with refresh cycles and calls of the public operations, the routing table stays well
  formed and below 3200 entries, the node keeps its id, its peers and stored keys stay
  unique, and no datagram it ever sends carries more than \<open>K = 20\<close> nodes.
\<close>
theorem dht_node_invariant:
  fixes ops :: "dht_op list" and loads own cap cj me
  defines "s \<equiv> fold (dht_step loads own cap cj) ops (new_knode me)"
  shows "rt_ok (kn_table s) \<and> rt_size (kn_table s) \<le> 3200 \<and> kn_id s = me \<and> own_id (kn_table s) = me \<and>
    distinct (dkeys (kn_storage s)) \<and> distinct (dkeys (kn_peers s)) \<and>
    list_all (\<lambda>(ip, port, m). reply_ok m) (kn_out s)"
proof -
  have ok: "knode_ok me s" unfolding s_def by (rule dht_run_ok [OF knode_ok_new])
  then show ?thesis
    using rt_size_bound[of "kn_table s"] by (simp add: knode_ok_def K_def)
qed

lemma run_handlers_ok: "knode_ok me s \<Longrightarrow>
    knode_ok me (fold (\<lambda>(now, m, a) s. snd (handle now own cap m a s)) ps s)"
  by (induction ps arbitrary: s) (auto simp: sx_keepsD [OF handle_keeps])

lemma run_handlers_stored: "list_all (\<lambda>(now, m, a). \<not> overwrites k m) ps \<Longrightarrow> stored k v s \<Longrightarrow>
    stored k v (fold (\<lambda>(now, m, a) s. snd (handle now own cap m a s)) ps s)"
  by (induction ps arbitrary: s) (auto simp: sx_keepsD [OF handle_keeps_stored])

lemma handle_store:
  assumes "knode_ok me s" and "node_id_ok me" and "sender_ok msg"
    and "oget msg ''type'' = PStr ''STORE''" and "hkey (oget msg ''key'') = Inr k" and "k \<noteq> PNone"
  shows "stored k (oget msg ''value'') (snd (handle now own cap msg addr s))"
proof -
  have "oget msg ''key'' \<noteq> PNone" using assms(5,6) by (auto simp: hkey_def)
  moreover obtain t ps where "sender_prefix now msg addr s = (Inr (), s\<lparr>kn_table := t, kn_peers := ps\<rparr>)"
    using sender_prefix_ok[OF assms(1-3)] by blast
  ultimately show ?thesis
    using assms(4,5) by (simp add: handle_prefix on_store_def storage_set_def sx_defs)
qed

lemma handle_find_value:
  assumes "knode_ok me s" and "node_id_ok me" and "sender_ok msg"
    and "oget msg ''type'' = PStr ''FIND_VALUE''" and "hkey (oget msg ''key'') = Inr k"
    and "stored k v s"
  shows "kn_out (snd (handle now own cap msg addr s)) = kn_out s @
    [(dgetd msg ''sender_ip'' (PStr (fst addr)), dgetd msg ''sender_port'' (PInt (snd addr)),
      [(''type'', PStr ''VALUE''), (''sender_id'', PStr me), (''key'', oget msg ''key''), (''value'', v)])]"
proof -
  have "kn_id s = me" using assms(1) by (simp add: knode_ok_def)
  moreover obtain t ps where "sender_prefix now msg addr s = (Inr (), s\<lparr>kn_table := t, kn_peers := ps\<rparr>)"
    using sender_prefix_ok[OF assms(1-3)] by blast
  ultimately show ?thesis
    using assms(4-6) by (simp add: handle_prefix on_find_value_def k_send_def sx_defs Let_def)
qed

text \<open>
  Store and find: after a STORE packet for a key, and any packets that do not write
  that key (malformed ones included), a FIND_VALUE packet for the key is answered to the
  asking node with exactly the stored value.
\<close>
theorem store_then_find:
  fixes own cap now1 a1
  assumes "knode_ok me s" and "node_id_ok me"
    and "sender_ok m1" and "oget m1 ''type'' = PStr ''STORE''" and "hkey (oget m1 ''key'') = Inr k"
    and "k \<noteq> PNone"
    and "list_all (\<lambda>(now, m, a). \<not> overwrites k m) ps"
    and "sender_ok m2" and "oget m2 ''type'' = PStr ''FIND_VALUE''" and "hkey (oget m2 ''key'') = Inr k"
  defines "s' \<equiv> fold (\<lambda>(now, m, a) s. snd (handle now own cap m a s)) ((now1, m1, a1) # ps) s"
  shows "kn_out (snd (handle now2 own cap m2 a2 s')) = kn_out s' @
    [(dgetd m2 ''sender_ip'' (PStr (fst a2)), dgetd m2 ''sender_port'' (PInt (snd a2)),
      [(''type'', PStr ''VALUE''), (''sender_id'', PStr me), (''key'', oget m2 ''key''),
       (''value'', oget m1 ''value'')])]"
proof (rule handle_find_value [OF _ assms(2,8-10)])
  show "knode_ok me s'" unfolding s'_def by (rule run_handlers_ok [OF assms(1)])
  show "stored k (oget m1 ''value'') s'"
    unfolding s'_def using run_handlers_stored[OF assms(7) handle_store[OF assms(1-6)]] by simp
qed

theorem store_then_find_witness:
  "\<exists>s. kn_out (snd (handle 3 ''127.0.0.1'' PNone [(''type'', PStr ''FIND_VALUE''), (''key'', PStr ''k'')]
      (''10.0.0.9'', 4000) s)) = kn_out s @ [(PStr ''10.0.0.9'', PInt 4000,
        [(''type'', PStr ''VALUE''), (''sender_id'', PStr (replicate 40 CHR ''7'')), (''key'', PStr ''k''),
         (''value'', PInt 5)])]"
proof -
  let ?me = "replicate 40 CHR ''7''"
  let ?m1 = "[(''type'', PStr ''STORE''), (''key'', PStr ''k''), (''value'', PInt 5)]"
  let ?m2 = "[(''type'', PStr ''FIND_VALUE''), (''key'', PStr ''k'')]"
  have id: "node_id_ok ?me" by (simp add: node_id_ok_def hexval.simps list_all_iff)
  have ok: "sender_ok ?m1" "sender_ok ?m2" "hkey (oget ?m1 ''key'') = Inr (PStr ''k'')"
    "hkey (oget ?m2 ''key'') = Inr (PStr ''k'')" "oget ?m1 ''type'' = PStr ''STORE''"
    "oget ?m2 ''type'' = PStr ''FIND_VALUE''"
    by (simp_all add: sender_ok_def oget_def dgetd_def)
  show ?thesis
    using store_then_find[OF knode_ok_new id ok(1) ok(5) ok(3) _ _ ok(2) ok(6) ok(4),
        of "[(2, [(''type'', PStr ''PING'')], (''10.0.0.3'', 6881))]" 3 "''127.0.0.1''" PNone "(''10.0.0.9'', 4000)"]
    by (simp add: overwrites_def oget_def dgetd_def) blast
qed

text \<open>The answer to a FIND_NODE packet of a well-formed sender.\<close>

definition node_triples :: "contact list \<Rightarrow> pyval" where
  "node_triples ns = PList (map (\<lambda>n. PList [PStr (c_id n), c_ip n, c_port n]) ns)"

lemma on_find_node_reply:
  assumes "knode_ok me s" and "node_id_ok me" and "node_id_ok i"
    and "dgetd msg ''target_id'' (PStr me) = PStr tgt" and "int16 tgt = Inr v"
  shows "\<exists>t ps ns. on_find_node now cap msg (PStr i) sip sport addr s =
      (Inr (), s\<lparr>kn_table := t, kn_peers := ps,
        kn_out := kn_out s @ [(sip, sport, [(''type'', PStr ''FOUND_NODES''), (''sender_id'', PStr me),
          (''nodes'', node_triples ns), (''cap'', cap)])]\<rparr>) \<and>
      ps = dsetdefault (PStr i) (py_or (oget msg ''cap'') (PDict [])) (kn_peers s) \<and>
      rt_ok t \<and> own_id t = me \<and> (i \<noteq> me \<longrightarrow> i \<in> c_id ` set (all_nodes t)) \<and>
      find_closest t tgt K = Inr ns"
proof -
  let ?ps = "dsetdefault (PStr i) (py_or (oget msg ''cap'') (PDict [])) (kn_peers s)"
  let ?s = "s\<lparr>kn_peers := ?ps\<rparr>"
  have i: "i \<noteq> []" using assms(3) by (auto simp: node_id_ok_def)
  have "knode_ok me ?s" using assms(1) by (simp add: knode_ok_def dict_inv)
  then obtain t where t: "k_add now (PStr i) (PStr (fst addr)) (PInt (snd addr)) ?s = (Inr (), ?s\<lparr>kn_table := t\<rparr>)"
    "rt_ok t" "own_id t = me" "i \<noteq> me \<longrightarrow> i \<in> c_id ` set (all_nodes t)"
    using k_add_ok[OF _ assms(2,3)] by blast
  obtain ns where ns: "find_closest t tgt K = Inr ns" using find_closest_Inr[OF t(2) assms(5)] by blast
  have "peers_setdefault (PStr i) (py_or (oget msg ''cap'') (PDict [])) s = (Inr (), ?s)"
    by (simp add: peers_setdefault_def sx_defs)
  moreover have "kn_id s = me" using assms(1) by (simp add: knode_ok_def)
  ultimately have "on_find_node now cap msg (PStr i) sip sport addr s = (Inr (), s\<lparr>kn_table := t,
      kn_peers := ?ps, kn_out := kn_out s @ [(sip, sport, [(''type'', PStr ''FOUND_NODES''),
        (''sender_id'', PStr me), (''nodes'', node_triples ns), (''cap'', cap)])]\<rparr>)"
    using t(1) ns i assms(4)
    by (simp add: on_find_node_def sx_defs k_closest_def find_closest_v_def k_send_def node_triples_def)
  then show ?thesis using t ns by blast
qed

lemma handle_find_node:
  assumes ok: "knode_ok me s" and me: "node_id_ok me" and i: "node_id_ok i"
    and snd: "oget msg ''sender_id'' = PStr i" and ty: "oget msg ''type'' = PStr ''FIND_NODE''"
    and tgt: "dgetd msg ''target_id'' (PStr me) = PStr tgt" and v: "int16 tgt = Inr v"
  shows "\<exists>s' ns. handle now own cap msg addr s = (Inr (), s') \<and> knode_ok me s' \<and>
    kn_out s' = kn_out s @ [(dgetd msg ''sender_ip'' (PStr (fst addr)), dgetd msg ''sender_port'' (PInt (snd addr)),
      [(''type'', PStr ''FOUND_NODES''), (''sender_id'', PStr me), (''nodes'', node_triples ns), (''cap'', cap)])] \<and>
    (i \<noteq> me \<longrightarrow> i \<in> c_id ` set (all_nodes (kn_table s'))) \<and>
    (truthy (oget msg ''cap'') \<longrightarrow> dget (kn_peers s') (PStr i) = Some (oget msg ''cap'')) \<and>
    find_closest (kn_table s') tgt K = Inr ns"
proof -
  have "i \<noteq> []" using i by (auto simp: node_id_ok_def)
  have "sender_ok msg" using i snd by (simp add: sender_ok_def)
  then obtain t ps where pre: "sender_prefix now msg addr s = (Inr (), s\<lparr>kn_table := t, kn_peers := ps\<rparr>)"
    using sender_prefix_ok[OF ok me] by blast
  let ?s = "s\<lparr>kn_table := t, kn_peers := ps\<rparr>"
  have "sx_keeps (knode_ok me) (sender_prefix now msg addr)"
    unfolding sender_prefix_def by (intro inv_intros)
  from sx_keepsD[OF this ok] have ok1: "knode_ok me ?s" using pre by simp
  have cap: "dget ps (PStr i) = Some (oget msg ''cap'')" if c: "truthy (oget msg ''cap'')"
  proof -
    obtain t1 where "k_add now (PStr i) (dgetd msg ''sender_ip'' (PStr (fst addr)))
       (dgetd msg ''sender_port'' (PInt (snd addr))) s = (Inr (), s\<lparr>kn_table := t1\<rparr>)"
      using k_add_ok[OF ok me i] by blast
    then have "s\<lparr>kn_table := t, kn_peers := ps\<rparr> =
        s\<lparr>kn_table := t1, kn_peers := dset (PStr i) (oget msg ''cap'') (kn_peers s)\<rparr>"
      using pre snd c \<open>i \<noteq> []\<close> by (simp add: sender_prefix_def sx_defs peers_set_def)
    then have "kn_peers (s\<lparr>kn_table := t, kn_peers := ps\<rparr>) = dset (PStr i) (oget msg ''cap'') (kn_peers s)"
      by simp
    then show ?thesis by simp
  qed
  obtain t2 ps2 ns where r: "on_find_node now cap msg (PStr i) (dgetd msg ''sender_ip'' (PStr (fst addr)))
        (dgetd msg ''sender_port'' (PInt (snd addr))) addr ?s =
      (Inr (), ?s\<lparr>kn_table := t2, kn_peers := ps2,
        kn_out := kn_out ?s @ [(dgetd msg ''sender_ip'' (PStr (fst addr)), dgetd msg ''sender_port'' (PInt (snd addr)),
          [(''type'', PStr ''FOUND_NODES''), (''sender_id'', PStr me),
          (''nodes'', node_triples ns), (''cap'', cap)])]\<rparr>)"
    "ps2 = dsetdefault (PStr i) (py_or (oget msg ''cap'') (PDict [])) (kn_peers ?s)"
    "rt_ok t2" "own_id t2 = me" "i \<noteq> me \<longrightarrow> i \<in> c_id ` set (all_nodes t2)" "find_closest t2 tgt K = Inr ns"
    using on_find_node_reply[OF ok1 me i tgt v, of now cap "dgetd msg ''sender_ip'' (PStr (fst addr))"
      "dgetd msg ''sender_port'' (PInt (snd addr))" addr]
    by (elim exE conjE) (rule that)
  have h: "handle now own cap msg addr s = on_find_node now cap msg (PStr i)
      (dgetd msg ''sender_ip'' (PStr (fst addr))) (dgetd msg ''sender_port'' (PInt (snd addr))) addr ?s"
    unfolding handle_prefix[OF pre] Let_def ty snd by simp
  have "knode_ok me (snd (handle now own cap msg addr s))" by (rule sx_keepsD[OF handle_keeps ok])
  moreover have "dget ps2 (PStr i) = Some (oget msg ''cap'')" if "truthy (oget msg ''cap'')"
    using cap[OF that] r(2) by (simp add: din_def)
  ultimately show ?thesis
    using h r(1,5,6) by (intro exI[of _ "snd (handle now own cap msg addr s)"] exI[of _ ns]) simp
qed

text \<open>
  A FIND_NODE packet from a node with a well-formed id never raises and is answered, to
  the address the packet names, with the K nodes of the table nearest to the asked id: the
  asking node has been entered before, and no node of the table left out of the answer is
  nearer than one in it.
\<close>
theorem find_node_answer:
  assumes "knode_ok me s" and "node_id_ok me" and "node_id_ok i"
    and "oget msg ''sender_id'' = PStr i" and "oget msg ''type'' = PStr ''FIND_NODE''"
    and "dgetd msg ''target_id'' (PStr me) = PStr tgt" and "int16 tgt = Inr v"
  shows "\<exists>s' ns. handle now own cap msg addr s = (Inr (), s') \<and>
    kn_out s' = kn_out s @ [(dgetd msg ''sender_ip'' (PStr (fst addr)), dgetd msg ''sender_port'' (PInt (snd addr)),
      [(''type'', PStr ''FOUND_NODES''), (''sender_id'', PStr me), (''nodes'', node_triples ns), (''cap'', cap)])] \<and>
    (i \<noteq> me \<longrightarrow> i \<in> c_id ` set (all_nodes (kn_table s'))) \<and>
    length ns = min 20 (rt_size (kn_table s')) \<and> set ns \<subseteq> set (all_nodes (kn_table s')) \<and>
    (\<forall>x \<in> set ns. \<forall>y \<in> set (all_nodes (kn_table s')) - set ns.
       the_int16 (c_id x) XOR v \<le> the_int16 (c_id y) XOR v)"
proof -
  obtain s' ns where h: "handle now own cap msg addr s = (Inr (), s')" "knode_ok me s'"
    "kn_out s' = kn_out s @ [(dgetd msg ''sender_ip'' (PStr (fst addr)), dgetd msg ''sender_port'' (PInt (snd addr)),
      [(''type'', PStr ''FOUND_NODES''), (''sender_id'', PStr me), (''nodes'', node_triples ns), (''cap'', cap)])]"
    "i \<noteq> me \<longrightarrow> i \<in> c_id ` set (all_nodes (kn_table s'))"
    "find_closest (kn_table s') tgt K = Inr ns"
    using handle_find_node[OF assms, of now own cap addr] by blast
  have "rt_ok (kn_table s')" using h(2) by (simp add: knode_ok_def)
  from find_closest_facts[OF this assms(7), of K] h(5) have "length ns = min 20 (rt_size (kn_table s')) \<and>
    set ns \<subseteq> set (all_nodes (kn_table s')) \<and>
    (\<forall>x \<in> set ns. \<forall>y \<in> set (all_nodes (kn_table s')) - set ns.
       the_int16 (c_id x) XOR v \<le> the_int16 (c_id y) XOR v)" by (auto simp: K_def)
  with h(1,3,4) show ?thesis by blast
qed

theorem find_node_answer_witness:
  "\<exists>s' ns. handle 1 ''10.0.0.1'' PNone (find_node_msg (replicate 40 CHR ''a'') ''10.0.0.2'' PNone)
      (''10.0.0.2'', 6881) (new_knode (replicate 40 CHR ''7'')) = (Inr (), s') \<and>
    length ns = min 20 (rt_size (kn_table s')) \<and> set ns \<subseteq> set (all_nodes (kn_table s'))"
proof -
  let ?me = "replicate 40 CHR ''7''" and ?i = "replicate 40 CHR ''a''"
  have id: "node_id_ok ?me" "node_id_ok ?i"
    by (simp_all add: node_id_ok_def hexval.simps list_all_iff)
  obtain v where v: "int16 ?i = Inr (int v)" using int16_node_id[OF id(2)] by blast
  have m: "oget (find_node_msg ?i ''10.0.0.2'' PNone) ''sender_id'' = PStr ?i"
    "oget (find_node_msg ?i ''10.0.0.2'' PNone) ''type'' = PStr ''FIND_NODE''"
    "dgetd (find_node_msg ?i ''10.0.0.2'' PNone) ''target_id'' (PStr ?me) = PStr ?i"
    by (simp_all add: find_node_msg_def oget_def dgetd_def)
  show ?thesis
    using find_node_answer[OF knode_ok_new id(1) id(2) m v, of 1 "''10.0.0.1''" PNone "(''10.0.0.2'', 6881)"]
    by (elim exE conjE) (intro exI conjI, assumption+)
qed

lemma peer_known_keeps [inv_intros]:
  "sx_keeps (\<lambda>s. dget (kn_peers s) k = Some c) (k_send ip port m)"
  "sx_keeps (\<lambda>s. dget (kn_peers s) k = Some c) (k_add now i ip port)"
  "sx_keeps (\<lambda>s. dget (kn_peers s) k = Some c) (peers_setdefault i cap)"
  by (auto simp: sx_keeps_def k_send_def k_add_def peers_setdefault_def sx_defs din_def split: sum.splits)

lemma handle_found_nodes_known:
  assumes "knode_ok me s" and "node_id_ok me" and "node_id_ok i"
    and "oget msg ''sender_id'' = PStr i" and "oget msg ''type'' = PStr ''FOUND_NODES''"
    and "truthy (oget msg ''cap'')"
  shows "dget (kn_peers (snd (handle now own cap msg addr s))) (PStr i) = Some (oget msg ''cap'')"
proof -
  have i: "i \<noteq> []" using assms(3) by (auto simp: node_id_ok_def)
  obtain t where "k_add now (PStr i) (dgetd msg ''sender_ip'' (PStr (fst addr)))
       (dgetd msg ''sender_port'' (PInt (snd addr))) s = (Inr (), s\<lparr>kn_table := t\<rparr>)"
    using k_add_ok[OF assms(1-3)] by blast
  then have pre: "sender_prefix now msg addr s =
      (Inr (), s\<lparr>kn_table := t, kn_peers := dset (PStr i) (oget msg ''cap'') (kn_peers s)\<rparr>)"
    using assms(4,6) i by (simp add: sender_prefix_def sx_defs peers_set_def)
  have "sx_keeps (\<lambda>s. dget (kn_peers s) (PStr i) = Some (oget msg ''cap'')) (on_found_nodes now own cap msg)"
    unfolding on_found_nodes_def on_found_entry_def by (intro inv_intros)
  from sx_keepsD[OF this] show ?thesis
    unfolding handle_prefix[OF pre] Let_def assms(5) by simp
qed

text \<open>
  The bootstrap exchange: when the FIND_NODE packet of a starting node reaches the node
  it bootstraps from, that node enters it in its routing table and records its capability;
  the reply goes back to the address in the packet, on port 6881, and delivering the reply
  makes the starting node know the other one, whatever else the reply lists.
\<close>
theorem bootstrap_exchange:
  fixes nowA nowB ipA ipB addrA addrB
  assumes "knode_ok a sa" and "knode_ok b sb" and "node_id_ok a" and "node_id_ok b" and "a \<noteq> b"
    and "truthy capA" and "truthy capB"
  defines "sb' \<equiv> snd (handle nowB ipB capB (find_node_msg a ipA capA) addrA sb)"
  defines "reply \<equiv> last (kn_out sb')"
  defines "sa' \<equiv> snd (handle nowA ipA capA (snd (snd reply)) addrB sa)"
  shows "a \<in> c_id ` set (all_nodes (kn_table sb')) \<and> dget (kn_peers sb') (PStr a) = Some capA \<and>
    kn_out sb' = kn_out sb @ [reply] \<and> fst reply = PStr ipA \<and> fst (snd reply) = PInt 6881 \<and>
    dget (kn_peers sa') (PStr b) = Some capB"
proof -
  let ?m = "find_node_msg a ipA capA"
  have m: "oget ?m ''sender_id'' = PStr a" "oget ?m ''type'' = PStr ''FIND_NODE''"
    "dgetd ?m ''target_id'' (PStr b) = PStr a" "oget ?m ''cap'' = capA"
    "dgetd ?m ''sender_ip'' (PStr (fst addrA)) = PStr ipA"
    "dgetd ?m ''sender_port'' (PInt (snd addrA)) = PInt 6881"
    by (simp_all add: find_node_msg_def oget_def dgetd_def DHT_PORT_def)
  obtain v where v: "int16 a = Inr (int v)" using int16_node_id[OF assms(3)] by blast
  obtain s' ns where h: "handle nowB ipB capB ?m addrA sb = (Inr (), s')"
    "kn_out s' = kn_out sb @ [(PStr ipA, PInt 6881, [(''type'', PStr ''FOUND_NODES''),
       (''sender_id'', PStr b), (''nodes'', node_triples ns), (''cap'', capB)])]"
    "a \<noteq> b \<longrightarrow> a \<in> c_id ` set (all_nodes (kn_table s'))"
    "truthy (oget ?m ''cap'') \<longrightarrow> dget (kn_peers s') (PStr a) = Some (oget ?m ''cap'')"
    using handle_find_node[OF assms(2,4,3) m(1-3) v, of nowB ipB capB addrA] m(5,6) by auto
  have sb': "sb' = s'" using h(1) by (simp add: sb'_def)
  have reply: "reply = (PStr ipA, PInt 6881, [(''type'', PStr ''FOUND_NODES''),
       (''sender_id'', PStr b), (''nodes'', node_triples ns), (''cap'', capB)])"
    using h(2) sb' by (simp add: reply_def)
  have "dget (kn_peers sa') (PStr b) = Some (oget (snd (snd reply)) ''cap'')"
    unfolding sa'_def using assms(7)
    by (intro handle_found_nodes_known[OF assms(1,3,4)]) (simp_all add: reply oget_def dgetd_def)
  moreover have "oget (snd (snd reply)) ''cap'' = capB" by (simp add: reply oget_def dgetd_def)
  ultimately show ?thesis using h sb' reply m(4) assms(5,6) by simp
qed

theorem bootstrap_exchange_witness:
  "\<exists>sb' reply. dget (kn_peers (snd (handle 1 ''10.0.0.2'' (PInt 1) (snd (snd reply)) (''10.0.0.1'', 6881)
      (new_knode (replicate 40 CHR ''a''))))) (PStr (replicate 40 CHR ''7'')) = Some (PInt 2) \<and>
    sb' = snd (handle 1 ''10.0.0.1'' (PInt 2) (find_node_msg (replicate 40 CHR ''a'') ''10.0.0.2'' (PInt 1))
      (''10.0.0.2'', 6881) (new_knode (replicate 40 CHR ''7''))) \<and> reply = last (kn_out sb')"
proof -
  let ?b = "replicate 40 CHR ''7''" and ?a = "replicate 40 CHR ''a''"
  have id: "node_id_ok ?b" "node_id_ok ?a" "?a \<noteq> ?b" "truthy (PInt 1)" "truthy (PInt 2)"
    by (simp_all add: node_id_ok_def hexval.simps list_all_iff)
  show ?thesis
    using bootstrap_exchange[OF knode_ok_new knode_ok_new id(2) id(1) id(3) id(4) id(5),
        where nowA = 1 and nowB = 1 and ipA = "''10.0.0.2''" and ipB = "''10.0.0.1''"
        and addrA = "(''10.0.0.2'', 6881)" and addrB = "(''10.0.0.1'', 6881)"]
    by (elim exE conjE) (intro exI conjI, assumption, rule refl, rule refl)
qed

end
