(* ===== verification/Mesh.thy ===== *)
theory Mesh
  imports PyValue
begin

text \<open>
  The Bluetooth mesh: \<open>swarm/bluetooth_mesh.py\<close> (flooding with a cache of seen message
  ids), \<open>swarm/bluetooth_transport.py\<close> (the exchange with a peer over RFCOMM, the table of
  peers) and \<open>swarm/bluetooth_discovery.py\<close>.  \<open>ms_log\<close> records, with the time and the
  message id, what a node broadcasts, hands to a handler and relays; \<open>ms_out\<close> the messages
  sent to each peer.  Sockets, the scan loop, the handlers and the fresh uuid of a message
  are outside: the handler registered for a type is the argument \<open>hs\<close>, which says whether
  it returns or raises.  One reception uses one reading of the clock.
\<close>

definition MAX_HOPS :: int where "MAX_HOPS = 5"
definition SEEN_CACHE_TTL :: real where "SEEN_CACHE_TTL = 60"

datatype mesh_ev = Broadcast pyobj | Delivered pyval pyval string | Relayed pyobj

record mesh =
  ms_id :: string
  ms_seen :: "(pyval, real) pydict"
  ms_peers :: "(string, pyobj) pydict"
  ms_log :: "(real \<times> pyval \<times> mesh_ev) list"
  ms_out :: "(string \<times> pyobj) list"

type_synonym 'a mact = "(mesh, 'a) sx"

definition new_mesh :: "string \<Rightarrow> mesh" where
  "new_mesh i = \<lparr>ms_id = i, ms_seen = [], ms_peers = [], ms_log = [], ms_out = []\<rparr>"

section \<open>The seen-message cache\<close>

definition clean_seen :: "real \<Rightarrow> (pyval, real) pydict \<Rightarrow> (pyval, real) pydict" where
  "clean_seen now = dfilter (\<lambda>k v. now - v < SEEN_CACHE_TTL)"

definition is_seen :: "real \<Rightarrow> pyval \<Rightarrow> bool mact" where
  "is_seen now k s = (Inr (din k (clean_seen now (ms_seen s))), s\<lparr>ms_seen := clean_seen now (ms_seen s)\<rparr>)"

definition mark_seen :: "real \<Rightarrow> pyval \<Rightarrow> unit mact" where
  "mark_seen now k = sx_modify (\<lambda>s. s\<lparr>ms_seen := dset k now (ms_seen s)\<rparr>)"

section \<open>Broadcast, delivery and relay\<close>

definition send_message :: "pyobj \<Rightarrow> unit mact" where
  "send_message m = sx_modify (\<lambda>s. s\<lparr>ms_out := ms_out s @ map (\<lambda>a. (a, m)) (dkeys (ms_peers s))\<rparr>)"

definition mesh_log :: "real \<Rightarrow> pyval \<Rightarrow> mesh_ev \<Rightarrow> unit mact" where
  "mesh_log now k e = sx_modify (\<lambda>s. s\<lparr>ms_log := ms_log s @ [(now, k, e)]\<rparr>)"

definition envelope :: "string \<Rightarrow> real \<Rightarrow> string \<Rightarrow> string \<Rightarrow> pyval \<Rightarrow> string \<Rightarrow> pyobj" where
  "envelope me now uid mtype payload dest =
     [(''msg_id'', PStr uid), (''type'', PStr mtype), (''origin'', PStr me), (''destination'', PStr dest),
      (''hop_count'', PInt 0), (''max_hops'', PInt MAX_HOPS), (''payload'', payload),
      (''seen_by'', PList [PStr me]), (''timestamp'', PFloat now)]"

definition mesh_broadcast :: "real \<Rightarrow> string \<Rightarrow> string \<Rightarrow> pyval \<Rightarrow> string \<Rightarrow> unit mact" where
  "mesh_broadcast now uid mtype payload dest =
     sx_bind (sx_get ms_id) (\<lambda>me.
     let m = envelope me now uid mtype payload dest in
     sx_then (mark_seen now (PStr uid))
     (sx_then (mesh_log now (PStr uid) (Broadcast m)) (send_message m)))"

text \<open>\<open>if self.node_id not in msg["seen_by"]: msg["seen_by"].append(self.node_id)\<close>\<close>

definition add_seen_by :: "string \<Rightarrow> pyobj \<Rightarrow> pyobj result" where
  "add_seen_by me m = bindE (oindex m ''seen_by'') (\<lambda>sb.
     bindE (py_in me sb) (\<lambda>present.
     if present then Inr m
     else case sb of PList xs \<Rightarrow> Inr (dset ''seen_by'' (PList (xs @ [PStr me])) m)
                   | _ \<Rightarrow> Inl AttributeError))"

definition relay_msg :: "string \<Rightarrow> pyobj \<Rightarrow> pyobj result" where
  "relay_msg me m = bindE (oindex m ''hop_count'') (\<lambda>h.
     bindE (py_add_int h 1) (\<lambda>h'. add_seen_by me (dset ''hop_count'' h' m)))"

definition on_receive :: "(pyval \<Rightarrow> (pyval \<Rightarrow> string \<Rightarrow> unit result) option) \<Rightarrow> real \<Rightarrow> pyobj \<Rightarrow> string \<Rightarrow> unit mact" where
  "on_receive hs now m frm =
     sx_bind (sx_get ms_id) (\<lambda>me.
     let mid = oget m ''msg_id''; dest = dgetd m ''destination'' (PStr ''ALL''); mtype = oget m ''type'' in
     if \<not> truthy mid then sx_return ()
     else
     sx_bind (sx_lift (hkey mid)) (\<lambda>k.
     sx_bind (is_seen now k) (\<lambda>dup.
     if dup then sx_return ()
     else
     sx_then (mark_seen now k)
     (sx_then (sx_when (dest = PStr ''ALL'' \<or> dest = PStr me)
        (sx_bind (sx_lift (hkey mtype)) (\<lambda>t.
         case hs t of
           None \<Rightarrow> sx_return ()
         | Some h \<Rightarrow> sx_bind (sx_lift (oindex m ''payload'')) (\<lambda>p.
                     sx_then (mesh_log now k (Delivered mtype p frm)) (sx_lift (h p frm))))))
     (sx_bind (sx_lift (py_lt (dgetd m ''hop_count'' (PInt 0)) (dgetd m ''max_hops'' (PInt MAX_HOPS)))) (\<lambda>more.
      sx_when (more \<and> dest \<noteq> PStr me)
        (sx_bind (sx_lift (relay_msg me m)) (\<lambda>m'.
         sx_then (mesh_log now k (Relayed m')) (send_message m')))))))))"

section \<open>The RFCOMM exchange\<close>

text \<open>\<open>x[:12]\<close> in the print statements raises unless the value is a string or a list.\<close>

definition sliceable :: "pyval \<Rightarrow> unit result" where
  "sliceable v = (if is_str v \<or> is_list v then Inr () else Inl TypeError)"

definition peer_entry :: "real \<Rightarrow> string \<Rightarrow> pyval \<Rightarrow> pyobj \<Rightarrow> pyobj" where
  "peer_entry now addr pid caps = [(''address'', PStr addr), (''node_id'', pid), (''caps'', PDict caps),
     (''last_seen'', PFloat now)]"

definition set_peer :: "string \<Rightarrow> pyobj \<Rightarrow> unit mact" where
  "set_peer addr e = sx_modify (\<lambda>s. s\<lparr>ms_peers := dset addr e (ms_peers s)\<rparr>)"

text \<open>The peer id in the three shapes of JSON an inbound connection may carry.\<close>

definition rfcomm_peer_id :: "pyobj \<Rightarrow> pyval result" where
  "rfcomm_peer_id cap =
     bindE (if truthy (oget cap ''node_id'') then Inr (oget cap ''node_id'')
            else pget (dgetd cap ''payload'' (PDict [])) ''node_id'' PNone) (\<lambda>p1.
     if truthy p1 then Inr p1
     else pget (dgetd cap ''caps'' (PDict [])) ''node_id'' PNone)"

text \<open>
  \<open>_handle_rfcomm_client\<close> once the data is parsed: register the peer, hand the message to
  the mesh (the only callback), reply.  The whole body is under one \<open>try\<close>: an exception
  means that no reply is sent, and is the result here.
\<close>

definition handle_rfcomm_client :: "(pyval \<Rightarrow> (pyval \<Rightarrow> string \<Rightarrow> unit result) option) \<Rightarrow> real \<Rightarrow> string \<Rightarrow> pyobj \<Rightarrow> unit mact" where
  "handle_rfcomm_client hs now mac cap =
     sx_bind (sx_get ms_id) (\<lambda>me.
     sx_bind (sx_lift (rfcomm_peer_id cap)) (\<lambda>pid.
     sx_when (truthy pid \<and> pid \<noteq> PStr me)
       (sx_then (set_peer mac (peer_entry now mac pid cap))
       (sx_then (sx_lift (sliceable pid)) (on_receive hs now cap mac)))))"

text \<open>The outbound probe: the same, for the capabilities the other side answers with.\<close>

definition try_rfcomm_connect :: "(pyval \<Rightarrow> (pyval \<Rightarrow> string \<Rightarrow> unit result) option) \<Rightarrow> real \<Rightarrow> string \<Rightarrow> pyobj \<Rightarrow> unit mact" where
  "try_rfcomm_connect hs now addr cap =
     sx_bind (sx_get ms_id) (\<lambda>me.
     let pid = oget cap ''node_id'' in
     sx_when (truthy pid \<and> pid \<noteq> PStr me)
       (sx_then (set_peer addr (peer_entry now addr pid cap))
       (sx_then (sx_lift (sliceable pid)) (on_receive hs now cap addr))))"

definition add_static_peer :: "real \<Rightarrow> string \<Rightarrow> string \<Rightarrow> unit mact" where
  "add_static_peer now mac nid = set_peer mac (peer_entry now mac (PStr nid) [])"

section \<open>Discovery over the mesh\<close>

text \<open>\<open>handle_announce\<close>, registered for ANNOUNCE; \<open>on_discover\<close> is then called with the entry.\<close>

definition handle_announce :: "real \<Rightarrow> string \<Rightarrow> pyval \<Rightarrow> string \<Rightarrow> ((pyval, pyobj) pydict, unit) sx" where
  "handle_announce now me payload frm =
     sx_bind (sx_lift (pget payload ''node_id'' PNone)) (\<lambda>nid.
     sx_when (truthy nid \<and> nid \<noteq> PStr me)
       (sx_bind (sx_lift (pget payload ''roles'' (PList [PStr ''worker'']))) (\<lambda>roles.
        sx_bind (sx_lift (hkey nid)) (\<lambda>k.
        sx_then (sx_modify (dset k [(''caps'', payload), (''addr'', PStr frm),
            (''transport'', PStr ''bluetooth''), (''roles'', roles), (''last_seen'', PFloat now)]))
          (sx_lift (sliceable nid))))))"

definition bt_start :: "real \<Rightarrow> string \<Rightarrow> pyval \<Rightarrow> unit mact" where
  "bt_start now uid cap = mesh_broadcast now uid ''ANNOUNCE'' cap ''ALL''"

definition bt_broadcast_intent :: "real \<Rightarrow> string \<Rightarrow> pyval \<Rightarrow> unit mact" where
  "bt_broadcast_intent now uid intent = mesh_broadcast now uid ''INTENT'' intent ''ALL''"

section \<open>A message id is acted on once per time-to-live\<close>

definition clash :: "mesh_ev \<Rightarrow> mesh_ev \<Rightarrow> bool" where
  "clash e1 e2 = (case e2 of
       Broadcast m \<Rightarrow> False
     | Relayed m \<Rightarrow> (case e1 of Delivered t p f \<Rightarrow> False | _ \<Rightarrow> True)
     | Delivered t p f \<Rightarrow> True)"

lemma clash_simps [simp]:
  "\<not> clash e (Broadcast m)" "\<not> clash (Delivered t p f) (Relayed m)" "clash e (Delivered t p f)"
  "clash (Broadcast m') (Relayed m)" "clash (Relayed m') (Relayed m)"
  by (simp_all add: clash_def)

fun gap :: "real \<times> pyval \<times> mesh_ev \<Rightarrow> real \<times> pyval \<times> mesh_ev \<Rightarrow> bool" where
  "gap (t1, k1, e1) (t2, k2, e2) = (k1 = k2 \<and> clash e1 e2 \<longrightarrow> SEEN_CACHE_TTL \<le> t2 - t1)"

text \<open>Every event of the last time-to-live has its id in the cache, with no older time.\<close>

definition cache_ok :: "real \<Rightarrow> mesh \<Rightarrow> bool" where
  "cache_ok now s \<longleftrightarrow> distinct (dkeys (ms_seen s)) \<and> sorted_wrt gap (ms_log s) \<and>
     (\<forall>(t, k, e) \<in> set (ms_log s). t \<le> now \<and>
        (now - t < SEEN_CACHE_TTL \<longrightarrow> (\<exists>t'. dget (ms_seen s) k = Some t' \<and> t \<le> t')))"

lemma cache_ok_later: "cache_ok t0 s \<Longrightarrow> t0 \<le> now \<Longrightarrow> cache_ok now s"
  by (fastforce simp: cache_ok_def)

lemma cache_ok_peers [simp]:
  "cache_ok now (s\<lparr>ms_peers := p\<rparr>) = cache_ok now s" "cache_ok now (s\<lparr>ms_out := out\<rparr>) = cache_ok now s"
  by (simp_all add: cache_ok_def)

lemma cache_ok_clean:
  "cache_ok now s \<Longrightarrow> cache_ok now (s\<lparr>ms_seen := clean_seen now (ms_seen s)\<rparr>)"
  by (fastforce simp: cache_ok_def clean_seen_def dget_dfilter distinct_dkeys_dfilter)

lemma cache_ok_mark: "cache_ok now s \<Longrightarrow> cache_ok now (s\<lparr>ms_seen := dset k now (ms_seen s)\<rparr>)"
  by (fastforce simp: cache_ok_def dict_inv)

lemma not_seen_gap:
  assumes "cache_ok now s" and "\<not> din k (clean_seen now (ms_seen s))" and "(t, k, e) \<in> set (ms_log s)"
  shows "SEEN_CACHE_TTL \<le> now - t"
proof (rule ccontr)
  assume "\<not> SEEN_CACHE_TTL \<le> now - t"
  then have "now - t < SEEN_CACHE_TTL" by simp
  then obtain t' where "dget (ms_seen s) k = Some t'" "t \<le> t'"
    using assms(1,3) by (fastforce simp: cache_ok_def)
  then have "dget (clean_seen now (ms_seen s)) k = Some t'"
    using assms(1) \<open>now - t < SEEN_CACHE_TTL\<close> by (simp add: clean_seen_def dget_dfilter cache_ok_def)
  with assms(2) show False by (simp add: din_def)
qed

text \<open>What an accepted message adds to the log.\<close>

lemma cache_ok_log:
  assumes "cache_ok now s" and "dget (ms_seen s) k = Some now"
    and "\<And>t e'. (t, k, e') \<in> set (ms_log s) \<Longrightarrow> clash e' e \<Longrightarrow> SEEN_CACHE_TTL \<le> now - t"
  shows "cache_ok now (s\<lparr>ms_log := ms_log s @ [(now, k, e)]\<rparr>)"
  using assms by (fastforce simp: cache_ok_def sorted_wrt_append)

definition accepted :: "real \<Rightarrow> pyval \<Rightarrow> mesh_ev \<Rightarrow> mesh \<Rightarrow> bool" where
  "accepted now k e s \<longleftrightarrow> cache_ok now s \<and> dget (ms_seen s) k = Some now \<and>
     (\<forall>(t, k', e') \<in> set (ms_log s). k' = k \<and> clash e' e \<longrightarrow> SEEN_CACHE_TTL \<le> now - t)"

lemma accepted_relay: "accepted now k (Delivered t p f) s \<Longrightarrow> accepted now k (Relayed m) s"
  unfolding accepted_def by (elim conjE, intro conjI) (auto simp: clash_def)

lemma accepted_delivered:
  "accepted now k (Delivered t p f) s \<Longrightarrow>
    accepted now k (Relayed m) (s\<lparr>ms_log := ms_log s @ [(now, k, Delivered t p f)]\<rparr>)"
  using accepted_relay[of now k t p f s m] cache_ok_log[of now s k "Delivered t p f"]
  by (fastforce simp: accepted_def)

lemma accepted_ok: "accepted now k e s \<Longrightarrow> cache_ok now s"
  by (simp add: accepted_def)

lemma log_relayed: "sx_triple (accepted now k (Relayed m)) (mesh_log now k (Relayed m)) (\<lambda>_. cache_ok now) E"
  unfolding mesh_log_def by (rule sx_triple_modify) (fastforce simp: accepted_def intro: cache_ok_log)

lemma send_message_ok: "sx_triple (cache_ok now) (send_message m) (\<lambda>_. cache_ok now) E"
  unfolding send_message_def by (rule sx_triple_modify) simp

lemma accept_mark:
  "sx_triple (cache_ok now) (is_seen now k)
     (\<lambda>dup s. cache_ok now s \<and> (\<not> dup \<longrightarrow> (\<forall>(t, k', e') \<in> set (ms_log s). k' = k \<longrightarrow> SEEN_CACHE_TTL \<le> now - t))) E"
  using not_seen_gap cache_ok_clean unfolding sx_triple_def is_seen_def by fastforce

lemma deliver_ok:
  "sx_triple (accepted now k (Delivered mt p frm)) (sx_then (mesh_log now k (Delivered mt p frm)) (sx_lift r))
     (\<lambda>_. accepted now k (Relayed m)) (cache_ok now)"
  unfolding mesh_log_def
  by (rule sx_triple_then [where R = "accepted now k (Relayed m)"], rule sx_triple_modify,
      erule accepted_delivered, rule sx_triple_lift) (auto dest: accepted_ok)

lemma on_receive_ok: "sx_keeps (cache_ok now) (on_receive hs now m frm)"
proof -
  define fresh where "fresh k = (\<lambda>s. cache_ok now s \<and> dget (ms_seen s) k = Some now \<and>
    (\<forall>(t, k', e') \<in> set (ms_log s). k' = k \<longrightarrow> SEEN_CACHE_TTL \<le> now - t))" for k
  have acc: "fresh k s \<Longrightarrow> accepted now k e s" for k e s by (auto simp: fresh_def accepted_def)
  have allacc: "\<forall>m. accepted now k (Relayed m) s \<Longrightarrow> cache_ok now s" for k s
    by (blast dest: accepted_ok)
  have mark: "sx_triple (\<lambda>s. cache_ok now s \<and>
       (\<forall>(t, k', e') \<in> set (ms_log s). k' = k \<longrightarrow> SEEN_CACHE_TTL \<le> now - t))
     (mark_seen now k) (\<lambda>_. fresh k) (cache_ok now)" for k
    unfolding mark_seen_def by (rule sx_triple_modify) (auto simp: fresh_def cache_ok_mark)
  have send: "sx_triple (\<lambda>s. \<forall>m. accepted now k (Relayed m) s)
     (sx_then (mesh_log now k (Relayed m')) (send_message m')) (\<lambda>_. cache_ok now) (cache_ok now)" for k m'
    by (rule sx_triple_then [where R = "cache_ok now"], rule sx_triple_conseq [OF log_relayed])
      (auto intro: send_message_ok)
  have relay: "sx_triple (\<lambda>s. \<forall>m. accepted now k (Relayed m) s)
     (sx_when b (sx_bind (sx_lift r) (\<lambda>m'. sx_then (mesh_log now k (Relayed m')) (send_message m'))))
     (\<lambda>_. cache_ok now) (cache_ok now)" for k b r
    by (rule sx_triple_when) (auto intro!: sx_triple_lift_bind send dest: accepted_ok)
  have handler: "sx_triple (fresh k) (sx_then (mesh_log now k (Delivered mt p frm)) (sx_lift r))
     (\<lambda>_ s. \<forall>m. accepted now k (Relayed m) s) (cache_ok now)" for k mt p r
    using deliver_ok[of now k mt p frm r] acc unfolding sx_triple_def
    by (fastforce split: prod.splits sum.splits)
  have deliver: "sx_triple (fresh k) (sx_when b (sx_bind (sx_lift r) (\<lambda>t. case hs t of None \<Rightarrow> sx_return ()
       | Some h \<Rightarrow> sx_bind (sx_lift r') (\<lambda>p. sx_then (mesh_log now k (Delivered mt p frm)) (sx_lift (h p frm))))))
     (\<lambda>_ s. \<forall>m. accepted now k (Relayed m) s) (cache_ok now)" for k b r r' mt
    by (intro sx_triple_when sx_triple_lift_bind)
      (auto intro!: sx_triple_return acc handler sx_triple_lift_bind dest: acc [THEN accepted_ok]
        split: option.splits)
  show ?thesis
    unfolding sx_triple_keeps [symmetric] on_receive_def Let_def
    by (rule sx_triple_get_bind)
      (auto intro!: sx_triple_return sx_triple_lift_bind sx_triple_bind [OF accept_mark]
        sx_triple_conseq [OF sx_triple_then [OF mark sx_triple_then [OF deliver
          sx_triple_lift_bind [OF _ relay]]]] dest: accepted_ok allacc)
qed

section \<open>Runs of one node\<close>

datatype mesh_op =
    BroadcastOp real string string pyval string
  | ReceiveOp real pyobj string
  | RfcommOp real string pyobj
  | ProbeOp real string pyobj
  | StaticOp real string string

fun mop_time :: "mesh_op \<Rightarrow> real" where
  "mop_time (BroadcastOp t _ _ _ _) = t"
| "mop_time (ReceiveOp t _ _) = t"
| "mop_time (RfcommOp t _ _) = t"
| "mop_time (ProbeOp t _ _) = t"
| "mop_time (StaticOp t _ _) = t"

fun mesh_step :: "(pyval \<Rightarrow> (pyval \<Rightarrow> string \<Rightarrow> unit result) option) \<Rightarrow> mesh_op \<Rightarrow> mesh \<Rightarrow> mesh" where
  "mesh_step hs (BroadcastOp now uid ty p dest) s = snd (mesh_broadcast now uid ty p dest s)"
| "mesh_step hs (ReceiveOp now m frm) s = snd (on_receive hs now m frm s)"
| "mesh_step hs (RfcommOp now mac cap) s = snd (handle_rfcomm_client hs now mac cap s)"
| "mesh_step hs (ProbeOp now addr cap) s = snd (try_rfcomm_connect hs now addr cap s)"
| "mesh_step hs (StaticOp now mac nid) s = snd (add_static_peer now mac nid s)"

lemma set_peer_keeps [inv_intros]: "sx_keeps (cache_ok now) (set_peer a e)"
  unfolding set_peer_def by (rule sx_keeps_modify) simp

lemma broadcast_keeps [inv_intros]: "sx_keeps (cache_ok now) (mesh_broadcast now uid ty p dest)"
proof -
  have "cache_ok now s \<Longrightarrow> cache_ok now (s\<lparr>ms_seen := dset (PStr uid) now (ms_seen s),
      ms_log := ms_log s @ [(now, PStr uid, Broadcast m)]\<rparr>)" for s m
    using cache_ok_log[of now "s\<lparr>ms_seen := dset (PStr uid) now (ms_seen s)\<rparr>" "PStr uid" "Broadcast m"]
      cache_ok_mark[of now s "PStr uid"] by simp
  then show ?thesis
    by (simp add: sx_keeps_def mesh_broadcast_def sx_defs mark_seen_def mesh_log_def send_message_def Let_def)
qed

lemma mesh_step_ok: "cache_ok (mop_time op) s \<Longrightarrow> cache_ok (mop_time op) (mesh_step hs op s)"
proof -
  have "sx_keeps (cache_ok t) (handle_rfcomm_client hs t mac cap)" for t mac cap
    unfolding handle_rfcomm_client_def by (intro inv_intros on_receive_ok)
  moreover have "sx_keeps (cache_ok t) (try_rfcomm_connect hs t a cap)" for t a cap
    unfolding try_rfcomm_connect_def Let_def by (intro inv_intros on_receive_ok)
  moreover have "sx_keeps (cache_ok t) (add_static_peer t mac nid)" for t mac nid
    unfolding add_static_peer_def by (intro inv_intros)
  ultimately show "cache_ok (mop_time op) s \<Longrightarrow> cache_ok (mop_time op) (mesh_step hs op s)"
    using on_receive_ok broadcast_keeps unfolding sx_keeps_def by (cases op) auto
qed

lemma mesh_run_ok:
  "sorted (map mop_time ops) \<Longrightarrow> cache_ok t0 s \<Longrightarrow> (\<And>op. op \<in> set ops \<Longrightarrow> t0 \<le> mop_time op) \<Longrightarrow>
    \<exists>t. cache_ok t (fold (mesh_step hs) ops s)"
proof (induction ops arbitrary: s t0)
  case Nil
  then show ?case by auto
next
  case (Cons op ops)
  have "cache_ok (mop_time op) s" using Cons.prems(2,3) by (auto intro: cache_ok_later)
  then have ok: "cache_ok (mop_time op) (mesh_step hs op s)" by (rule mesh_step_ok)
  show ?case
    using Cons.IH[OF _ ok] Cons.prems(1) by auto
qed

lemma cache_ok_new: "cache_ok t (new_mesh i)"
  by (simp add: cache_ok_def new_mesh_def)

section \<open>The network\<close>

text \<open>
  Nodes numbered by naturals; a message one of them has sent can reach any node, any number
  of times and in any order, through the RFCOMM exchange.  What arrives otherwise are
  capability dictionaries, which carry no message id.
\<close>

inductive net_step :: "(pyval \<Rightarrow> (pyval \<Rightarrow> string \<Rightarrow> unit result) option) \<Rightarrow> (nat \<Rightarrow> mesh) \<Rightarrow> (nat \<Rightarrow> mesh) \<Rightarrow> bool"
  for hs where
  bcast: "net_step hs nd (nd(i := snd (mesh_broadcast now uid ty p dest (nd i))))"
| recv: "(a, m) \<in> set (ms_out (nd j)) \<Longrightarrow> net_step hs nd (nd(i := snd (handle_rfcomm_client hs now mac m (nd i))))"
| caps_in: "\<not> truthy (oget cap ''msg_id'') \<Longrightarrow> net_step hs nd (nd(i := snd (handle_rfcomm_client hs now mac cap (nd i))))"
| caps_out: "\<not> truthy (oget cap ''msg_id'') \<Longrightarrow> net_step hs nd (nd(i := snd (try_rfcomm_connect hs now mac cap (nd i))))"
| static: "net_step hs nd (nd(i := snd (add_static_peer now mac nid (nd i))))"

inductive net_reach :: "(pyval \<Rightarrow> (pyval \<Rightarrow> string \<Rightarrow> unit result) option) \<Rightarrow> (nat \<Rightarrow> mesh) \<Rightarrow> bool" for hs where
  start: "(\<And>i. ms_out (nd i) = []) \<Longrightarrow> net_reach hs nd"
| step: "net_reach hs nd \<Longrightarrow> net_step hs nd nd' \<Longrightarrow> net_reach hs nd'"

inductive_cases net_stepE: "net_step hs nd nd'"

definition hop_ok :: "pyobj \<Rightarrow> bool" where
  "hop_ok m \<longleftrightarrow> (\<exists>h sb. dget m ''hop_count'' = Some (PInt h) \<and> 0 \<le> h \<and> h \<le> MAX_HOPS \<and>
     dget m ''max_hops'' = Some (PInt MAX_HOPS) \<and> dget m ''seen_by'' = Some (PList (map PStr sb)) \<and>
     distinct sb \<and> int (length sb) \<le> h + 1)"

definition out_ok :: "mesh \<Rightarrow> bool" where
  "out_ok s \<longleftrightarrow> list_all (\<lambda>(a, m). hop_ok m) (ms_out s)"

lemma hop_ok_envelope: "hop_ok (envelope me now uid ty p dest)"
proof -
  have "dget (envelope me now uid ty p dest) ''seen_by'' = Some (PList (map PStr [me]))"
    by (simp add: envelope_def)
  moreover have "dget (envelope me now uid ty p dest) ''hop_count'' = Some (PInt 0)"
    "dget (envelope me now uid ty p dest) ''max_hops'' = Some (PInt MAX_HOPS)"
    by (simp_all add: envelope_def)
  ultimately show ?thesis
    unfolding hop_ok_def MAX_HOPS_def by (intro exI[of _ 0] exI[of _ "[me]"]) simp
qed

lemma hop_ok_relay:
  assumes "hop_ok m" and "relay_msg me m = Inr m'"
    and "py_lt (dgetd m ''hop_count'' (PInt 0)) (dgetd m ''max_hops'' (PInt MAX_HOPS)) = Inr True"
  shows "hop_ok m'"
proof -
  obtain h sb where m: "dget m ''hop_count'' = Some (PInt h)" "0 \<le> h"
    "dget m ''max_hops'' = Some (PInt MAX_HOPS)" "dget m ''seen_by'' = Some (PList (map PStr sb))"
    "distinct sb" "int (length sb) \<le> h + 1"
    using assms(1) unfolding hop_ok_def by (elim exE conjE) (rule that)
  have h: "h < MAX_HOPS" using assms(3) m by (simp add: dgetd_def)
  let ?m = "dset ''hop_count'' (PInt (h + 1)) m"
  have m': "m' = (if me \<in> set sb then ?m else dset ''seen_by'' (PList (map PStr (sb @ [me]))) ?m)"
  proof -
    have "relay_msg me m = add_seen_by me ?m" using m(1) by (simp add: relay_msg_def oindex_def)
    moreover have "add_seen_by me ?m = Inr (if me \<in> set sb then ?m
        else dset ''seen_by'' (PList (map PStr (sb @ [me]))) ?m)"
      using m(4) by (auto simp: add_seen_by_def oindex_def)
    ultimately show ?thesis using assms(2) by simp
  qed
  show ?thesis
  proof (cases "me \<in> set sb")
    case True
    then have "hop_ok ?m" using m h unfolding hop_ok_def by (intro exI[of _ "h + 1"] exI[of _ sb]) simp
    with m' True show ?thesis by simp
  next
    case False
    then have "hop_ok m'" using m h m' unfolding hop_ok_def
      by (intro exI[of _ "h + 1"] exI[of _ "sb @ [me]"]) simp
    then show ?thesis .
  qed
qed

lemma out_ok_simps [simp]:
  "out_ok (s\<lparr>ms_seen := x\<rparr>) = out_ok s" "out_ok (s\<lparr>ms_log := l\<rparr>) = out_ok s"
  "out_ok (s\<lparr>ms_peers := p\<rparr>) = out_ok s"
  by (simp_all add: out_ok_def)

lemma out_ok_atoms [inv_intros]:
  "sx_keeps out_ok (is_seen now k)" "sx_keeps out_ok (mark_seen now k)"
  "sx_keeps out_ok (mesh_log now k e)" "sx_keeps out_ok (set_peer a e')"
  by (simp_all add: sx_keeps_def is_seen_def mark_seen_def mesh_log_def set_peer_def sx_defs)

lemma out_ok_send: "hop_ok m \<Longrightarrow> sx_keeps out_ok (send_message m)"
  by (auto simp: sx_keeps_def send_message_def sx_defs out_ok_def list_all_iff)

lemma out_ok_receive:
  assumes "hop_ok m \<or> \<not> truthy (oget m ''msg_id'')"
  shows "sx_keeps out_ok (on_receive hs now m frm)"
proof (cases "truthy (oget m ''msg_id'')")
  case True
  with assms have m: "hop_ok m" by simp
  have r: "sx_keeps out_ok (sx_bind (sx_lift (py_lt (dgetd m ''hop_count'' (PInt 0)) (dgetd m ''max_hops'' (PInt MAX_HOPS))))
      (\<lambda>more. sx_when (more \<and> b) (sx_bind (sx_lift (relay_msg me m))
         (\<lambda>m'. sx_then (mesh_log now k (Relayed m')) (send_message m')))))" for b me k
  proof (rule sx_keeps_lift_bind)
    fix more assume lt: "py_lt (dgetd m ''hop_count'' (PInt 0)) (dgetd m ''max_hops'' (PInt MAX_HOPS)) = Inr more"
    show "sx_keeps out_ok (sx_when (more \<and> b) (sx_bind (sx_lift (relay_msg me m))
         (\<lambda>m'. sx_then (mesh_log now k (Relayed m')) (send_message m'))))"
      using lt hop_ok_relay[OF m] unfolding sx_when_def
      by (auto intro!: inv_intros sx_keeps_lift_bind out_ok_send)
  qed
  show ?thesis
    unfolding on_receive_def Let_def
    by (intro inv_intros r) (auto intro!: inv_intros split: option.splits)
next
  case False
  then show ?thesis by (simp add: on_receive_def sx_keeps_def sx_defs Let_def)
qed

lemma out_ok_broadcast: "sx_keeps out_ok (mesh_broadcast now uid ty p dest)"
  unfolding mesh_broadcast_def Let_def by (intro inv_intros out_ok_send hop_ok_envelope)

lemma out_ok_rfcomm:
  "hop_ok m \<or> \<not> truthy (oget m ''msg_id'') \<Longrightarrow> sx_keeps out_ok (handle_rfcomm_client hs now mac m)"
  "hop_ok m \<or> \<not> truthy (oget m ''msg_id'') \<Longrightarrow> sx_keeps out_ok (try_rfcomm_connect hs now mac m)"
  unfolding handle_rfcomm_client_def try_rfcomm_connect_def Let_def
  by (intro inv_intros out_ok_receive; assumption)+

lemma net_step_ok:
  assumes "net_step hs nd nd'" and ok: "\<And>i. out_ok (nd i)"
  shows "out_ok (nd' i)"
  using assms(1)
proof (cases rule: net_step.cases)
  case (recv a m j i' now mac)
  from recv(2) ok[of j] have "hop_ok m" by (auto simp: out_ok_def list_all_iff)
  then show ?thesis using recv(1) ok out_ok_rfcomm(1) by (simp add: sx_keepsD)
next
  case (static i' now mac nid)
  moreover have "sx_keeps out_ok (add_static_peer now mac nid)"
    unfolding add_static_peer_def by (intro inv_intros)
  ultimately show ?thesis using ok by (simp add: sx_keepsD)
qed (use ok out_ok_broadcast out_ok_rfcomm in \<open>simp_all add: sx_keepsD\<close>)

lemma net_reach_ok: "net_reach hs nd \<Longrightarrow> out_ok (nd i)"
proof (induction arbitrary: i rule: net_reach.induct)
  case (start nd)
  then show ?case by (simp add: out_ok_def)
next
  case (step nd nd')
  from step.hyps(2) step.IH show ?case by (rule net_step_ok)
qed

section \<open>Properties\<close>



text \<open>
  Hop bound: in every reachable state of the network, whatever the order, the
  duplication and the routes of the messages, each message on its way has a hop count of at
  most 5, and the nodes listed in its \<open>seen_by\<close> are distinct and at most one more than
  the hops: flooding ends.
\<close>
theorem mesh_hop_bound:
  assumes "net_reach hs nd" and "(a, m) \<in> set (ms_out (nd i))"
  shows "\<exists>h sb. dget m ''hop_count'' = Some (PInt h) \<and> 0 \<le> h \<and> h \<le> 5 \<and>
    dget m ''seen_by'' = Some (PList (map PStr sb)) \<and> distinct sb \<and> int (length sb) \<le> h + 1"
proof -
  have "hop_ok m" using net_reach_ok[OF assms(1), of i] assms(2) by (auto simp: out_ok_def list_all_iff)
  then show ?thesis unfolding hop_ok_def MAX_HOPS_def by blast
qed

theorem mesh_hop_bound_witness:
  "\<exists>(nd :: nat \<Rightarrow> mesh) m. (''mac'', m) \<in> set (ms_out (nd 0)) \<and> (\<exists>h. dget m ''hop_count'' = Some (PInt h) \<and> h \<le> 5)"
proof -
  let ?s = "(new_mesh ''a'')\<lparr>ms_peers := [(''mac'', [])]\<rparr>"
  let ?nd = "\<lambda>i::nat. ?s"
  let ?nd' = "?nd(0 := snd (mesh_broadcast 1 ''u'' ''ANNOUNCE'' PNone ''ALL'' ?s))"
  let ?m = "envelope ''a'' 1 ''u'' ''ANNOUNCE'' PNone ''ALL''"
  have "net_reach (\<lambda>_. None) ?nd" by (rule net_reach.start) (simp add: new_mesh_def)
  then have r: "net_reach (\<lambda>_. None) ?nd'" by (rule net_reach.step) (rule net_step.bcast)
  have "ms_out (?nd' 0) = [(''mac'', ?m)]"
    by (simp add: mesh_broadcast_def sx_defs mark_seen_def mesh_log_def send_message_def new_mesh_def Let_def)
  then have m: "(''mac'', ?m) \<in> set (ms_out (?nd' 0))" by simp
  from mesh_hop_bound[OF r m] have "\<exists>h. dget ?m ''hop_count'' = Some (PInt h) \<and> h \<le> 5" by blast
  with m show ?thesis by (intro exI[of _ ?nd'] exI[of _ ?m] conjI)
qed

text \<open>
  What the RFCOMM server does with an envelope of the mesh: when the payload names no
  node id - every INTENT the node broadcasts, unless the intent happens to have that key -
  the message is dropped before the mesh sees it, and when the payload names a node \<open>c\<close>,
  the address the message came from is registered as node \<open>c\<close>, whoever relayed it.
\<close>
theorem rfcomm_envelope:
  "(\<not> truthy (oget p ''node_id'') \<longrightarrow>
      handle_rfcomm_client hs now mac (envelope b t uid ty (PDict p) dest) s = (Inr (), s)) \<and>
   (oget p ''node_id'' = PStr c \<and> c \<noteq> [] \<and> c \<noteq> ms_id s \<longrightarrow>
      dget (ms_peers (snd (handle_rfcomm_client hs now mac (envelope b t uid ty (PDict p) dest) s))) mac =
        Some (peer_entry now mac (PStr c) (envelope b t uid ty (PDict p) dest)))"
proof -
  let ?m = "envelope b t uid ty (PDict p) dest"
  have m: "oget ?m ''node_id'' = PNone" "dgetd ?m ''payload'' (PDict []) = PDict p"
    "dgetd ?m ''caps'' (PDict []) = PDict []"
    by (simp_all add: envelope_def oget_def dgetd_def)
  have p: "pget (PDict p) ''node_id'' PNone = Inr (oget p ''node_id'')" by (simp add: oget_def)
  have drop: "handle_rfcomm_client hs now mac ?m s = (Inr (), s)" if "\<not> truthy (oget p ''node_id'')"
  proof -
    have "rfcomm_peer_id ?m = Inr PNone" using that m p by (simp add: rfcomm_peer_id_def dgetd_def)
    then show ?thesis by (simp add: handle_rfcomm_client_def sx_defs)
  qed
  have peers: "sx_keeps (\<lambda>s. dget (ms_peers s) mac = Some x) (on_receive hs now ?m mac)" for x
    unfolding on_receive_def Let_def
    by (intro inv_intros; auto simp: is_seen_def mark_seen_def mesh_log_def send_message_def sx_keeps_def sx_defs
        split: option.splits sum.splits)
  have reg: "dget (ms_peers (snd (handle_rfcomm_client hs now mac ?m s))) mac = Some (peer_entry now mac (PStr c) ?m)"
    if c: "oget p ''node_id'' = PStr c" "c \<noteq> []" "c \<noteq> ms_id s"
  proof -
    have "rfcomm_peer_id ?m = Inr (PStr c)" using c m p by (simp add: rfcomm_peer_id_def)
    then show ?thesis
      using c(2,3) sx_keepsD[OF peers, of "s\<lparr>ms_peers := dset mac (peer_entry now mac (PStr c) ?m) (ms_peers s)\<rparr>"]
      by (simp add: handle_rfcomm_client_def sx_defs set_peer_def sliceable_def)
  qed
  show ?thesis using drop reg by blast
qed

theorem rfcomm_envelope_witness:
  "handle_rfcomm_client (\<lambda>_. Some (\<lambda>_ _. Inr ())) 5 ''00:11''
     (envelope ''b'' 4 ''u1'' ''INTENT'' (PDict [(''goal'', PStr ''monitor'')]) ''ALL'') (new_mesh ''me'') =
   (Inr (), new_mesh ''me'')"
  by (rule rfcomm_envelope [THEN conjunct1, THEN mp]) (simp add: oget_def dgetd_def)

end
