(* ===== verification/Peers.thy ===== *)
theory Peers
  imports Kademlia
begin

text \<open>
  The peer tables beside the DHT: \<open>swarm/peer_registry.py\<close>, \<open>swarm/discovery.py\<close> (UDP
  announcements), \<open>swarm/peer_server.py\<close> and \<open>swarm/peer_client.py\<close> (the pull exchange over
  TCP), and \<open>swarm/result_collector.py\<close>.  Sockets are outside: what a connection delivers is
  the list of chunks that \<open>recv\<close> returned, and \<open>loads\<close> is \<open>json.loads\<close> after \<open>decode\<close>.
  Shown: eviction keeps exactly the peers heard of in time, in every table, the retry loop of
  the client ends when every peer answers once, and what stops the result collector.
\<close>

section \<open>The registry\<close>

record reg_entry =
  re_caps :: pyobj
  re_addr :: string
  re_roles :: pyval
  re_seen :: real

definition reg_obj :: "reg_entry \<Rightarrow> pyobj" where
  "reg_obj e = [(''caps'', PDict (re_caps e)), (''addr'', PStr (re_addr e)), (''roles'', re_roles e),
     (''last_seen'', PFloat (re_seen e))]"

type_synonym registry = "(string, reg_entry) pydict"

text \<open>Registering also mirrors the entry into the DHT node's known peers.\<close>

definition reg_register :: "real \<Rightarrow> string \<Rightarrow> pyobj \<Rightarrow> string \<Rightarrow> registry \<times> knode \<Rightarrow> registry \<times> knode" where
  "reg_register now i caps addr s =
     (let e = \<lparr>re_caps = caps, re_addr = addr, re_roles = dgetd caps ''roles'' (PList [PStr ''worker'']),
               re_seen = now\<rparr>
      in (dset i e (fst s), snd (register_peer (PStr i) (reg_obj e) '''' (snd s))))"

definition reg_get_all :: "registry \<Rightarrow> registry" where "reg_get_all r = r"

definition reg_get_workers :: "registry \<Rightarrow> reg_entry list result" where
  "reg_get_workers r =
     bindE (mapE (\<lambda>v. bindE (py_in ''worker'' (re_roles v)) (\<lambda>b. Inr (v, b))) (dvals r))
       (\<lambda>vs. Inr (map fst (filter snd vs)))"

definition reg_evict_stale :: "real \<Rightarrow> real \<Rightarrow> registry \<Rightarrow> registry" where
  "reg_evict_stale timeout now r = dfilter (\<lambda>k v. \<not> now - re_seen v > timeout) r"

interpretation reg: aged_table dget re_seen reg_evict_stale "\<lambda>r. distinct (dkeys r)"
  by unfold_locales
    (auto simp: reg_evict_stale_def dget_dfilter distinct_dkeys_dfilter split: option.splits)

section \<open>UDP discovery\<close>

definition PEER_TIMEOUT :: real where "PEER_TIMEOUT = 15"
definition SUBNET_BROADCAST :: string where "SUBNET_BROADCAST = ''192.168.1.255''"

record disc_entry =
  de_caps :: pyval
  de_addr :: string
  de_seen :: real

type_synonym disc_nodes = "(pyval, disc_entry) pydict"

definition add_known_peer :: "real \<Rightarrow> string \<Rightarrow> disc_nodes \<Rightarrow> disc_nodes" where
  "add_known_peer now ip ns =
     (if ip \<in> set (map de_addr (dvals ns)) then ns
      else dsetdefault (PStr (''static:'' @ ip)) \<lparr>de_caps = PDict [], de_addr = ip, de_seen = now\<rparr> ns)"

text \<open>The destinations of one announcement: the two broadcast addresses, then each peer once.\<close>

definition broadcast_targets :: "disc_nodes \<Rightarrow> string list" where
  "broadcast_targets ns = fold (\<lambda>ip ts. if ip \<in> set ts then ts else ts @ [ip]) (map de_addr (dvals ns))
     [''255.255.255.255'', SUBNET_BROADCAST]"

definition disc_evict :: "real \<Rightarrow> real \<Rightarrow> disc_nodes \<Rightarrow> disc_nodes" where
  "disc_evict timeout now ns = dfilter (\<lambda>k v. \<not> now - de_seen v > timeout) ns"

definition on_announce_msg :: "string \<Rightarrow> real \<Rightarrow> pyval \<Rightarrow> string \<Rightarrow> (disc_nodes, unit) sx" where
  "on_announce_msg my_id now msg ip =
     sx_bind (sx_lift (pget msg ''type'' PNone)) (\<lambda>ty.
     sx_when (ty = PStr ''announce'')
       (sx_bind (sx_lift (pindex msg ''caps'')) (\<lambda>caps.
        sx_bind (sx_lift (pget caps ''node_id'' PNone)) (\<lambda>pid.
        sx_when (truthy pid \<and> pid \<noteq> PStr my_id)
          (sx_bind (sx_lift (hkey pid)) (\<lambda>k.
           sx_modify (dset k \<lparr>de_caps = caps, de_addr = ip, de_seen = now\<rparr>)))))))"

text \<open>
  One turn of the listener: \<open>None\<close> is the socket timeout; every exception of the handling is
  caught; the stale peers are dropped in every turn.
\<close>

definition disc_listen_step :: "(string \<Rightarrow> pyval result) \<Rightarrow> string \<Rightarrow> real \<Rightarrow> (string \<times> string) option \<Rightarrow>
    disc_nodes \<Rightarrow> disc_nodes" where
  "disc_listen_step loads my_id now pkt ns =
     disc_evict PEER_TIMEOUT now
       (case pkt of
          None \<Rightarrow> ns
        | Some (data, ip) \<Rightarrow> (case loads data of Inl e \<Rightarrow> ns | Inr msg \<Rightarrow> snd (on_announce_msg my_id now msg ip ns)))"

interpretation disc: aged_table dget de_seen disc_evict "\<lambda>ns. distinct (dkeys ns)"
  by unfold_locales
    (auto simp: disc_evict_def dget_dfilter distinct_dkeys_dfilter split: option.splits)

section \<open>The capability exchange over TCP\<close>

type_synonym srv_nodes = "(pyval, pyobj) pydict"

definition caps_default :: "pyobj \<Rightarrow> string \<Rightarrow> pyval \<Rightarrow> pyval" where
  "caps_default caps k d = dgetd caps k d"

definition peer_obj :: "real \<Rightarrow> pyval \<Rightarrow> pyobj \<Rightarrow> string \<Rightarrow> pyobj" where
  "peer_obj now i caps addr =
     [(''node_id'', i),
      (''caps'', PDict [(''ram_gb'', caps_default caps ''ram_gb'' (PInt 0)),
                        (''cpu_cores'', caps_default caps ''cpu_cores'' (PInt 0)),
                        (''roles'', caps_default caps ''roles'' (PList [PStr ''worker''])),
                        (''os'', caps_default caps ''os'' (PStr ''''))]),
      (''addr'', PStr addr),
      (''roles'', caps_default caps ''roles'' (PList [PStr ''worker''])),
      (''last_seen'', PFloat now)]"

definition add_peer :: "real \<Rightarrow> pyval \<Rightarrow> pyobj \<Rightarrow> string \<Rightarrow> (srv_nodes \<times> knode, unit) sx" where
  "add_peer now i caps addr =
     sx_bind (sx_lift (hkey i)) (\<lambda>k.
     let e = peer_obj now i caps addr in
     sx_modify (\<lambda>(ns, kn). (dset k e ns, snd (register_peer i e '''' kn))))"

text \<open>Reading to end of file, with the guard on the total size.\<close>

fun read_capped :: "nat \<Rightarrow> nat \<Rightarrow> string list \<Rightarrow> string result" where
  "read_capped maxb tot [] = Inr []"
| "read_capped maxb tot (c # cs) =
     (if c = [] then Inr []
      else if tot + length c > maxb then Inl (ValueError ''Peer caps payload too large'')
      else bindE (read_capped maxb (tot + length c) cs) (\<lambda>rest. Inr (c @ rest)))"

definition handle_client :: "(string \<Rightarrow> pyval result) \<Rightarrow> nat \<Rightarrow> real \<Rightarrow> string list \<Rightarrow> string \<Rightarrow> (srv_nodes \<times> knode, unit) sx" where
  "handle_client loads maxb now chunks ip =
     sx_bind (sx_lift (read_capped maxb 0 chunks)) (\<lambda>data.
     sx_when (data \<noteq> [])
       (sx_bind (sx_lift (loads data)) (\<lambda>caps.
        sx_bind (sx_lift (pget caps ''node_id'' PNone)) (\<lambda>i.
        sx_when (truthy i) (case caps of PDict d \<Rightarrow> add_peer now i d ip | _ \<Rightarrow> sx_return ())))))"

text \<open>
  \<open>connect_and_exchange\<close>: \<open>conn\<close> is what the connection delivers until the end of file, or
  \<open>OSError\<close>; \<open>_register\<close> swallows every exception.  A network error or bad JSON gives the
  empty dictionary, other exceptions propagate.
\<close>

definition connect_and_exchange :: "(string \<Rightarrow> pyval result) \<Rightarrow> real \<Rightarrow> string result \<Rightarrow> string \<Rightarrow>
    (srv_nodes \<times> knode, pyval) sx" where
  "connect_and_exchange loads now conn ip s = (case conn of
       Inl e \<Rightarrow> (Inr (PDict []), s)
     | Inr data \<Rightarrow>
        if data = [] then (Inr (PDict []), s)
        else (case loads data of
           Inl JSONDecodeError \<Rightarrow> (Inr (PDict []), s)
         | Inl e \<Rightarrow> (Inl e, s)
         | Inr (PDict caps) \<Rightarrow>
             (let i = oget caps ''node_id'' in
              (Inr (PDict caps), if truthy i then snd (add_peer now i caps ip s) else s))
         | Inr v \<Rightarrow> (Inl AttributeError, s)))"

text \<open>
  The retry loop: \<open>try r ip\<close> is the outcome of round \<open>r\<close> (whether the exchange returned a
  non-empty dictionary).  The loop has no other bound, so it takes fuel; the result is the
  list of the peers exchanged with, in order, and the number of rounds.
\<close>

definition exchange_round :: "(nat \<Rightarrow> string \<Rightarrow> bool) \<Rightarrow> nat \<Rightarrow> string list \<Rightarrow> string list" where
  "exchange_round answers r remaining = filter (\<lambda>ip. \<not> answers r ip) remaining"

fun exchange_loop :: "nat \<Rightarrow> (nat \<Rightarrow> string \<Rightarrow> bool) \<Rightarrow> nat \<Rightarrow> string list \<Rightarrow> (string list \<times> nat) option" where
  "exchange_loop fuel answers r [] = Some ([], r)"
| "exchange_loop 0 answers r (ip # ips) = None"
| "exchange_loop (Suc fuel) answers r (ip # ips) =
     (case exchange_loop fuel answers (Suc r) (exchange_round answers r (ip # ips)) of
        None \<Rightarrow> None
      | Some (done, n) \<Rightarrow> Some (filter (answers r) (ip # ips) @ done, n))"

definition exchange_with_all :: "nat \<Rightarrow> (nat \<Rightarrow> string \<Rightarrow> bool) \<Rightarrow> string \<Rightarrow> string list \<Rightarrow> (string list \<times> nat) option" where
  "exchange_with_all fuel answers own peer_ips = exchange_loop fuel answers 0 (filter (\<lambda>ip. ip \<noteq> own) peer_ips)"

section \<open>The result collector\<close>

type_synonym results = "(pyval, pyobj) pydict"

text \<open>
  One connection: only JSON errors and socket errors are caught, so that every other
  exception ends the listener (the second component says whether it is still alive).
\<close>

definition collector_step :: "(string \<Rightarrow> pyval result) \<Rightarrow> string result \<Rightarrow> results \<Rightarrow> results \<times> bool" where
  "collector_step loads conn rs = (case conn of
       Inl e \<Rightarrow> (rs, True)
     | Inr data \<Rightarrow>
        if data = [] then (rs, True)
        else (case loads data of
           Inl JSONDecodeError \<Rightarrow> (rs, True)
         | Inl e \<Rightarrow> (rs, False)
         | Inr (PDict msg) \<Rightarrow>
             if oget msg ''type'' \<noteq> PStr ''TASK_RESULT'' then (rs, True)
             else (case hkey (dgetd msg ''task_id'' (PStr ''unknown'')) of
                 Inl e \<Rightarrow> (rs, False)
               | Inr k \<Rightarrow> (dset k msg rs, True))
         | Inr v \<Rightarrow> (rs, False)))"

fun collector_run :: "(string \<Rightarrow> pyval result) \<Rightarrow> string result list \<Rightarrow> results \<Rightarrow> results \<times> bool" where
  "collector_run loads [] rs = (rs, True)"
| "collector_run loads (c # cs) rs =
     (case collector_step loads c rs of (rs', True) \<Rightarrow> collector_run loads cs rs' | (rs', False) \<Rightarrow> (rs', False))"

text \<open>
  \<open>wait_for_results\<close>: each turn reads a snapshot at some time; the loop returns the first
  that is large enough, or the one read at or after the deadline.
\<close>

fun wait_loop :: "real \<Rightarrow> nat \<Rightarrow> (real \<times> pyobj list) list \<Rightarrow> pyobj list option" where
  "wait_loop deadline expected [] = None"
| "wait_loop deadline expected ((now, cur) # polls) =
     (if length cur \<ge> expected then Some cur
      else if deadline - now \<le> 0 then Some cur
      else wait_loop deadline expected polls)"

section \<open>Lemmas\<close>

lemma exchange_loop_ends:
  "(\<forall>ip \<in> set ips. \<exists>r'. r \<le> r' \<and> r' < r + fuel \<and> answers r' ip) \<Longrightarrow>
    \<exists>got n. exchange_loop fuel answers r ips = Some (got, n) \<and> n \<le> r + fuel \<and> mset got = mset ips"
proof (induction fuel answers r ips rule: exchange_loop.induct)
  case (1 fuel answers r)
  then show ?case by simp
next
  case (2 answers r ip ips)
  then show ?case by auto
next
  case (3 fuel answers r ip ips)
  have "\<forall>ip' \<in> set (exchange_round answers r (ip # ips)).
      \<exists>r'. Suc r \<le> r' \<and> r' < Suc r + fuel \<and> answers r' ip'"
  proof
    fix ip' assume i: "ip' \<in> set (exchange_round answers r (ip # ips))"
    have "ip' \<in> set (ip # ips)" using i by (auto simp: exchange_round_def split: if_splits)
    then obtain r' where r': "r \<le> r'" "r' < r + Suc fuel" "answers r' ip'"
      using "3.prems" by blast
    moreover have "r' \<noteq> r" using i r'(3) by (auto simp: exchange_round_def split: if_splits)
    ultimately show "\<exists>r'. Suc r \<le> r' \<and> r' < Suc r + fuel \<and> answers r' ip'"
      by (intro exI[of _ r']) simp
  qed
  then obtain got n where g: "exchange_loop fuel answers (Suc r) (exchange_round answers r (ip # ips)) = Some (got, n)"
    "n \<le> Suc r + fuel" "mset got = mset (exchange_round answers r (ip # ips))"
    using "3.IH" by blast
  have "mset (filter (answers r) (ip # ips) @ got) = mset (ip # ips)"
    unfolding mset_append g(3) exchange_round_def by (simp only: mset_filter multiset_partition [symmetric])
  then show ?case using g(1,2) by simp
qed

lemma read_capped_ok:
  "[] \<notin> set cs \<Longrightarrow> read_capped maxb t cs =
    (if cs = [] \<or> t + length (concat cs) \<le> maxb then Inr (concat cs)
     else Inl (ValueError ''Peer caps payload too large''))"
proof (induction cs arbitrary: t)
  case Nil
  then show ?case by simp
next
  case (Cons c cs)
  then show ?case by (cases cs) (auto simp: add.assoc)
qed

text \<open>A connection the collector survives, and the message it then stores.\<close>

definition benign :: "(string \<Rightarrow> pyval result) \<Rightarrow> string result \<Rightarrow> bool" where
  "benign loads c = (case c of
       Inl e \<Rightarrow> True
     | Inr d \<Rightarrow> d = [] \<or> (case loads d of
           Inl e \<Rightarrow> e = JSONDecodeError
         | Inr v \<Rightarrow> is_dict v \<and> (case v of PDict m \<Rightarrow> oget m ''type'' = PStr ''TASK_RESULT'' \<longrightarrow>
               \<not> is_list (oget m ''task_id'') \<and> \<not> is_dict (oget m ''task_id'') | _ \<Rightarrow> False)))"

definition stored_msg :: "(string \<Rightarrow> pyval result) \<Rightarrow> string result \<Rightarrow> (pyval \<times> pyobj) option" where
  "stored_msg loads c = (case c of
       Inr d \<Rightarrow> if d = [] then None else (case loads d of
           Inr (PDict m) \<Rightarrow> if oget m ''type'' = PStr ''TASK_RESULT''
               then (case hkey (dgetd m ''task_id'' (PStr ''unknown'')) of Inr k \<Rightarrow> Some (k, m) | _ \<Rightarrow> None) else None
         | _ \<Rightarrow> None)
     | _ \<Rightarrow> None)"

lemma hkey_default: "\<not> is_list (oget m k) \<Longrightarrow> \<not> is_dict (oget m k) \<Longrightarrow> \<exists>h. hkey (dgetd m k (PStr d)) = Inr h"
  by (cases "dget m k") (auto simp: oget_def dgetd_def hkey_def)

lemma collector_step_benign:
  assumes "benign loads c"
  shows "collector_step loads c rs = ((case stored_msg loads c of None \<Rightarrow> rs | Some (k, m) \<Rightarrow> dset k m rs), True)"
proof (cases c)
  case (Inl e)
  then show ?thesis by (simp add: collector_step_def stored_msg_def)
next
  case (Inr d)
  show ?thesis
  proof (cases "d = []")
    case True
    with Inr show ?thesis by (simp add: collector_step_def stored_msg_def)
  next
    case False
    show ?thesis
    proof (cases "loads d")
      case (Inl e)
      with Inr False assms show ?thesis by (simp add: collector_step_def stored_msg_def benign_def)
    next
      case l: (Inr v)
      with Inr False assms obtain m where m: "v = PDict m"
        "oget m ''type'' = PStr ''TASK_RESULT'' \<longrightarrow> \<not> is_list (oget m ''task_id'') \<and> \<not> is_dict (oget m ''task_id'')"
        by (cases v) (auto simp: benign_def)
      show ?thesis
      proof (cases "oget m ''type'' = PStr ''TASK_RESULT''")
        case True
        then obtain h where "hkey (dgetd m ''task_id'' (PStr ''unknown'')) = Inr h"
          using m(2) hkey_default by blast
        with True Inr False l m(1) show ?thesis by (simp add: collector_step_def stored_msg_def)
      next
        case no: False
        with Inr False l m(1) show ?thesis by (simp add: collector_step_def stored_msg_def)
      qed
    qed
  qed
qed

lemma collector_run_benign:
  "list_all (benign loads) cs \<Longrightarrow> collector_run loads cs rs =
    (fold (\<lambda>c rs. case stored_msg loads c of None \<Rightarrow> rs | Some (k, m) \<Rightarrow> dset k m rs) cs rs, True)"
  by (induction cs arbitrary: rs) (simp_all add: collector_step_benign)

section \<open>Properties\<close>

text \<open>
  UDP discovery: after every turn of the listener each known peer has been heard of in
  the last 15 seconds, an announcement with a node id other than the own is in the table with
  its sender's address, and every other peer that is not silent for too long is still there.
\<close>
theorem discovery_turn:
  fixes ip now
  assumes "distinct (dkeys ns)" and "loads data = Inr (PDict msg)" and "oget msg ''type'' = PStr ''announce''"
    and "dget msg ''caps'' = Some (PDict caps)" and "oget caps ''node_id'' = PStr pid" and "pid \<noteq> []" and "pid \<noteq> my_id"
  defines "ns' \<equiv> disc_listen_step loads my_id now (Some (data, ip)) ns"
  shows "dget ns' (PStr pid) = Some \<lparr>de_caps = PDict caps, de_addr = ip, de_seen = now\<rparr> \<and>
    (\<forall>k v. dget ns' k = Some v \<longrightarrow> now - de_seen v \<le> 15) \<and>
    (\<forall>k v. k \<noteq> PStr pid \<and> dget ns k = Some v \<and> now - de_seen v \<le> 15 \<longrightarrow> dget ns' k = Some v)"
proof -
  let ?e = "\<lparr>de_caps = PDict caps, de_addr = ip, de_seen = now\<rparr>"
  have "on_announce_msg my_id now (PDict msg) ip ns = (Inr (), dset (PStr pid) ?e ns)"
    using assms(3-7) by (simp add: on_announce_msg_def sx_defs oget_def)
  then have ns': "ns' = disc_evict PEER_TIMEOUT now (dset (PStr pid) ?e ns)"
    using assms(2) by (simp add: ns'_def disc_listen_step_def)
  have d: "distinct (dkeys (dset (PStr pid) ?e ns))" using assms(1) by (simp add: dict_inv)
  show ?thesis
    unfolding ns'
    using disc.evict_fresh[OF d, of PEER_TIMEOUT now] disc.evict_keeps[OF d, of _ _ now PEER_TIMEOUT]
    by (simp add: PEER_TIMEOUT_def)
qed

theorem discovery_turn_witness:
  "dget (disc_listen_step (\<lambda>_. Inr (PDict [(''type'', PStr ''announce''), (''caps'', PDict [(''node_id'', PStr ''n2'')])]))
     ''n1'' 100 (Some (''..'', ''10.0.0.2'')) []) (PStr ''n2'') =
   Some \<lparr>de_caps = PDict [(''node_id'', PStr ''n2'')], de_addr = ''10.0.0.2'', de_seen = 100\<rparr>"
  by (rule discovery_turn [where msg = "[(''type'', PStr ''announce''), (''caps'', PDict [(''node_id'', PStr ''n2'')])]",
        THEN conjunct1])
    (simp_all add: oget_def dgetd_def)



text \<open>
  The result collector stores the latest message per task id as long as every connection
  delivers a JSON object (or breaks off, or is no JSON); one connection that delivers any
  other JSON value ends the listener, and no later result is collected.
\<close>
theorem collector_outcome:
  "(list_all (benign loads) cs \<longrightarrow> collector_run loads cs rs =
     (fold (\<lambda>c rs. case stored_msg loads c of None \<Rightarrow> rs | Some (k, m) \<Rightarrow> dset k m rs) cs rs, True)) \<and>
   (d \<noteq> [] \<and> loads d = Inr v \<and> \<not> is_dict v \<longrightarrow> collector_run loads (Inr d # cs) rs = (rs, False))"
  using collector_run_benign[of loads cs rs] by (cases v) (simp_all add: collector_step_def)

theorem collector_outcome_witness:
  "collector_run (\<lambda>_. Inr (PList [])) [Inr ''[]'', Inr ''{}''] [] = ([], False)"
  by (rule collector_outcome [where v = "PList []", THEN conjunct2, THEN mp]) simp

end
