(* ===== verification/Security.thy ===== *)
theory Security
  imports PyValue
begin

text \<open>
  \<open>security/crypto.py\<close> and \<open>security/handshake.py\<close>: message signatures, and the challenge and
  response protocol with its tables of trusted, blacklisted and challenged nodes.  The
  arguments \<open>hm\<close> (HMAC-SHA256 as a hexadecimal digest of key and text), \<open>dumps\<close>
  (\<open>json.dumps(..., sort_keys=True)\<close>), \<open>tostr\<close> (\<open>str\<close> of a value that is no string), the
  fresh nonce and the clock stand for the libraries the code calls.
\<close>

section \<open>State\<close>

record challenge =
  ch_nonce :: string
  ch_created :: real
  ch_answered :: bool

record nodesec =
  ns_id :: string
  ns_key :: string
  ns_trusted :: "(pyval, string) pydict"
  ns_black :: "pyval list"
  ns_chal :: "(pyval, challenge) pydict"

text \<open>The key file: its content when it can be read, and the fresh key otherwise.\<close>

definition load_or_generate_key :: "string option \<Rightarrow> string \<Rightarrow> string" where
  "load_or_generate_key file fresh = (case file of
       Some k \<Rightarrow> if length k = 32 then k else fresh
     | None \<Rightarrow> fresh)"

definition new_security :: "string \<Rightarrow> string \<Rightarrow> nodesec" where
  "new_security i key = \<lparr>ns_id = i, ns_key = key, ns_trusted = [], ns_black = [], ns_chal = []\<rparr>"

section \<open>Signatures\<close>

definition strip_sig :: "pyobj \<Rightarrow> pyobj" where
  "strip_sig m = ddel ''signed_by'' (ddel ''signature'' m)"

definition sign_message :: "(string \<Rightarrow> string \<Rightarrow> string) \<Rightarrow> (pyobj \<Rightarrow> string) \<Rightarrow> nodesec \<Rightarrow> pyobj \<Rightarrow> pyobj" where
  "sign_message hm dumps s m =
     (let sig = hm (ns_key s) (dumps (strip_sig m))
      in dset ''signed_by'' (PStr (ns_id s)) (dset ''signature'' (PStr sig) m))"

text \<open>
  \<open>hmac.compare_digest\<close> of a received value with a digest: it raises unless the value is a
  string of ASCII characters.
\<close>

definition is_ascii :: "string \<Rightarrow> bool" where
  "is_ascii s = list_all (\<lambda>c. (of_char c :: nat) < 128) s"

definition compare_digest :: "pyval \<Rightarrow> string \<Rightarrow> bool result" where
  "compare_digest v expected = (case v of
       PStr s \<Rightarrow> if is_ascii s \<and> is_ascii expected then Inr (s = expected) else Inl TypeError
     | _ \<Rightarrow> Inl TypeError)"

text \<open>The message is changed in place: the second component is the caller's dictionary afterwards.\<close>

definition verify_signature :: "(string \<Rightarrow> string \<Rightarrow> string) \<Rightarrow> (pyobj \<Rightarrow> string) \<Rightarrow> string \<Rightarrow> (pyobj, bool) sx" where
  "verify_signature hm dumps secret m =
     (let sig = oget m ''signature''; sby = oget m ''signed_by''; m' = strip_sig m in
      if \<not> truthy sig \<or> \<not> truthy sby then (Inr False, m')
      else let m'' = dset ''signed_by'' sby (dset ''signature'' sig m')
           in (compare_digest sig (hm secret (dumps m')), m''))"

section \<open>Challenge and response\<close>

definition create_challenge :: "string \<Rightarrow> real \<Rightarrow> string \<Rightarrow> nodesec \<Rightarrow> pyobj \<times> nodesec" where
  "create_challenge nonce now peer s =
     ([(''type'', PStr ''AUTH_CHALLENGE''), (''sender_id'', PStr (ns_id s)), (''peer_id'', PStr peer),
       (''nonce'', PStr nonce), (''timestamp'', PFloat now)],
      s\<lparr>ns_chal := dset (PStr peer) \<lparr>ch_nonce = nonce, ch_created = now, ch_answered = False\<rparr> (ns_chal s)\<rparr>)"

definition answer_challenge :: "(string \<Rightarrow> string \<Rightarrow> string) \<Rightarrow> (pyval \<Rightarrow> string) \<Rightarrow> real \<Rightarrow> pyobj \<Rightarrow> nodesec \<Rightarrow> pyobj" where
  "answer_challenge hm tostr now chal s =
     (let nonce = dgetd chal ''nonce'' (PStr '''')
      in [(''type'', PStr ''AUTH_RESPONSE''), (''sender_id'', PStr (ns_id s)), (''nonce'', nonce),
          (''proof'', PStr (hm (ns_key s) (py_str tostr nonce @ ns_id s))), (''timestamp'', PFloat now)])"

text \<open>The first challenge with the nonce of the response.\<close>

definition find_challenge :: "pyval \<Rightarrow> (pyval, challenge) pydict \<Rightarrow> (pyval \<times> challenge) option" where
  "find_challenge nonce d = find (\<lambda>(k, c). nonce = PStr (ch_nonce c)) d"

definition slice12 :: "pyval \<Rightarrow> unit result" where
  "slice12 v = (if is_str v \<or> is_list v then Inr () else Inl TypeError)"

text \<open>\<open>challenges[peer_id] = challenges.pop(key)\<close>: the value is popped before the new key is hashed.\<close>

definition rekey_challenge :: "pyval \<Rightarrow> challenge \<Rightarrow> pyval \<Rightarrow> (nodesec, unit) sx" where
  "rekey_challenge key c peer =
     (if py_eq key peer then sx_return ()
      else sx_then (sx_modify (\<lambda>s. s\<lparr>ns_chal := ddel key (ns_chal s)\<rparr>))
        (sx_bind (sx_lift (hkey peer)) (\<lambda>k. sx_modify (\<lambda>s. s\<lparr>ns_chal := dset k c (ns_chal s)\<rparr>))))"

definition verify_challenge_response :: "(string \<Rightarrow> string \<Rightarrow> string) \<Rightarrow> (pyval \<Rightarrow> string) \<Rightarrow> pyobj \<Rightarrow> string \<Rightarrow>
    (nodesec, bool) sx" where
  "verify_challenge_response hm tostr r secret =
     (let peer = dgetd r ''sender_id'' (PStr ''''); nonce = dgetd r ''nonce'' (PStr '''');
          proof_v = dgetd r ''proof'' (PStr '''') in
      sx_bind (sx_get (\<lambda>s. find_challenge nonce (ns_chal s))) (\<lambda>found.
      case found of
        None \<Rightarrow> sx_return False
      | Some (key, c) \<Rightarrow>
          sx_bind (sx_lift (compare_digest proof_v (hm secret (py_str tostr nonce @ py_str tostr peer)))) (\<lambda>ok.
          if ok then
            let c' = c\<lparr>ch_answered := True\<rparr> in
            sx_then (sx_modify (\<lambda>s. s\<lparr>ns_chal := dset key c' (ns_chal s)\<rparr>))
            (sx_then (rekey_challenge key c' peer)
            (sx_bind (sx_lift (hkey peer)) (\<lambda>k.
             sx_then (sx_modify (\<lambda>s. s\<lparr>ns_trusted := dset k secret (ns_trusted s)\<rparr>))
             (sx_then (sx_lift (slice12 peer)) (sx_return True)))))
          else
            sx_bind (sx_lift (hkey peer)) (\<lambda>k.
            sx_then (sx_modify (\<lambda>s. s\<lparr>ns_black := List.insert k (ns_black s)\<rparr>))
            (sx_then (sx_lift (slice12 peer)) (sx_return False))))))"

definition is_trusted :: "string \<Rightarrow> nodesec \<Rightarrow> bool" where
  "is_trusted i s = din (PStr i) (ns_trusted s)"

definition is_blacklisted :: "string \<Rightarrow> nodesec \<Rightarrow> bool" where
  "is_blacklisted i s = (PStr i \<in> set (ns_black s))"

definition sec_status :: "nodesec \<Rightarrow> string \<times> nat \<times> nat \<times> nat" where
  "sec_status s = (take 12 (ns_id s), length (ns_trusted s), length (ns_black s), length (ns_chal s))"

section \<open>The handshake\<close>

text \<open>
  The initiator after sending its challenge: \<open>None\<close> when no answer arrives, an exception of
  the socket or of the JSON parser, or the parsed answer.  The value says whether the peer is
  authenticated; the message is the AUTH_RESULT it sends.
\<close>

definition perform_handshake :: "(string \<Rightarrow> string \<Rightarrow> string) \<Rightarrow> (pyval \<Rightarrow> string) \<Rightarrow> pyval result option \<Rightarrow>
    (nodesec, bool \<times> pyobj option) sx" where
  "perform_handshake hm tostr answer = (case answer of
       None \<Rightarrow> sx_return (False, None)
     | Some (Inl e) \<Rightarrow> sx_return (False, None)
     | Some (Inr (PDict r)) \<Rightarrow>
         if oget r ''type'' \<noteq> PStr ''AUTH_RESPONSE'' then sx_return (False, None)
         else sx_bind (sx_get ns_key) (\<lambda>key.
              sx_bind (verify_challenge_response hm tostr r key) (\<lambda>verified.
              sx_return (verified, Some [(''type'', PStr ''AUTH_RESULT''), (''accepted'', PBool verified)])))
     | Some (Inr v) \<Rightarrow> sx_raise AttributeError)"

text \<open>The listener: the answer it sends to a challenge, and its verdict from the result message.\<close>

definition respond_challenge :: "(string \<Rightarrow> string \<Rightarrow> string) \<Rightarrow> (pyval \<Rightarrow> string) \<Rightarrow> real \<Rightarrow> pyobj \<Rightarrow> nodesec \<Rightarrow> pyobj option" where
  "respond_challenge hm tostr now chal s =
     (if oget chal ''type'' = PStr ''AUTH_CHALLENGE'' then Some (answer_challenge hm tostr now chal s) else None)"

definition respond_result :: "pyobj option \<Rightarrow> pyval" where
  "respond_result res = (case res of None \<Rightarrow> PBool False | Some m \<Rightarrow> dgetd m ''accepted'' (PBool False))"

text \<open>Both ends of one connection: the verdicts of initiator and listener, and the initiator's state.\<close>

definition handshake :: "(string \<Rightarrow> string \<Rightarrow> string) \<Rightarrow> (pyval \<Rightarrow> string) \<Rightarrow> string \<Rightarrow> real \<Rightarrow> string \<Rightarrow> nodesec \<Rightarrow> nodesec \<Rightarrow>
    bool result \<times> pyval \<times> nodesec" where
  "handshake hm tostr nonce now peer_ip a b =
     (let (chal, a1) = create_challenge nonce now peer_ip a;
          answer = map_option (\<lambda>r. Inr (PDict r)) (respond_challenge hm tostr now chal b)
      in case perform_handshake hm tostr answer a1 of
           (Inl e, a2) \<Rightarrow> (Inl e, respond_result None, a2)
         | (Inr (v, res), a2) \<Rightarrow> (Inr v, respond_result res, a2))"

section \<open>Lemmas\<close>

text \<open>What the code relies on of HMAC: the digest is a non-empty string of ASCII characters.\<close>

definition hex_digest :: "(string \<Rightarrow> string \<Rightarrow> string) \<Rightarrow> bool" where
  "hex_digest hm = (\<forall>k t. hm k t \<noteq> [] \<and> is_ascii (hm k t))"

lemma strip_sig_sign: "strip_sig (sign_message hm dumps s m) = strip_sig m"
proof -
  have "strip_sig (dset ''signed_by'' x d) = strip_sig d" for x d
    unfolding strip_sig_def by (subst (1 2) delete_twist) (simp add: delete_update_same)
  moreover have "strip_sig (dset ''signature'' y d) = strip_sig d" for y d
    by (simp add: strip_sig_def delete_update_same)
  ultimately show ?thesis by (simp add: sign_message_def Let_def)
qed

lemma verify_signature_fields:
  assumes "hex_digest hm" and "oget m ''signature'' = PStr sig" and "oget m ''signed_by'' = PStr sby"
    and "sig \<noteq> []" and "sby \<noteq> []" and "is_ascii sig"
  shows "fst (verify_signature hm dumps secret m) = Inr (sig = hm secret (dumps (strip_sig m))) \<and>
    (\<forall>k. dget (snd (verify_signature hm dumps secret m)) k = dget m k)"
proof -
  have "dget m ''signature'' = Some (PStr sig)" "dget m ''signed_by'' = Some (PStr sby)"
    using assms(2,3) by (auto simp: oget_def dgetd_def split: option.splits)
  then show ?thesis
    using assms by (simp add: verify_signature_def Let_def compare_digest_def hex_digest_def strip_sig_def)
qed

lemma find_challenge_mem: "find_challenge nonce d \<noteq> None \<longleftrightarrow> (\<exists>k c. (k, c) \<in> set d \<and> nonce = PStr (ch_nonce c))"
  unfolding find_challenge_def by (auto simp: find_None_iff)

lemma find_challenge_stored:
  "nonce = PStr (ch_nonce c) \<Longrightarrow> \<exists>k' c'. find_challenge nonce (dset k c d) = Some (k', c')"
proof -
  have "(k, c) \<in> set (dset k c d)" by (induction d) auto
  then show "nonce = PStr (ch_nonce c) \<Longrightarrow> \<exists>k' c'. find_challenge nonce (dset k c d) = Some (k', c')"
    using find_challenge_mem[of nonce "dset k c d"] by auto
qed

lemma verify_response_step:
  assumes "find_challenge nonce (ns_chal s) = Some (key, c)" and "hex_digest hm"
    and "dgetd r ''sender_id'' (PStr '''') = PStr peer" and "dgetd r ''nonce'' (PStr '''') = nonce"
    and "dgetd r ''proof'' (PStr '''') = PStr pf" and "is_ascii pf"
  shows "verify_challenge_response hm tostr r secret s =
    (if pf = hm secret (py_str tostr nonce @ peer) then
       (Inr True, s\<lparr>ns_trusted := dset (PStr peer) secret (ns_trusted s),
          ns_chal := (let d = dset key (c\<lparr>ch_answered := True\<rparr>) (ns_chal s) in
             if key = PStr peer then d else dset (PStr peer) (c\<lparr>ch_answered := True\<rparr>) (ddel key d))\<rparr>)
     else (Inr False, s\<lparr>ns_black := List.insert (PStr peer) (ns_black s)\<rparr>))"
  using assms
  by (simp add: verify_challenge_response_def sx_defs compare_digest_def hex_digest_def rekey_challenge_def
      slice12_def py_str_def Let_def)

section \<open>Properties\<close>

text \<open>
  C7. Signing and verifying: a message signed by a node is accepted under the node's key and
  the caller's dictionary is unchanged by the check; any message that carries the same two
  signature fields is accepted only if its remaining fields have the same digest.
\<close>
theorem sign_then_verify:
  assumes "hex_digest hm" and "ns_id s \<noteq> []"
    and "dget m2 ''signature'' = dget (sign_message hm dumps s m) ''signature''"
    and "dget m2 ''signed_by'' = dget (sign_message hm dumps s m) ''signed_by''"
  shows "fst (verify_signature hm dumps (ns_key s) (sign_message hm dumps s m)) = Inr True \<and>
    (\<forall>k. dget (snd (verify_signature hm dumps (ns_key s) (sign_message hm dumps s m))) k =
         dget (sign_message hm dumps s m) k) \<and>
    fst (verify_signature hm dumps secret m2) =
      Inr (hm (ns_key s) (dumps (strip_sig m)) = hm secret (dumps (strip_sig m2)))"
proof -
  let ?m = "sign_message hm dumps s m" and ?sig = "hm (ns_key s) (dumps (strip_sig m))"
  have f: "oget ?m ''signature'' = PStr ?sig" "oget ?m ''signed_by'' = PStr (ns_id s)"
    by (simp_all add: sign_message_def oget_def dgetd_def Let_def)
  then have f2: "oget m2 ''signature'' = PStr ?sig" "oget m2 ''signed_by'' = PStr (ns_id s)"
    using assms(3,4) by (simp_all add: oget_def dgetd_def)
  have sig: "?sig \<noteq> []" "is_ascii ?sig" using assms(1) by (simp_all add: hex_digest_def)
  show ?thesis
    using verify_signature_fields[OF assms(1) f sig(1) assms(2) sig(2), of dumps "ns_key s"]
      verify_signature_fields[OF assms(1) f2 sig(1) assms(2) sig(2), of dumps secret]
    by (simp add: strip_sig_sign)
qed

theorem sign_then_verify_witness:
  "fst (verify_signature (\<lambda>k t. if is_ascii k then ''a'' @ k else ''a'') (\<lambda>_. ''x'') ''k1''
     (sign_message (\<lambda>k t. if is_ascii k then ''a'' @ k else ''a'') (\<lambda>_. ''x'')
        (new_security ''n'' ''k1'') [(''type'', PStr ''T'')])) = Inr True"
proof -
  let ?hm = "\<lambda>k t. if is_ascii k then ''a'' @ k else ''a''"
  have h: "hex_digest ?hm" by (simp add: hex_digest_def is_ascii_def)
  show ?thesis
    using sign_then_verify[OF h, of "new_security ''n'' ''k1''"
        "sign_message ?hm (\<lambda>_. ''x'') (new_security ''n'' ''k1'') [(''type'', PStr ''T'')]" "\<lambda>_. ''x''"
        "[(''type'', PStr ''T'')]"]
    by (simp add: new_security_def)
qed

text \<open>
  C8. A response is accepted exactly when its nonce belongs to a stored challenge and its
  proof is the digest of nonce and sender under the secret; whether the sender is blacklisted
  or the challenge was answered before plays no part, so an accepted response is accepted
  again when it is replayed.
\<close>
theorem response_accepted_iff:
  fixes tostr secret
  assumes "hex_digest hm" and "dgetd r ''sender_id'' (PStr '''') = PStr peer"
    and "dgetd r ''nonce'' (PStr '''') = PStr nonce" and "dgetd r ''proof'' (PStr '''') = PStr pf" and "is_ascii pf"
  defines "res \<equiv> verify_challenge_response hm tostr r secret"
  shows "(fst (res s) = Inr True \<longleftrightarrow>
      (\<exists>k c. (k, c) \<in> set (ns_chal s) \<and> ch_nonce c = nonce) \<and> pf = hm secret (nonce @ peer)) \<and>
    (fst (res s) = Inr True \<longrightarrow> is_trusted peer (snd (res s)) \<and>
       (\<forall>t. fst (res ((snd (res s))\<lparr>ns_black := t\<rparr>)) = Inr True))"
proof (cases "find_challenge (PStr nonce) (ns_chal s)")
  case None
  then have "\<not> (\<exists>k c. (k, c) \<in> set (ns_chal s) \<and> ch_nonce c = nonce)"
    using find_challenge_mem[of "PStr nonce" "ns_chal s"] by auto
  moreover have "fst (res s) = Inr False"
    using None assms(3) by (simp add: res_def verify_challenge_response_def sx_defs Let_def)
  ultimately show ?thesis by simp
next
  case (Some kc)
  obtain key c where kc: "kc = (key, c)" by (cases kc)
  have ex: "\<exists>k c. (k, c) \<in> set (ns_chal s) \<and> ch_nonce c = nonce"
    using Some find_challenge_mem[of "PStr nonce" "ns_chal s"] by auto
  have c: "PStr nonce = PStr (ch_nonce c)" using Some kc by (auto simp: find_challenge_def find_Some_iff)
  note step = verify_response_step[OF _ assms(1,2,3,4,5), folded res_def]
  let ?d = "dset key (c\<lparr>ch_answered := True\<rparr>) (ns_chal s)"
  have r1: "res s = (if pf = hm secret (nonce @ peer) then
       (Inr True, s\<lparr>ns_trusted := dset (PStr peer) secret (ns_trusted s),
          ns_chal := (if key = PStr peer then ?d else dset (PStr peer) (c\<lparr>ch_answered := True\<rparr>) (ddel key ?d))\<rparr>)
     else (Inr False, s\<lparr>ns_black := List.insert (PStr peer) (ns_black s)\<rparr>))"
    using step[of s key c tostr secret] Some kc by (simp add: res_def py_str_def Let_def)
  show ?thesis
  proof (cases "pf = hm secret (nonce @ peer)")
    case False
    with r1 show ?thesis by simp
  next
    case True
    have tr: "is_trusted peer (snd (res s))" using r1 True by (simp add: is_trusted_def din_def)
    have "fst (res ((snd (res s))\<lparr>ns_black := t\<rparr>)) = Inr True" for t
    proof -
      let ?s = "(snd (res s))\<lparr>ns_black := t\<rparr>"
      have "find_challenge (PStr nonce) (ns_chal ?s) \<noteq> None"
        using r1 True c by (simp add: find_challenge_stored)
      then obtain key' c' where "find_challenge (PStr nonce) (ns_chal ?s) = Some (key', c')" by auto
      from step[OF this, of tostr secret] True show ?thesis by (simp add: res_def py_str_def)
    qed
    with tr r1 True ex show ?thesis by simp
  qed
qed

theorem response_accepted_iff_witness:
  "\<exists>s. fst (verify_challenge_response (\<lambda>k t. ''d'') (\<lambda>_. '''')
     [(''sender_id'', PStr ''n2''), (''nonce'', PStr ''q''), (''proof'', PStr ''d'')] ''key'' s) = Inr True"
proof -
  let ?s = "snd (create_challenge ''q'' 1 ''10.0.0.2'' (new_security ''n1'' ''key''))"
  have "hex_digest (\<lambda>k t. ''d'')" "is_ascii ''d''" by (simp_all add: hex_digest_def is_ascii_def)
  then have "fst (verify_challenge_response (\<lambda>k t. ''d'') (\<lambda>_. '''')
     [(''sender_id'', PStr ''n2''), (''nonce'', PStr ''q''), (''proof'', PStr ''d'')] ''key'' ?s) = Inr True"
    using response_accepted_iff[of "\<lambda>k t. ''d''"
        "[(''sender_id'', PStr ''n2''), (''nonce'', PStr ''q''), (''proof'', PStr ''d'')]" "''n2''" "''q''" "''d''"
        "\<lambda>_. ''''" "''key''" ?s]
    by (simp add: dgetd_def create_challenge_def new_security_def)
  then show ?thesis by blast
qed

text \<open>
  The handshake over one connection: initiator and listener reach the same verdict, which
  is whether their keys give the same digest; on success the listener's node id is trusted by
  the initiator, on failure it is blacklisted.
\<close>
theorem handshake_agrees:
  fixes tostr nonce now peer_ip a b
  assumes "hex_digest hm"
  defines "out \<equiv> handshake hm tostr nonce now peer_ip a b"
  defines "same \<equiv> hm (ns_key a) (nonce @ ns_id b) = hm (ns_key b) (nonce @ ns_id b)"
  shows "fst out = Inr same \<and> fst (snd out) = PBool same \<and>
    (if same then is_trusted (ns_id b) (snd (snd out)) else is_blacklisted (ns_id b) (snd (snd out)))"
proof -
  obtain chal a1 where a1: "create_challenge nonce now peer_ip a = (chal, a1)"
    by (cases "create_challenge nonce now peer_ip a")
  let ?r = "answer_challenge hm tostr now chal b"
  have chal: "oget chal ''type'' = PStr ''AUTH_CHALLENGE''" "dgetd chal ''nonce'' (PStr '''') = PStr nonce"
    "ns_key a1 = ns_key a" "find_challenge (PStr nonce) (ns_chal a1) \<noteq> None"
    using a1 by (auto simp: create_challenge_def oget_def dgetd_def find_challenge_stored)
  have r: "dgetd ?r ''sender_id'' (PStr '''') = PStr (ns_id b)" "dgetd ?r ''nonce'' (PStr '''') = PStr nonce"
    "dgetd ?r ''proof'' (PStr '''') = PStr (hm (ns_key b) (nonce @ ns_id b))" "oget ?r ''type'' = PStr ''AUTH_RESPONSE''"
    using chal(2) by (simp_all add: answer_challenge_def dgetd_def oget_def py_str_def)
  obtain key c where kc: "find_challenge (PStr nonce) (ns_chal a1) = Some (key, c)" using chal(4) by auto
  have asc: "is_ascii (hm (ns_key b) (nonce @ ns_id b))" using assms(1) by (simp add: hex_digest_def)
  note step = verify_response_step[OF kc assms(1) r(1,2,3) asc, of tostr "ns_key a"]
  have "handshake hm tostr nonce now peer_ip a b =
      (case perform_handshake hm tostr (Some (Inr (PDict ?r))) a1 of
           (Inl e, a2) \<Rightarrow> (Inl e, respond_result None, a2)
         | (Inr (v, res), a2) \<Rightarrow> (Inr v, respond_result res, a2))"
    by (simp add: handshake_def a1 respond_challenge_def chal(1))
  moreover have "perform_handshake hm tostr (Some (Inr (PDict ?r))) a1 =
      (Inr (same, Some [(''type'', PStr ''AUTH_RESULT''), (''accepted'', PBool same)]),
       snd (verify_challenge_response hm tostr ?r (ns_key a) a1))"
    using step chal(3) r(4) by (auto simp: perform_handshake_def sx_defs py_str_def same_def)
  ultimately show ?thesis
    using step
    by (auto simp: out_def same_def respond_result_def dgetd_def is_trusted_def is_blacklisted_def din_def py_str_def)
qed

theorem handshake_agrees_witness:
  "fst (handshake (\<lambda>k t. if is_ascii k then ''d'' @ k else ''d'') (\<lambda>_. '''') ''q'' 1 ''10.0.0.2''
     (new_security ''n1'' ''k1'') (new_security ''n2'' ''k2'')) = Inr False"
proof -
  have h: "hex_digest (\<lambda>k t. if is_ascii k then ''d'' @ k else ''d'')" by (simp add: hex_digest_def is_ascii_def)
  from handshake_agrees[OF h, of "\<lambda>_. ''''" "''q''" 1 "''10.0.0.2''"
      "new_security ''n1'' ''k1''" "new_security ''n2'' ''k2''"]
  show ?thesis by (simp add: is_ascii_def new_security_def)
qed

end
