(* ===== verification/Health.thy ===== *)
theory Health
  imports Security
begin

text \<open>
  \<open>swarm/health_monitor.py\<close> and \<open>swarm/task_distributor.py\<close>: the distribution of sensor
  tasks over the workers, the bookkeeping of the tasks in flight, and the monitor that pings
  the peers, declares nodes dead and has their tasks reassigned.  Arguments stand for the
  network: \<open>net\<close> says which attempt to send to an address succeeds, \<open>ping\<close> what the probe of a
  node gives, \<open>fls\<close> is \<open>float\<close> of a string.  One turn of the monitor reads the clock once.
\<close>

section \<open>Sending with retries\<close>

definition RETRY_COUNT :: nat where "RETRY_COUNT = 3"

text \<open>\<open>attempt i\<close> says whether the i-th attempt (from 1) gets through.\<close>

fun send_attempts :: "(nat \<Rightarrow> bool) \<Rightarrow> nat list \<Rightarrow> bool" where
  "send_attempts attempt [] = False"
| "send_attempts attempt (i # is) = (if attempt i then True else send_attempts attempt is)"

definition tcp_send_with_retry :: "(nat \<Rightarrow> bool) \<Rightarrow> bool" where
  "tcp_send_with_retry attempt = send_attempts attempt [1..<RETRY_COUNT + 1]"

lemma tcp_send_iff: "tcp_send_with_retry attempt \<longleftrightarrow> (\<exists>i. 1 \<le> i \<and> i \<le> 3 \<and> attempt i)"
proof -
  have "send_attempts attempt is \<longleftrightarrow> (\<exists>i \<in> set is. attempt i)" for "is"
    by (induction "is") auto
  then show ?thesis by (auto simp: tcp_send_with_retry_def RETRY_COUNT_def)
qed

section \<open>Distributing the tasks of an intent\<close>

record assignment =
  local_tasks :: "pyval list"
  remote_tasks :: "(string, pyval list) pydict"
  assign_sent :: "(pyval \<times> pyobj) list"

text \<open>The workers among the known nodes; a node without \<open>caps\<close> raises.\<close>

definition is_worker :: "string \<Rightarrow> string \<times> pyobj \<Rightarrow> bool result" where
  "is_worker my_id p =
     (if fst p = my_id then Inr False
      else bindE (oindex (snd p) ''caps'') (\<lambda>caps.
           bindE (pget caps ''roles'' (PList [])) (py_in ''worker'')))"

definition worker_peers :: "string \<Rightarrow> (string, pyobj) pydict \<Rightarrow> (string, pyobj) pydict result" where
  "worker_peers my_id known =
     bindE (mapE (\<lambda>p. bindE (is_worker my_id p) (\<lambda>b. Inr (p, b))) known) (\<lambda>ps. Inr (map fst (filter snd ps)))"

definition assign_msg :: "string \<Rightarrow> string \<Rightarrow> pyval \<Rightarrow> string \<Rightarrow> pyobj" where
  "assign_msg my_id uid sensor brain_ip =
     [(''type'', PStr ''TASK_ASSIGN''), (''task_id'', PStr uid), (''sensor_type'', sensor),
      (''report_to'', PStr ''orchestrator''), (''assigned_by'', PStr my_id), (''brain_ip'', PStr brain_ip)]"

text \<open>
  One pass of the loop over \<open>data_required\<close>, with the number of the task: \<open>uid i\<close> is its
  fresh id and \<open>net i\<close> the fate of its attempts.
\<close>

definition assign_one :: "string \<Rightarrow> (nat \<Rightarrow> string) \<Rightarrow> (pyval \<Rightarrow> string) \<Rightarrow> (nat \<Rightarrow> pyval \<Rightarrow> nat \<Rightarrow> bool) \<Rightarrow>
    (string, pyobj) pydict \<Rightarrow> nat \<times> pyval \<Rightarrow> assignment \<Rightarrow> assignment result" where
  "assign_one my_id uid local_ip net workers t a =
     (case workers of
        [] \<Rightarrow> Inr (a\<lparr>local_tasks := local_tasks a @ [snd t]\<rparr>)
      | _ \<Rightarrow>
        let (target, info) = workers ! (fst t mod length workers) in
        bindE (oindex info ''addr'') (\<lambda>addr.
        if tcp_send_with_retry (net (fst t) addr)
        then Inr (a\<lparr>remote_tasks := dset target (dgetd (remote_tasks a) target [] @ [snd t]) (remote_tasks a),
                   assign_sent := assign_sent a @ [(addr, assign_msg my_id (uid (fst t)) (snd t) (local_ip addr))]\<rparr>)
        else Inr (a\<lparr>local_tasks := local_tasks a @ [snd t]\<rparr>)))"

definition distribute_tasks :: "string \<Rightarrow> (nat \<Rightarrow> string) \<Rightarrow> (pyval \<Rightarrow> string) \<Rightarrow> (nat \<Rightarrow> pyval \<Rightarrow> nat \<Rightarrow> bool) \<Rightarrow>
    (string, pyobj) pydict \<Rightarrow> pyval list \<Rightarrow> assignment result" where
  "distribute_tasks my_id uid local_ip net known required =
     bindE (worker_peers my_id known) (\<lambda>ws.
     foldE (assign_one my_id uid local_ip net ws) (enumerate 0 required)
       \<lparr>local_tasks = [], remote_tasks = [], assign_sent = []\<rparr>)"

definition result_msg :: "real \<Rightarrow> string \<Rightarrow> string \<Rightarrow> pyobj \<Rightarrow> string \<Rightarrow> pyobj" where
  "result_msg now task_id sensor dat from_node =
     [(''type'', PStr ''TASK_RESULT''), (''task_id'', PStr task_id), (''sensor_type'', PStr sensor),
      (''data'', PDict dat), (''from_node'', PStr from_node), (''timestamp'', PFloat now)]"

text \<open>
  The worker's listener, for one connection: the task handed to the callback, and whether the
  thread goes on (only JSON and socket errors are caught; the callback is taken to return).
\<close>

definition task_listen_step :: "(string \<Rightarrow> pyval result) \<Rightarrow> string result \<Rightarrow> pyobj option \<times> bool" where
  "task_listen_step loads conn = (case conn of
       Inl e \<Rightarrow> (None, True)
     | Inr data \<Rightarrow>
        if data = [] then (None, True)
        else (case loads data of
            Inl JSONDecodeError \<Rightarrow> (None, True)
          | Inl e \<Rightarrow> (None, False)
          | Inr (PDict m) \<Rightarrow> (if oget m ''type'' \<noteq> PStr ''TASK_ASSIGN'' then None else Some m, True)
          | Inr v \<Rightarrow> (None, False)))"

section \<open>Tasks in flight\<close>

record dtask =
  dt_type :: string
  dt_node :: string
  dt_assigned :: real
  dt_sensor :: string

datatype hstatus = Alive | Degraded | Dead | Reconnecting | Flapping

record nhealth =
  nh_status :: hstatus
  nh_last :: real
  nh_fail :: nat
  nh_ping :: nat
  nh_ms :: int

text \<open>
  The state of monitor and distributor: the health table, the state changes, the nodes
  waiting for a handshake, the events published, the tasks in flight, the TASK_ASSIGN
  messages delivered and the tasks run on this node.
\<close>

record hmon =
  hm_health :: "(string, nhealth) pydict"
  hm_changes :: "(string, (real \<times> hstatus) list) pydict"
  hm_rejoin :: "(string, bool) pydict"
  hm_events :: "(string \<times> string) list"
  hm_tasks :: "(string, dtask) pydict"
  hm_sent :: "(pyval \<times> pyobj) list"
  hm_local :: "string list"

type_synonym 'a hact = "(hmon, 'a) sx"

definition new_hmon :: hmon where
  "new_hmon = \<lparr>hm_health = [], hm_changes = [], hm_rejoin = [], hm_events = [], hm_tasks = [], hm_sent = [], hm_local = []\<rparr>"

definition record_task :: "real \<Rightarrow> string \<Rightarrow> string \<Rightarrow> string \<Rightarrow> string \<Rightarrow> hmon \<Rightarrow> hmon" where
  "record_task now tid ty node sensor s =
     s\<lparr>hm_tasks := dset tid \<lparr>dt_type = ty, dt_node = node, dt_assigned = now, dt_sensor = sensor\<rparr> (hm_tasks s)\<rparr>"

definition finish_task :: "string \<Rightarrow> hmon \<Rightarrow> hmon" where
  "finish_task tid s = s\<lparr>hm_tasks := ddel tid (hm_tasks s)\<rparr>"

definition get_pending_tasks :: "string \<Rightarrow> hmon \<Rightarrow> (string \<times> dtask) list" where
  "get_pending_tasks node s = filter (\<lambda>(tid, t). dt_node t = node) (hm_tasks s)"

definition py_float :: "(string \<Rightarrow> real result) \<Rightarrow> pyval \<Rightarrow> real result" where
  "py_float fls v = (case v of PStr s \<Rightarrow> fls s | _ \<Rightarrow> to_num v)"

definition peer_score :: "(string \<Rightarrow> real result) \<Rightarrow> pyobj \<Rightarrow> real result" where
  "peer_score fls info =
     (let inner = dgetd info ''caps'' (PDict info) in
      bindE (pget inner ''benchmark'' (PDict [])) (\<lambda>bench.
      bindE (pget bench ''composite'' (PInt 0)) (\<lambda>composite.
      bindE (to_num composite) (\<lambda>c.
      if c > 0 then Inr c
      else bindE (bindE (pget inner ''ram_gb'' (PInt 0)) (py_float fls)) (\<lambda>ram.
           bindE (bindE (pget inner ''cpu_cores'' (PInt 0)) (py_float fls)) (\<lambda>cpu.
           Inr (ram * 2 + cpu * (3/2))))))))"

text \<open>\<open>max(alive_peers, key=...)\<close>: all scores are computed, the first of the largest wins.\<close>

definition best_peer :: "(string \<Rightarrow> real result) \<Rightarrow> (string, pyobj) pydict \<Rightarrow> (string \<times> pyobj) result" where
  "best_peer fls alive =
     bindE (mapE (\<lambda>p. bindE (peer_score fls (snd p)) (\<lambda>x. Inr (x, p))) alive)
       (\<lambda>ps. bindE (py_max fst ps) (\<lambda>p. Inr (snd p)))"

definition info_addr :: "pyobj \<Rightarrow> pyval" where
  "info_addr info = py_or (oget info ''addr'') (dgetd info ''ip'' (PStr ''''))"

definition reassign_msg :: "string \<Rightarrow> dtask \<Rightarrow> pyobj" where
  "reassign_msg tid t = [(''type'', PStr ''TASK_ASSIGN''), (''task_id'', PStr tid), (''sensor_type'', PStr (dt_sensor t)),
     (''report_to'', PStr ''orchestrator''), (''reassigned'', PBool True)]"

definition reassign_task :: "(string \<Rightarrow> real result) \<Rightarrow> (string \<Rightarrow> pyval \<Rightarrow> nat \<Rightarrow> bool) \<Rightarrow>
    (string, pyobj) pydict \<Rightarrow> string \<times> dtask \<Rightarrow> unit hact" where
  "reassign_task fls net alive p =
     (case p of (tid, t) \<Rightarrow>
      sx_bind (sx_lift (best_peer fls alive)) (\<lambda>best.
      let addr = info_addr (snd best) in
      sx_when (tcp_send_with_retry (net tid addr))
        (sx_modify (\<lambda>s. s\<lparr>hm_sent := hm_sent s @ [(addr, reassign_msg tid t)],
           hm_tasks := (case dget (hm_tasks s) tid of
               None \<Rightarrow> hm_tasks s
             | Some t' \<Rightarrow> dset tid (t'\<lparr>dt_node := fst best\<rparr>) (hm_tasks s))\<rparr>))))"

text \<open>\<open>run_locally\<close>: what the runner of the task type does is in \<open>ml/task_workers.py\<close>; no exception leaves it.\<close>

definition run_locally :: "string \<times> dtask \<Rightarrow> unit hact" where
  "run_locally p = sx_modify (\<lambda>s. s\<lparr>hm_local := hm_local s @ [fst p]\<rparr>)"

section \<open>The monitor\<close>

definition FLAPPING_THRESHOLD :: nat where "FLAPPING_THRESHOLD = 5"
definition BACKOFF_BASE :: nat where "BACKOFF_BASE = 2"
definition MAX_BACKOFF :: nat where "MAX_BACKOFF = 60"
definition DEAD_THRESHOLD :: real where "DEAD_THRESHOLD = 30"
definition MAX_RETRIES :: nat where "MAX_RETRIES = 3"

definition is_flapping :: "real \<Rightarrow> string \<Rightarrow> hmon \<Rightarrow> bool" where
  "is_flapping now i s =
     (length (filter (\<lambda>c. now - fst c < 60) (dgetd (hm_changes s) i [])) \<ge> FLAPPING_THRESHOLD)"

definition record_state_change :: "real \<Rightarrow> string \<Rightarrow> hstatus \<Rightarrow> hmon \<Rightarrow> hmon" where
  "record_state_change now i st s =
     s\<lparr>hm_changes := dset i (append_capped 20 (now, st) (dgetd (hm_changes s) i [])) (hm_changes s)\<rparr>"

text \<open>The state changes of one node are a rolling log of 20 entries.\<close>

interpretation changes: rolling_log "\<lambda>e s. record_state_change (fst e) i (snd e) s" "\<lambda>s. dgetd (hm_changes s) i []" 20 for i
  by unfold_locales (simp_all add: record_state_change_def append_capped_eq)

definition get_backoff :: "string \<Rightarrow> hmon \<Rightarrow> nat" where
  "get_backoff i s = min MAX_BACKOFF (BACKOFF_BASE ^ (case dget (hm_health s) i of None \<Rightarrow> 0 | Some h \<Rightarrow> nh_fail h))"

text \<open>
  \<open>_validate_handshake\<close> builds a new \<open>NodeSecurity\<close> and asks it; \<open>None\<close> stands for a key file
  that can neither be read nor written, which makes the construction raise.
\<close>

definition validate_handshake :: "string option \<Rightarrow> string \<Rightarrow> string \<Rightarrow> bool" where
  "validate_handshake key me i = (case key of None \<Rightarrow> True | Some k \<Rightarrow> is_trusted i (new_security me k))"

definition publish_ev :: "string \<Rightarrow> string \<Rightarrow> hmon \<Rightarrow> hmon" where
  "publish_ev ty i s = s\<lparr>hm_events := hm_events s @ [(ty, i)]\<rparr>"

definition set_health :: "string \<Rightarrow> (nhealth \<Rightarrow> nhealth) \<Rightarrow> hmon \<Rightarrow> hmon" where
  "set_health i f s = (case dget (hm_health s) i of
       None \<Rightarrow> s | Some h \<Rightarrow> s\<lparr>hm_health := dset i (f h) (hm_health s)\<rparr>)"

definition get_node_status :: "string \<Rightarrow> hmon \<Rightarrow> hstatus option" where
  "get_node_status i s = map_option nh_status (dget (hm_health s) i)"

definition on_node_dead :: "(string \<Rightarrow> real result) \<Rightarrow> (string \<Rightarrow> pyval \<Rightarrow> nat \<Rightarrow> bool) \<Rightarrow>
    (string, pyobj) pydict \<Rightarrow> string \<Rightarrow> unit hact" where
  "on_node_dead fls net peers i =
     sx_bind (sx_get (get_pending_tasks i)) (\<lambda>pending.
     if pending = [] then sx_return ()
     else
     sx_bind (sx_get (\<lambda>s. dfilter (\<lambda>pid info. get_node_status pid s = Some Alive \<and> pid \<noteq> i) peers)) (\<lambda>alive.
     if alive = [] then sx_iter run_locally pending
     else sx_iter (reassign_task fls net alive) pending))"

text \<open>The reaction to a successful and to a failed probe.\<close>

definition ping_ok :: "real \<Rightarrow> string option \<Rightarrow> string \<Rightarrow> int \<Rightarrow> string \<Rightarrow> hmon \<Rightarrow> hmon" where
  "ping_ok now key me ms i s0 =
     (let s = set_health i (\<lambda>h. h\<lparr>nh_ms := ms\<rparr>) s0; st = get_node_status i s in
      if st = Some Dead then
        record_state_change now i Reconnecting
          (set_health i (\<lambda>h. h\<lparr>nh_status := Reconnecting\<rparr>) (s\<lparr>hm_rejoin := dset i True (hm_rejoin s)\<rparr>))
      else if dgetd (hm_rejoin s) i False then
        (if validate_handshake key me i
         then record_state_change now i Alive
           ((set_health i (\<lambda>h. h\<lparr>nh_status := Alive, nh_last := now, nh_fail := 0\<rparr>) s)
              \<lparr>hm_rejoin := ddel i (hm_rejoin s)\<rparr>)
         else s)
      else if is_flapping now i s then set_health i (\<lambda>h. h\<lparr>nh_status := Flapping\<rparr>) s
      else set_health i (\<lambda>h. h\<lparr>nh_status := Alive, nh_last := now, nh_fail := 0\<rparr>)
        (if st \<noteq> Some Alive then record_state_change now i Alive s else s))"

definition ping_fail :: "(string \<Rightarrow> real result) \<Rightarrow> (string \<Rightarrow> pyval \<Rightarrow> nat \<Rightarrow> bool) \<Rightarrow> real \<Rightarrow>
    (string, pyobj) pydict \<Rightarrow> string \<Rightarrow> unit hact" where
  "ping_fail fls net now peers i =
     sx_then (sx_modify (set_health i (\<lambda>h. h\<lparr>nh_fail := nh_fail h + 1\<rparr>)))
     (sx_bind (sx_get (\<lambda>s. the (dget (hm_health s) i))) (\<lambda>h.
      if nh_fail h \<ge> MAX_RETRIES then
        sx_when (nh_status h \<noteq> Dead)
          (sx_then (sx_modify (\<lambda>s. record_state_change now i Dead (set_health i (\<lambda>h. h\<lparr>nh_status := Dead\<rparr>) s)))
          (sx_then (on_node_dead fls net peers i) (sx_modify (publish_ev ''node.dead'' i))))
      else sx_modify (set_health i (\<lambda>h. h\<lparr>nh_status := Degraded\<rparr>))))"

definition check_node :: "(string \<Rightarrow> real result) \<Rightarrow> (string \<Rightarrow> pyval \<Rightarrow> nat \<Rightarrow> bool) \<Rightarrow> (string \<Rightarrow> int option) \<Rightarrow>
    string option \<Rightarrow> string \<Rightarrow> real \<Rightarrow> (string, pyobj) pydict \<Rightarrow> string \<times> pyobj \<Rightarrow> unit hact" where
  "check_node fls net ping key me now peers p =
     (case p of (i, info) \<Rightarrow>
      if \<not> truthy (info_addr info) then sx_return ()
      else
      sx_then (sx_modify (\<lambda>s. if din i (hm_health s) then s
          else publish_ev ''node.joined'' i (s\<lparr>hm_health := dset i
            \<lparr>nh_status = Alive, nh_last = now, nh_fail = 0, nh_ping = 0, nh_ms = 0\<rparr> (hm_health s)\<rparr>)))
      (sx_then (sx_modify (set_health i (\<lambda>h. h\<lparr>nh_ping := nh_ping h + 1\<rparr>)))
      (case ping i of
         Some ms \<Rightarrow> sx_modify (ping_ok now key me ms i)
       | None \<Rightarrow> ping_fail fls net now peers i)))"

text \<open>The sweep over all known nodes at the end of a turn.\<close>

definition sweep_node :: "real \<Rightarrow> string \<Rightarrow> hmon \<Rightarrow> hmon" where
  "sweep_node now i s = (case dget (hm_health s) i of
       None \<Rightarrow> s
     | Some h \<Rightarrow>
        if now - nh_last h > DEAD_THRESHOLD \<and> nh_status h \<noteq> Dead \<and> nh_status h \<noteq> Reconnecting
        then publish_ev ''node.dead'' i (record_state_change now i Dead
               (set_health i (\<lambda>h. h\<lparr>nh_status := Dead\<rparr>) s))
        else s)"

definition sweep :: "real \<Rightarrow> hmon \<Rightarrow> hmon" where
  "sweep now s = fold (sweep_node now) (dkeys (hm_health s)) s"

definition health_turn :: "(string \<Rightarrow> real result) \<Rightarrow> (string \<Rightarrow> pyval \<Rightarrow> nat \<Rightarrow> bool) \<Rightarrow> (string \<Rightarrow> int option) \<Rightarrow>
    string option \<Rightarrow> string \<Rightarrow> real \<Rightarrow> (string, pyobj) pydict \<Rightarrow> unit hact" where
  "health_turn fls net ping key me now peers =
     sx_then (sx_iter (check_node fls net ping key me now peers) peers) (sx_modify (sweep now))"

definition get_alive_count :: "hmon \<Rightarrow> nat" where
  "get_alive_count s = length (filter (\<lambda>h. nh_status h = Alive) (dvals (hm_health s)))"

definition is_node_trusted :: "real \<Rightarrow> string \<Rightarrow> hmon \<Rightarrow> bool" where
  "is_node_trusted now i s = (get_node_status i s = Some Alive \<and> \<not> is_flapping now i s)"

section \<open>Lemmas on the distribution\<close>

text \<open>Whether the i-th task reaches its worker.\<close>

definition reaches :: "(nat \<Rightarrow> pyval \<Rightarrow> nat \<Rightarrow> bool) \<Rightarrow> (string, pyobj) pydict \<Rightarrow> nat \<Rightarrow> bool" where
  "reaches net ws i \<longleftrightarrow> ws \<noteq> [] \<and>
     tcp_send_with_retry (net i (oget (snd (ws ! (i mod length ws))) ''addr''))"

definition worker_of :: "(string, pyobj) pydict \<Rightarrow> nat \<Rightarrow> string" where
  "worker_of ws i = fst (ws ! (i mod length ws))"

lemma assign_one_eq:
  assumes "list_all (\<lambda>w. dget (snd w) ''addr'' \<noteq> None) ws"
  shows "\<exists>sent. assign_one my uid lip net ws (i, t) a = Inr (
    if reaches net ws i
    then a\<lparr>remote_tasks := dset (worker_of ws i) (dgetd (remote_tasks a) (worker_of ws i) [] @ [t]) (remote_tasks a),
           assign_sent := assign_sent a @ sent\<rparr>
    else a\<lparr>local_tasks := local_tasks a @ [t]\<rparr>)"
proof (cases "ws = []")
  case True
  then show ?thesis by (simp add: assign_one_def reaches_def)
next
  case False
  let ?w = "ws ! (i mod length ws)"
  have "i mod length ws < length ws" using False by (intro mod_less_divisor) simp
  then have "?w \<in> set ws" by (rule nth_mem)
  then obtain addr where a: "dget (snd ?w) ''addr'' = Some addr"
    using assms by (fastforce simp: list_all_iff)
  obtain target info where w: "?w = (target, info)" by (cases ?w)
  have "assign_one my uid lip net ws (i, t) a = (if tcp_send_with_retry (net i addr)
      then Inr (a\<lparr>remote_tasks := dset target (dgetd (remote_tasks a) target [] @ [t]) (remote_tasks a),
           assign_sent := assign_sent a @ [(addr, assign_msg my (uid i) t (lip addr))]\<rparr>)
      else Inr (a\<lparr>local_tasks := local_tasks a @ [t]\<rparr>))"
    using False a w by (simp add: assign_one_def list.case_eq_if oindex_def)
  moreover have "reaches net ws i = tcp_send_with_retry (net i addr)" "worker_of ws i = target"
    using False a w by (simp_all add: reaches_def worker_of_def oget_def dgetd_def)
  ultimately show ?thesis by (intro exI[of _ "[(addr, assign_msg my (uid i) t (lip addr))]"]) simp
qed

lemma assign_all_eq:
  assumes ws: "list_all (\<lambda>w. dget (snd w) ''addr'' \<noteq> None) ws"
  shows "\<exists>a'. foldE (assign_one my uid lip net ws) ts a = Inr a' \<and>
    local_tasks a' = local_tasks a @ map snd (filter (\<lambda>p. \<not> reaches net ws (fst p)) ts) \<and>
    (\<forall>w. dgetd (remote_tasks a') w [] = dgetd (remote_tasks a) w [] @
       map snd (filter (\<lambda>p. reaches net ws (fst p) \<and> worker_of ws (fst p) = w) ts))"
proof (induction ts arbitrary: a)
  case Nil
  then show ?case by simp
next
  case (Cons p ts)
  obtain i t where p: "p = (i, t)" by (cases p)
  obtain sent where s: "assign_one my uid lip net ws (i, t) a = Inr (
    if reaches net ws i
    then a\<lparr>remote_tasks := dset (worker_of ws i) (dgetd (remote_tasks a) (worker_of ws i) [] @ [t]) (remote_tasks a),
           assign_sent := assign_sent a @ sent\<rparr>
    else a\<lparr>local_tasks := local_tasks a @ [t]\<rparr>)"
    using assign_one_eq[OF ws] by blast
  let ?a = "if reaches net ws i
    then a\<lparr>remote_tasks := dset (worker_of ws i) (dgetd (remote_tasks a) (worker_of ws i) [] @ [t]) (remote_tasks a),
           assign_sent := assign_sent a @ sent\<rparr>
    else a\<lparr>local_tasks := local_tasks a @ [t]\<rparr>"
  obtain a' where a': "foldE (assign_one my uid lip net ws) ts ?a = Inr a'"
    "local_tasks a' = local_tasks ?a @ map snd (filter (\<lambda>p. \<not> reaches net ws (fst p)) ts)"
    "\<forall>w. dgetd (remote_tasks a') w [] = dgetd (remote_tasks ?a) w [] @
       map snd (filter (\<lambda>p. reaches net ws (fst p) \<and> worker_of ws (fst p) = w) ts)"
    using Cons.IH by blast
  then show ?case using s p by (intro exI[of _ a']) simp
qed

section \<open>Lemmas on the reassignment\<close>

lemma best_peer_ok:
  assumes "best_peer fls alive = Inr (b, info)"
  shows "(b, info) \<in> set alive \<and> (\<exists>m. peer_score fls info = Inr m \<and>
    (\<forall>q \<in> set alive. \<exists>x. peer_score fls (snd q) = Inr x \<and> x \<le> m))"
proof -
  let ?f = "\<lambda>p. bindE (peer_score fls (snd p)) (\<lambda>x. Inr (x, p))"
  obtain ps m where ps: "mapE ?f alive = Inr ps" "py_max fst ps = Inr (m, b, info)"
    using assms by (auto simp: best_peer_def bindE_Inr_iff)
  have map: "mapE ?f qs = Inr rs \<Longrightarrow>
      (\<forall>r \<in> set rs. snd r \<in> set qs \<and> peer_score fls (snd (snd r)) = Inr (fst r)) \<and>
      (\<forall>q \<in> set qs. \<exists>x. (x, q) \<in> set rs)" for qs rs
    by (induction qs arbitrary: rs) (fastforce simp: bindE_Inr_iff)+
  have mx: "(m, b, info) \<in> set ps" "\<forall>r \<in> set ps. fst r \<le> m" using py_max_Inr[OF ps(2)] by auto
  note m = map[OF ps(1)]
  have "(b, info) \<in> set alive" "peer_score fls info = Inr m" using m mx(1) by fastforce+
  moreover have "\<exists>x. peer_score fls (snd q) = Inr x \<and> x \<le> m" if q: "q \<in> set alive" for q
  proof -
    obtain x where x: "(x, q) \<in> set ps" using m q by blast
    then have "peer_score fls (snd q) = Inr x" using m by fastforce
    moreover have "x \<le> m" using mx(2) x by fastforce
    ultimately show ?thesis by blast
  qed
  ultimately show ?thesis by blast
qed

text \<open>All pending tasks go to the one best peer; those that get through change hands.\<close>

lemma reassign_all:
  fixes s :: hmon and net
  assumes "best_peer fls alive = Inr (b, info)"
  defines "ok \<equiv> \<lambda>tid. tcp_send_with_retry (net tid (info_addr info))"
  shows "\<exists>s'. sx_iter (reassign_task fls net alive) ps s = (Inr (), s') \<and>
    (\<forall>tid. dget (hm_tasks s') tid = map_option (\<lambda>t. if tid \<in> fst ` set ps \<and> ok tid then t\<lparr>dt_node := b\<rparr> else t)
        (dget (hm_tasks s) tid)) \<and>
    hm_sent s' = hm_sent s @ map (\<lambda>p. (info_addr info, reassign_msg (fst p) (snd p))) (filter (\<lambda>p. ok (fst p)) ps) \<and>
    hm_local s' = hm_local s \<and> hm_health s' = hm_health s"
proof (induction ps arbitrary: s)
  case Nil
  then show ?case by (simp add: sx_return_def option.map_ident)
next
  case (Cons p ps)
  obtain tid t where p: "p = (tid, t)" by (cases p)
  let ?s1 = "if ok tid then s\<lparr>hm_sent := hm_sent s @ [(info_addr info, reassign_msg tid t)],
           hm_tasks := (case dget (hm_tasks s) tid of
               None \<Rightarrow> hm_tasks s | Some t' \<Rightarrow> dset tid (t'\<lparr>dt_node := b\<rparr>) (hm_tasks s))\<rparr> else s"
  have step: "reassign_task fls net alive p s = (Inr (), ?s1)"
    using assms(1) p
    by (cases "dget (hm_tasks s) tid") (simp_all add: reassign_task_def sx_defs ok_def Let_def)
  obtain s' where s': "sx_iter (reassign_task fls net alive) ps ?s1 = (Inr (), s')"
    "\<forall>tid. dget (hm_tasks s') tid = map_option (\<lambda>t. if tid \<in> fst ` set ps \<and> ok tid then t\<lparr>dt_node := b\<rparr> else t)
        (dget (hm_tasks ?s1) tid)"
    "hm_sent s' = hm_sent ?s1 @ map (\<lambda>p. (info_addr info, reassign_msg (fst p) (snd p))) (filter (\<lambda>p. ok (fst p)) ps)"
    "hm_local s' = hm_local ?s1" "hm_health s' = hm_health ?s1"
    using Cons.IH[of ?s1] by blast
  have "dget (hm_tasks s') x = map_option (\<lambda>t. if x \<in> fst ` set (p # ps) \<and> ok x then t\<lparr>dt_node := b\<rparr> else t)
        (dget (hm_tasks s) x)" for x
    using s'(2) p by (cases "dget (hm_tasks s) x") (auto split: option.splits)
  moreover have "sx_iter (reassign_task fls net alive) (p # ps) s = (Inr (), s')"
    using step s'(1) by (simp add: sx_then_def sx_bind_def)
  moreover have "hm_sent s' = hm_sent s @
      map (\<lambda>p. (info_addr info, reassign_msg (fst p) (snd p))) (filter (\<lambda>p. ok (fst p)) (p # ps))"
    using s'(3) p by simp
  moreover have "hm_local s' = hm_local s" "hm_health s' = hm_health s" using s'(4,5) by simp_all
  ultimately show ?case by blast
qed

section \<open>A node declared dead\<close>

text \<open>
  The state from which a node does not come back: waiting for the handshake, or dead with the
  retries used up.
\<close>

definition gone :: "string \<Rightarrow> hmon \<Rightarrow> bool" where
  "gone i s \<longleftrightarrow> (\<exists>h. dget (hm_health s) i = Some h \<and> nh_status h \<noteq> Alive \<and> nh_status h \<noteq> Flapping \<and>
     (dgetd (hm_rejoin s) i False \<or> nh_status h = Dead \<and> nh_fail h \<ge> 3))"

lemma gone_cong:
  "hm_health s' = hm_health s \<Longrightarrow> hm_rejoin s' = hm_rejoin s \<Longrightarrow> gone i s' = gone i s"
  by (simp add: gone_def)

lemma set_health_fields [simp]:
  "hm_rejoin (set_health i f s) = hm_rejoin s" "hm_changes (set_health i f s) = hm_changes s"
  "hm_tasks (set_health i f s) = hm_tasks s" "hm_sent (set_health i f s) = hm_sent s"
  "hm_local (set_health i f s) = hm_local s"
  "dget (hm_health (set_health i f s)) j = (if j = i then map_option f (dget (hm_health s) i) else dget (hm_health s) j)"
  by (simp_all add: set_health_def split: option.splits)

lemma record_state_change_fields [simp]:
  "hm_rejoin (record_state_change now i st s) = hm_rejoin s" "hm_health (record_state_change now i st s) = hm_health s"
  "hm_tasks (record_state_change now i st s) = hm_tasks s" "hm_sent (record_state_change now i st s) = hm_sent s"
  "hm_local (record_state_change now i st s) = hm_local s"
  by (simp_all add: record_state_change_def)

lemma publish_ev_fields [simp]:
  "hm_rejoin (publish_ev ty i s) = hm_rejoin s" "hm_health (publish_ev ty i s) = hm_health s"
  "hm_tasks (publish_ev ty i s) = hm_tasks s" "hm_sent (publish_ev ty i s) = hm_sent s"
  "hm_local (publish_ev ty i s) = hm_local s" "hm_changes (publish_ev ty i s) = hm_changes s"
  by (simp_all add: publish_ev_def)

lemma gone_simps [simp]:
  "gone i (record_state_change now j st s) = gone i s" "gone i (publish_ev ty j s) = gone i s"
  "gone i (set_health j (\<lambda>h. h\<lparr>nh_ping := g h\<rparr>) s) = gone i s"
  "j \<noteq> i \<Longrightarrow> gone i (set_health j f s) = gone i s"
  by (auto simp: gone_def)

lemma validate_fails: "\<not> validate_handshake (Some k) me i"
  by (simp add: validate_handshake_def is_trusted_def new_security_def din_def)

lemma ping_ok_gone: "gone i s \<Longrightarrow> gone i (ping_ok now (Some k) me ms j s)"
  by (cases "j = i") (auto simp: gone_def ping_ok_def Let_def get_node_status_def validate_fails)

lemma ping_ok_other [simp]: "j \<noteq> i \<Longrightarrow> dget (hm_health (ping_ok now key me ms j s)) i = dget (hm_health s) i"
  by (simp add: ping_ok_def Let_def)

definition rest_same :: "hmon \<Rightarrow> hmon \<Rightarrow> bool" where
  "rest_same s t \<longleftrightarrow> hm_health t = hm_health s \<and> hm_rejoin t = hm_rejoin s \<and> hm_changes t = hm_changes s"

lemma on_node_dead_rest: "rest_same s (snd (on_node_dead fls net peers i s))"
proof -
  have r: "sx_keeps (rest_same s) (reassign_task fls net alive p)" for alive p
    unfolding reassign_task_def by (cases p) (auto intro!: inv_intros simp: Let_def rest_same_def)
  have l: "sx_keeps (rest_same s) (run_locally p)" for p
    unfolding run_locally_def by (intro inv_intros) (simp add: rest_same_def)
  have "sx_keeps (rest_same s) (on_node_dead fls net peers i)"
    unfolding on_node_dead_def by (intro inv_intros r l)
  from sx_keepsD[OF this, of s] show ?thesis by (simp add: rest_same_def)
qed

lemma on_node_dead_gone: "gone i (snd (on_node_dead fls net peers j s)) = gone i s"
  using on_node_dead_rest[of s fls net peers j] by (intro gone_cong) (simp_all add: rest_same_def)

lemma ping_fail_gone: "sx_keeps (gone i) (ping_fail fls net now peers j)"
proof (cases "j = i")
  case False
  have "sx_keeps (gone i) (on_node_dead fls net peers j)"
    by (simp add: sx_keeps_def on_node_dead_gone)
  then show ?thesis using False unfolding ping_fail_def by (intro inv_intros) simp_all
next
  case True
  show ?thesis
    unfolding sx_keeps_def
  proof (intro allI impI)
    fix s assume g: "gone i s"
    then obtain h where h: "dget (hm_health s) i = Some h" "nh_status h \<noteq> Alive" "nh_status h \<noteq> Flapping"
      "dgetd (hm_rejoin s) i False \<or> nh_status h = Dead \<and> nh_fail h \<ge> 3" by (auto simp: gone_def)
    let ?s1 = "set_health i (\<lambda>h. h\<lparr>nh_fail := nh_fail h + 1\<rparr>) s"
    have h1: "dget (hm_health ?s1) i = Some (h\<lparr>nh_fail := nh_fail h + 1\<rparr>)" using h(1) by simp
    show "gone i (snd (ping_fail fls net now peers j s))"
    proof (cases "nh_fail h + 1 \<ge> MAX_RETRIES")
      case big: True
      show ?thesis
      proof (cases "nh_status h = Dead")
        case True
        then show ?thesis
          using h big \<open>j = i\<close> by (auto simp: ping_fail_def sx_defs gone_def)
      next
        case False
        then have rj: "dgetd (hm_rejoin s) i False" using h(4) by simp
        let ?s2 = "record_state_change now i Dead (set_health i (\<lambda>h. h\<lparr>nh_status := Dead\<rparr>) ?s1)"
        have "gone i ?s2" using h(1) rj by (simp add: gone_def)
        then have s3: "gone i (snd (on_node_dead fls net peers i ?s2))" by (simp add: on_node_dead_gone)
        obtain r t where res: "on_node_dead fls net peers i ?s2 = (r, t)" by (cases "on_node_dead fls net peers i ?s2")
        have "gone i t" using s3 res by simp
        moreover have "snd (ping_fail fls net now peers j s) = (case r of Inl e \<Rightarrow> t | Inr x \<Rightarrow> publish_ev ''node.dead'' i t)"
          using h(1) big False \<open>j = i\<close> res by (simp add: ping_fail_def sx_defs split: sum.splits)
        ultimately show ?thesis by (cases r) simp_all
      qed
    next
      case small: False
      then have "dgetd (hm_rejoin s) i False" using h(4) by (simp add: MAX_RETRIES_def)
      then show ?thesis using h(1) small \<open>j = i\<close> by (simp add: ping_fail_def sx_defs gone_def)
    qed
  qed
qed

lemma check_node_gone: "sx_keeps (gone i) (check_node fls net ping (Some k) me now peers p)"
proof -
  obtain j info where p: "p = (j, info)" by (cases p)
  have a: "sx_keeps (gone i) (sx_modify (\<lambda>s. if din j (hm_health s) then s
          else publish_ev ''node.joined'' j (s\<lparr>hm_health := dset j x (hm_health s)\<rparr>)))" for x
    by (intro inv_intros) (auto simp: gone_def din_def)
  have b: "sx_keeps (gone i) (sx_modify (set_health j (\<lambda>h. h\<lparr>nh_ping := g h\<rparr>)))" for g
    by (intro inv_intros) simp
  have c: "sx_keeps (gone i) (sx_modify (ping_ok now (Some k) me ms j))" for ms
    by (intro inv_intros ping_ok_gone)
  show ?thesis
    unfolding check_node_def p
    using a b c ping_fail_gone
    by (auto intro!: sx_keeps_then sx_keeps_basic split: option.splits)
qed

lemma sweep_node_gone: "gone i s \<Longrightarrow> gone i (sweep_node now j s)"
  by (cases "j = i") (auto simp: gone_def sweep_node_def split: option.splits)

lemma sweep_gone: "gone i s \<Longrightarrow> gone i (sweep now s)"
proof -
  have "gone i s \<Longrightarrow> gone i (fold (sweep_node now) js s)" for js
    by (induction js arbitrary: s) (simp_all add: sweep_node_gone)
  then show "gone i s \<Longrightarrow> gone i (sweep now s)" by (simp add: sweep_def)
qed

lemma health_turn_gone: "sx_keeps (gone i) (health_turn fls net ping (Some k) me now peers)"
  unfolding health_turn_def by (intro inv_intros check_node_gone sweep_gone)

section \<open>A node that vanished from the peer list\<close>

definition untouched :: "string \<Rightarrow> dtask \<Rightarrow> (pyval \<times> pyobj) list \<Rightarrow> string list \<Rightarrow> hmon \<Rightarrow> bool" where
  "untouched tid t sent loc s \<longleftrightarrow> distinct (dkeys (hm_tasks s)) \<and> dget (hm_tasks s) tid = Some t \<and>
     filter (\<lambda>(a, m). oget m ''task_id'' = PStr tid) (hm_sent s) = sent \<and>
     filter (\<lambda>x. x = tid) (hm_local s) = loc"

lemma untouched_simps [simp]:
  "untouched tid t sent loc (set_health j f s) = untouched tid t sent loc s"
  "untouched tid t sent loc (record_state_change now j st s) = untouched tid t sent loc s"
  "untouched tid t sent loc (publish_ev ty j s) = untouched tid t sent loc s"
  "untouched tid t sent loc (s\<lparr>hm_health := x\<rparr>) = untouched tid t sent loc s"
  "untouched tid t sent loc (s\<lparr>hm_rejoin := y\<rparr>) = untouched tid t sent loc s"
  by (simp_all add: untouched_def)

lemma untouched_move:
  assumes "untouched tid t sent loc s" and "x \<noteq> tid"
  shows "untouched tid t sent loc (s\<lparr>hm_sent := hm_sent s @ [(a, reassign_msg x t')],
    hm_tasks := (case dget (hm_tasks s) x of None \<Rightarrow> hm_tasks s | Some u \<Rightarrow> dset x (f u) (hm_tasks s))\<rparr>)"
  using assms by (cases "dget (hm_tasks s) x")
    (simp_all add: untouched_def reassign_msg_def oget_def dgetd_def dict_inv del: map_of_eq_Some_iff)

lemma untouched_reassign:
  "fst p \<noteq> tid \<Longrightarrow> sx_keeps (untouched tid t sent loc) (reassign_task fls net alive p)"
  unfolding reassign_task_def
  by (cases p) (auto intro!: inv_intros untouched_move simp: Let_def)

lemma untouched_local: "fst p \<noteq> tid \<Longrightarrow> sx_keeps (untouched tid t sent loc) (run_locally p)"
  unfolding run_locally_def by (intro inv_intros) (simp add: untouched_def)

lemma pending_other:
  assumes "untouched tid t sent loc s" and "dt_node t \<noteq> j" and "p \<in> set (get_pending_tasks j s)"
  shows "fst p \<noteq> tid"
proof
  assume "fst p = tid"
  then obtain t' where p: "p = (tid, t')" by (cases p) simp
  then have m: "(tid, t') \<in> set (hm_tasks s)" "dt_node t' = j" using assms(3) by (auto simp: get_pending_tasks_def)
  then have "dget (hm_tasks s) tid = Some t'" using assms(1) by (intro map_of_is_SomeI) (simp_all add: untouched_def)
  then show False using assms(1,2) m(2) by (simp add: untouched_def)
qed

lemma untouched_dead:
  "dt_node t \<noteq> j \<Longrightarrow> sx_keeps (untouched tid t sent loc) (on_node_dead fls net peers j)"
  unfolding on_node_dead_def
  by (rule sx_keeps_get_bind)
    (auto intro!: inv_intros sx_keeps_iter_set untouched_reassign untouched_local dest: pending_other)

lemma untouched_ping_ok [simp]: "untouched tid t sent loc (ping_ok now key me ms j s) = untouched tid t sent loc s"
  by (simp add: ping_ok_def Let_def)

lemma untouched_check:
  assumes "dt_node t \<noteq> fst p"
  shows "sx_keeps (untouched tid t sent loc) (check_node fls net ping key me now peers p)"
proof -
  have "sx_keeps (untouched tid t sent loc) (ping_fail fls net now peers (fst p))"
    unfolding ping_fail_def using untouched_dead[OF assms] by (intro inv_intros) simp_all
  then show ?thesis
    unfolding check_node_def by (cases p) (auto intro!: inv_intros split: option.splits)
qed

lemma untouched_sweep: "untouched tid t sent loc s \<Longrightarrow> untouched tid t sent loc (sweep now s)"
proof -
  have "untouched tid t sent loc s \<Longrightarrow> untouched tid t sent loc (fold (sweep_node now) js s)" for js
    by (induction js arbitrary: s) (simp_all add: sweep_node_def split: option.splits)
  then show "untouched tid t sent loc s \<Longrightarrow> untouched tid t sent loc (sweep now s)" by (simp add: sweep_def)
qed

lemma untouched_turn:
  assumes "dt_node t \<notin> set (dkeys peers)"
  shows "sx_keeps (untouched tid t sent loc) (health_turn fls net ping key me now peers)"
  unfolding health_turn_def using assms
  by (intro inv_intros sx_keeps_iter_set untouched_check untouched_sweep) force+

text \<open>Turns of the monitor, each with its network, clock and peer list.\<close>

type_synonym turn = "(string \<Rightarrow> pyval \<Rightarrow> nat \<Rightarrow> bool) \<times> (string \<Rightarrow> int option) \<times> string option \<times> string \<times> real \<times>
  (string, pyobj) pydict"

definition turn_peers :: "turn \<Rightarrow> (string, pyobj) pydict" where
  "turn_peers tn = snd (snd (snd (snd (snd tn))))"

definition turn_key :: "turn \<Rightarrow> string option" where
  "turn_key tn = fst (snd (snd tn))"

definition run_turns :: "(string \<Rightarrow> real result) \<Rightarrow> turn list \<Rightarrow> hmon \<Rightarrow> hmon" where
  "run_turns fls ts s = fold (\<lambda>(net, ping, key, me, now, peers) s. snd (health_turn fls net ping key me now peers s)) ts s"

lemma turn_step_untouched:
  "dt_node t \<notin> set (dkeys peers) \<Longrightarrow> untouched tid t sent loc s \<Longrightarrow>
    untouched tid t sent loc (snd (health_turn fls net ping key me now peers s))"
  by (rule sx_keepsD [OF untouched_turn])

lemma turn_step_gone: "gone i s \<Longrightarrow> gone i (snd (health_turn fls net ping (Some k) me now peers s))"
  by (rule sx_keepsD [OF health_turn_gone])

lemma run_turns_untouched:
  "list_all (\<lambda>tn. dt_node t \<notin> set (dkeys (turn_peers tn))) ts \<Longrightarrow> untouched tid t sent loc s \<Longrightarrow>
    untouched tid t sent loc (run_turns fls ts s)"
  unfolding run_turns_def
  by (induction ts arbitrary: s) (auto simp: turn_peers_def turn_step_untouched)

lemma run_turns_gone:
  "list_all (\<lambda>tn. turn_key tn \<noteq> None) ts \<Longrightarrow> gone i s \<Longrightarrow> gone i (run_turns fls ts s)"
  unfolding run_turns_def
  by (induction ts arbitrary: s) (auto simp: turn_key_def turn_step_gone)

lemma sweep_status:
  assumes "dget (hm_health s) i = Some h" and "now - nh_last h > 30" and "nh_status h \<noteq> Reconnecting"
  shows "get_node_status i (sweep now s) = Some Dead"
proof -
  have dead: "get_node_status i s = Some Dead \<Longrightarrow> get_node_status i (fold (sweep_node now) js s) = Some Dead" for js s
    by (induction js arbitrary: s) (auto simp: get_node_status_def sweep_node_def split: option.splits)
  have "i \<in> set js \<Longrightarrow> dget (hm_health s) i = Some h \<Longrightarrow> get_node_status i (fold (sweep_node now) js s) = Some Dead" for js s
  proof (induction js arbitrary: s)
    case Nil
    then show ?case by simp
  next
    case (Cons j js)
    show ?case
    proof (cases "j = i")
      case True
      have "get_node_status i (sweep_node now i s) = Some Dead"
        using Cons.prems(2) assms(2,3) by (auto simp: get_node_status_def sweep_node_def DEAD_THRESHOLD_def)
      then show ?thesis using dead True by simp
    next
      case False
      then have "dget (hm_health (sweep_node now j s)) i = Some h"
        using Cons.prems(2) by (simp add: sweep_node_def split: option.splits)
      then show ?thesis using Cons False by simp
    qed
  qed
  moreover have "i \<in> set (dkeys (hm_health s))" using assms(1) by (metis map_of_SomeD fst_conv image_eqI set_map)
  ultimately show ?thesis using assms(1) by (simp add: sweep_def)
qed

section \<open>Properties\<close>

lemma mset_filter_split: "mset (map f (filter P xs)) + mset (map f (filter (\<lambda>x. \<not> P x) xs)) = mset (map f xs)"
  by (induction xs) auto





text \<open>
  A node that is no longer in the peer list is declared dead by the sweep, but its tasks
  are never reassigned: through any number of turns without it each of them keeps the dead
  node, and is neither sent to another peer nor run locally.
\<close>
theorem vanished_node_keeps_tasks:
  assumes "distinct (dkeys (hm_tasks s))" and "dget (hm_tasks s) tid = Some t"
    and "dget (hm_health s) (dt_node t) = Some h" and "now - nh_last h > 30" and "nh_status h \<noteq> Reconnecting"
    and "list_all (\<lambda>tn. dt_node t \<notin> set (dkeys (turn_peers tn))) ts"
  shows "get_node_status (dt_node t) (sweep now s) = Some Dead \<and>
    dget (hm_tasks (run_turns fls ts (sweep now s))) tid = Some t \<and>
    filter (\<lambda>(a, m). oget m ''task_id'' = PStr tid) (hm_sent (run_turns fls ts (sweep now s))) =
      filter (\<lambda>(a, m). oget m ''task_id'' = PStr tid) (hm_sent s) \<and>
    filter (\<lambda>x. x = tid) (hm_local (run_turns fls ts (sweep now s))) = filter (\<lambda>x. x = tid) (hm_local s)"
proof -
  have "untouched tid t (filter (\<lambda>(a, m). oget m ''task_id'' = PStr tid) (hm_sent s))
      (filter (\<lambda>x. x = tid) (hm_local s)) s"
    using assms(1,2) by (simp add: untouched_def)
  from run_turns_untouched[OF assms(6) untouched_sweep[OF this]] sweep_status[OF assms(3-5)]
  show ?thesis by (simp add: untouched_def)
qed

theorem vanished_node_keeps_tasks_witness:
  "dget (hm_tasks (sweep 100 (record_task 1 ''t1'' ''trend'' ''n'' ''temperature'' (new_hmon\<lparr>hm_health :=
     [(''n'', \<lparr>nh_status = Alive, nh_last = 0, nh_fail = 1, nh_ping = 4, nh_ms = 0\<rparr>)]\<rparr>)))) ''t1'' =
   Some \<lparr>dt_type = ''trend'', dt_node = ''n'', dt_assigned = 1, dt_sensor = ''temperature''\<rparr>"
proof -
  let ?h = "\<lparr>nh_status = Alive, nh_last = 0, nh_fail = 1, nh_ping = 4, nh_ms = 0\<rparr>"
  let ?s = "record_task 1 ''t1'' ''trend'' ''n'' ''temperature'' (new_hmon\<lparr>hm_health := [(''n'', ?h)]\<rparr>)"
  have "distinct (dkeys (hm_tasks ?s))" by (simp add: record_task_def new_hmon_def)
  from vanished_node_keeps_tasks[OF this, of "''t1''" _ ?h 100 "[]"] show ?thesis
    by (simp add: record_task_def run_turns_def)
qed

text \<open>
  C11. A node that has been declared dead after three failed probes never becomes alive or
  trusted again, whatever its probes give in any later turns, as long as the key file can be
  read: the handshake check asks a fresh security object, which trusts nobody.
\<close>
theorem dead_node_stays_out:
  assumes "dget (hm_health s) i = Some h" and "nh_status h = Dead" and "nh_fail h \<ge> 3"
    and "list_all (\<lambda>tn. turn_key tn \<noteq> None) ts"
  shows "get_node_status i (run_turns fls ts s) \<in> {Some Dead, Some Reconnecting, Some Degraded} \<and>
    \<not> is_node_trusted now i (run_turns fls ts s)"
proof -
  have "gone i s" using assms(1-3) by (auto simp: gone_def)
  then have "gone i (run_turns fls ts s)" by (rule run_turns_gone[OF assms(4)])
  then obtain h' where "dget (hm_health (run_turns fls ts s)) i = Some h'" "nh_status h' \<noteq> Alive" "nh_status h' \<noteq> Flapping"
    by (auto simp: gone_def)
  then show ?thesis by (cases "nh_status h'") (simp_all add: get_node_status_def is_node_trusted_def)
qed

theorem dead_node_stays_out_witness:
  "\<not> is_node_trusted 7 ''n'' (run_turns (\<lambda>_. Inr 0)
     [(\<lambda>_ _ _. True, \<lambda>_. Some 3, Some ''key'', ''me'', 5, [(''n'', [(''addr'', PStr ''10.0.0.4'')])]),
      (\<lambda>_ _ _. True, \<lambda>_. Some 3, Some ''key'', ''me'', 6, [(''n'', [(''addr'', PStr ''10.0.0.4'')])])]
     (new_hmon\<lparr>hm_health := [(''n'', \<lparr>nh_status = Dead, nh_last = 0, nh_fail = 3, nh_ping = 9, nh_ms = 0\<rparr>)]\<rparr>))"
  by (rule dead_node_stays_out [THEN conjunct2,
        of _ _ "\<lparr>nh_status = Dead, nh_last = 0, nh_fail = 3, nh_ping = 9, nh_ms = 0\<rparr>"])
    (simp_all add: turn_key_def)

text \<open>
  A node declared dead by the sweep gets back without the handshake: one failed probe
  turns it from dead to degraded, and the next successful probe makes it alive, unless it is
  flapping.
\<close>
theorem rejoin_without_handshake:
  assumes "dget (hm_health s) i = Some h" and "nh_status h = Dead" and "nh_fail h = 0"
    and "\<not> dgetd (hm_rejoin s) i False" and "\<not> is_flapping now' i s"
  shows "get_node_status i (snd (ping_fail fls net now peers i s)) = Some Degraded \<and>
    get_node_status i (ping_ok now' key me ms i (snd (ping_fail fls net now peers i s))) = Some Alive"
proof -
  have f: "snd (ping_fail fls net now peers i s) =
      set_health i (\<lambda>h. h\<lparr>nh_status := Degraded\<rparr>) (set_health i (\<lambda>h. h\<lparr>nh_fail := nh_fail h + 1\<rparr>) s)"
    using assms(1,3) by (simp add: ping_fail_def sx_defs MAX_RETRIES_def)
  show ?thesis
    unfolding f using assms by (simp add: ping_ok_def get_node_status_def Let_def is_flapping_def)
qed

theorem rejoin_without_handshake_witness:
  "get_node_status ''n'' (ping_ok 50 (Some ''key'') ''me'' 4 ''n'' (snd (ping_fail (\<lambda>_. Inr 0) (\<lambda>_ _ _. True) 40 [] ''n''
     (new_hmon\<lparr>hm_health := [(''n'', \<lparr>nh_status = Dead, nh_last = 0, nh_fail = 0, nh_ping = 9, nh_ms = 0\<rparr>)]\<rparr>)))) = Some Alive"
  by (rule rejoin_without_handshake [THEN conjunct2,
        of _ _ "\<lparr>nh_status = Dead, nh_last = 0, nh_fail = 0, nh_ping = 9, nh_ms = 0\<rparr>"])
    (simp_all add: new_hmon_def dgetd_def is_flapping_def FLAPPING_THRESHOLD_def)

end
