(* ===== verification/Decomposer.thy ===== *)
theory Decomposer
  imports Workers
begin

text \<open>
  The assignment of the tasks to nodes: \<open>ml/task_decomposer.py\<close>.  \<open>known\<close> is the table of peers,
  \<open>me\<close> the host name of this node and \<open>parse\<close> what \<open>float\<close> does with a string.
\<close>

section \<open>Capabilities\<close>

definition TASK_REQUIREMENTS :: "string \<Rightarrow> bool \<times> real" where
  "TASK_REQUIREMENTS t =
     (if t = ''action'' then (True, 40) else if t = ''trend'' then (False, 20)
      else if t = ''anomaly'' then (False, 15) else if t = ''clean'' then (False, 5)
      else if t = ''history'' then (False, 10) else (False, 0))"

definition normalize_caps :: "pyobj \<Rightarrow> pyobj" where
  "normalize_caps caps =
     (let inner = (case dget caps ''caps'' of Some (PDict d) \<Rightarrow> d | _ \<Rightarrow> []);
          pick = (\<lambda>k x. (k, py_or (oget caps k) (dgetd inner k x)))
      in [pick ''ram_gb'' (PInt 0), pick ''cpu_cores'' (PInt 0), pick ''roles'' (PList []), pick ''models'' (PList []),
          pick ''ollama_running'' (PBool False),
          (''ip'', py_or (oget caps ''ip'') (dgetd caps ''addr'' (PStr ''127.0.0.1''))),
          pick ''benchmark'' (PDict [])])"

definition local_caps :: pyobj where
  "local_caps = [(''ram_gb'', PInt 0), (''cpu_cores'', PInt 0), (''roles'', PList []), (''models'', PList []),
     (''ollama_running'', PBool False), (''ip'', PStr ''127.0.0.1'')]"

definition inner_caps :: "pyobj \<Rightarrow> pyobj" where
  "inner_caps caps = (case dget caps ''caps'' of Some (PDict d) \<Rightarrow> d | _ \<Rightarrow> caps)"

definition parse_float :: "(string \<Rightarrow> real result) \<Rightarrow> pyval \<Rightarrow> real result" where
  "parse_float parse v = (case v of PStr s \<Rightarrow> parse s | _ \<Rightarrow> to_num v)"

definition score_node :: "(string \<Rightarrow> real result) \<Rightarrow> pyobj \<Rightarrow> real result" where
  "score_node parse caps =
     (let inner = inner_caps caps; bench = dgetd inner ''benchmark'' (PDict []);
          roles = dgetd inner ''roles'' (PList []); models = dgetd inner ''models'' (PList []) in
      bindE (bindE (pget bench ''composite'' (PInt 0)) to_num) (\<lambda>c.
      if c > 0 then Inr c
      else
        bindE (parse_float parse (dgetd inner ''ram_gb'' (PInt 0))) (\<lambda>ram.
        bindE (parse_float parse (dgetd inner ''cpu_cores'' (PInt 0))) (\<lambda>cpu.
        bindE (py_in ''brain'' roles) (\<lambda>brain.
        bindE (py_in ''gpu'' roles) (\<lambda>gpu.
        bindE (if truthy models then py_len models else Inr 0) (\<lambda>n.
        Inr (pyround (ram * 2 + cpu * (3/2) + (if brain then 30 else 0) + (if gpu then 40 else 0)
          + (if truthy (dgetd inner ''ollama_running'' (PBool False)) then 20 else 0) + real n * 5) 1))))))))"

definition node_can_run_task :: "string \<Rightarrow> pyobj \<Rightarrow> bool result" where
  "node_can_run_task t caps =
     (let (llm, min_composite) = TASK_REQUIREMENTS t; bench = dgetd (inner_caps caps) ''benchmark'' (PDict []) in
      bindE (if llm then bindE (pget bench ''llm_available'' PNone) (\<lambda>v. Inr (\<not> truthy v)) else Inr False) (\<lambda>lacks.
      if lacks then Inr False
      else if \<not> truthy bench then Inr True
      else bindE (bindE (pget bench ''composite'' (PInt 0)) to_num) (\<lambda>c. Inr (c \<ge> min_composite))))"

definition has_ollama :: "pyobj \<Rightarrow> bool" where
  "has_ollama caps = truthy (dgetd (inner_caps caps) ''ollama_running'' (PBool False))"

section \<open>Choosing\<close>

text \<open>\<open>max(xs, key=f)\<close> on keys of unknown type: every key is computed and compared with the best so far.\<close>

fun max_onE :: "('a \<Rightarrow> pyval result) \<Rightarrow> 'a \<times> pyval \<Rightarrow> 'a list \<Rightarrow> 'a result" where
  "max_onE f b [] = Inr (fst b)"
| "max_onE f b (x # xs) = bindE (f x) (\<lambda>k. bindE (py_lt (snd b) k) (\<lambda>l. max_onE f (if l then (x, k) else b) xs))"

definition py_maxE :: "('a \<Rightarrow> pyval result) \<Rightarrow> 'a list \<Rightarrow> 'a result" where
  "py_maxE f xs = (case xs of [] \<Rightarrow> Inl (ValueError ''max() arg is an empty sequence'')
     | x # ys \<Rightarrow> bindE (f x) (\<lambda>k. max_onE f (x, k) ys))"

type_synonym ranking = "(string, pyobj) pydict"

definition eligible_for :: "ranking \<Rightarrow> string \<Rightarrow> string list result" where
  "eligible_for ranked t =
     bindE (mapE (\<lambda>(nid, caps). bindE (node_can_run_task t caps) (\<lambda>b. Inr (nid, b))) ranked) (\<lambda>bs.
     let eligible = map fst (filter snd bs) in Inr (if eligible = [] then [fst (hd ranked)] else eligible))"

definition best_by :: "ranking \<Rightarrow> string \<Rightarrow> string list \<Rightarrow> string result" where
  "best_by ranked metric candidates = py_maxE (\<lambda>nid. Inr (dgetd (dgetd ranked nid []) metric (PInt 0))) candidates"

definition action_key :: "pyobj \<Rightarrow> pyval result" where
  "action_key caps = bindE (pget (dgetd caps ''benchmark'' (PDict [])) ''llm_tps'' (PInt 0)) (\<lambda>t.
     Inr (py_or t (PFloat (if has_ollama caps then 10 else 0))))"

text \<open>The node of the \<open>i\<close>-th light task: among the idle eligible nodes, or all eligible ones.\<close>

definition light_node :: "string list \<Rightarrow> nat \<Rightarrow> string list \<Rightarrow> string" where
  "light_node assigned i eligible =
     (let idle = filter (\<lambda>nid. nid \<notin> set assigned) eligible; c = (if idle \<noteq> [] then idle else eligible)
      in c ! (i mod length c))"

section \<open>The plan\<close>

record plan_entry =
  as_node :: string
  as_local :: bool
  as_ip :: pyval

definition assign_to :: "string \<Rightarrow> ranking \<Rightarrow> string \<Rightarrow> plan_entry" where
  "assign_to me ranked nid = \<lparr>as_node = nid, as_local = (nid = me), as_ip = oget (dgetd ranked nid []) ''ip''\<rparr>"

definition plan_nodes :: "string \<Rightarrow> ranking \<Rightarrow> ranking" where
  "plan_nodes me known =
     (let nodes = map (\<lambda>(nid, caps). (nid, normalize_caps caps)) known
      in if din me nodes then nodes else nodes @ [(me, local_caps)])"

definition rank_nodes :: "(string \<Rightarrow> real result) \<Rightarrow> ranking \<Rightarrow> ranking result" where
  "rank_nodes parse nodes =
     bindE (mapE (\<lambda>(nid, caps). bindE (score_node parse caps) (\<lambda>s. Inr (s, nid, caps))) nodes) (\<lambda>xs.
     Inr (map snd (sort_key_desc fst xs)))"

definition decompose :: "(string \<Rightarrow> real result) \<Rightarrow> string \<Rightarrow> ranking \<Rightarrow> (string, plan_entry) pydict result" where
  "decompose parse me known =
     bindE (rank_nodes parse (plan_nodes me known)) (\<lambda>ranked.
     if length ranked = 1 then Inr (map (\<lambda>t. (t, assign_to me ranked (fst (hd ranked)))) TASKS)
     else
       bindE (eligible_for ranked ''action'') (\<lambda>ea.
       bindE (py_maxE (\<lambda>nid. action_key (dgetd ranked nid [])) ea) (\<lambda>action_node.
       bindE (eligible_for ranked ''trend'') (\<lambda>et.
       bindE (eligible_for ranked ''anomaly'') (\<lambda>en.
       bindE (best_by ranked ''ram_gb'' et) (\<lambda>trend_node.
       bindE (best_by ranked ''cpu_cores'' en) (\<lambda>anomaly_node.
       let assigned = [action_node, trend_node, anomaly_node] in
       bindE (eligible_for ranked ''clean'') (\<lambda>ec.
       bindE (eligible_for ranked ''history'') (\<lambda>eh.
       Inr (map (\<lambda>(t, nid). (t, assign_to me ranked nid))
         [(''action'', action_node), (''trend'', trend_node), (''anomaly'', anomaly_node),
          (''clean'', light_node assigned 0 ec), (''history'', light_node assigned 1 eh)]))))))))))"

section \<open>Well-formed capabilities raise nothing\<close>

definition caps_ok :: "pyobj \<Rightarrow> bool" where
  "caps_ok c \<longleftrightarrow> dget c ''caps'' = None \<and> is_num (dgetd c ''ram_gb'' (PInt 0)) \<and> is_num (dgetd c ''cpu_cores'' (PInt 0)) \<and>
     is_list (dgetd c ''roles'' (PList [])) \<and> is_list (dgetd c ''models'' (PList [])) \<and>
     (\<exists>b. dgetd c ''benchmark'' (PDict []) = PDict b \<and> is_num (dgetd b ''composite'' (PInt 0)) \<and> is_num (dgetd b ''llm_tps'' (PInt 0)))"

lemma caps_ok_local [simp]: "caps_ok local_caps"
  by (simp add: caps_ok_def local_caps_def dgetd_def is_num_def)

lemma is_num_to_num: "is_num v \<Longrightarrow> \<exists>r. to_num v = Inr r \<and> num_of v = Some r"
  by (auto simp: is_num_def to_num_def)

lemma is_list_E: "is_list v \<Longrightarrow> (\<And>xs. v = PList xs \<Longrightarrow> P) \<Longrightarrow> P"
  by (cases v) auto

lemma parse_float_num: "is_num v \<Longrightarrow> parse_float parse v = to_num v"
  by (cases v) (auto simp: parse_float_def is_num_def)

lemma score_node_ok:
  assumes "caps_ok c"
  shows "\<exists>s. score_node parse c = Inr s"
proof -
  have inner: "inner_caps c = c" using assms by (simp add: caps_ok_def inner_caps_def)
  obtain b x where b: "dgetd c ''benchmark'' (PDict []) = PDict b" "to_num (dgetd b ''composite'' (PInt 0)) = Inr x"
    using assms is_num_to_num unfolding caps_ok_def by blast
  obtain r k where rk: "parse_float parse (dgetd c ''ram_gb'' (PInt 0)) = Inr r" "parse_float parse (dgetd c ''cpu_cores'' (PInt 0)) = Inr k"
    using assms is_num_to_num parse_float_num unfolding caps_ok_def by metis
  obtain rs ms where l: "dgetd c ''roles'' (PList []) = PList rs" "dgetd c ''models'' (PList []) = PList ms"
    using assms unfolding caps_ok_def by (elim conjE is_list_E) blast
  show ?thesis by (simp add: score_node_def inner b rk l Let_def)
qed

lemma node_can_run_task_ok:
  assumes "caps_ok c"
  shows "\<exists>b. node_can_run_task t c = Inr b"
proof -
  have inner: "inner_caps c = c" using assms by (simp add: caps_ok_def inner_caps_def)
  obtain b x where b: "dgetd c ''benchmark'' (PDict []) = PDict b" "to_num (dgetd b ''composite'' (PInt 0)) = Inr x"
    using assms is_num_to_num unfolding caps_ok_def by blast
  show ?thesis by (cases "TASK_REQUIREMENTS t") (auto simp: node_can_run_task_def inner b Let_def)
qed

lemma action_key_ok:
  assumes "caps_ok c"
  shows "\<exists>k. action_key c = Inr k \<and> is_num k"
proof -
  obtain b where "dgetd c ''benchmark'' (PDict []) = PDict b" "is_num (dgetd b ''llm_tps'' (PInt 0))"
    using assms unfolding caps_ok_def by blast
  then show ?thesis by (simp add: action_key_def py_or_def is_num_def)
qed

text \<open>Over numeric keys \<open>max\<close> finds a largest element.\<close>

lemma py_lt_num: "num_of a = Some x \<Longrightarrow> num_of b = Some y \<Longrightarrow> py_lt a b = Inr (x < y)"
  by (cases a; cases b) (auto simp: py_lt.simps)

lemma max_onE_num:
  "(\<And>x. x \<in> set xs \<Longrightarrow> \<exists>k. f x = Inr k \<and> num_of k = Some (h x)) \<Longrightarrow> num_of (snd b) = Some (h (fst b)) \<Longrightarrow>
    max_onE f b xs = Inr (max_by h (fst b) xs)"
proof (induction xs arbitrary: b)
  case Nil
  then show ?case by simp
next
  case (Cons x xs)
  obtain k where k: "f x = Inr k" "num_of k = Some (h x)" using Cons.prems(1)[of x] by auto
  let ?b = "if h (fst b) < h x then (x, k) else b"
  have "max_onE f ?b xs = Inr (max_by h (fst ?b) xs)"
    by (rule Cons.IH) (use Cons.prems k in auto)
  then show ?case by (simp add: k py_lt_num[OF Cons.prems(2) k(2)] if_distrib[of fst])
qed

lemma py_maxE_num:
  assumes "xs \<noteq> []" and "\<And>x. x \<in> set xs \<Longrightarrow> \<exists>k. f x = Inr k \<and> is_num k"
  shows "\<exists>m \<in> set xs. py_maxE f xs = Inr m"
proof -
  define h where "h x = (case f x of Inr k \<Rightarrow> the (num_of k) | Inl e \<Rightarrow> 0)" for x
  have h: "\<exists>k. f x = Inr k \<and> num_of k = Some (h x)" if "x \<in> set xs" for x
    using assms(2)[OF that] by (auto simp: h_def is_num_def)
  obtain y ys where xs: "xs = y # ys" using assms(1) by (cases xs) auto
  obtain k where k: "f y = Inr k" "num_of k = Some (h y)" using h[of y] xs by auto
  have "py_maxE f xs = Inr (max_by h y ys)"
    using max_onE_num[of ys f h "(y, k)"] h k by (simp add: py_maxE_def xs)
  moreover have "max_by h y ys \<in> set xs" using max_by_in[of h y ys] xs by simp
  ultimately show ?thesis by blast
qed

section \<open>The ranking and the eligible nodes\<close>

lemma mapE_pair:
  "(\<And>x. x \<in> set xs \<Longrightarrow> \<exists>s. f x = Inr s) \<Longrightarrow> \<exists>g. (\<forall>x \<in> set xs. f x = Inr (g x)) \<and> mapE f xs = Inr (map g xs)"
proof -
  assume a: "\<And>x. x \<in> set xs \<Longrightarrow> \<exists>s. f x = Inr s"
  define g where "g x = (case f x of Inr s \<Rightarrow> s | Inl e \<Rightarrow> undefined)" for x
  have "\<forall>x \<in> set xs. f x = Inr (g x)" using a by (fastforce simp: g_def)
  then show ?thesis using mapE_Inr_map[of xs f g] by blast
qed

definition nodes_ok :: "ranking \<Rightarrow> bool" where
  "nodes_ok nodes \<longleftrightarrow> distinct (dkeys nodes) \<and> (\<forall>c \<in> set (dvals nodes). caps_ok c)"

lemma nodes_okD: "nodes_ok nodes \<Longrightarrow> (n, c) \<in> set nodes \<Longrightarrow> caps_ok c"
  by (force simp: nodes_ok_def)

lemma rank_nodes_ok:
  assumes "nodes_ok nodes"
  shows "\<exists>ranked. rank_nodes parse nodes = Inr ranked \<and> mset ranked = mset nodes"
proof -
  let ?f = "\<lambda>(nid, caps). bindE (score_node parse caps) (\<lambda>s. Inr (s, nid, caps))"
  have "\<exists>s. ?f x = Inr s" if "x \<in> set nodes" for x
  proof -
    obtain n c where x: "x = (n, c)" by (cases x)
    then show ?thesis using score_node_ok[OF nodes_okD[OF assms], of n c parse] that by auto
  qed
  from mapE_pair[of nodes ?f, OF this] obtain g where g: "\<forall>x \<in> set nodes. ?f x = Inr (g x)" "mapE ?f nodes = Inr (map g nodes)"
    by blast
  have "snd (g x) = x" if "x \<in> set nodes" for x
  proof -
    obtain n c where x: "x = (n, c)" by (cases x)
    have "bindE (score_node parse c) (\<lambda>s. Inr (s, n, c)) = Inr (g (n, c))" using g(1) that x by force
    then show ?thesis unfolding x by (simp add: bindE_Inr_iff) (metis snd_conv)
  qed
  then have "map snd (map g nodes) = nodes" by (simp add: map_idI)
  then have "image_mset snd (mset (map g nodes)) = mset nodes" by (metis mset_map)
  then have "mset (map snd (sort_key_desc fst (map g nodes))) = mset nodes"
    by (simp only: mset_map mset_sort_key_desc)
  then show ?thesis using g(2) by (simp add: rank_nodes_def)
qed

definition able :: "ranking \<Rightarrow> string \<Rightarrow> string list" where
  "able ranked t = map fst (filter (\<lambda>(n, c). node_can_run_task t c = Inr True) ranked)"

lemma eligible_for_ok:
  assumes "nodes_ok ranked" and "ranked \<noteq> []"
  shows "eligible_for ranked t = Inr (if able ranked t = [] then [fst (hd ranked)] else able ranked t)"
proof -
  let ?f = "\<lambda>(nid, caps). bindE (node_can_run_task t caps) (\<lambda>b. Inr (nid, b))"
  have "?f x = Inr (fst x, node_can_run_task t (snd x) = Inr True)" if "x \<in> set ranked" for x
  proof -
    obtain n c where x: "x = (n, c)" by (cases x)
    then show ?thesis using node_can_run_task_ok[OF nodes_okD[OF assms(1)], of n c t] that by auto
  qed
  then have "mapE ?f ranked = Inr (map (\<lambda>x. (fst x, node_can_run_task t (snd x) = Inr True)) ranked)"
    by (rule mapE_Inr_map)
  moreover have "map fst (filter snd (map (\<lambda>x. (fst x, node_can_run_task t (snd x) = Inr True)) ranked)) = able ranked t"
    by (simp add: able_def filter_map comp_def split_def)
  ultimately show ?thesis by (simp only: eligible_for_def Let_def bindE_simps)
qed

text \<open>A list of nodes the program may choose from for a task.\<close>

definition choice :: "ranking \<Rightarrow> string \<Rightarrow> string list \<Rightarrow> bool" where
  "choice ranked t e \<longleftrightarrow> eligible_for ranked t = Inr e \<and> e \<noteq> [] \<and> set e \<subseteq> set (dkeys ranked) \<and>
     (able ranked t \<noteq> [] \<longrightarrow> e = able ranked t)"

lemma choice_ex:
  assumes "nodes_ok ranked" and "ranked \<noteq> []"
  shows "\<exists>e. choice ranked t e"
proof -
  have "set (able ranked t) \<subseteq> set (dkeys ranked)" by (auto simp: able_def)
  then show ?thesis using eligible_for_ok[OF assms, of t] assms(2) by (auto simp: choice_def)
qed

lemma caps_ok_of:
  assumes "nodes_ok ranked" and "nid \<in> set (dkeys ranked)"
  shows "caps_ok (dgetd ranked nid [])"
proof -
  obtain c where c: "dget ranked nid = Some c" using assms(2) by (metis map_of_eq_None_iff not_Some_eq set_map)
  then have "caps_ok c" using nodes_okD[OF assms(1)] map_of_SomeD by metis
  with c show ?thesis by (simp add: dgetd_def)
qed

lemma light_node_in:
  assumes "e \<noteq> []"
  shows "light_node assigned i e \<in> set e"
proof -
  let ?c = "if filter (\<lambda>nid. nid \<notin> set assigned) e \<noteq> [] then filter (\<lambda>nid. nid \<notin> set assigned) e else e"
  have c: "?c \<noteq> []" "set ?c \<subseteq> set e" using assms by auto
  then have "?c ! (i mod length ?c) \<in> set ?c" by (intro nth_mem mod_less_divisor) (simp only: length_greater_0_conv simp_thms)
  with c(2) show ?thesis unfolding light_node_def Let_def by blast
qed

lemma nodes_ok_mset: "mset ranked = mset nodes \<Longrightarrow> nodes_ok nodes \<Longrightarrow> nodes_ok ranked \<and> dget ranked = dget nodes \<and> set ranked = set nodes"
proof -
  assume m: "mset ranked = mset nodes" and ok: "nodes_ok nodes"
  then have s: "set ranked = set nodes" "distinct (dkeys ranked)"
    by (metis mset_eq_setD, metis mset_map mset_eq_imp_distinct_iff nodes_ok_def)
  moreover have "dget ranked = dget nodes" using s ok by (auto simp: nodes_ok_def map_of_inject_set)
  ultimately show ?thesis using ok by (auto simp: nodes_ok_def)
qed

lemma plan_nodes_ok:
  assumes "distinct (dkeys known)" and "list_all (\<lambda>(n, c). caps_ok (normalize_caps c)) known"
  shows "nodes_ok (plan_nodes me known)"
proof -
  let ?nodes = "map (\<lambda>(nid, caps). (nid, normalize_caps caps)) known"
  have k: "dkeys ?nodes = dkeys known" by (simp add: comp_def split_def)
  have v: "\<forall>c \<in> set (dvals ?nodes). caps_ok c" using assms(2) by (auto simp: list_all_iff)
  show ?thesis using assms(1) v by (auto simp: plan_nodes_def nodes_ok_def Let_def din_iff k simp del: map_map set_map)
qed

definition plan_ok :: "string \<Rightarrow> ranking \<Rightarrow> (string, plan_entry) pydict \<Rightarrow> bool" where
  "plan_ok me nodes plan \<longleftrightarrow> distinct (dkeys plan) \<and> set (dkeys plan) = set TASKS \<and>
     (\<forall>(t, a) \<in> set plan. \<exists>c. dget nodes (as_node a) = Some c \<and> as_local a = (as_node a = me) \<and> as_ip a = oget c ''ip'' \<and>
        (able nodes t \<noteq> [] \<longrightarrow> node_can_run_task t c = Inr True))"

definition assigned_ok :: "ranking \<Rightarrow> string \<Rightarrow> string \<Rightarrow> bool" where
  "assigned_ok ranked t nid \<longleftrightarrow> nid \<in> set (dkeys ranked) \<and> (able ranked t \<noteq> [] \<longrightarrow> nid \<in> set (able ranked t))"

lemma assigned_okD:
  assumes "nodes_ok ranked" and "assigned_ok ranked t nid"
  shows "\<exists>c. dget ranked nid = Some c \<and> dgetd ranked nid [] = c \<and> (able ranked t \<noteq> [] \<longrightarrow> node_can_run_task t c = Inr True)"
proof -
  have d: "distinct (dkeys ranked)" using assms(1) by (simp add: nodes_ok_def)
  obtain c where c: "dget ranked nid = Some c"
    using assms(2) unfolding assigned_ok_def by (metis map_of_eq_None_iff not_Some_eq set_map)
  have "node_can_run_task t c = Inr True" if "able ranked t \<noteq> []"
  proof -
    have "nid \<in> set (able ranked t)" using assms(2) that by (simp add: assigned_ok_def)
    then obtain c' where "(nid, c') \<in> set ranked" "node_can_run_task t c' = Inr True"
      by (auto simp: able_def)
    then show ?thesis using c map_of_is_SomeI[OF d] by fastforce
  qed
  with c show ?thesis by (simp add: dgetd_def)
qed

lemma plan_okI:
  assumes "nodes_ok ranked" and "mset (map fst ts) = mset TASKS" and "\<forall>(t, nid) \<in> set ts. assigned_ok ranked t nid"
  shows "plan_ok me ranked (map (\<lambda>(t, nid). (t, assign_to me ranked nid)) ts)"
proof -
  let ?plan = "map (\<lambda>(t, nid). (t, assign_to me ranked nid)) ts"
  have "dkeys ?plan = map fst ts" by (simp add: comp_def split_def)
  then have "mset (dkeys ?plan) = mset TASKS" using assms(2) by (simp only:)
  moreover have "distinct TASKS" by (simp add: TASKS_def)
  ultimately have k: "distinct (dkeys ?plan)" "set (dkeys ?plan) = set TASKS"
    using mset_eq_imp_distinct_iff mset_eq_setD by metis+
  have "\<exists>c. dget ranked (as_node a) = Some c \<and> as_local a = (as_node a = me) \<and> as_ip a = oget c ''ip'' \<and>
      (able ranked t \<noteq> [] \<longrightarrow> node_can_run_task t c = Inr True)" if "(t, a) \<in> set ?plan" for t a
  proof -
    from that obtain nid where "(t, nid) \<in> set ts" "a = assign_to me ranked nid" by auto
    then show ?thesis using assigned_okD[OF assms(1), of t nid] assms(3) by (auto simp: assign_to_def)
  qed
  with k show ?thesis by (auto simp: plan_ok_def simp del: set_map)
qed

text \<open>Every choice of a plan is eligible.\<close>

lemma choice_assigned: "choice ranked t e \<Longrightarrow> nid \<in> set e \<Longrightarrow> assigned_ok ranked t nid"
  by (auto simp: choice_def assigned_ok_def)

lemma best_by_ok:
  assumes "nodes_ok ranked" and "choice ranked t e" and "metric = ''ram_gb'' \<or> metric = ''cpu_cores''"
  shows "\<exists>nid \<in> set e. best_by ranked metric e = Inr nid"
  unfolding best_by_def
proof (rule py_maxE_num)
  show "e \<noteq> []" using assms(2) by (simp add: choice_def)
  show "\<exists>k. Inr (dgetd (dgetd ranked nid []) metric (PInt 0)) = Inr k \<and> is_num k" if "nid \<in> set e" for nid
    using that assms(2,3) caps_ok_of[OF assms(1), of nid] by (auto simp: choice_def caps_ok_def)
qed

lemma action_node_ok:
  assumes "nodes_ok ranked" and "choice ranked t e"
  shows "\<exists>nid \<in> set e. py_maxE (\<lambda>nid. action_key (dgetd ranked nid [])) e = Inr nid"
proof (rule py_maxE_num)
  show "e \<noteq> []" using assms(2) by (simp add: choice_def)
  show "\<exists>k. action_key (dgetd ranked nid []) = Inr k \<and> is_num k" if "nid \<in> set e" for nid
    using that assms(2) action_key_ok[OF caps_ok_of[OF assms(1), of nid]] by (auto simp: choice_def)
qed

lemma able_single: "nid \<in> set (dkeys ranked) \<Longrightarrow> length ranked = 1 \<Longrightarrow> assigned_ok ranked t nid"
  by (cases ranked) (auto simp: assigned_ok_def able_def)

lemma plan_ok_cong:
  assumes "mset ranked = mset nodes" and "nodes_ok nodes"
  shows "plan_ok me ranked plan = plan_ok me nodes plan"
proof -
  have "able ranked t \<noteq> [] \<longleftrightarrow> able nodes t \<noteq> []" for t
    using nodes_ok_mset[OF assms] by (auto simp: able_def filter_empty_conv)
  then show ?thesis using nodes_ok_mset[OF assms] by (simp add: plan_ok_def)
qed

lemma decompose_ranked:
  assumes "nodes_ok ranked" and "ranked \<noteq> []" and "rank_nodes parse (plan_nodes me known) = Inr ranked"
  shows "\<exists>plan. decompose parse me known = Inr plan \<and> plan_ok me ranked plan"
proof (cases "length ranked = 1")
  case True
  let ?ts = "map (\<lambda>t. (t, fst (hd ranked))) TASKS"
  have "fst (hd ranked) \<in> set (dkeys ranked)" using assms(2) by simp
  note able_single[OF this True]
  then have "\<forall>(t, nid) \<in> set ?ts. assigned_ok ranked t nid" by auto
  then have "plan_ok me ranked (map (\<lambda>(t, nid). (t, assign_to me ranked nid)) ?ts)"
    by (intro plan_okI[OF assms(1)]) (simp_all add: comp_def)
  then show ?thesis using assms(3) True by (simp add: decompose_def comp_def)
next
  case False
  obtain ea et en ec eh where e: "choice ranked ''action'' ea" "choice ranked ''trend'' et" "choice ranked ''anomaly'' en"
      "choice ranked ''clean'' ec" "choice ranked ''history'' eh"
    using choice_ex[OF assms(1,2)] by meson
  obtain a t n where n: "a \<in> set ea" "py_maxE (\<lambda>nid. action_key (dgetd ranked nid [])) ea = Inr a"
      "t \<in> set et" "best_by ranked ''ram_gb'' et = Inr t" "n \<in> set en" "best_by ranked ''cpu_cores'' en = Inr n"
    using action_node_ok[OF assms(1) e(1)] best_by_ok[OF assms(1) e(2) disjI1[OF refl]]
      best_by_ok[OF assms(1) e(3) disjI2[OF refl]] by meson
  let ?ts = "[(''action'', a), (''trend'', t), (''anomaly'', n), (''clean'', light_node [a, t, n] 0 ec),
      (''history'', light_node [a, t, n] 1 eh)]"
  have "ec \<noteq> []" "eh \<noteq> []" using e by (simp_all add: choice_def)
  then have "\<forall>(t, nid) \<in> set ?ts. assigned_ok ranked t nid"
    using n light_node_in choice_assigned[OF e(1)] choice_assigned[OF e(2)] choice_assigned[OF e(3)]
      choice_assigned[OF e(4)] choice_assigned[OF e(5)] by simp
  then have "plan_ok me ranked (map (\<lambda>(t, nid). (t, assign_to me ranked nid)) ?ts)"
    by (intro plan_okI[OF assms(1)]) (simp_all add: TASKS_def)
  moreover have "decompose parse me known = Inr (map (\<lambda>(t, nid). (t, assign_to me ranked nid)) ?ts)"
    using e n assms(3) False by (simp add: decompose_def choice_def Let_def)
  ultimately show ?thesis by blast
qed

section \<open>Properties\<close>

text \<open>
  C12. Decomposition assigns every task: when the capabilities of the peers are well formed, it
  raises nothing and each of the five tasks gets exactly one node, this one or a known peer, with
  the \<open>local\<close> flag and the address of that node; and whenever some node meets the requirements of
  a task, the chosen one does.
\<close>
theorem decompose_plan:
  assumes "distinct (dkeys known)" and "list_all (\<lambda>(n, c). caps_ok (normalize_caps c)) known"
  shows "\<exists>plan. decompose parse me known = Inr plan \<and> distinct (dkeys plan) \<and> set (dkeys plan) = set TASKS \<and>
    (\<forall>(t, a) \<in> set plan. \<exists>c. dget (plan_nodes me known) (as_node a) = Some c \<and>
       as_local a = (as_node a = me) \<and> as_ip a = oget c ''ip'' \<and>
       ((\<exists>(n, d) \<in> set (plan_nodes me known). node_can_run_task t d = Inr True) \<longrightarrow> node_can_run_task t c = Inr True))"
proof -
  let ?nodes = "plan_nodes me known"
  have ok: "nodes_ok ?nodes" by (rule plan_nodes_ok[OF assms])
  obtain ranked where r: "rank_nodes parse ?nodes = Inr ranked" "mset ranked = mset ?nodes"
    using rank_nodes_ok[OF ok] by blast
  have "?nodes \<noteq> []" by (auto simp: plan_nodes_def Let_def din_def)
  then have "ranked \<noteq> []" using r(2) by auto
  from decompose_ranked[OF conjunct1[OF nodes_ok_mset[OF r(2) ok]] this r(1)]
  obtain plan where p: "decompose parse me known = Inr plan" "plan_ok me ?nodes plan"
    using plan_ok_cong[OF r(2) ok] by blast
  have "(\<exists>(n, d) \<in> set ?nodes. node_can_run_task t d = Inr True) \<longleftrightarrow> able ?nodes t \<noteq> []" for t
    by (auto simp: able_def filter_empty_conv)
  with p show ?thesis by (simp add: plan_ok_def)
qed

lemma decompose_plan_witness:
  "\<exists>plan. decompose (\<lambda>s. Inl (ValueError s)) ''me'' [(''p'', [(''ip'', PStr ''10.0.0.2''),
     (''benchmark'', PDict [(''composite'', PInt 50), (''llm_available'', PBool True)])])] = Inr plan \<and> set (dkeys plan) = set TASKS"
  using decompose_plan[of "[(''p'', [(''ip'', PStr ''10.0.0.2''),
     (''benchmark'', PDict [(''composite'', PInt 50), (''llm_available'', PBool True)])])]" "\<lambda>s. Inl (ValueError s)" "''me''"]
  by (auto simp: caps_ok_def normalize_caps_def py_or_def oget_def dgetd_def is_num_def Let_def)

end
