(* ===== verification/Executor.thy ===== *)
theory Executor
  imports Decomposer Framing
begin

text \<open>
  The execution of a plan: \<open>ml/inference_server.py\<close> (the server of port 50006),
  \<open>ml/parallel_executor.py\<close> (local and remote tasks) and \<open>ml/result_assembler.py\<close>.
  A node is the record \<open>env\<close>: its host name, the durations it measures, and the services it uses
  (\<open>str\<close>, \<open>json\<close>, the LLM, the rows of its database).  \<open>decode\<close> and \<open>encode\<close> are
  \<open>json.loads\<close>/\<open>json.dumps\<close> with the UTF-8 coding, \<open>net\<close> the connection to a peer: what the
  address answers to a message.
\<close>

record env =
  en_node :: string
  en_ms :: "pyval \<Rightarrow> real"
  en_tostr :: "pyval \<Rightarrow> string"
  en_err :: "pyexc \<Rightarrow> string"
  en_dumps :: "pyval \<Rightarrow> string"
  en_loads :: "pyval \<Rightarrow> pyval result"
  en_loads_str :: "string \<Rightarrow> pyval result"
  en_ask :: "string \<Rightarrow> pyval result"
  en_rows :: "pyobj list"

section \<open>Running a worker on values of unknown type\<close>

definition as_reading :: "pyval \<Rightarrow> pyobj result" where
  "as_reading v = (case v of PDict d \<Rightarrow> Inr d | _ \<Rightarrow> Inl AttributeError)"

definition as_window :: "pyval \<Rightarrow> pyobj list result" where
  "as_window w = (if truthy w then bindE (py_iter w) (mapE as_reading) else Inr [])"

definition catching :: "task_result result \<Rightarrow> (pyexc \<Rightarrow> task_result) \<Rightarrow> task_result" where
  "catching r handler = (case r of Inl e \<Rightarrow> handler e | Inr t \<Rightarrow> t)"

definition worker_clean :: "env \<Rightarrow> pyval \<Rightarrow> pyval \<Rightarrow> task_result" where
  "worker_clean env dat w = (let ms = en_ms env (PStr ''clean'') in
     catching (bindE (as_window w) (\<lambda>ws. bindE (as_reading dat) (\<lambda>d. Inr (run_clean (en_node env) ms d ws))))
       (\<lambda>e. err_result ''clean'' (en_node env) ms [] (en_err env e)))"

definition worker_anomaly :: "env \<Rightarrow> pyval \<Rightarrow> pyval \<Rightarrow> task_result" where
  "worker_anomaly env dat w = (let ms = en_ms env (PStr ''anomaly'') in
     catching (bindE (as_window w) (\<lambda>ws. bindE (as_reading dat) (\<lambda>d. Inr (run_anomaly (en_node env) ms d ws))))
       (\<lambda>e. err_result ''anomaly'' (en_node env) ms
          [(''anomalies'', PList []), (''anomaly_count'', PInt 0), (''status'', PStr ''UNKNOWN'')] (en_err env e)))"

definition worker_trend :: "env \<Rightarrow> pyval \<Rightarrow> pyval \<Rightarrow> task_result" where
  "worker_trend env dat w = (let ms = en_ms env (PStr ''trend'') in
     catching (bindE (as_window w) (\<lambda>ws. Inr (run_trend (en_node env) ms [] ws)))
       (\<lambda>e. err_result ''trend'' (en_node env) ms [(''trends'', PDict [])] (en_err env e)))"

text \<open>The history worker looks at the reading only when the database has usable rows.\<close>

definition worker_history :: "env \<Rightarrow> pyval \<Rightarrow> pyval \<Rightarrow> task_result" where
  "worker_history env dat w = (let ms = en_ms env (PStr ''history'') in
     catching (bindE (if history_entries (en_loads env) (en_rows env) = Inr [] then Inr [] else as_reading dat) (\<lambda>d.
         Inr (run_history (en_tostr env) (en_err env) (en_loads env) (en_node env) ms (en_rows env) d)))
       (\<lambda>e. err_result ''history'' (en_node env) ms [(''matched'', PBool False)]
          (en_err env (case history_entries (en_loads env) (en_rows env) of Inl e' \<Rightarrow> e' | Inr es \<Rightarrow> e))))"

definition worker :: "string \<Rightarrow> (env \<Rightarrow> pyval \<Rightarrow> pyval \<Rightarrow> task_result) option" where
  "worker t = (if t = ''clean'' then Some worker_clean else if t = ''anomaly'' then Some worker_anomaly
     else if t = ''trend'' then Some worker_trend else if t = ''history'' then Some worker_history else None)"

definition worker_action :: "env \<Rightarrow> pyval \<Rightarrow> pyval \<Rightarrow> pyval \<Rightarrow> string \<Rightarrow> task_result" where
  "worker_action env anomaly trend history ctx =
     run_action (en_dumps env) (en_loads_str env) (en_ask env) (en_err env) (en_node env)
       (en_ms env (PStr ''action'')) anomaly trend history ctx"

section \<open>The inference server\<close>

definition asdict :: "task_result \<Rightarrow> pyobj" where
  "asdict r = [(''task_type'', tr_type r), (''node_id'', tr_node r), (''result'', tr_result r), (''duration_ms'', tr_ms r),
     (''success'', tr_success r), (''error'', tr_error r)]"

definition dispatch :: "env \<Rightarrow> pyval \<Rightarrow> pyobj \<Rightarrow> pyval \<Rightarrow> pyval \<Rightarrow> task_result result" where
  "dispatch env ty payload dat w =
     (if ty = PStr ''action'' then
        Inr (worker_action env (dgetd payload ''anomaly'' (PDict [])) (dgetd payload ''trend'' (PDict []))
          (dgetd payload ''history'' (PDict [])) (py_str (en_tostr env) (dgetd payload ''context'' (PStr ''''))))
      else bindE (hkey ty) (\<lambda>_.
        case (case ty of PStr t \<Rightarrow> worker t | _ \<Rightarrow> None) of
          Some f \<Rightarrow> Inr (f env dat w)
        | None \<Rightarrow> Inr \<lparr>tr_type = ty, tr_node = PStr (en_node env), tr_result = PDict [], tr_ms = PFloat 0,
            tr_success = PBool False, tr_error = PStr (''Unknown task type: '' @ py_str (en_tostr env) ty)\<rparr>))"

definition answer :: "env \<Rightarrow> pyval \<Rightarrow> task_result result" where
  "answer env payload =
     bindE (pget payload ''task_type'' (PStr ''unknown'')) (\<lambda>ty.
     bindE (pget payload ''sensor_data'' (PDict [])) (\<lambda>dat.
     bindE (pget payload ''window'' (PList [])) (\<lambda>w.
     bindE (case payload of PDict d \<Rightarrow> Inr d | _ \<Rightarrow> Inl AttributeError) (\<lambda>d. dispatch env ty d dat w))))"

text \<open>One connection: the bytes the server sends back, or nothing when even the error cannot be sent.\<close>

definition handle_connection :: "nat \<Rightarrow> (byte list \<Rightarrow> pyval result) \<Rightarrow> (pyval \<Rightarrow> byte list) \<Rightarrow> env \<Rightarrow> segments \<Rightarrow> byte list option" where
  "handle_connection limit decode encode env cs =
     (case
        bindE (recv_exact limit cs 4) (\<lambda>(raw_len, cs').
        let n = from_bytes raw_len in
        if n > limit then Inl (ValueError ''Payload too large'')
        else bindE (recv_exact limit cs' n) (\<lambda>(raw, _).
          bindE (decode raw) (\<lambda>payload.
          bindE (answer env payload) (\<lambda>r.
          frame (encode (PDict (asdict r)))))))
      of
        Inr reply \<Rightarrow> Some reply
      | Inl e \<Rightarrow>
          (case frame (encode (PDict (asdict (err_result ''unknown'' (en_node env) 0 [] (en_err env e))))) of
             Inr reply \<Rightarrow> Some reply | Inl _ \<Rightarrow> None))"

section \<open>The executor\<close>

type_synonym network = "pyval \<Rightarrow> byte list \<Rightarrow> segments result"

definition failed_result :: "string \<Rightarrow> string \<Rightarrow> task_result" where
  "failed_result t reason = err_result t ''local'' 0 [] reason"

definition read_reply :: "env \<Rightarrow> pyval \<Rightarrow> pyval \<Rightarrow> pyval \<Rightarrow> task_result result" where
  "read_reply env ip ty dat =
     bindE (pget dat ''task_type'' ty) (\<lambda>t. bindE (pget dat ''node_id'' ip) (\<lambda>nid.
     bindE (pget dat ''result'' (PDict [])) (\<lambda>res. bindE (pget dat ''duration_ms'' (PFloat (en_ms env ty))) (\<lambda>ms.
     bindE (pget dat ''success'' (PBool True)) (\<lambda>ok. bindE (pget dat ''error'' PNone) (\<lambda>err.
     Inr \<lparr>tr_type = t, tr_node = nid, tr_result = res, tr_ms = ms, tr_success = ok, tr_error = err\<rparr>))))))"

definition send_remote_payload :: "nat \<Rightarrow> (byte list \<Rightarrow> pyval result) \<Rightarrow> (pyval \<Rightarrow> byte list) \<Rightarrow> network \<Rightarrow> env \<Rightarrow>
    pyval \<Rightarrow> pyobj \<Rightarrow> task_result" where
  "send_remote_payload limit decode encode net env ip payload =
     (let ty = dgetd payload ''task_type'' (PStr ''unknown''); raw = encode (PDict payload) in
      catching
        (if length raw > limit then Inl (ValueError ''Outgoing payload too large'')
         else bindE (frame raw) (\<lambda>msg. bindE (net ip msg) (\<lambda>cs.
           bindE (recv_exact limit cs 4) (\<lambda>(h, cs').
           bindE (recv_exact limit cs' (from_bytes h)) (\<lambda>(resp, _).
           bindE (decode resp) (read_reply env ip ty))))))
        (\<lambda>e. \<lparr>tr_type = ty, tr_node = ip, tr_result = PDict [], tr_ms = PFloat (en_ms env ty), tr_success = PBool False,
           tr_error = PStr (en_err env e)\<rparr>))"

text \<open>Everything the executor needs to reach other nodes.\<close>

record wire =
  wi_limit :: nat
  wi_decode :: "byte list \<Rightarrow> pyval result"
  wi_encode :: "pyval \<Rightarrow> byte list"
  wi_net :: network

abbreviation send_payload :: "wire \<Rightarrow> env \<Rightarrow> pyval \<Rightarrow> pyobj \<Rightarrow> task_result" where
  "send_payload wi \<equiv> send_remote_payload (wi_limit wi) (wi_decode wi) (wi_encode wi) (wi_net wi)"

definition remote_payload :: "string \<Rightarrow> pyval \<Rightarrow> pyval \<Rightarrow> pyobj" where
  "remote_payload t dat w = [(''task_type'', PStr t), (''sensor_data'', dat), (''window'', w)]"

definition send_remote_task :: "wire \<Rightarrow> env \<Rightarrow> pyval \<Rightarrow> string \<Rightarrow> pyval \<Rightarrow> pyval \<Rightarrow> task_result" where
  "send_remote_task wi env ip t dat w = send_payload wi env ip (remote_payload t dat w)"

definition run_local_task :: "env \<Rightarrow> string \<Rightarrow> pyval \<Rightarrow> pyval \<Rightarrow> task_result" where
  "run_local_task env t dat w = (case worker t of
      None \<Rightarrow> failed_result t (''No local worker for '' @ t)
    | Some f \<Rightarrow> f env dat w)"

definition result_data :: "task_result option \<Rightarrow> pyval" where
  "result_data r = (case r of Some x \<Rightarrow> tr_result x | None \<Rightarrow> PDict [])"

definition run_action_task :: "wire \<Rightarrow> env \<Rightarrow> plan_entry \<Rightarrow> task_result option \<Rightarrow> task_result option \<Rightarrow> task_result option \<Rightarrow>
    pyval \<Rightarrow> task_result" where
  "run_action_task wi env a anomaly trend history dat =
     (let ad = result_data anomaly; td = result_data trend; hd = result_data history; ctx = py_str (en_tostr env) dat in
      if as_local a then worker_action env ad td hd ctx
      else send_payload wi env (as_ip a)
        [(''task_type'', PStr ''action''), (''sensor_data'', dat), (''window'', PList []), (''anomaly'', ad),
         (''trend'', td), (''history'', hd), (''context'', PStr ctx)])"

definition run_task :: "wire \<Rightarrow> env \<Rightarrow> pyval \<Rightarrow> pyval \<Rightarrow> string \<Rightarrow> plan_entry \<Rightarrow> task_result" where
  "run_task wi env dat w t a =
     (if as_local a then run_local_task env t dat w else send_remote_task wi env (as_ip a) t dat w)"

text \<open>
  \<open>finished\<close> lists the tasks whose thread had ended when the 15 seconds were over, in the order they
  ended.  A worker returns a result in every case, so no future holds an exception.
\<close>

type_synonym results = "(string, task_result) pydict"

definition collect_done :: "wire \<Rightarrow> env \<Rightarrow> pyval \<Rightarrow> pyval \<Rightarrow> (string, plan_entry) pydict \<Rightarrow> string list \<Rightarrow> results" where
  "collect_done wi env dat w plan finished =
     fold (\<lambda>t res. case dget (dfilter (\<lambda>t a. t \<noteq> ''action'') plan) t of
         None \<Rightarrow> res | Some a \<Rightarrow> dset t (run_task wi env dat w t a) res) finished []"

definition fill_timeouts :: "results \<Rightarrow> results" where
  "fill_timeouts res = fold (\<lambda>t res. if t = ''action'' \<or> din t res then res else dset t (failed_result t ''timeout'') res) TASKS res"

definition execute :: "wire \<Rightarrow> env \<Rightarrow> string list \<Rightarrow> (string, plan_entry) pydict \<Rightarrow> pyval \<Rightarrow> pyval \<Rightarrow> results" where
  "execute wi env finished plan dat w =
     (let res = fill_timeouts (collect_done wi env dat w plan finished) in
      case dget plan ''action'' of
        None \<Rightarrow> res
      | Some a \<Rightarrow> dset ''action'' (run_action_task wi env a (dget res ''anomaly'') (dget res ''trend'') (dget res ''history'') dat) res)"

section \<open>The assembler\<close>

definition SEVERITY_RANK :: "(string, int) pydict" where
  "SEVERITY_RANK = [(''OK'', 0), (''UNKNOWN'', 1), (''LOW'', 2), (''MEDIUM'', 3), (''WARNING'', 4), (''HIGH'', 5), (''CRITICAL'', 6)]"

definition severity_rank :: "pyval \<Rightarrow> int" where
  "severity_rank v = (case v of PStr s \<Rightarrow> dgetd SEVERITY_RANK s 0 | _ \<Rightarrow> 0)"

definition highest_status :: "pyval \<Rightarrow> pyval \<Rightarrow> pyval result" where
  "highest_status a b = bindE (hkey a) (\<lambda>_. bindE (hkey b) (\<lambda>_. Inr (max_by severity_rank a [b])))"

definition task_data :: "results \<Rightarrow> string \<Rightarrow> pyval" where
  "task_data res t = (case dget res t of Some r \<Rightarrow> (if truthy (tr_success r) then tr_result r else PDict []) | None \<Rightarrow> PDict [])"

definition failed_tasks :: "results \<Rightarrow> string list" where
  "failed_tasks res = filter (\<lambda>t. case dget res t of Some r \<Rightarrow> \<not> truthy (tr_success r) | None \<Rightarrow> False) TASKS"

definition nodes_contributed :: "results \<Rightarrow> nat" where
  "nodes_contributed res = length (filter (\<lambda>t. case dget res t of Some r \<Rightarrow> truthy (tr_success r) | None \<Rightarrow> False) TASKS)"

definition history_line :: "string \<Rightarrow> pyval \<Rightarrow> pyval \<Rightarrow> pyval \<Rightarrow> pyobj" where
  "history_line now clean status action =
     [(''timestamp'', PStr (now @ ''Z'')), (''sensor_data'', clean), (''outcome'', status), (''action_taken'', action)]"

definition assemble :: "string \<Rightarrow> results \<Rightarrow> (pyobj \<times> pyobj) result" where
  "assemble now res =
     (let clean = task_data res ''clean''; anomaly = task_data res ''anomaly''; trend = task_data res ''trend'';
          history = task_data res ''history''; action = task_data res ''action'' in
      bindE (pget anomaly ''anomalies'' (PList [])) (\<lambda>anomalies.
      bindE (pget anomaly ''status'' (PStr ''UNKNOWN'')) (\<lambda>st.
      bindE (pget action ''urgency'' (PStr ''UNKNOWN'')) (\<lambda>urgency.
      bindE (highest_status st urgency) (\<lambda>status.
      bindE (pget trend ''trends'' (PDict [])) (\<lambda>trends.
      bindE (pget action ''action'' (PStr '''')) (\<lambda>act.
      bindE (py_len anomalies) (\<lambda>_.
      Inr ([(''status'', status), (''clean_data'', clean), (''anomalies_found'', anomalies), (''trends'', trends),
            (''historical_match'', history), (''recommended_action'', act), (''action_urgency'', urgency),
            (''nodes_contributed'', PInt (int (nodes_contributed res))), (''failed_tasks'', PList (map PStr (failed_tasks res))),
            (''assembled_at'', PStr (now @ ''Z''))],
           history_line now clean status act)))))))))"

section \<open>Local and remote tasks\<close>

lemma read_reply_asdict: "read_reply env ip ty (PDict (asdict r)) = Inr r"
  by (cases r) (simp add: read_reply_def asdict_def dgetd_def)

lemma frame_ok: "length body < 2 ^ 32 \<Longrightarrow> \<exists>msg. frame body = Inr msg"
  by (simp add: frame_def to_bytes4_def)

lemma worker_str: "worker t = Some f \<Longrightarrow> t \<noteq> ''action''"
  by (auto simp: worker_def split: if_splits)

lemma answer_worker: "worker t = Some f \<Longrightarrow> answer env (PDict (remote_payload t dat w)) = Inr (f env dat w)"
  using worker_str[of t f] by (simp add: answer_def dispatch_def remote_payload_def dgetd_def)

text \<open>Both ends read a frame of any length up to the limit, however it is segmented.\<close>

lemma read_two:
  assumes "wf_segments cs" and "frame body = Inr msg" and "concat cs = msg" and "4 \<le> limit" and "length body \<le> limit"
  shows "\<exists>h cs' rest. recv_exact limit cs 4 = Inr (h, cs') \<and> from_bytes h = length body \<and>
    recv_exact limit cs' (length body) = Inr (body, rest)"
proof -
  obtain h where h: "to_bytes4 (length body) = Inr h" and msg: "msg = h @ body"
    using assms(2) by (auto simp: frame_def bindE_Inr_iff)
  obtain cs' where c: "recv_exact limit cs 4 = Inr (h, cs')" "concat cs' = body" "wf_segments cs'"
    using recv_exact_Inr[OF assms(1,4), of h body] from_to_bytes4(2)[OF h] assms(3) by (auto simp: msg)
  obtain rest where "recv_exact limit cs' (length body) = Inr (body, rest)"
    using recv_exact_Inr[OF c(3) assms(5), of body "[]"] c(2) by auto
  with c(1) from_to_bytes4(1)[OF h] show ?thesis by blast
qed

lemma handle_connection_ok:
  assumes "wf_segments cs" and "frame raw = Inr msg" and "concat cs = msg" and "4 \<le> limit" and "length raw \<le> limit"
    and "decode raw = Inr payload" and "answer env payload = Inr r" and "frame (encode (PDict (asdict r))) = Inr reply"
  shows "handle_connection limit decode encode env cs = Some reply"
proof -
  obtain h cs' rest where "recv_exact limit cs 4 = Inr (h, cs')" "from_bytes h = length raw"
      "recv_exact limit cs' (length raw) = Inr (raw, rest)"
    using read_two[OF assms(1-5)] by blast
  with assms(5-8) show ?thesis by (simp add: handle_connection_def Let_def)
qed

lemma send_remote_payload_ok:
  assumes "frame (encode (PDict payload)) = Inr msg" and "length (encode (PDict payload)) \<le> limit"
    and "net ip msg = Inr cs" and "wf_segments cs" and "frame raw = Inr reply" and "concat cs = reply"
    and "4 \<le> limit" and "length raw \<le> limit" and "decode raw = Inr (PDict (asdict r))"
  shows "send_remote_payload limit decode encode net env ip payload = r"
proof -
  obtain h cs' rest where "recv_exact limit cs 4 = Inr (h, cs')" "from_bytes h = length raw"
      "recv_exact limit cs' (length raw) = Inr (raw, rest)"
    using read_two[OF assms(4-8)] by blast
  with assms(1-3,9) show ?thesis
    by (simp add: send_remote_payload_def catching_def read_reply_asdict)
qed

section \<open>The results of a plan\<close>

lemma collect_done_get:
  assumes "distinct (dkeys plan)"
  shows "dget (collect_done wi env dat w plan finished) t =
    (if t \<in> set finished \<and> t \<noteq> ''action'' then map_option (run_task wi env dat w t) (dget plan t) else None)"
proof -
  have f: "dget (dfilter (\<lambda>t a. t \<noteq> ''action'') plan) t = (if t = ''action'' then None else dget plan t)" for t
    using dget_dfilter[OF assms, of "\<lambda>t a. t \<noteq> ''action''" t] by (auto split: option.splits)
  have "dget (fold (\<lambda>t res. case dget (dfilter (\<lambda>t a. t \<noteq> ''action'') plan) t of
         None \<Rightarrow> res | Some a \<Rightarrow> dset t (run_task wi env dat w t a) res) finished res) t =
    (if t \<in> set finished \<and> t \<noteq> ''action'' \<and> dget plan t \<noteq> None then map_option (run_task wi env dat w t) (dget plan t)
     else dget res t)" for res
    by (induction finished arbitrary: res) (auto simp: f split: option.splits)
  then show ?thesis by (auto simp: collect_done_def)
qed

lemma fill_timeouts_get:
  "dget (fill_timeouts res) t = (case dget res t of Some r \<Rightarrow> Some r
     | None \<Rightarrow> if t \<in> set TASKS \<and> t \<noteq> ''action'' then Some (failed_result t ''timeout'') else None)"
proof -
  have "dget (fold (\<lambda>t res. if t = ''action'' \<or> din t res then res else dset t (failed_result t ''timeout'') res) ts res) t =
    (case dget res t of Some r \<Rightarrow> Some r
     | None \<Rightarrow> if t \<in> set ts \<and> t \<noteq> ''action'' then Some (failed_result t ''timeout'') else None)" for ts res
    by (induction ts arbitrary: res) (auto simp: din_def split: option.splits)
  then show ?thesis by (simp add: fill_timeouts_def)
qed

lemma execute_get:
  assumes "distinct (dkeys plan)"
  shows "t \<noteq> ''action'' \<Longrightarrow> dget (execute wi env finished plan dat w) t =
      (case dget plan t of
         Some a \<Rightarrow> if t \<in> set finished then Some (run_task wi env dat w t a)
                   else if t \<in> set TASKS then Some (failed_result t ''timeout'') else None
       | None \<Rightarrow> if t \<in> set TASKS then Some (failed_result t ''timeout'') else None)"
    and "dget (execute wi env finished plan dat w) ''action'' =
      map_option (\<lambda>a. run_action_task wi env a (dget (execute wi env finished plan dat w) ''anomaly'')
        (dget (execute wi env finished plan dat w) ''trend'') (dget (execute wi env finished plan dat w) ''history'') dat)
        (dget plan ''action'')"
proof -
  let ?r = "fill_timeouts (collect_done wi env dat w plan finished)"
  have na: "dget (execute wi env finished plan dat w) t = dget ?r t" if "t \<noteq> ''action''" for t
    using that by (simp add: execute_def Let_def split: option.split)
  show "dget (execute wi env finished plan dat w) t =
      (case dget plan t of
         Some a \<Rightarrow> if t \<in> set finished then Some (run_task wi env dat w t a)
                   else if t \<in> set TASKS then Some (failed_result t ''timeout'') else None
       | None \<Rightarrow> if t \<in> set TASKS then Some (failed_result t ''timeout'') else None)" if "t \<noteq> ''action''"
    using that by (simp add: na fill_timeouts_get collect_done_get[OF assms] split: option.split)
  have "dget ?r ''action'' = None" by (simp add: fill_timeouts_get collect_done_get[OF assms])
  then show "dget (execute wi env finished plan dat w) ''action'' =
      map_option (\<lambda>a. run_action_task wi env a (dget (execute wi env finished plan dat w) ''anomaly'')
        (dget (execute wi env finished plan dat w) ''trend'') (dget (execute wi env finished plan dat w) ''history'') dat)
        (dget plan ''action'')"
    unfolding na[of "''anomaly''", simplified] na[of "''trend''", simplified] na[of "''history''", simplified]
    by (simp add: execute_def Let_def split: option.split)
qed

lemma tally: "nodes_contributed res + length (failed_tasks res) = length (filter (\<lambda>t. din t res) TASKS)"
proof -
  have "length (filter (\<lambda>t. case dget res t of Some r \<Rightarrow> truthy (tr_success r) | None \<Rightarrow> False) ts) +
     length (filter (\<lambda>t. case dget res t of Some r \<Rightarrow> \<not> truthy (tr_success r) | None \<Rightarrow> False) ts) =
     length (filter (\<lambda>t. din t res) ts)" for ts
    by (induction ts) (auto simp: din_def split: option.splits)
  then show ?thesis by (simp add: nodes_contributed_def failed_tasks_def)
qed

lemma highest_status_str: "highest_status (PStr a) (PStr b) = Inr (max_by severity_rank (PStr a) [PStr b])"
  by (simp add: highest_status_def)

section \<open>Properties\<close>

text \<open>
  C13. A remote task is a local task of the other node: when the peer runs the inference server, the
  request and the reply fit the payload limit, and JSON gives back the request and the reply, the
  executor gets exactly the result the peer's worker computes, however TCP cuts the two messages
  into segments.
\<close>
theorem remote_task_is_local:
  fixes wi :: wire and peer env :: env and t :: string and dat w :: pyval
  defines "request \<equiv> PDict (remote_payload t dat w)"
  assumes f: "worker t = Some f" and lim: "4 \<le> wi_limit wi" "wi_limit wi < 2 ^ 32"
    and size: "length (wi_encode wi request) \<le> wi_limit wi" "length (wi_encode wi (PDict (asdict (f peer dat w)))) \<le> wi_limit wi"
    and json: "wi_decode wi (wi_encode wi request) = Inr request"
      "wi_decode wi (wi_encode wi (PDict (asdict (f peer dat w)))) = Inr (PDict (asdict (f peer dat w)))"
    and seg: "\<And>bs. concat (seg bs) = bs" "\<And>bs. wf_segments (seg bs)"
    and net: "\<And>msg. wi_net wi ip msg = (case handle_connection (wi_limit wi) (wi_decode wi) (wi_encode wi) peer (seg msg) of
        Some reply \<Rightarrow> Inr (seg' reply) | None \<Rightarrow> Inr [])"
    and seg': "\<And>bs. concat (seg' bs) = bs" "\<And>bs. wf_segments (seg' bs)"
  shows "send_remote_task wi env ip t dat w = f peer dat w"
proof -
  let ?raw = "wi_encode wi request" and ?ans = "wi_encode wi (PDict (asdict (f peer dat w)))"
  obtain msg reply where m: "frame ?raw = Inr msg" "frame ?ans = Inr reply"
    using frame_ok[of ?raw] frame_ok[of ?ans] lim(2) size by auto
  have "handle_connection (wi_limit wi) (wi_decode wi) (wi_encode wi) peer (seg msg) = Some reply"
    by (rule handle_connection_ok[where raw = ?raw and payload = request and r = "f peer dat w", OF seg(2) m(1) seg(1)])
      (simp_all add: lim(1) size(1) json(1) m(2), simp add: request_def answer_worker[OF f])
  then have "wi_net wi ip msg = Inr (seg' reply)" by (simp add: net)
  then have "send_payload wi env ip (remote_payload t dat w) = f peer dat w"
    by (rule send_remote_payload_ok[where encode = "wi_encode wi" and decode = "wi_decode wi" and payload = "remote_payload t dat w",
          folded request_def, OF m(1) size(1) _ seg'(2) m(2) seg'(1) lim(1) size(2) json(2)])
  then show ?thesis by (simp add: send_remote_task_def)
qed

definition demo_env :: "string \<Rightarrow> env" where
  "demo_env node = \<lparr>en_node = node, en_ms = (\<lambda>_. 1), en_tostr = (\<lambda>_. []), en_err = (\<lambda>_. []), en_dumps = (\<lambda>_. []),
     en_loads = (\<lambda>_. Inl JSONDecodeError), en_loads_str = (\<lambda>_. Inl JSONDecodeError), en_ask = (\<lambda>_. Inl OSError), en_rows = []\<rparr>"

definition demo_wire :: wire where
  "demo_wire =
     (let request = PDict (remote_payload ''clean'' (PDict []) (PList []));
          reply = PDict (asdict (worker_clean (demo_env ''peer'') (PDict []) (PList [])));
          encode = (\<lambda>v. if v = request then [1] else [2]);
          decode = (\<lambda>bs. if bs = [1] then Inr request else Inr reply);
          bytewise = map (\<lambda>b. [b])
      in \<lparr>wi_limit = 100, wi_decode = decode, wi_encode = encode,
          wi_net = (\<lambda>ip msg. case handle_connection 100 decode encode (demo_env ''peer'') (bytewise msg) of
             Some r \<Rightarrow> Inr (bytewise r) | None \<Rightarrow> Inr [])\<rparr>)"

lemma remote_task_is_local_witness:
  "send_remote_task demo_wire (demo_env ''me'') (PStr ''10.0.0.2'') ''clean'' (PDict []) (PList []) =
     worker_clean (demo_env ''peer'') (PDict []) (PList [])"
proof (rule remote_task_is_local[where seg = "map (\<lambda>b. [b])" and seg' = "map (\<lambda>b. [b])"])
  show "worker ''clean'' = Some worker_clean" by (simp add: worker_def)
qed (auto simp: demo_wire_def Let_def remote_payload_def asdict_def)

text \<open>
  Executing a plan of the decomposer gives a result for each of the five tasks: a task whose
  thread ended in time has the result of its worker (here or on the assigned node), any other has a
  failed result with the reason \<open>timeout\<close>, and the action task runs last, on what the anomaly, trend
  and history tasks gave.  The assembler counts every one of them exactly once, as contributed or
  as failed.
\<close>
theorem execute_every_task:
  fixes wi :: wire and env :: env and finished :: "string list" and dat w :: pyval
  assumes "distinct (dkeys plan)" and "set (dkeys plan) = set TASKS"
  defines "res \<equiv> execute wi env finished plan dat w"
  shows "(\<forall>t \<in> {''clean'', ''anomaly'', ''trend'', ''history''}. \<exists>a. dget plan t = Some a \<and>
      dget res t = Some (if t \<in> set finished then run_task wi env dat w t a else failed_result t ''timeout'')) \<and>
    (\<exists>a. dget plan ''action'' = Some a \<and> dget res ''action'' =
      Some (run_action_task wi env a (dget res ''anomaly'') (dget res ''trend'') (dget res ''history'') dat)) \<and>
    nodes_contributed res + length (failed_tasks res) = 5"
proof -
  have p: "\<exists>a. dget plan t = Some a" if "t \<in> set TASKS" for t
    using that assms(2) by (metis map_of_eq_None_iff not_Some_eq set_map)
  have r: "\<exists>a. dget plan t = Some a \<and>
      dget res t = Some (if t \<in> set finished then run_task wi env dat w t a else failed_result t ''timeout'')"
    if "t \<in> set TASKS" "t \<noteq> ''action''" for t
    using p[OF that(1)] execute_get(1)[OF assms(1) that(2), of wi env finished dat w] that(1) by (auto simp: res_def)
  have a: "\<exists>a. dget plan ''action'' = Some a \<and> dget res ''action'' =
      Some (run_action_task wi env a (dget res ''anomaly'') (dget res ''trend'') (dget res ''history'') dat)"
    using p[of "''action''"] execute_get(2)[OF assms(1), of wi env finished dat w] by (auto simp: res_def TASKS_def)
  have "din t res" if "t \<in> set TASKS" for t
    using r[OF that] a by (cases "t = ''action''") (auto simp: din_def)
  then have "filter (\<lambda>t. din t res) TASKS = TASKS" by (simp add: filter_id_conv)
  then have "nodes_contributed res + length (failed_tasks res) = 5" unfolding tally by (simp add: TASKS_def)
  with r a show ?thesis by (simp add: TASKS_def)
qed

lemma execute_every_task_witness:
  "let plan = map (\<lambda>t. (t, \<lparr>as_node = ''me'', as_local = True, as_ip = PNone\<rparr>)) TASKS;
       res = execute demo_wire (demo_env ''me'') [''clean''] plan (PDict []) (PList [])
   in nodes_contributed res + length (failed_tasks res) = 5"
  using execute_every_task[of "map (\<lambda>t. (t, \<lparr>as_node = ''me'', as_local = True, as_ip = PNone\<rparr>)) TASKS"
    demo_wire "demo_env ''me''" "[''clean'']" "PDict []" "PList []"]
  by (simp add: comp_def TASKS_def Let_def)

text \<open>
  The status of an assembled report is the more severe of the anomaly status and the urgency of
  the recommended action (the former on a tie), and a task that failed or is missing contributes
  \<open>UNKNOWN\<close>: it can only outrank \<open>OK\<close>.
\<close>
theorem assemble_status:
  assumes "task_data res ''anomaly'' = PDict anomaly" and "task_data res ''action'' = PDict action" and "task_data res ''trend'' = PDict trend"
    and "dgetd anomaly ''status'' (PStr ''UNKNOWN'') = PStr st" and "dgetd action ''urgency'' (PStr ''UNKNOWN'') = PStr urgency"
    and "dgetd anomaly ''anomalies'' (PList []) = PList as"
  shows "\<exists>out line. assemble now res = Inr (out, line) \<and>
    oget out ''status'' = (if severity_rank (PStr st) < severity_rank (PStr urgency) then PStr urgency else PStr st) \<and>
    severity_rank (oget out ''status'') = max (severity_rank (PStr st)) (severity_rank (PStr urgency)) \<and>
    oget line ''outcome'' = oget out ''status'' \<and> oget out ''failed_tasks'' = PList (map PStr (failed_tasks res))"
  using assms by (simp add: assemble_def highest_status_str history_line_def oget_def dgetd_def Let_def)

lemma assemble_status_witness:
  "\<exists>out line. assemble ''now'' [(''anomaly'', ok_result ''anomaly'' ''me'' 1 [(''status'', PStr ''OK'')])] = Inr (out, line) \<and>
     oget out ''status'' = PStr ''UNKNOWN'' \<and> oget line ''outcome'' = PStr ''UNKNOWN''"
  using assemble_status[of "[(''anomaly'', ok_result ''anomaly'' ''me'' 1 [(''status'', PStr ''OK'')])]" "[(''status'', PStr ''OK'')]" "[]" "[]"
    "''OK''" "''UNKNOWN''" "[]" "''now''"]
  by (auto simp: task_data_def ok_result_def dgetd_def severity_rank_def SEVERITY_RANK_def)

end
