(* ===== verification/Learning.thy ===== *)
theory Learning
  imports Streams
begin

text \<open>
  How the swarm adapts: the engine that tracks decisions and tunes the parameters
  (\<open>core/self_improvement.py\<close>), the choice of a strategy from similar past cases
  (\<open>core/reflective_decision.py\<close>) and the operational mode (\<open>core/goal_manager.py\<close>).
  \<open>now\<close> is the clock; node names and strategies are strings.
\<close>

section \<open>The engine\<close>

record outcome =
  oc_correct :: bool
  oc_feedback :: pyobj
  oc_at :: real

record decision =
  de_id :: string
  de_time :: real
  de_type :: string
  de_inputs :: pyobj
  de_action :: pyobj
  de_outcome :: "outcome option"
  de_evaluated :: bool

text \<open>
  \<open>learned_params\<close> without \<open>trust_score\<close>, which is a dictionary of its own; an adjustment is the
  old and the new threshold and the reason of the message.
\<close>

record learned =
  le_total :: nat
  le_accuracy :: real
  le_fp_rate :: real
  le_adjustments :: "(real \<times> real \<times> string) list"
  le_params :: pyobj
  le_trusted :: pyobj

record engine =
  eg_history :: "decision list"
  eg_params :: pyobj
  eg_trust :: pyobj
  eg_log :: "(real \<times> learned) list"
  eg_running :: bool

definition new_engine :: engine where
  "new_engine = \<lparr>eg_history = [],
     eg_params = [(''anomaly_threshold'', PFloat (5/2)), (''confidence_min'', PFloat (6/10)), (''action_cooldown'', PInt 30),
       (''critical_threshold'', PFloat (7/2))],
     eg_trust = [], eg_log = [], eg_running = False\<rparr>"

text \<open>\<open>learned_params.update(saved)\<close> with what the file holds, when it can be read.\<close>

definition load_historical_learning :: "pyobj option \<Rightarrow> engine \<Rightarrow> engine" where
  "load_historical_learning saved e = (case saved of
      None \<Rightarrow> e
    | Some d \<Rightarrow> e\<lparr>eg_params := fold (\<lambda>(k, v). dset k v) (ddel ''trust_score'' d) (eg_params e),
        eg_trust := (case dget d ''trust_score'' of Some (PDict t) \<Rightarrow> t | _ \<Rightarrow> eg_trust e)\<rparr>)"

definition engine_start :: "pyobj option \<Rightarrow> engine \<Rightarrow> engine" where
  "engine_start saved e = load_historical_learning saved (e\<lparr>eg_running := True\<rparr>)"

definition HISTORY_CAP :: nat where "HISTORY_CAP = 1000"

definition record_decision :: "real \<Rightarrow> string \<Rightarrow> string \<Rightarrow> pyobj \<Rightarrow> pyobj \<Rightarrow> engine \<Rightarrow> engine" where
  "record_decision now i ty inputs action e =
     e\<lparr>eg_history := append_capped HISTORY_CAP \<lparr>de_id = i, de_time = now, de_type = ty, de_inputs = inputs, de_action = action,
        de_outcome = None, de_evaluated = False\<rparr> (eg_history e)\<rparr>"

fun set_outcome :: "string \<Rightarrow> outcome \<Rightarrow> decision list \<Rightarrow> decision list" where
  "set_outcome i oc [] = []"
| "set_outcome i oc (d # ds) =
     (if de_id d = i then d\<lparr>de_outcome := Some oc, de_evaluated := True\<rparr> # ds else d # set_outcome i oc ds)"

definition record_outcome :: "real \<Rightarrow> string \<Rightarrow> bool \<Rightarrow> pyobj \<Rightarrow> engine \<Rightarrow> engine" where
  "record_outcome now i was_correct feedback e =
     e\<lparr>eg_history := set_outcome i \<lparr>oc_correct = was_correct, oc_feedback = feedback, oc_at = now\<rparr> (eg_history e)\<rparr>"

record quality =
  q_accuracy :: real
  q_confidence :: real
  q_flags :: "string list"

definition trend_quality :: "pyobj \<Rightarrow> string \<times> pyval \<Rightarrow> quality \<Rightarrow> quality result" where
  "trend_quality actual_result ft q = (case snd ft of
       PDict t \<Rightarrow>
         (let predicted = dgetd t ''predicted_next'' (PInt 0); actual = dgetd actual_result (''actual_'' @ fst ft) (PInt 0) in
          if truthy actual \<and> truthy predicted then
            bindE (to_num predicted) (\<lambda>p. bindE (to_num actual) (\<lambda>a.
              Inr (q\<lparr>q_confidence := max 0 (1 - \<bar>p - a\<bar> / (\<bar>a\<bar> + 1/1000))\<rparr>)))
          else Inr q)
     | _ \<Rightarrow> Inr q)"

definition evaluate_prediction_quality :: "pyobj \<Rightarrow> pyobj option \<Rightarrow> quality result" where
  "evaluate_prediction_quality prediction actual_result =
     (let act = (case actual_result of None \<Rightarrow> [] | Some d \<Rightarrow> d);
          q0 = \<lparr>q_accuracy = 0, q_confidence = 0, q_flags = []\<rparr>;
          q1 = (if truthy (oget prediction ''anomalies_found'') then
                  (if truthy (oget act ''was_real'') then q0\<lparr>q_accuracy := 1\<rparr>
                   else q0\<lparr>q_flags := [''false_positive'']\<rparr>)
                else q0)
      in case dgetd prediction ''trends'' (PDict []) of
           PDict ts \<Rightarrow> foldE (trend_quality act) ts q1
         | _ \<Rightarrow> Inl AttributeError)"

section \<open>Learning\<close>

text \<open>\<open>e["outcome"]["correct"]\<close>: an entry without outcome raises.\<close>

definition correct_of :: "decision \<Rightarrow> bool result" where
  "correct_of d = (case de_outcome d of Some oc \<Rightarrow> Inr (oc_correct oc) | None \<Rightarrow> Inl TypeError)"

definition fp_rate_of :: "(decision \<times> bool) list \<Rightarrow> real" where
  "fp_rate_of evs =
     (let anomaly = filter (\<lambda>(d, c). de_type d = ''anomaly'') evs; fp = filter (\<lambda>(d, c). \<not> c) anomaly
      in real (length fp) / max 1 (real (length anomaly)))"

definition adjust_threshold :: "real \<Rightarrow> real \<Rightarrow> (engine, (real \<times> real \<times> string) list) sx" where
  "adjust_threshold fp_rate accuracy =
     (if fp_rate > 3/10 then
        sx_bind (sx_get (\<lambda>e. bindE (oindex (eg_params e) ''anomaly_threshold'') to_num)) (\<lambda>r.
        sx_bind (sx_lift r) (\<lambda>old.
        let new = min 4 (old + 2/10) in
        sx_then (sx_modify (\<lambda>e. e\<lparr>eg_params := dset ''anomaly_threshold'' (PFloat new) (eg_params e)\<rparr>))
          (sx_return [(old, new, ''too many false positives'')])))
      else if fp_rate < 1/10 \<and> accuracy > 85/100 then
        sx_bind (sx_get (\<lambda>e. bindE (oindex (eg_params e) ''anomaly_threshold'') to_num)) (\<lambda>r.
        sx_bind (sx_lift r) (\<lambda>old.
        let new = max (3/2) (old - 1/10) in
        sx_then (sx_modify (\<lambda>e. e\<lparr>eg_params := dset ''anomaly_threshold'' (PFloat new) (eg_params e)\<rparr>))
          (sx_return [(old, new, ''system accurate, lowering'')])))
      else sx_return [])"

definition node_name :: "pyval \<Rightarrow> string result" where
  "node_name v = (case v of PStr s \<Rightarrow> Inr s | _ \<Rightarrow> Inl TypeError)"

text \<open>Correct and total decisions per contributing node, in the order the nodes first appear.\<close>

definition count_node :: "bool \<Rightarrow> string \<Rightarrow> (string, nat \<times> nat) pydict \<Rightarrow> (string, nat \<times> nat) pydict" where
  "count_node c n perf = (let (k, t) = dgetd perf n (0, 0) in dset n (if c then k + 1 else k, t + 1) perf)"

definition count_decision :: "decision \<times> bool \<Rightarrow> (string, nat \<times> nat) pydict \<Rightarrow> (string, nat \<times> nat) pydict result" where
  "count_decision dc perf =
     bindE (py_iter (dgetd (de_inputs (fst dc)) ''contributing_nodes'' (PList []))) (\<lambda>vs.
     bindE (mapE node_name vs) (\<lambda>ns. Inr (fold (count_node (snd dc)) ns perf)))"

definition update_trust :: "string \<times> nat \<times> nat \<Rightarrow> engine \<Rightarrow> engine" where
  "update_trust p e = (case p of (n, k, t) \<Rightarrow>
     if t \<ge> 3 then e\<lparr>eg_trust := dset n (PFloat (pyround (real k / real t) 2)) (eg_trust e)\<rparr> else e)"

definition trusted_of :: "pyobj \<Rightarrow> pyobj result" where
  "trusted_of trust =
     bindE (mapE (\<lambda>(n, s). bindE (to_num s) (\<lambda>r. Inr (r > 8/10))) trust) (\<lambda>bs.
     Inr (map fst (filter snd (zip trust bs))))"

datatype learning = Insufficient nat | Learned learned

definition learn_from_history :: "real \<Rightarrow> (engine, learning) sx" where
  "learn_from_history now =
     sx_bind (sx_get (\<lambda>e. filter de_evaluated (eg_history e))) (\<lambda>evaluated.
     if length evaluated < 5 then sx_return (Insufficient (length evaluated))
     else
       sx_bind (sx_lift (mapE correct_of evaluated)) (\<lambda>cs.
       let evs = zip evaluated cs; accuracy = real (length (filter id cs)) / real (length evaluated); fp = fp_rate_of evs in
       sx_bind (adjust_threshold fp accuracy) (\<lambda>adj.
       sx_bind (sx_lift (foldE count_decision evs [])) (\<lambda>perf.
       sx_then (sx_modify (fold update_trust perf))
      (sx_bind (sx_get (\<lambda>e. e)) (\<lambda>e.
       sx_bind (sx_lift (trusted_of (eg_trust e))) (\<lambda>trusted.
       let res = \<lparr>le_total = length evaluated, le_accuracy = pyround accuracy 3, le_fp_rate = pyround fp 3,
            le_adjustments = adj, le_params = eg_params e @ [(''trust_score'', PDict (eg_trust e))], le_trusted = trusted\<rparr> in
       sx_then (sx_modify (\<lambda>e. e\<lparr>eg_log := eg_log e @ [(now, res)]\<rparr>)) (sx_return (Learned res)))))))))"

definition get_adjusted_threshold :: "engine \<Rightarrow> string \<Rightarrow> pyval \<Rightarrow> pyval" where
  "get_adjusted_threshold e param dflt =
     (if param = ''trust_score'' then PDict (eg_trust e) else dgetd (eg_params e) param dflt)"

definition should_trust_node :: "engine \<Rightarrow> string \<Rightarrow> real \<Rightarrow> bool result" where
  "should_trust_node e n min_trust = bindE (to_num (dgetd (eg_trust e) n (PFloat 1))) (\<lambda>t. Inr (t \<ge> min_trust))"

record engine_status =
  es_total :: nat
  es_evaluated :: nat
  es_params :: pyobj
  es_logs :: nat

definition engine_get_status :: "engine \<Rightarrow> engine_status" where
  "engine_get_status e = \<lparr>es_total = length (eg_history e), es_evaluated = length (filter de_evaluated (eg_history e)),
     es_params = eg_params e @ [(''trust_score'', PDict (eg_trust e))], es_logs = length (eg_log e)\<rparr>"

section \<open>The operational mode\<close>

datatype goal_mode = Idle | Monitoring | Alert | Surveillance | Emergency

definition mode_priority :: "goal_mode \<Rightarrow> int" where
  "mode_priority m = (case m of Idle \<Rightarrow> 0 | Monitoring \<Rightarrow> 1 | Alert \<Rightarrow> 2 | Surveillance \<Rightarrow> 3 | Emergency \<Rightarrow> 4)"

definition mode_name :: "goal_mode \<Rightarrow> string" where
  "mode_name m = (case m of Idle \<Rightarrow> ''idle'' | Monitoring \<Rightarrow> ''monitoring'' | Alert \<Rightarrow> ''alert''
     | Surveillance \<Rightarrow> ''surveillance'' | Emergency \<Rightarrow> ''emergency'')"

definition MODES :: "goal_mode list" where
  "MODES = [Idle, Monitoring, Alert, Surveillance, Emergency]"

definition mode_of :: "string \<Rightarrow> goal_mode option" where
  "mode_of s = find (\<lambda>m. mode_name m = s) MODES"

definition mode_config :: "goal_mode \<Rightarrow> pyobj" where
  "mode_config m =
     [(''priority'', PInt (mode_priority m)),
      (''sensors'', PInt (case m of Idle \<Rightarrow> 1 | Monitoring \<Rightarrow> 3 | Alert \<Rightarrow> 5 | Surveillance \<Rightarrow> 10 | Emergency \<Rightarrow> 10)),
      (''ml_depth'', PStr (case m of Idle \<Rightarrow> ''basic'' | Monitoring \<Rightarrow> ''normal'' | Alert \<Rightarrow> ''deep''
         | Surveillance \<Rightarrow> ''deep'' | Emergency \<Rightarrow> ''maximum''))]"

definition mode_interval :: "goal_mode \<Rightarrow> int" where
  "mode_interval m = (case m of Idle \<Rightarrow> 120 | Monitoring \<Rightarrow> 30 | Alert \<Rightarrow> 15 | Surveillance \<Rightarrow> 10 | Emergency \<Rightarrow> 5)"

instantiation goal_mode :: linorder
begin
definition less_eq_goal_mode :: "goal_mode \<Rightarrow> goal_mode \<Rightarrow> bool" where
  "less_eq_goal_mode a b = (mode_priority a \<le> mode_priority b)"
definition less_goal_mode :: "goal_mode \<Rightarrow> goal_mode \<Rightarrow> bool" where
  "less_goal_mode a b = (mode_priority a < mode_priority b)"
instance
proof
  fix a b :: goal_mode
  show "a \<le> b \<Longrightarrow> b \<le> a \<Longrightarrow> a = b"
    by (cases a; cases b) (simp_all add: less_eq_goal_mode_def mode_priority_def)
qed (auto simp: less_eq_goal_mode_def less_goal_mode_def)
end

record mode_change =
  mc_time :: real
  mc_from :: goal_mode
  mc_to :: goal_mode
  mc_reason :: string

record goalman =
  gm_mode :: goal_mode
  gm_history :: "mode_change list"
  gm_auto :: bool

definition new_goalman :: goalman where
  "new_goalman = \<lparr>gm_mode = Monitoring, gm_history = [], gm_auto = True\<rparr>"

text \<open>A change of mode, with what it publishes on the event bus.\<close>

type_synonym publication = "string \<times> pyobj \<times> string"

definition change_mode :: "real \<Rightarrow> goal_mode \<Rightarrow> string \<Rightarrow> goalman \<Rightarrow> goalman \<times> publication list" where
  "change_mode now m reason g =
     (g\<lparr>gm_mode := m, gm_history := gm_history g @ [\<lparr>mc_time = now, mc_from = gm_mode g, mc_to = m, mc_reason = reason\<rparr>]\<rparr>,
      [(''goal.mode_changed'', [(''from'', PStr (mode_name (gm_mode g))), (''to'', PStr (mode_name m)), (''reason'', PStr reason),
         (''config'', PDict (mode_config m))], ''HIGH'')])"

definition set_mode :: "real \<Rightarrow> string \<Rightarrow> string \<Rightarrow> goalman \<Rightarrow> bool \<times> goalman \<times> publication list" where
  "set_mode now mode reason g = (case mode_of mode of
      None \<Rightarrow> (False, g, []) | Some m \<Rightarrow> (True, change_mode now m reason g))"

definition inputs_anomalous :: "decision \<Rightarrow> bool result" where
  "inputs_anomalous d = bindE (to_num (dgetd (de_inputs d) ''anomaly_count'' (PInt 0))) (\<lambda>n. Inr (n > 0))"

definition inputs_urgency :: "string \<Rightarrow> decision \<Rightarrow> bool" where
  "inputs_urgency u d = (oget (de_inputs d) ''urgency'' = PStr u)"

definition count_if :: "('a \<Rightarrow> bool) \<Rightarrow> 'a list \<Rightarrow> nat" where
  "count_if P xs = length (filter P xs)"

definition adjust_mode :: "real \<Rightarrow> nat \<Rightarrow> nat \<Rightarrow> nat \<Rightarrow> goalman \<Rightarrow> goalman \<times> publication list" where
  "adjust_mode now anomalies critical high g =
     (if critical \<ge> 2 then
        (if mode_priority (gm_mode g) < 4
         then change_mode now Emergency (show_nat critical @ '' critical events in last 20'') g else (g, []))
      else if high \<ge> 5 then
        (if mode_priority (gm_mode g) < 3
         then change_mode now Surveillance (show_nat high @ '' high-priority events'') g else (g, []))
      else if anomalies \<ge> 8 then
        (if mode_priority (gm_mode g) < 2
         then change_mode now Alert (show_nat anomalies @ '' anomalies detected'') g else (g, []))
      else if anomalies < 2 \<and> critical = 0 \<and> high < 2 then
        (if gm_mode g = Emergency then change_mode now Surveillance ''emergency cleared'' g
         else if gm_mode g = Surveillance then change_mode now Alert ''surveillance period clean'' g
         else if gm_mode g = Alert then change_mode now Monitoring ''alert cleared, returning to monitoring'' g
         else (g, []))
      else (g, []))"

definition evaluate_and_adjust :: "real \<Rightarrow> engine \<Rightarrow> goalman \<Rightarrow> (goalman \<times> publication list) result" where
  "evaluate_and_adjust now e g =
     (let history = last_slice 20 (eg_history e) in
      if history = [] then Inr (g, [])
      else bindE (mapE inputs_anomalous history) (\<lambda>as.
        Inr (adjust_mode now (length (filter id as)) (count_if (inputs_urgency ''CRITICAL'') history)
          (count_if (inputs_urgency ''HIGH'') history) g)))"

text \<open>One turn of the loop: an exception is printed and changes nothing.\<close>

definition adjust_turn :: "real \<Rightarrow> engine \<Rightarrow> goalman \<Rightarrow> goalman \<times> publication list" where
  "adjust_turn now e g =
     (if gm_auto g then (case evaluate_and_adjust now e g of Inl _ \<Rightarrow> (g, []) | Inr r \<Rightarrow> r) else (g, []))"

definition get_current_config :: "goalman \<Rightarrow> pyobj" where
  "get_current_config g = [(''mode'', PStr (mode_name (gm_mode g))), (''config'', PDict (mode_config (gm_mode g)))]"

definition get_recommended_interval :: "goalman \<Rightarrow> int" where
  "get_recommended_interval g = mode_interval (gm_mode g)"

record goal_status =
  gs_mode :: string
  gs_config :: pyobj
  gs_changes :: nat
  gs_auto :: bool
  gs_recent :: "mode_change list"

definition goal_get_status :: "goalman \<Rightarrow> goal_status" where
  "goal_get_status g = \<lparr>gs_mode = mode_name (gm_mode g), gs_config = mode_config (gm_mode g), gs_changes = length (gm_history g),
     gs_auto = gm_auto g, gs_recent = last_slice 5 (gm_history g)\<rparr>"

section \<open>The reflective decision\<close>

definition STRATEGIES :: "string list" where
  "STRATEGIES = [''alert_supervisor'', ''auto_escalate'', ''create_workorder'', ''schedule_maintenance'', ''log_only'',
     ''investigate_further'']"

text \<open>Successes and uses of each strategy.\<close>

type_synonym strategy_table = "(string, nat \<times> nat) pydict"

definition new_strategies :: strategy_table where
  "new_strategies = map (\<lambda>s. (s, 0, 0)) STRATEGIES"

record similar_case =
  sc_case :: pyval
  sc_similarity :: real

definition case_inputs :: "pyobj \<Rightarrow> pyval" where
  "case_inputs past = dgetd past ''inputs'' (PDict past)"

definition similarity_of :: "pyobj \<Rightarrow> pyval \<Rightarrow> real result" where
  "similarity_of current past =
     bindE (pget past ''status'' (PStr ''OK'')) (\<lambda>st.
     bindE (pget past ''anomaly_count'' (PInt 0)) (\<lambda>an.
     bindE (pget past ''urgency'' (PStr ''LOW'')) (\<lambda>ur.
     bindE (to_num an) (\<lambda>a. bindE (to_num (dgetd current ''anomaly_count'' (PInt 0))) (\<lambda>c.
     Inr ((if py_eq st (dgetd current ''status'' (PStr ''OK'')) then 4/10 else 0)
        + (if py_eq ur (dgetd current ''urgency'' (PStr ''LOW'')) then 3/10 else 0)
        + (if \<bar>a - c\<bar> \<le> 1 then 3/10 else 0)))))))"

definition find_similar_cases :: "pyobj \<Rightarrow> pyobj list \<Rightarrow> similar_case list result" where
  "find_similar_cases current history =
     bindE (mapE (\<lambda>past. bindE (similarity_of current (case_inputs past)) (\<lambda>s. Inr (case_inputs past, s))) history) (\<lambda>cs.
     let similar = map (\<lambda>(c, s). \<lparr>sc_case = c, sc_similarity = pyround s 2\<rparr>) (filter (\<lambda>(c, s). s \<ge> 5/10) cs)
     in Inr (take 10 (sort_key_desc sc_similarity similar)))"

definition vote :: "similar_case \<Rightarrow> (pyval, real) pydict \<Rightarrow> (pyval, real) pydict result" where
  "vote c votes = bindE (pget (sc_case c) ''strategy'' (PStr ''log_only'')) (\<lambda>s. bindE (hkey s) (\<lambda>k.
     Inr (dset k (dgetd votes k 0 + sc_similarity c) votes)))"

definition default_strategy :: "pyval \<Rightarrow> pyval" where
  "default_strategy urgency = PStr (if urgency = PStr ''HIGH'' then ''alert_supervisor''
     else if urgency = PStr ''MEDIUM'' then ''create_workorder'' else ''log_only'')"

definition select_best_strategy :: "pyobj \<Rightarrow> similar_case list \<Rightarrow> pyval result" where
  "select_best_strategy current similar =
     (let urgency = dgetd current ''urgency'' (PStr ''LOW'') in
      if urgency = PStr ''CRITICAL'' then Inr (PStr ''auto_escalate'')
      else if similar = [] then Inr (default_strategy urgency)
      else bindE (foldE vote similar []) (\<lambda>votes. bindE (py_max snd votes) (\<lambda>b. Inr (fst b))))"

definition agrees :: "pyval \<Rightarrow> similar_case \<Rightarrow> bool result" where
  "agrees chosen c = bindE (pget (sc_case c) ''strategy'' PNone) (\<lambda>s. Inr (py_eq s chosen))"

definition calculate_confidence :: "similar_case list \<Rightarrow> pyval \<Rightarrow> real result" where
  "calculate_confidence similar chosen =
     (if similar = [] then Inr (1/2)
      else bindE (mapE (agrees chosen) similar) (\<lambda>as.
        let n = real (length similar); top = sc_similarity (hd similar); cases = min 1 (n / 5);
            agreement = real (length (filter id as)) / n
        in Inr (pyround (top * (4/10) + cases * (3/10) + agreement * (3/10)) 3)))"

definition build_reasoning :: "(pyval \<Rightarrow> string) \<Rightarrow> pyobj \<Rightarrow> similar_case list \<Rightarrow> pyval \<Rightarrow> string" where
  "build_reasoning tostr current similar strategy =
     (if similar = [] then ''No similar past cases. Using default for '' @
        py_str tostr (dgetd current ''urgency'' (PStr ''LOW'')) @ '' urgency.''
      else ''Found '' @ show_nat (length similar) @ '' similar cases. Top match: '' @
        show_int (round_half_even (sc_similarity (hd similar) * 100)) @ ''% similar. Most common past strategy: '' @
        py_str tostr strategy @ ''.'')"

record reflection =
  rf_strategy :: pyval
  rf_confidence :: real
  rf_similar :: nat
  rf_reasoning :: string
  rf_anomaly_threshold :: pyval
  rf_min_confidence :: pyval
  rf_time :: real
  rf_original :: "pyval option"

text \<open>The dash of the fallback reasoning, in UTF-8; \<open>rf_original\<close> is set when the fallback was used.\<close>

definition low_confidence_note :: string where
  "low_confidence_note = '' [confidence too low '' @ [CHR 0xE2, CHR 0x80, CHR 0x94] @ '' investigating]''"

definition reflect_and_decide :: "(pyval \<Rightarrow> string) \<Rightarrow> real \<Rightarrow> engine \<Rightarrow> pyobj \<Rightarrow> pyobj list \<Rightarrow> reflection result" where
  "reflect_and_decide tostr now e current history =
     bindE (find_similar_cases current history) (\<lambda>similar.
     bindE (select_best_strategy current similar) (\<lambda>best.
     bindE (calculate_confidence similar best) (\<lambda>confidence.
     let threshold = get_adjusted_threshold e ''anomaly_threshold'' (PFloat (5/2));
         min_confidence = get_adjusted_threshold e ''confidence_min'' (PFloat (6/10));
         reasoning = build_reasoning tostr current similar best;
         decision = \<lparr>rf_strategy = best, rf_confidence = confidence, rf_similar = length similar, rf_reasoning = reasoning,
           rf_anomaly_threshold = threshold, rf_min_confidence = min_confidence, rf_time = now, rf_original = None\<rparr>
     in bindE (to_num min_confidence) (\<lambda>m.
       Inr (if confidence < m
            then decision\<lparr>rf_strategy := PStr ''investigate_further'', rf_reasoning := reasoning @ low_confidence_note,
                   rf_original := Some best\<rparr>
            else decision)))))"

definition learn_from_strategy_outcome :: "string \<Rightarrow> bool \<Rightarrow> strategy_table \<Rightarrow> strategy_table" where
  "learn_from_strategy_outcome s success t = (case dget t s of
      None \<Rightarrow> t | Some (k, n) \<Rightarrow> dset s (if success then k + 1 else k, n + 1) t)"

definition get_strategy_stats :: "strategy_table \<Rightarrow> (string, nat \<times> nat \<times> real) pydict" where
  "get_strategy_stats t = map (\<lambda>(s, k, n). (s, n, k, pyround (if n > 0 then real k / real n else 0) 3)) t"

text \<open>A recorded decision as the dictionary the reflection looks at.\<close>

definition decision_dict :: "decision \<Rightarrow> pyobj" where
  "decision_dict d = [(''decision_id'', PStr (de_id d)), (''timestamp'', PFloat (de_time d)), (''type'', PStr (de_type d)),
     (''inputs'', PDict (de_inputs d)), (''action'', PDict (de_action d)),
     (''outcome'', case de_outcome d of None \<Rightarrow> PNone | Some oc \<Rightarrow> PDict [(''correct'', PBool (oc_correct oc)),
        (''feedback'', PDict (oc_feedback oc)), (''evaluated_at'', PFloat (oc_at oc))]),
     (''evaluated'', PBool (de_evaluated d))]"

section \<open>The decision history is a rolling log\<close>

type_synonym decision_args = "real \<times> string \<times> string \<times> pyobj \<times> pyobj"

fun push_decision :: "decision_args \<Rightarrow> engine \<Rightarrow> engine" where
  "push_decision (now, i, ty, inputs, action) e = record_decision now i ty inputs action e"

definition decision_args :: "decision \<Rightarrow> decision_args" where
  "decision_args d = (de_time d, de_id d, de_type d, de_inputs d, de_action d)"

interpretation dh: rolling_log push_decision "\<lambda>e. map decision_args (eg_history e)" HISTORY_CAP
proof
  show "0 < HISTORY_CAP" by (simp add: HISTORY_CAP_def)
  fix d e show "map decision_args (eg_history (push_decision d e)) = last_slice HISTORY_CAP (map decision_args (eg_history e) @ [d])"
    by (cases d) (simp add: record_decision_def append_capped_eq HISTORY_CAP_def map_last_slice decision_args_def)
qed

lemma decision_args_set_outcome [simp]: "map decision_args (set_outcome i oc ds) = map decision_args ds"
  by (induction ds) (simp_all add: decision_args_def)

section \<open>The invariant of the engine\<close>

definition in_unit :: "pyval \<Rightarrow> bool" where
  "in_unit v \<longleftrightarrow> (\<exists>x. v = PFloat x \<and> 0 \<le> x \<and> x \<le> 1)"

definition outcomes_ok :: "decision list \<Rightarrow> bool" where
  "outcomes_ok ds \<longleftrightarrow> (\<forall>d \<in> set ds. de_evaluated d = (de_outcome d \<noteq> None))"

definition engine_ok :: "engine \<Rightarrow> bool" where
  "engine_ok e \<longleftrightarrow> length (eg_history e) \<le> HISTORY_CAP \<and>
     (\<exists>x. dget (eg_params e) ''anomaly_threshold'' = Some (PFloat x) \<and> 3/2 \<le> x \<and> x \<le> 4) \<and>
     outcomes_ok (eg_history e) \<and> (\<forall>v \<in> set (dvals (eg_trust e)). in_unit v)"

datatype engine_op =
    RecordDecision decision_args
  | RecordOutcome real string bool pyobj
  | Learn real

fun engine_step :: "engine_op \<Rightarrow> engine \<Rightarrow> engine" where
  "engine_step (RecordDecision a) e = push_decision a e"
| "engine_step (RecordOutcome now i c f) e = record_outcome now i c f e"
| "engine_step (Learn now) e = snd (learn_from_history now e)"

lemma engine_ok_new: "engine_ok new_engine"
  by (auto simp: engine_ok_def new_engine_def outcomes_ok_def intro!: exI[of _ "5/2"])

lemma engine_ok_decision:
  assumes "engine_ok e"
  shows "engine_ok (push_decision a e)"
proof -
  have "length (eg_history (push_decision a e)) \<le> HISTORY_CAP" using dh.push_bounded[of a e] by simp
  moreover have "outcomes_ok (eg_history (push_decision a e))"
    using assms by (cases a) (auto simp: record_decision_def append_capped_eq HISTORY_CAP_def engine_ok_def outcomes_ok_def
        dest!: set_last_slice[THEN subsetD])
  ultimately show ?thesis using assms by (cases a) (simp add: engine_ok_def record_decision_def)
qed

lemma set_outcome_ok: "outcomes_ok ds \<Longrightarrow> outcomes_ok (set_outcome i oc ds)"
  by (induction ds) (auto simp: outcomes_ok_def)

lemma length_set_outcome [simp]: "length (set_outcome i oc ds) = length ds"
  by (induction ds) auto

lemma engine_ok_outcome: "engine_ok e \<Longrightarrow> engine_ok (record_outcome now i c f e)"
  by (simp add: engine_ok_def record_outcome_def set_outcome_ok)

lemma adjust_threshold_keeps: "sx_keeps engine_ok (adjust_threshold fp acc)"
proof -
  have "engine_ok e \<Longrightarrow> engine_ok (snd (adjust_threshold fp acc e))" for e
    by (cases "3/10 < fp"; cases "fp < 1/10 \<and> 85/100 < acc")
      (auto simp: adjust_threshold_def engine_ok_def oindex_def to_num_def sx_defs Let_def min_def max_def)
  then show ?thesis by (simp add: sx_keeps_def)
qed

definition perf_ok :: "(string, nat \<times> nat) pydict \<Rightarrow> bool" where
  "perf_ok perf \<longleftrightarrow> (\<forall>(n, k, t) \<in> set perf. k \<le> t)"

lemma perf_ok_count: "perf_ok perf \<Longrightarrow> perf_ok (count_node c n perf)"
proof -
  assume a: "perf_ok perf"
  obtain k t where kt: "dgetd perf n (0, 0) = (k, t)" by fastforce
  have "k \<le> t" using a kt by (force simp: perf_ok_def dgetd_def dest: map_of_SomeD split: option.splits)
  moreover have "set (dset n v perf) \<subseteq> insert (n, v) (set perf)" for v by (induction perf) auto
  ultimately show ?thesis using a unfolding perf_ok_def count_node_def kt by (fastforce split: if_splits)
qed

lemma perf_ok_fold: "perf_ok perf \<Longrightarrow> perf_ok (fold (count_node c) ns perf)"
  by (induction ns arbitrary: perf) (simp_all add: perf_ok_count)

lemma perf_ok_foldE: "perf_ok perf \<Longrightarrow> foldE count_decision evs perf = Inr perf' \<Longrightarrow> perf_ok perf'"
proof (induction evs arbitrary: perf)
  case (Cons dc evs)
  then obtain q where "count_decision dc perf = Inr q" "foldE count_decision evs q = Inr perf'"
    by (auto simp: bindE_Inr_iff)
  moreover from this(1) Cons.prems(1) have "perf_ok q"
    by (auto simp: count_decision_def bindE_Inr_iff perf_ok_fold)
  ultimately show ?case using Cons.IH by blast
qed simp

lemma engine_ok_update_trust:
  assumes "engine_ok e" and "fst (snd p) \<le> snd (snd p)"
  shows "engine_ok (update_trust p e)"
proof -
  obtain n k t where p: "p = (n, k, t)" by (cases p)
  have "in_unit (PFloat (pyround (real k / real t) 2))"
    using assms(2) pyround_unit[of "real k / real t" 2] by (simp add: p in_unit_def divide_le_eq)
  then have "\<forall>v \<in> set (dvals (dset n (PFloat (pyround (real k / real t) 2)) (eg_trust e))). in_unit v"
    using assms(1) dvals_dset[of n "PFloat (pyround (real k / real t) 2)" "eg_trust e"] unfolding engine_ok_def by blast
  then show ?thesis using assms(1) by (simp add: p update_trust_def engine_ok_def del: set_map)
qed

lemma engine_ok_trust_fold: "perf_ok perf \<Longrightarrow> engine_ok e \<Longrightarrow> engine_ok (fold update_trust perf e)"
  by (induction perf arbitrary: e) (auto simp: perf_ok_def engine_ok_update_trust split: prod.splits)

lemma engine_ok_log [simp]: "engine_ok (e\<lparr>eg_log := l\<rparr>) = engine_ok e"
  by (simp add: engine_ok_def)

lemma learn_keeps: "sx_keeps engine_ok (learn_from_history now)"
proof -
  have "perf_ok []" by (simp add: perf_ok_def)
  then show ?thesis unfolding learn_from_history_def Let_def
    by (intro sx_keeps_bind[OF sx_keeps_basic(4)] sx_keeps_if sx_keeps_then sx_keeps_basic sx_keeps_lift_bind
          sx_keeps_bind[OF adjust_threshold_keeps] sx_keeps_modify)
      (auto intro: engine_ok_trust_fold dest: perf_ok_foldE)
qed

lemma engine_step_ok: "engine_ok e \<Longrightarrow> engine_ok (engine_step op e)"
  by (cases op) (auto simp: engine_ok_decision engine_ok_outcome sx_keepsD[OF learn_keeps])

lemma engine_run_ok: "engine_ok e \<Longrightarrow> engine_ok (fold engine_step ops e)"
  by (induction ops arbitrary: e) (simp_all add: engine_step_ok)

text \<open>Learning leaves the history alone, so the history is a rolling log of the recorded decisions.\<close>

lemma adjust_threshold_history: "sx_keeps (\<lambda>e. eg_history e = H) (adjust_threshold fp acc)"
  unfolding adjust_threshold_def Let_def
  by (intro sx_keeps_if sx_keeps_bind sx_keeps_then sx_keeps_basic sx_keeps_modify) simp_all

lemma update_trust_history [simp]: "eg_history (fold update_trust perf e) = eg_history e"
  by (induction perf arbitrary: e) (auto simp: update_trust_def)

lemma learn_history: "eg_history (snd (learn_from_history now e)) = eg_history e"
proof -
  have "sx_keeps (\<lambda>x. eg_history x = eg_history e) (learn_from_history now)"
    unfolding learn_from_history_def Let_def
    by (intro sx_keeps_bind[OF sx_keeps_basic(4)] sx_keeps_if sx_keeps_then sx_keeps_basic sx_keeps_lift_bind
          sx_keeps_bind[OF adjust_threshold_history] sx_keeps_modify) simp_all
  then show ?thesis by (simp add: sx_keeps_def)
qed

fun recorded :: "engine_op \<Rightarrow> decision_args option" where
  "recorded (RecordDecision a) = Some a"
| "recorded _ = None"

lemma engine_run_history:
  "map decision_args (eg_history (fold engine_step ops new_engine)) = last_slice HISTORY_CAP (List.map_filter recorded ops)"
proof -
  have "map decision_args (eg_history (engine_step op e)) = (case recorded op of
      None \<Rightarrow> map decision_args (eg_history e) | Some a \<Rightarrow> map decision_args (eg_history (push_decision a e)))" for op e
    by (cases op) (simp_all add: learn_history record_outcome_def)
  from dh.run_items[OF this, where s = new_engine and ops = ops] show ?thesis by (simp add: new_engine_def)
qed

section \<open>The similar cases and the confidence\<close>

lemma pyround_bounds: "0 \<le> x \<Longrightarrow> x \<le> 1 \<Longrightarrow> 0 \<le> pyround x n \<and> pyround x n \<le> 1"
  by (rule pyround_unit)

lemma similarity_bounds: "similarity_of c p = Inr s \<Longrightarrow> 0 \<le> s \<and> s \<le> 1"
  by (auto simp: similarity_of_def bindE_Inr_iff)

lemma mapE_Inr_set: "mapE f xs = Inr ys \<Longrightarrow> y \<in> set ys \<Longrightarrow> \<exists>x \<in> set xs. f x = Inr y"
  by (induction xs arbitrary: ys) (auto simp: bindE_Inr_iff)

lemma length_mapE: "mapE f xs = Inr ys \<Longrightarrow> length ys = length xs"
  by (induction xs arbitrary: ys) (auto simp: bindE_Inr_iff)

lemma similar_cases_props:
  assumes "find_similar_cases current history = Inr cs" and "c \<in> set cs"
  shows "0 \<le> sc_similarity c" "sc_similarity c \<le> 1" "sc_case c \<in> case_inputs ` set history"
proof -
  let ?f = "\<lambda>past. bindE (similarity_of current (case_inputs past)) (\<lambda>s. Inr (case_inputs past, s))"
  obtain xs where xs: "mapE ?f history = Inr xs"
    using assms(1) by (auto simp: find_similar_cases_def bindE_Inr_iff)
  obtain p s where ps: "(p, s) \<in> set xs" "sc_case c = p" "sc_similarity c = pyround s 2"
    using assms xs by (auto simp: find_similar_cases_def Let_def dest!: in_set_takeD)
  obtain past where past: "past \<in> set history" "?f past = Inr (p, s)"
    using mapE_Inr_set[OF xs ps(1)] by blast
  then have "similarity_of current (case_inputs past) = Inr s" "p = case_inputs past"
    by (auto simp: bindE_Inr_iff)
  then show "0 \<le> sc_similarity c" "sc_similarity c \<le> 1" "sc_case c \<in> case_inputs ` set history"
    using similarity_bounds[of current "case_inputs past" s] pyround_bounds[of s 2] ps past(1) by auto
qed

lemma similar_cases_length: "find_similar_cases current history = Inr cs \<Longrightarrow> length cs \<le> 10"
  by (auto simp: find_similar_cases_def bindE_Inr_iff Let_def)

text \<open>The weighted sum of three numbers of the unit interval stays there.\<close>

lemma confidence_bounds:
  assumes "calculate_confidence cs chosen = Inr r" and "\<And>c. c \<in> set cs \<Longrightarrow> 0 \<le> sc_similarity c \<and> sc_similarity c \<le> 1"
  shows "0 \<le> r \<and> r \<le> 1"
proof (cases "cs = []")
  case True
  then show ?thesis using assms(1) by (simp add: calculate_confidence_def)
next
  case False
  obtain as where as: "mapE (agrees chosen) cs = Inr as" using assms(1) False
    by (auto simp: calculate_confidence_def bindE_Inr_iff)
  let ?n = "real (length cs)" and ?t = "sc_similarity (hd cs)" and ?a = "real (length (filter id as)) / real (length cs)"
  have t: "0 \<le> ?t" "?t \<le> 1" using assms(2)[of "hd cs"] False by simp_all
  have m: "0 \<le> min 1 (?n / 5)" "min 1 (?n / 5) \<le> 1" by simp_all
  have "length (filter id as) \<le> length cs" using length_filter_le[of id as] length_mapE[OF as] by simp
  then have a: "0 \<le> ?a" "?a \<le> 1" using False by (simp_all add: divide_le_eq)
  have r: "r = pyround (?t * (4/10) + min 1 (?n / 5) * (3/10) + ?a * (3/10)) 3"
    using assms(1) False as by (simp add: calculate_confidence_def Let_def)
  have "0 \<le> ?t * (4/10) + min 1 (?n / 5) * (3/10) + ?a * (3/10)" using t m a by simp
  moreover have "?t * (4/10) + min 1 (?n / 5) * (3/10) + ?a * (3/10) \<le> 1 * (4/10) + 1 * (3/10) + 1 * (3/10)"
    using t m a by (intro add_mono mult_right_mono) simp_all
  ultimately show ?thesis unfolding r by (intro pyround_bounds) simp_all
qed

text \<open>Cases without a strategy all vote for logging.\<close>

lemma vote_log_only:
  assumes "\<And>c. c \<in> set cs \<Longrightarrow> \<exists>d. sc_case c = PDict d \<and> dget d ''strategy'' = None" and "cs \<noteq> []"
  shows "\<exists>x. foldE vote cs [] = Inr [(PStr ''log_only'', x)]"
proof -
  have v: "vote c votes = Inr (dset (PStr ''log_only'') (dgetd votes (PStr ''log_only'') 0 + sc_similarity c) votes)"
    if "c \<in> set cs" for c votes
  proof -
    obtain d where "sc_case c = PDict d" "dget d ''strategy'' = None" using assms(1)[OF \<open>c \<in> set cs\<close>] by (elim exE conjE)
    then show ?thesis by (simp add: vote_def dgetd_None)
  qed
  have "\<exists>x. foldE vote cs' [(PStr ''log_only'', y)] = Inr [(PStr ''log_only'', x)]" if "set cs' \<subseteq> set cs" for cs' y
    using that by (induction cs' arbitrary: y) (simp_all add: v)
  then show ?thesis using assms(2) by (cases cs) (simp_all add: v subset_iff)
qed

section \<open>The mode after an adjustment\<close>

definition step_down :: "goal_mode \<Rightarrow> goal_mode" where
  "step_down m = (case m of Emergency \<Rightarrow> Surveillance | Surveillance \<Rightarrow> Alert | Alert \<Rightarrow> Monitoring | _ \<Rightarrow> m)"

text \<open>What the thresholds ask for.\<close>

definition target_mode :: "nat \<Rightarrow> nat \<Rightarrow> nat \<Rightarrow> goal_mode \<Rightarrow> goal_mode" where
  "target_mode anomalies critical high m =
     (if critical \<ge> 2 then Emergency
      else if high \<ge> 5 then max m Surveillance
      else if anomalies \<ge> 8 then max m Alert
      else if anomalies < 2 \<and> critical = 0 \<and> high < 2 then step_down m
      else m)"

lemmas mode_order = less_eq_goal_mode_def less_goal_mode_def mode_priority_def max_def

lemma change_mode_simps [simp]:
  "gm_mode (fst (change_mode now m r g)) = m"
  "gm_history (fst (change_mode now m r g)) = gm_history g @ [\<lparr>mc_time = now, mc_from = gm_mode g, mc_to = m, mc_reason = r\<rparr>]"
  "length (snd (change_mode now m r g)) = 1"
  by (simp_all add: change_mode_def)

lemma adjust_mode_target:
  "gm_mode (fst (adjust_mode now a c h g)) = target_mode a c h (gm_mode g)"
  by (cases "gm_mode g") (simp_all add: adjust_mode_def target_mode_def step_down_def mode_order)

lemma adjust_mode_history:
  "map (\<lambda>m. (mc_from m, mc_to m)) (gm_history (fst (adjust_mode now a c h g))) = map (\<lambda>m. (mc_from m, mc_to m)) (gm_history g) @
    (if target_mode a c h (gm_mode g) = gm_mode g then [] else [(gm_mode g, target_mode a c h (gm_mode g))])"
  "length (snd (adjust_mode now a c h g)) = (if target_mode a c h (gm_mode g) = gm_mode g then 0 else 1)"
  by (cases "gm_mode g"; simp add: adjust_mode_def target_mode_def step_down_def mode_order)+

lemma mode_interval_antimono: "a \<le> b \<longleftrightarrow> mode_interval b \<le> mode_interval a"
  by (cases a; cases b) (simp_all add: mode_order mode_interval_def)

section \<open>Properties\<close>

text \<open>
  C14. Whatever sequence of decisions, outcomes and learning rounds the engine has seen, the anomaly
  threshold stays between 1.5 and 4, every trust score between 0 and 1, the decision history is
  exactly the last 1000 recorded decisions in order, and a decision is marked evaluated exactly when
  it has an outcome.
\<close>
theorem engine_invariant:
  fixes ops :: "engine_op list"
  defines "e \<equiv> fold engine_step ops new_engine"
  shows "(\<exists>x. dget (eg_params e) ''anomaly_threshold'' = Some (PFloat x) \<and> 3/2 \<le> x \<and> x \<le> 4) \<and>
    (\<forall>v \<in> set (dvals (eg_trust e)). \<exists>x. v = PFloat x \<and> 0 \<le> x \<and> x \<le> 1) \<and>
    map decision_args (eg_history e) = last_slice 1000 (List.map_filter recorded ops) \<and>
    (\<forall>d \<in> set (eg_history e). de_evaluated d = (de_outcome d \<noteq> None))"
proof -
  have "engine_ok e" unfolding e_def by (rule engine_run_ok[OF engine_ok_new])
  moreover have "map decision_args (eg_history e) = last_slice 1000 (List.map_filter recorded ops)"
    using engine_run_history[of ops] by (simp only: e_def HISTORY_CAP_def)
  ultimately show ?thesis unfolding engine_ok_def in_unit_def outcomes_ok_def by blast
qed

lemma engine_invariant_witness:
  "map decision_args (eg_history (fold engine_step [RecordDecision (0, ''d'', ''anomaly'', [], []), RecordOutcome 1 ''d'' True [], Learn 2]
     new_engine)) = last_slice 1000 (List.map_filter recorded
       [RecordDecision (0, ''d'', ''anomaly'', [], []), RecordOutcome 1 ''d'' True [], Learn 2])"
  using engine_invariant[of "[RecordDecision (0, ''d'', ''anomaly'', [], []), RecordOutcome 1 ''d'' True [], Learn 2]"]
  by blast

text \<open>
  The goal manager moves to the mode the last 20 decisions ask for: two critical ones raise it to
  emergency, five high ones at least to surveillance, eight anomalous ones at least to alert, and a
  calm history lowers it by one step, never below monitoring; otherwise the mode stays.  It logs and
  publishes a change exactly when there is one, and a higher mode means a pipeline interval that is
  not longer.
\<close>
theorem goal_adjustment:
  fixes e :: engine and g :: goalman
  defines "hist \<equiv> last_slice 20 (eg_history e)"
  assumes "hist \<noteq> []" and "mapE inputs_anomalous hist = Inr as"
  defines "target \<equiv> target_mode (length (filter id as)) (count_if (inputs_urgency ''CRITICAL'') hist)
    (count_if (inputs_urgency ''HIGH'') hist) (gm_mode g)"
  shows "\<exists>g' pubs. evaluate_and_adjust now e g = Inr (g', pubs) \<and> gm_mode g' = target \<and>
    map (\<lambda>m. (mc_from m, mc_to m)) (gm_history g') = map (\<lambda>m. (mc_from m, mc_to m)) (gm_history g) @
      (if target = gm_mode g then [] else [(gm_mode g, target)]) \<and>
    length pubs = (if target = gm_mode g then 0 else 1) \<and>
    (gm_mode g \<le> gm_mode g' \<longleftrightarrow> get_recommended_interval g' \<le> get_recommended_interval g)"
proof -
  let ?r = "adjust_mode now (length (filter id as)) (count_if (inputs_urgency ''CRITICAL'') hist)
    (count_if (inputs_urgency ''HIGH'') hist) g"
  have "evaluate_and_adjust now e g = Inr (fst ?r, snd ?r)"
    using assms(2,3) by (simp add: evaluate_and_adjust_def hist_def Let_def)
  moreover have "gm_mode (fst ?r) = target" unfolding target_def by (rule adjust_mode_target)
  moreover note adjust_mode_history[of now "length (filter id as)" "count_if (inputs_urgency ''CRITICAL'') hist"
      "count_if (inputs_urgency ''HIGH'') hist" g, folded target_def]
  moreover have "gm_mode g \<le> gm_mode (fst ?r) \<longleftrightarrow> get_recommended_interval (fst ?r) \<le> get_recommended_interval g"
    unfolding get_recommended_interval_def by (rule mode_interval_antimono)
  ultimately show ?thesis by blast
qed

lemma goal_adjustment_witness:
  "\<exists>g' pubs. evaluate_and_adjust 0 (push_decision (0, ''d'', ''ml_pipeline'', [(''anomaly_count'', PInt 0)], []) new_engine)
      (new_goalman\<lparr>gm_mode := Emergency\<rparr>) = Inr (g', pubs) \<and> gm_mode g' = Surveillance"
proof -
  have h: "last_slice 20 (eg_history (push_decision (0, ''d'', ''ml_pipeline'', [(''anomaly_count'', PInt 0)], []) new_engine)) =
      [\<lparr>de_id = ''d'', de_time = 0, de_type = ''ml_pipeline'', de_inputs = [(''anomaly_count'', PInt 0)], de_action = [],
        de_outcome = None, de_evaluated = False\<rparr>]"
    by (simp add: record_decision_def append_capped_def HISTORY_CAP_def new_engine_def last_slice_def)
  show ?thesis
    using goal_adjustment[of "push_decision (0, ''d'', ''ml_pipeline'', [(''anomaly_count'', PInt 0)], []) new_engine" "[False]" 0
      "new_goalman\<lparr>gm_mode := Emergency\<rparr>"]
    unfolding h by (auto simp: inputs_anomalous_def to_num_def dgetd_def count_if_def inputs_urgency_def oget_def
        target_mode_def step_down_def)
qed

end
