(* ===== verification/Pipeline.thy ===== *)
theory Pipeline
  imports Executor Learning
begin

text \<open>
  The autonomous cycle: \<open>core/pipeline_trigger.py\<close>, \<open>agents/action_agent.py\<close> and the wiring of
  \<open>core/swarm_mind.py\<close>.  The files and database calls of the action agent are lists of what was
  written, its publications a list; \<open>ts\<close> and \<open>stamp\<close> are the formatted clock.  The action agent, the
  engine and the goal manager share one state, and a step that raises keeps what it had changed.
\<close>

section \<open>The action agent\<close>

record agent_io =
  ai_log :: "pyobj list"
  ai_orders :: "(string, pyobj) pydict"
  ai_emergencies :: "(string, pyobj) pydict"
  ai_saved :: "(string \<times> pyobj) list"
  ai_events :: "(string \<times> pyobj \<times> pyval) list"

definition new_agent_io :: agent_io where
  "new_agent_io = \<lparr>ai_log = [], ai_orders = [], ai_emergencies = [], ai_saved = [], ai_events = []\<rparr>"

definition action_entry :: "string \<Rightarrow> pyobj \<Rightarrow> pyobj \<Rightarrow> pyobj" where
  "action_entry stamp decision summary =
     [(''timestamp'', PStr stamp), (''status'', dgetd decision ''status'' (PStr ''OK'')),
      (''urgency'', dgetd decision ''action_urgency'' (PStr ''LOW'')),
      (''action'', dgetd decision ''recommended_action'' (PStr '''')),
      (''anomalies'', dgetd decision ''anomalies_found'' (PList [])), (''sensor_data'', PDict summary)]"

definition work_order :: "string \<Rightarrow> string \<Rightarrow> pyobj \<Rightarrow> pyobj \<Rightarrow> pyobj" where
  "work_order ts stamp decision summary =
     [(''work_order_id'', PStr (''WO-'' @ ts)), (''created_at'', PStr stamp),
      (''priority'', dgetd decision ''action_urgency'' (PStr ''LOW'')), (''status'', PStr ''OPEN''),
      (''site_status'', dgetd decision ''status'' (PStr ''OK'')),
      (''description'', dgetd decision ''recommended_action'' (PStr '''')),
      (''anomalies'', dgetd decision ''anomalies_found'' (PList [])), (''trends'', dgetd decision ''trends'' (PDict [])),
      (''sensor_snapshot'', PDict summary), (''assigned_to'', PStr ''site_supervisor''),
      (''actions_required'', PList [dgetd decision ''recommended_action'' (PStr ''Review site conditions'')])]"

definition order_path :: "string \<Rightarrow> string" where
  "order_path ts = ''logs/workorders/WO_'' @ ts @ ''.json''"

definition emit :: "string \<Rightarrow> pyobj \<Rightarrow> pyval \<Rightarrow> agent_io \<Rightarrow> agent_io" where
  "emit ty dat prio s = s\<lparr>ai_events := ai_events s @ [(ty, dat, prio)]\<rparr>"

definition create_work_order :: "string \<Rightarrow> string \<Rightarrow> pyobj \<Rightarrow> pyobj \<Rightarrow> agent_io \<Rightarrow> agent_io" where
  "create_work_order ts stamp decision summary s =
     (let wo = work_order ts stamp decision summary; path = order_path ts;
          s1 = s\<lparr>ai_orders := dset path wo (ai_orders s)\<rparr>;
          s2 = emit ''action.workorder'' [(''wo_path'', PStr path), (''priority'', dgetd wo ''priority'' (PStr ''LOW''))] (PStr ''NORMAL'') s1
      in s2\<lparr>ai_saved := ai_saved s2 @ [(''work_orders'', wo)]\<rparr>)"

text \<open>The alert is printed; a list of anomalies that cannot be printed raises before the publication.\<close>

definition send_alert :: "pyobj \<Rightarrow> (agent_io, unit) sx" where
  "send_alert decision =
     (let urgency = dgetd decision ''action_urgency'' (PStr ''LOW''); status = dgetd decision ''status'' (PStr ''OK'');
          anomalies = dgetd decision ''anomalies_found'' (PList []) in
      sx_then (sx_lift (if truthy anomalies then
          bindE (py_len anomalies) (\<lambda>_. bindE (py_iter anomalies) (\<lambda>as.
            bindE (mapE (\<lambda>a. bindE (pget a ''field'' (PStr ''?'')) (\<lambda>_. pget a ''severity'' (PStr ''?''))) as) (\<lambda>_. Inr ())))
        else Inr ()))
      (sx_modify (emit ''action.alert'' [(''urgency'', urgency), (''status'', status)] urgency)))"

definition emergency_escalation :: "string \<Rightarrow> string \<Rightarrow> pyobj \<Rightarrow> pyobj \<Rightarrow> agent_io \<Rightarrow> agent_io" where
  "emergency_escalation ts stamp decision summary s =
     (let path = ''logs/EMERGENCY_'' @ ts @ ''.json'';
          em = [(''EMERGENCY'', PBool True), (''timestamp'', PStr stamp), (''decision'', PDict decision), (''sensor_data'', PDict summary),
             (''message'', PStr ''CRITICAL EVENT - IMMEDIATE ACTION REQUIRED'')]
      in emit ''action.emergency'' [(''filename'', PStr path), (''urgency'', dgetd decision ''action_urgency'' (PStr ''CRITICAL'')),
             (''status'', dgetd decision ''status'' (PStr ''CRITICAL''))] (PStr ''CRITICAL'')
           (s\<lparr>ai_emergencies := dset path em (ai_emergencies s)\<rparr>))"

definition needs_alert :: "pyobj \<Rightarrow> bool" where
  "needs_alert decision \<longleftrightarrow> dgetd decision ''status'' (PStr ''OK'') \<in> {PStr ''WARNING'', PStr ''CRITICAL''} \<or>
     dgetd decision ''action_urgency'' (PStr ''LOW'') \<in> {PStr ''HIGH'', PStr ''CRITICAL''}"

definition needs_escalation :: "pyobj \<Rightarrow> bool" where
  "needs_escalation decision \<longleftrightarrow> dgetd decision ''action_urgency'' (PStr ''LOW'') = PStr ''CRITICAL'' \<or>
     dgetd decision ''status'' (PStr ''OK'') = PStr ''CRITICAL''"

text \<open>The actions of one decision, up to the recording of the outcome; the result is the list of actions.\<close>

definition act :: "string \<Rightarrow> string \<Rightarrow> pyobj \<Rightarrow> pyobj \<Rightarrow> (agent_io, pyval list) sx" where
  "act ts stamp decision summary =
     sx_then (sx_modify (\<lambda>s. s\<lparr>ai_log := ai_log s @ [action_entry stamp decision summary]\<rparr>))
    (sx_then (sx_modify (create_work_order ts stamp decision summary))
    (sx_then (sx_modify (\<lambda>s. s\<lparr>ai_saved := ai_saved s @ [(''predictions'', decision)]\<rparr>))
    (sx_then (sx_when (needs_alert decision) (send_alert decision))
    (sx_then (sx_when (needs_escalation decision) (sx_modify (emergency_escalation ts stamp decision summary)))
      (sx_return ([PStr ''logged to actions.jsonl'', PStr (''work order: '' @ order_path ts)] @
         (if needs_alert decision then [PStr ''alert printed''] else []) @
         (if needs_escalation decision then [PStr ''emergency escalation''] else [])))))))"

definition act_result :: "string \<Rightarrow> string \<Rightarrow> pyobj \<Rightarrow> pyval list \<Rightarrow> pyobj" where
  "act_result ts stamp decision actions =
     [(''actions_taken'', PList actions), (''urgency'', dgetd decision ''action_urgency'' (PStr ''LOW'')),
      (''status'', dgetd decision ''status'' (PStr ''OK'')), (''work_order_path'', PStr (order_path ts)), (''timestamp'', PStr stamp)]"

section \<open>The swarm mind\<close>

record mind =
  mi_window :: "pyobj list"
  mi_cycles :: nat
  mi_io :: agent_io
  mi_engine :: engine
  mi_goals :: goalman
  mi_strategies :: strategy_table

definition new_mind :: mind where
  "new_mind = \<lparr>mi_window = [], mi_cycles = 0, mi_io = new_agent_io, mi_engine = new_engine, mi_goals = new_goalman,
     mi_strategies = new_strategies\<rparr>"

record mind_status =
  ms_uptime :: int
  ms_devices :: nat
  ms_cycles :: nat

definition mind_get_status :: "real \<Rightarrow> real option \<Rightarrow> ranking \<Rightarrow> mind \<Rightarrow> mind_status" where
  "mind_get_status now start peers m =
     \<lparr>ms_uptime = (case start of Some t \<Rightarrow> if t = 0 then 0 else trunc (now - t) | None \<Rightarrow> 0), ms_devices = length peers,
      ms_cycles = mi_cycles m\<rparr>"

definition intelligence_status :: "mind \<Rightarrow> engine_status \<times> goal_status \<times> (string, nat \<times> nat \<times> real) pydict" where
  "intelligence_status m = (engine_get_status (mi_engine m), goal_get_status (mi_goals m), get_strategy_stats (mi_strategies m))"

section \<open>Readings\<close>

definition buffer_add :: "pyobj \<Rightarrow> mind \<Rightarrow> mind" where
  "buffer_add r m = m\<lparr>mi_window := sb_add 50 r (mi_window m)\<rparr>"

text \<open>A message for \<open>swarm-mind\<close> on the message bus, and an event \<open>sensor.reading\<close>.\<close>

definition collect_step :: "pyval \<Rightarrow> mind \<Rightarrow> mind" where
  "collect_step message m = (case message of
      PDict payload \<Rightarrow>
        if oget payload ''type'' = PStr ''sensor_reading'' then
          (case dgetd payload ''data'' (PDict []) of
             PDict d \<Rightarrow> if d \<noteq> [] then buffer_add d m else m
           | _ \<Rightarrow> m)
        else m
    | _ \<Rightarrow> m)"

definition on_sensor_event :: "pyobj \<Rightarrow> mind \<Rightarrow> mind" where
  "on_sensor_event event m = (case dgetd event ''data'' (PDict []) of
      PDict d \<Rightarrow> if d \<noteq> [] then buffer_add d m else m
    | _ \<Rightarrow> m)"

text \<open>The latest reading per sensor among the last three; sensor names are strings.\<close>

definition add_latest :: "pyobj \<Rightarrow> pyobj \<Rightarrow> pyobj result" where
  "add_latest reading latest =
     (let sensor = oget reading ''sensor'' in
      if truthy sensor then bindE (node_name sensor) (\<lambda>s. Inr (dset s (PDict reading) latest)) else Inr latest)"

definition latest_readings :: "pyobj list \<Rightarrow> pyobj result" where
  "latest_readings w = foldE add_latest (last_slice 3 w) []"

section \<open>The cycle\<close>

record cycle_input =
  cy_now :: real
  cy_ts :: string
  cy_iso :: string
  cy_me :: string
  cy_parse :: "string \<Rightarrow> real result"
  cy_peers :: ranking
  cy_wire :: wire
  cy_env :: env
  cy_finished :: "string list"

definition on_io :: "(agent_io, 'a) sx \<Rightarrow> (mind, 'a) sx" where
  "on_io a m = (case a (mi_io m) of (r, s) \<Rightarrow> (r, m\<lparr>mi_io := s\<rparr>))"

definition on_engine :: "(engine \<Rightarrow> engine) \<Rightarrow> (mind, unit) sx" where
  "on_engine f = sx_modify (\<lambda>m. m\<lparr>mi_engine := f (mi_engine m)\<rparr>)"

text \<open>\<open>ActionAgent.execute\<close>: the outcome is recorded under the decision's own id, if it has one.\<close>

definition action_execute :: "cycle_input \<Rightarrow> pyobj \<Rightarrow> pyobj \<Rightarrow> (mind, pyobj) sx" where
  "action_execute c decision summary =
     sx_bind (on_io (act (cy_ts c) (cy_iso c) decision summary)) (\<lambda>actions.
     sx_then (case dgetd decision ''decision_id'' (PStr '''') of
         PStr i \<Rightarrow> on_engine (record_outcome (cy_now c) i True [(''action_taken'', PList actions)])
       | _ \<Rightarrow> sx_return ())
     (sx_return (act_result (cy_ts c) (cy_iso c) decision actions)))"

definition decision_id :: "real \<Rightarrow> nat \<Rightarrow> string" where
  "decision_id now n = ''dec_'' @ show_int (trunc now) @ ''_'' @ show_nat n"

definition decision_inputs :: "nat \<Rightarrow> pyobj \<Rightarrow> (string, plan_entry) pydict \<Rightarrow> pyobj" where
  "decision_inputs n final plan =
     [(''anomaly_count'', PInt (int n)), (''urgency'', dgetd final ''action_urgency'' (PStr ''LOW'')),
      (''status'', dgetd final ''status'' (PStr ''OK'')),
      (''contributing_nodes'', PList (map (\<lambda>a. PStr (as_node a)) (dvals plan)))]"

text \<open>
  Recording and reflecting, inside a \<open>try\<close> that swallows exceptions: the reflection looks at the last
  50 decisions, the one just recorded included.
\<close>

definition record_and_reflect :: "cycle_input \<Rightarrow> pyobj \<Rightarrow> (string, plan_entry) pydict \<Rightarrow> (mind, reflection option) sx" where
  "record_and_reflect c final plan m =
     (case
       sx_bind (sx_lift (py_len (dgetd final ''anomalies_found'' (PList [])))) (\<lambda>n.
       sx_then (on_engine (record_decision (cy_now c) (decision_id (cy_now c) (mi_cycles m)) ''ml_pipeline''
          (decision_inputs n final plan) final))
      (sx_bind (sx_get mi_engine) (\<lambda>e.
       sx_lift (reflect_and_decide (en_tostr (cy_env c)) (cy_now c) e final (map decision_dict (last_slice 50 (eg_history e))))))) m
      of (Inl _, m') \<Rightarrow> (Inr None, m') | (Inr r, m') \<Rightarrow> (Inr (Some r), m'))"

text \<open>
  One turn of the loop: nothing when the window is not ready or holds no named sensor, otherwise the
  final report and the reflection.  An exception ends the turn.
\<close>

definition pipeline_cycle :: "cycle_input \<Rightarrow> (mind, (pyobj \<times> reflection option) option) sx" where
  "pipeline_cycle c =
     sx_bind (sx_get mi_window) (\<lambda>window.
     if \<not> sb_is_ready window then sx_return None
     else
       sx_then (sx_modify (\<lambda>m. m\<lparr>mi_cycles := mi_cycles m + 1\<rparr>))
      (sx_bind (sx_lift (latest_readings window)) (\<lambda>latest.
       if latest = [] then sx_return None
       else
         sx_bind (sx_lift (decompose (cy_parse c) (cy_me c) (cy_peers c))) (\<lambda>plan.
         sx_bind (sx_lift (assemble (cy_iso c)
             (execute (cy_wire c) (cy_env c) (cy_finished c) plan (PDict latest) (PList (map PDict window))))) (\<lambda>(final, line).
         sx_bind (action_execute c final latest) (\<lambda>_.
         sx_bind (record_and_reflect c final plan) (\<lambda>rf.
         sx_return (Some (final, rf)))))))))"

definition pipeline_interval :: "mind \<Rightarrow> int" where
  "pipeline_interval m = get_recommended_interval (mi_goals m)"

section \<open>What the workers see\<close>

definition only_readings :: "pyobj \<Rightarrow> bool" where
  "only_readings d \<longleftrightarrow> distinct (dkeys d) \<and> (\<forall>v \<in> set (dvals d). is_dict v)"

lemma add_latest_ok: "only_readings l \<Longrightarrow> add_latest r l = Inr l' \<Longrightarrow> only_readings l'"
proof -
  assume l: "only_readings l" and a: "add_latest r l = Inr l'"
  have "only_readings (dset s (PDict r) l)" for s
    using l dvals_dset[of s "PDict r" l] unfolding only_readings_def by (auto simp: dict_inv simp del: set_map)
  then show ?thesis using l a by (auto simp: add_latest_def bindE_Inr_iff Let_def split: if_splits)
qed

lemma latest_readings_ok: "latest_readings w = Inr l \<Longrightarrow> only_readings l"
proof -
  have "only_readings l0 \<Longrightarrow> foldE add_latest rs l0 = Inr l \<Longrightarrow> only_readings l" for rs l0
    by (induction rs arbitrary: l0) (auto simp: bindE_Inr_iff dest: add_latest_ok)
  note this[of "[]"]
  moreover have "only_readings []" by (simp add: only_readings_def)
  ultimately show "latest_readings w = Inr l \<Longrightarrow> only_readings l" unfolding latest_readings_def by blast
qed

lemma readings_no_num: "only_readings l \<Longrightarrow> kv \<in> set l \<Longrightarrow> num_of (snd kv) = None \<and> snd kv \<noteq> PNone"
  by (cases "snd kv") (force simp: only_readings_def)+

lemma as_window_readings: "as_window (PList (map PDict w)) = Inr w"
proof -
  have "mapE as_reading (map PDict w) = Inr w" by (induction w) (simp_all add: as_reading_def)
  then show ?thesis by (simp add: as_window_def)
qed

lemma anomaly_blind: "only_readings l \<Longrightarrow> List.map_filter (anomaly_of w) l = []"
proof -
  assume l: "only_readings l"
  have "anomaly_of w kv = None" if "kv \<in> set l" for kv
    using readings_no_num[OF l that] by (simp add: anomaly_of_def)
  then show ?thesis by (induction l) (auto simp: map_filter_simps)
qed

lemma clean_blind: "only_readings l \<Longrightarrow> run_clean node ms l w = ok_result ''clean'' node ms l"
proof -
  assume l: "only_readings l"
  have "clean_value (stats_of w k) v = v" if "(k, v) \<in> set l" for k v
    using readings_no_num[OF l that] by (simp add: clean_value_def)
  then have "map (\<lambda>(k, v). (k, clean_value (stats_of w k) v)) l = l" by (induction l) auto
  then show ?thesis using l by (simp add: run_clean_eq only_readings_def)
qed

lemma cosine_blind: "only_readings l \<Longrightarrow> cosine_similarity l b = 0"
proof -
  assume l: "only_readings l"
  have "filter (\<lambda>(k, v). is_num v) l = []"
    using readings_no_num[OF l] by (auto simp: filter_empty_conv is_num_def)
  then show ?thesis by (simp add: cosine_similarity_def common_keys_def)
qed

lemma match_blind:
  assumes "only_readings l" and "foldE (match_one l) es (x, e) = Inr (y, e')" and "x \<le> 0"
  shows "y \<le> 0"
  using assms(2,3)
proof (induction es arbitrary: x e)
  case Nil
  then show ?case by simp
next
  case (Cons h es)
  obtain z f where z: "match_one l h (x, e) = Inr (z, f)" "foldE (match_one l) es (z, f) = Inr (y, e')"
    using Cons.prems(1) by (auto simp: bindE_Inr_iff)
  have "z \<le> 0" using z(1) Cons.prems(2)
    by (auto simp: match_one_def cosine_blind[OF assms(1)] split: pyval.splits if_splits)
  with z(2) show ?case by (rule Cons.IH)
qed

lemma history_blind:
  assumes "only_readings l"
  shows "\<exists>r. tr_result (run_history tostr errstr loads node ms rows l) = PDict r \<and> oget r ''matched'' = PBool False"
proof -
  have m: "oget [(''matched'', PBool False)] ''matched'' = PBool False" by (simp add: oget_def dgetd_def)
  have a: "oget r ''matched'' = PBool False"
    if h: "bindE (foldE (match_one l) es (- 1, None)) (history_answer tostr) = Inr r" for es r
  proof -
    obtain y e where y: "foldE (match_one l) es (- 1, None) = Inr (y, e)" "history_answer tostr (y, e) = Inr r"
      using h by (auto simp: bindE_Inr_iff)
    have "y \<le> 0" by (rule match_blind[OF assms y(1)]) simp
    with y(2) show ?thesis by (auto simp: history_answer_def bindE_Inr_iff oget_def dgetd_def Let_def)
  qed
  show ?thesis
  proof (cases "history_entries loads rows")
    case (Inl e)
    then show ?thesis using m by (simp add: run_history_def err_result_def)
  next
    case (Inr es)
    then show ?thesis using m a[of es]
      by (cases "bindE (foldE (match_one l) es (- 1, None)) (history_answer tostr)")
        (simp_all add: run_history_def err_result_def ok_result_def)
  qed
qed

section \<open>What the mind records\<close>

definition unjudged :: "decision \<Rightarrow> bool" where
  "unjudged d \<longleftrightarrow> de_id d \<noteq> '''' \<and> de_outcome d = None \<and> \<not> de_evaluated d \<and> dget (de_inputs d) ''strategy'' = None"

definition mind_unjudged :: "mind \<Rightarrow> bool" where
  "mind_unjudged m \<longleftrightarrow> (\<forall>d \<in> set (eg_history (mi_engine m)). unjudged d)"

text \<open>A report of the assembler has neither an urgency of its own nor a decision id.\<close>

definition plain_report :: "pyobj \<Rightarrow> bool" where
  "plain_report f \<longleftrightarrow> dget f ''urgency'' = None \<and> dget f ''decision_id'' = None"

lemma assemble_plain: "assemble now res = Inr (f, line) \<Longrightarrow> plain_report f"
  by (auto simp: assemble_def bindE_Inr_iff plain_report_def Let_def)

lemma record_outcome_no_id:
  assumes "\<forall>d \<in> set (eg_history e). unjudged d"
  shows "record_outcome now '''' c fb e = e"
proof -
  have "set_outcome '''' oc ds = ds" if "\<forall>d \<in> set ds. unjudged d" for oc ds
    using that by (induction ds) (auto simp: unjudged_def)
  then show ?thesis using assms by (simp add: record_outcome_def)
qed

lemma decision_recorded_unjudged:
  assumes "\<forall>d \<in> set (eg_history e). unjudged d"
  shows "\<forall>d \<in> set (eg_history (record_decision now (decision_id now n) ty (decision_inputs k f plan) rep e)). unjudged d"
proof -
  have "unjudged \<lparr>de_id = decision_id now n, de_time = now, de_type = ty, de_inputs = decision_inputs k f plan, de_action = rep,
      de_outcome = None, de_evaluated = False\<rparr>"
    by (simp add: unjudged_def decision_id_def decision_inputs_def)
  then show ?thesis using assms set_last_slice[of HISTORY_CAP]
    by (auto simp: record_decision_def append_capped_eq HISTORY_CAP_def dest!: set_last_slice[THEN subsetD])
qed

text \<open>On such reports and histories the reflection never chooses to act.\<close>

lemma reflection_passive:
  assumes "\<forall>d \<in> set ds. unjudged d" and "plain_report f"
    and "reflect_and_decide tostr now e f (map decision_dict ds) = Inr rf"
  shows "rf_strategy rf = PStr ''log_only'' \<or> rf_strategy rf = PStr ''investigate_further''"
proof -
  obtain cs best where cs: "find_similar_cases f (map decision_dict ds) = Inr cs" "select_best_strategy f cs = Inr best"
    and rf: "rf_strategy rf = best \<or> rf_strategy rf = PStr ''investigate_further''"
    using assms(3) by (auto simp: reflect_and_decide_def bindE_Inr_iff Let_def split: if_splits)
  have u: "dgetd f ''urgency'' (PStr ''LOW'') = PStr ''LOW''" using assms(2) by (simp add: plain_report_def dgetd_def)
  have "\<exists>d. sc_case c = PDict d \<and> dget d ''strategy'' = None" if c: "c \<in> set cs" for c
  proof -
    obtain d where "d \<in> set ds" "sc_case c = case_inputs (decision_dict d)"
      using similar_cases_props(3)[OF cs(1) c] by auto
    then show ?thesis using assms(1) by (auto simp: case_inputs_def decision_dict_def dgetd_def unjudged_def)
  qed
  from vote_log_only[OF this] have "cs \<noteq> [] \<Longrightarrow> \<exists>x. foldE vote cs [] = Inr [(PStr ''log_only'', x)]" by blast
  then have "best = PStr ''log_only''"
    using cs(2) by (cases "cs = []") (auto simp: select_best_strategy_def u default_strategy_def py_max_def)
  with rf show ?thesis by blast
qed

text \<open>A cycle keeps this, and what it reflects is inert.\<close>

definition inert :: "reflection option \<Rightarrow> bool" where
  "inert r \<longleftrightarrow> (\<forall>rf. r = Some rf \<longrightarrow> rf_strategy rf = PStr ''log_only'' \<or> rf_strategy rf = PStr ''investigate_further'')"

lemma action_execute_keeps:
  assumes "plain_report f"
  shows "sx_keeps mind_unjudged (action_execute c f summary)"
proof -
  have i: "dgetd f ''decision_id'' (PStr '''') = PStr ''''" using assms by (simp add: plain_report_def dgetd_def)
  have "sx_keeps mind_unjudged (on_io a)" for a :: "(agent_io, pyval list) sx"
    by (simp add: sx_keeps_def on_io_def mind_unjudged_def split: prod.split)
  moreover have "sx_keeps mind_unjudged (on_engine (record_outcome now '''' True fb))" for now fb
    unfolding on_engine_def by (rule sx_keeps_modify) (simp add: mind_unjudged_def record_outcome_no_id)
  ultimately show ?thesis unfolding action_execute_def i by (intro sx_keeps_bind sx_keeps_then sx_keeps_basic) simp_all
qed

lemma record_and_reflect_passive:
  assumes "plain_report f"
  shows "sx_triple mind_unjudged (record_and_reflect c f plan) (\<lambda>r m. mind_unjudged m \<and> inert r) mind_unjudged"
proof -
  have "case record_and_reflect c f plan m of (Inl e, m') \<Rightarrow> mind_unjudged m' | (Inr r, m') \<Rightarrow> mind_unjudged m' \<and> inert r"
    if m: "mind_unjudged m" for m
  proof (cases "py_len (dgetd f ''anomalies_found'' (PList []))")
    case (Inl e)
    with m show ?thesis by (simp add: record_and_reflect_def sx_defs inert_def)
  next
    case (Inr n)
    let ?e = "record_decision (cy_now c) (decision_id (cy_now c) (mi_cycles m)) ''ml_pipeline'' (decision_inputs n f plan) f (mi_engine m)"
    have u: "\<forall>d \<in> set (eg_history ?e). unjudged d"
      using decision_recorded_unjudged m by (simp add: mind_unjudged_def)
    then have h: "\<forall>d \<in> set (last_slice 50 (eg_history ?e)). unjudged d" using set_last_slice by fastforce
    from u have "mind_unjudged (m\<lparr>mi_engine := ?e\<rparr>)" by (simp add: mind_unjudged_def)
    then show ?thesis using reflection_passive[OF h assms] Inr
      by (cases "reflect_and_decide (en_tostr (cy_env c)) (cy_now c) ?e f (map decision_dict (last_slice 50 (eg_history ?e)))")
        (auto simp: record_and_reflect_def on_engine_def sx_defs inert_def)
  qed
  then show ?thesis by (simp add: sx_triple_def)
qed

lemma cycle_passive:
  "sx_triple mind_unjudged (pipeline_cycle c) (\<lambda>r m. mind_unjudged m \<and> (\<forall>f rf. r = Some (f, rf) \<longrightarrow> inert rf)) mind_unjudged"
proof -
  have none: "sx_triple mind_unjudged (sx_return None) (\<lambda>r m. mind_unjudged m \<and> (\<forall>f rf. r = Some (f, rf) \<longrightarrow> inert rf)) mind_unjudged"
    by (rule sx_triple_return) simp
  have count: "sx_triple mind_unjudged (sx_modify (\<lambda>m. m\<lparr>mi_cycles := mi_cycles m + 1\<rparr>)) (\<lambda>_. mind_unjudged) mind_unjudged"
    by (rule sx_triple_modify) (simp add: mind_unjudged_def)
  have body: "sx_triple mind_unjudged
     (sx_bind (action_execute c f l) (\<lambda>_. sx_bind (record_and_reflect c f plan) (\<lambda>rf. sx_return (Some (f, rf)))))
     (\<lambda>r m. mind_unjudged m \<and> (\<forall>f rf. r = Some (f, rf) \<longrightarrow> inert rf)) mind_unjudged"
    if "plain_report f" for f l plan
    using action_execute_keeps[OF that, of c l]
    by (intro sx_triple_bind[OF _ sx_triple_bind[OF record_and_reflect_passive[OF that]]])
      (auto simp: sx_triple_keeps intro!: sx_triple_return)
  have whole: "(\<And>f line. r = Inr (f, line) \<Longrightarrow> plain_report f) \<Longrightarrow> sx_triple mind_unjudged
     (sx_bind (sx_lift r) (\<lambda>(f, line). sx_bind (action_execute c f l) (\<lambda>_. sx_bind (record_and_reflect c f plan) (\<lambda>rf. sx_return (Some (f, rf))))))
     (\<lambda>r m. mind_unjudged m \<and> (\<forall>f rf. r = Some (f, rf) \<longrightarrow> inert rf)) mind_unjudged"
    for r :: "(pyobj \<times> pyobj) result" and l plan
    by (rule sx_triple_lift_bind) (auto simp: body split: prod.split)
  show ?thesis unfolding pipeline_cycle_def
    by (intro sx_triple_get_bind sx_triple_if none sx_triple_then[OF count] whole sx_triple_lift_bind)
      (auto intro: assemble_plain)
qed

section \<open>Runs of the mind\<close>

text \<open>The threads of the mind: the collector, the event callback, the pipeline, the learning and the goal loop.\<close>

datatype mind_op =
    BusMessage pyval
  | SensorEvent pyobj
  | Cycle cycle_input
  | LearningRound real
  | GoalRound real

fun mind_step :: "mind_op \<Rightarrow> mind \<Rightarrow> mind" where
  "mind_step (BusMessage v) m = collect_step v m"
| "mind_step (SensorEvent ev) m = on_sensor_event ev m"
| "mind_step (Cycle c) m = snd (pipeline_cycle c m)"
| "mind_step (LearningRound now) m = m\<lparr>mi_engine := snd (learn_from_history now (mi_engine m))\<rparr>"
| "mind_step (GoalRound now) m = m\<lparr>mi_goals := fst (adjust_turn now (mi_engine m) (mi_goals m))\<rparr>"

lemma learn_unjudged:
  assumes "\<forall>d \<in> set (eg_history e). unjudged d"
  shows "learn_from_history now e = (Inr (Insufficient 0), e)"
proof -
  have "filter de_evaluated (eg_history e) = []" using assms by (auto simp: filter_empty_conv unjudged_def)
  then show ?thesis by (simp add: learn_from_history_def sx_defs)
qed

lemma mind_step_unjudged: "mind_unjudged m \<Longrightarrow> mind_unjudged (mind_step op m)"
proof (cases op)
  case (Cycle c)
  assume m: "mind_unjudged m"
  have "sx_triple mind_unjudged (pipeline_cycle c) (\<lambda>_. mind_unjudged) mind_unjudged"
    by (rule sx_triple_conseq[OF cycle_passive]) auto
  from sx_triple_snd[OF this m] show ?thesis by (simp add: Cycle)
qed (auto simp: mind_unjudged_def learn_unjudged collect_step_def on_sensor_event_def buffer_add_def split: pyval.splits)

lemma mind_run_unjudged: "mind_unjudged m \<Longrightarrow> mind_unjudged (fold mind_step ops m)"
  by (induction ops arbitrary: m) (simp_all add: mind_step_unjudged)

section \<open>Properties\<close>

text \<open>
  The pipeline hands its workers the latest reading of each sensor under the sensor's name, a
  dictionary of dictionaries, so the workers see no number: on every node the anomaly task answers
  \<open>OK\<close> with no anomaly whatever the readings are, the clean task returns its input unchanged, and the
  history task never matches a past case.
\<close>
theorem pipeline_workers_blind:
  fixes env :: env and window :: "pyobj list"
  assumes "latest_readings window = Inr latest"
  shows "tr_result (worker_anomaly env (PDict latest) (PList (map PDict window))) =
      PDict [(''anomalies'', PList []), (''anomaly_count'', PInt 0), (''status'', PStr ''OK'')] \<and>
    tr_result (worker_clean env (PDict latest) (PList (map PDict window))) = PDict latest \<and>
    (\<exists>r. tr_result (worker_history env (PDict latest) (PList (map PDict window))) = PDict r \<and> oget r ''matched'' = PBool False)"
proof -
  have l: "only_readings latest" by (rule latest_readings_ok[OF assms])
  have "\<exists>r. tr_result (worker_history env (PDict latest) (PList (map PDict window))) = PDict r \<and> oget r ''matched'' = PBool False"
  proof (cases "history_entries (en_loads env) (en_rows env) = Inr []")
    case True
    then show ?thesis
      by (simp add: worker_history_def catching_def run_history_def ok_result_def oget_def dgetd_def)
  next
    case False
    then show ?thesis using history_blind[OF l] by (simp add: worker_history_def catching_def as_reading_def Let_def)
  qed
  then show ?thesis
    using anomaly_blind[OF l] clean_blind[OF l]
    by (simp add: worker_anomaly_def worker_clean_def catching_def as_window_readings as_reading_def
        run_anomaly_def ok_result_def Let_def)
qed

lemma pipeline_workers_blind_witness:
  "tr_result (worker_anomaly (demo_env ''me'') (PDict [(''temperature'', PDict [(''sensor'', PStr ''temperature''), (''celsius'', PInt 900)])])
     (PList (map PDict [[(''sensor'', PStr ''temperature''), (''celsius'', PInt 900)]]))) =
   PDict [(''anomalies'', PList []), (''anomaly_count'', PInt 0), (''status'', PStr ''OK'')]"
  using pipeline_workers_blind[of "[[(''sensor'', PStr ''temperature''), (''celsius'', PInt 900)]]"
    "[(''temperature'', PDict [(''sensor'', PStr ''temperature''), (''celsius'', PInt 900)])]" "demo_env ''me''"]
  by (simp add: latest_readings_def last_slice_def add_latest_def oget_def dgetd_def node_name_def)

text \<open>
  The mind never learns from its pipeline and never decides to act: in every run of its threads,
  the outcome of a decision is recorded before the decision and under no id, so no decision is ever
  evaluated and a learning round always finds insufficient data and changes nothing; and every
  reflection of a cycle, reading keys the report does not have, ends in \<open>log_only\<close> or
  \<open>investigate_further\<close>, however critical the report is.
\<close>
theorem mind_never_learns:
  fixes ops :: "mind_op list"
  defines "m \<equiv> fold mind_step ops new_mind"
  shows "(\<forall>d \<in> set (eg_history (mi_engine m)). \<not> de_evaluated d) \<and>
    learn_from_history now (mi_engine m) = (Inr (Insufficient 0), mi_engine m) \<and>
    (\<forall>final rf m'. pipeline_cycle c m = (Inr (Some (final, Some rf)), m') \<longrightarrow>
       rf_strategy rf = PStr ''log_only'' \<or> rf_strategy rf = PStr ''investigate_further'')"
proof -
  have "mind_unjudged new_mind" by (simp add: mind_unjudged_def new_mind_def new_engine_def)
  then have m: "mind_unjudged m" unfolding m_def by (rule mind_run_unjudged)
  then have "\<forall>d \<in> set (eg_history (mi_engine m)). unjudged d" by (simp add: mind_unjudged_def)
  moreover have "rf_strategy rf = PStr ''log_only'' \<or> rf_strategy rf = PStr ''investigate_further''"
    if "pipeline_cycle c m = (Inr (Some (final, Some rf)), m')" for final rf m'
    using cycle_passive[of c] m that by (force simp: sx_triple_def inert_def)
  ultimately show ?thesis using learn_unjudged by (auto simp: unjudged_def)
qed

lemma mind_never_learns_witness:
  "learn_from_history 0 (mi_engine (fold mind_step [SensorEvent [(''data'', PDict [(''sensor'', PStr ''t'')])], LearningRound 0] new_mind)) =
     (Inr (Insufficient 0), mi_engine (fold mind_step [SensorEvent [(''data'', PDict [(''sensor'', PStr ''t'')])], LearningRound 0] new_mind))"
  using mind_never_learns[of "[SensorEvent [(''data'', PDict [(''sensor'', PStr ''t'')])], LearningRound 0]" 0] by blast

end
