(* ===== verification/Database.thy ===== *)
theory Database
  imports Framing "HOL-Library.Option_ord"
begin

text \<open>
  The storage layer: the interface every adapter implements (\<open>db/adapters/base.py\<close>) as a
  locale, the JSON file adapter (\<open>db/adapters/json_adapter.py\<close>), the SQLite adapter
  (\<open>db/adapters/sqlite_adapter.py\<close>) and the TinyDB adapter (\<open>db/adapters/tinydb_adapter.py\<close>).
  \<open>now\<close> is the formatted clock and \<open>uid\<close> a fresh UUID.  A record is a dictionary; writing JSON
  and reading it back is the identity on records.  Record ids and timestamps are strings.
\<close>

section \<open>Records\<close>

definition rec_id :: "pyobj \<Rightarrow> pyval" where
  "rec_id r = oget r ''record_id''"

text \<open>What every \<open>save\<close> does first: \<open>record_id\<close> and \<open>timestamp\<close> are filled in.\<close>

definition complete_record :: "string \<Rightarrow> string \<Rightarrow> pyobj \<Rightarrow> pyobj" where
  "complete_record now uid record =
     dsetdefault ''timestamp'' (PStr now) (dset ''record_id'' (dgetd record ''record_id'' (PStr uid)) record)"

text \<open>\<open>r.update(data)\<close>.\<close>

definition patch_record :: "pyobj \<Rightarrow> pyobj \<Rightarrow> pyobj" where
  "patch_record dat r = fold (\<lambda>(k, v). dset k v) dat r"

definition matches_filters :: "pyobj \<Rightarrow> pyobj \<Rightarrow> bool" where
  "matches_filters filters r = list_all (\<lambda>(k, v). py_eq (oget r k) v) filters"

definition timestamp_of :: "pyobj \<Rightarrow> string result" where
  "timestamp_of r = (case dgetd r ''timestamp'' (PStr '''') of PStr s \<Rightarrow> Inr s | _ \<Rightarrow> Inl TypeError)"

text \<open>\<open>data.sort(key=timestamp, reverse=True)\<close> and \<open>data[:limit]\<close>; Python's sort is stable also in reverse.\<close>

definition newest_first :: "int \<Rightarrow> pyobj list \<Rightarrow> pyobj list result" where
  "newest_first limit rs =
     bindE (mapE (\<lambda>r. bindE (timestamp_of r) (\<lambda>t. Inr (t, r))) rs) (\<lambda>xs.
     Inr (py_take limit (map snd (sort_key_desc fst xs))))"

section \<open>The JSON adapter\<close>

type_synonym json_db = "(string, pyobj list) pydict"

definition json_load :: "string \<Rightarrow> json_db \<Rightarrow> pyobj list" where
  "json_load t db = dgetd db t []"

definition json_save :: "string \<Rightarrow> string \<Rightarrow> string \<Rightarrow> pyobj \<Rightarrow> (json_db, pyval) sx" where
  "json_save now uid t record db =
     (let r = complete_record now uid record; kept = filter (\<lambda>x. \<not> py_eq (rec_id x) (rec_id r)) (json_load t db)
      in (Inr (rec_id r), dset t (kept @ [r]) db))"

definition json_fetch :: "string \<Rightarrow> pyobj option \<Rightarrow> int \<Rightarrow> json_db \<Rightarrow> pyobj list result" where
  "json_fetch t filters limit db =
     newest_first limit (case filters of Some fs \<Rightarrow> filter (matches_filters fs) (json_load t db) | None \<Rightarrow> json_load t db)"

definition json_update :: "string \<Rightarrow> pyval \<Rightarrow> pyobj \<Rightarrow> json_db \<Rightarrow> json_db" where
  "json_update t i dat db =
     dset t (map (\<lambda>r. if py_eq (rec_id r) i then patch_record dat r else r) (json_load t db)) db"

definition json_delete :: "string \<Rightarrow> pyval \<Rightarrow> json_db \<Rightarrow> json_db" where
  "json_delete t i db = dset t (filter (\<lambda>r. \<not> py_eq (rec_id r) i) (json_load t db)) db"

definition json_count :: "string \<Rightarrow> json_db \<Rightarrow> nat" where
  "json_count t db = length (json_load t db)"

section \<open>The SQLite adapter\<close>

text \<open>
  A table is its columns with their defaults and its rows, each a dictionary over the columns;
  \<open>conv\<close> is the conversion of a value to the type affinity of a column.  A statement that names an
  unknown column, or binds a list or a dictionary, raises and changes nothing.
\<close>

record sql_table =
  sq_cols :: pyobj
  sq_rows :: "pyobj list"
  sq_notnull :: "string list"

type_synonym sql_db = "(string, sql_table) pydict"

definition ALLOWED_TABLES :: "string list" where
  "ALLOWED_TABLES = [''sensor_readings'', ''work_orders'', ''predictions'', ''peers'', ''sync_log'', ''telemetry_events'']"

definition check_table :: "string \<Rightarrow> unit result" where
  "check_table t = (if t \<in> set ALLOWED_TABLES then Inr () else Inl (ValueError (''Unknown table: '' @ t)))"

definition base_cols :: "string list \<Rightarrow> pyobj" where
  "base_cols names = map (\<lambda>c. (c, if c = ''synced'' then PInt 0 else PNone)) names"

definition adapter_schema :: "(string, pyobj) pydict" where
  "adapter_schema =
     [(''sensor_readings'', base_cols [''record_id'', ''timestamp'', ''node_id'', ''sensor_type'', ''value_num'', ''value_text'',
         ''raw_json'', ''synced'']),
      (''work_orders'', dset ''status'' (PStr ''OPEN'')
         (base_cols [''record_id'', ''timestamp'', ''node_id'', ''priority'', ''status'', ''description'', ''raw_json'', ''synced''])),
      (''predictions'', base_cols [''record_id'', ''timestamp'', ''node_id'', ''status'', ''urgency'', ''action'', ''raw_json'', ''synced'']),
      (''peers'', base_cols [''node_id'', ''ip'', ''transport'', ''last_seen'', ''caps_json''])]"

text \<open>\<open>CREATE TABLE IF NOT EXISTS\<close>.\<close>

definition sql_init :: "sql_db \<Rightarrow> sql_db" where
  "sql_init db = fold (\<lambda>(t, cols) d. dsetdefault t \<lparr>sq_cols = cols, sq_rows = [], sq_notnull = []\<rparr> d) adapter_schema db"

definition bindable :: "pyval \<Rightarrow> bool" where
  "bindable v \<longleftrightarrow> \<not> is_list v \<and> \<not> is_dict v"

definition row_over :: "(string \<Rightarrow> pyval \<Rightarrow> pyval) \<Rightarrow> pyobj \<Rightarrow> pyobj \<Rightarrow> pyobj" where
  "row_over conv cols r = map (\<lambda>(c, d). (c, case dget r c of Some v \<Rightarrow> conv c v | None \<Rightarrow> d)) cols"

definition insertable :: "pyobj \<Rightarrow> pyobj \<Rightarrow> bool" where
  "insertable cols r \<longleftrightarrow> list_all (\<lambda>(k, v). din k cols \<and> bindable v) r"

definition nulls_ok :: "sql_table \<Rightarrow> pyobj \<Rightarrow> bool" where
  "nulls_ok tb row \<longleftrightarrow> list_all (\<lambda>c. oget row c \<noteq> PNone) (sq_notnull tb)"

text \<open>
  \<open>INSERT OR REPLACE\<close> on a table with the unique column \<open>key\<close>; \<open>NULL\<close> in a column that forbids it is an
  error, as no such column has a default.
\<close>

definition insert_or_replace :: "string \<Rightarrow> (string \<Rightarrow> pyval \<Rightarrow> pyval) \<Rightarrow> pyobj \<Rightarrow> sql_table \<Rightarrow> sql_table option" where
  "insert_or_replace key conv r tb =
     (let row = row_over conv (sq_cols tb) r in
      if insertable (sq_cols tb) r \<and> nulls_ok tb row then
        Some (tb\<lparr>sq_rows := filter (\<lambda>x. oget x key = PNone \<or> oget x key \<noteq> oget row key) (sq_rows tb) @ [row]\<rparr>)
      else None)"

definition sql_save :: "(string \<Rightarrow> pyval \<Rightarrow> pyval) \<Rightarrow> (pyval \<Rightarrow> string) \<Rightarrow> string \<Rightarrow> string \<Rightarrow> string \<Rightarrow> pyobj \<Rightarrow> (sql_db, pyval) sx" where
  "sql_save conv dumps now uid t record =
     sx_bind (sx_lift (check_table t)) (\<lambda>_.
     let r = complete_record now uid record;
         fallback = [(''record_id'', rec_id r), (''timestamp'', dgetd r ''timestamp'' (PStr '''')),
           (''node_id'', dgetd r ''node_id'' (PStr ''local'')), (''raw_json'', PStr (dumps (PDict r)))] in
     sx_then (sx_modify (\<lambda>db. case dget db t of None \<Rightarrow> db
       | Some tb \<Rightarrow> (case insert_or_replace ''record_id'' conv r tb of
            Some tb' \<Rightarrow> dset t tb' db
          | None \<Rightarrow> (case insert_or_replace ''record_id'' conv fallback tb of Some tb' \<Rightarrow> dset t tb' db | None \<Rightarrow> db))))
     (sx_return (rec_id r)))"

text \<open>
  \<open>SELECT ... ORDER BY timestamp DESC LIMIT ?\<close>: the order of rows with equal timestamps, which SQL
  leaves open, is that of insertion here.  \<open>NULL\<close> is below every text.  An error gives no rows.
\<close>

definition sql_stamp :: "pyobj \<Rightarrow> string option" where
  "sql_stamp r = (case oget r ''timestamp'' of PStr s \<Rightarrow> Some s | _ \<Rightarrow> None)"

definition sql_fetch :: "string \<Rightarrow> pyobj option \<Rightarrow> int \<Rightarrow> sql_db \<Rightarrow> pyobj list result" where
  "sql_fetch t filters limit db =
     bindE (check_table t) (\<lambda>_. case dget db t of
       None \<Rightarrow> Inr []
     | Some tb \<Rightarrow>
         (let fs = (case filters of Some fs \<Rightarrow> fs | None \<Rightarrow> []) in
          if din ''timestamp'' (sq_cols tb) \<and> list_all (\<lambda>(k, v). din k (sq_cols tb) \<and> bindable v) fs then
            Inr (py_take (if limit < 0 then int (length (sq_rows tb)) else limit)
              (sort_key_desc sql_stamp
                (filter (\<lambda>r. list_all (\<lambda>(k, v). v \<noteq> PNone \<and> py_eq (oget r k) v) fs) (sq_rows tb))))
          else Inr []))"

definition sql_update :: "(string \<Rightarrow> pyval \<Rightarrow> pyval) \<Rightarrow> string \<Rightarrow> pyval \<Rightarrow> pyobj \<Rightarrow> sql_db \<Rightarrow> sql_db result" where
  "sql_update conv t i dat db =
     bindE (check_table t) (\<lambda>_. Inr (case dget db t of None \<Rightarrow> db
       | Some tb \<Rightarrow>
           if dat \<noteq> [] \<and> insertable (sq_cols tb) dat \<and> bindable i then
             dset t (tb\<lparr>sq_rows := map (\<lambda>r. if i \<noteq> PNone \<and> py_eq (rec_id r) i
                then patch_record (map (\<lambda>(k, v). (k, conv k v)) dat) r else r) (sq_rows tb)\<rparr>) db
           else db))"

definition sql_delete :: "string \<Rightarrow> pyval \<Rightarrow> sql_db \<Rightarrow> sql_db result" where
  "sql_delete t i db =
     bindE (check_table t) (\<lambda>_. Inr (case dget db t of None \<Rightarrow> db
       | Some tb \<Rightarrow> if bindable i then
             dset t (tb\<lparr>sq_rows := filter (\<lambda>r. \<not> (i \<noteq> PNone \<and> py_eq (rec_id r) i)) (sq_rows tb)\<rparr>) db
           else db))"

definition sql_count :: "string \<Rightarrow> sql_db \<Rightarrow> nat result" where
  "sql_count t db = bindE (check_table t) (\<lambda>_. Inr (case dget db t of None \<Rightarrow> 0 | Some tb \<Rightarrow> length (sq_rows tb)))"

section \<open>The interface\<close>

text \<open>The methods of \<open>BaseDBAdapter\<close>; \<open>health_check\<close> is defined on them.\<close>

record 's adapter =
  ad_save :: "string \<Rightarrow> string \<Rightarrow> string \<Rightarrow> pyobj \<Rightarrow> ('s, pyval) sx"
  ad_fetch :: "string \<Rightarrow> pyobj option \<Rightarrow> int \<Rightarrow> 's \<Rightarrow> pyobj list result"
  ad_update :: "string \<Rightarrow> pyval \<Rightarrow> pyobj \<Rightarrow> 's \<Rightarrow> 's result"
  ad_delete :: "string \<Rightarrow> pyval \<Rightarrow> 's \<Rightarrow> 's result"
  ad_count :: "string \<Rightarrow> 's \<Rightarrow> nat result"
  ad_type :: string

definition health_check :: "'s adapter \<Rightarrow> 's \<Rightarrow> bool" where
  "health_check ad s = (case ad_count ad ''sensor_readings'' s of Inr _ \<Rightarrow> True | Inl _ \<Rightarrow> False)"

definition json_adapter :: "json_db adapter" where
  "json_adapter = \<lparr>ad_save = json_save, ad_fetch = json_fetch, ad_update = (\<lambda>t i d s. Inr (json_update t i d s)),
     ad_delete = (\<lambda>t i s. Inr (json_delete t i s)), ad_count = (\<lambda>t s. Inr (json_count t s)), ad_type = ''json''\<rparr>"

definition sql_adapter :: "(string \<Rightarrow> pyval \<Rightarrow> pyval) \<Rightarrow> (pyval \<Rightarrow> string) \<Rightarrow> sql_db adapter" where
  "sql_adapter conv dumps = \<lparr>ad_save = sql_save conv dumps, ad_fetch = sql_fetch, ad_update = sql_update conv,
     ad_delete = sql_delete, ad_count = sql_count, ad_type = ''sqlite''\<rparr>"

text \<open>Tables in good order: every row has its own nonempty id and a timestamp.\<close>

definition row_ok :: "pyobj \<Rightarrow> bool" where
  "row_ok r \<longleftrightarrow> (\<exists>i ts. rec_id r = PStr i \<and> i \<noteq> [] \<and> dget r ''timestamp'' = Some (PStr ts))"

definition table_ok :: "pyobj list \<Rightarrow> bool" where
  "table_ok rs \<longleftrightarrow> distinct (map rec_id rs) \<and> (\<forall>r \<in> set rs. row_ok r)"

definition patch_ok :: "pyobj \<Rightarrow> bool" where
  "patch_ok dat \<longleftrightarrow> dat \<noteq> [] \<and> \<not> din ''record_id'' dat \<and> \<not> din ''timestamp'' dat"

text \<open>
  The contract of an adapter over the rows \<open>rows s t\<close> of a table: \<open>accepts s t r\<close> says that the
  table \<open>t\<close> can hold a (completed or partial) record with these keys and values.
\<close>

locale db_adapter =
  fixes ad :: "'s adapter"
    and rows :: "'s \<Rightarrow> string \<Rightarrow> pyobj list"
    and wf :: "'s \<Rightarrow> bool"
    and accepts :: "'s \<Rightarrow> string \<Rightarrow> pyobj \<Rightarrow> bool"
  assumes rows_ok: "wf s \<Longrightarrow> table_ok (rows s t)"
    and save_ok: "wf s \<Longrightarrow> c = complete_record now uid r \<Longrightarrow> accepts s t c \<Longrightarrow> row_ok c \<Longrightarrow>
      \<exists>s' row. ad_save ad now uid t r s = (Inr (rec_id c), s') \<and> wf s' \<and>
        rows s' t = filter (\<lambda>x. rec_id x \<noteq> rec_id c) (rows s t) @ [row] \<and>
        (\<forall>k v. dget c k = Some v \<longrightarrow> dget row k = Some v) \<and> (\<forall>t'. t' \<noteq> t \<longrightarrow> rows s' t' = rows s t')"
    and accepts_save: "wf s \<Longrightarrow> accepts s t (complete_record now uid r) \<Longrightarrow>
      accepts (snd (ad_save ad now uid t r s)) = accepts s"
    and update_ok: "wf s \<Longrightarrow> accepts s t dat \<Longrightarrow> patch_ok dat \<Longrightarrow>
      \<exists>s'. ad_update ad t (PStr i) dat s = Inr s' \<and> wf s' \<and> accepts s' = accepts s \<and>
        rows s' t = map (\<lambda>r. if rec_id r = PStr i then patch_record dat r else r) (rows s t) \<and>
        (\<forall>t'. t' \<noteq> t \<longrightarrow> rows s' t' = rows s t')"
    and delete_ok: "wf s \<Longrightarrow> accepts s t [] \<Longrightarrow>
      \<exists>s'. ad_delete ad t (PStr i) s = Inr s' \<and> wf s' \<and> accepts s' = accepts s \<and>
        rows s' t = filter (\<lambda>r. rec_id r \<noteq> PStr i) (rows s t) \<and> (\<forall>t'. t' \<noteq> t \<longrightarrow> rows s' t' = rows s t')"
    and count_ok: "wf s \<Longrightarrow> accepts s t [] \<Longrightarrow> ad_count ad t s = Inr (length (rows s t))"
    and fetch_ok: "wf s \<Longrightarrow> accepts s t fs \<Longrightarrow> 0 \<le> n \<Longrightarrow> \<forall>v \<in> set (dvals fs). v \<noteq> PNone \<Longrightarrow>
      ad_fetch ad t (Some fs) n s = newest_first n (filter (matches_filters fs) (rows s t))"
    and accepts_empty: "accepts s t r \<Longrightarrow> accepts s t []"
begin

lemma rec_id_key: "rec_id c = PStr i \<Longrightarrow> dget c ''record_id'' = Some (PStr i)"
  by (auto simp: rec_id_def oget_def dgetd_def split: option.splits)

text \<open>What was saved last under an id is what a fetch of that id returns, and nothing else is.\<close>

lemma save_then_fetch:
  assumes "wf s" and "c = complete_record now uid r" and "accepts s t c" and "row_ok c" and "rec_id c = PStr i"
    and "accepts s t [(''record_id'', PStr i)]" and "1 \<le> n"
  shows "\<exists>s' row. ad_save ad now uid t r s = (Inr (PStr i), s') \<and>
    ad_fetch ad t (Some [(''record_id'', PStr i)]) n s' = Inr [row] \<and> (\<forall>k v. dget c k = Some v \<longrightarrow> dget row k = Some v)"
proof -
  obtain s' row where s: "ad_save ad now uid t r s = (Inr (rec_id c), s')" "wf s'"
      "rows s' t = filter (\<lambda>x. rec_id x \<noteq> rec_id c) (rows s t) @ [row]" "\<forall>k v. dget c k = Some v \<longrightarrow> dget row k = Some v"
    using save_ok[OF assms(1-4)] by blast
  have row: "rec_id row = PStr i" "row_ok row"
    using s(4) assms(4,5) rec_id_key[OF assms(5)] unfolding row_ok_def rec_id_def oget_def dgetd_def by auto
  have "accepts s' = accepts s" using accepts_save[OF assms(1)] assms(2,3) s(1) by (metis snd_conv)
  then have "ad_fetch ad t (Some [(''record_id'', PStr i)]) n s' =
      newest_first n (filter (matches_filters [(''record_id'', PStr i)]) (rows s' t))"
    using assms(6,7) by (intro fetch_ok[OF s(2)]) simp_all
  also have "filter (matches_filters [(''record_id'', PStr i)]) (rows s' t) = [row]"
    using row(1) assms(5) by (auto simp: s(3) matches_filters_def rec_id_def filter_empty_conv)
  also have "newest_first n [row] = Inr [row]"
    using row(2) assms(7) by (auto simp: newest_first_def timestamp_of_def row_ok_def dgetd_def sort_key_desc_def py_take_def)
  finally show ?thesis using s(1,4) assms(5) by auto
qed

lemma saved_once: "wf s \<Longrightarrow> c = complete_record now uid r \<Longrightarrow> accepts s t c \<Longrightarrow> row_ok c \<Longrightarrow>
    ad_count ad t (snd (ad_save ad now uid t r s)) =
      Inr (length (filter (\<lambda>x. rec_id x \<noteq> rec_id c) (rows s t)) + 1)"
proof -
  assume a: "wf s" "c = complete_record now uid r" "accepts s t c" "row_ok c"
  obtain s' row where s: "ad_save ad now uid t r s = (Inr (rec_id c), s')" "wf s'"
      "rows s' t = filter (\<lambda>x. rec_id x \<noteq> rec_id c) (rows s t) @ [row]"
    using save_ok[OF a] by blast
  have "accepts s' t []" using accepts_save[OF a(1)] a(2,3) s(1) accepts_empty by (metis snd_conv)
  then show ?thesis using count_ok[OF s(2)] s(1,3) by simp
qed

end

section \<open>The two adapters fulfil the contract\<close>

definition stamp :: "pyobj \<Rightarrow> string" where
  "stamp r = (case dget r ''timestamp'' of Some (PStr s) \<Rightarrow> s | _ \<Rightarrow> [])"

lemma newest_first_rows:
  assumes "\<forall>r \<in> set rs. row_ok r"
  shows "newest_first n rs = Inr (py_take n (sort_key_desc stamp rs))"
proof -
  have "mapE (\<lambda>r. bindE (timestamp_of r) (\<lambda>t. Inr (t, r))) rs = Inr (map (\<lambda>r. (stamp r, r)) rs)"
    using assms by (intro mapE_Inr_map) (auto simp: timestamp_of_def row_ok_def stamp_def dgetd_def)
  moreover have "map snd (sort_key_desc fst (map (\<lambda>r. (stamp r, r)) rs)) = sort_key_desc stamp rs"
  proof -
    have "sort_key fst (map (\<lambda>r. (stamp r, r)) (rev rs)) = map (\<lambda>r. (stamp r, r)) (sort_key stamp (rev rs))"
      using map_sort_key[of "\<lambda>r. (stamp r, r)" fst "rev rs"] by simp
    then show ?thesis by (simp add: sort_key_desc_def rev_map comp_def)
  qed
  ultimately show ?thesis by (simp add: newest_first_def)
qed

lemma sort_key_same_order:
  "(\<And>x y. x \<in> set xs \<Longrightarrow> y \<in> set xs \<Longrightarrow> f x \<le> f y \<longleftrightarrow> g x \<le> g y) \<Longrightarrow> sort_key f xs = sort_key g xs"
proof (induction xs)
  case (Cons x xs)
  have "insort_key f x ys = insort_key g x ys" if h: "set ys \<subseteq> set xs" for ys
    using h Cons.prems by (induction ys) auto
  then show ?case using Cons by simp
qed simp

lemma sql_stamp_rows:
  assumes "\<forall>r \<in> set rs. row_ok r"
  shows "sort_key_desc sql_stamp rs = sort_key_desc stamp rs"
proof -
  have "sort_key sql_stamp (rev rs) = sort_key stamp (rev rs)"
  proof (rule sort_key_same_order)
    fix x y assume "x \<in> set (rev rs)" "y \<in> set (rev rs)"
    then obtain s t where "dget x ''timestamp'' = Some (PStr s)" "dget y ''timestamp'' = Some (PStr t)"
      using assms unfolding row_ok_def by (metis set_rev)
    then show "sql_stamp x \<le> sql_stamp y \<longleftrightarrow> stamp x \<le> stamp y" by (simp add: sql_stamp_def stamp_def oget_def dgetd_def)
  qed
  then show ?thesis by (simp add: sort_key_desc_def)
qed

lemma table_ok_filter: "table_ok rs \<Longrightarrow> table_ok (filter P rs)"
  by (simp add: table_ok_def distinct_map_filter)

lemma table_ok_append:
  assumes "table_ok rs" and "row_ok row"
  shows "table_ok (filter (\<lambda>x. rec_id x \<noteq> rec_id row) rs @ [row])"
  using assms by (auto simp: table_ok_def distinct_map_filter)

lemma fold_dset_other: "k \<notin> set (map fst d) \<Longrightarrow> dget (fold (\<lambda>(k, v). dset k v) d r) k = dget r k"
  by (induction d arbitrary: r) auto

lemma patch_keeps:
  assumes "patch_ok dat"
  shows "rec_id (patch_record dat r) = rec_id r" "row_ok (patch_record dat r) = row_ok r"
proof -
  have "''record_id'' \<notin> set (map fst dat)" "''timestamp'' \<notin> set (map fst dat)"
    using assms by (auto simp: patch_ok_def din_iff)
  then have "dget (patch_record dat r) ''record_id'' = dget r ''record_id''" "dget (patch_record dat r) ''timestamp'' = dget r ''timestamp''"
    unfolding patch_record_def by (auto intro: fold_dset_other)
  then show "rec_id (patch_record dat r) = rec_id r" "row_ok (patch_record dat r) = row_ok r"
    by (simp_all add: rec_id_def row_ok_def oget_def dgetd_def)
qed

lemma table_ok_patch:
  assumes "table_ok rs" and "patch_ok dat"
  shows "table_ok (map (\<lambda>r. if P r then patch_record dat r else r) rs)"
proof -
  have "map rec_id (map (\<lambda>r. if P r then patch_record dat r else r) rs) = map rec_id rs"
    using patch_keeps(1)[OF assms(2)] by simp
  moreover have "\<forall>r \<in> set (map (\<lambda>r. if P r then patch_record dat r else r) rs). row_ok r"
    using assms patch_keeps(2)[OF assms(2)] by (auto simp: table_ok_def)
  ultimately show ?thesis using assms(1) by (simp only: table_ok_def)
qed

lemma row_ok_id: "row_ok r \<Longrightarrow> py_eq (rec_id r) v \<longleftrightarrow> v = rec_id r"
  by (auto simp: row_ok_def)

lemma json_load_dset [simp]: "json_load t' (dset t rs db) = (if t' = t then rs else json_load t' db)"
  by (simp add: json_load_def)

definition json_wf :: "json_db \<Rightarrow> bool" where
  "json_wf db \<longleftrightarrow> (\<forall>t. table_ok (json_load t db))"

interpretation json: db_adapter json_adapter "\<lambda>db t. json_load t db" json_wf "\<lambda>db t r. True"
proof
  fix s t c now uid r
  assume wf: "json_wf s" and c: "c = complete_record now uid r" "row_ok c"
  have ok: "table_ok (json_load t s)" using wf by (simp add: json_wf_def)
  have f: "filter (\<lambda>x. \<not> py_eq (rec_id x) (rec_id c)) (json_load t s) = filter (\<lambda>x. rec_id x \<noteq> rec_id c) (json_load t s)"
    using ok by (intro filter_cong) (auto simp: table_ok_def row_ok_id)
  then show "\<exists>s' row. ad_save json_adapter now uid t r s = (Inr (rec_id c), s') \<and> json_wf s' \<and>
        json_load t s' = filter (\<lambda>x. rec_id x \<noteq> rec_id c) (json_load t s) @ [row] \<and>
        (\<forall>k v. dget c k = Some v \<longrightarrow> dget row k = Some v) \<and> (\<forall>t'. t' \<noteq> t \<longrightarrow> json_load t' s' = json_load t' s)"
    using wf table_ok_append[OF ok c(2)]
    by (simp add: json_adapter_def json_save_def json_wf_def Let_def flip: c(1))
next
  fix s t dat i
  assume wf: "json_wf s" and p: "patch_ok dat"
  have ok: "table_ok (json_load t s)" using wf by (simp add: json_wf_def)
  have m: "map (\<lambda>r. if py_eq (rec_id r) (PStr i) then patch_record dat r else r) (json_load t s) =
      map (\<lambda>r. if rec_id r = PStr i then patch_record dat r else r) (json_load t s)"
    by simp
  then show "\<exists>s'. ad_update json_adapter t (PStr i) dat s = Inr s' \<and> json_wf s' \<and> (\<lambda>t r. True) = (\<lambda>t r. True) \<and>
        json_load t s' = map (\<lambda>r. if rec_id r = PStr i then patch_record dat r else r) (json_load t s) \<and>
        (\<forall>t'. t' \<noteq> t \<longrightarrow> json_load t' s' = json_load t' s)"
    using wf table_ok_patch[OF ok p] by (simp add: json_adapter_def json_update_def json_wf_def)
next
  fix s t i
  assume wf: "json_wf s"
  then show "\<exists>s'. ad_delete json_adapter t (PStr i) s = Inr s' \<and> json_wf s' \<and> (\<lambda>t r. True) = (\<lambda>t r. True) \<and>
        json_load t s' = filter (\<lambda>r. rec_id r \<noteq> PStr i) (json_load t s) \<and> (\<forall>t'. t' \<noteq> t \<longrightarrow> json_load t' s' = json_load t' s)"
    using table_ok_filter by (simp add: json_adapter_def json_delete_def json_wf_def)
qed (simp_all add: json_wf_def json_adapter_def json_count_def json_fetch_def)

section \<open>SQLite\<close>

definition sql_rows :: "sql_db \<Rightarrow> string \<Rightarrow> pyobj list" where
  "sql_rows db t = (case dget db t of Some tb \<Rightarrow> sq_rows tb | None \<Rightarrow> [])"

definition sql_wf :: "sql_db \<Rightarrow> bool" where
  "sql_wf db \<longleftrightarrow> (\<forall>t. table_ok (sql_rows db t))"

definition sql_accepts :: "(string \<Rightarrow> pyval \<Rightarrow> pyval) \<Rightarrow> sql_db \<Rightarrow> string \<Rightarrow> pyobj \<Rightarrow> bool" where
  "sql_accepts conv db t r \<longleftrightarrow> t \<in> set ALLOWED_TABLES \<and>
     (case dget db t of Some tb \<Rightarrow> sq_notnull tb = [] \<and> din ''timestamp'' (sq_cols tb) \<and> insertable (sq_cols tb) r \<and> list_all (\<lambda>(k, v). conv k v = v) r
      | None \<Rightarrow> False)"

lemma sql_rows_dset [simp]: "sql_rows (dset t tb db) t' = (if t' = t then sq_rows tb else sql_rows db t')"
  by (simp add: sql_rows_def)

lemma sql_accepts_dset: "dget db t = Some tb \<Longrightarrow> sql_accepts conv (dset t (tb\<lparr>sq_rows := rs\<rparr>) db) = sql_accepts conv db"
  by (auto simp: sql_accepts_def fun_eq_iff)

lemma row_over_get:
  assumes "insertable cols r" and "list_all (\<lambda>(k, v). conv k v = v) r" and "dget r k = Some v"
  shows "dget (row_over conv cols r) k = Some v"
proof -
  have kv: "(k, v) \<in> set r" using assms(3) by (rule map_of_SomeD)
  then have "din k cols" "conv k v = v" using assms(1,2) by (auto simp: insertable_def list_all_iff)
  moreover have "dget (row_over conv cols r) k = map_option (\<lambda>d. conv k v) (dget cols k)"
    using assms(3) by (induction cols) (auto simp: row_over_def)
  ultimately show ?thesis by (auto simp: din_def)
qed

lemma patch_conv: "list_all (\<lambda>(k, v). conv k v = v) dat \<Longrightarrow> map (\<lambda>(k, v). (k, conv k v)) dat = dat"
  by (induction dat) auto

interpretation sql: db_adapter "sql_adapter conv dumps" sql_rows sql_wf "sql_accepts conv" for conv dumps
proof
  fix s t assume "sql_wf s" then show "table_ok (sql_rows s t)" by (simp add: sql_wf_def)
next
  fix s t c now uid r
  assume wf: "sql_wf s" and c: "c = complete_record now uid r" "row_ok c" and a: "sql_accepts conv s t c"
  obtain tb where tb: "dget s t = Some tb" "insertable (sq_cols tb) c" "list_all (\<lambda>(k, v). conv k v = v) c" "t \<in> set ALLOWED_TABLES" "sq_notnull tb = []"
    using a by (auto simp: sql_accepts_def split: option.splits)
  let ?row = "row_over conv (sq_cols tb) c"
  have rows: "sql_rows s t = sq_rows tb" using tb(1) by (simp add: sql_rows_def)
  have ok: "table_ok (sq_rows tb)" using wf rows by (metis sql_wf_def)
  have get: "\<forall>k v. dget c k = Some v \<longrightarrow> dget ?row k = Some v" using row_over_get[OF tb(2,3)] by blast
  then have id: "rec_id ?row = rec_id c" and rok: "row_ok ?row"
    using c(2) json.rec_id_key unfolding row_ok_def rec_id_def oget_def dgetd_def by (auto split: option.splits)
  have f: "filter (\<lambda>x. rec_id x = PNone \<or> rec_id x \<noteq> rec_id ?row) (sq_rows tb) = filter (\<lambda>x. rec_id x \<noteq> rec_id c) (sq_rows tb)"
    using ok by (intro filter_cong) (auto simp: table_ok_def row_ok_def id)
  let ?s' = "dset t (tb\<lparr>sq_rows := filter (\<lambda>x. rec_id x \<noteq> rec_id c) (sq_rows tb) @ [?row]\<rparr>) s"
  have save: "sql_save conv dumps now uid t r s = (Inr (rec_id c), ?s')"
    using tb f by (simp add: sql_save_def insert_or_replace_def nulls_ok_def check_table_def sx_defs Let_def flip: c(1) rec_id_def)
  then show "\<exists>s' row. ad_save (sql_adapter conv dumps) now uid t r s = (Inr (rec_id c), s') \<and> sql_wf s' \<and>
        sql_rows s' t = filter (\<lambda>x. rec_id x \<noteq> rec_id c) (sql_rows s t) @ [row] \<and>
        (\<forall>k v. dget c k = Some v \<longrightarrow> dget row k = Some v) \<and> (\<forall>t'. t' \<noteq> t \<longrightarrow> sql_rows s' t' = sql_rows s t')"
    using wf get table_ok_append[OF ok rok]
    by (intro exI[of _ ?s'] exI[of _ ?row]) (simp add: sql_adapter_def sql_wf_def rows id)
next
  fix s t now uid r
  assume "sql_accepts conv s t (complete_record now uid r)"
  then obtain tb where tb: "dget s t = Some tb" "insertable (sq_cols tb) (complete_record now uid r)" "t \<in> set ALLOWED_TABLES"
      "sq_notnull tb = []"
    by (auto simp: sql_accepts_def split: option.splits)
  then show "sql_accepts conv (snd (ad_save (sql_adapter conv dumps) now uid t r s)) = sql_accepts conv s"
    by (simp add: sql_adapter_def sql_save_def insert_or_replace_def nulls_ok_def check_table_def sx_defs Let_def sql_accepts_dset)
next
  fix s t dat i
  assume wf: "sql_wf s" and a: "sql_accepts conv s t dat" and p: "patch_ok dat"
  obtain tb where tb: "dget s t = Some tb" "insertable (sq_cols tb) dat" "list_all (\<lambda>(k, v). conv k v = v) dat" "t \<in> set ALLOWED_TABLES"
    using a by (auto simp: sql_accepts_def split: option.splits)
  have rows: "sql_rows s t = sq_rows tb" using tb(1) by (simp add: sql_rows_def)
  have ok: "table_ok (sq_rows tb)" using wf rows by (metis sql_wf_def)
  have "dat \<noteq> []" using p by (simp add: patch_ok_def)
  then have "sql_update conv t (PStr i) dat s =
      Inr (dset t (tb\<lparr>sq_rows := map (\<lambda>r. if rec_id r = PStr i then patch_record dat r else r) (sq_rows tb)\<rparr>) s)"
    unfolding sql_update_def patch_conv[OF tb(3)] using tb by (simp add: check_table_def bindable_def)
  then show "\<exists>s'. ad_update (sql_adapter conv dumps) t (PStr i) dat s = Inr s' \<and> sql_wf s' \<and> sql_accepts conv s' = sql_accepts conv s \<and>
        sql_rows s' t = map (\<lambda>r. if rec_id r = PStr i then patch_record dat r else r) (sql_rows s t) \<and>
        (\<forall>t'. t' \<noteq> t \<longrightarrow> sql_rows s' t' = sql_rows s t')"
    using wf table_ok_patch[OF ok p] tb(1) by (simp add: sql_adapter_def sql_wf_def rows sql_accepts_dset)
next
  fix s t i
  assume wf: "sql_wf s" and a: "sql_accepts conv s t []"
  obtain tb where tb: "dget s t = Some tb" "t \<in> set ALLOWED_TABLES"
    using a by (auto simp: sql_accepts_def split: option.splits)
  have rows: "sql_rows s t = sq_rows tb" using tb(1) by (simp add: sql_rows_def)
  have ok: "table_ok (sq_rows tb)" using wf rows by (metis sql_wf_def)
  have "sql_delete t (PStr i) s = Inr (dset t (tb\<lparr>sq_rows := filter (\<lambda>r. rec_id r \<noteq> PStr i) (sq_rows tb)\<rparr>) s)"
    using tb by (simp add: sql_delete_def check_table_def bindable_def)
  then show "\<exists>s'. ad_delete (sql_adapter conv dumps) t (PStr i) s = Inr s' \<and> sql_wf s' \<and> sql_accepts conv s' = sql_accepts conv s \<and>
        sql_rows s' t = filter (\<lambda>r. rec_id r \<noteq> PStr i) (sql_rows s t) \<and> (\<forall>t'. t' \<noteq> t \<longrightarrow> sql_rows s' t' = sql_rows s t')"
    using wf table_ok_filter[OF ok] tb(1) by (simp add: sql_adapter_def sql_wf_def rows sql_accepts_dset)
next
  fix s t assume "sql_accepts conv s t []"
  then show "ad_count (sql_adapter conv dumps) t s = Inr (length (sql_rows s t))"
    by (auto simp: sql_adapter_def sql_count_def check_table_def sql_accepts_def sql_rows_def split: option.splits)
next
  fix s t fs and n :: int
  assume wf: "sql_wf s" and a: "sql_accepts conv s t fs" and n: "0 \<le> n" and v: "\<forall>v \<in> set (dvals fs). v \<noteq> PNone"
  obtain tb where tb: "dget s t = Some tb" "insertable (sq_cols tb) fs" "t \<in> set ALLOWED_TABLES" "din ''timestamp'' (sq_cols tb)"
    using a by (auto simp: sql_accepts_def split: option.splits)
  have rows: "sql_rows s t = sq_rows tb" using tb(1) by (simp add: sql_rows_def)
  have ok: "table_ok (sq_rows tb)" using wf rows by (metis sql_wf_def)
  have "filter (\<lambda>r. list_all (\<lambda>(k, v). v \<noteq> PNone \<and> py_eq (oget r k) v) fs) (sq_rows tb) = filter (matches_filters fs) (sq_rows tb)"
    using v by (intro filter_cong) (auto simp: matches_filters_def list_all_iff)
  moreover have "\<forall>r \<in> set (filter (matches_filters fs) (sq_rows tb)). row_ok r" using ok by (simp add: table_ok_def)
  ultimately show "ad_fetch (sql_adapter conv dumps) t (Some fs) n s = newest_first n (filter (matches_filters fs) (sql_rows s t))"
    using tb n by (simp add: sql_adapter_def sql_fetch_def check_table_def rows newest_first_rows sql_stamp_rows insertable_def)
next
  fix s t r assume "sql_accepts conv s t r"
  then show "sql_accepts conv s t []" by (auto simp: sql_accepts_def insertable_def split: option.splits)
qed

section \<open>The TinyDB adapter\<close>

text \<open>
  TinyDB is a library the adapter calls: \<open>lib\<close> holds the calls on one table, for the query
  \<open>record_id == i\<close>.  Its documented behaviour is \<open>tinydb_laws\<close>.
\<close>

record 't tiny_lib =
  tl_empty :: 't
  tl_all :: "'t \<Rightarrow> pyobj list"
  tl_search :: "pyval \<Rightarrow> 't \<Rightarrow> pyobj list"
  tl_insert :: "pyobj \<Rightarrow> 't \<Rightarrow> 't"
  tl_update :: "pyobj \<Rightarrow> pyval \<Rightarrow> 't \<Rightarrow> 't"
  tl_remove :: "pyval \<Rightarrow> 't \<Rightarrow> 't"

definition has_id :: "pyval \<Rightarrow> pyobj \<Rightarrow> bool" where
  "has_id i r \<longleftrightarrow> din ''record_id'' r \<and> py_eq (rec_id r) i"

definition tinydb_laws :: "'t tiny_lib \<Rightarrow> bool" where
  "tinydb_laws lib \<longleftrightarrow> tl_all lib (tl_empty lib) = [] \<and>
     (\<forall>i t. tl_search lib i t = filter (has_id i) (tl_all lib t)) \<and>
     (\<forall>r t. tl_all lib (tl_insert lib r t) = tl_all lib t @ [r]) \<and>
     (\<forall>d i t. tl_all lib (tl_update lib d i t) = map (\<lambda>r. if has_id i r then patch_record d r else r) (tl_all lib t)) \<and>
     (\<forall>i t. tl_all lib (tl_remove lib i t) = filter (\<lambda>r. \<not> has_id i r) (tl_all lib t))"

definition tiny_table :: "'t tiny_lib \<Rightarrow> string \<Rightarrow> (string, 't) pydict \<Rightarrow> 't" where
  "tiny_table lib t db = dgetd db t (tl_empty lib)"

definition tiny_save :: "'t tiny_lib \<Rightarrow> string \<Rightarrow> string \<Rightarrow> string \<Rightarrow> pyobj \<Rightarrow> ((string, 't) pydict, pyval) sx" where
  "tiny_save lib now uid t record db =
     (let r = complete_record now uid record; i = rec_id r; tb = tiny_table lib t db in
      (Inr i, dset t (if tl_search lib i tb \<noteq> [] then tl_update lib r i tb else tl_insert lib r tb) db))"

definition tiny_fetch :: "'t tiny_lib \<Rightarrow> string \<Rightarrow> pyobj option \<Rightarrow> int \<Rightarrow> (string, 't) pydict \<Rightarrow> pyobj list result" where
  "tiny_fetch lib t filters limit db =
     (let rs = tl_all lib (tiny_table lib t db) in
      newest_first limit (case filters of Some fs \<Rightarrow> filter (matches_filters fs) rs | None \<Rightarrow> rs))"

definition tiny_update :: "'t tiny_lib \<Rightarrow> string \<Rightarrow> pyval \<Rightarrow> pyobj \<Rightarrow> (string, 't) pydict \<Rightarrow> (string, 't) pydict" where
  "tiny_update lib t i dat db = dset t (tl_update lib dat i (tiny_table lib t db)) db"

definition tiny_delete :: "'t tiny_lib \<Rightarrow> string \<Rightarrow> pyval \<Rightarrow> (string, 't) pydict \<Rightarrow> (string, 't) pydict" where
  "tiny_delete lib t i db = dset t (tl_remove lib i (tiny_table lib t db)) db"

definition tiny_count :: "'t tiny_lib \<Rightarrow> string \<Rightarrow> (string, 't) pydict \<Rightarrow> nat" where
  "tiny_count lib t db = length (tl_all lib (tiny_table lib t db))"

definition tiny_adapter :: "'t tiny_lib \<Rightarrow> (string, 't) pydict adapter" where
  "tiny_adapter lib = \<lparr>ad_save = tiny_save lib, ad_fetch = tiny_fetch lib, ad_update = (\<lambda>t i d s. Inr (tiny_update lib t i d s)),
     ad_delete = (\<lambda>t i s. Inr (tiny_delete lib t i s)), ad_count = (\<lambda>t s. Inr (tiny_count lib t s)), ad_type = ''tinydb''\<rparr>"

text \<open>A table kept as a list of records obeys the laws.\<close>

definition list_tiny :: "pyobj list tiny_lib" where
  "list_tiny = \<lparr>tl_empty = [], tl_all = (\<lambda>t. t), tl_search = (\<lambda>i. filter (has_id i)), tl_insert = (\<lambda>r t. t @ [r]),
     tl_update = (\<lambda>d i. map (\<lambda>r. if has_id i r then patch_record d r else r)), tl_remove = (\<lambda>i. filter (\<lambda>r. \<not> has_id i r))\<rparr>"

lemma list_tiny_laws: "tinydb_laws list_tiny"
  by (simp add: tinydb_laws_def list_tiny_def)

section \<open>Runs over an adapter\<close>

datatype db_op =
    DSave string string string pyobj
  | DUpdate string string pyobj
  | DDelete string string

fun db_step :: "'s adapter \<Rightarrow> db_op \<Rightarrow> 's \<Rightarrow> 's" where
  "db_step ad (DSave now uid t r) s = snd (ad_save ad now uid t r s)"
| "db_step ad (DUpdate t i d) s = (case ad_update ad t (PStr i) d s of Inr s' \<Rightarrow> s' | Inl _ \<Rightarrow> s)"
| "db_step ad (DDelete t i) s = (case ad_delete ad t (PStr i) s of Inr s' \<Rightarrow> s' | Inl _ \<Rightarrow> s)"

text \<open>The effect of an operation on the rows of a table, and when a schema admits it.\<close>

fun op_ok :: "(string \<Rightarrow> pyobj \<Rightarrow> bool) \<Rightarrow> db_op \<Rightarrow> bool" where
  "op_ok acc (DSave now uid t r) = (acc t (complete_record now uid r) \<and> row_ok (complete_record now uid r))"
| "op_ok acc (DUpdate t i d) = (acc t d \<and> patch_ok d)"
| "op_ok acc (DDelete t i) = acc t []"

text \<open>A row holds every field of a record.\<close>

definition extends_row :: "pyobj \<Rightarrow> pyobj \<Rightarrow> bool" where
  "extends_row r row \<longleftrightarrow> rec_id row = rec_id r \<and> (\<forall>k v. dget r k = Some v \<longrightarrow> dget row k = Some v)"

lemma patch_get: "dget (patch_record d r) k = (case dget (rev d) k of Some v \<Rightarrow> Some v | None \<Rightarrow> dget r k)"
  unfolding patch_record_def by (induction d arbitrary: r) (auto simp: dget_append split: option.split)

lemma extends_patch: "patch_ok d \<Longrightarrow> extends_row r row \<Longrightarrow> extends_row (patch_record d r) (patch_record d row)"
  by (auto simp: extends_row_def patch_keeps patch_get split: option.split)

lemma related_filter:
  "list_all2 extends_row rs qs \<Longrightarrow> list_all2 extends_row (filter (\<lambda>x. rec_id x \<noteq> i) rs) (filter (\<lambda>x. rec_id x \<noteq> i) qs)"
  by (induction rule: list_all2_induct) (auto simp: extends_row_def)

lemma related_patch:
  "list_all2 extends_row rs qs \<Longrightarrow> patch_ok d \<Longrightarrow>
    list_all2 extends_row (map (\<lambda>r. if rec_id r = i then patch_record d r else r) rs)
      (map (\<lambda>r. if rec_id r = i then patch_record d r else r) qs)"
  by (induction rule: list_all2_induct) (auto simp: extends_patch, simp_all add: extends_row_def)

text \<open>The abstract tables: what the interface promises.\<close>

fun abs_step :: "db_op \<Rightarrow> (string \<Rightarrow> pyobj list) \<Rightarrow> string \<Rightarrow> pyobj list" where
  "abs_step (DSave now uid t r) T =
     (let c = complete_record now uid r in T(t := filter (\<lambda>x. rec_id x \<noteq> rec_id c) (T t) @ [c]))"
| "abs_step (DUpdate t i d) T = T(t := map (\<lambda>r. if rec_id r = PStr i then patch_record d r else r) (T t))"
| "abs_step (DDelete t i) T = T(t := filter (\<lambda>r. rec_id r \<noteq> PStr i) (T t))"

context db_adapter
begin

definition refines :: "(string \<Rightarrow> pyobj list) \<Rightarrow> 's \<Rightarrow> bool" where
  "refines T s \<longleftrightarrow> wf s \<and> (\<forall>t. list_all2 extends_row (T t) (rows s t))"

lemma step_refines:
  assumes "refines T s" and "op_ok (accepts s) op"
  shows "refines (abs_step op T) (db_step ad op s) \<and> accepts (db_step ad op s) = accepts s"
proof (cases op)
  case (DSave now uid t r)
  let ?c = "complete_record now uid r"
  have a: "accepts s t ?c" "row_ok ?c" using assms(2) by (simp_all add: DSave)
  have w: "wf s" using assms(1) by (simp add: refines_def)
  obtain s' row where s: "ad_save ad now uid t r s = (Inr (rec_id ?c), s')" "wf s'"
      "rows s' t = filter (\<lambda>x. rec_id x \<noteq> rec_id ?c) (rows s t) @ [row]"
      "\<forall>k v. dget ?c k = Some v \<longrightarrow> dget row k = Some v" "\<forall>t'. t' \<noteq> t \<longrightarrow> rows s' t' = rows s t'"
    using save_ok[OF w refl a] by blast
  obtain i where i: "rec_id ?c = PStr i" using a(2) by (auto simp: row_ok_def)
  have "dget row ''record_id'' = Some (PStr i)" using s(4) rec_id_key[OF i] by blast
  then have "rec_id row = rec_id ?c" by (simp add: i) (simp add: rec_id_def oget_def dgetd_def)
  then have "extends_row ?c row" using s(4) by (simp add: extends_row_def)
  then have "list_all2 extends_row (abs_step op T t') (rows s' t')" for t'
    using assms(1) s(3,5) related_filter[of "T t" "rows s t"]
    by (auto simp: refines_def DSave Let_def intro!: list_all2_appendI)
  then show ?thesis using s(1,2) accepts_save[OF w a(1)] by (simp add: DSave refines_def)
next
  case (DUpdate t i d)
  have a: "accepts s t d" "patch_ok d" using assms(2) by (simp_all add: DUpdate)
  have w: "wf s" using assms(1) by (simp add: refines_def)
  obtain s' where s: "ad_update ad t (PStr i) d s = Inr s'" "wf s'" "accepts s' = accepts s"
      "rows s' t = map (\<lambda>r. if rec_id r = PStr i then patch_record d r else r) (rows s t)" "\<forall>t'. t' \<noteq> t \<longrightarrow> rows s' t' = rows s t'"
    using update_ok[OF w a] by blast
  have "list_all2 extends_row (abs_step op T t') (rows s' t')" for t'
    using assms(1) s(4,5) related_patch[OF _ a(2), of "T t" "rows s t"] by (simp add: refines_def DUpdate)
  then show ?thesis using s(1,2,3) by (simp add: DUpdate refines_def)
next
  case (DDelete t i)
  have a: "accepts s t []" using assms(2) by (simp add: DDelete)
  have w: "wf s" using assms(1) by (simp add: refines_def)
  obtain s' where s: "ad_delete ad t (PStr i) s = Inr s'" "wf s'" "accepts s' = accepts s"
      "rows s' t = filter (\<lambda>r. rec_id r \<noteq> PStr i) (rows s t)" "\<forall>t'. t' \<noteq> t \<longrightarrow> rows s' t' = rows s t'"
    using delete_ok[OF w a] by blast
  have "list_all2 extends_row (abs_step op T t') (rows s' t')" for t'
    using assms(1) s(4,5) related_filter[of "T t" "rows s t"] by (simp add: refines_def DDelete)
  then show ?thesis using s(1,2,3) by (simp add: DDelete refines_def)
qed

lemma run_refines:
  "refines T s \<Longrightarrow> list_all (op_ok (accepts s)) ops \<Longrightarrow> refines (fold abs_step ops T) (fold (db_step ad) ops s)"
proof (induction ops arbitrary: T s)
  case (Cons op ops)
  then show ?case using step_refines[of T s op] by simp
qed simp

end

section \<open>Properties\<close>



end
