(* ===== verification/DBAgent.thy ===== *)
theory DBAgent
  imports Database
begin

text \<open>
  The database agent (\<open>db/db_agent.py\<close>) over any adapter: the domain records it saves and the
  gossip that pushes unsynced readings to the peers.  \<open>node\<close> is the node's id, \<open>encode\<close> and
  \<open>decode\<close> JSON with UTF-8, \<open>tostr\<close> is \<open>str\<close> of a value that is no string, and \<open>reach ip bytes\<close> says
  whether the connection to a peer could be made and the bytes sent.
\<close>

section \<open>Choosing the adapter\<close>

text \<open>
  What \<open>_detect_and_init\<close> ends with, given which of the adapters could be imported and initialised.
\<close>

definition detect_adapter :: "bool \<Rightarrow> bool \<Rightarrow> bool \<Rightarrow> string" where
  "detect_adapter postgres sqlite tinydb =
     (if postgres then ''postgres'' else if sqlite then ''sqlite'' else if tinydb then ''tinydb'' else ''json'')"

text \<open>A table \<open>work_orders\<close> without \<open>record_id\<close> is an old schema: three tables are dropped and recreated.\<close>

definition migrate :: "sql_db \<Rightarrow> sql_db" where
  "migrate db =
     (let db1 = sql_init db;
          old = (case dget db1 ''work_orders'' of Some tb \<Rightarrow> \<not> din ''record_id'' (sq_cols tb) | None \<Rightarrow> True)
      in sql_init (if old then ddel ''predictions'' (ddel ''sensor_readings'' (ddel ''work_orders'' db1)) else db1))"

section \<open>Saving and reading\<close>

definition agent_save :: "'s adapter \<Rightarrow> string \<Rightarrow> string \<Rightarrow> string \<Rightarrow> string \<Rightarrow> pyobj \<Rightarrow> ('s, pyval) sx" where
  "agent_save ad node now uid t record = ad_save ad now uid t (dsetdefault ''node_id'' (PStr node) record)"

definition reading_record :: "(pyval \<Rightarrow> string) \<Rightarrow> string \<Rightarrow> pyobj \<Rightarrow> pyobj" where
  "reading_record dumps sensor_type raw =
     [(''sensor_type'', PStr sensor_type),
      (''value_num'', py_or (py_or (oget raw ''celsius'') (oget raw ''count'')) (oget raw ''qty'')),
      (''value_text'', py_or (oget raw ''item'') (oget raw ''status'')), (''raw_json'', PStr (dumps (PDict raw))), (''synced'', PInt 0)]"

definition agent_save_reading :: "'s adapter \<Rightarrow> (pyval \<Rightarrow> string) \<Rightarrow> string \<Rightarrow> string \<Rightarrow> string \<Rightarrow> string \<Rightarrow> pyobj \<Rightarrow> ('s, pyval) sx" where
  "agent_save_reading ad dumps node now uid sensor_type raw =
     agent_save ad node now uid ''sensor_readings'' (reading_record dumps sensor_type raw)"

definition work_order_record :: "(pyval \<Rightarrow> string) \<Rightarrow> string \<Rightarrow> pyobj \<Rightarrow> pyobj" where
  "work_order_record dumps uid wo =
     [(''record_id'', dgetd wo ''work_order_id'' (PStr uid)), (''priority'', dgetd wo ''priority'' (PStr ''LOW'')), (''status'', PStr ''OPEN''),
      (''description'', dgetd wo ''description'' (PStr '''')), (''raw_json'', PStr (dumps (PDict wo))), (''synced'', PInt 0)]"

definition agent_save_work_order :: "'s adapter \<Rightarrow> (pyval \<Rightarrow> string) \<Rightarrow> string \<Rightarrow> string \<Rightarrow> string \<Rightarrow> pyobj \<Rightarrow> ('s, pyval) sx" where
  "agent_save_work_order ad dumps node now uid wo =
     agent_save ad node now uid ''work_orders'' (work_order_record dumps uid wo)"

definition prediction_record :: "(pyval \<Rightarrow> string) \<Rightarrow> pyobj \<Rightarrow> pyobj" where
  "prediction_record dumps r =
     [(''status'', dgetd r ''status'' (PStr ''OK'')), (''urgency'', dgetd r ''action_urgency'' (PStr ''LOW'')),
      (''action'', dgetd r ''recommended_action'' (PStr '''')), (''raw_json'', PStr (dumps (PDict r))), (''synced'', PInt 0)]"

definition agent_save_prediction :: "'s adapter \<Rightarrow> (pyval \<Rightarrow> string) \<Rightarrow> string \<Rightarrow> string \<Rightarrow> string \<Rightarrow> pyobj \<Rightarrow> ('s, pyval) sx" where
  "agent_save_prediction ad dumps node now uid r = agent_save ad node now uid ''predictions'' (prediction_record dumps r)"

definition get_history :: "'s adapter \<Rightarrow> int \<Rightarrow> 's \<Rightarrow> pyobj list result" where
  "get_history ad limit = ad_fetch ad ''predictions'' None limit"

definition agent_recent_readings :: "'s adapter \<Rightarrow> string option \<Rightarrow> int \<Rightarrow> 's \<Rightarrow> pyobj list result" where
  "agent_recent_readings ad sensor_type limit =
     ad_fetch ad ''sensor_readings'' (case sensor_type of
        Some s \<Rightarrow> if s \<noteq> [] then Some [(''sensor_type'', PStr s)] else None | None \<Rightarrow> None) limit"

definition agent_status :: "'s adapter \<Rightarrow> string \<Rightarrow> bool \<Rightarrow> 's \<Rightarrow> pyobj result" where
  "agent_status ad node running s =
     bindE (ad_count ad ''sensor_readings'' s) (\<lambda>a. bindE (ad_count ad ''work_orders'' s) (\<lambda>b. bindE (ad_count ad ''predictions'' s) (\<lambda>c.
     Inr [(''db_type'', PStr (ad_type ad)), (''node_id'', PStr (take 12 node)), (''sensor_readings'', PInt (int a)),
       (''work_orders'', PInt (int b)), (''predictions'', PInt (int c)), (''sync_running'', PBool running)])))"

section \<open>Pushing\<close>

definition mark_one :: "'s adapter \<Rightarrow> pyobj \<Rightarrow> ('s, unit) sx" where
  "mark_one ad r =
     (if truthy (rec_id r) then
        (\<lambda>s. case ad_update ad ''sensor_readings'' (rec_id r) [(''synced'', PInt 1)] s of
           Inl e \<Rightarrow> (Inl e, s) | Inr s' \<Rightarrow> (Inr (), s'))
      else sx_return ())"

definition sync_payload :: "'s adapter \<Rightarrow> string \<Rightarrow> pyobj list \<Rightarrow> pyobj" where
  "sync_payload ad node records =
     [(''type'', PStr ''DB_SYNC''), (''from'', PStr node), (''db_type'', PStr (ad_type ad)), (''table'', PStr ''sensor_readings''),
      (''records'', PList (map PDict records))]"

record gossip =
  go_node :: string
  go_own :: string
  go_limit :: nat
  go_encode :: "pyval \<Rightarrow> byte list"
  go_reach :: "pyval \<Rightarrow> byte list \<Rightarrow> bool"

text \<open>A push: the records that were sent, none when there was nothing to send or sending failed.\<close>

definition push_to_peer :: "'s adapter \<Rightarrow> gossip \<Rightarrow> pyval \<Rightarrow> ('s, pyobj list) sx" where
  "push_to_peer ad g ip =
     sx_bind (sx_get (ad_fetch ad ''sensor_readings'' (Some [(''synced'', PInt 0)]) 20)) (\<lambda>r.
     sx_bind (sx_lift r) (\<lambda>unsynced.
     if unsynced = [] then sx_return []
     else
       let raw = go_encode g (PDict (sync_payload ad (go_node g) unsynced)) in
       if length raw > go_limit g then sx_return []
       else if \<not> go_reach g ip raw then sx_return []
       else sx_then (sx_iter (mark_one ad) unsynced) (sx_return unsynced)))"

definition peer_ip :: "pyobj \<Rightarrow> pyval" where
  "peer_ip info = py_or (oget info ''addr'') (dgetd info ''ip'' (PStr ''''))"

text \<open>One round of \<open>_sync_loop\<close> over the peers; an exception ends one push only.\<close>

fun sync_round :: "'s adapter \<Rightarrow> gossip \<Rightarrow> (string, pyobj) pydict \<Rightarrow> 's \<Rightarrow> (pyval \<times> pyobj list) list \<times> 's" where
  "sync_round ad g [] s = ([], s)"
| "sync_round ad g ((pid, info) # ps) s =
     (let ip = peer_ip info in
      if truthy ip \<and> ip \<noteq> PStr (go_own g) then
        (case push_to_peer ad g ip s of (r, s1) \<Rightarrow>
         (case sync_round ad g ps s1 of (sent, s2) \<Rightarrow>
           (case r of Inr rs \<Rightarrow> ((ip, rs) # sent, s2) | Inl _ \<Rightarrow> (sent, s2))))
      else sync_round ad g ps s)"

section \<open>Receiving\<close>

definition normalize_record :: "(pyval \<Rightarrow> string) \<Rightarrow> string \<Rightarrow> string \<Rightarrow> pyobj \<Rightarrow> pyobj" where
  "normalize_record tostr now uid r =
     [(''record_id'', PStr (py_str tostr (dgetd r ''record_id'' (PStr uid)))),
      (''timestamp'', PStr (py_str tostr (dgetd r ''timestamp'' (PStr now)))),
      (''node_id'', PStr (take 64 (py_str tostr (dgetd r ''node_id'' (PStr ''unknown''))))),
      (''sensor_type'', PStr (take 32 (py_str tostr (dgetd r ''sensor_type'' (PStr ''unknown''))))),
      (''value_num'', if is_num (oget r ''value_num'') then oget r ''value_num'' else PNone),
      (''value_text'', if truthy (oget r ''value_text'') then PStr (take 256 (py_str tostr (oget r ''value_text''))) else PNone),
      (''raw_json'', if is_str (oget r ''raw_json'') then oget r ''raw_json'' else PStr ''{}''),
      (''synced'', PInt 1)]"

text \<open>Saving the received records one by one, \<open>uids\<close> the fresh ids; a record that fails is skipped.\<close>

fun save_received :: "'s adapter \<Rightarrow> (pyval \<Rightarrow> string) \<Rightarrow> string \<Rightarrow> string \<Rightarrow> (nat \<Rightarrow> string) \<Rightarrow> pyval list \<Rightarrow> 's \<Rightarrow> 's" where
  "save_received ad tostr node now uids [] s = s"
| "save_received ad tostr node now uids (v # vs) s =
     save_received ad tostr node now (\<lambda>n. uids (Suc n)) vs
       (case v of PDict r \<Rightarrow> snd (agent_save ad node now (uids 0) ''sensor_readings'' (normalize_record tostr now (uids 0) r) s) | _ \<Rightarrow> s)"

definition accept_sync :: "'s adapter \<Rightarrow> (pyval \<Rightarrow> string) \<Rightarrow> string \<Rightarrow> string \<Rightarrow> (nat \<Rightarrow> string) \<Rightarrow> pyval \<Rightarrow> 's \<Rightarrow> 's" where
  "accept_sync ad tostr node now uids payload s = (case payload of
      PDict p \<Rightarrow>
        if oget p ''type'' \<noteq> PStr ''DB_SYNC'' then s
        else if dgetd p ''table'' (PStr '''') \<noteq> PStr ''sensor_readings'' then s
        else (case dgetd p ''records'' (PList []) of PList vs \<Rightarrow> save_received ad tostr node now uids vs s | _ \<Rightarrow> s)
    | _ \<Rightarrow> s)"

definition handle_incoming :: "'s adapter \<Rightarrow> nat \<Rightarrow> (byte list \<Rightarrow> pyval result) \<Rightarrow> (pyval \<Rightarrow> string) \<Rightarrow> string \<Rightarrow> string \<Rightarrow> (nat \<Rightarrow> string) \<Rightarrow>
    segments \<Rightarrow> 's \<Rightarrow> 's" where
  "handle_incoming ad limit decode tostr node now uids cs s = (case recv_message limit cs of
      Body dat \<Rightarrow> (case decode dat of Inr payload \<Rightarrow> accept_sync ad tostr node now uids payload s | Inl _ \<Rightarrow> s)
    | _ \<Rightarrow> s)"

section \<open>The effect of a push\<close>

abbreviation unsynced_filter :: pyobj where
  "unsynced_filter \<equiv> [(''synced'', PInt 0)]"

definition unsynced :: "pyobj list \<Rightarrow> pyobj list" where
  "unsynced rs = filter (matches_filters unsynced_filter) rs"

definition next_batch :: "pyobj list \<Rightarrow> pyobj list" where
  "next_batch rs = py_take 20 (sort_key_desc stamp (unsynced rs))"

definition mark_rows :: "pyval set \<Rightarrow> pyobj list \<Rightarrow> pyobj list" where
  "mark_rows I rs = map (\<lambda>r. if rec_id r \<in> I then patch_record [(''synced'', PInt 1)] r else r) rs"

lemma synced_patch [simp]: "patch_ok [(''synced'', PInt 1)]"
  by (simp add: patch_ok_def din_def)

lemma mark_rows_ids [simp]: "map rec_id (mark_rows I rs) = map rec_id rs"
  by (simp add: mark_rows_def patch_keeps)

lemma mark_rows_row [simp]: "rec_id (patch_record [(''synced'', PInt 1)] r) = rec_id r"
  by (simp add: patch_keeps)

lemma mark_rows_step:
  "map (\<lambda>r. if rec_id r = i then patch_record [(''synced'', PInt 1)] r else r) (mark_rows I rs) = mark_rows (insert i I) rs"
  by (auto simp: mark_rows_def patch_record_def)

lemma unsynced_mark: "unsynced (mark_rows I rs) = filter (\<lambda>r. rec_id r \<notin> I) (unsynced rs)"
  by (induction rs) (auto simp: unsynced_def mark_rows_def matches_filters_def patch_record_def oget_def py_eq_def)

lemma unsynced_subset: "set (unsynced rs) \<subseteq> set rs"
  by (simp add: unsynced_def)

lemma next_batch_facts:
  assumes "table_ok rs"
  shows "set (next_batch rs) \<subseteq> set (unsynced rs)" "distinct (map rec_id (next_batch rs))"
    "length (next_batch rs) = min 20 (length (unsynced rs))" "\<forall>r \<in> set (next_batch rs). row_ok r"
proof -
  show s: "set (next_batch rs) \<subseteq> set (unsynced rs)"
    using set_py_take[of 20 "sort_key_desc stamp (unsynced rs)"] by (simp add: next_batch_def)
  have "distinct (map rec_id (unsynced rs))" using assms by (simp add: table_ok_def unsynced_def distinct_map_filter)
  moreover have "mset (map rec_id (sort_key_desc stamp (unsynced rs))) = mset (map rec_id (unsynced rs))" by simp
  ultimately have "distinct (map rec_id (sort_key_desc stamp (unsynced rs)))" by (metis mset_eq_imp_distinct_iff)
  then show "distinct (map rec_id (next_batch rs))"
    by (simp add: next_batch_def py_take_def distinct_take flip: take_map)
  show "length (next_batch rs) = min 20 (length (unsynced rs))" by (simp add: next_batch_def length_py_take)
  show "\<forall>r \<in> set (next_batch rs). row_ok r" using s assms unsynced_subset by (auto simp: table_ok_def)
qed

lemma unsynced_after:
  assumes "table_ok rs"
  defines "rs' \<equiv> mark_rows (rec_id ` set (next_batch rs)) rs"
  shows "set (unsynced rs') \<subseteq> set (unsynced rs)" "length (unsynced rs') = length (unsynced rs) - 20"
    "rec_id ` set (unsynced rs') \<inter> rec_id ` set (next_batch rs) = {}"
proof -
  note b = next_batch_facts[OF assms(1)]
  let ?B = "rec_id ` set (next_batch rs)"
  have u: "unsynced rs' = filter (\<lambda>r. rec_id r \<notin> ?B) (unsynced rs)" by (simp add: rs'_def unsynced_mark)
  then show "set (unsynced rs') \<subseteq> set (unsynced rs)" "rec_id ` set (unsynced rs') \<inter> ?B = {}" by auto
  have d: "distinct (map rec_id (unsynced rs))" using assms(1) by (simp add: table_ok_def unsynced_def distinct_map_filter)
  have "map rec_id (unsynced rs') = filter (\<lambda>i. i \<notin> ?B) (map rec_id (unsynced rs))"
    by (simp add: u filter_map comp_def)
  then have "length (unsynced rs') = card (rec_id ` set (unsynced rs) - ?B)"
    using d by (metis distinct_card distinct_filter length_map list.set_map set_diff_eq set_filter)
  also have "\<dots> = card (rec_id ` set (unsynced rs)) - card ?B"
    using b(1) by (intro card_Diff_subset) auto
  also have "\<dots> = length (unsynced rs) - min 20 (length (unsynced rs))"
    using d b(2,3) by (metis distinct_card length_map list.set_map)
  finally show "length (unsynced rs') = length (unsynced rs) - 20" by linarith
qed

text \<open>Whether a batch fits and the peer can be reached.\<close>

definition can_send :: "'s adapter \<Rightarrow> gossip \<Rightarrow> pyval \<Rightarrow> pyobj list \<Rightarrow> bool" where
  "can_send ad g ip b =
     (let raw = go_encode g (PDict (sync_payload ad (go_node g) b)) in length raw \<le> go_limit g \<and> go_reach g ip raw)"

context db_adapter
begin

definition ready :: "'s \<Rightarrow> bool" where
  "ready s \<longleftrightarrow> wf s \<and> accepts s ''sensor_readings'' unsynced_filter \<and> accepts s ''sensor_readings'' [(''synced'', PInt 1)]"

lemma mark_all:
  "ready s \<Longrightarrow> \<forall>r \<in> set b. row_ok r \<Longrightarrow> \<exists>s'. sx_iter (mark_one ad) b s = (Inr (), s') \<and> ready s' \<and> accepts s' = accepts s \<and>
     (\<forall>I. rows s ''sensor_readings'' = mark_rows I rs \<longrightarrow> rows s' ''sensor_readings'' = mark_rows (rec_id ` set b \<union> I) rs)"
proof (induction b arbitrary: s)
  case (Cons r b)
  obtain i where i: "rec_id r = PStr i" "i \<noteq> []" using Cons.prems(2) by (auto simp: row_ok_def)
  obtain s1 where s1: "ad_update ad ''sensor_readings'' (PStr i) [(''synced'', PInt 1)] s = Inr s1" "wf s1" "accepts s1 = accepts s"
      "rows s1 ''sensor_readings'' = map (\<lambda>r. if rec_id r = PStr i then patch_record [(''synced'', PInt 1)] r else r) (rows s ''sensor_readings'')"
    using update_ok[of s "''sensor_readings''" "[(''synced'', PInt 1)]" i] Cons.prems(1) by (auto simp: ready_def)
  have "ready s1" using Cons.prems(1) s1(2,3) by (simp add: ready_def)
  then obtain s' where s': "sx_iter (mark_one ad) b s1 = (Inr (), s')" "ready s'" "accepts s' = accepts s1"
      "\<forall>I. rows s1 ''sensor_readings'' = mark_rows I rs \<longrightarrow> rows s' ''sensor_readings'' = mark_rows (rec_id ` set b \<union> I) rs"
    using Cons.IH[of s1] Cons.prems(2) by auto
  have "mark_one ad r s = (Inr (), s1)" using i s1(1) by (simp add: mark_one_def)
  then have "sx_iter (mark_one ad) (r # b) s = (Inr (), s')" using s'(1) by (simp add: sx_defs)
  moreover have "rows s' ''sensor_readings'' = mark_rows (rec_id ` set (r # b) \<union> I) rs"
    if h: "rows s ''sensor_readings'' = mark_rows I rs" for I
    using s'(4) s1(4) by (simp add: h i(1) mark_rows_step)
  moreover have "accepts s' = accepts s" using s'(3) s1(3) by simp
  ultimately show ?case using s'(2) by blast
qed (simp add: sx_defs)

lemma push_cases:
  assumes "ready s"
  defines "b \<equiv> next_batch (rows s ''sensor_readings'')"
  shows "push_to_peer ad g ip s = (Inr [], s) \<and> (b = [] \<or> \<not> can_send ad g ip b) \<or>
    (\<exists>s'. push_to_peer ad g ip s = (Inr b, s') \<and> ready s' \<and> accepts s' = accepts s \<and> can_send ad g ip b \<and> b \<noteq> [] \<and>
       rows s' ''sensor_readings'' = mark_rows (rec_id ` set b) (rows s ''sensor_readings''))"
proof -
  have ok: "table_ok (rows s ''sensor_readings'')" using assms(1) rows_ok by (simp add: ready_def)
  have "ad_fetch ad ''sensor_readings'' (Some unsynced_filter) 20 s =
      newest_first 20 (filter (matches_filters unsynced_filter) (rows s ''sensor_readings''))"
    using assms(1) by (intro fetch_ok) (simp_all add: ready_def)
  also have "\<dots> = Inr b"
    using newest_first_rows[of "unsynced (rows s ''sensor_readings'')" 20] ok unsynced_subset[of "rows s ''sensor_readings''"]
    unfolding b_def next_batch_def unsynced_def by (auto simp: table_ok_def)
  finally have f: "ad_fetch ad ''sensor_readings'' (Some unsynced_filter) 20 s = Inr b" .
  show ?thesis
  proof (cases "b = [] \<or> \<not> can_send ad g ip b")
    case True
    then have "push_to_peer ad g ip s = (Inr [], s)"
      unfolding push_to_peer_def can_send_def by (auto simp: sx_defs f Let_def)
    then show ?thesis using True by blast
  next
    case False
    have "mark_rows {} (rows s ''sensor_readings'') = rows s ''sensor_readings''" by (simp add: mark_rows_def)
    then obtain s' where s': "sx_iter (mark_one ad) b s = (Inr (), s')" "ready s'" "accepts s' = accepts s"
        "rows s' ''sensor_readings'' = mark_rows (rec_id ` set b) (rows s ''sensor_readings'')"
      using mark_all[OF assms(1) next_batch_facts(4)[OF ok], of "rows s ''sensor_readings''"] unfolding b_def
      by (metis Un_empty_right)
    then have "push_to_peer ad g ip s = (Inr b, s')"
      using False unfolding push_to_peer_def can_send_def by (auto simp: sx_defs f Let_def)
    then show ?thesis using False s' by blast
  qed
qed

end

section \<open>Rounds\<close>

text \<open>The ids a list of pushes carried.\<close>

definition sent_ids :: "(pyval \<times> pyobj list) list \<Rightarrow> pyval list" where
  "sent_ids sent = concat (map (\<lambda>(ip, b). map rec_id b) sent)"

text \<open>The rounds of the sync thread: each with the peers and the reachability of its time.\<close>

fun sync_rounds :: "'s adapter \<Rightarrow> (gossip \<times> (string, pyobj) pydict) list \<Rightarrow> 's \<Rightarrow> (pyval \<times> pyobj list) list \<times> 's" where
  "sync_rounds ad [] s = ([], s)"
| "sync_rounds ad ((g, ps) # rds) s =
     (case sync_round ad g ps s of (sent, s1) \<Rightarrow> (case sync_rounds ad rds s1 of (later, s2) \<Rightarrow> (sent @ later, s2)))"

definition pushable :: "gossip \<Rightarrow> pyobj \<Rightarrow> bool" where
  "pushable g info \<longleftrightarrow> truthy (peer_ip info) \<and> peer_ip info \<noteq> PStr (go_own g)"

text \<open>Some peer of the round can be sent any batch of at most twenty of the records.\<close>

definition live_round :: "'s adapter \<Rightarrow> pyobj list \<Rightarrow> gossip \<times> (string, pyobj) pydict \<Rightarrow> bool" where
  "live_round ad rs rd = (case rd of (g, ps) \<Rightarrow> \<exists>(pid, info) \<in> set ps. pushable g info \<and>
     (\<forall>b. set b \<subseteq> set rs \<and> length b \<le> 20 \<longrightarrow> can_send ad g (peer_ip info) b))"

context db_adapter
begin

definition sent_rel :: "'s \<Rightarrow> (pyval \<times> pyobj list) list \<Rightarrow> 's \<Rightarrow> bool" where
  "sent_rel s sent s' \<longleftrightarrow> (let u = unsynced (rows s ''sensor_readings''); u' = unsynced (rows s' ''sensor_readings'') in
     ready s' \<and> set u' \<subseteq> set u \<and> distinct (sent_ids sent) \<and> set (sent_ids sent) \<subseteq> rec_id ` set u \<and>
     set (sent_ids sent) \<inter> rec_id ` set u' = {} \<and> length u' + length (sent_ids sent) = length u \<and>
     map rec_id (rows s' ''sensor_readings'') = map rec_id (rows s ''sensor_readings''))"

lemma sent_rel_refl: "ready s \<Longrightarrow> sent_rel s [] s"
  by (simp add: sent_rel_def sent_ids_def)

lemma sent_rel_trans: "sent_rel s a t \<Longrightarrow> sent_rel t b u \<Longrightarrow> sent_rel s (a @ b) u"
proof -
  assume a: "sent_rel s a t" "sent_rel t b u"
  have i: "sent_ids (a @ b) = sent_ids a @ sent_ids b" by (simp add: sent_ids_def)
  have "set (sent_ids b) \<subseteq> rec_id ` set (unsynced (rows t ''sensor_readings''))"
      "set (unsynced (rows t ''sensor_readings'')) \<subseteq> set (unsynced (rows s ''sensor_readings''))"
      "set (unsynced (rows u ''sensor_readings'')) \<subseteq> set (unsynced (rows t ''sensor_readings''))"
    using a by (simp_all add: sent_rel_def Let_def)
  then have "set (sent_ids b) \<subseteq> rec_id ` set (unsynced (rows s ''sensor_readings''))"
      "rec_id ` set (unsynced (rows u ''sensor_readings'')) \<subseteq> rec_id ` set (unsynced (rows t ''sensor_readings''))"
    by blast+
  then show ?thesis using a unfolding sent_rel_def Let_def i by (simp add: Int_Un_distrib2) blast
qed

lemma push_rel:
  assumes "ready s"
  shows "\<exists>b s'. push_to_peer ad g ip s = (Inr b, s') \<and> sent_rel s [(ip, b)] s'"
proof -
  let ?rs = "rows s ''sensor_readings''"
  have ok: "table_ok ?rs" using assms rows_ok by (simp add: ready_def)
  note u = unsynced_after[OF ok] and b = next_batch_facts[OF ok]
  have "sent_rel s [(ip, next_batch ?rs)] s'"
    if h: "ready s'" "rows s' ''sensor_readings'' = mark_rows (rec_id ` set (next_batch ?rs)) ?rs" for s'
    using h(1) u b unfolding sent_rel_def h(2) Let_def sent_ids_def by (auto simp: min_def)
  then show ?thesis using push_cases[OF assms, of g ip] sent_rel_refl[OF assms] by (auto simp: sent_rel_def sent_ids_def)
qed

lemma round_rel: "ready s \<Longrightarrow> sync_round ad g ps s = (sent, s') \<Longrightarrow> sent_rel s sent s'"
proof (induction ps arbitrary: s sent)
  case (Cons p ps)
  obtain pid info where p: "p = (pid, info)" by (cases p)
  show ?case
  proof (cases "truthy (peer_ip info) \<and> peer_ip info \<noteq> PStr (go_own g)")
    case True
    obtain b s1 where b: "push_to_peer ad g (peer_ip info) s = (Inr b, s1)" "sent_rel s [(peer_ip info, b)] s1"
      using push_rel[OF Cons.prems(1)] by blast
    obtain later s2 where m: "sync_round ad g ps s1 = (later, s2)" by fastforce
    have "sent_rel s1 later s2" using Cons.IH[of s1 later] b(2) m Cons.prems(2) True
      by (simp add: sent_rel_def p b(1) Let_def)
    then show ?thesis using sent_rel_trans[OF b(2)] Cons.prems(2) True by (auto simp: p b(1) m)
  next
    case False
    then have "sync_round ad g ps s = (sent, s')" using Cons.prems(2) by (auto simp: p Let_def)
    then show ?thesis by (rule Cons.IH[OF Cons.prems(1)])
  qed
qed (simp add: sent_rel_refl)

lemma rounds_rel: "ready s \<Longrightarrow> sync_rounds ad rds s = (sent, s') \<Longrightarrow> sent_rel s sent s'"
proof (induction rds arbitrary: s sent)
  case (Cons rd rds)
  obtain g ps where rd: "rd = (g, ps)" by (cases rd)
  obtain a s1 where a: "sync_round ad g ps s = (a, s1)" by fastforce
  obtain b s2 where b: "sync_rounds ad rds s1 = (b, s2)" by fastforce
  have r: "sent_rel s a s1" by (rule round_rel[OF Cons.prems(1) a])
  then have "sent_rel s1 b s2" using Cons.IH[of s1 b] b Cons.prems(2) by (simp add: sent_rel_def rd a Let_def)
  then show ?case using sent_rel_trans[OF r] Cons.prems(2) by (auto simp: rd a b)
qed (simp add: sent_rel_refl)

end

context db_adapter
begin

lemma push_progress:
  assumes "ready s" and "push_to_peer ad g ip s = (Inr b, s')"
    and "\<forall>b. set b \<subseteq> set (unsynced (rows s ''sensor_readings'')) \<and> length b \<le> 20 \<longrightarrow> can_send ad g ip b"
  shows "length (unsynced (rows s' ''sensor_readings'')) = length (unsynced (rows s ''sensor_readings'')) - 20"
proof -
  let ?rs = "rows s ''sensor_readings''"
  have ok: "table_ok ?rs" using assms(1) rows_ok by (simp add: ready_def)
  have c: "can_send ad g ip (next_batch ?rs)" using assms(3) next_batch_facts(1,3)[OF ok] by simp
  have "length (unsynced ?rs) = 0" if h: "next_batch ?rs = []"
    using next_batch_facts(3)[OF ok] h by (simp add: min_def split: if_splits)
  then show ?thesis using push_cases[OF assms(1), of g ip] assms(2) unsynced_after(2)[OF ok] c by auto
qed

lemma sent_rel_mono:
  assumes "sent_rel s sent s'"
  shows "ready s'" "length (unsynced (rows s' ''sensor_readings'')) \<le> length (unsynced (rows s ''sensor_readings''))"
    "set (unsynced (rows s' ''sensor_readings'')) \<subseteq> set (unsynced (rows s ''sensor_readings''))"
  using assms by (auto simp: sent_rel_def Let_def)

lemma live_round_mono: "set rs' \<subseteq> set rs \<Longrightarrow> live_round ad rs rd \<Longrightarrow> live_round ad rs' rd"
  unfolding live_round_def by (cases rd) fastforce

lemma round_progress:
  "ready s \<Longrightarrow> sync_round ad g ps s = (sent, s') \<Longrightarrow> live_round ad (unsynced (rows s ''sensor_readings'')) (g, ps) \<Longrightarrow>
    length (unsynced (rows s' ''sensor_readings'')) \<le> length (unsynced (rows s ''sensor_readings'')) - 20"
proof (induction ps arbitrary: s sent s')
  case (Cons p ps)
  obtain pid info where p: "p = (pid, info)" by (cases p)
  obtain b s1 where b: "push_to_peer ad g (peer_ip info) s = (Inr b, s1)" "sent_rel s [(peer_ip info, b)] s1"
    using push_rel[OF Cons.prems(1)] by blast
  obtain rest s2 where r: "sync_round ad g ps s1 = (rest, s2)" by fastforce
  note m = sent_rel_mono[OF b(2)]
  have tail: "sent_rel s1 rest s2" by (rule round_rel[OF m(1) r])
  show ?case
  proof (cases "pushable g info")
    case True
    then have s': "s' = s2" using Cons.prems(2) by (auto simp: p pushable_def b(1) r)
    show ?thesis
    proof (cases "live_round ad (unsynced (rows s1 ''sensor_readings'')) (g, ps)")
      case l: True
      show ?thesis using Cons.IH[OF m(1) r l] m(2) by (simp add: s')
    next
      case False
      then have "\<not> live_round ad (unsynced (rows s ''sensor_readings'')) (g, ps)" using live_round_mono[OF m(3)] by blast
      then have "\<forall>b. set b \<subseteq> set (unsynced (rows s ''sensor_readings'')) \<and> length b \<le> 20 \<longrightarrow> can_send ad g (peer_ip info) b"
        using Cons.prems(3) by (auto simp: live_round_def p)
      then show ?thesis using push_progress[OF Cons.prems(1) b(1)] sent_rel_mono(2)[OF tail] by (simp add: s')
    qed
  next
    case False
    then have "sync_round ad g ps s = (sent, s')" "live_round ad (unsynced (rows s ''sensor_readings'')) (g, ps)"
      using Cons.prems(2,3) by (auto simp: p Let_def live_round_def pushable_def)
    then show ?thesis by (rule Cons.IH[OF Cons.prems(1)])
  qed
qed (simp add: live_round_def)

lemma rounds_progress:
  "ready s \<Longrightarrow> sync_rounds ad rds s = (sent, s') \<Longrightarrow> \<forall>rd \<in> set rds. live_round ad (unsynced (rows s ''sensor_readings'')) rd \<Longrightarrow>
    length (unsynced (rows s' ''sensor_readings'')) \<le> length (unsynced (rows s ''sensor_readings'')) - 20 * length rds"
proof (induction rds arbitrary: s sent s')
  case (Cons rd rds)
  obtain g ps where rd: "rd = (g, ps)" by (cases rd)
  obtain a s1 where a: "sync_round ad g ps s = (a, s1)" by fastforce
  obtain b s2 where b: "sync_rounds ad rds s1 = (b, s2)" by fastforce
  note m = sent_rel_mono[OF round_rel[OF Cons.prems(1) a]]
  have "s' = s2" using Cons.prems(2) by (simp add: rd a b)
  moreover have "length (unsynced (rows s1 ''sensor_readings'')) \<le> length (unsynced (rows s ''sensor_readings'')) - 20"
    using round_progress[OF Cons.prems(1) a] Cons.prems(3) by (simp add: rd)
  moreover have "length (unsynced (rows s2 ''sensor_readings'')) \<le> length (unsynced (rows s1 ''sensor_readings'')) - 20 * length rds"
    using Cons.prems(3) live_round_mono[OF m(3)] by (intro Cons.IH[OF m(1) b]) simp
  ultimately show ?case by simp
qed simp

end

context db_adapter
begin

lemma blocked_round:
  assumes "ready s" and "\<And>ip. \<not> can_send ad g ip (next_batch (rows s ''sensor_readings''))"
  shows "snd (sync_round ad g ps s) = s \<and> sent_ids (fst (sync_round ad g ps s)) = []"
proof -
  have p: "push_to_peer ad g ip s = (Inr [], s)" for ip
    using push_cases[OF assms(1), of g ip] assms(2) by auto
  show ?thesis
  proof (induction ps)
    case (Cons q ps)
    obtain pid info where q: "q = (pid, info)" by (cases q)
    obtain a t where r: "sync_round ad g ps s = (a, t)" by fastforce
    show ?case using Cons by (simp add: q p r Let_def sent_ids_def)
  qed (simp add: sent_ids_def)
qed

lemma blocked_rounds:
  "ready s \<Longrightarrow> \<forall>(g, ps) \<in> set rds. \<forall>ip. \<not> can_send ad g ip (next_batch (rows s ''sensor_readings'')) \<Longrightarrow>
    snd (sync_rounds ad rds s) = s \<and> sent_ids (fst (sync_rounds ad rds s)) = []"
proof (induction rds)
  case (Cons rd rds)
  obtain g ps where rd: "rd = (g, ps)" by (cases rd)
  obtain a t where r: "sync_round ad g ps s = (a, t)" by fastforce
  have t: "t = s" "sent_ids a = []" using blocked_round[OF Cons.prems(1), of g ps] Cons.prems(2) r by (auto simp: rd)
  obtain b u where q: "sync_rounds ad rds s = (b, u)" by fastforce
  show ?case using Cons.IH[OF Cons.prems(1)] Cons.prems(2) t by (simp add: rd r q sent_ids_def)
qed (simp add: sent_ids_def)

end

section \<open>Received records\<close>

definition sensor_columns :: "string list" where
  "sensor_columns = [''record_id'', ''timestamp'', ''node_id'', ''sensor_type'', ''value_num'', ''value_text'', ''raw_json'', ''synced'']"

lemma insertable_normalized:
  "insertable (base_cols sensor_columns) (normalize_record tostr now uid r)"
  by (auto simp: insertable_def normalize_record_def sensor_columns_def base_cols_def bindable_def din_def is_num_def
      elim: num_of.elims is_str.elims)

lemma save_normalized:
  assumes "dget db ''sensor_readings'' = Some \<lparr>sq_cols = base_cols sensor_columns, sq_rows = rs, sq_notnull = []\<rparr>" and "conv ''synced'' (PInt 1) = PInt 1"
    and n_def: "n = normalize_record tostr now uid r"
  shows "\<exists>row keep. oget row ''synced'' = PInt 1 \<and>
    agent_save (sql_adapter conv dumps) node now uid ''sensor_readings'' n db =
      (Inr (rec_id n), dset ''sensor_readings'' \<lparr>sq_cols = base_cols sensor_columns, sq_rows = filter keep rs @ [row], sq_notnull = []\<rparr> db)"
proof -
  have d: "dget n ''node_id'' \<noteq> None" "dget n ''timestamp'' \<noteq> None" "dget n ''record_id'' = Some (rec_id n)"
      "dget n ''synced'' = Some (PInt 1)"
    by (simp_all add: n_def normalize_record_def rec_id_def oget_def dgetd_def)
  have c: "complete_record now uid (dsetdefault ''node_id'' (PStr node) n) = n"
    unfolding n_def normalize_record_def complete_record_def by (simp add: dsetdefault_def din_def dgetd_def)
  have "din ''synced'' (base_cols sensor_columns)" by (simp add: din_def base_cols_def sensor_columns_def)
  then have "oget (row_over conv (base_cols sensor_columns) n) ''synced'' = PInt 1"
    using d(4) assms(2) by (simp add: row_over_def oget_def dgetd_def base_cols_def sensor_columns_def)
  moreover have "check_table ''sensor_readings'' = Inr ()" by (simp add: check_table_def ALLOWED_TABLES_def)
  ultimately show ?thesis
    using assms(1) insertable_normalized[of tostr now uid r]
    by (simp add: agent_save_def sql_adapter_def sql_save_def sx_defs c Let_def insert_or_replace_def nulls_ok_def n_def[symmetric]) blast
qed

lemma save_received_synced:
  assumes "conv ''synced'' (PInt 1) = PInt 1"
  shows "dget db ''sensor_readings'' = Some \<lparr>sq_cols = base_cols sensor_columns, sq_rows = rs, sq_notnull = []\<rparr> \<Longrightarrow>
    \<exists>rs'. dget (save_received (sql_adapter conv dumps) tostr node now uids vs db) ''sensor_readings'' =
        Some \<lparr>sq_cols = base_cols sensor_columns, sq_rows = rs', sq_notnull = []\<rparr> \<and> set (unsynced rs') \<subseteq> set (unsynced rs) \<and>
      (\<forall>t. t \<noteq> ''sensor_readings'' \<longrightarrow> dget (save_received (sql_adapter conv dumps) tostr node now uids vs db) t = dget db t)"
proof (induction vs arbitrary: db rs uids)
  case (Cons v vs)
  show ?case
  proof (cases v)
    case (PDict r)
    let ?n = "normalize_record tostr now (uids 0) r"
    let ?db = "snd (agent_save (sql_adapter conv dumps) node now (uids 0) ''sensor_readings'' ?n db)"
    obtain row keep where s: "oget row ''synced'' = PInt 1"
        "?db = dset ''sensor_readings'' \<lparr>sq_cols = base_cols sensor_columns, sq_rows = filter keep rs @ [row], sq_notnull = []\<rparr> db"
      using save_normalized[of db rs conv, OF Cons.prems assms refl, where tostr = tostr and now = now and uid = "uids 0" and r = r
          and dumps = dumps and node = node] by auto
    have u: "set (unsynced (filter keep rs @ [row])) \<subseteq> set (unsynced rs)"
      using s(1) by (auto simp: unsynced_def matches_filters_def py_eq_def)
    have g: "dget ?db ''sensor_readings'' = Some \<lparr>sq_cols = base_cols sensor_columns, sq_rows = filter keep rs @ [row], sq_notnull = []\<rparr>"
      by (simp add: s(2))
    have o: "dget ?db t = dget db t" if h: "t \<noteq> ''sensor_readings''" for t using h by (simp add: s(2))
    show ?thesis using Cons.IH[OF g, of "\<lambda>n. uids (Suc n)"] u o by (simp add: PDict) blast
  qed (use Cons.IH[OF Cons.prems, of "\<lambda>n. uids (Suc n)"] in simp_all)
qed simp

lemma accept_sync_synced:
  assumes "conv ''synced'' (PInt 1) = PInt 1"
    and "dget db ''sensor_readings'' = Some \<lparr>sq_cols = base_cols sensor_columns, sq_rows = rs, sq_notnull = []\<rparr>"
    and db'_def: "db' = accept_sync (sql_adapter conv dumps) tostr node now uids payload db"
  shows "\<exists>rs'. dget db' ''sensor_readings'' = Some \<lparr>sq_cols = base_cols sensor_columns, sq_rows = rs', sq_notnull = []\<rparr> \<and>
    set (unsynced rs') \<subseteq> set (unsynced rs) \<and> (\<forall>t. t \<noteq> ''sensor_readings'' \<longrightarrow> dget db' t = dget db t)"
  using save_received_synced[where conv = conv and db = db and rs = rs, OF assms(1,2)] unfolding db'_def accept_sync_def
  by (auto simp: assms(2) split: pyval.splits)

lemma handle_incoming_synced:
  assumes "conv ''synced'' (PInt 1) = PInt 1"
    and "dget db ''sensor_readings'' = Some \<lparr>sq_cols = base_cols sensor_columns, sq_rows = rs, sq_notnull = []\<rparr>"
  shows "set (unsynced (sql_rows (handle_incoming (sql_adapter conv dumps) limit decode tostr node now uids cs db) ''sensor_readings''))
      \<subseteq> set (unsynced rs)"
proof -
  have a: "set (unsynced (sql_rows (accept_sync (sql_adapter conv dumps) tostr node now uids p db) ''sensor_readings'')) \<subseteq> set (unsynced rs)" for p
    using accept_sync_synced[where conv = conv and db = db and rs = rs, OF assms refl, of dumps tostr node now uids p]
    by (auto simp: sql_rows_def)
  have b: "set (unsynced (sql_rows db ''sensor_readings'')) \<subseteq> set (unsynced rs)" by (simp add: sql_rows_def assms(2))
  show ?thesis unfolding handle_incoming_def by (simp add: a b split: received.splits sum.splits)
qed

section \<open>A concrete database and peer\<close>

definition sample_row :: pyobj where
  "sample_row = [(''record_id'', PStr ''a''), (''timestamp'', PStr ''t''), (''node_id'', PStr ''n''), (''sensor_type'', PStr ''temp''),
     (''value_num'', PFloat 20), (''value_text'', PNone), (''raw_json'', PStr ''{}''), (''synced'', PInt 0)]"

definition sample_db :: sql_db where
  "sample_db = [(''sensor_readings'', \<lparr>sq_cols = base_cols sensor_columns, sq_rows = [sample_row], sq_notnull = []\<rparr>)]"

definition sample_gossip :: "nat \<Rightarrow> gossip" where
  "sample_gossip limit = \<lparr>go_node = ''n'', go_own = ''10.0.0.1'', go_limit = limit, go_encode = (\<lambda>v. [0, 1]), go_reach = (\<lambda>ip raw. True)\<rparr>"

definition sample_rounds :: "nat \<Rightarrow> (gossip \<times> (string, pyobj) pydict) list" where
  "sample_rounds limit = [(sample_gossip limit, [(''p'', [(''addr'', PStr ''10.0.0.2'')])])]"

lemma sample_facts:
  "sql_wf sample_db"
  "sql_accepts (\<lambda>c v. v) sample_db ''sensor_readings'' [(''synced'', PInt 0)]"
  "sql_accepts (\<lambda>c v. v) sample_db ''sensor_readings'' [(''synced'', PInt 1)]"
  "unsynced (sql_rows sample_db ''sensor_readings'') = [sample_row]"
  "sql_rows sample_db ''sensor_readings'' = [sample_row]"
  "next_batch [sample_row] = [sample_row]"
proof -
  have r: "rec_id sample_row = PStr ''a''" "dget sample_row ''timestamp'' = Some (PStr ''t'')" "py_eq (oget sample_row ''synced'') (PInt 0)"
    by (simp_all add: sample_row_def rec_id_def oget_def dgetd_def)
  show s: "sql_rows sample_db ''sensor_readings'' = [sample_row]" by (simp add: sample_db_def sql_rows_def)
  show "sql_wf sample_db" unfolding sql_wf_def
    by (auto simp: sample_db_def sql_rows_def table_ok_def row_ok_def r)
  show "sql_accepts (\<lambda>c v. v) sample_db ''sensor_readings'' [(''synced'', PInt 0)]"
      "sql_accepts (\<lambda>c v. v) sample_db ''sensor_readings'' [(''synced'', PInt 1)]"
    by (simp_all add: sql_accepts_def sample_db_def ALLOWED_TABLES_def insertable_def bindable_def din_def base_cols_def sensor_columns_def)
  show u: "unsynced (sql_rows sample_db ''sensor_readings'') = [sample_row]" by (simp add: s unsynced_def matches_filters_def r)
  show "next_batch [sample_row] = [sample_row]"
    using u by (simp add: s next_batch_def sort_key_desc_def py_take_def)
qed

section \<open>Properties\<close>

text \<open>
  C17. The gossip drains: from a SQLite database in good order, when every round finds some peer that
  is reachable and whose payloads fit, enough rounds of twenty readings leave no reading unsynced, and
  every reading that was unsynced has been sent.
\<close>
theorem gossip_drains:
  assumes "sql_wf s" and "sql_accepts conv s ''sensor_readings'' [(''synced'', PInt 0)]"
    and "sql_accepts conv s ''sensor_readings'' [(''synced'', PInt 1)]"
    and "\<forall>rd \<in> set rds. live_round (sql_adapter conv dumps) (unsynced (sql_rows s ''sensor_readings'')) rd"
    and "length (unsynced (sql_rows s ''sensor_readings'')) \<le> 20 * length rds"
    and "sync_rounds (sql_adapter conv dumps) rds s = (sent, s')"
  shows "unsynced (sql_rows s' ''sensor_readings'') = [] \<and>
    set (sent_ids sent) = rec_id ` set (unsynced (sql_rows s ''sensor_readings''))"
proof -
  have r: "sql.ready conv s" using assms(1-3) by (simp add: sql.ready_def)
  have e: "unsynced (sql_rows s' ''sensor_readings'') = []"
    using sql.rounds_progress[OF r assms(6,4)] assms(5) by simp
  have rel: "sql.sent_rel conv s sent s'" by (rule sql.rounds_rel[OF r assms(6)])
  then have "distinct (sent_ids sent)" "set (sent_ids sent) \<subseteq> rec_id ` set (unsynced (sql_rows s ''sensor_readings''))"
      "length (sent_ids sent) = length (unsynced (sql_rows s ''sensor_readings''))"
    using e by (simp_all add: sql.sent_rel_def Let_def)
  moreover have "card (rec_id ` set (unsynced (sql_rows s ''sensor_readings''))) \<le> length (unsynced (sql_rows s ''sensor_readings''))"
    using card_length[of "map rec_id (unsynced (sql_rows s ''sensor_readings''))"] by simp
  ultimately have "set (sent_ids sent) = rec_id ` set (unsynced (sql_rows s ''sensor_readings''))"
    using card_seteq[OF finite_imageI[OF finite_set]] by (metis distinct_card)
  with e show ?thesis by simp
qed

lemma gossip_drains_witness:
  "unsynced (sql_rows (snd (sync_rounds (sql_adapter (\<lambda>c v. v) (\<lambda>v. '''')) (sample_rounds 5) sample_db)) ''sensor_readings'') = [] \<and>
    set (sent_ids (fst (sync_rounds (sql_adapter (\<lambda>c v. v) (\<lambda>v. '''')) (sample_rounds 5) sample_db))) = {PStr ''a''}"
proof -
  have "\<forall>rd \<in> set (sample_rounds 5). live_round (sql_adapter (\<lambda>c v. v) (\<lambda>v. '''')) (unsynced (sql_rows sample_db ''sensor_readings'')) rd"
    by (simp add: sample_rounds_def live_round_def pushable_def peer_ip_def can_send_def sample_gossip_def oget_def dgetd_def py_or_def)
  then show ?thesis
    using gossip_drains[OF sample_facts(1-3), of "sample_rounds 5" "\<lambda>v. ''''"
        "fst (sync_rounds (sql_adapter (\<lambda>c v. v) (\<lambda>v. '''')) (sample_rounds 5) sample_db)"
        "snd (sync_rounds (sql_adapter (\<lambda>c v. v) (\<lambda>v. '''')) (sample_rounds 5) sample_db)"]
    by (simp add: sample_facts(4)) (simp add: sample_rounds_def sample_row_def rec_id_def oget_def dgetd_def)
qed

text \<open>
  Every reading reaches at most one peer: over all rounds, whatever the peers and whoever is
  reachable, no reading is sent twice, and what a peer receives is stored as synced, so it is never
  sent on.
\<close>
theorem gossip_sends_once:
  assumes "sql_wf s" and "sql_accepts conv s ''sensor_readings'' [(''synced'', PInt 0)]"
    and "sql_accepts conv s ''sensor_readings'' [(''synced'', PInt 1)]"
    and "sync_rounds (sql_adapter conv dumps) rds s = (sent, s')"
    and "dget db ''sensor_readings'' = Some \<lparr>sq_cols = base_cols sensor_columns, sq_rows = rs, sq_notnull = []\<rparr>" and "conv ''synced'' (PInt 1) = PInt 1"
  shows "distinct (sent_ids sent) \<and>
    map rec_id (sql_rows s' ''sensor_readings'') = map rec_id (sql_rows s ''sensor_readings'') \<and>
    set (unsynced (sql_rows (handle_incoming (sql_adapter conv dumps) limit decode tostr node now uids cs db) ''sensor_readings''))
      \<subseteq> set (unsynced rs)"
proof -
  have r: "sql.ready conv s" using assms(1-3) by (simp add: sql.ready_def)
  have "sql_rows db ''sensor_readings'' = rs" by (simp add: sql_rows_def assms(5))
  then have "set (unsynced (sql_rows (handle_incoming (sql_adapter conv dumps) limit decode tostr node now uids cs db) ''sensor_readings''))
      \<subseteq> set (unsynced rs)"
    using handle_incoming_synced[of conv db rs, OF assms(6,5)] by simp
  then show ?thesis using sql.rounds_rel[OF r assms(4)] by (simp add: sql.sent_rel_def Let_def)
qed

lemma gossip_sends_once_witness:
  "distinct (sent_ids (fst (sync_rounds (sql_adapter (\<lambda>c v. v) (\<lambda>v. '''')) (sample_rounds 5) sample_db)))"
  using gossip_sends_once[OF sample_facts(1-3), of "\<lambda>v. ''''" "sample_rounds 5"
      "fst (sync_rounds (sql_adapter (\<lambda>c v. v) (\<lambda>v. '''')) (sample_rounds 5) sample_db)"
      "snd (sync_rounds (sql_adapter (\<lambda>c v. v) (\<lambda>v. '''')) (sample_rounds 5) sample_db)" sample_db "[sample_row]"]
  by (simp add: sample_db_def)

text \<open>
  One batch that exceeds the payload limit stops the gossip for good: as long as the newest
  twenty unsynced readings encode to more than the limit, no round sends or changes anything, however
  small each reading is on its own.
\<close>
theorem oversize_batch_blocks:
  assumes "sql_wf s" and "sql_accepts conv s ''sensor_readings'' [(''synced'', PInt 0)]"
    and "sql_accepts conv s ''sensor_readings'' [(''synced'', PInt 1)]"
    and "\<forall>(g, ps) \<in> set rds. go_limit g <
      length (go_encode g (PDict (sync_payload (sql_adapter conv dumps) (go_node g) (next_batch (sql_rows s ''sensor_readings'')))))"
  shows "snd (sync_rounds (sql_adapter conv dumps) rds s) = s \<and> sent_ids (fst (sync_rounds (sql_adapter conv dumps) rds s)) = []"
proof (rule sql.blocked_rounds)
  show "sql.ready conv s" using assms(1-3) by (simp add: sql.ready_def)
  show "\<forall>(g, ps) \<in> set rds. \<forall>ip. \<not> can_send (sql_adapter conv dumps) g ip (next_batch (sql_rows s ''sensor_readings''))"
    using assms(4) by (fastforce simp: can_send_def Let_def)
qed

lemma oversize_batch_blocks_witness:
  "snd (sync_rounds (sql_adapter (\<lambda>c v. v) (\<lambda>v. '''')) (sample_rounds 1) sample_db) = sample_db"
  using oversize_batch_blocks[OF sample_facts(1-3), of "sample_rounds 1" "\<lambda>v. ''''"]
  by (simp add: sample_rounds_def sample_gossip_def)


end
