(* ===== verification/Store.thy ===== *)
theory Store
  imports DBAgent
begin

text \<open>
  The other writer of the database file: the schema of \<open>db/schema.py\<close>, the writes of \<open>db/store.py\<close>, the
  reads of \<open>db/query.py\<close> and the gossip of \<open>db/sync.py\<close>.  The tables are those of the SQLite adapter,
  for both work on \<open>edgemind.db\<close>.  The column \<open>id\<close> that SQLite numbers and no operation reads is left
  out.  A statement on a missing table or column raises.
\<close>

section \<open>The schema\<close>

definition text_cols :: "string list \<Rightarrow> (string \<times> pyval) list \<Rightarrow> pyobj" where
  "text_cols names defaults = map (\<lambda>c. (c, dgetd defaults c PNone)) names"

definition schema_tables :: "(string, sql_table) pydict" where
  "schema_tables =
     [(''sensor_readings'', \<lparr>sq_cols = text_cols [''record_id'', ''timestamp'', ''node_id'', ''sensor_type'', ''value_num'', ''value_text'',
         ''unit'', ''status'', ''raw_json'', ''synced''] [(''synced'', PInt 0)], sq_rows = [],
         sq_notnull = [''timestamp'', ''node_id'', ''sensor_type'', ''raw_json'']\<rparr>),
      (''work_orders'', \<lparr>sq_cols = text_cols [''wo_id'', ''created_at'', ''priority'', ''status'', ''description'', ''site_status'',
         ''anomalies'', ''sensor_data'', ''node_id'', ''closed_at'', ''synced''] [(''status'', PStr ''OPEN''), (''synced'', PInt 0)],
         sq_rows = [], sq_notnull = [''wo_id'', ''created_at'', ''priority'']\<rparr>),
      (''peers'', \<lparr>sq_cols = text_cols [''node_id'', ''ip'', ''transport'', ''os'', ''ram_gb'', ''cpu_cores'', ''roles'', ''models'',
         ''first_seen'', ''last_seen'', ''caps_json''] [], sq_rows = [], sq_notnull = []\<rparr>),
      (''predictions'', \<lparr>sq_cols = text_cols [''record_id'', ''timestamp'', ''node_id'', ''status'', ''urgency'', ''anomaly_count'', ''anomalies'',
         ''trends'', ''action'', ''nodes_used'', ''elapsed_ms'', ''raw_json'', ''synced'']
         [(''anomaly_count'', PInt 0), (''nodes_used'', PInt 0), (''synced'', PInt 0)], sq_rows = [], sq_notnull = [''timestamp'']\<rparr>),
      (''sync_log'', \<lparr>sq_cols = text_cols [''timestamp'', ''peer_id'', ''records_sent'', ''records_received'', ''direction'']
         [(''records_sent'', PInt 0), (''records_received'', PInt 0)], sq_rows = [], sq_notnull = []\<rparr>)]"

definition schema_init :: "sql_db \<Rightarrow> sql_db" where
  "schema_init db = fold (\<lambda>(t, tb) d. dsetdefault t tb d) schema_tables db"

section \<open>Writing\<close>

definition on_table :: "string \<Rightarrow> (sql_table \<Rightarrow> sql_table result) \<Rightarrow> (sql_db, unit) sx" where
  "on_table t f db = (case dget db t of
      None \<Rightarrow> (Inl DatabaseError, db)
    | Some tb \<Rightarrow> (case f tb of Inl e \<Rightarrow> (Inl e, db) | Inr tb' \<Rightarrow> (Inr (), dset t tb' db)))"

text \<open>\<open>INSERT OR IGNORE\<close>: a row that breaks a constraint is skipped.\<close>

definition insert_or_ignore :: "string \<Rightarrow> (string \<Rightarrow> pyval \<Rightarrow> pyval) \<Rightarrow> pyobj \<Rightarrow> sql_table \<Rightarrow> sql_table result" where
  "insert_or_ignore key conv r tb =
     (let row = row_over conv (sq_cols tb) r in
      if \<not> insertable (sq_cols tb) r then Inl DatabaseError
      else if \<not> nulls_ok tb row \<or> oget row key \<noteq> PNone \<and> (\<exists>x \<in> set (sq_rows tb). oget x key = oget row key) then Inr tb
      else Inr (tb\<lparr>sq_rows := sq_rows tb @ [row]\<rparr>))"

definition reading_values :: "string \<Rightarrow> pyobj \<Rightarrow> pyval \<times> pyval" where
  "reading_values sensor raw =
     (if sensor = ''temperature'' then (oget raw ''celsius'', PNone)
      else if sensor = ''attendance'' then (oget raw ''count'', oget raw ''status'')
      else if sensor = ''materials'' then (oget raw ''qty'', oget raw ''item'')
      else (PNone, PNone))"

definition reading_row :: "(pyval \<Rightarrow> string) \<Rightarrow> string \<Rightarrow> string \<Rightarrow> string \<Rightarrow> pyobj \<Rightarrow> string \<Rightarrow> pyobj" where
  "reading_row dumps now uid sensor raw node =
     [(''record_id'', PStr uid), (''timestamp'', PStr now), (''node_id'', PStr node), (''sensor_type'', PStr sensor),
      (''value_num'', fst (reading_values sensor raw)), (''value_text'', snd (reading_values sensor raw)),
      (''unit'', dgetd raw ''unit'' (PStr '''')), (''status'', dgetd raw ''status'' (PStr '''')), (''raw_json'', PStr (dumps (PDict raw)))]"

definition store_reading :: "(string \<Rightarrow> pyval \<Rightarrow> pyval) \<Rightarrow> (pyval \<Rightarrow> string) \<Rightarrow> string \<Rightarrow> string \<Rightarrow> string \<Rightarrow> pyobj \<Rightarrow> string \<Rightarrow> (sql_db, string) sx" where
  "store_reading conv dumps now uid sensor raw node =
     sx_then (on_table ''sensor_readings'' (insert_or_ignore ''record_id'' conv (reading_row dumps now uid sensor raw node))) (sx_return uid)"

definition store_work_order :: "(string \<Rightarrow> pyval \<Rightarrow> pyval) \<Rightarrow> (pyval \<Rightarrow> string) \<Rightarrow> string \<Rightarrow> string \<Rightarrow> pyobj \<Rightarrow> string \<Rightarrow> (sql_db, pyval) sx" where
  "store_work_order conv dumps now uid wo node =
     (let i = dgetd wo ''work_order_id'' (PStr (''WO-'' @ take 8 uid));
          r = [(''wo_id'', i), (''created_at'', dgetd wo ''created_at'' (PStr now)), (''priority'', dgetd wo ''priority'' (PStr ''LOW'')),
               (''status'', dgetd wo ''status'' (PStr ''OPEN'')), (''description'', dgetd wo ''description'' (PStr '''')),
               (''site_status'', dgetd wo ''site_status'' (PStr '''')), (''anomalies'', PStr (dumps (dgetd wo ''anomalies'' (PList [])))),
               (''sensor_data'', PStr (dumps (dgetd wo ''sensor_snapshot'' (PDict [])))), (''node_id'', PStr node)] in
      sx_then (on_table ''work_orders'' (\<lambda>tb. case insert_or_replace ''wo_id'' conv r tb of Some tb' \<Rightarrow> Inr tb' | None \<Rightarrow> Inl DatabaseError))
        (sx_return i))"

text \<open>A known peer keeps everything but its address, the time and the capabilities as sent.\<close>

definition upsert_peer :: "(string \<Rightarrow> pyval \<Rightarrow> pyval) \<Rightarrow> pyobj \<Rightarrow> sql_table \<Rightarrow> sql_table result" where
  "upsert_peer conv r tb =
     (let row = row_over conv (sq_cols tb) r; keep = [''ip'', ''last_seen'', ''caps_json''] in
      if \<not> insertable (sq_cols tb) r then Inl DatabaseError
      else if \<exists>x \<in> set (sq_rows tb). oget x ''node_id'' = oget row ''node_id''
      then Inr (tb\<lparr>sq_rows := map (\<lambda>x. if oget x ''node_id'' = oget row ''node_id''
             then patch_record (map (\<lambda>c. (c, oget row c)) keep) x else x) (sq_rows tb)\<rparr>)
      else Inr (tb\<lparr>sq_rows := sq_rows tb @ [row]\<rparr>))"

definition store_peer :: "(string \<Rightarrow> pyval \<Rightarrow> pyval) \<Rightarrow> (pyval \<Rightarrow> string) \<Rightarrow> string \<Rightarrow> string \<Rightarrow> pyobj \<Rightarrow> string \<Rightarrow> string \<Rightarrow> (sql_db, unit) sx" where
  "store_peer conv dumps now node caps ip transport =
     (let inner = dgetd caps ''caps'' (PDict caps); get = (\<lambda>k d. pget inner k d) in
      sx_bind (sx_lift (mapE (\<lambda>(k, d). get k d) [(''os'', PStr ''''), (''ram_gb'', PInt 0), (''cpu_cores'', PInt 0), (''roles'', PList []), (''models'', PList [])]))
        (\<lambda>vs.
      on_table ''peers'' (upsert_peer conv
        [(''node_id'', PStr node), (''ip'', PStr ip), (''transport'', PStr transport), (''os'', vs ! 0), (''ram_gb'', vs ! 1),
         (''cpu_cores'', vs ! 2), (''roles'', PStr (dumps (vs ! 3))), (''models'', PStr (dumps (vs ! 4))), (''first_seen'', PStr now),
         (''last_seen'', PStr now), (''caps_json'', PStr (dumps (PDict caps)))])))"

definition store_prediction :: "(string \<Rightarrow> pyval \<Rightarrow> pyval) \<Rightarrow> (pyval \<Rightarrow> string) \<Rightarrow> string \<Rightarrow> string \<Rightarrow> pyobj \<Rightarrow> string \<Rightarrow> int \<Rightarrow> (sql_db, string) sx" where
  "store_prediction conv dumps now uid r node ms =
     (let an = dgetd r ''anomalies_found'' (PList []) in
      sx_bind (sx_lift (py_len an)) (\<lambda>n.
      sx_then (on_table ''predictions'' (insert_or_ignore ''record_id'' conv
        [(''record_id'', PStr uid), (''timestamp'', PStr now), (''node_id'', PStr node), (''status'', dgetd r ''status'' (PStr ''OK'')),
         (''urgency'', dgetd r ''action_urgency'' (PStr ''LOW'')), (''anomaly_count'', PInt (int n)), (''anomalies'', PStr (dumps an)),
         (''trends'', PStr (dumps (dgetd r ''trends'' (PDict [])))), (''action'', dgetd r ''recommended_action'' (PStr '''')),
         (''nodes_used'', dgetd r ''nodes_contributed'' (PInt 0)), (''elapsed_ms'', PInt ms), (''raw_json'', PStr (dumps (PDict r)))]))
      (sx_return uid)))"

definition mark_synced :: "string \<Rightarrow> pyval \<Rightarrow> (sql_db, unit) sx" where
  "mark_synced t i =
     sx_bind (sx_lift (check_table t)) (\<lambda>_. on_table t (\<lambda>tb.
       if din ''synced'' (sq_cols tb) \<and> din ''record_id'' (sq_cols tb) \<and> bindable i then
         Inr (tb\<lparr>sq_rows := map (\<lambda>r. if i \<noteq> PNone \<and> py_eq (rec_id r) i then dset ''synced'' (PInt 1) r else r) (sq_rows tb)\<rparr>)
       else Inl DatabaseError))"

section \<open>Reading\<close>

text \<open>\<open>SELECT * ... WHERE c=? AND ... ORDER BY col DESC LIMIT ?\<close>\<close>

definition text_of :: "string \<Rightarrow> pyobj \<Rightarrow> string option" where
  "text_of c r = (case oget r c of PStr s \<Rightarrow> Some s | _ \<Rightarrow> None)"

definition select_desc :: "string \<Rightarrow> pyobj \<Rightarrow> string \<Rightarrow> int option \<Rightarrow> sql_db \<Rightarrow> pyobj list result" where
  "select_desc t wher col limit db = (case dget db t of
      None \<Rightarrow> Inl DatabaseError
    | Some tb \<Rightarrow>
        if list_all (\<lambda>c. din c (sq_cols tb)) (col # dkeys wher) then
          (let rs = sort_key_desc (text_of col) (filter (\<lambda>r. list_all (\<lambda>(k, v). v \<noteq> PNone \<and> py_eq (oget r k) v) wher) (sq_rows tb)) in
           Inr (case limit of Some n \<Rightarrow> if n < 0 then rs else py_take n rs | None \<Rightarrow> rs))
        else Inl DatabaseError)"

definition query_readings :: "string option \<Rightarrow> int \<Rightarrow> string option \<Rightarrow> sql_db \<Rightarrow> pyobj list result" where
  "query_readings sensor limit node =
     (case sensor of
        Some s \<Rightarrow> if s = [] then select_desc ''sensor_readings'' [] ''timestamp'' (Some limit)
          else (case node of
            Some n \<Rightarrow> if n = [] then select_desc ''sensor_readings'' [(''sensor_type'', PStr s)] ''timestamp'' (Some limit)
               else select_desc ''sensor_readings'' [(''sensor_type'', PStr s), (''node_id'', PStr n)] ''timestamp'' (Some limit)
          | None \<Rightarrow> select_desc ''sensor_readings'' [(''sensor_type'', PStr s)] ''timestamp'' (Some limit))
      | None \<Rightarrow> select_desc ''sensor_readings'' [] ''timestamp'' (Some limit))"

definition query_unsynced :: "string \<Rightarrow> nat \<Rightarrow> sql_db \<Rightarrow> pyobj list result" where
  "query_unsynced t limit db =
     bindE (check_table t) (\<lambda>_. case dget db t of
        None \<Rightarrow> Inl DatabaseError
      | Some tb \<Rightarrow> if din ''synced'' (sq_cols tb) then Inr (take limit (unsynced (sq_rows tb))) else Inl DatabaseError)"

definition query_work_orders :: "string option \<Rightarrow> int \<Rightarrow> sql_db \<Rightarrow> pyobj list result" where
  "query_work_orders status limit =
     (case status of
        Some s \<Rightarrow> if s = [] then select_desc ''work_orders'' [] ''created_at'' (Some limit)
          else select_desc ''work_orders'' [(''status'', PStr s)] ''created_at'' (Some limit)
      | None \<Rightarrow> select_desc ''work_orders'' [] ''created_at'' (Some limit))"

definition query_predictions :: "int \<Rightarrow> sql_db \<Rightarrow> pyobj list result" where
  "query_predictions limit = select_desc ''predictions'' [] ''timestamp'' (Some limit)"

definition query_peers :: "sql_db \<Rightarrow> pyobj list result" where
  "query_peers = select_desc ''peers'' [] ''last_seen'' None"

definition count_where :: "string \<Rightarrow> pyobj \<Rightarrow> sql_db \<Rightarrow> nat result" where
  "count_where t wher db = (case dget db t of
      None \<Rightarrow> Inl DatabaseError
    | Some tb \<Rightarrow> if list_all (\<lambda>c. din c (sq_cols tb)) (dkeys wher)
        then Inr (length (filter (matches_filters wher) (sq_rows tb))) else Inl DatabaseError)"

definition query_stats :: "sql_db \<Rightarrow> (string \<times> nat) list result" where
  "query_stats db = mapE (\<lambda>(k, t, w). bindE (count_where t w db) (\<lambda>n. Inr (k, n)))
     [(''total_readings'', ''sensor_readings'', []), (''total_work_orders'', ''work_orders'', []),
      (''open_work_orders'', ''work_orders'', [(''status'', PStr ''OPEN'')]), (''total_predictions'', ''predictions'', []),
      (''total_peers'', ''peers'', []), (''unsynced_readings'', ''sensor_readings'', unsynced_filter)]"

section \<open>Gossip\<close>

definition dbsync_payload :: "string \<Rightarrow> pyobj list \<Rightarrow> pyobj" where
  "dbsync_payload node records =
     [(''type'', PStr ''DB_SYNC''), (''from'', PStr node), (''table'', PStr ''sensor_readings''), (''records'', PList (map PDict records))]"

text \<open>The records that were sent.\<close>

definition sync_with_peer :: "gossip \<Rightarrow> pyval \<Rightarrow> (sql_db, pyobj list) sx" where
  "sync_with_peer g ip =
     sx_bind (sx_get (query_unsynced ''sensor_readings'' 20)) (\<lambda>r.
     sx_bind (sx_lift r) (\<lambda>batch.
     if batch = [] then sx_return []
     else
       let raw = go_encode g (PDict (dbsync_payload (go_node g) batch)) in
       if length raw > go_limit g \<or> \<not> go_reach g ip raw then sx_return []
       else sx_then (sx_iter (\<lambda>r. sx_when (truthy (rec_id r)) (mark_synced ''sensor_readings'' (rec_id r))) batch) (sx_return batch)))"

fun dbsync_round :: "gossip \<Rightarrow> (string, pyobj) pydict \<Rightarrow> sql_db \<Rightarrow> (pyval \<times> pyobj list) list \<times> sql_db" where
  "dbsync_round g [] db = ([], db)"
| "dbsync_round g ((pid, info) # ps) db =
     (let ip = py_or (oget info ''addr'') (oget info ''ip'') in
      if truthy ip \<and> ip \<noteq> PStr (go_own g) then
        (case sync_with_peer g ip db of (r, db1) \<Rightarrow> (case dbsync_round g ps db1 of (sent, db2) \<Rightarrow>
           ((case r of Inr rs \<Rightarrow> (ip, rs) # sent | Inl _ \<Rightarrow> sent), db2)))
      else dbsync_round g ps db)"

text \<open>A received record is saved as a new reading of its own.\<close>

definition save_synced :: "(string \<Rightarrow> pyval \<Rightarrow> pyval) \<Rightarrow> (pyval \<Rightarrow> string) \<Rightarrow> (string \<Rightarrow> pyval result) \<Rightarrow> (pyval \<Rightarrow> string) \<Rightarrow>
    string \<Rightarrow> string \<Rightarrow> pyval \<Rightarrow> sql_db \<Rightarrow> sql_db" where
  "save_synced conv dumps loads tostr now uid v db = (case v of
      PDict r \<Rightarrow>
        (case (case oget r ''raw_json'' of PStr j \<Rightarrow> loads j | _ \<Rightarrow> Inr (PDict [])) of
           Inr (PDict raw) \<Rightarrow>
             snd (store_reading conv dumps now uid (py_str tostr (dgetd r ''sensor_type'' (PStr ''unknown''))) raw
               (py_str tostr (dgetd r ''node_id'' (PStr ''unknown''))) db)
         | _ \<Rightarrow> db)
    | _ \<Rightarrow> db)"

fun save_all_synced :: "(string \<Rightarrow> pyval \<Rightarrow> pyval) \<Rightarrow> (pyval \<Rightarrow> string) \<Rightarrow> (string \<Rightarrow> pyval result) \<Rightarrow> (pyval \<Rightarrow> string) \<Rightarrow>
    string \<Rightarrow> (nat \<Rightarrow> string) \<Rightarrow> pyval list \<Rightarrow> sql_db \<Rightarrow> sql_db" where
  "save_all_synced conv dumps loads tostr now uids [] db = db"
| "save_all_synced conv dumps loads tostr now uids (v # vs) db =
     save_all_synced conv dumps loads tostr now (\<lambda>n. uids (Suc n)) vs (save_synced conv dumps loads tostr now (uids 0) v db)"

definition handle_sync :: "(string \<Rightarrow> pyval \<Rightarrow> pyval) \<Rightarrow> (pyval \<Rightarrow> string) \<Rightarrow> (string \<Rightarrow> pyval result) \<Rightarrow> (pyval \<Rightarrow> string) \<Rightarrow>
    string \<Rightarrow> (nat \<Rightarrow> string) \<Rightarrow> pyval \<Rightarrow> sql_db \<Rightarrow> sql_db" where
  "handle_sync conv dumps loads tostr now uids payload db = (case payload of
      PDict p \<Rightarrow>
        if oget p ''type'' \<noteq> PStr ''DB_SYNC'' then db
        else if dgetd p ''table'' (PStr ''sensor_readings'') \<noteq> PStr ''sensor_readings'' then db
        else (case py_iter (dgetd p ''records'' (PList [])) of
            Inr vs \<Rightarrow> save_all_synced conv dumps loads tostr now uids vs db | Inl _ \<Rightarrow> db)
    | _ \<Rightarrow> db)"

definition handle_sync_conn :: "nat \<Rightarrow> (byte list \<Rightarrow> pyval result) \<Rightarrow> (string \<Rightarrow> pyval \<Rightarrow> pyval) \<Rightarrow> (pyval \<Rightarrow> string) \<Rightarrow>
    (string \<Rightarrow> pyval result) \<Rightarrow> (pyval \<Rightarrow> string) \<Rightarrow> string \<Rightarrow> (nat \<Rightarrow> string) \<Rightarrow> segments \<Rightarrow> sql_db \<Rightarrow> sql_db" where
  "handle_sync_conn limit decode conv dumps loads tostr now uids cs db = (case recv_message limit cs of
      Body dat \<Rightarrow> (case decode dat of Inr payload \<Rightarrow> handle_sync conv dumps loads tostr now uids payload db | Inl _ \<Rightarrow> db)
    | _ \<Rightarrow> db)"

section \<open>The two schemas in one file\<close>

lemma fold_setdefault:
  "dget (fold (\<lambda>(t, v) d. dsetdefault t (f v) d) xs d) t =
     (case dget d t of Some v \<Rightarrow> Some v | None \<Rightarrow> map_option f (dget xs t))"
proof (induction xs arbitrary: d)
  case (Cons x xs)
  then show ?case by (cases x) (auto simp: din_def split: option.splits)
qed (simp split: option.split)

lemma sql_init_get:
  "dget (sql_init db) t = (case dget db t of Some tb \<Rightarrow> Some tb
     | None \<Rightarrow> map_option (\<lambda>cols. \<lparr>sq_cols = cols, sq_rows = [], sq_notnull = []\<rparr>) (dget adapter_schema t))"
  unfolding sql_init_def by (rule fold_setdefault)

lemma schema_init_get:
  "dget (schema_init db) t = (case dget db t of Some tb \<Rightarrow> Some tb | None \<Rightarrow> dget schema_tables t)"
  using fold_setdefault[of "\<lambda>v. v" schema_tables db t] by (auto simp: schema_init_def option.map_ident split: option.splits)

text \<open>The layout \<open>db/schema.py\<close> gives the work orders has no \<open>record_id\<close>.\<close>

definition old_layout :: "sql_db \<Rightarrow> bool" where
  "old_layout db \<longleftrightarrow> (\<exists>tb. dget db ''work_orders'' = Some tb \<and> \<not> din ''record_id'' (sq_cols tb))"

definition adapter_table :: "string \<Rightarrow> sql_table" where
  "adapter_table t = \<lparr>sq_cols = dgetd adapter_schema t [], sq_rows = [], sq_notnull = []\<rparr>"

lemma schema_old: "dget db ''work_orders'' = None \<Longrightarrow> old_layout (schema_init db)"
  unfolding old_layout_def by (simp add: schema_init_get schema_tables_def text_cols_def din_def)

lemma migrate_empties:
  assumes "old_layout db" and "t \<in> {''sensor_readings'', ''work_orders'', ''predictions''}"
  shows "dget (migrate db) t = Some (adapter_table t)"
proof -
  obtain tb where tb: "dget db ''work_orders'' = Some tb" "\<not> din ''record_id'' (sq_cols tb)"
    using assms(1) unfolding old_layout_def by blast
  then have "dget (sql_init db) ''work_orders'' = Some tb" by (simp add: sql_init_get)
  then have "migrate db = sql_init (ddel ''predictions'' (ddel ''sensor_readings'' (ddel ''work_orders'' (sql_init db))))"
    unfolding migrate_def using tb(2) by (simp add: Let_def)
  moreover have "t \<in> set (dkeys adapter_schema)" using assms(2) by (auto simp: adapter_schema_def)
  ultimately show ?thesis using assms(2) by (auto simp: sql_init_get adapter_table_def dgetd_def adapter_schema_def)
qed

lemma on_table_fails: "dget db t = Some tb \<Longrightarrow> f tb = Inl DatabaseError \<Longrightarrow> on_table t f db = (Inl DatabaseError, db)"
  by (simp add: on_table_def)

lemma insert_ignore_unknown: "(k, v) \<in> set r \<Longrightarrow> \<not> din k (sq_cols tb) \<Longrightarrow> insert_or_ignore key conv r tb = Inl DatabaseError"
  by (auto simp: insert_or_ignore_def insertable_def list_all_iff Let_def)

lemma insert_replace_unknown: "(k, v) \<in> set r \<Longrightarrow> \<not> din k (sq_cols tb) \<Longrightarrow> insert_or_replace key conv r tb = None"
  by (auto simp: insert_or_replace_def insertable_def list_all_iff Let_def)

lemma adapter_table_misses:
  "\<not> din ''unit'' (sq_cols (adapter_table ''sensor_readings''))"
  "\<not> din ''wo_id'' (sq_cols (adapter_table ''work_orders''))"
  "\<not> din ''anomaly_count'' (sq_cols (adapter_table ''predictions''))"
  by (simp_all add: adapter_table_def adapter_schema_def base_cols_def dgetd_def din_def)

text \<open>
  The database agent and the plain store share one file and cannot share it: when the agent finds the layout of
  \<open>db/schema.py\<close> it drops the readings, the work orders and the predictions, and the tables it creates
  instead, which a later \<open>init_db\<close> leaves alone, make every later write of \<open>db/store.py\<close> to
  them raise and store nothing.
\<close>
theorem store_dead_after_agent:
  fixes n :: nat
  assumes "old_layout db" and "py_len (dgetd r ''anomalies_found'' (PList [])) = Inr k"
  defines "db' \<equiv> (schema_init ^^ n) (migrate db)"
  shows "(\<forall>t \<in> {''sensor_readings'', ''work_orders'', ''predictions''}. count_where t [] db' = Inr 0) \<and>
    store_reading conv dumps now uid sensor raw node db' = (Inl DatabaseError, db') \<and>
    store_work_order conv dumps now uid wo node db' = (Inl DatabaseError, db') \<and>
    store_prediction conv dumps now uid r node ms db' = (Inl DatabaseError, db')"
proof -
  have g: "dget db' t = Some (adapter_table t)" if h: "t \<in> {''sensor_readings'', ''work_orders'', ''predictions''}" for t
  proof -
    have "dget ((schema_init ^^ m) (migrate db)) t = Some (adapter_table t)" for m
      by (induction m) (simp_all add: migrate_empties[OF assms(1) h] schema_init_get)
    then show ?thesis by (simp add: db'_def)
  qed
  then have tabs: "dget db' ''sensor_readings'' = Some (adapter_table ''sensor_readings'')"
      "dget db' ''work_orders'' = Some (adapter_table ''work_orders'')" "dget db' ''predictions'' = Some (adapter_table ''predictions'')"
    by simp_all
  have rows: "\<forall>t \<in> {''sensor_readings'', ''work_orders'', ''predictions''}. count_where t [] db' = Inr 0"
    using g by (simp add: count_where_def adapter_table_def)
  have "insert_or_ignore ''record_id'' conv (reading_row dumps now uid sensor raw node) (adapter_table ''sensor_readings'') = Inl DatabaseError"
    by (rule insert_ignore_unknown[of "''unit''"]) (simp_all add: reading_row_def adapter_table_misses)
  then have "store_reading conv dumps now uid sensor raw node db' = (Inl DatabaseError, db')"
    by (simp add: store_reading_def sx_defs on_table_fails[OF tabs(1)])
  moreover have "store_work_order conv dumps now uid wo node db' = (Inl DatabaseError, db')"
    by (simp add: store_work_order_def Let_def sx_defs on_table_fails[OF tabs(2)]
        insert_replace_unknown[of "''wo_id''", OF _ adapter_table_misses(2)])
  moreover have "store_prediction conv dumps now uid r node ms db' = (Inl DatabaseError, db')"
    by (simp add: store_prediction_def assms(2) Let_def sx_defs on_table_fails[OF tabs(3)]
        insert_ignore_unknown[of "''anomaly_count''", OF _ adapter_table_misses(3)])
  ultimately show ?thesis using rows by blast
qed

theorem store_dead_after_agent_witness:
  defines "db' \<equiv> (schema_init ^^ 1) (migrate (schema_init []))"
  shows "store_reading (\<lambda>c v. v) (\<lambda>v. []) ''now'' ''u1'' ''temperature'' [(''celsius'', PInt 21)] ''n1'' db' = (Inl DatabaseError, db')"
  unfolding db'_def
  using store_dead_after_agent[OF schema_old[of "[]"], of "[]" 0 1 "\<lambda>c v. v" "\<lambda>v. []" "''now''" "''u1''" "''temperature''"
      "[(''celsius'', PInt 21)]" "''n1''"]
  by (simp add: dgetd_def)

section \<open>Gossip between two nodes\<close>

text \<open>
  What the readings table must look like for a push to go through: the layout of \<open>schema.py\<close>, ids that are
  nonempty and distinct, and in \<open>raw_json\<close> the text of a reading from \<open>R\<close>.
\<close>

definition plain_reading :: "pyobj \<Rightarrow> bool" where
  "plain_reading raw \<longleftrightarrow> list_all (\<lambda>k. bindable (oget raw k)) [''celsius'', ''count'', ''qty'', ''status'', ''item'', ''unit'']"

definition reading_row_ok :: "(string \<Rightarrow> pyval result) \<Rightarrow> pyobj set \<Rightarrow> pyobj \<Rightarrow> bool" where
  "reading_row_ok loads R r \<longleftrightarrow> (\<exists>j raw. oget r ''raw_json'' = PStr j \<and> loads j = Inr (PDict raw) \<and> raw \<in> R)"

definition readings_of :: "sql_db \<Rightarrow> pyobj list" where
  "readings_of db = (case dget db ''sensor_readings'' of Some tb \<Rightarrow> sq_rows tb | None \<Rightarrow> [])"

definition readings_ok :: "(string \<Rightarrow> pyval result) \<Rightarrow> pyobj set \<Rightarrow> sql_db \<Rightarrow> bool" where
  "readings_ok loads R db \<longleftrightarrow>
     dget db ''sensor_readings'' = Some ((the (dget schema_tables ''sensor_readings''))\<lparr>sq_rows := readings_of db\<rparr>) \<and>
     table_ok (readings_of db) \<and> (\<forall>r \<in> set (readings_of db). reading_row_ok loads R r)"

text \<open>The text columns keep text, and the readings in \<open>R\<close> survive \<open>json.dumps\<close> and \<open>json.loads\<close>.\<close>

definition text_affinity :: "(string \<Rightarrow> pyval \<Rightarrow> pyval) \<Rightarrow> bool" where
  "text_affinity conv \<longleftrightarrow>
     (\<forall>c \<in> {''record_id'', ''timestamp'', ''node_id'', ''sensor_type'', ''raw_json''}. \<forall>s. conv c (PStr s) = PStr s)"

definition json_faithful :: "(pyval \<Rightarrow> string) \<Rightarrow> (string \<Rightarrow> pyval result) \<Rightarrow> pyobj set \<Rightarrow> bool" where
  "json_faithful dumps loads R \<longleftrightarrow> (\<forall>raw \<in> R. plain_reading raw \<and> loads (dumps (PDict raw)) = Inr (PDict raw))"

definition readings_cols :: pyobj where
  "readings_cols = text_cols [''record_id'', ''timestamp'', ''node_id'', ''sensor_type'', ''value_num'', ''value_text'',
         ''unit'', ''status'', ''raw_json'', ''synced''] [(''synced'', PInt 0)]"

definition readings_table :: "pyobj list \<Rightarrow> sql_table" where
  "readings_table rs = \<lparr>sq_cols = readings_cols, sq_rows = rs, sq_notnull = [''timestamp'', ''node_id'', ''sensor_type'', ''raw_json'']\<rparr>"

lemma readings_has: "din c readings_cols \<longleftrightarrow> c \<in> {''record_id'', ''timestamp'', ''node_id'', ''sensor_type'', ''value_num'', ''value_text'',
    ''unit'', ''status'', ''raw_json'', ''synced''}"
  by (auto simp: readings_cols_def text_cols_def din_def)

lemma schema_readings: "(the (dget schema_tables ''sensor_readings''))\<lparr>sq_rows := rs\<rparr> = readings_table rs"
  by (simp add: schema_tables_def readings_table_def readings_cols_def)

lemma readings_ok_get: "readings_ok loads R db \<Longrightarrow> dget db ''sensor_readings'' = Some (readings_table (readings_of db))"
  by (simp add: readings_ok_def schema_readings)

lemma readings_of_dset [simp]: "readings_of (dset ''sensor_readings'' (readings_table rs) db) = rs"
  by (simp add: readings_of_def readings_table_def)

lemma readings_ok_dset:
  "table_ok rs \<Longrightarrow> \<forall>r \<in> set rs. reading_row_ok loads R r \<Longrightarrow> readings_ok loads R (dset ''sensor_readings'' (readings_table rs) db)"
  by (simp add: readings_ok_def schema_readings)

lemma py_str_is: "\<exists>s. PStr (py_str tostr v) = PStr s" by simp

lemma reading_insertable:
  assumes "plain_reading raw"
  shows "insertable readings_cols (reading_row dumps now uid sensor raw node)"
proof -
  have vals: "bindable (fst (reading_values sensor raw))" "bindable (snd (reading_values sensor raw))"
    using assms by (simp_all add: reading_values_def plain_reading_def bindable_def)
  have d: "bindable (dgetd raw k (PStr []))" if h: "bindable (oget raw k)" for k
    using h by (auto simp: oget_def dgetd_def bindable_def split: option.split)
  have s: "bindable (PStr x)" for x by (simp add: bindable_def)
  show ?thesis
    using vals d assms by (simp add: reading_row_def insertable_def readings_has plain_reading_def s)
qed

lemma row_over_column: "distinct (dkeys cols) \<Longrightarrow> dget cols c = Some d \<Longrightarrow>
    dget (row_over conv cols r) c = Some (case dget r c of Some v \<Rightarrow> conv c v | None \<Rightarrow> d)"
  by (induction cols) (auto simp: row_over_def split: if_splits option.splits)

lemma reading_row_get:
  fixes dumps now uid sensor raw node
  assumes "text_affinity conv"
  defines "row \<equiv> row_over conv readings_cols (reading_row dumps now uid sensor raw node)"
  shows "dget row ''record_id'' = Some (PStr uid)" "dget row ''timestamp'' = Some (PStr now)" "dget row ''node_id'' = Some (PStr node)"
    "dget row ''sensor_type'' = Some (PStr sensor)" "dget row ''raw_json'' = Some (PStr (dumps (PDict raw)))" "dget row ''synced'' = Some (PInt 0)"
proof -
  have d: "distinct (dkeys readings_cols)" by (simp add: readings_cols_def text_cols_def)
  have k: "dget readings_cols ''record_id'' = Some PNone" "dget readings_cols ''timestamp'' = Some PNone" "dget readings_cols ''node_id'' = Some PNone"
      "dget readings_cols ''sensor_type'' = Some PNone" "dget readings_cols ''raw_json'' = Some PNone" "dget readings_cols ''synced'' = Some (PInt 0)"
    by (simp_all add: readings_cols_def text_cols_def dgetd_def)
  show "dget row ''record_id'' = Some (PStr uid)" "dget row ''timestamp'' = Some (PStr now)" "dget row ''node_id'' = Some (PStr node)"
    "dget row ''sensor_type'' = Some (PStr sensor)" "dget row ''raw_json'' = Some (PStr (dumps (PDict raw)))" "dget row ''synced'' = Some (PInt 0)"
    using assms(1) unfolding row_def by (simp_all add: row_over_column[OF d k(1)] row_over_column[OF d k(2)] row_over_column[OF d k(3)]
        row_over_column[OF d k(4)] row_over_column[OF d k(5)] row_over_column[OF d k(6)] reading_row_def text_affinity_def)
qed

lemma oget_Some: "dget r k = Some v \<Longrightarrow> oget r k = v"
  by (simp add: oget_def dgetd_def)

text \<open>A plain reading under a fresh id becomes one more unsynced row.\<close>

lemma store_reading_adds:
  assumes ok: "readings_ok loads R db" and raw: "raw \<in> R" "json_faithful dumps loads R" "text_affinity conv"
    and uid: "uid \<noteq> []" "PStr uid \<notin> rec_id ` set (readings_of db)"
  shows "\<exists>row. store_reading conv dumps now uid sensor raw node db =
      (Inr uid, dset ''sensor_readings'' (readings_table (readings_of db @ [row])) db) \<and>
    rec_id row = PStr uid \<and> row_ok row \<and> reading_row_ok loads R row \<and> unsynced [row] = [row]"
proof -
  define r where "r = reading_row dumps now uid sensor raw node"
  define row where "row = row_over conv readings_cols r"
  have p: "plain_reading raw" "loads (dumps (PDict raw)) = Inr (PDict raw)" using raw(1,2) by (simp_all add: json_faithful_def)
  have ins: "insertable readings_cols r" using reading_insertable[OF p(1)] by (simp add: r_def)
  note get = reading_row_get[OF raw(3), of dumps now uid sensor raw node, folded r_def, folded row_def]
  note cols = get(1-6)[THEN oget_Some]
  have new: "\<not> (\<exists>x \<in> set (readings_of db). oget x ''record_id'' = PStr uid)"
    using uid(2) by (auto simp: image_def rec_id_def)
  have "nulls_ok (readings_table (readings_of db)) row" using cols by (simp add: nulls_ok_def readings_table_def)
  then have "insert_or_ignore ''record_id'' conv r (readings_table (readings_of db)) = Inr (readings_table (readings_of db @ [row]))"
    using ins cols(1) new unfolding insert_or_ignore_def by (simp add: readings_table_def Let_def row_def[symmetric])
  then have "on_table ''sensor_readings'' (insert_or_ignore ''record_id'' conv r) db =
      (Inr (), dset ''sensor_readings'' (readings_table (readings_of db @ [row])) db)"
    by (simp add: on_table_def readings_ok_get[OF ok])
  then have "store_reading conv dumps now uid sensor raw node db =
      (Inr uid, dset ''sensor_readings'' (readings_table (readings_of db @ [row])) db)"
    unfolding store_reading_def r_def[symmetric] by (simp add: sx_defs)
  moreover have "rec_id row = PStr uid" "row_ok row" using cols(1) get(2) uid(1) by (simp_all add: rec_id_def row_ok_def)
  moreover have "reading_row_ok loads R row" unfolding reading_row_ok_def using cols(5) p(2) raw(1) by blast
  moreover have "unsynced [row] = [row]" using cols(6) by (simp add: unsynced_def matches_filters_def)
  ultimately show ?thesis by blast
qed

lemma table_ok_snoc: "table_ok rs \<Longrightarrow> row_ok row \<Longrightarrow> rec_id row \<notin> rec_id ` set rs \<Longrightarrow> table_ok (rs @ [row])"
  by (auto simp: table_ok_def)

lemma unsynced_append [simp]: "unsynced (xs @ ys) = unsynced xs @ unsynced ys"
  by (simp add: unsynced_def)

definition fresh_ids :: "(nat \<Rightarrow> string) \<Rightarrow> pyval set \<Rightarrow> bool" where
  "fresh_ids uids I \<longleftrightarrow> inj uids \<and> (\<forall>n. uids n \<noteq> [] \<and> PStr (uids n) \<notin> I)"

lemma save_synced_adds:
  assumes ok: "readings_ok loads R db" and r: "reading_row_ok loads R r" "json_faithful dumps loads R" "text_affinity conv"
    and uid: "uid \<noteq> []" "PStr uid \<notin> rec_id ` set (readings_of db)"
  shows "\<exists>row. readings_of (save_synced conv dumps loads tostr now uid (PDict r) db) = readings_of db @ [row] \<and>
    readings_ok loads R (save_synced conv dumps loads tostr now uid (PDict r) db) \<and> rec_id row = PStr uid \<and> unsynced [row] = [row]"
proof -
  obtain j raw where j: "oget r ''raw_json'' = PStr j" "loads j = Inr (PDict raw)" "raw \<in> R"
    using r(1) by (auto simp: reading_row_ok_def)
  obtain row where row: "save_synced conv dumps loads tostr now uid (PDict r) db =
        dset ''sensor_readings'' (readings_table (readings_of db @ [row])) db"
      "rec_id row = PStr uid" "row_ok row" "reading_row_ok loads R row" "unsynced [row] = [row]"
    using store_reading_adds[OF ok j(3) r(2,3) uid, of now "py_str tostr (dgetd r ''sensor_type'' (PStr ''unknown''))"
        "py_str tostr (dgetd r ''node_id'' (PStr ''unknown''))"]
    by (auto simp: save_synced_def j(1,2))
  have "readings_ok loads R (dset ''sensor_readings'' (readings_table (readings_of db @ [row])) db)"
    using ok row(2-4) uid(2) table_ok_snoc[of "readings_of db" row] unfolding readings_ok_def[of _ _ db]
    by (intro readings_ok_dset) auto
  then show ?thesis using row(1,2,5) by auto
qed

text \<open>A batch of readings becomes as many new unsynced rows, whatever the receiver holds already.\<close>

lemma save_all_synced_adds:
  "readings_ok loads R db \<Longrightarrow> \<forall>r \<in> set b. reading_row_ok loads R r \<Longrightarrow> json_faithful dumps loads R \<Longrightarrow> text_affinity conv \<Longrightarrow>
   fresh_ids uids (rec_id ` set (readings_of db)) \<Longrightarrow>
   \<exists>new. readings_of (save_all_synced conv dumps loads tostr now uids (map PDict b) db) = readings_of db @ new \<and>
     readings_ok loads R (save_all_synced conv dumps loads tostr now uids (map PDict b) db) \<and>
     length new = length b \<and> unsynced new = new"
proof (induction b arbitrary: uids db)
  case (Cons r b)
  define db1 where "db1 = save_synced conv dumps loads tostr now (uids 0) (PDict r) db"
  have "uids 0 \<noteq> []" "PStr (uids 0) \<notin> rec_id ` set (readings_of db)" using Cons.prems(5) unfolding fresh_ids_def by blast+
  then obtain row where row: "readings_of db1 = readings_of db @ [row]" "readings_ok loads R db1" "rec_id row = PStr (uids 0)"
      "unsynced [row] = [row]"
    using save_synced_adds[OF Cons.prems(1) _ Cons.prems(3,4), of r "uids 0" tostr now] Cons.prems(2) unfolding db1_def by auto
  have "fresh_ids (\<lambda>n. uids (Suc n)) (rec_id ` set (readings_of db1))"
    using Cons.prems(5) unfolding fresh_ids_def row(1) by (auto simp: inj_def row(3))
  then obtain new where new: "readings_of (save_all_synced conv dumps loads tostr now (\<lambda>n. uids (Suc n)) (map PDict b) db1) = readings_of db1 @ new"
      "readings_ok loads R (save_all_synced conv dumps loads tostr now (\<lambda>n. uids (Suc n)) (map PDict b) db1)"
      "length new = length b" "unsynced new = new"
    using Cons.IH[OF row(2) _ Cons.prems(3,4)] Cons.prems(2) by auto
  have "unsynced (row # new) = row # new" using unsynced_append[of "[row]" new] row(4) new(4) by simp
  then show ?case using new(1-3) row(1) by (intro exI[of _ "row # new"]) (simp flip: db1_def)
qed (simp add: unsynced_def)

lemma mark_synced_effect:
  assumes "readings_ok loads R db"
  shows "mark_synced ''sensor_readings'' (PStr s) db =
    (Inr (), dset ''sensor_readings'' (readings_table (map (\<lambda>r. if rec_id r = PStr s then patch_record [(''synced'', PInt 1)] r else r) (readings_of db))) db)"
proof -
  have "(\<lambda>r. if PStr s \<noteq> PNone \<and> py_eq (rec_id r) (PStr s) then dset ''synced'' (PInt 1) r else r) =
      (\<lambda>r. if rec_id r = PStr s then patch_record [(''synced'', PInt 1)] r else r)"
    by (auto simp: patch_record_def fun_eq_iff)
  moreover have "check_table ''sensor_readings'' = Inr ()" by (simp add: check_table_def ALLOWED_TABLES_def)
  ultimately show ?thesis
    using readings_ok_get[OF assms] readings_has
    by (simp only: mark_synced_def on_table_def sx_defs) (simp add: readings_table_def bindable_def)
qed

lemma patch_row_ok: "reading_row_ok loads R (patch_record [(''synced'', v)] r) = reading_row_ok loads R r"
  by (simp add: reading_row_ok_def patch_record_def oget_def dgetd_def)

lemma mark_batch:
  "readings_ok loads R db \<Longrightarrow> \<forall>r \<in> set b. row_ok r \<Longrightarrow> readings_of db = mark_rows I rs \<Longrightarrow>
   \<exists>db'. sx_iter (\<lambda>r. sx_when (truthy (rec_id r)) (mark_synced ''sensor_readings'' (rec_id r))) b db = (Inr (), db') \<and>
     readings_ok loads R db' \<and> readings_of db' = mark_rows (rec_id ` set b \<union> I) rs"
proof (induction b arbitrary: db I)
  case (Cons r b)
  obtain i where i: "rec_id r = PStr i" "i \<noteq> []" using Cons.prems(2) by (auto simp: row_ok_def)
  define rows where "rows = map (\<lambda>r. if rec_id r = PStr i then patch_record [(''synced'', PInt 1)] r else r) (readings_of db)"
  have "readings_ok loads R (dset ''sensor_readings'' (readings_table rows) db)"
    using Cons.prems(1) unfolding rows_def readings_ok_def[of _ _ db]
    by (intro readings_ok_dset table_ok_patch) (auto simp: patch_row_ok)
  moreover have "rows = mark_rows (insert (PStr i) I) rs" by (simp add: rows_def Cons.prems(3) mark_rows_step)
  ultimately obtain db' where db': "sx_iter (\<lambda>r. sx_when (truthy (rec_id r)) (mark_synced ''sensor_readings'' (rec_id r))) b
        (dset ''sensor_readings'' (readings_table rows) db) = (Inr (), db')" "readings_ok loads R db'"
      "readings_of db' = mark_rows (rec_id ` set b \<union> insert (PStr i) I) rs"
    using Cons.IH Cons.prems(2) by (metis (no_types, lifting) list.set_intros(2) readings_of_dset)
  have "sx_iter (\<lambda>r. sx_when (truthy (rec_id r)) (mark_synced ''sensor_readings'' (rec_id r))) (r # b) db = (Inr (), db')"
    using db'(1) i mark_synced_effect[OF Cons.prems(1), of i] by (simp add: sx_defs flip: rows_def)
  then show ?case using db'(2,3) i(1) by auto
qed (simp add: sx_defs)

lemma filter_take_ids: "distinct (map f xs) \<Longrightarrow> filter (\<lambda>r. f r \<notin> f ` set (take n xs)) xs = drop n xs"
proof -
  assume d: "distinct (map f xs)"
  have "distinct (map f (take n xs) @ map f (drop n xs))" using d by (metis append_take_drop_id map_append)
  then have "\<forall>r \<in> set (drop n xs). f r \<notin> f ` set (take n xs)" by auto
  then have "filter (\<lambda>r. f r \<notin> f ` set (take n xs)) (take n xs @ drop n xs) = drop n xs"
    unfolding filter_append by (simp add: filter_empty_conv)
  then show ?thesis unfolding append_take_drop_id .
qed

text \<open>A push either does nothing, or sends the first twenty unsynced rows and marks exactly those.\<close>

lemma sync_with_peer_cases:
  assumes ok: "readings_ok loads R db"
  shows "sync_with_peer g ip db = (Inr [], db) \<or>
    (\<exists>db'. sync_with_peer g ip db = (Inr (take 20 (unsynced (readings_of db))), db') \<and> readings_ok loads R db' \<and>
       unsynced (readings_of db') = drop 20 (unsynced (readings_of db)) \<and> length (readings_of db') = length (readings_of db))"
proof -
  let ?u = "unsynced (readings_of db)"
  have t: "table_ok (readings_of db)" using ok by (simp add: readings_ok_def)
  have "check_table ''sensor_readings'' = Inr ()" by (simp add: check_table_def ALLOWED_TABLES_def)
  then have q: "query_unsynced ''sensor_readings'' 20 db = Inr (take 20 ?u)"
    by (simp add: query_unsynced_def readings_ok_get[OF ok]) (simp add: readings_table_def readings_has)
  have rows: "\<forall>r \<in> set (take 20 ?u). row_ok r"
    using t unsynced_subset[of "readings_of db"] by (auto simp: table_ok_def dest: in_set_takeD)
  have "readings_of db = mark_rows {} (readings_of db)" by (simp add: mark_rows_def)
  then obtain db' where db': "sx_iter (\<lambda>r. sx_when (truthy (rec_id r)) (mark_synced ''sensor_readings'' (rec_id r))) (take 20 ?u) db = (Inr (), db')"
      "readings_ok loads R db'" "readings_of db' = mark_rows (rec_id ` set (take 20 ?u)) (readings_of db)"
    using mark_batch[OF ok rows] by fastforce
  have "distinct (map rec_id ?u)" using t by (simp add: table_ok_def unsynced_def distinct_map_filter)
  then have "unsynced (readings_of db') = drop 20 ?u" by (simp add: db'(3) unsynced_mark filter_take_ids)
  moreover have "length (readings_of db') = length (readings_of db)" by (simp add: db'(3) mark_rows_def)
  moreover have "sync_with_peer g ip db = (Inr [], db) \<or> sync_with_peer g ip db = (Inr (take 20 ?u), db')"
    using db'(1) by (auto simp: sync_with_peer_def sx_bind_def sx_get_def sx_lift_def sx_return_def sx_then_def q Let_def)
  ultimately show ?thesis using db'(2) by blast
qed

text \<open>
  A push from one of two nodes to the other, the bytes arriving as they were sent: the number of records that
  were sent, and the two databases after it.
\<close>

definition exchange :: "(string \<Rightarrow> pyval \<Rightarrow> pyval) \<Rightarrow> (pyval \<Rightarrow> string) \<Rightarrow> (string \<Rightarrow> pyval result) \<Rightarrow> (pyval \<Rightarrow> string) \<Rightarrow>
    gossip \<Rightarrow> pyval \<Rightarrow> string \<Rightarrow> (nat \<Rightarrow> string) \<Rightarrow> sql_db \<times> sql_db \<Rightarrow> nat \<times> sql_db \<times> sql_db" where
  "exchange conv dumps loads tostr g ip now uids ab = (case ab of (a, b) \<Rightarrow>
     (case sync_with_peer g ip a of
        (Inr batch, a') \<Rightarrow> (length batch, a', if batch = [] then b
           else handle_sync conv dumps loads tostr now uids (PDict (dbsync_payload (go_node g) batch)) b)
      | (Inl e, a') \<Rightarrow> (0, a', b)))"

inductive exchanges :: "(string \<Rightarrow> pyval \<Rightarrow> pyval) \<Rightarrow> (pyval \<Rightarrow> string) \<Rightarrow> (string \<Rightarrow> pyval result) \<Rightarrow> (pyval \<Rightarrow> string) \<Rightarrow>
    sql_db \<times> sql_db \<Rightarrow> nat \<Rightarrow> sql_db \<times> sql_db \<Rightarrow> bool"
  for conv dumps loads tostr where
  start: "exchanges conv dumps loads tostr s 0 s"
| push: "exchanges conv dumps loads tostr s n (a, b) \<Longrightarrow> fresh_ids uids (rec_id ` set (readings_of b)) \<Longrightarrow>
    exchange conv dumps loads tostr g ip now uids (a, b) = (k, a', b') \<Longrightarrow> exchanges conv dumps loads tostr s (n + k) (a', b')"
| turn: "exchanges conv dumps loads tostr s n (a, b) \<Longrightarrow> exchanges conv dumps loads tostr s n (b, a)"

definition pair_count :: "(pyobj list \<Rightarrow> nat) \<Rightarrow> sql_db \<times> sql_db \<Rightarrow> nat" where
  "pair_count f ab = f (readings_of (fst ab)) + f (readings_of (snd ab))"

lemma exchange_effect:
  assumes ok: "readings_ok loads R a" "readings_ok loads R b" and codec: "json_faithful dumps loads R" "text_affinity conv"
    and fresh: "fresh_ids uids (rec_id ` set (readings_of b))" and e: "exchange conv dumps loads tostr g ip now uids (a, b) = (k, a', b')"
  shows "readings_ok loads R a' \<and> readings_ok loads R b' \<and>
    pair_count (\<lambda>rs. length (unsynced rs)) (a', b') = pair_count (\<lambda>rs. length (unsynced rs)) (a, b) \<and>
    pair_count length (a', b') = pair_count length (a, b) + k"
proof -
  let ?u = "unsynced (readings_of a)"
  consider (none) "k = 0" "a' = a" "b' = b"
    | (sent) "readings_ok loads R a'" "unsynced (readings_of a') = drop 20 ?u" "length (readings_of a') = length (readings_of a)"
        "k = length (take 20 ?u)" "b' = (if take 20 ?u = [] then b
           else save_all_synced conv dumps loads tostr now uids (map PDict (take 20 ?u)) b)"
    using sync_with_peer_cases[OF ok(1), of g ip] e
    by (auto simp: exchange_def handle_sync_def dbsync_payload_def oget_def dgetd_def split: if_splits)
  then show ?thesis
  proof cases
    case sent
    have "\<forall>r \<in> set (take 20 ?u). reading_row_ok loads R r"
      using ok(1) unsynced_subset[of "readings_of a"] by (auto simp: readings_ok_def dest: in_set_takeD)
    then obtain new where new: "readings_of (save_all_synced conv dumps loads tostr now uids (map PDict (take 20 ?u)) b) = readings_of b @ new"
        "readings_ok loads R (save_all_synced conv dumps loads tostr now uids (map PDict (take 20 ?u)) b)"
        "length new = length (take 20 ?u)" "unsynced new = new"
      using save_all_synced_adds[OF ok(2) _ codec fresh] by blast
    show ?thesis
      using sent new ok(2) by (cases "take 20 ?u = []") (simp_all add: pair_count_def)
  qed (use ok in \<open>simp add: pair_count_def\<close>)
qed

text \<open>
  The gossip of \<open>db/sync.py\<close> does not deduplicate, and never comes to rest: a receiver stores every pushed reading under an
  id of its own and as unsynced, so between two nodes the number of unsynced readings stays what it is for ever while every
  push adds its records to the tables once more.
\<close>
theorem sync_echo:
  assumes "exchanges conv dumps loads tostr s n t"
    and "readings_ok loads R (fst s)" and "readings_ok loads R (snd s)"
    and "json_faithful dumps loads R" and "text_affinity conv"
  shows "pair_count (\<lambda>rs. length (unsynced rs)) t = pair_count (\<lambda>rs. length (unsynced rs)) s \<and>
    pair_count length t = pair_count length s + n"
proof -
  have "readings_ok loads R (fst t) \<and> readings_ok loads R (snd t) \<and>
    pair_count (\<lambda>rs. length (unsynced rs)) t = pair_count (\<lambda>rs. length (unsynced rs)) s \<and> pair_count length t = pair_count length s + n"
    using assms(1-3)
  proof induction
    case (push s n a b uids g ip now k a' b')
    then show ?case using exchange_effect[OF _ _ assms(4,5) push.hyps(2,3)] by auto
  next
    case (turn s n a b)
    then show ?case by (simp add: pair_count_def)
  qed simp
  then show ?thesis by blast
qed

definition echo_uids :: "nat \<Rightarrow> string" where
  "echo_uids n = replicate (Suc n) CHR ''u''"

definition echo_row :: pyobj where
  "echo_row = [(''record_id'', PStr ''r1''), (''timestamp'', PStr ''t''), (''node_id'', PStr ''n1''), (''sensor_type'', PStr ''temperature''),
     (''value_num'', PNone), (''value_text'', PNone), (''unit'', PStr ''''), (''status'', PStr ''''), (''raw_json'', PStr ''{}''), (''synced'', PInt 0)]"

definition echo_db :: "pyobj list \<Rightarrow> sql_db" where
  "echo_db rs = dset ''sensor_readings'' (readings_table rs) (schema_init [])"

definition echo_gossip :: gossip where
  "echo_gossip = \<lparr>go_node = ''n1'', go_own = ''10.0.0.1'', go_limit = 10, go_encode = (\<lambda>v. []), go_reach = (\<lambda>ip b. True)\<rparr>"

lemma echo_store: "store_reading (\<lambda>c v. v) (\<lambda>v. ''{}'') ''t'' ''r1'' ''temperature'' [] ''n1'' (schema_init []) = (Inr ''r1'', echo_db [echo_row])"
  by code_simp

theorem sync_echo_witness:
  "\<exists>t. exchanges (\<lambda>c v. v) (\<lambda>v. ''{}'') (\<lambda>s. Inr (PDict [])) (\<lambda>v. []) (echo_db [echo_row], echo_db []) 1 t \<and>
     pair_count (\<lambda>rs. length (unsynced rs)) t = 1 \<and> pair_count length t = 2"
proof -
  let ?s = "(echo_db [echo_row], echo_db [])"
  let ?e = "exchange (\<lambda>c v. v) (\<lambda>v. ''{}'') (\<lambda>s. Inr (PDict [])) (\<lambda>v. []) echo_gossip (PStr ''10.0.0.2'') ''t2'' echo_uids ?s"
  obtain k a' b' where e: "?e = (k, a', b')" by (cases ?e) auto
  have "fst ?e = 1" by code_simp
  then have k: "k = 1" by (simp add: e)
  have fresh: "fresh_ids echo_uids (rec_id ` set (readings_of (echo_db [])))"
    by (auto simp: fresh_ids_def echo_uids_def inj_def echo_db_def)
  have ex: "exchanges (\<lambda>c v. v) (\<lambda>v. ''{}'') (\<lambda>s. Inr (PDict [])) (\<lambda>v. []) ?s (0 + k) (a', b')"
    using exchanges.push[OF exchanges.start fresh e] .
  have ok: "readings_ok (\<lambda>s. Inr (PDict [])) {[]} (echo_db [])" "readings_ok (\<lambda>s. Inr (PDict [])) {[]} (echo_db [echo_row])"
    unfolding echo_db_def by (intro readings_ok_dset; simp add: table_ok_def row_ok_def rec_id_def reading_row_ok_def echo_row_def oget_def dgetd_def)+
  have c: "json_faithful (\<lambda>v. ''{}'') (\<lambda>s. Inr (PDict [])) {[]}" "text_affinity (\<lambda>c v. v)"
    by (simp_all add: json_faithful_def plain_reading_def bindable_def oget_def dgetd_def text_affinity_def)
  have "pair_count (\<lambda>rs. length (unsynced rs)) ?s = 1" "pair_count length ?s = 1" by code_simp+
  then show ?thesis
    using sync_echo[OF ex _ _ c] ok ex by (intro exI[of _ "(a', b')"]) (simp add: k)
qed

end
