(* ===== verification/Agents.thy ===== *)
theory Agents
  imports Streams
begin

text \<open>
  The agents and what creates and destroys them: \<open>agents/base_agent.py\<close>, \<open>agents/sensor_agent.py\<close>,
  \<open>core/agent_registry.py\<close>, the factory (\<open>agent_factory/registry.py\<close>, \<open>lifecycle.py\<close>,
  \<open>factory.py\<close>), the autonomous trigger (\<open>core/auto_trigger.py\<close>) and the telemetry agent
  (\<open>agents/telemetry_agent.py\<close>).  The agent objects are the entries of a list, so that the registry
  of the lifecycle and the callers share them; \<open>hx n\<close> are the six digits of the \<open>n\<close>-th agent's id.
\<close>

section \<open>Agents\<close>

record agent =
  ag_id :: string
  ag_role :: string
  ag_sensor :: string
  ag_report :: string
  ag_running :: bool

record lc_entry =
  lc_obj :: nat
  lc_started :: real
  lc_status :: string

record farm =
  fm_objs :: "agent list"
  fm_active :: "(string, lc_entry) pydict"
  fm_timers :: "(string \<times> real) list"
  fm_created :: nat
  fm_bus :: msgbus
  fm_events :: evbus

definition new_farm :: farm where
  "new_farm = \<lparr>fm_objs = [], fm_active = [], fm_timers = [], fm_created = 0, fm_bus = new_bus, fm_events = new_evbus\<rparr>"

definition SENSOR_TYPES :: "string list" where
  "SENSOR_TYPES = [''attendance'', ''temperature'', ''materials'']"

definition set_running :: "bool \<Rightarrow> nat \<Rightarrow> farm \<Rightarrow> farm" where
  "set_running b k f = f\<lparr>fm_objs := (fm_objs f)[k := (fm_objs f ! k)\<lparr>ag_running := b\<rparr>]\<rparr>"

text \<open>The constructor: the object joins the list and its id gets a queue on the bus.\<close>

definition new_sensor_agent :: "string \<Rightarrow> string \<Rightarrow> string \<Rightarrow> (farm, nat) sx" where
  "new_sensor_agent aid sensor report =
     (if sensor \<notin> set SENSOR_TYPES then sx_raise (ValueError ''sensor_type'')
      else (\<lambda>f. (Inr (length (fm_objs f)),
        f\<lparr>fm_objs := fm_objs f @ [\<lparr>ag_id = aid, ag_role = ''sensor'', ag_sensor = sensor, ag_report = report, ag_running = False\<rparr>],
          fm_bus := mb_subscribe aid (fm_bus f)\<rparr>)))"

definition agent_start :: "nat \<Rightarrow> farm \<Rightarrow> farm" where
  "agent_start k f = (if ag_running (fm_objs f ! k) then f else set_running True k f)"

definition agent_stop :: "nat \<Rightarrow> farm \<Rightarrow> farm" where
  "agent_stop k f = set_running False k f"

text \<open>\<open>_read\<close>: \<open>i\<close>, \<open>w\<close>, \<open>x\<close> and \<open>y\<close> are the random draws.\<close>

definition sensor_read :: "string \<Rightarrow> int \<Rightarrow> string \<Rightarrow> real \<Rightarrow> real \<Rightarrow> pyobj" where
  "sensor_read sensor i w x y =
     (if sensor = ''attendance'' then [(''sensor'', PStr ''attendance''), (''count'', PInt i), (''status'', PStr w)]
      else if sensor = ''temperature'' then
        [(''sensor'', PStr ''temperature''), (''celsius'', PFloat (pyround x 1)), (''humidity_pct'', PFloat (pyround y 1))]
      else [(''sensor'', PStr ''materials''), (''item'', PStr w), (''qty'', PInt i), (''unit'', PStr ''pcs'')])"

text \<open>One turn of \<open>run\<close>: the reading goes to the report address on the message bus and to the event bus.\<close>

definition agent_tick :: "real \<Rightarrow> string \<Rightarrow> nat \<Rightarrow> pyobj \<Rightarrow> farm \<Rightarrow> farm" where
  "agent_tick now uid k reading f =
     (let a = fm_objs f ! k in
      if \<not> ag_running a then f
      else f\<lparr>fm_bus := snd (mb_publish now (ag_report a)
               (PDict [(''type'', PStr ''sensor_reading''), (''agent_id'', PStr (ag_id a)), (''data'', PDict reading), (''ts'', PFloat now)])
               (ag_id a) (fm_bus f)),
             fm_events := eb_publish now uid ''sensor.reading'' (PDict reading) (ag_id a) ''MEDIUM'' (fm_events f)\<rparr>)"

definition get_agent_for :: "string \<Rightarrow> string \<Rightarrow> (farm, nat) sx" where
  "get_agent_for sensor report =
     (if sensor \<notin> set SENSOR_TYPES then sx_raise (ValueError sensor)
      else new_sensor_agent (''sensor-'' @ sensor) sensor report)"

section \<open>The factory\<close>

definition AGENT_TEMPLATES :: "(string, string) pydict" where
  "AGENT_TEMPLATES =
     [(''attendance'', ''SensorAgent''), (''temperature'', ''SensorAgent''), (''materials'', ''SensorAgent''),
      (''vision'', ''VisionAgent''), (''decision'', ''DecisionAgent'')]"

definition get_template :: "pyval \<Rightarrow> string option result" where
  "get_template v = bindE (hkey v) (\<lambda>k. Inr (case k of PStr s \<Rightarrow> dget AGENT_TEMPLATES s | _ \<Rightarrow> None))"

definition lc_spawn :: "real \<Rightarrow> string \<Rightarrow> nat \<Rightarrow> farm \<Rightarrow> farm" where
  "lc_spawn now aid k f =
     (let f1 = agent_start k f
      in f1\<lparr>fm_active := dset aid \<lparr>lc_obj = k, lc_started = now, lc_status = ''running''\<rparr> (fm_active f1)\<rparr>)"

definition lc_destroy :: "string \<Rightarrow> farm \<Rightarrow> farm" where
  "lc_destroy aid f = (case dget (fm_active f) aid of
       None \<Rightarrow> f
     | Some e \<Rightarrow> set_running False (lc_obj e) (f\<lparr>fm_active := ddel aid (fm_active f)\<rparr>))"

definition lc_destroy_all :: "farm \<Rightarrow> farm" where
  "lc_destroy_all f = fold lc_destroy (dkeys (fm_active f)) f"

definition lc_get_status :: "farm \<Rightarrow> (string \<times> string) list" where
  "lc_get_status f = map (\<lambda>(aid, e). (aid, lc_status e)) (fm_active f)"

definition auto_destroy_after :: "real \<Rightarrow> string \<Rightarrow> real \<Rightarrow> farm \<Rightarrow> farm" where
  "auto_destroy_after now aid secs f = f\<lparr>fm_timers := fm_timers f @ [(aid, now + secs)]\<rparr>"

text \<open>The timer threads that wake up by \<open>now\<close>.\<close>

definition fire_timers :: "real \<Rightarrow> farm \<Rightarrow> farm" where
  "fire_timers now f =
     (let due = filter (\<lambda>(aid, t). t \<le> now) (fm_timers f)
      in fold (\<lambda>(aid, t). lc_destroy aid) due (f\<lparr>fm_timers := filter (\<lambda>(aid, t). \<not> t \<le> now) (fm_timers f)\<rparr>))"

definition create_one :: "(nat \<Rightarrow> string) \<Rightarrow> real \<Rightarrow> real \<Rightarrow> pyval \<Rightarrow> (farm, nat list) sx" where
  "create_one hx now ttl v =
     sx_bind (sx_lift (get_template v)) (\<lambda>tm. case (tm, v) of
       (Some cls, PStr sensor) \<Rightarrow>
         if cls \<noteq> ''SensorAgent'' then sx_return []
         else
           sx_bind (sx_get (\<lambda>f. sensor @ ''-agent-'' @ hx (length (fm_objs f)))) (\<lambda>aid.
           sx_bind (new_sensor_agent aid sensor ''orchestrator'') (\<lambda>k.
           sx_then (sx_modify (lc_spawn now aid k))
           (sx_then (sx_modify (auto_destroy_after now aid ttl))
           (sx_then (sx_modify (\<lambda>f. f\<lparr>fm_created := fm_created f + 1\<rparr>)) (sx_return [k])))))
     | _ \<Rightarrow> sx_return [])"

fun create_all :: "(nat \<Rightarrow> string) \<Rightarrow> real \<Rightarrow> real \<Rightarrow> pyval list \<Rightarrow> (farm, nat list) sx" where
  "create_all hx now ttl [] = sx_return []"
| "create_all hx now ttl (v # vs) =
     sx_bind (create_one hx now ttl v) (\<lambda>a. sx_bind (create_all hx now ttl vs) (\<lambda>b. sx_return (a @ b)))"

definition create_from_intent :: "(nat \<Rightarrow> string) \<Rightarrow> real \<Rightarrow> pyobj \<Rightarrow> (farm, nat list) sx" where
  "create_from_intent hx now intent =
     (let ttl = (if dgetd intent ''priority'' (PStr ''normal'') = PStr ''high'' then 30 else 60) in
      sx_bind (sx_lift (py_iter (dgetd intent ''data_required'' (PList [])))) (create_all hx now ttl))"

definition factory_status :: "farm \<Rightarrow> nat \<times> (string \<times> string) list" where
  "factory_status f = (fm_created f, lc_get_status f)"

section \<open>The autonomous trigger\<close>

record autot =
  at_known :: "(string, pyobj) pydict"
  at_farm :: farm

definition on_farm :: "(farm, 'a) sx \<Rightarrow> (autot, 'a) sx" where
  "on_farm m s = (case m (at_farm s) of (r, f) \<Rightarrow> (r, s\<lparr>at_farm := f\<rparr>))"

definition monitor_intent :: "string \<Rightarrow> pyobj" where
  "monitor_intent sensor = [(''goal'', PStr (''monitor '' @ sensor)), (''data_required'', PList [PStr sensor]), (''priority'', PStr ''normal'')]"

text \<open>\<open>a or b\<close> where the second test may not be reached.\<close>

definition orE :: "bool result \<Rightarrow> bool result \<Rightarrow> bool result" where
  "orE a b = bindE a (\<lambda>x. if x then Inr True else b)"

definition on_device_join :: "(nat \<Rightarrow> string) \<Rightarrow> real \<Rightarrow> pyobj \<Rightarrow> (autot, unit) sx" where
  "on_device_join hx now info =
     (let caps = dgetd info ''caps'' (PDict info) in
      sx_bind (sx_lift (pget caps ''roles'' (dgetd info ''roles'' (PList [PStr ''worker''])))) (\<lambda>roles.
      sx_bind (sx_lift (pget caps ''modalities'' (PList [PStr ''text'']))) (\<lambda>modalities.
      sx_bind (sx_lift (orE (py_in ''sensor'' roles) (py_in ''worker'' roles))) (\<lambda>senses.
      sx_then (sx_when senses (sx_iter (\<lambda>sensor. sx_bind (on_farm (create_from_intent hx now (monitor_intent sensor))) (\<lambda>_. sx_return ())) SENSOR_TYPES))
      (sx_bind (sx_lift (orE (py_in ''image'' modalities) (py_in ''vision'' roles))) (\<lambda>_.
       sx_bind (sx_lift (py_in ''audio'' modalities)) (\<lambda>_. sx_return ())))))))"

text \<open>\<open>_on_device_leave\<close> prints a message and does nothing else.\<close>

definition on_device_leave :: "string \<Rightarrow> (autot, unit) sx" where
  "on_device_leave pid = sx_return ()"

text \<open>
  One turn of \<open>_watch_loop\<close>: \<open>ord\<close> is the order in which Python iterates the set of the new ids
  and of the ids that are gone.  An exception ends the turn.
\<close>

definition watch :: "(nat \<Rightarrow> string) \<Rightarrow> (string list \<Rightarrow> string list) \<Rightarrow> real \<Rightarrow> (string, pyobj) pydict \<Rightarrow> (autot, unit) sx" where
  "watch hx ord now current =
     sx_bind (sx_get (\<lambda>s. dkeys (at_known s))) (\<lambda>previous.
     sx_then (sx_iter (\<lambda>pid.
         sx_then (sx_modify (\<lambda>s. s\<lparr>at_known := dset pid (dgetd current pid []) (at_known s)\<rparr>))
           (on_device_join hx now (dgetd current pid [])))
       (ord (filter (\<lambda>pid. pid \<notin> set previous) (dkeys current))))
     (sx_iter (\<lambda>pid.
         sx_then (on_device_leave pid) (sx_modify (\<lambda>s. s\<lparr>at_known := ddel pid (at_known s)\<rparr>)))
       (ord (filter (\<lambda>pid. pid \<notin> set (dkeys current)) previous))))"

definition watch_turn :: "(nat \<Rightarrow> string) \<Rightarrow> (string list \<Rightarrow> string list) \<Rightarrow> real \<Rightarrow> (string, pyobj) pydict \<Rightarrow> autot \<Rightarrow> autot" where
  "watch_turn hx ord now current s = snd (watch hx ord now current s)"

section \<open>The invariant of the factory\<close>

lemma agent_ids_differ:
  assumes "s \<in> set SENSOR_TYPES" and "t \<in> set SENSOR_TYPES"
  shows "s @ ''-agent-'' @ g = t @ ''-agent-'' @ h \<longleftrightarrow> s = t \<and> g = h"
  using assms by (auto simp: SENSOR_TYPES_def)

definition named_ok :: "(nat \<Rightarrow> string) \<Rightarrow> farm \<Rightarrow> bool" where
  "named_ok hx f \<longleftrightarrow> (\<forall>k < length (fm_objs f). ag_sensor (fm_objs f ! k) \<in> set SENSOR_TYPES \<and>
     ag_id (fm_objs f ! k) = ag_sensor (fm_objs f ! k) @ ''-agent-'' @ hx k \<and> din (ag_id (fm_objs f ! k)) (mb_queues (fm_bus f)))"

text \<open>The registry of the lifecycle holds exactly the running agents.\<close>

definition registry_ok :: "real \<Rightarrow> farm \<Rightarrow> bool" where
  "registry_ok now f \<longleftrightarrow>
     (\<forall>aid e. dget (fm_active f) aid = Some e \<longrightarrow> lc_obj e < length (fm_objs f) \<and> ag_id (fm_objs f ! lc_obj e) = aid \<and>
        ag_running (fm_objs f ! lc_obj e) \<and> lc_started e \<le> now \<and> lc_status e = ''running'') \<and>
     (\<forall>k < length (fm_objs f). ag_running (fm_objs f ! k) \<longrightarrow>
        (\<exists>e. dget (fm_active f) (ag_id (fm_objs f ! k)) = Some e \<and> lc_obj e = k)) \<and>
     distinct (dkeys (fm_active f))"

definition timers_ok :: "farm \<Rightarrow> bool" where
  "timers_ok f \<longleftrightarrow> (\<forall>aid e. dget (fm_active f) aid = Some e \<longrightarrow> (\<exists>due. (aid, due) \<in> set (fm_timers f) \<and> due \<le> lc_started e + 60))"

definition farm_inv :: "(nat \<Rightarrow> string) \<Rightarrow> real \<Rightarrow> farm \<Rightarrow> bool" where
  "farm_inv hx now f \<longleftrightarrow> named_ok hx f \<and> registry_ok now f \<and> timers_ok f \<and> fm_created f = length (fm_objs f)"

lemma set_running_simps [simp]:
  "fm_active (set_running b k f) = fm_active f" "fm_timers (set_running b k f) = fm_timers f"
  "fm_created (set_running b k f) = fm_created f" "fm_bus (set_running b k f) = fm_bus f"
  "length (fm_objs (set_running b k f)) = length (fm_objs f)"
  by (simp_all add: set_running_def)

lemma set_running_nth:
  "j < length (fm_objs f) \<Longrightarrow> fm_objs (set_running b k f) ! j = (if j = k then (fm_objs f ! k)\<lparr>ag_running := b\<rparr> else fm_objs f ! j)"
  by (simp add: set_running_def nth_list_update)

lemma named_set_running: "named_ok hx (set_running b k f) \<longleftrightarrow> named_ok hx f"
proof -
  have "ag_sensor (fm_objs (set_running b k f) ! j) = ag_sensor (fm_objs f ! j)"
      "ag_id (fm_objs (set_running b k f) ! j) = ag_id (fm_objs f ! j)" if h: "j < length (fm_objs f)" for j
    using h by (simp_all add: set_running_nth)
  then show ?thesis unfolding named_ok_def set_running_simps by metis
qed

lemma named_other [simp]:
  "named_ok hx (f\<lparr>fm_active := x\<rparr>) = named_ok hx f" "named_ok hx (f\<lparr>fm_timers := y\<rparr>) = named_ok hx f"
  "named_ok hx (f\<lparr>fm_created := z\<rparr>) = named_ok hx f"
  by (simp_all add: named_ok_def)

lemma registry_other [simp]:
  "registry_ok now (f\<lparr>fm_timers := y\<rparr>) = registry_ok now f" "registry_ok now (f\<lparr>fm_created := z\<rparr>) = registry_ok now f"
  "registry_ok now (f\<lparr>fm_bus := b\<rparr>) = registry_ok now f" "registry_ok now (f\<lparr>fm_events := ev\<rparr>) = registry_ok now f"
  by (simp_all add: registry_ok_def)

lemma registry_mono: "registry_ok now f \<Longrightarrow> now \<le> t \<Longrightarrow> registry_ok t f"
  unfolding registry_ok_def by (meson order_trans)

lemma named_inj:
  assumes "named_ok hx f" and "inj_on hx {..<length (fm_objs f)}" and "j < length (fm_objs f)" and "k < length (fm_objs f)"
    and "ag_id (fm_objs f ! j) = ag_id (fm_objs f ! k)"
  shows "j = k"
proof -
  have "hx j = hx k"
    using assms(1,3-5) agent_ids_differ unfolding named_ok_def by metis
  then show ?thesis using assms(2-4) by (simp add: inj_on_eq_iff)
qed

section \<open>Destroying agents\<close>

lemma destroy_registry:
  assumes "named_ok hx f" and "inj_on hx {..<length (fm_objs f)}" and "registry_ok now f"
  shows "named_ok hx (lc_destroy aid f) \<and> registry_ok now (lc_destroy aid f) \<and>
    (\<forall>a. dget (fm_active (lc_destroy aid f)) a = (if a = aid then None else dget (fm_active f) a))"
proof (cases "dget (fm_active f) aid")
  case None
  then show ?thesis using assms(1,3) by (simp add: lc_destroy_def)
next
  case (Some e)
  let ?f = "f\<lparr>fm_active := ddel aid (fm_active f)\<rparr>"
  have f': "lc_destroy aid f = set_running False (lc_obj e) ?f" by (simp add: lc_destroy_def Some)
  have e: "lc_obj e < length (fm_objs f)" "ag_id (fm_objs f ! lc_obj e) = aid"
    using assms(3) Some by (auto simp: registry_ok_def)
  have n: "named_ok hx (lc_destroy aid f)" using assms(1) by (simp add: f' named_set_running)
  have other: "ag_id (fm_objs f ! k) = aid \<longleftrightarrow> k = lc_obj e" if h: "k < length (fm_objs f)" for k
    using named_inj[OF assms(1,2) h e(1)] e(2) by auto
  have "registry_ok now (lc_destroy aid f)"
    unfolding f' registry_ok_def
  proof (intro conjI allI impI)
    fix a e' assume "dget (fm_active (set_running False (lc_obj e) ?f)) a = Some e'"
    then have a: "a \<noteq> aid" "dget (fm_active f) a = Some e'" by (auto split: if_splits)
    then have "lc_obj e' < length (fm_objs f)" "ag_id (fm_objs f ! lc_obj e') = a" "ag_running (fm_objs f ! lc_obj e')" "lc_started e' \<le> now"
        "lc_status e' = ''running''"
      using assms(3) by (auto simp: registry_ok_def)
    moreover have "lc_obj e' \<noteq> lc_obj e" using a(1) e(2) calculation(2) by auto
    ultimately show "lc_obj e' < length (fm_objs (set_running False (lc_obj e) ?f))"
        "ag_id (fm_objs (set_running False (lc_obj e) ?f) ! lc_obj e') = a"
        "ag_running (fm_objs (set_running False (lc_obj e) ?f) ! lc_obj e')" "lc_started e' \<le> now" "lc_status e' = ''running''"
      by (simp_all add: set_running_nth)
  next
    fix k assume k: "k < length (fm_objs (set_running False (lc_obj e) ?f))" "ag_running (fm_objs (set_running False (lc_obj e) ?f) ! k)"
    then have "k < length (fm_objs f)" "k \<noteq> lc_obj e" "ag_running (fm_objs f ! k)" by (auto simp: set_running_nth split: if_splits)
    then show "\<exists>e'. dget (fm_active (set_running False (lc_obj e) ?f)) (ag_id (fm_objs (set_running False (lc_obj e) ?f) ! k)) = Some e' \<and> lc_obj e' = k"
      using assms(3) other by (auto simp: registry_ok_def set_running_nth)
  qed (use assms(3) in \<open>simp add: registry_ok_def dict_inv\<close>)
  then show ?thesis using n by (simp add: f')
qed

lemma destroy_keeps [simp]:
  "fm_timers (lc_destroy aid f) = fm_timers f" "fm_created (lc_destroy aid f) = fm_created f"
  "length (fm_objs (lc_destroy aid f)) = length (fm_objs f)" "fm_bus (lc_destroy aid f) = fm_bus f"
  by (simp_all add: lc_destroy_def split: option.split)

lemma destroy_many:
  "named_ok hx f \<Longrightarrow> inj_on hx {..<length (fm_objs f)} \<Longrightarrow> registry_ok now f \<Longrightarrow>
    (let f' = fold (\<lambda>(aid, t). lc_destroy aid) due f in
     named_ok hx f' \<and> registry_ok now f' \<and> (\<forall>a. dget (fm_active f') a = (if a \<in> fst ` set due then None else dget (fm_active f) a)) \<and>
     fm_timers f' = fm_timers f \<and> fm_created f' = fm_created f \<and> length (fm_objs f') = length (fm_objs f))"
proof (induction due arbitrary: f)
  case (Cons d due)
  obtain aid t where d: "d = (aid, t)" by (cases d)
  note g = destroy_registry[OF Cons.prems, of aid]
  show ?case using Cons.IH[of "lc_destroy aid f"] g Cons.prems(2) by (auto simp: d Let_def)
qed simp

lemma fire_inv:
  assumes "farm_inv hx now f" and "inj_on hx {..<length (fm_objs f)}" and "now \<le> t"
  shows "farm_inv hx t (fire_timers t f) \<and>
    (\<forall>a e. dget (fm_active (fire_timers t f)) a = Some e \<longrightarrow> dget (fm_active f) a = Some e \<and> t < lc_started e + 60) \<and>
    length (fm_objs (fire_timers t f)) = length (fm_objs f)"
proof -
  let ?due = "filter (\<lambda>(aid, s). s \<le> t) (fm_timers f)"
  let ?f = "f\<lparr>fm_timers := filter (\<lambda>(aid, s). \<not> s \<le> t) (fm_timers f)\<rparr>"
  have "named_ok hx ?f" "registry_ok t ?f"
    using assms(1,3) by (auto simp: farm_inv_def registry_mono)
  moreover have "inj_on hx {..<length (fm_objs ?f)}" using assms(2) by simp
  ultimately have m: "let f' = fold (\<lambda>(aid, t). lc_destroy aid) ?due ?f in
     named_ok hx f' \<and> registry_ok t f' \<and> (\<forall>a. dget (fm_active f') a = (if a \<in> fst ` set ?due then None else dget (fm_active ?f) a)) \<and>
     fm_timers f' = fm_timers ?f \<and> fm_created f' = fm_created ?f \<and> length (fm_objs f') = length (fm_objs ?f)"
    by (intro destroy_many)
  let ?g = "fire_timers t f"
  have a: "dget (fm_active ?g) a = (if a \<in> fst ` set ?due then None else dget (fm_active f) a)" for a
    using m by (simp add: fire_timers_def Let_def)
  have live: "\<exists>due. (a, due) \<in> set (filter (\<lambda>(aid, s). \<not> s \<le> t) (fm_timers f)) \<and> due \<le> lc_started e + 60 \<and> dget (fm_active f) a = Some e"
    if h: "dget (fm_active ?g) a = Some e" for a e
  proof -
    have b: "dget (fm_active f) a = Some e" "a \<notin> fst ` set ?due" using h a[of a] by (auto split: if_splits)
    then obtain due where "(a, due) \<in> set (fm_timers f)" "due \<le> lc_started e + 60"
      using assms(1) unfolding farm_inv_def timers_ok_def by blast
    moreover have "\<not> due \<le> t" using b(2) calculation(1) by force
    ultimately show ?thesis using b(1) by auto
  qed
  have "timers_ok ?g" using live m unfolding timers_ok_def by (fastforce simp: fire_timers_def Let_def)
  then have "farm_inv hx t ?g" using m assms(1) by (simp add: farm_inv_def fire_timers_def Let_def)
  moreover have "length (fm_objs ?g) = length (fm_objs f)" using m by (simp add: fire_timers_def Let_def)
  ultimately show ?thesis using live by fastforce
qed

lemma destroy_active: "dget (fm_active (lc_destroy aid f)) a = Some e \<Longrightarrow> dget (fm_active f) a = Some e"
  by (auto simp: lc_destroy_def split: option.splits if_splits)

lemma destroy_fold:
  "length (fm_objs (fold (\<lambda>(aid, t). lc_destroy aid) due f)) = length (fm_objs f)"
  "dget (fm_active (fold (\<lambda>(aid, t). lc_destroy aid) due f)) a = Some e \<Longrightarrow> dget (fm_active f) a = Some e"
  by (induction due arbitrary: f) (auto dest: destroy_active)

lemma fire_objs: "length (fm_objs (fire_timers t f)) = length (fm_objs f)"
  by (simp add: fire_timers_def Let_def destroy_fold(1))

lemma fire_active: "dget (fm_active (fire_timers t f)) a = Some e \<Longrightarrow> dget (fm_active f) a = Some e"
  using destroy_fold(2) by (fastforce simp: fire_timers_def Let_def)

section \<open>Creating agents\<close>

definition born :: "(nat \<Rightarrow> string) \<Rightarrow> real \<Rightarrow> real \<Rightarrow> string \<Rightarrow> farm \<Rightarrow> farm" where
  "born hx now ttl sensor f =
     (let k = length (fm_objs f); aid = sensor @ ''-agent-'' @ hx k in
      f\<lparr>fm_objs := fm_objs f @ [\<lparr>ag_id = aid, ag_role = ''sensor'', ag_sensor = sensor, ag_report = ''orchestrator'', ag_running = True\<rparr>],
        fm_bus := mb_subscribe aid (fm_bus f),
        fm_active := dset aid \<lparr>lc_obj = k, lc_started = now, lc_status = ''running''\<rparr> (fm_active f),
        fm_timers := fm_timers f @ [(aid, now + ttl)], fm_created := fm_created f + 1\<rparr>)"

lemma sensor_templates: "dget AGENT_TEMPLATES s = Some ''SensorAgent'' \<longleftrightarrow> s \<in> set SENSOR_TYPES"
  by (auto simp: AGENT_TEMPLATES_def SENSOR_TYPES_def)

lemma create_one_cases:
  "create_one hx now ttl v f =
     (if is_list v \<or> is_dict v then (Inl TypeError, f)
      else case v of PStr s \<Rightarrow>
          if s \<in> set SENSOR_TYPES then (Inr [length (fm_objs f)], born hx now ttl s f) else (Inr [], f)
        | _ \<Rightarrow> (Inr [], f))"
proof (cases v)
  case (PStr s)
  show ?thesis
  proof (cases "s \<in> set SENSOR_TYPES")
    case True
    then have t: "dget AGENT_TEMPLATES s = Some ''SensorAgent''" by (simp add: sensor_templates)
    show ?thesis
      using True by (simp add: PStr create_one_def get_template_def t sx_defs new_sensor_agent_def lc_spawn_def agent_start_def
          auto_destroy_after_def set_running_def born_def Let_def)
  next
    case False
    then show ?thesis using sensor_templates[of s]
      by (auto simp: PStr create_one_def get_template_def sx_defs split: option.split)
  qed
qed (simp_all add: create_one_def get_template_def sx_defs hkey_def split: option.split)

lemma born_inv:
  assumes "farm_inv hx now f" and "inj_on hx {..<Suc (length (fm_objs f))}" and "sensor \<in> set SENSOR_TYPES" and "ttl \<le> 60"
  shows "farm_inv hx now (born hx now ttl sensor f)"
proof -
  let ?k = "length (fm_objs f)" and ?g = "born hx now ttl sensor f"
  let ?aid = "sensor @ ''-agent-'' @ hx ?k"
  have n: "named_ok hx f" and r: "registry_ok now f" and t: "timers_ok f" and c: "fm_created f = ?k"
    using assms(1) by (simp_all add: farm_inv_def)
  have fresh: "ag_id (fm_objs f ! j) \<noteq> ?aid" if h: "j < ?k" for j
  proof
    assume "ag_id (fm_objs f ! j) = ?aid"
    then have "hx j = hx ?k" using n h agent_ids_differ assms(3) unfolding named_ok_def by metis
    then show False using assms(2) h by (simp add: inj_on_eq_iff)
  qed
  have nth: "fm_objs ?g ! j = (if j < ?k then fm_objs f ! j else
      \<lparr>ag_id = ?aid, ag_role = ''sensor'', ag_sensor = sensor, ag_report = ''orchestrator'', ag_running = True\<rparr>)" if h: "j < Suc ?k" for j
    using h by (simp add: born_def Let_def nth_append)
  have len: "length (fm_objs ?g) = Suc ?k" by (simp add: born_def Let_def)
  have act: "dget (fm_active ?g) a = (if a = ?aid then Some \<lparr>lc_obj = ?k, lc_started = now, lc_status = ''running''\<rparr> else dget (fm_active f) a)" for a
    by (simp add: born_def Let_def)
  have q: "din i (mb_queues (fm_bus ?g)) \<longleftrightarrow> i = ?aid \<or> din i (mb_queues (fm_bus f))" for i
    by (auto simp: born_def Let_def mb_subscribe_def din_def)
  have "named_ok hx ?g"
    unfolding named_ok_def len
  proof (intro allI impI)
    fix j assume h: "j < Suc ?k"
    show "ag_sensor (fm_objs ?g ! j) \<in> set SENSOR_TYPES \<and> ag_id (fm_objs ?g ! j) = ag_sensor (fm_objs ?g ! j) @ ''-agent-'' @ hx j \<and>
        din (ag_id (fm_objs ?g ! j)) (mb_queues (fm_bus ?g))"
    proof (cases "j < ?k")
      case True
      then have "fm_objs ?g ! j = fm_objs f ! j" using nth[OF h] by simp
      then show ?thesis using n True q[of "ag_id (fm_objs f ! j)"] unfolding named_ok_def by metis
    next
      case False
      then have "j = ?k" using h by simp
      then show ?thesis using nth[OF h] q assms(3) by simp
    qed
  qed
  moreover have "registry_ok now ?g"
    unfolding registry_ok_def len
  proof (intro conjI allI impI)
    fix a e assume "dget (fm_active ?g) a = Some e"
    then have "a = ?aid \<and> lc_obj e = ?k \<and> lc_started e = now \<and> lc_status e = ''running'' \<or> a \<noteq> ?aid \<and> dget (fm_active f) a = Some e"
      by (auto simp: act split: if_splits)
    then show "lc_obj e < Suc ?k" "ag_id (fm_objs ?g ! lc_obj e) = a" "ag_running (fm_objs ?g ! lc_obj e)" "lc_started e \<le> now"
        "lc_status e = ''running''"
      using r nth[of "lc_obj e"] by (auto simp: registry_ok_def less_Suc_eq)
  next
    fix j assume h: "j < Suc ?k" "ag_running (fm_objs ?g ! j)"
    show "\<exists>e. dget (fm_active ?g) (ag_id (fm_objs ?g ! j)) = Some e \<and> lc_obj e = j"
      using r nth[OF h(1)] h fresh[of j] unfolding act by (auto simp: registry_ok_def less_Suc_eq)
  qed (use r in \<open>simp add: born_def Let_def registry_ok_def dict_inv\<close>)
  moreover have "timers_ok ?g"
    using t assms(4) unfolding timers_ok_def act by (fastforce simp: born_def Let_def split: if_splits)
  moreover have "fm_created ?g = length (fm_objs ?g)" by (simp add: born_def Let_def c)
  ultimately show ?thesis by (simp add: farm_inv_def)
qed

text \<open>While the six digits do not repeat, the invariant holds.\<close>

definition farm_safe :: "(nat \<Rightarrow> string) \<Rightarrow> real \<Rightarrow> farm \<Rightarrow> bool" where
  "farm_safe hx now f \<longleftrightarrow> (inj_on hx {..<length (fm_objs f)} \<longrightarrow> farm_inv hx now f)"

lemma born_safe: "farm_safe hx now f \<Longrightarrow> sensor \<in> set SENSOR_TYPES \<Longrightarrow> ttl \<le> 60 \<Longrightarrow> farm_safe hx now (born hx now ttl sensor f)"
proof -
  assume a: "farm_safe hx now f" "sensor \<in> set SENSOR_TYPES" "ttl \<le> 60"
  have "length (fm_objs (born hx now ttl sensor f)) = Suc (length (fm_objs f))" by (simp add: born_def Let_def)
  moreover have "inj_on hx {..<length (fm_objs f)}" if h: "inj_on hx {..<Suc (length (fm_objs f))}"
    by (rule inj_on_subset[OF h]) auto
  ultimately show ?thesis using a born_inv[OF _ _ a(2,3)] unfolding farm_safe_def by simp
qed

lemma create_one_keeps: "ttl \<le> 60 \<Longrightarrow> sx_keeps (farm_safe hx now) (create_one hx now ttl v)"
  unfolding sx_keeps_def create_one_cases by (auto simp: born_safe split: pyval.split)

lemma create_all_keeps: "ttl \<le> 60 \<Longrightarrow> sx_keeps (farm_safe hx now) (create_all hx now ttl vs)"
  by (induction vs) (auto intro!: inv_intros create_one_keeps)

lemma create_from_intent_keeps: "sx_keeps (farm_safe hx now) (create_from_intent hx now intent)"
  unfolding create_from_intent_def Let_def by (intro inv_intros create_all_keeps) auto

lemma fire_safe: "farm_safe hx now f \<Longrightarrow> now \<le> t \<Longrightarrow> farm_safe hx t (fire_timers t f)"
  using fire_inv[of hx now f t] by (auto simp: farm_safe_def fire_objs)

section \<open>What an intent creates\<close>

definition grown :: "farm \<Rightarrow> farm \<Rightarrow> bool" where
  "grown f f' \<longleftrightarrow> (\<exists>new. fm_objs f' = fm_objs f @ new \<and> list_all ag_running new)"

lemma grown_refl: "grown f f" by (simp add: grown_def)

lemma grown_trans: "grown f g \<Longrightarrow> grown g h \<Longrightarrow> grown f h"
  unfolding grown_def by fastforce

lemma grown_born: "grown f (born hx now ttl sensor f)"
  by (simp add: grown_def born_def Let_def)

lemma create_one_grows: "grown f (snd (create_one hx now ttl v f))"
  unfolding create_one_cases by (auto simp: grown_born grown_refl split: pyval.split)

lemma create_all_grows: "grown f (snd (create_all hx now ttl vs f))"
proof (induction vs arbitrary: f)
  case (Cons v vs)
  obtain x g where x: "create_one hx now ttl v f = (x, g)" by fastforce
  obtain y h where y: "create_all hx now ttl vs g = (y, h)" by fastforce
  have "grown f g" "grown g h" using create_one_grows[of f hx now ttl v] Cons[of g] x y by simp_all
  then show ?case using grown_trans by (auto simp: sx_defs x y split: sum.split)
qed (simp add: sx_defs grown_refl)

text \<open>The agents an intent asks for: one per entry that names a sensor, in order.\<close>

definition sensors_in :: "pyval list \<Rightarrow> string list" where
  "sensors_in vs = concat (map (\<lambda>v. case v of PStr s \<Rightarrow> if s \<in> set SENSOR_TYPES then [s] else [] | _ \<Rightarrow> []) vs)"

lemma create_all_sensors:
  "create_all hx now ttl vs f = (Inr ks, f') \<Longrightarrow>
    ks = [length (fm_objs f)..<length (fm_objs f')] \<and>
    map ag_sensor (fm_objs f') = map ag_sensor (fm_objs f) @ sensors_in vs"
proof (induction vs arbitrary: f ks)
  case (Cons v vs)
  obtain x g where x: "create_one hx now ttl v f = (x, g)" by fastforce
  then obtain a where a: "x = Inr a" using Cons.prems by (cases x) (auto simp: sx_defs)
  obtain b where b: "create_all hx now ttl vs g = (Inr b, f')" "ks = a @ b"
    using Cons.prems by (auto simp: sx_defs x a split: prod.splits sum.splits)
  note ih = Cons.IH[OF b(1)]
  show ?case
  proof (cases "\<exists>s. v = PStr s \<and> s \<in> set SENSOR_TYPES")
    case True
    then obtain s where s: "v = PStr s" "s \<in> set SENSOR_TYPES" by blast
    then have ag: "a = [length (fm_objs f)]" "g = born hx now ttl s f" using x a by (simp_all add: create_one_cases)
    obtain y where y: "fm_objs (born hx now ttl s f) = fm_objs f @ [y]" "ag_sensor y = s"
      by (simp add: born_def Let_def)
    have g: "length (fm_objs g) = Suc (length (fm_objs f))" "map ag_sensor (fm_objs g) = map ag_sensor (fm_objs f) @ [s]"
      using y by (simp_all add: ag(2))
    have "length (map ag_sensor (fm_objs f')) = length (map ag_sensor (fm_objs g) @ sensors_in vs)" using ih by metis
    then have lt: "length (fm_objs f) < length (fm_objs f')" using g(1) by simp
    have "ks = [length (fm_objs f)..<length (fm_objs f')]"
      using ih b(2) ag(1) g(1) by (simp add: upt_conv_Cons[OF lt])
    moreover have "sensors_in (v # vs) = s # sensors_in vs" using s by (simp add: sensors_in_def)
    ultimately show ?thesis using ih g(2) by simp
  next
    case False
    then have "a = []" "g = f" using x a by (auto simp: create_one_cases split: pyval.splits if_splits)
    moreover have "sensors_in (v # vs) = sensors_in vs" using False by (auto simp: sensors_in_def split: pyval.splits)
    ultimately show ?thesis using ih b(2) by simp
  qed
qed (simp add: sx_defs sensors_in_def)

lemma created_agents:
  assumes "create_from_intent hx now intent f = (Inr ks, f')"
    and "py_iter (dgetd intent ''data_required'' (PList [])) = Inr vs"
  shows "map (\<lambda>k. ag_sensor (fm_objs f' ! k)) ks = sensors_in vs"
    "\<forall>k \<in> set ks. k < length (fm_objs f') \<and> ag_running (fm_objs f' ! k)"
proof -
  obtain ttl where c: "create_all hx now ttl vs f = (Inr ks, f')"
    using assms unfolding create_from_intent_def by (auto simp: sx_defs Let_def)
  let ?n = "length (fm_objs f)"
  note k = create_all_sensors[OF c]
  obtain new where new: "fm_objs f' = fm_objs f @ new" "list_all ag_running new"
    using create_all_grows[of f hx now ttl vs] c by (auto simp: grown_def)
  have m: "map ag_sensor new = sensors_in vs" using k new(1) by simp
  have ks: "ks = map (\<lambda>i. i + ?n) [0..<length new]"
    using k new(1) by (simp add: map_add_upt add.commute)
  then have "map (\<lambda>k. ag_sensor (fm_objs f' ! k)) ks = map (\<lambda>i. map ag_sensor new ! i) [0..<length new]"
    using new(1) by (simp add: comp_def nth_append)
  also have "\<dots> = sensors_in vs" unfolding m[symmetric] by (metis length_map map_nth)
  finally show "map (\<lambda>k. ag_sensor (fm_objs f' ! k)) ks = sensors_in vs" .
  show "\<forall>k \<in> set ks. k < length (fm_objs f') \<and> ag_running (fm_objs f' ! k)"
    using ks new by (auto simp: nth_append list_all_length)
qed

text \<open>A list of sensor names, all known, creates one agent each, with a timer each.\<close>

lemma create_known:
  "set ss \<subseteq> set SENSOR_TYPES \<Longrightarrow>
    \<exists>ks f'. create_all hx now ttl (map PStr ss) f = (Inr ks, f') \<and>
      fm_timers f' = fm_timers f @ map (\<lambda>k. (ag_id (fm_objs f' ! k), now + ttl)) ks \<and>
      (\<exists>new. fm_objs f' = fm_objs f @ new \<and> (\<forall>k \<in> set ks. k < length (fm_objs f')))"
proof (induction ss arbitrary: f)
  case (Cons s ss)
  let ?g = "born hx now ttl s f"
  have o: "create_one hx now ttl (PStr s) f = (Inr [length (fm_objs f)], ?g)" using Cons.prems by (simp add: create_one_cases)
  obtain ks f' new where h: "create_all hx now ttl (map PStr ss) ?g = (Inr ks, f')"
      "fm_timers f' = fm_timers ?g @ map (\<lambda>k. (ag_id (fm_objs f' ! k), now + ttl)) ks"
      "fm_objs f' = fm_objs ?g @ new" "\<forall>k \<in> set ks. k < length (fm_objs f')"
    using Cons.IH[of ?g] Cons.prems by auto
  define y where "y = last (fm_objs ?g)"
  have y: "fm_objs ?g = fm_objs f @ [y]" "fm_timers ?g = fm_timers f @ [(ag_id y, now + ttl)]"
    by (simp_all add: y_def born_def Let_def)
  have "create_all hx now ttl (map PStr (s # ss)) f = (Inr (length (fm_objs f) # ks), f')" by (simp add: sx_defs o h(1))
  moreover have "fm_objs f' ! length (fm_objs f) = y" by (simp add: h(3) y(1) nth_append)
  ultimately show ?case using h(2-4) y by (intro exI conjI) auto
qed (simp add: sx_defs)

section \<open>Runs of the autonomous trigger\<close>

text \<open>
  The steps of the threads, with the clock: a turn of the watch loop over peers of \<open>P\<close>, the timers
  that are due, a turn of an agent.
\<close>

inductive auto_run :: "(nat \<Rightarrow> string) \<Rightarrow> (string list \<Rightarrow> string list) \<Rightarrow> ((string, pyobj) pydict \<Rightarrow> bool) \<Rightarrow>
    real \<times> autot \<Rightarrow> real \<times> autot \<Rightarrow> bool" for hx ord P where
  stay: "auto_run hx ord P c c"
| turn: "auto_run hx ord P c (t, s) \<Longrightarrow> t \<le> t' \<Longrightarrow> P ps \<Longrightarrow> auto_run hx ord P c (t', watch_turn hx ord t' ps s)"
| fire: "auto_run hx ord P c (t, s) \<Longrightarrow> t \<le> t' \<Longrightarrow> auto_run hx ord P c (t', s\<lparr>at_farm := fire_timers t' (at_farm s)\<rparr>)"
| tick: "auto_run hx ord P c (t, s) \<Longrightarrow> t \<le> t' \<Longrightarrow> auto_run hx ord P c (t', s\<lparr>at_farm := agent_tick t' uid k reading (at_farm s)\<rparr>)"

inductive_cases auto_runE: "auto_run hx ord P c c'"

definition new_auto :: autot where "new_auto = \<lparr>at_known = [], at_farm = new_farm\<rparr>"

lemma farm_safe_mono: "farm_safe hx now f \<Longrightarrow> now \<le> t \<Longrightarrow> farm_safe hx t f"
  by (auto simp: farm_safe_def farm_inv_def registry_mono)

lemma publish_keeps_queues: "din i (mb_queues (snd (mb_publish now to m sender b))) = din i (mb_queues b)"
  by (auto simp: mb_publish_def din_def Let_def split: option.split)

lemma tick_keeps:
  "fm_objs (agent_tick t uid k reading f) = fm_objs f" "fm_active (agent_tick t uid k reading f) = fm_active f"
  "fm_timers (agent_tick t uid k reading f) = fm_timers f" "fm_created (agent_tick t uid k reading f) = fm_created f"
  "din i (mb_queues (fm_bus (agent_tick t uid k reading f))) = din i (mb_queues (fm_bus f))"
  by (simp_all add: agent_tick_def Let_def publish_keeps_queues)

lemma tick_safe: "farm_safe hx now f \<Longrightarrow> farm_safe hx now (agent_tick t uid k reading f)"
  unfolding farm_safe_def farm_inv_def named_ok_def registry_ok_def timers_ok_def tick_keeps by assumption

lemma keeps_on_farm: "sx_keeps (farm_safe hx now) m \<Longrightarrow> sx_keeps (\<lambda>s. farm_safe hx now (at_farm s)) (on_farm m)"
  by (auto simp: sx_keeps_def on_farm_def split: prod.split)

lemma join_keeps: "sx_keeps (\<lambda>s. farm_safe hx now (at_farm s)) (on_device_join hx now info)"
  unfolding on_device_join_def Let_def by (intro inv_intros keeps_on_farm create_from_intent_keeps)

lemma watch_keeps: "sx_keeps (\<lambda>s. farm_safe hx now (at_farm s)) (watch hx ord now current)"
  unfolding watch_def on_device_leave_def by (intro inv_intros join_keeps) auto

lemma auto_run_safe:
  assumes "auto_run hx ord P c c'"
  shows "farm_safe hx (fst c) (at_farm (snd c)) \<Longrightarrow> fst c \<le> fst c' \<and> farm_safe hx (fst c') (at_farm (snd c'))"
  using assms
proof (induction rule: auto_run.induct)
  case (turn c t s t' ps)
  have "farm_safe hx t' (at_farm s)" "fst c \<le> t'" using turn farm_safe_mono[of hx t "at_farm s" t'] by auto
  then show ?case using sx_keepsD[OF watch_keeps, of hx t' s] by (simp add: watch_turn_def)
next
  case (fire c t s t')
  then show ?case using fire_safe[of hx t "at_farm s" t'] by auto
next
  case (tick c t s t' uid k reading)
  then show ?case using farm_safe_mono[of hx t "at_farm s" t'] by (auto simp: tick_safe)
qed simp

lemma new_farm_safe: "farm_safe hx t new_farm"
  by (simp add: farm_safe_def farm_inv_def new_farm_def named_ok_def registry_ok_def timers_ok_def)

text \<open>The peers stay the same: nothing is created.\<close>

lemma quiet_watch:
  assumes "\<And>xs. set (ord xs) = set xs" and "set (dkeys ps) = set (dkeys (at_known s))"
  shows "watch_turn hx ord now ps s = s"
proof -
  have "ord [] = []" using assms(1)[of "[]"] by simp
  moreover have "filter (\<lambda>pid. pid \<notin> set (dkeys (at_known s))) (dkeys ps) = []" "filter (\<lambda>pid. pid \<notin> set (dkeys ps)) (dkeys (at_known s)) = []"
    using assms(2) by (auto simp: filter_empty_conv)
  ultimately show ?thesis by (simp add: watch_turn_def watch_def sx_defs)
qed

definition started_by :: "real \<Rightarrow> farm \<Rightarrow> bool" where
  "started_by t0 f \<longleftrightarrow> (\<forall>a e. dget (fm_active f) a = Some e \<longrightarrow> lc_started e \<le> t0)"

lemma quiet_run:
  assumes "auto_run hx ord (\<lambda>ps. set (dkeys ps) = set ids) c c'" and "\<And>xs. set (ord xs) = set xs"
  shows "set (dkeys (at_known (snd c))) = set ids \<Longrightarrow> started_by t0 (at_farm (snd c)) \<Longrightarrow>
    at_known (snd c') = at_known (snd c) \<and> started_by t0 (at_farm (snd c')) \<and>
    length (fm_objs (at_farm (snd c'))) = length (fm_objs (at_farm (snd c)))"
  using assms(1)
proof (induction rule: auto_run.induct)
  case (turn c t s t' ps)
  then show ?case using quiet_watch[OF assms(2), of ps s hx t'] by simp
next
  case (fire c t s t')
  then show ?case using fire_active[of t' "at_farm s"] unfolding started_by_def snd_conv by (simp add: fire_objs, blast)
next
  case (tick c t s t' uid k reading)
  then show ?case by (simp add: started_by_def tick_keeps)
qed simp

section \<open>A concrete device\<close>

definition sample_hx :: "nat \<Rightarrow> string" where "sample_hx n = replicate n (CHR ''x'')"

definition sample_auto :: autot where
  "sample_auto = watch_turn sample_hx (\<lambda>xs. xs) 0 [(''p'', [(''roles'', PList [PStr ''worker''])])] new_auto"

lemma sample_inj: "inj_on sample_hx A"
  by (simp add: inj_on_def sample_hx_def)

lemma sample_run: "auto_run sample_hx (\<lambda>xs. xs) (\<lambda>_. True) (0, new_auto) (0, sample_auto)"
  unfolding sample_auto_def by (rule auto_run.turn[OF auto_run.stay]) simp_all

section \<open>Properties\<close>

text \<open>
  C15. In every run of the autonomous trigger, with any peers and any order of its threads, as long as
  the random digits of the agents' ids do not repeat, the registry of the lifecycle holds exactly the
  running agents, the counter of the factory is the number of agents ever made, and every one of them
  still owns a queue on the message bus, running or not.
\<close>
theorem registry_is_running:
  assumes "auto_run hx ord (\<lambda>_. True) (0, new_auto) (t, s)" and "inj_on hx {..<length (fm_objs (at_farm s))}"
  defines "f \<equiv> at_farm s"
  shows "distinct (dkeys (fm_active f)) \<and>
    {k. k < length (fm_objs f) \<and> ag_running (fm_objs f ! k)} = lc_obj ` set (dvals (fm_active f)) \<and>
    fm_created f = length (fm_objs f) \<and>
    (\<forall>k < length (fm_objs f). din (ag_id (fm_objs f ! k)) (mb_queues (fm_bus f)))"
proof -
  have i: "farm_inv hx t f"
    using auto_run_safe[OF assms(1)] assms(2) new_farm_safe[of hx 0] by (simp add: new_auto_def f_def farm_safe_def)
  then have d: "distinct (dkeys (fm_active f))" by (simp add: farm_inv_def registry_ok_def)
  have "{k. k < length (fm_objs f) \<and> ag_running (fm_objs f ! k)} = {k. \<exists>a e. dget (fm_active f) a = Some e \<and> lc_obj e = k}"
    using i unfolding farm_inv_def registry_ok_def by blast
  also have "\<dots> = lc_obj ` set (dvals (fm_active f))"
    using map_of_eq_Some_iff[OF d] by (force simp: image_iff)
  finally show ?thesis using i d unfolding farm_inv_def named_ok_def by blast
qed

lemma registry_is_running_witness:
  "{k. k < length (fm_objs (at_farm sample_auto)) \<and> ag_running (fm_objs (at_farm sample_auto) ! k)} =
     lc_obj ` set (dvals (fm_active (at_farm sample_auto)))"
  using registry_is_running[OF sample_run sample_inj] by blast

text \<open>
  The swarm goes blind: when from some moment on the set of connected devices does not change,
  then after sixty seconds the timers have stopped every agent, although all devices are still known and
  connected, and no turn of the watch loop starts another one.
\<close>
theorem swarm_goes_blind:
  assumes "auto_run hx ord (\<lambda>_. True) (0, new_auto) (t0, s0)"
    and "inj_on hx {..<length (fm_objs (at_farm s0))}" and "\<And>xs. set (ord xs) = set xs"
    and "auto_run hx ord (\<lambda>ps. set (dkeys ps) = set (dkeys (at_known s0))) (t0, s0) (t, s)"
    and "t0 + 60 \<le> t" and "set (dkeys ps) = set (dkeys (at_known s0))"
  defines "f \<equiv> fire_timers t (at_farm s)"
  shows "fm_active f = [] \<and> (\<forall>a \<in> set (fm_objs f). \<not> ag_running a) \<and> at_known s = at_known s0 \<and> watch_turn hx ord t ps s = s"
proof -
  have s0: "farm_safe hx t0 (at_farm s0)"
    using auto_run_safe[OF assms(1)] new_farm_safe[of hx 0] by (simp add: new_auto_def)
  then have "started_by t0 (at_farm s0)"
    using assms(2) unfolding started_by_def farm_safe_def farm_inv_def registry_ok_def by blast
  then have k: "at_known s = at_known s0" "started_by t0 (at_farm s)" "length (fm_objs (at_farm s)) = length (fm_objs (at_farm s0))"
    using quiet_run[OF assms(4,3)] by simp_all
  have "farm_inv hx t (at_farm s)" using auto_run_safe[OF assms(4)] s0 assms(2) k(3) by (simp add: farm_safe_def)
  note f = fire_inv[OF this assms(2)[folded k(3)] order_refl, folded f_def]
  have none: "dget (fm_active f) a = None" for a
    using f k(2) assms(5) by (cases "dget (fm_active f) a") (auto simp: started_by_def, fastforce)
  then have "fm_active f = []" by (cases "fm_active f") (auto, metis option.distinct(1))
  moreover have "\<forall>a \<in> set (fm_objs f). \<not> ag_running a"
    using f none unfolding farm_inv_def registry_ok_def by (metis in_set_conv_nth option.distinct(1))
  moreover have "watch_turn hx ord t ps s = s" using assms(6) k(1) by (intro quiet_watch[OF assms(3)]) simp
  ultimately show ?thesis using k(1) by simp
qed


lemma swarm_goes_blind_witness:
  "fm_active (fire_timers 60 (at_farm (sample_auto\<lparr>at_farm := fire_timers 60 (at_farm sample_auto)\<rparr>))) = []"
  using swarm_goes_blind[OF sample_run sample_inj _ auto_run.fire[OF auto_run.stay], of 60 "at_known sample_auto"] by simp

end
