(* ===== verification/Orchestrator.thy ===== *)
theory Orchestrator
  imports Intent Agents Pipeline
begin

text \<open>
  One run of \<open>core/orchestrator.py\<close>: agents are created for an intent, their readings collected from
  the message bus until there are enough, the machine learning pipeline run over the latest ones and
  the decision agent started.  The polls of the collection loop are an argument: each has the elapsed
  time at its start and after the receive, and what the agents did in between.  Names of required
  sensors are strings.  Printing a reading can raise, so it is part of the model.
\<close>

section \<open>State and input\<close>

record orch =
  or_farm :: farm
  or_window :: "pyobj list"
  or_got :: "(string, pyval list) pydict"
  or_saved :: "(string \<times> pyobj) list"
  or_predictions :: "pyobj list"

text \<open>What an agent does between two polls: a turn at some time with a fresh event id and a reading.\<close>

type_synonym agent_turn = "real \<times> string \<times> nat \<times> pyobj"

record poll =
  po_start :: real
  po_elapsed :: real
  po_turns :: "agent_turn list"

record orch_input =
  oi_now :: real
  oi_hx :: "nat \<Rightarrow> string"
  oi_iso :: string
  oi_me :: string
  oi_parse :: "string \<Rightarrow> real result"
  oi_known :: ranking
  oi_wire :: wire
  oi_env :: env
  oi_finished :: "string list"
  oi_polls :: "poll list"
  oi_llm :: "pyval option"
  oi_remote :: "pyobj list"

definition TARGET_PER_SENSOR :: nat where "TARGET_PER_SENSOR = 3"
definition MAX_WAIT :: real where "MAX_WAIT = 10"
definition MIN_WAIT :: real where "MIN_WAIT = 3"

section \<open>Collecting\<close>

text \<open>\<open>_print_reading\<close>: the fields it prints must exist.\<close>

definition print_reading :: "string \<Rightarrow> pyval \<Rightarrow> unit result" where
  "print_reading sensor dat =
     (let need = (\<lambda>k. pindex dat k) in
      if sensor = ''attendance'' then bindE (need ''count'') (\<lambda>_. bindE (need ''status'') (\<lambda>_. Inr ()))
      else if sensor = ''temperature'' then bindE (need ''celsius'') (\<lambda>_. bindE (need ''humidity_pct'') (\<lambda>_. Inr ()))
      else if sensor = ''materials'' then bindE (need ''qty'') (\<lambda>_. bindE (need ''unit'') (\<lambda>_. bindE (need ''item'') (\<lambda>_. Inr ())))
      else Inr ())"

definition total_got :: "(string, pyval list) pydict \<Rightarrow> nat" where
  "total_got c = sum_list (map length (dvals c))"

text \<open>A reading for a required sensor is kept, printed and saved, in this order.\<close>

definition take_reading :: "pyobj \<Rightarrow> (orch, unit) sx" where
  "take_reading d =
     sx_bind (sx_lift (hkey (oget d ''sensor''))) (\<lambda>k.
     sx_bind (sx_get or_got) (\<lambda>c. case k of
       PStr sensor \<Rightarrow>
         if din sensor c then
           sx_then (sx_modify (\<lambda>s. s\<lparr>or_got := dset sensor (dgetd c sensor [] @ [PDict d]) c\<rparr>))
          (sx_then (sx_lift (print_reading sensor (PDict d)))
           (sx_modify (\<lambda>s. s\<lparr>or_saved := or_saved s @ [(sensor, d)]\<rparr>)))
         else sx_return ()
     | _ \<Rightarrow> sx_return ()))"

definition take_message :: "pyval \<Rightarrow> (orch, unit) sx" where
  "take_message payload =
     sx_bind (sx_lift (pget payload ''type'' PNone)) (\<lambda>ty.
     if ty \<noteq> PStr ''sensor_reading'' then sx_return ()
     else sx_bind (sx_lift (pget payload ''data'' (PDict []))) (\<lambda>v. case v of
         PDict d \<Rightarrow> take_reading d | _ \<Rightarrow> sx_raise AttributeError))"

definition run_turns :: "agent_turn list \<Rightarrow> orch \<Rightarrow> orch" where
  "run_turns ts s = s\<lparr>or_farm := fold (\<lambda>(now, uid, k, reading). agent_tick now uid k reading) ts (or_farm s)\<rparr>"

definition receive :: "(orch, bus_entry option) sx" where
  "receive s = (case mb_receive ''orchestrator'' (fm_bus (or_farm s)) of
     (m, b) \<Rightarrow> (Inr m, s\<lparr>or_farm := (or_farm s)\<lparr>fm_bus := b\<rparr>\<rparr>))"

text \<open>The loop: the number of polls that were made.\<close>

fun collect_loop :: "nat \<Rightarrow> poll list \<Rightarrow> (orch, nat) sx" where
  "collect_loop target [] = sx_return 0"
| "collect_loop target (p # ps) =
     (if \<not> po_start p < MAX_WAIT then sx_return 0
      else
        sx_then (sx_modify (run_turns (po_turns p)))
       (sx_bind receive (\<lambda>m.
        sx_then (case m of None \<Rightarrow> sx_return () | Some e \<Rightarrow> take_message (be_message e))
       (sx_bind (sx_get (\<lambda>s. total_got (or_got s))) (\<lambda>n.
        if po_elapsed p \<ge> MIN_WAIT \<and> n \<ge> target then sx_return 1
        else sx_bind (collect_loop target ps) (\<lambda>k. sx_return (Suc k)))))))"

section \<open>The run\<close>

definition on_or_farm :: "(farm, 'a) sx \<Rightarrow> (orch, 'a) sx" where
  "on_or_farm m s = (case m (or_farm s) of (r, f) \<Rightarrow> (r, s\<lparr>or_farm := f\<rparr>))"

definition stop_agents :: "nat list \<Rightarrow> orch \<Rightarrow> orch" where
  "stop_agents ks s = s\<lparr>or_farm := fold agent_stop ks (or_farm s)\<rparr>"

text \<open>The LLM's intent, when it has arrived, replaces the keyword intent and adds empty sensors.\<close>

definition upgrade_intent :: "pyval option \<Rightarrow> pyobj \<Rightarrow> (orch, pyobj) sx" where
  "upgrade_intent llm intent = (case llm of
      None \<Rightarrow> sx_return intent
    | Some (PDict i) \<Rightarrow>
        sx_bind (sx_lift (bindE (py_iter (dgetd i ''data_required'' (PList []))) (mapE node_name))) (\<lambda>ss.
        sx_then (sx_modify (\<lambda>s. s\<lparr>or_got := fold (\<lambda>x c. dsetdefault x [] c) ss (or_got s)\<rparr>)) (sx_return i))
    | Some _ \<Rightarrow> sx_raise AttributeError)"

definition feed_window :: "orch \<Rightarrow> orch" where
  "feed_window s = s\<lparr>or_window := fold (\<lambda>v w. case v of PDict d \<Rightarrow> sb_add 50 d w | _ \<Rightarrow> w) (concat (dvals (or_got s))) (or_window s)\<rparr>"

definition take_remote :: "pyobj \<Rightarrow> (orch, unit) sx" where
  "take_remote r =
     (let st = oget r ''sensor_type''; d = dgetd r ''data'' (PDict []) in
      if \<not> truthy st then sx_return ()
      else sx_bind (sx_lift (node_name st)) (\<lambda>sensor.
           sx_then (sx_modify (\<lambda>s. s\<lparr>or_got := dset sensor (dgetd (or_got s) sensor [] @ [d]) (or_got s)\<rparr>))
             (sx_lift (print_reading sensor d))))"

definition summary_entry :: "pyval list \<Rightarrow> pyval" where
  "summary_entry rs = PDict [(''count'', PInt (int (length rs))), (''latest'', if rs = [] then PNone else last rs)]"

definition summary_of :: "(string, pyval list) pydict \<Rightarrow> pyobj" where
  "summary_of c = map (\<lambda>(s, rs). (s, summary_entry rs)) c"

text \<open>\<open>latest_readings.update(latest)\<close> for every sensor: one flat dictionary.\<close>

definition merge_latest :: "(string, pyval list) pydict \<Rightarrow> pyobj result" where
  "merge_latest c = foldE (\<lambda>(s, rs) acc.
     (let latest = (if rs = [] then PNone else last rs) in
      if \<not> truthy latest then Inr acc
      else case latest of PDict d \<Rightarrow> Inr (fold (\<lambda>(k, v). dset k v) d acc) | _ \<Rightarrow> Inl TypeError)) c []"

definition ml_pipeline :: "orch_input \<Rightarrow> pyobj \<Rightarrow> (orch, pyobj) sx" where
  "ml_pipeline oi latest =
     (if latest = [] then sx_return []
      else
        sx_bind (sx_get or_window) (\<lambda>window.
        sx_bind (sx_lift (decompose (oi_parse oi) (oi_me oi) (oi_known oi))) (\<lambda>plan.
        sx_bind (sx_lift (assemble (oi_iso oi)
           (execute (oi_wire oi) (oi_env oi) (oi_finished oi) plan (PDict latest) (PList (map PDict window))))) (\<lambda>(final, line).
        sx_then (sx_modify (\<lambda>s. s\<lparr>or_predictions := or_predictions s @ [final]\<rparr>)) (sx_return final)))))"

record orch_result =
  rs_summary :: pyobj
  rs_final :: pyobj
  rs_decision_input :: pyobj
  rs_goal :: pyval
  rs_agents :: "nat list"
  rs_polls :: nat

definition run_intent :: "orch_input \<Rightarrow> pyobj \<Rightarrow> (orch, orch_result) sx" where
  "run_intent oi intent =
     sx_bind (sx_lift (bindE (py_iter (dgetd intent ''data_required'' (PList []))) (mapE node_name))) (\<lambda>sensors.
     sx_then (sx_modify (\<lambda>s. s\<lparr>or_farm := (or_farm s)\<lparr>fm_bus := mb_subscribe ''orchestrator'' (fm_bus (or_farm s))\<rparr>\<rparr>))
    (sx_bind (on_or_farm (create_from_intent (oi_hx oi) (oi_now oi) intent)) (\<lambda>agents.
     sx_then (sx_modify (\<lambda>s. s\<lparr>or_got := fold (\<lambda>x. dset x []) sensors []\<rparr>))
    (sx_bind (collect_loop (max (length sensors * TARGET_PER_SENSOR) 1) (oi_polls oi)) (\<lambda>polls.
     sx_then (sx_modify (stop_agents agents))
    (sx_bind (upgrade_intent (oi_llm oi) intent) (\<lambda>intent'.
     sx_then (sx_modify feed_window)
    (sx_then (sx_iter take_remote (oi_remote oi))
    (sx_bind (sx_get or_got) (\<lambda>c.
     sx_bind (sx_lift (merge_latest c)) (\<lambda>latest.
     sx_bind (ml_pipeline oi latest) (\<lambda>final.
     sx_return \<lparr>rs_summary = summary_of c, rs_final = final,
       rs_decision_input = (if final \<noteq> [] then final else summary_of c),
       rs_goal = dgetd intent' ''goal'' (PStr ''site_check''), rs_agents = agents, rs_polls = polls\<rparr>))))))))))))"

text \<open>The thread started at the end: the assessment, and the actions, whose exceptions are printed.\<close>

definition run_decision :: "(pyobj \<Rightarrow> string \<Rightarrow> pyval result) \<Rightarrow> (pyobj \<Rightarrow> string) \<Rightarrow> string \<Rightarrow> string \<Rightarrow> orch_result \<Rightarrow> agent_io \<Rightarrow>
    pyval \<times> pyobj option \<times> agent_io" where
  "run_decision ask tostr ts clk r io =
     (let d = make_decision ask tostr (rs_decision_input r) (py_str (\<lambda>_. []) (rs_goal r)) in
      case act ts clk (rs_decision_input r) (rs_summary r) io of
        (Inl e, io') \<Rightarrow> (d, None, io')
      | (Inr actions, io') \<Rightarrow> (d, Some (act_result ts clk (rs_decision_input r) actions), io'))"

section \<open>Only the agents and timers touch the registry\<close>

text \<open>\<open>same_agents O A s\<close>: the objects are \<open>O\<close> and the registry is \<open>A\<close>.\<close>

definition same_agents :: "agent list \<Rightarrow> (string, lc_entry) pydict \<Rightarrow> orch \<Rightarrow> bool" where
  "same_agents objs reg s \<longleftrightarrow> fm_objs (or_farm s) = objs \<and> fm_active (or_farm s) = reg"

lemma same_agents_other:
  "sx_keeps (same_agents objs reg) (sx_modify (\<lambda>s. s\<lparr>or_got := f s\<rparr>))"
  "sx_keeps (same_agents objs reg) (sx_modify (\<lambda>s. s\<lparr>or_saved := g s\<rparr>))"
  "sx_keeps (same_agents objs reg) (sx_modify (\<lambda>s. s\<lparr>or_predictions := h s\<rparr>))"
  "sx_keeps (same_agents objs reg) (sx_modify feed_window)"
  by (simp_all add: sx_keeps_def sx_modify_def same_agents_def feed_window_def)

lemma same_agents_receive: "sx_keeps (same_agents objs reg) receive"
  by (simp add: sx_keeps_def receive_def same_agents_def split: prod.split)

lemma fold_ticks:
  "fm_objs (fold (\<lambda>(now, uid, k, reading). agent_tick now uid k reading) ts f) = fm_objs f"
  "fm_active (fold (\<lambda>(now, uid, k, reading). agent_tick now uid k reading) ts f) = fm_active f"
  by (induction ts arbitrary: f) (auto simp: tick_keeps)

lemma same_agents_turns: "sx_keeps (same_agents objs reg) (sx_modify (run_turns ts))"
  by (simp add: sx_keeps_def sx_modify_def run_turns_def same_agents_def fold_ticks)

lemma same_agents_message: "sx_keeps (same_agents objs reg) (take_message payload)"
  unfolding take_message_def take_reading_def
  by (intro inv_intros same_agents_other | simp add: inv_intros same_agents_other split: pyval.split)+

lemma same_agents_collect: "sx_keeps (same_agents objs reg) (collect_loop target ps)"
proof (induction ps)
  case (Cons p ps)
  show ?case unfolding collect_loop.simps
    by (intro inv_intros same_agents_turns same_agents_receive Cons)
      (simp add: same_agents_message inv_intros split: option.split)
qed (simp add: inv_intros)

lemma same_agents_upgrade: "sx_keeps (same_agents objs reg) (upgrade_intent llm intent)"
  unfolding upgrade_intent_def
  by (auto intro!: inv_intros same_agents_other split: option.split pyval.split)

lemma same_agents_remote: "sx_keeps (same_agents objs reg) (take_remote r)"
  unfolding take_remote_def Let_def by (intro inv_intros same_agents_other)

lemma same_agents_ml: "sx_keeps (same_agents objs reg) (ml_pipeline oi latest)"
  unfolding ml_pipeline_def
  by (auto intro!: inv_intros same_agents_other split: prod.split)

definition stopped :: "nat list \<Rightarrow> agent list \<Rightarrow> agent list" where
  "stopped ks objs = fold (\<lambda>k os. os[k := (os ! k)\<lparr>ag_running := False\<rparr>]) ks objs"

lemma stop_many:
  "fm_objs (fold agent_stop ks f) = stopped ks (fm_objs f) \<and> fm_active (fold agent_stop ks f) = fm_active f"
  unfolding stopped_def by (induction ks arbitrary: f) (simp_all add: agent_stop_def set_running_def)

lemma stopped_nth:
  "j < length objs \<Longrightarrow> stopped ks objs ! j = (if j \<in> set ks then (objs ! j)\<lparr>ag_running := False\<rparr> else objs ! j)"
proof (induction ks arbitrary: objs)
  case (Cons k ks)
  let ?objs = "objs[k := (objs ! k)\<lparr>ag_running := False\<rparr>]"
  have "?objs ! j = (if j = k then (objs ! j)\<lparr>ag_running := False\<rparr> else objs ! j)" using Cons.prems by auto
  then show ?case using Cons.IH[of ?objs] Cons.prems by (cases "j = k") (simp_all add: stopped_def)
qed (simp add: stopped_def)

lemma length_stopped [simp]: "length (stopped ks objs) = length objs"
  unfolding stopped_def by (induction ks arbitrary: objs) simp_all

lemma same_agents_stop:
  "sx_triple (same_agents objs reg) (sx_modify (stop_agents ks)) (\<lambda>_. same_agents (stopped ks objs) reg) (\<lambda>_. True)"
  by (intro sx_triple_modify) (simp add: same_agents_def stop_agents_def stop_many)

lemma keeps_triple: "sx_keeps P m \<Longrightarrow> sx_triple P m (\<lambda>_. P) (\<lambda>_. True)"
  by (auto simp: sx_keeps_def sx_triple_def split: prod.split sum.split)

text \<open>What a run that returns does to the agents.\<close>

lemma run_intent_farm:
  assumes "run_intent oi intent s = (Inr r, s')"
  shows "\<exists>f1. create_from_intent (oi_hx oi) (oi_now oi) intent
      ((or_farm s)\<lparr>fm_bus := mb_subscribe ''orchestrator'' (fm_bus (or_farm s))\<rparr>) = (Inr (rs_agents r), f1) \<and>
    same_agents (stopped (rs_agents r) (fm_objs f1)) (fm_active f1) s'"
proof -
  let ?f = "(or_farm s)\<lparr>fm_bus := mb_subscribe ''orchestrator'' (fm_bus (or_farm s))\<rparr>"
  let ?Q = "\<lambda>r s'. \<exists>f1. create_from_intent (oi_hx oi) (oi_now oi) intent ?f = (Inr (rs_agents r), f1) \<and>
    same_agents (stopped (rs_agents r) (fm_objs f1)) (fm_active f1) s'"
  have tail: "sx_triple (\<lambda>s. \<exists>f1. create_from_intent (oi_hx oi) (oi_now oi) intent ?f = (Inr agents, f1) \<and> same_agents (fm_objs f1) (fm_active f1) s)
     (sx_then (sx_modify (\<lambda>s. s\<lparr>or_got := fold (\<lambda>x. dset x []) sensors []\<rparr>))
    (sx_bind (collect_loop (max (length sensors * TARGET_PER_SENSOR) 1) (oi_polls oi)) (\<lambda>polls.
     sx_then (sx_modify (stop_agents agents))
    (sx_bind (upgrade_intent (oi_llm oi) intent) (\<lambda>intent'.
     sx_then (sx_modify feed_window)
    (sx_then (sx_iter take_remote (oi_remote oi))
    (sx_bind (sx_get or_got) (\<lambda>c.
     sx_bind (sx_lift (merge_latest c)) (\<lambda>latest.
     sx_bind (ml_pipeline oi latest) (\<lambda>final.
     sx_return \<lparr>rs_summary = summary_of c, rs_final = final,
       rs_decision_input = (if final \<noteq> [] then final else summary_of c),
       rs_goal = dgetd intent' ''goal'' (PStr ''site_check''), rs_agents = agents, rs_polls = polls\<rparr>)))))))))) ?Q (\<lambda>_. True)"
    for agents sensors
  proof (cases "create_from_intent (oi_hx oi) (oi_now oi) intent ?f")
    case (Pair x f1)
    show ?thesis
    proof (cases "x = Inr agents")
      case True
      show ?thesis
        unfolding Pair True
        apply (rule sx_triple_conseq[where P' = "same_agents (fm_objs f1) (fm_active f1)" and
            Q' = "\<lambda>r s. rs_agents r = agents \<and> same_agents (stopped agents (fm_objs f1)) (fm_active f1) s" and E' = "\<lambda>_. True"])
        subgoal
          by (intro sx_triple_then[OF keeps_triple[OF same_agents_other(1)]] sx_triple_bind[OF keeps_triple[OF same_agents_collect]]
              sx_triple_then[OF same_agents_stop] sx_triple_bind[OF keeps_triple[OF same_agents_upgrade]]
              sx_triple_then[OF keeps_triple[OF same_agents_other(4)]] sx_triple_then[OF keeps_triple[OF sx_keeps_iter[OF same_agents_remote]]]
              sx_triple_get_bind sx_triple_lift_bind sx_triple_bind[OF keeps_triple[OF same_agents_ml]] sx_triple_return) auto
        by auto
    next
      case False
      then show ?thesis using Pair by (simp add: sx_triple_def)
    qed
  qed
  have "sx_triple (\<lambda>t. t = s) (run_intent oi intent) ?Q (\<lambda>_. True)"
    unfolding run_intent_def
  proof (intro sx_triple_lift_bind sx_triple_then[where R = "\<lambda>t. or_farm t = ?f"] sx_triple_modify sx_triple_bind[OF _ tail])
    show "sx_triple (\<lambda>t. or_farm t = ?f) (on_or_farm (create_from_intent (oi_hx oi) (oi_now oi) intent))
        (\<lambda>x s. \<exists>f1. create_from_intent (oi_hx oi) (oi_now oi) intent ?f = (Inr x, f1) \<and> same_agents (fm_objs f1) (fm_active f1) s) (\<lambda>_. True)"
      by (auto simp: sx_triple_def on_or_farm_def same_agents_def split: prod.splits sum.splits)
  qed simp_all
  then show ?thesis using assms by (simp add: sx_triple_def)
qed

lemma farm_inv_subscribe: "farm_inv hx now f \<Longrightarrow> farm_inv hx now (f\<lparr>fm_bus := mb_subscribe i (fm_bus f)\<rparr>)"
proof -
  assume f: "farm_inv hx now f"
  have that: "din j (mb_queues b) \<Longrightarrow> din j (mb_queues (mb_subscribe i b))" for j b
    by (simp add: mb_subscribe_def din_def)
  have "named_ok hx (f\<lparr>fm_bus := mb_subscribe i (fm_bus f)\<rparr>)"
    unfolding named_ok_def
  proof (intro allI impI)
    fix k assume "k < length (fm_objs (f\<lparr>fm_bus := mb_subscribe i (fm_bus f)\<rparr>))"
    then have k: "k < length (fm_objs f)" by simp
    have "ag_sensor (fm_objs f ! k) \<in> set SENSOR_TYPES" "ag_id (fm_objs f ! k) = ag_sensor (fm_objs f ! k) @ ''-agent-'' @ hx k"
        "din (ag_id (fm_objs f ! k)) (mb_queues (fm_bus f))"
      using f k unfolding farm_inv_def named_ok_def by blast+
    then show "ag_sensor (fm_objs (f\<lparr>fm_bus := mb_subscribe i (fm_bus f)\<rparr>) ! k) \<in> set SENSOR_TYPES \<and>
        ag_id (fm_objs (f\<lparr>fm_bus := mb_subscribe i (fm_bus f)\<rparr>) ! k) =
          ag_sensor (fm_objs (f\<lparr>fm_bus := mb_subscribe i (fm_bus f)\<rparr>) ! k) @ ''-agent-'' @ hx k \<and>
        din (ag_id (fm_objs (f\<lparr>fm_bus := mb_subscribe i (fm_bus f)\<rparr>) ! k)) (mb_queues (fm_bus (f\<lparr>fm_bus := mb_subscribe i (fm_bus f)\<rparr>)))"
      using that by simp
  qed
  with f show ?thesis by (simp add: farm_inv_def timers_ok_def)
qed

section \<open>The collection loop\<close>

text \<open>
  What the loop has collected since it started: \<open>new\<close> are the readings saved, and the dictionary holds
  them by sensor.
\<close>

definition got_ok :: "string list \<Rightarrow> (string \<times> pyobj) list \<Rightarrow> (string \<times> pyobj) list \<Rightarrow> orch \<Rightarrow> bool" where
  "got_ok sensors before new s \<longleftrightarrow> or_saved s = before @ new \<and> distinct (dkeys (or_got s)) \<and> set (dkeys (or_got s)) = set sensors \<and>
     (\<forall>x \<in> set sensors. dgetd (or_got s) x [] = map (\<lambda>p. PDict (snd p)) (filter (\<lambda>p. fst p = x) new)) \<and>
     (\<forall>p \<in> set new. fst p \<in> set sensors \<and> oget (snd p) ''sensor'' = PStr (fst p))"

lemma got_total: "got_ok sensors before new s \<Longrightarrow> total_got (or_got s) = length new"
proof -
  assume g: "got_ok sensors before new s"
  let ?c = "or_got s"
  have d: "distinct (dkeys ?c)" "set (dkeys ?c) = set sensors" using g by (simp_all add: got_ok_def)
  have "total_got ?c = (\<Sum>x \<leftarrow> dkeys ?c. length (dgetd ?c x []))"
    unfolding total_got_def map_map
    by (rule arg_cong[where f = sum_list], rule map_cong) (use d(1) in \<open>auto simp: dgetd_def\<close>)
  also have "\<dots> = (\<Sum>x \<in> set sensors. length (dgetd ?c x []))"
    unfolding sum_list_distinct_conv_sum_set[OF d(1)] d(2) ..
  also have "\<dots> = (\<Sum>x \<in> set sensors. length (filter (\<lambda>p. fst p = x) new))"
    using g by (intro sum.cong) (auto simp: got_ok_def)
  also have "\<dots> = length new"
  proof -
    have "\<forall>p \<in> set new. fst p \<in> set sensors" using g by (simp add: got_ok_def)
    then show ?thesis
    proof (induction new)
      case (Cons p new)
      have "(\<Sum>x \<in> set sensors. length (filter (\<lambda>q. fst q = x) (p # new))) =
          (\<Sum>x \<in> set sensors. (if x = fst p then 1 else 0) + length (filter (\<lambda>q. fst q = x) new))"
        by (intro sum.cong) auto
      also have "\<dots> = 1 + length new" using Cons by (simp add: sum.distrib)
      finally show ?case by simp
    qed simp
  qed
  finally show ?thesis .
qed

lemma got_ok_add:
  assumes "got_ok sensors before new s" and "oget d ''sensor'' = PStr x" and "din x (or_got s)"
  shows "got_ok sensors before (new @ [(x, d)])
    (s\<lparr>or_got := dset x (dgetd (or_got s) x [] @ [PDict d]) (or_got s), or_saved := or_saved s @ [(x, d)]\<rparr>)"
proof -
  have "x \<in> set sensors" using assms(1,3) by (auto simp: got_ok_def din_iff)
  moreover have "set (dkeys (dset x (dgetd (or_got s) x [] @ [PDict d]) (or_got s))) = set (dkeys (or_got s))"
    using assms(3) by (auto simp: din_iff dkeys_dset)
  ultimately show ?thesis using assms(1,2) by (auto simp: got_ok_def dict_inv)
qed

lemma take_message_step:
  assumes "got_ok sensors before new s" and "take_message payload s = (Inr u, s')"
  shows "got_ok sensors before new s' \<or> (\<exists>p. got_ok sensors before (new @ [p]) s')"
  using assms got_ok_add[OF assms(1)]
  by (auto simp: take_message_def take_reading_def sx_defs hkey_def split: if_splits sum.splits pyval.splits option.splits)

lemma got_ok_farm: "got_ok sensors before new (s\<lparr>or_farm := f\<rparr>) = got_ok sensors before new s"
  by (simp add: got_ok_def)

definition ended_early :: "nat \<Rightarrow> poll list \<Rightarrow> nat \<Rightarrow> nat \<Rightarrow> bool" where
  "ended_early target ps k n \<longleftrightarrow> k < length ps \<longrightarrow> MAX_WAIT \<le> po_start (ps ! k) \<or>
     0 < k \<and> MIN_WAIT \<le> po_elapsed (ps ! (k - 1)) \<and> target \<le> n"

lemma collect_loop_ok:
  "got_ok sensors before new s \<Longrightarrow> collect_loop target ps s = (Inr k, s') \<Longrightarrow>
    \<exists>more. got_ok sensors before (new @ more) s' \<and> length more \<le> k \<and> k \<le> length ps \<and> ended_early target ps k (length (new @ more))"
proof (induction ps arbitrary: new s k)
  case Nil
  then have "got_ok sensors before (new @ []) s'" "k = 0" by (simp_all add: sx_defs)
  then show ?case by (intro exI[of _ "[]"]) (simp add: ended_early_def)
next
  case (Cons p ps)
  show ?case
  proof (cases "po_start p < MAX_WAIT")
    case True
    let ?s1 = "run_turns (po_turns p) s"
    have g1: "got_ok sensors before new ?s1" using Cons.prems(1) by (simp add: run_turns_def got_ok_farm)
    obtain m s2 where r: "receive ?s1 = (Inr m, s2)"
      by (cases "mb_receive ''orchestrator'' (fm_bus (or_farm ?s1))") (simp add: receive_def)
    have g2: "got_ok sensors before new s2" using g1 r by (auto simp: receive_def got_ok_farm split: prod.splits)
    let ?take = "case m of None \<Rightarrow> sx_return () | Some e \<Rightarrow> take_message (be_message e)"
    obtain u s3 where t: "?take s2 = (Inr u, s3)"
      using Cons.prems(2) True by (cases "?take s2") (auto simp: sx_defs r split: sum.splits)
    have "got_ok sensors before new s3 \<or> (\<exists>q. got_ok sensors before (new @ [q]) s3)"
      using g2 t take_message_step[OF g2] by (cases m) (auto simp: sx_defs)
    then obtain step where g3: "got_ok sensors before (new @ step) s3" "length step \<le> 1"
      by (metis append_Nil2 le_numeral_extra(4) length_Cons list.size(3) One_nat_def zero_le_one)
    have n: "total_got (or_got s3) = length (new @ step)" by (rule got_total[OF g3(1)])
    show ?thesis
    proof (cases "po_elapsed p \<ge> MIN_WAIT \<and> length (new @ step) \<ge> target")
      case stop: True
      then have "k = 1" "s' = s3" using Cons.prems(2) True n by (auto simp: sx_defs r t)
      then show ?thesis using g3 stop by (intro exI[of _ step]) (simp add: ended_early_def)
    next
      case False
      then have "sx_bind (collect_loop target ps) (\<lambda>k. sx_return (Suc k)) s3 = (Inr k, s')"
        using Cons.prems(2) True n by (auto simp: sx_defs r t)
      then obtain k' where k': "collect_loop target ps s3 = (Inr k', s')" "k = Suc k'"
        by (auto simp: sx_defs split: prod.splits sum.splits)
      obtain more where m: "got_ok sensors before ((new @ step) @ more) s'" "length more \<le> k'" "k' \<le> length ps"
          "ended_early target ps k' (length ((new @ step) @ more))"
        using Cons.IH[OF g3(1) k'(1)] by blast
      have "ended_early target (p # ps) k (length (new @ step @ more))"
        using m(4) by (cases k') (auto simp: ended_early_def k'(2) nth_Cons' split: if_splits)
      then show ?thesis using m(1-3) g3(2) k'(2) by (intro exI[of _ "step @ more"]) simp
    qed
  next
    case False
    then have "k = 0" "s' = s" using Cons.prems(2) by (auto simp: sx_defs)
    then show ?thesis using Cons.prems(1) False by (intro exI[of _ "[]"]) (simp add: ended_early_def)
  qed
qed

section \<open>A concrete run\<close>

definition sample_reading :: pyobj where
  "sample_reading = [(''sensor'', PStr ''attendance''), (''count'', PInt 3), (''status'', PStr ''present'')]"

definition sample_bus :: msgbus where
  "sample_bus = \<lparr>mb_queues = [(''orchestrator'', [\<lparr>be_from = ''a'', be_to = ''orchestrator'',
     be_message = PDict [(''type'', PStr ''sensor_reading''), (''data'', PDict sample_reading)], be_ts = 0\<rparr>])], mb_log = []\<rparr>"

definition sample_orch :: orch where
  "sample_orch = \<lparr>or_farm = new_farm\<lparr>fm_bus := sample_bus\<rparr>, or_window = [], or_got = [], or_saved = [], or_predictions = []\<rparr>"

definition sample_oi :: orch_input where
  "sample_oi = \<lparr>oi_now = 0, oi_hx = sample_hx, oi_iso = ''t'', oi_me = ''me'', oi_parse = (\<lambda>s. Inl (ValueError s)), oi_known = [],
     oi_wire = demo_wire, oi_env = demo_env ''me'', oi_finished = [], oi_polls = [], oi_llm = None, oi_remote = []\<rparr>"

section \<open>Properties\<close>

text \<open>
  Every run that returns has stopped the agents it created, one per required sensor, in order;
  but the registry of the lifecycle, which the run prints as the status, still lists each of them as
  running until its timer fires.
\<close>
theorem run_intent_agents:
  assumes "run_intent oi intent s = (Inr r, s')" and "py_iter (dgetd intent ''data_required'' (PList [])) = Inr vs"
    and "farm_inv (oi_hx oi) (oi_now oi) (or_farm s)" and "inj_on (oi_hx oi) {..<length (fm_objs (or_farm s'))}"
  shows "map (\<lambda>k. ag_sensor (fm_objs (or_farm s') ! k)) (rs_agents r) = sensors_in vs \<and>
    (\<forall>k \<in> set (rs_agents r). \<not> ag_running (fm_objs (or_farm s') ! k) \<and>
       (ag_id (fm_objs (or_farm s') ! k), ''running'') \<in> set (lc_get_status (or_farm s')))"
proof -
  let ?f = "(or_farm s)\<lparr>fm_bus := mb_subscribe ''orchestrator'' (fm_bus (or_farm s))\<rparr>"
  obtain f1 where f1: "create_from_intent (oi_hx oi) (oi_now oi) intent ?f = (Inr (rs_agents r), f1)"
      "fm_objs (or_farm s') = stopped (rs_agents r) (fm_objs f1)" "fm_active (or_farm s') = fm_active f1"
    using run_intent_farm[OF assms(1)] by (auto simp: same_agents_def)
  have "farm_safe (oi_hx oi) (oi_now oi) ?f" using farm_inv_subscribe[OF assms(3)] by (simp add: farm_safe_def)
  then have "farm_safe (oi_hx oi) (oi_now oi) f1" using sx_keepsD[OF create_from_intent_keeps] f1(1) by (metis snd_conv)
  then have reg: "registry_ok (oi_now oi) f1" using assms(4) f1(2) by (simp add: farm_safe_def farm_inv_def)
  note c = created_agents[OF f1(1) assms(2)]
  have st: "fm_objs (or_farm s') ! k = (fm_objs f1 ! k)\<lparr>ag_running := False\<rparr>" if h: "k \<in> set (rs_agents r)" for k
    using c(2) h by (simp add: f1(2) stopped_nth)
  have "(ag_id (fm_objs f1 ! k), ''running'') \<in> set (lc_get_status (or_farm s'))" if h: "k \<in> set (rs_agents r)" for k
  proof -
    obtain e where e: "dget (fm_active f1) (ag_id (fm_objs f1 ! k)) = Some e"
      using reg c(2) h unfolding registry_ok_def by blast
    then have "lc_status e = ''running''" using reg unfolding registry_ok_def by blast
    then show ?thesis using map_of_SomeD[OF e] by (force simp: lc_get_status_def f1(3))
  qed
  moreover have "map (\<lambda>k. ag_sensor (fm_objs (or_farm s') ! k)) (rs_agents r) = map (\<lambda>k. ag_sensor (fm_objs f1 ! k)) (rs_agents r)"
    using st by simp
  ultimately show ?thesis using st c(1) by simp
qed

lemma run_intent_agents_witness:
  "\<exists>r s'. run_intent sample_oi [(''data_required'', PList [PStr ''attendance''])] sample_orch = (Inr r, s') \<and> rs_agents r = [0] \<and>
     \<not> ag_running (fm_objs (or_farm s') ! 0) \<and> (ag_id (fm_objs (or_farm s') ! 0), ''running'') \<in> set (lc_get_status (or_farm s'))"
proof -
  have inv: "farm_inv (oi_hx sample_oi) (oi_now sample_oi) (or_farm sample_orch)"
    by (simp add: sample_orch_def new_farm_def farm_inv_def named_ok_def registry_ok_def timers_ok_def)
  obtain r s' where e: "run_intent sample_oi [(''data_required'', PList [PStr ''attendance''])] sample_orch = (Inr r, s')" "rs_agents r = [0]"
    by (simp add: run_intent_def sx_defs sample_oi_def sample_orch_def node_name_def create_from_intent_def on_or_farm_def
        create_one_cases SENSOR_TYPES_def dgetd_def upgrade_intent_def merge_latest_def ml_pipeline_def stop_agents_def feed_window_def
        new_farm_def Let_def truthy.simps)
  then show ?thesis
    using run_intent_agents[OF e(1) _ inv, of "[PStr ''attendance'']"] sample_inj by (simp add: sample_oi_def dgetd_def)
qed

text \<open>
  The collection loop keeps exactly the readings of the required sensors that it receives, in the
  order they arrive, and saves each once; it takes at most one reading per poll, and it stops before its
  last poll only at the deadline or once the minimal wait is over with enough readings.
\<close>
theorem collect_loop_spec:
  assumes "collect_loop target ps (s\<lparr>or_got := fold (\<lambda>x. dset x []) sensors []\<rparr>) = (Inr k, s')"
  shows "\<exists>new. or_saved s' = or_saved s @ new \<and> length new \<le> k \<and> k \<le> length ps \<and>
    set (dkeys (or_got s')) = set sensors \<and>
    (\<forall>x \<in> set sensors. dgetd (or_got s') x [] = map (\<lambda>p. PDict (snd p)) (filter (\<lambda>p. fst p = x) new)) \<and>
    (\<forall>p \<in> set new. fst p \<in> set sensors \<and> oget (snd p) ''sensor'' = PStr (fst p)) \<and>
    (k < length ps \<longrightarrow> 10 \<le> po_start (ps ! k) \<or> 0 < k \<and> 3 \<le> po_elapsed (ps ! (k - 1)) \<and> target \<le> length new)"
proof -
  have e: "set (dkeys (fold (\<lambda>x. dset x []) xs c)) = set xs \<union> set (dkeys c) \<and>
      (distinct (dkeys c) \<longrightarrow> distinct (dkeys (fold (\<lambda>x. dset x []) xs c))) \<and>
      (\<forall>x. dgetd (fold (\<lambda>x. dset x []) xs c) x [] = (if x \<in> set xs then [] else dgetd c x []))" for xs and c :: "(string, pyval list) pydict"
  proof (induction xs arbitrary: c)
    case (Cons x xs)
    have "set (dkeys (dset x [] c)) = insert x (set (dkeys c))" unfolding dkeys_dset by auto
    then show ?case using Cons[of "dset x [] c"] distinct_dkeys_dset[of c x "[]"] by auto
  qed simp
  have "got_ok sensors (or_saved s) [] (s\<lparr>or_got := fold (\<lambda>x. dset x []) sensors []\<rparr>)"
    using e[of sensors "[]"] by (simp add: got_ok_def)
  from collect_loop_ok[OF this assms] show ?thesis
    by (auto simp: got_ok_def ended_early_def MAX_WAIT_def MIN_WAIT_def)
qed


lemma collect_loop_spec_witness:
  "\<exists>k s'. collect_loop 1 [\<lparr>po_start = 0, po_elapsed = 4, po_turns = []\<rparr>]
      (sample_orch\<lparr>or_got := fold (\<lambda>x. dset x []) [''attendance''] []\<rparr>) = (Inr k, s') \<and> k \<le> 1 \<and>
     length (or_saved s') \<le> k"
proof -
  obtain k s' where e: "collect_loop 1 [\<lparr>po_start = 0, po_elapsed = 4, po_turns = []\<rparr>]
      (sample_orch\<lparr>or_got := fold (\<lambda>x. dset x []) [''attendance''] []\<rparr>) = (Inr k, s')"
    by (simp add: sx_defs sample_orch_def receive_def run_turns_def mb_receive_def sample_bus_def take_message_def take_reading_def
        sample_reading_def oget_def dgetd_def print_reading_def din_def MAX_WAIT_def MIN_WAIT_def Let_def total_got_def)
  from collect_loop_spec[OF e] show ?thesis using e by (auto simp: sample_orch_def)
qed


text \<open>
  A sentence becomes agents without fail: the keyword parser's intent makes the factory start one
  agent for every sensor it names, all of them when it says ''all'' as a word or names none, and a sensor is named
  when one of its keywords occurs anywhere, even inside another word.  The agents live thirty seconds
  instead of sixty when a word of urgency occurs anywhere.
\<close>
theorem sentence_to_agents:
  fixes sentence :: string
  defines "t \<equiv> py_lower sentence"
  shows "\<exists>ks f'. create_from_intent hx now (parse_intent sentence) f = (Inr ks, f') \<and>
    (let ds = map (\<lambda>k. ag_sensor (fm_objs f' ! k)) ks in
     distinct ds \<and> ds \<noteq> [] \<and>
     (\<forall>s. s \<in> set ds \<longleftrightarrow> s \<in> set ALL_SENSORS \<and> (''all'' \<in> set (py_split t) \<or> keyword_hit t s \<or> (\<forall>s' \<in> set ALL_SENSORS. \<not> keyword_hit t s')))) \<and>
    (\<forall>k \<in> set ks. ag_running (fm_objs f' ! k)) \<and>
    fm_timers f' = fm_timers f @
      map (\<lambda>k. (ag_id (fm_objs f' ! k), now + (if \<exists>w \<in> set URGENT. \<exists>a b. t = a @ w @ b then 30 else 60))) ks"
proof -
  let ?ds = "required_sensors sentence" and ?i = "parse_intent sentence"
  let ?ttl = "if any_in URGENT t then 30 else 60 :: real"
  have i: "dgetd ?i ''data_required'' (PList []) = PList (map PStr ?ds)"
      "dgetd ?i ''priority'' (PStr ''normal'') = PStr (if any_in URGENT t then ''high'' else ''normal'')"
    by (simp_all add: parse_intent_def required_sensors_def Let_def dgetd_def t_def)
  have sub: "set ?ds \<subseteq> set SENSOR_TYPES"
    using required_sensors_facts(3) by (auto simp: ALL_SENSORS_def SENSOR_TYPES_def)
  obtain ks f' where c: "create_all hx now ?ttl (map PStr ?ds) f = (Inr ks, f')"
      "fm_timers f' = fm_timers f @ map (\<lambda>k. (ag_id (fm_objs f' ! k), now + ?ttl)) ks"
    using create_known[OF sub, of hx now ?ttl f] by blast
  have cr: "create_from_intent hx now ?i f = (Inr ks, f')"
    using c(1) unfolding create_from_intent_def i by (auto simp: sx_defs split: if_splits)
  have si: "sensors_in (map PStr ss) = ss" if h: "set ss \<subseteq> set SENSOR_TYPES" for ss
    using h by (induction ss) (auto simp: sensors_in_def)
  have "py_iter (dgetd ?i ''data_required'' (PList [])) = Inr (map PStr ?ds)" by (simp add: i)
  note a = created_agents[OF cr this]
  show ?thesis
  proof (intro exI conjI)
    show "create_from_intent hx now ?i f = (Inr ks, f')" by (rule cr)
    show "let ds = map (\<lambda>k. ag_sensor (fm_objs f' ! k)) ks in distinct ds \<and> ds \<noteq> [] \<and>
       (\<forall>s. s \<in> set ds \<longleftrightarrow> s \<in> set ALL_SENSORS \<and> (''all'' \<in> set (py_split t) \<or> keyword_hit t s \<or> (\<forall>s' \<in> set ALL_SENSORS. \<not> keyword_hit t s')))"
      unfolding a(1) si[OF sub] Let_def t_def using required_sensors_facts by blast
    show "\<forall>k \<in> set ks. ag_running (fm_objs f' ! k)" using a(2) by blast
    show "fm_timers f' = fm_timers f @
        map (\<lambda>k. (ag_id (fm_objs f' ! k), now + (if \<exists>w \<in> set URGENT. \<exists>a b. t = a @ w @ b then 30 else 60))) ks"
      using c(2) by (simp add: any_in_iff)
  qed
qed

lemma sentence_to_agents_witness:
  "\<exists>ks f'. create_from_intent sample_hx 0 (parse_intent ''who knows of attempts'') new_farm = (Inr ks, f') \<and>
     set (map (\<lambda>k. ag_sensor (fm_objs f' ! k)) ks) = {''temperature''} \<and>
     fm_timers f' = map (\<lambda>k. (ag_id (fm_objs f' ! k), 30)) ks"
proof -
  define tx where "tx = ''who knows of attempts''"
  have t: "py_lower tx = tx" unfolding tx_def by code_simp
  have n: "''all'' \<notin> set (py_split tx)" unfolding tx_def by code_simp
  have "map (keyword_hit tx) ALL_SENSORS = [False, True, False]" unfolding tx_def by code_simp
  then have hit: "s \<in> set ALL_SENSORS \<and> (keyword_hit tx s \<or> (\<forall>s' \<in> set ALL_SENSORS. \<not> keyword_hit tx s')) \<longleftrightarrow> s = ''temperature''" for s
    by (auto simp: ALL_SENSORS_def)
  have u: "\<exists>w \<in> set URGENT. \<exists>a b. tx = a @ w @ b" unfolding any_in_iff[symmetric] tx_def by code_simp
  obtain ks f' where k: "create_from_intent sample_hx 0 (parse_intent tx) new_farm = (Inr ks, f')"
      "\<forall>s. s \<in> set (map (\<lambda>k. ag_sensor (fm_objs f' ! k)) ks) \<longleftrightarrow> s = ''temperature''"
      "fm_timers f' = fm_timers new_farm @ map (\<lambda>k. (ag_id (fm_objs f' ! k), 0 + 30)) ks"
    using sentence_to_agents[of sample_hx 0 tx new_farm] unfolding t Let_def if_P[OF u] by (simp only: n simp_thms hit) blast
  then show ?thesis unfolding tx_def[symmetric] by (intro exI conjI) (auto simp: new_farm_def)
qed

end
