(* ===== verification/Telemetry.thy ===== *)
theory Telemetry
  imports Streams Database
begin

text \<open>
  The black box recorder (\<open>agents/telemetry_agent.py\<close>): it subscribes to every event, counts the events by
  type and hands each to a writer thread that inserts it into the table \<open>telemetry_events\<close>.  The events come
  from the event bus of \<^verbatim>\<open>Streams\<close>, so every key the callback looks up is there.  \<open>dumps\<close> is \<open>json.dumps\<close>,
  which may raise; the columns \<open>id\<close> and \<open>indexed_at\<close>, which the database fills in, are left out.
\<close>

section \<open>State\<close>

record telemetry =
  te_count :: nat
  te_types :: "(string, nat) pydict"
  te_queue :: "pyobj option list"
  te_rows :: "pyobj list"
  te_writer :: bool
  te_running :: bool

text \<open>The writer thread ends at once when the database is not SQLite.\<close>

definition new_telemetry :: "bool \<Rightarrow> telemetry" where
  "new_telemetry sqlite = \<lparr>te_count = 0, te_types = [], te_queue = [], te_rows = [], te_writer = sqlite, te_running = False\<rparr>"

section \<open>Operations\<close>

text \<open>The callback number the recorder has on the event bus.\<close>

definition TELEMETRY_CB :: nat where "TELEMETRY_CB = 1"

definition telemetry_start :: "real \<Rightarrow> evbus \<times> telemetry \<Rightarrow> evbus \<times> telemetry" where
  "telemetry_start now bt = (case bt of (b, t) \<Rightarrow>
     (eb_subscribe now '''' ''*'' TELEMETRY_CB (Some ''telemetry-wildcard'') b, t\<lparr>te_running := True\<rparr>))"

definition telemetry_stop :: "telemetry \<Rightarrow> telemetry" where
  "telemetry_stop t = t\<lparr>te_running := False, te_queue := te_queue t @ [None]\<rparr>"

definition event_record :: "event \<Rightarrow> string \<Rightarrow> pyobj" where
  "event_record e json =
     [(''timestamp'', PFloat (ev_time e)), (''event_type'', PStr (ev_type e)), (''sender_id'', PStr (ev_sender e)),
      (''priority'', PStr (ev_priority e)), (''data_json'', PStr json)]"

definition on_any_event :: "(pyval \<Rightarrow> string result) \<Rightarrow> event \<Rightarrow> (telemetry, unit) sx" where
  "on_any_event dumps e =
     sx_then (sx_modify (\<lambda>t. t\<lparr>te_count := te_count t + 1,
         te_types := dset (ev_type e) (dgetd (te_types t) (ev_type e) 0 + 1) (te_types t)\<rparr>))
    (sx_bind (sx_lift (dumps (ev_data e))) (\<lambda>j.
     sx_modify (\<lambda>t. t\<lparr>te_queue := te_queue t @ [Some (event_record e j)]\<rparr>)))"

text \<open>
  One turn of the writer; \<open>ok\<close> says whether the database takes the row.  A row it does not take is
  gone.  With an empty queue the thread waits.
\<close>

definition writer_turn :: "(pyobj \<Rightarrow> bool) \<Rightarrow> telemetry \<Rightarrow> telemetry" where
  "writer_turn ok t =
     (if \<not> te_writer t then t
      else (case te_queue t of
          [] \<Rightarrow> t
        | None # q \<Rightarrow> t\<lparr>te_queue := q, te_writer := False\<rparr>
        | Some r # q \<Rightarrow> t\<lparr>te_queue := q, te_rows := (if ok r then te_rows t @ [r] else te_rows t)\<rparr>))"

definition telemetry_status :: "telemetry \<Rightarrow> nat \<times> (string, nat) pydict \<times> (string \<times> nat) list \<times> nat" where
  "telemetry_status t = (te_count t, te_types t, take 5 (sort_key_desc snd (te_types t)), length (te_queue t))"

definition row_time :: "pyobj \<Rightarrow> real" where
  "row_time r = (case oget r ''timestamp'' of PFloat x \<Rightarrow> x | _ \<Rightarrow> 0)"

definition limited :: "int \<Rightarrow> 'a list \<Rightarrow> 'a list" where
  "limited n xs = (if n < 0 then xs else take (nat n) xs)"

definition query_by_type :: "bool \<Rightarrow> string \<Rightarrow> int \<Rightarrow> telemetry \<Rightarrow> pyobj list" where
  "query_by_type sqlite ty n t =
     (if sqlite then limited n (sort_key_desc row_time (filter (\<lambda>r. oget r ''event_type'' = PStr ty) (te_rows t))) else [])"

definition query_recent :: "bool \<Rightarrow> int \<Rightarrow> telemetry \<Rightarrow> pyobj list" where
  "query_recent sqlite n t = (if sqlite then limited n (sort_key_desc row_time (te_rows t)) else [])"

section \<open>The recorder on the bus\<close>

text \<open>
  A run: events are published, each delivery to the recorder is a thread that runs its callback when the
  scheduler lets it, and the writer takes its turns.  \<open>tw_done\<close> are the events whose callback has run,
  in the order of the callbacks.
\<close>

record tworld =
  tw_bus :: evbus
  tw_pending :: "event list"
  tw_done :: "event list"
  tw_tel :: telemetry

datatype tel_op = TPublish ev_args | TDeliver nat | TWrite | TStop

definition new_deliveries :: "evbus \<Rightarrow> evbus \<Rightarrow> event list" where
  "new_deliveries b b' = map snd (filter (\<lambda>(cb, e). cb = TELEMETRY_CB) (drop (length (eb_runs b)) (eb_runs b')))"

fun tel_step :: "(pyval \<Rightarrow> string result) \<Rightarrow> (pyobj \<Rightarrow> bool) \<Rightarrow> tel_op \<Rightarrow> tworld \<Rightarrow> tworld" where
  "tel_step dumps ok (TPublish a) w =
     (let b' = eb_push a (tw_bus w) in w\<lparr>tw_bus := b', tw_pending := tw_pending w @ new_deliveries (tw_bus w) b'\<rparr>)"
| "tel_step dumps ok (TDeliver k) w =
     (if k < length (tw_pending w) then
        w\<lparr>tw_pending := take k (tw_pending w) @ drop (Suc k) (tw_pending w), tw_done := tw_done w @ [tw_pending w ! k],
          tw_tel := snd (on_any_event dumps (tw_pending w ! k) (tw_tel w))\<rparr>
      else w)"
| "tel_step dumps ok TWrite w = w\<lparr>tw_tel := writer_turn ok (tw_tel w)\<rparr>"
| "tel_step dumps ok TStop w = w\<lparr>tw_tel := telemetry_stop (tw_tel w)\<rparr>"

definition tel_begin :: "real \<Rightarrow> bool \<Rightarrow> evbus \<Rightarrow> tworld" where
  "tel_begin now sqlite b = (case telemetry_start now (b, new_telemetry sqlite) of (b', t) \<Rightarrow>
     \<lparr>tw_bus = b', tw_pending = [], tw_done = [], tw_tel = t\<rparr>)"

fun published :: "tel_op \<Rightarrow> ev_args option" where
  "published (TPublish a) = Some a"
| "published _ = None"

definition emitted :: "tel_op \<Rightarrow> ev_args list" where
  "emitted opr = (case published opr of None \<Rightarrow> [] | Some a \<Rightarrow> [a])"

lemma emitted_simps [simp]: "emitted (TPublish a) = [a]" "emitted (TDeliver k) = []" "emitted TWrite = []" "emitted TStop = []"
  by (simp_all add: emitted_def)

lemma map_filter_published: "List.map_filter published (opr # ops) = emitted opr @ List.map_filter published ops"
  by (cases opr) (simp_all add: map_filter_simps)

text \<open>A bus on which nobody else uses the callback of the recorder.\<close>

definition cb_free :: "evbus \<Rightarrow> bool" where
  "cb_free b \<longleftrightarrow> (\<forall>ty. \<forall>s \<in> set (dgetd (eb_subs b) ty []). sub_cb s \<noteq> TELEMETRY_CB)"

definition only_wildcard :: "evbus \<Rightarrow> bool" where
  "only_wildcard b \<longleftrightarrow> (\<forall>ty. map sub_cb (filter (\<lambda>s. sub_cb s = TELEMETRY_CB) (dgetd (eb_subs b) ty [])) =
     (if ty = ''*'' then [TELEMETRY_CB] else []))"

lemma only_wildcard_begin: "cb_free b \<Longrightarrow> only_wildcard (tw_bus (tel_begin now sqlite b))"
  by (auto simp: cb_free_def only_wildcard_def tel_begin_def telemetry_start_def eb_subscribe_def dgetd_def filter_empty_conv
      split: option.splits)

definition recorded :: "(pyval \<Rightarrow> string result) \<Rightarrow> event \<Rightarrow> pyobj" where
  "recorded dumps e = event_record e (case dumps (ev_data e) of Inr j \<Rightarrow> j | Inl _ \<Rightarrow> [])"

text \<open>Each publication reaches the recorder once.\<close>

lemma eb_push_subs [simp]: "eb_subs (eb_push a b) = eb_subs b"
  by (cases a) (simp add: eb_publish_def Let_def)

lemma new_deliveries_push:
  assumes "only_wildcard b" and "fst (snd (snd a)) \<noteq> ''*''"
  shows "\<exists>e. new_deliveries b (eb_push a b) = [e] \<and> ev_head e = a"
proof (cases a)
  case (fields now uid ty data sender prio)
  define e where "e = last (eb_log (eb_publish now uid ty data sender prio b))"
  have "length (filter (\<lambda>s. sub_cb s = TELEMETRY_CB) (dgetd (eb_subs b) t [])) = (if t = ''*'' then 1 else 0)" for t
    using assms(1) unfolding only_wildcard_def by (metis (no_types, lifting) One_nat_def length_Cons length_map list.size(3))
  then have "length (filter (\<lambda>s. sub_cb s = TELEMETRY_CB) (ev_targets ty b)) = 1"
    using assms(2) by (simp add: ev_targets_def fields)
  then obtain s where s: "filter (\<lambda>s. sub_cb s = TELEMETRY_CB) (ev_targets ty b) = [s]" by (auto simp: length_Suc_conv)
  have "new_deliveries b (eb_push a b) = map (\<lambda>s. e) (filter (\<lambda>s. sub_cb s = TELEMETRY_CB) (ev_targets ty b))"
    by (simp add: new_deliveries_def fields eb_publish_runs filter_map comp_def flip: e_def)
  then show ?thesis unfolding s using e_def by (intro exI[of _ e]) (simp add: eb_publish_last ev_head_def fields)
qed

section \<open>The black box\<close>

definition queued :: "telemetry \<Rightarrow> pyobj list" where
  "queued t = List.map_filter (\<lambda>x. x) (te_queue t)"

definition tel_inv :: "(pyval \<Rightarrow> string result) \<Rightarrow> ev_args list \<Rightarrow> tworld \<Rightarrow> bool" where
  "tel_inv dumps as w \<longleftrightarrow> only_wildcard (tw_bus w) \<and>
     mset (map ev_head (tw_done w @ tw_pending w)) = mset as \<and> te_count (tw_tel w) = length (tw_done w) \<and>
     (\<forall>ty. dgetd (te_types (tw_tel w)) ty 0 = length (filter (\<lambda>e. ev_type e = ty) (tw_done w))) \<and>
     te_rows (tw_tel w) @ queued (tw_tel w) = map (recorded dumps) (tw_done w)"

lemma queued_simps [simp]:
  "queued (t\<lparr>te_queue := q\<rparr>) = List.map_filter (\<lambda>x. x) q"
  "queued (t\<lparr>te_rows := rs\<rparr>) = queued t" "queued (t\<lparr>te_writer := b\<rparr>) = queued t"
  by (simp_all add: queued_def)

lemma map_filter_snoc [simp]: "List.map_filter f (xs @ [x]) = List.map_filter f xs @ (case f x of None \<Rightarrow> [] | Some y \<Rightarrow> [y])"
  by (induction xs) (simp_all split: option.split)

lemma writer_turn_keeps:
  "te_rows (writer_turn (\<lambda>_. True) t) @ queued (writer_turn (\<lambda>_. True) t) = te_rows t @ queued t"
  "te_count (writer_turn ok t) = te_count t" "te_types (writer_turn ok t) = te_types t"
  by (auto simp: writer_turn_def queued_def split: list.split option.split)

definition encodable :: "(pyval \<Rightarrow> string result) \<Rightarrow> ev_args \<Rightarrow> bool" where
  "encodable dumps a \<longleftrightarrow> (case a of (now, uid, ty, dat, sender, prio) \<Rightarrow> \<exists>j. dumps dat = Inr j)"

definition tel_ok :: "(pyval \<Rightarrow> string result) \<Rightarrow> tel_op \<Rightarrow> bool" where
  "tel_ok dumps opr \<longleftrightarrow> (case published opr of None \<Rightarrow> True | Some a \<Rightarrow> fst (snd (snd a)) \<noteq> ''*'' \<and> encodable dumps a)"

lemma tel_step_inv:
  assumes inv: "tel_inv dumps as w" and ok: "tel_ok dumps opr" and enc: "\<forall>a \<in> set as. encodable dumps a"
  shows "tel_inv dumps (as @ emitted opr) (tel_step dumps (\<lambda>_. True) opr w)"
proof (cases opr)
  case (TPublish a)
  then obtain e where "new_deliveries (tw_bus w) (eb_push a (tw_bus w)) = [e]" "ev_head e = a"
    using new_deliveries_push[of "tw_bus w" a] inv ok by (auto simp: tel_inv_def tel_ok_def)
  then show ?thesis using inv TPublish by (simp add: tel_inv_def Let_def only_wildcard_def)
next
  case (TDeliver k)
  show ?thesis
  proof (cases "k < length (tw_pending w)")
    case True
    define e where "e = tw_pending w ! k"
    have p: "tw_pending w = take k (tw_pending w) @ e # drop (Suc k) (tw_pending w)"
      using True by (simp add: e_def id_take_nth_drop)
    then have m: "mset (map ev_head (take k (tw_pending w))) + mset (map ev_head (drop (Suc k) (tw_pending w))) + {#ev_head e#} =
        mset (map ev_head (tw_pending w))"
      by (metis (no_types, lifting) add_mset_add_single list.simps(9) map_append mset.simps(2) mset_append union_mset_add_mset_right)
    have "ev_head e \<in> set as"
      using inv True e_def unfolding tel_inv_def by (metis (no_types, lifting) UnCI image_eqI list.set_map nth_mem set_append set_mset_mset)
    then obtain j where j: "dumps (ev_data e) = Inr j" using enc by (auto simp: encodable_def ev_head_def)
    show ?thesis
      using inv True m by (simp add: TDeliver tel_inv_def on_any_event_def sx_defs j recorded_def dgetd_def flip: e_def)
        (auto simp: queued_def)
  qed (use inv TDeliver in simp)
next
  case TWrite
  then show ?thesis using inv by (simp add: tel_inv_def writer_turn_keeps)
next
  case TStop
  then show ?thesis using inv by (simp add: tel_inv_def telemetry_stop_def queued_def)
qed

lemma tel_run_inv:
  "tel_inv dumps as w \<Longrightarrow> \<forall>a \<in> set as. encodable dumps a \<Longrightarrow> list_all (tel_ok dumps) ops \<Longrightarrow>
   tel_inv dumps (as @ List.map_filter published ops) (fold (tel_step dumps (\<lambda>_. True)) ops w)"
proof (induction ops arbitrary: as w)
  case (Cons opr ops)
  let ?as = "as @ emitted opr"
  have "\<forall>a \<in> set ?as. encodable dumps a" using Cons.prems(2,3) by (cases opr) (auto simp: tel_ok_def)
  then show ?case
    using Cons.IH[OF tel_step_inv[OF Cons.prems(1) _ Cons.prems(2), of opr]] Cons.prems(3) by (cases opr) simp_all
qed simp

lemma writer_drains:
  "te_writer t \<Longrightarrow> None \<notin> set (te_queue t) \<Longrightarrow>
   te_rows ((writer_turn (\<lambda>_. True) ^^ length (te_queue t)) t) = te_rows t @ queued t"
proof (induction "te_queue t" arbitrary: t)
  case (Cons x q)
  have "x \<noteq> None" using Cons.prems(2) by (metis Cons.hyps(2) list.set_intros(1))
  then obtain r where r: "x = Some r" by blast
  define t1 where "t1 = writer_turn (\<lambda>_. True) t"
  have t1: "te_queue t1 = q" "te_writer t1" "te_rows t1 = te_rows t @ [r]"
    using Cons.hyps(2)[symmetric] Cons.prems(1) r by (simp_all add: t1_def writer_turn_def)
  moreover have "None \<notin> set (te_queue t1)" using t1(1) Cons.hyps(2) Cons.prems(2) by (metis list.set_intros(2))
  ultimately have "te_rows ((writer_turn (\<lambda>_. True) ^^ length q) t1) = te_rows t @ [r] @ queued t1" using Cons.hyps(1)[of t1] by simp
  then show ?case
    using Cons.hyps(2)[symmetric] t1(1) r by (simp add: queued_def funpow_swap1 t1_def del: funpow.simps) (simp add: funpow_swap1)
qed (simp add: queued_def)

lemma no_stop_keeps:
  "TStop \<notin> set ops \<Longrightarrow> te_writer (tw_tel w) \<Longrightarrow> None \<notin> set (te_queue (tw_tel w)) \<Longrightarrow>
   te_writer (tw_tel (fold (tel_step dumps ok) ops w)) \<and> None \<notin> set (te_queue (tw_tel (fold (tel_step dumps ok) ops w)))"
proof (induction ops arbitrary: w)
  case (Cons opr ops)
  have "te_writer (tw_tel (tel_step dumps ok opr w)) \<and> None \<notin> set (te_queue (tw_tel (tel_step dumps ok opr w)))"
    using Cons.prems
    by (cases opr) (auto simp: Let_def on_any_event_def sx_defs writer_turn_def split: list.split option.split sum.split)
  then show ?case using Cons by simp
qed simp


lemma recorded_types: "rows = map (recorded d) es \<Longrightarrow> map ev_type es = tys \<Longrightarrow> map (\<lambda>r. oget r ''event_type'') rows = map PStr tys"
  by (auto simp: recorded_def event_record_def oget_def dgetd_def)


text \<open>A recorder whose writer has met the sentinel of \<open>stop\<close> never writes again, whatever is published or restarted.\<close>

lemma stopped_writes_nothing:
  "\<not> te_writer (tw_tel w) \<Longrightarrow> te_rows (tw_tel (fold (tel_step dumps ok) ops w)) = te_rows (tw_tel w) \<and>
     \<not> te_writer (tw_tel (fold (tel_step dumps ok) ops w))"
proof (induction ops arbitrary: w)
  case (Cons opr ops)
  have "te_rows (tw_tel (tel_step dumps ok opr w)) = te_rows (tw_tel w) \<and> \<not> te_writer (tw_tel (tel_step dumps ok opr w))"
    using Cons.prems by (cases opr) (auto simp: Let_def on_any_event_def sx_defs writer_turn_def telemetry_stop_def split: sum.split)
  then show ?case using Cons by simp
qed simp

end
