(* ===== verification/ApiServer.thy ===== *)
theory ApiServer
  imports Store Orchestrator Kademlia
begin

text \<open>
  The socket API (\<open>api/socket_server.py\<close>): one request per connection, dispatched on its type, answered with one
  framed JSON object.  The environment holds what the handlers read (clock, peers of the DHT node, event bus, the
  file of learned parameters, the status of the swarm mind) and the services outside the repository; the state is the
  database behind the agent, the SQLite file behind \<open>db/query.py\<close>, the intent cache and the orchestrator.  \<open>ae_show\<close>
  is \<open>str\<close> of an exception, \<open>ae_text\<close> the text SQLite compares a number with.
\<close>

section \<open>State\<close>

record 's api_env =
  ae_now :: real
  ae_start :: real
  ae_nodes :: "(pyval, pyval) pydict"
  ae_ad :: "'s adapter"
  ae_bus :: evbus
  ae_params :: "pyval result"
  ae_mind :: "mind_status option"
  ae_show :: "pyexc \<Rightarrow> string"
  ae_text :: "pyval \<Rightarrow> string"
  ae_ask :: "string \<Rightarrow> pyval result"
  ae_loads :: "string \<Rightarrow> pyval result"
  ae_later :: real
  ae_orch :: orch_input
  ae_elapsed :: int

record 's api =
  ap_db :: 's
  ap_sql :: sql_db
  ap_cache :: intent_cache
  ap_orch :: orch

section \<open>The handlers\<close>

definition failure :: "('s, 'x) api_env_scheme \<Rightarrow> pyexc \<Rightarrow> pyobj" where
  "failure env e = [(''success'', PBool False), (''error'', PStr (ae_show env e))]"

text \<open>\<open>except Exception as e: return {"success": False, ...}\<close>\<close>

definition guarded :: "('s, 'x) api_env_scheme \<Rightarrow> pyobj result \<Rightarrow> pyobj" where
  "guarded env r = (case r of Inl e \<Rightarrow> failure env e | Inr x \<Rightarrow> x)"

definition get_swarm_status :: "('s, 'x) api_env_scheme \<Rightarrow> 's \<Rightarrow> pyobj" where
  "get_swarm_status env db = guarded env
     (bindE (ad_count (ae_ad env) ''sensor_readings'' db) (\<lambda>a. bindE (ad_count (ae_ad env) ''work_orders'' db) (\<lambda>b.
      bindE (ad_count (ae_ad env) ''predictions'' db) (\<lambda>c.
      Inr [(''success'', PBool True), (''uptime_seconds'', PInt (trunc (ae_now env - ae_start env))),
        (''known_nodes'', PInt (int (length (ae_nodes env)))), (''db_type'', PStr (ad_type (ae_ad env))),
        (''total_readings'', PInt (int a)), (''total_workorders'', PInt (int b)), (''total_predictions'', PInt (int c)),
        (''autonomous'', PBool (ae_mind env \<noteq> None))]))))"

text \<open>\<open>nid[:12]\<close> of a dictionary key.\<close>

definition short_id :: "pyval \<Rightarrow> pyval result" where
  "short_id i = (case i of PStr s \<Rightarrow> Inr (PStr (take 12 s)) | _ \<Rightarrow> Inl TypeError)"

definition peer_view :: "pyval \<Rightarrow> pyval \<Rightarrow> pyval result" where
  "peer_view nid info =
     bindE (pget info ''caps'' info) (\<lambda>caps. bindE (pget caps ''caps'' caps) (\<lambda>inner. bindE (pget inner ''benchmark'' (PDict [])) (\<lambda>bench.
     bindE (short_id nid) (\<lambda>i. bindE (pget info ''addr'' PNone) (\<lambda>addr. bindE (pget info ''ip'' (PStr '''')) (\<lambda>ip.
     bindE (mapE (\<lambda>(k, d). bindE (pget inner k d) (\<lambda>v. Inr (k, v)))
        [(''os'', PStr ''unknown''), (''hostname'', PStr ''''), (''roles'', PList []), (''ram_gb'', PInt 0), (''cpu_cores'', PInt 0)]) (\<lambda>fs.
     bindE (pget bench ''composite'' (PInt 0)) (\<lambda>score. bindE (pget bench ''llm_available'' (PBool False)) (\<lambda>llm.
     Inr (PDict ([(''node_id'', i), (''full_id'', nid), (''ip'', py_or addr ip)] @ fs @
       [(''composite_score'', score), (''llm_available'', llm), (''status'', PStr ''online'')])))))))))))"

definition get_peers_info :: "('s, 'x) api_env_scheme \<Rightarrow> pyobj" where
  "get_peers_info env = guarded env
     (bindE (mapE (\<lambda>(nid, info). peer_view nid info) (ae_nodes env)) (\<lambda>ps.
      Inr [(''success'', PBool True), (''peers'', PList ps), (''count'', PInt (int (length ps)))]))"

definition get_rows :: "('s, 'x) api_env_scheme \<Rightarrow> string \<Rightarrow> string \<Rightarrow> int \<Rightarrow> 's \<Rightarrow> pyobj" where
  "get_rows env key t limit db = guarded env
     (bindE (ad_fetch (ae_ad env) t None limit db) (\<lambda>rs.
      Inr [(''success'', PBool True), (key, PList (map PDict rs)), (''count'', PInt (int (length rs)))]))"

definition get_workorders_list :: "('s, 'x) api_env_scheme \<Rightarrow> 's \<Rightarrow> pyobj" where
  "get_workorders_list env = get_rows env ''workorders'' ''work_orders'' 50"

definition get_sensor_readings_list :: "('s, 'x) api_env_scheme \<Rightarrow> 's \<Rightarrow> pyobj" where
  "get_sensor_readings_list env = get_rows env ''readings'' ''sensor_readings'' 100"

definition get_predictions_list :: "('s, 'x) api_env_scheme \<Rightarrow> 's \<Rightarrow> pyobj" where
  "get_predictions_list env = get_rows env ''predictions'' ''predictions'' 50"

definition get_learning_status :: "('s, 'x) api_env_scheme \<Rightarrow> pyobj" where
  "get_learning_status env = [(''success'', PBool True), (''learned_params'', case ae_params env of Inr p \<Rightarrow> p
     | Inl _ \<Rightarrow> PDict [(''anomaly_threshold'', PFloat (25 / 10)), (''trust_score'', PDict [])])]"

definition event_dict :: "event \<Rightarrow> pyval" where
  "event_dict e = PDict [(''event_id'', PStr (ev_id e)), (''event_type'', PStr (ev_type e)), (''data'', ev_data e), (''sender_id'', PStr (ev_sender e)),
     (''priority'', PStr (ev_priority e)), (''timestamp'', PFloat (ev_time e)), (''delivered_to'', PList (map PStr (ev_delivered e)))]"

definition get_recent_events :: "('s, 'x) api_env_scheme \<Rightarrow> pyobj" where
  "get_recent_events env =
     (let es = eb_get_events None 0 50 (ae_bus env) in
      [(''success'', PBool True), (''events'', PList (map event_dict es)), (''count'', PInt (int (length es)))])"

section \<open>The request\<close>

text \<open>A query parameter as SQLite sees it; what is falsy does not filter.\<close>

definition text_param :: "('s, 'x) api_env_scheme \<Rightarrow> pyval \<Rightarrow> string option result" where
  "text_param env v =
     (if \<not> truthy v then Inr None
      else case v of PStr s \<Rightarrow> Inr (Some s) | PList _ \<Rightarrow> Inl DatabaseError | PDict _ \<Rightarrow> Inl DatabaseError
        | _ \<Rightarrow> Inr (Some (ae_text env v)))"

definition em_dash :: string where
  "em_dash = [CHR 0xE2, CHR 0x80, CHR 0x94]"

definition autonomous_status :: "('s, 'x) api_env_scheme \<Rightarrow> pyobj" where
  "autonomous_status env = (case ae_mind env of
      Some m \<Rightarrow> [(''success'', PBool True), (''uptime_seconds'', PInt (ms_uptime m)), (''known_devices'', PInt (int (ms_devices m))),
        (''pipeline_cycles'', PInt (int (ms_cycles m))), (''autonomous'', PBool True), (''last_action'', PStr ''work order created''),
        (''status'', PStr ''monitoring'')]
    | None \<Rightarrow> [(''success'', PBool True), (''autonomous'', PBool False), (''status'', PStr (''idle '' @ em_dash @ '' autonomous mode not started''))])"

text \<open>An intent: parsed by the LLM or the keywords, and run; an exception of the run ends the request.\<close>

definition user_text :: "pyval \<Rightarrow> string result" where
  "user_text v = (case v of PStr s \<Rightarrow> Inr s | _ \<Rightarrow> Inl AttributeError)"

definition handle_intent :: "('s, 'x) api_env_scheme \<Rightarrow> pyobj \<Rightarrow> ('s api, pyobj) sx" where
  "handle_intent env req =
     sx_bind (sx_lift (user_text (dgetd req ''text'' (PStr '''')))) (\<lambda>txt.
     sx_bind (\<lambda>s. case parse_intent_llm (ae_ask env) (ae_loads env) (ae_now env) (ae_later env) txt (ap_cache s) of
        (v, c) \<Rightarrow> (Inr v, s\<lparr>ap_cache := c\<rparr>)) (\<lambda>intent.
     sx_bind (sx_lift (case intent of PDict i \<Rightarrow> Inr i | _ \<Rightarrow> Inl AttributeError)) (\<lambda>i.
     sx_bind (\<lambda>s. case run_intent (ae_orch env) i (ap_orch s) of (r, orch') \<Rightarrow> (r, s\<lparr>ap_orch := orch'\<rparr>)) (\<lambda>r.
     sx_return [(''success'', PBool True), (''intent'', intent), (''summary'', PDict (rs_summary r)),
       (''decision'', PStr ''computing...''), (''ml_pipeline'', PDict (rs_final r)), (''elapsed_ms'', PInt (ae_elapsed env))]))))"

definition dispatch_request :: "('s, 'x) api_env_scheme \<Rightarrow> pyval \<Rightarrow> ('s api, pyobj) sx" where
  "dispatch_request env v =
     sx_bind (sx_lift (case v of PDict d \<Rightarrow> Inr d | _ \<Rightarrow> Inl AttributeError)) (\<lambda>req.
     let ty = dgetd req ''type'' (PStr ''intent'') in
     if ty = PStr ''status'' then sx_get (\<lambda>s. get_swarm_status env (ap_db s))
     else if ty = PStr ''peers'' then sx_return (get_peers_info env)
     else if ty = PStr ''workorders'' then sx_get (\<lambda>s. get_workorders_list env (ap_db s))
     else if ty = PStr ''readings'' then sx_get (\<lambda>s. get_sensor_readings_list env (ap_db s))
     else if ty = PStr ''learning'' then sx_return (get_learning_status env)
     else if ty = PStr ''predictions'' then sx_get (\<lambda>s. get_predictions_list env (ap_db s))
     else if ty = PStr ''events'' then sx_return (get_recent_events env)
     else if ty = PStr ''db_stats'' then
       sx_bind (sx_get (\<lambda>s. query_stats (ap_sql s))) (\<lambda>r. sx_bind (sx_lift r) (\<lambda>st.
       sx_return [(''success'', PBool True), (''stats'', PDict (map (\<lambda>(k, n). (k, PInt (int n))) st))]))
     else if ty = PStr ''db_readings'' then
       sx_bind (sx_lift (py_int (dgetd req ''limit'' (PInt 20)))) (\<lambda>limit.
       sx_bind (sx_lift (text_param env (oget req ''sensor_type''))) (\<lambda>sensor.
       sx_bind (sx_get (\<lambda>s. query_readings sensor limit None (ap_sql s))) (\<lambda>r. sx_bind (sx_lift r) (\<lambda>rs.
       sx_return [(''success'', PBool True), (''readings'', PList (map PDict rs))]))))
     else if ty = PStr ''db_workorders'' then
       sx_bind (sx_lift (text_param env (dgetd req ''status'' (PStr ''OPEN'')))) (\<lambda>status.
       sx_bind (sx_get (\<lambda>s. query_work_orders status 20 (ap_sql s))) (\<lambda>r. sx_bind (sx_lift r) (\<lambda>rs.
       sx_return [(''success'', PBool True), (''work_orders'', PList (map PDict rs))])))
     else if ty = PStr ''autonomous_status'' then sx_return (autonomous_status env)
     else handle_intent env req)"

text \<open>
  A connection: \<open>None\<close> when it is closed without an answer, and otherwise the response with the bytes sent, which
  are missing when the response is no JSON or too long for its prefix.
\<close>

definition respond :: "(pyval \<Rightarrow> byte list result) \<Rightarrow> pyobj \<Rightarrow> pyobj \<times> byte list result" where
  "respond encode resp = (resp, bindE (encode (PDict resp)) frame)"

definition api_handle_client :: "nat \<Rightarrow> (byte list \<Rightarrow> pyval result) \<Rightarrow> (pyval \<Rightarrow> byte list result) \<Rightarrow> ('s, 'x) api_env_scheme \<Rightarrow> segments \<Rightarrow>
    's api \<Rightarrow> (pyobj \<times> byte list result) option \<times> 's api" where
  "api_handle_client limit decode encode env cs s = (case recv_message limit cs of
      Body dat \<Rightarrow> (case (case decode dat of Inl e \<Rightarrow> (Inl e, s) | Inr v \<Rightarrow> dispatch_request env v s) of
          (r, s') \<Rightarrow> (Some (respond encode (guarded env r)), s'))
    | _ \<Rightarrow> (None, s))"

section \<open>Every request is answered\<close>

definition has_success :: "pyobj \<Rightarrow> bool" where
  "has_success resp \<longleftrightarrow> (\<exists>b. dget resp ''success'' = Some (PBool b))"

definition READ_ONLY :: "string list" where
  "READ_ONLY = [''status'', ''peers'', ''workorders'', ''readings'', ''learning'', ''predictions'', ''events'', ''db_stats'', ''db_readings'',
     ''db_workorders'', ''autonomous_status'']"

lemma has_success_true [simp]: "has_success ((''success'', PBool b) # r)"
  by (simp add: has_success_def)

lemma has_success_failure [simp]: "has_success (failure env e)"
  by (simp add: failure_def)

lemma has_success_guarded: "(\<And>x. r = Inr x \<Longrightarrow> has_success x) \<Longrightarrow> has_success (guarded env r)"
  by (cases r) (simp_all add: guarded_def)

lemma has_success_handlers [simp]:
  "has_success (get_swarm_status env db)" "has_success (get_peers_info env)" "has_success (get_rows env key t limit db)"
  "has_success (get_learning_status env)" "has_success (get_recent_events env)" "has_success (autonomous_status env)"
  unfolding get_swarm_status_def get_peers_info_def get_rows_def get_learning_status_def get_recent_events_def autonomous_status_def Let_def
  by (auto intro!: has_success_guarded simp: bindE_Inr_iff split: option.split)

lemma intent_answer: "sx_triple (\<lambda>s. True) (handle_intent env req) (\<lambda>r s. has_success r) (\<lambda>s. True)"
  by (auto simp: handle_intent_def sx_triple_def sx_defs split: prod.split sum.split)

lemma dispatch_answer: "sx_triple (\<lambda>s. True) (dispatch_request env v) (\<lambda>r s. has_success r) (\<lambda>s. True)"
  unfolding dispatch_request_def Let_def get_workorders_list_def get_sensor_readings_list_def get_predictions_list_def
  by (intro sx_triple_lift_bind sx_triple_get_bind sx_triple_if sx_triple_return sx_triple_get intent_answer) simp_all

lemma dispatch_reads_only:
  assumes "dgetd d ''type'' (PStr ''intent'') = PStr ty" and "ty \<in> set READ_ONLY"
  shows "sx_keeps (\<lambda>t. t = s) (dispatch_request env (PDict d))"
  using assms unfolding READ_ONLY_def
  by (simp only: list.set insert_iff empty_iff simp_thms, elim disjE)
    (simp_all add: dispatch_request_def sx_keeps_def sx_defs split: sum.split)


section \<open>Queries behind the database agent\<close>

text \<open>
  The API serves the work orders of the plain store from the file the database agent has taken over: once the agent has
  found the layout of \<open>db/schema.py\<close> there, a request for them fails whatever its parameters, for the
  column they are ordered by is gone.
\<close>
theorem db_workorders_fail:
  assumes "old_layout db" and "ap_sql s = migrate db" and "dgetd req ''type'' (PStr ''intent'') = PStr ''db_workorders''"
    and "text_param env (dgetd req ''status'' (PStr ''OPEN'')) = Inr status"
  shows "dispatch_request env (PDict req) s = (Inl DatabaseError, s)"
proof -
  have t: "dget (ap_sql s) ''work_orders'' = Some (adapter_table ''work_orders'')"
    using migrate_empties[OF assms(1), of "''work_orders''"] assms(2) by simp
  have "\<not> din ''created_at'' (sq_cols (adapter_table ''work_orders''))"
    by (simp add: adapter_table_def adapter_schema_def base_cols_def dgetd_def din_def)
  then have "select_desc ''work_orders'' w ''created_at'' l (ap_sql s) = Inl DatabaseError" for w l
    by (simp add: select_desc_def t)
  then have "query_work_orders status 20 (ap_sql s) = Inl DatabaseError"
    by (simp add: query_work_orders_def split: option.split)
  then show ?thesis by (simp add: dispatch_request_def assms(3,4) sx_defs)
qed

text \<open>A concrete server for the witnesses.\<close>

definition demo_env :: "wire \<Rightarrow> env \<Rightarrow> json_db api_env" where
  "demo_env wi en = \<lparr>ae_now = 5, ae_start = 2, ae_nodes = [], ae_ad = json_adapter, ae_bus = new_evbus, ae_params = Inl OSError, ae_mind = None,
     ae_show = (\<lambda>_. ''error''), ae_text = (\<lambda>_. []), ae_ask = (\<lambda>_. Inl OSError), ae_loads = (\<lambda>_. Inl JSONDecodeError), ae_later = 6,
     ae_orch = \<lparr>oi_now = 0, oi_hx = (\<lambda>_. ''a''), oi_iso = ''t'', oi_me = ''n1'', oi_parse = (\<lambda>_. Inl TypeError), oi_known = [],
       oi_wire = wi, oi_env = en, oi_finished = [], oi_polls = [], oi_llm = None, oi_remote = []\<rparr>, ae_elapsed = 0\<rparr>"

definition demo_api :: "sql_db \<Rightarrow> json_db api" where
  "demo_api db = \<lparr>ap_db = [], ap_sql = db, ap_cache = [],
     ap_orch = \<lparr>or_farm = new_farm, or_window = [], or_got = [], or_saved = [], or_predictions = []\<rparr>\<rparr>"


theorem db_workorders_fail_witness:
  "\<forall>wi en. dispatch_request (demo_env wi en) (PDict [(''type'', PStr ''db_workorders'')]) (demo_api (migrate (schema_init []))) =
     (Inl DatabaseError, demo_api (migrate (schema_init [])))"
  by (intro allI, rule db_workorders_fail[OF schema_old]) (simp_all add: demo_api_def dgetd_def text_param_def)

end
