(* ===== verification/Spec2Isabelle.thy ===== *)
theory Spec2Isabelle
  imports Crawler Wns Ap2Agents E2eeManager E2eeV2Manager KBucket Kademlia Mesh Streams Peers Security Health Workers Decomposer Executor Learning Pipeline Database DBAgent Store Intent Agents Orchestrator Telemetry ApiServer
begin

text \<open>
  Verification library of anp-edge-swarm, a swarm of Python nodes that discover each other, share tasks and data, and run
  agents, together with the Python SDK of the agent network protocol under \<open>src/anp\<close>.

  \<^bold>\<open>How the program fits together.\<close>  Nodes find each other over a Kademlia table, UDP announcements and a Bluetooth mesh; a
  handshake with HMAC signatures admits them.  A sentence of the user becomes an intent, the intent a list of actions, and
  the orchestrator spawns agents for them; independently the decomposer cuts a piece of work into tasks, the distributor
  and the executor send them to nodes, workers run them and the assembler joins the results.  The health monitor declares
  nodes dead and has their tasks done again.  Readings and decisions go through the event bus into telemetry and a
  replicated store; the learning engine reads the history and moves thresholds.  The SDK gives agents an identity (a DID
  document with signed keys), a login over HTTP, handles, crawled interfaces that become tools, encrypted conversations,
  and payment mandates.

  \<^bold>\<open>Theories and sources.\<close>  Every theory has the definitions of its sources first, in the order of the code, then lemmas, then
  properties, then the examples its witnesses run on.

  \<^item> \<open>Prelude\<close>, \<open>PyValue\<close>, \<open>Framing\<close>, \<open>Bytes\<close>: exceptions as values (\<open>pyexc\<close>), methods that change state and may raise
    (the \<open>sx\<close> operations, with one rule per operation for invariants and for triples), dictionaries in insertion order, the
    values a Python variable may hold (\<open>pyval\<close>) with truth, order and indexing, length-prefixed frames over TCP, and
    base 64.
  \<^item> \<open>KBucket\<close>, \<open>Kademlia\<close>, \<open>Mesh\<close>, \<open>Peers\<close>: \<open>swarm/kbucket.py\<close>, \<open>kademlia_node.py\<close>, \<open>dht_discovery.py\<close>,
    \<open>bluetooth_mesh.py\<close>, \<open>bluetooth_transport.py\<close>, \<open>peer_registry.py\<close>, \<open>discovery.py\<close>, \<open>peer_server.py\<close>,
    \<open>peer_client.py\<close>, \<open>result_collector.py\<close>.  Invariants of the routing table and the node under every message, the nearest
    nodes, delivery at most once, termination of the exchange.
  \<^item> \<open>Streams\<close>: \<open>bus/message_bus.py\<close>, \<open>bus/event_bus.py\<close>, \<open>ml/stream_buffer.py\<close>, \<open>ml/context_manager.py\<close>.  The message
    bus refines queues; the contracts of logs, tables and queues are locales, interpreted where they are provided.
  \<^item> \<open>Security\<close>: \<open>security/crypto.py\<close>, \<open>security/handshake.py\<close>.  Signatures, and exactly which responses to a challenge count.
  \<^item> \<open>Health\<close>: \<open>swarm/task_distributor.py\<close>, \<open>swarm/health_monitor.py\<close>.  Where tasks go, what happens to those of a dead node.
  \<^item> \<open>Workers\<close>, \<open>Decomposer\<close>, \<open>Executor\<close>: \<open>ml/task_workers.py\<close>, \<open>model_hierarchy.py\<close>, \<open>task_decomposer.py\<close>,
    \<open>parallel_executor.py\<close>, \<open>inference_server.py\<close>, \<open>result_assembler.py\<close>.  A plan covers its tasks; a task sent to a node
    gives the result it gives locally.
  \<^item> \<open>Learning\<close>, \<open>Pipeline\<close>: \<open>core/self_improvement.py\<close>, \<open>goal_manager.py\<close>, \<open>reflective_decision.py\<close>,
    \<open>pipeline_trigger.py\<close>, \<open>swarm_mind.py\<close>, \<open>agents/action_agent.py\<close>.  Bounds of thresholds and trust under every history.
  \<^item> \<open>Database\<close>, \<open>DBAgent\<close>, \<open>Store\<close>: \<open>db/adapters\<close>, \<open>db/db_agent.py\<close>, \<open>schema.py\<close>, \<open>store.py\<close>, \<open>query.py\<close>,
    \<open>sync.py\<close>.  The adapters answer alike; gossip empties the list of what is unsent.
  \<^item> \<open>Intent\<close>, \<open>Agents\<close>, \<open>Orchestrator\<close>, \<open>Telemetry\<close>, \<open>ApiServer\<close>: \<open>core/intent_parser.py\<close>, \<open>action_planner.py\<close>,
    \<open>decision_agent.py\<close>, \<open>auto_trigger.py\<close>, \<open>orchestrator.py\<close>, \<open>agents\<close>, \<open>agent_factory\<close>, \<open>api/socket_server.py\<close>.  The
    registry holds exactly the running agents; every connection is answered.
  \<^item> \<open>E2eeCrypto\<close>, \<open>Ratchet\<close>, \<open>E2eeSession\<close>, \<open>E2eeChat\<close>, \<open>E2eeGroup\<close>, \<open>E2eeManager\<close>:
    \<open>anp/e2e_encryption_hpke\<close>.  Two sessions understand each other, no message is accepted twice, what a rekey does.
  \<^item> \<open>E2eeV2\<close>, \<open>E2eeV2Manager\<close>: \<open>anp/e2e_encryption_v2\<close> with \<open>anp/utils/crypto_tool.py\<close>.  The handshake of four messages, what
    it may leave behind under any sequence of calls, and the registry of these sessions.
  \<^item> \<open>DidKeys\<close>, \<open>W3cProof\<close>, \<open>DidDoc\<close>, \<open>DidAuth\<close>, \<open>DidVerifier\<close>, \<open>DidClient\<close>: \<open>anp/authentication\<close>, \<open>anp/proof\<close> and
    the middlewares.  A created document resolves, a login is accepted once and gives a token that is accepted.
  \<^item> \<open>Wns\<close>, \<open>ToolSchema\<close>, \<open>Crawler\<close>: \<open>anp/wns\<close>, \<open>anp/anp_crawler\<close>.  Handles and DIDs bind each other; a crawled method
    can be called.
  \<^item> \<open>CanonicalJson\<close>, \<open>Mandates\<close>, \<open>Ap2Agents\<close>: \<open>anp/ap2\<close> and its two example agents.  Equal texts are equal values, a
    mandate is accepted exactly for its contents, time and audience, and the chain from cart to payment.

  \<^bold>\<open>Conventions.\<close>  What lies outside the source is an argument, and what a theorem needs of it is a named hypothesis about that
  argument with a witness: sockets (the bytes that arrive), clocks and random values (readings handed to the call), threads
  (the list of steps they take), SQLite and TinyDB (rows and their constraints), language models, JSON text, curves, hashes,
  ciphers and \<open>PyJWT\<close>.  Floating point numbers are real numbers.  A text is the list of its UTF-8 bytes; changing case and the
  classes of regular expressions are those of ASCII.  A dictionary whose keys may be of different types is keyed by values
  that are equal when Python's keys are.  Values that pass through JSON between nodes arrive as they were sent.  Log output
  is left out, and where only the class of an exception is ever looked at, its message is short.

  \<^bold>\<open>Loops and recursion.\<close>  Loops over data are recursive functions on the data.  Loops that wait take the list of what arrives
  or of the polls, which bounds them; the exchange of the peer client, which may run for ever, is stated to end after its
  retries.  The one fuel is the recursion depth of the schema resolver in \<open>ToolSchema\<close>, which is the interpreter's own
  limit: running out is the exception the interpreter raises, and the theorems hold for every depth.

  \<^bold>\<open>Not modelled.\<close>  The accept loops of servers, starting threads, hardware probing, and scripts: input and output only.  Of
  the SDK: the oldest of the three encryption protocols, coroutines around a WebSocket; the meta protocol, whose behaviour is that of
  a language model; \<open>fastanp\<close> and \<open>openanp\<close> but for their middlewares, which build web applications from Python classes by
  introspection; examples but for the payment agents; other languages.  The keys of an \<open>AUTOINCREMENT\<close> column are left out, as
  nothing reads them.
\<close>

end
